(* ===== verification/Prelude.thy ===== *)
theory Prelude
  imports "HOL-Library.Word"
begin

text \<open>
  Shared vocabulary of the development: the machine types of the C++ sources, byte strings
  and their big-endian reading, Qt's value types that the code only stores and compares, and
  the generic list and word lemmas the component theories use.

  \<^item> \<open>quint8\<close> to \<open>quint64\<close> are \<open>w word\<close>; \<open>QByteArray\<close> is a byte list; \<open>QString\<close> is its list
    of UTF-16 code units; \<open>QUuid\<close> (hence \<open>TransferId\<close>, \<open>FileId\<close>, \<open>DeviceId\<close>) is a 128 bit
    word whose null value is 0.
  \<^item> \<open>QDateTime\<close> is the instant it denotes in milliseconds, or \<open>None\<close> when it is invalid;
    \<open>toUTC\<close> changes the representation only. Invalid values sort before valid ones.
\<close>

section \<open>Types\<close>

type_synonym byte = "8 word"
type_synonym bytes = "8 word list"
type_synonym u16 = "16 word"
type_synonym u32 = "32 word"
type_synonym u64 = "64 word"
type_synonym qstring = "16 word list"
type_synonym uuid = "128 word"
type_synonym qdatetime = "int option"

named_theorems size_simps \<open>sizes of encoded values\<close>
named_theorems roundtrip_simps \<open>a reader applied to what its writer produced\<close>
named_theorems inv_intros \<open>preservation of a component invariant by one operation\<close>

section \<open>Qt value types\<close>

definition qstr :: "string \<Rightarrow> qstring" where
  "qstr s = map of_char s"

definition uuid_null :: "uuid \<Rightarrow> bool" where
  "uuid_null u \<longleftrightarrow> u = 0"

definition dt_valid :: "qdatetime \<Rightarrow> bool" where
  "dt_valid t \<longleftrightarrow> t \<noteq> None"

fun dt_less :: "qdatetime \<Rightarrow> qdatetime \<Rightarrow> bool" where
  "dt_less _ None = False"
| "dt_less None (Some _) = True"
| "dt_less (Some a) (Some b) = (a < b)"

fun dt_add_secs :: "qdatetime \<Rightarrow> int \<Rightarrow> qdatetime" where
  "dt_add_secs None _ = None"
| "dt_add_secs (Some t) s = Some (t + 1000 * s)"

text \<open>Every \<open>QByteArray\<close> has a size that fits \<open>qsizetype\<close>, a signed 64 bit integer.\<close>

definition qsize_ok :: "'a list \<Rightarrow> bool" where
  "qsize_ok xs \<longleftrightarrow> length xs < 2 ^ 63"

lemma dt_less_irrefl [simp]: "\<not> dt_less t t"
  by (cases t) auto

lemma dt_less_trans: "dt_less a b \<Longrightarrow> dt_less b c \<Longrightarrow> dt_less a c"
  by (cases a; cases b; cases c) auto

section \<open>Big-endian integers\<close>

primrec be_encode :: "nat \<Rightarrow> nat \<Rightarrow> bytes" where
  "be_encode 0 v = []"
| "be_encode (Suc n) v = be_encode n (v div 256) @ [word_of_nat (v mod 256)]"

definition be_decode :: "bytes \<Rightarrow> nat" where
  "be_decode bs = foldl (\<lambda>a b. a * 256 + unat b) 0 bs"

lemma be_decode_Nil [simp]: "be_decode [] = 0"
  by (simp add: be_decode_def)

lemma be_decode_snoc [simp]: "be_decode (bs @ [b]) = be_decode bs * 256 + unat b"
  by (simp add: be_decode_def)

lemma length_be_encode [simp, size_simps]: "length (be_encode n v) = n"
  by (induction n arbitrary: v) auto

lemma unat_byte_bound [simp]: "unat (b :: byte) < 256"
  using unsigned_less [of b, where ?'a = nat] by simp

lemma be_decode_encode: "v < 256 ^ n \<Longrightarrow> be_decode (be_encode n v) = v"
proof (induction n arbitrary: v)
  case 0
  then show ?case by simp
next
  case (Suc n)
  then have "v div 256 < 256 ^ n"
    by (simp add: less_mult_imp_div_less mult.commute)
  then have "be_decode (be_encode n (v div 256)) = v div 256"
    by (rule Suc.IH)
  then show ?case
    by (simp add: unat_of_nat)
qed

lemma be_decode_bound: "be_decode bs < 256 ^ length bs"
proof (induction bs rule: rev_induct)
  case Nil
  then show ?case by simp
next
  case (snoc b bs)
  have "be_decode bs + 1 \<le> 256 ^ length bs" using snoc by simp
  then have "(be_decode bs + 1) * 256 \<le> 256 ^ length bs * 256" by (rule mult_le_mono1)
  then show ?case using unat_byte_bound [of b] by (simp del: unat_byte_bound)
qed

lemma be_encode_decode: "length bs = n \<Longrightarrow> be_encode n (be_decode bs) = bs"
proof (induction n arbitrary: bs)
  case 0
  then show ?case by simp
next
  case (Suc n)
  then obtain bs' b where bs: "bs = bs' @ [b]" and len: "length bs' = n"
    by (metis length_Suc_conv_rev)
  have b: "unat b < 256" by simp
  have "(be_decode bs' * 256 + unat b) div 256 = be_decode bs'"
    using b by simp
  moreover have "(be_decode bs' * 256 + unat b) mod 256 = unat b"
    using b by simp
  ultimately show ?case
    using Suc.IH [OF len] by (simp add: bs)
qed

lemma be_encode_decode_take: "n \<le> length bs \<Longrightarrow> be_encode n (be_decode (take n bs)) = take n bs"
  by (rule be_encode_decode) simp

lemma be_decode_take_bound: "n \<le> length bs \<Longrightarrow> be_decode (take n bs) < 256 ^ n"
  using be_decode_bound [of "take n bs"] by (simp add: min_absorb2)

section \<open>Machine words\<close>

lemma unat_ucast_32_64 [simp]: "unat (ucast (x :: u32) :: u64) = unat x"
proof -
  have "unat x < 2 ^ 32"
    using unsigned_less [of x, where ?'a = nat] by simp
  then show ?thesis
    by (simp add: unsigned_ucast_eq take_bit_nat_eq_self_iff)
qed

lemma unat_max_word_minus: "unat (- 1 - (x :: u64)) = 2 ^ 64 - 1 - unat x"
proof -
  have "unat (- 1 - x) = unat (- 1 :: u64) - unat x"
    by (rule unat_sub) (simp add: word_order.extremum)
  moreover have "unat (- 1 :: u64) = 2 ^ 64 - 1"
    by (simp add: unsigned_minus_1_eq_mask mask_eq_exp_minus_1)
  ultimately show ?thesis by (simp only:)
qed

lemma unat_u64_add: "unat x + unat y < 2 ^ 64 \<Longrightarrow> unat ((x :: u64) + y) = unat x + unat y"
  by (simp add: unat_word_ariths)

lemma unat_u64_sub: "unat (y :: u64) \<le> unat x \<Longrightarrow> unat (x - y) = unat x - unat y"
  by (simp add: unat_sub word_le_nat_alt)

lemma word_of_nat_unat_eq: "word_of_nat (unat w) = (w :: 'a :: len word)"
  by simp

lemma unat_of_nat_u64: "n < 2 ^ 64 \<Longrightarrow> unat (word_of_nat n :: u64) = n"
  by (simp add: unat_of_nat)

lemma unat_of_nat_u32: "n < 2 ^ 32 \<Longrightarrow> unat (word_of_nat n :: u32) = n"
  by (simp add: unat_of_nat)

lemma qsize_ok_less: "qsize_ok xs \<Longrightarrow> length xs < 2 ^ 64"
  by (simp add: qsize_ok_def)

section \<open>Lists\<close>

lemma take_drop_split: "i + j \<le> length xs \<Longrightarrow> take (i + j) xs = take i xs @ take j (drop i xs)"
  by (simp add: take_add)

lemma take_le_append: "n \<le> length xs \<Longrightarrow> take n (xs @ ys) = take n xs"
  by simp

lemma distinct_map_filter_upd: "distinct (map f xs) \<Longrightarrow> distinct (map f (filter P xs))"
  by (simp add: distinct_map_filter)

end
