(* ===== verification/StreamBuffer.thy ===== *)
theory StreamBuffer
  imports Prelude
begin

text \<open>
  \<open>StreamBuffer\<close> (src/lib/io): the byte queue below every Deskflow connection, kept as a list of chunks
  of which the first \<open>m_headUsed\<close> bytes are already consumed. The locale \<open>byte_queue\<close> states what a
  queue of bytes promises to the sockets and filters that use one.
\<close>

section \<open>The queue interface\<close>

text \<open>
  \<open>held\<close> is the memory the queue has not given back; a consumed prefix counts until it is dropped,
  so the bound on what may be put is on \<open>held\<close>, not on the content.
\<close>

locale byte_queue =
  fixes size_of :: "'b \<Rightarrow> u32"
    and peek :: "u32 \<Rightarrow> 'b \<Rightarrow> bytes \<times> 'b"
    and pop :: "u32 \<Rightarrow> 'b \<Rightarrow> 'b"
    and put :: "bytes \<Rightarrow> 'b \<Rightarrow> 'b"
    and ok :: "'b \<Rightarrow> bool"
    and content :: "'b \<Rightarrow> bytes"
    and held :: "'b \<Rightarrow> nat"
  assumes size_law: "ok b \<Longrightarrow> unat (size_of b) = length (content b)"
    and peek_law: "ok b \<Longrightarrow> n \<le> size_of b \<Longrightarrow>
      fst (peek n b) = take (unat n) (content b) \<and> ok (snd (peek n b)) \<and>
      content (snd (peek n b)) = content b \<and> held (snd (peek n b)) = held b"
    and pop_law: "ok b \<Longrightarrow>
      ok (pop n b) \<and> content (pop n b) = drop (unat n) (content b) \<and> held (pop n b) \<le> held b"
    and put_law: "ok b \<Longrightarrow> held b + length d < 2 ^ 32 \<Longrightarrow>
      ok (put d b) \<and> content (put d b) = content b @ d \<and> held (put d b) = held b + length d"
begin

lemma size_zero: "ok b \<Longrightarrow> size_of b = 0 \<longleftrightarrow> content b = []"
  using size_law [of b] by (simp add: unat_eq_0 [symmetric])

lemma size_le: "ok b \<Longrightarrow> n \<le> size_of b \<longleftrightarrow> unat n \<le> length (content b)"
  by (simp add: word_le_nat_alt size_law)

lemma take_out:
  assumes "ok b" and "n \<le> size_of b"
  shows "fst (peek n b) = take (unat n) (content b)"
    and "ok (pop n (snd (peek n b)))"
    and "content (pop n (snd (peek n b))) = drop (unat n) (content b)"
    and "held (pop n (snd (peek n b))) \<le> held b"
  using peek_law [OF assms] pop_law [of "snd (peek n b)" n] by auto

lemma clear:
  "ok b \<Longrightarrow> ok (pop (size_of b) b) \<and> content (pop (size_of b) b) = [] \<and> held (pop (size_of b) b) \<le> held b"
  using pop_law [of b "size_of b"] by (simp add: size_law)

end

section \<open>The buffer\<close>

record stream_buffer =
  sb_chunks :: "bytes list"
  sb_size :: u32
  sb_head_used :: u32

definition kChunkSize :: nat where
  "kChunkSize = 4096"

definition new_buffer :: stream_buffer where
  "new_buffer = \<lparr>sb_chunks = [], sb_size = 0, sb_head_used = 0\<rparr>"

text \<open>The loop of \<open>peek\<close> that moves following chunks into the first one.\<close>

fun consolidate :: "nat \<Rightarrow> nat \<Rightarrow> bytes \<Rightarrow> bytes list \<Rightarrow> bytes list" where
  "consolidate used n head [] = [head]"
| "consolidate used n head (c # cs) =
     (if length head - used < n then consolidate used n (head @ c) cs else head # c # cs)"

definition buffer_peek :: "u32 \<Rightarrow> stream_buffer \<Rightarrow> bytes \<times> stream_buffer" where
  "buffer_peek n b =
     (if n = 0 then ([], b)
      else case sb_chunks b of
        [] \<Rightarrow> ([], b)
      | head # rest \<Rightarrow>
          let chunks = consolidate (unat (sb_head_used b)) (unat n) head rest
          in (take (unat n) (drop (unat (sb_head_used b)) (hd chunks)), b\<lparr>sb_chunks := chunks\<rparr>))"

text \<open>The loop of \<open>pop\<close>: the bytes still to discard, the used bytes of the head, the chunks left.\<close>

fun discard :: "nat \<Rightarrow> nat \<Rightarrow> bytes list \<Rightarrow> nat \<times> nat \<times> bytes list" where
  "discard n used [] = (n, used, [])"
| "discard n used (c # cs) =
     (if length c - used \<le> n then discard (n - (length c - used)) 0 cs else (n, used, c # cs))"

definition buffer_pop :: "u32 \<Rightarrow> stream_buffer \<Rightarrow> stream_buffer" where
  "buffer_pop n b =
     (if n \<ge> sb_size b then \<lparr>sb_chunks = [], sb_size = 0, sb_head_used = 0\<rparr>
      else case discard (unat n) (unat (sb_head_used b)) (sb_chunks b) of
        (m, used, chunks) \<Rightarrow>
          \<lparr>sb_chunks = chunks, sb_size = sb_size b - n,
           sb_head_used = word_of_nat (if m > 0 then used + m else used)\<rparr>)"

text \<open>The loop of \<open>write\<close>, from the chunk it currently appends to.\<close>

function fill_chunks :: "bytes \<Rightarrow> bytes \<Rightarrow> bytes list" where
  "fill_chunks scan data =
     (let n = min (kChunkSize - length scan) (length data); rest = drop n data
      in if rest = [] then [scan @ take n data] else (scan @ take n data) # fill_chunks [] rest)"
  by pat_completeness auto
termination
  by (relation "measure (\<lambda>(scan, data). 2 * length data + (if length scan < kChunkSize then 0 else 1))")
     (auto simp: kChunkSize_def)

declare fill_chunks.simps [simp del]

definition buffer_write :: "bytes \<Rightarrow> stream_buffer \<Rightarrow> stream_buffer" where
  "buffer_write data b =
     (if data = [] then b
      else let chunks = sb_chunks b;
               chunks' = (if chunks \<noteq> [] \<and> length (last chunks) < kChunkSize
                          then butlast chunks @ fill_chunks (last chunks) data
                          else chunks @ fill_chunks [] data)
           in b\<lparr>sb_chunks := chunks', sb_size := sb_size b + word_of_nat (length data)\<rparr>)"

section \<open>The buffer is a byte queue\<close>

definition buffer_content :: "stream_buffer \<Rightarrow> bytes" where
  "buffer_content b = drop (unat (sb_head_used b)) (concat (sb_chunks b))"

definition buffer_held :: "stream_buffer \<Rightarrow> nat" where
  "buffer_held b = length (concat (sb_chunks b))"

definition buffer_ok :: "stream_buffer \<Rightarrow> bool" where
  "buffer_ok b \<longleftrightarrow>
     length (concat (sb_chunks b)) = unat (sb_head_used b) + unat (sb_size b) \<and>
     length (concat (sb_chunks b)) < 2 ^ 32 \<and> [] \<notin> set (sb_chunks b) \<and>
     (case sb_chunks b of [] \<Rightarrow> sb_head_used b = 0 | c # cs \<Rightarrow> unat (sb_head_used b) < length c)"

lemma concat_consolidate: "concat (consolidate used n head cs) = head @ concat cs"
  by (induction used n head cs rule: consolidate.induct) auto

lemma consolidate_nonempty:
  "head \<noteq> [] \<Longrightarrow> [] \<notin> set cs \<Longrightarrow> [] \<notin> set (consolidate used n head cs) \<and> consolidate used n head cs \<noteq> []"
  by (induction used n head cs rule: consolidate.induct) auto

lemma consolidate_head:
  "used < length head \<Longrightarrow> n \<le> length head - used + length (concat cs) \<Longrightarrow>
   used < length (hd (consolidate used n head cs)) \<and>
   take n (drop used (hd (consolidate used n head cs))) = take n (drop used (head @ concat cs))"
  by (induction used n head cs rule: consolidate.induct) auto

lemma discard_content:
  assumes "discard n used cs = (m, used', cs')" and "n < length (concat cs) - used"
    and "case cs of [] \<Rightarrow> used = 0 | c # _ \<Rightarrow> used < length c" and "[] \<notin> set cs"
  shows "drop (used' + m) (concat cs') = drop (used + n) (concat cs) \<and>
    [] \<notin> set cs' \<and> cs' \<noteq> [] \<and> used' + m < length (hd cs') \<and>
    length (concat cs') - (used' + m) = length (concat cs) - (used + n) \<and>
    length (concat cs') \<le> length (concat cs)"
  using assms
proof (induction n used cs rule: discard.induct)
  case (2 n used c cs)
  show ?case
  proof (cases "length c - used \<le> n")
    case True
    have u: "used < length c" using "2.prems" by simp
    let ?n = "n - (length c - used)"
    have start: "case cs of [] \<Rightarrow> (0::nat) = 0 | c # _ \<Rightarrow> 0 < length c"
      using "2.prems"(4) by (auto split: list.splits)
    have n: "used + n = length c + ?n" using True u by simp
    have "drop (used' + m) (concat cs') = drop (0 + ?n) (concat cs) \<and>
      [] \<notin> set cs' \<and> cs' \<noteq> [] \<and> used' + m < length (hd cs') \<and>
      length (concat cs') - (used' + m) = length (concat cs) - (0 + ?n) \<and>
      length (concat cs') \<le> length (concat cs)"
      using True "2.prems" u start by (intro "2.IH") auto
    then show ?thesis unfolding n by simp
  qed (use "2.prems" in auto)
qed simp

lemma fill_chunks_fits:
  "length data \<le> kChunkSize - length scan \<Longrightarrow> fill_chunks scan data = [scan @ data]"
  by (subst fill_chunks.simps) (simp add: Let_def)

lemma fill_chunks_splits:
  "kChunkSize - length scan < length data \<Longrightarrow>
   fill_chunks scan data = (scan @ take (kChunkSize - length scan) data) #
     fill_chunks [] (drop (kChunkSize - length scan) data)"
  by (subst fill_chunks.simps) (simp add: Let_def)

lemma fill_chunks_all:
  "concat (fill_chunks scan data) = scan @ data \<and>
   (data \<noteq> [] \<longrightarrow> length scan < kChunkSize \<longrightarrow>
     [] \<notin> set (fill_chunks scan data) \<and> fill_chunks scan data \<noteq> [] \<and>
     length scan < length (hd (fill_chunks scan data)))"
proof (induction scan data rule: fill_chunks.induct)
  case (1 scan data)
  show ?case
  proof (cases "length data \<le> kChunkSize - length scan")
    case True
    then show ?thesis by (simp add: fill_chunks_fits)
  next
    case False
    let ?k = "kChunkSize - length scan"
    from False have more: "?k < length data" by simp
    from more have min: "min ?k (length data) = ?k" by simp
    have "concat (fill_chunks [] (drop ?k data)) = drop ?k data \<and> [] \<notin> set (fill_chunks [] (drop ?k data))"
      using "1.IH" [OF refl refl] more unfolding min by (simp add: kChunkSize_def)
    moreover have "length scan < kChunkSize \<Longrightarrow> length scan < length (scan @ take ?k data)"
      using more by simp
    ultimately show ?thesis
      by (auto simp: fill_chunks_splits [OF more])
  qed
qed

lemma concat_fill: "concat (fill_chunks scan data) = scan @ data"
  using fill_chunks_all by blast

lemma fill_nonempty:
  assumes "data \<noteq> []" and "length scan < kChunkSize"
  obtains c cs where "fill_chunks scan data = c # cs" "[] \<notin> set (c # cs)" "length scan < length c"
  using fill_chunks_all [of scan data] assms by (cases "fill_chunks scan data") auto

lemma buffer_peek_law:
  assumes ok: "buffer_ok b" and n: "n \<le> sb_size b"
  shows "fst (buffer_peek n b) = take (unat n) (buffer_content b) \<and> buffer_ok (snd (buffer_peek n b)) \<and>
    buffer_content (snd (buffer_peek n b)) = buffer_content b \<and>
    buffer_held (snd (buffer_peek n b)) = buffer_held b"
proof (cases "n = 0 \<or> sb_chunks b = []")
  case True
  then show ?thesis using ok n
    by (auto simp: buffer_peek_def buffer_content_def split: list.splits)
next
  case False
  then obtain h cs where chunks: "sb_chunks b = h # cs" by (cases "sb_chunks b") auto
  let ?u = "unat (sb_head_used b)"
  let ?cs = "consolidate ?u (unat n) h cs"
  have bound: "unat n \<le> length h - ?u + length (concat cs)" "?u < length h" "h \<noteq> []" "[] \<notin> set cs"
    using ok n chunks by (auto simp: buffer_ok_def word_le_nat_alt)
  have ne: "[] \<notin> set ?cs" "?cs \<noteq> []" using consolidate_nonempty bound(3,4) by auto
  have hd: "?u < length (hd ?cs)" "take (unat n) (drop ?u (hd ?cs)) = take (unat n) (drop ?u (h @ concat cs))"
    using consolidate_head bound(1,2) by auto
  have "buffer_ok (b\<lparr>sb_chunks := ?cs\<rparr>)"
    using ok ne hd(1) concat_consolidate [of ?u "unat n" h cs] chunks
    by (auto simp: buffer_ok_def split: list.splits)
  with False chunks hd(2) show ?thesis
    by (simp add: buffer_peek_def Let_def buffer_content_def buffer_held_def concat_consolidate)
qed

lemma buffer_pop_law:
  assumes ok: "buffer_ok b"
  shows "buffer_ok (buffer_pop n b) \<and> buffer_content (buffer_pop n b) = drop (unat n) (buffer_content b) \<and>
    buffer_held (buffer_pop n b) \<le> buffer_held b"
proof (cases "n \<ge> sb_size b")
  case True
  then have "length (buffer_content b) \<le> unat n"
    using ok by (auto simp: buffer_ok_def buffer_content_def word_le_nat_alt)
  then show ?thesis
    using True by (simp add: buffer_pop_def buffer_ok_def buffer_content_def buffer_held_def)
next
  case False
  let ?u = "unat (sb_head_used b)"
  obtain m used cs where d: "discard (unat n) ?u (sb_chunks b) = (m, used, cs)" by (metis prod_cases3)
  have len: "length (concat (sb_chunks b)) = ?u + unat (sb_size b)" "length (concat (sb_chunks b)) < 2 ^ 32"
    and n: "unat n < unat (sb_size b)"
    using ok False by (auto simp: buffer_ok_def word_le_nat_alt)
  have "unat n < length (concat (sb_chunks b)) - ?u" using n len by simp
  then have dc: "drop (used + m) (concat cs) = drop (?u + unat n) (concat (sb_chunks b))"
      "[] \<notin> set cs" "cs \<noteq> []" "used + m < length (hd cs)"
      "length (concat cs) - (used + m) = length (concat (sb_chunks b)) - (?u + unat n)"
      "length (concat cs) \<le> length (concat (sb_chunks b))"
    using discard_content [OF d] ok by (auto simp: buffer_ok_def split: list.splits)
  have eq: "buffer_pop n b = \<lparr>sb_chunks = cs, sb_size = sb_size b - n, sb_head_used = word_of_nat (used + m)\<rparr>"
    using False d by (auto simp: buffer_pop_def)
  have size: "unat (sb_size b - n) = unat (sb_size b) - unat n"
    using n by (simp add: unat_sub word_le_nat_alt)
  have hd: "used + m < length (concat cs)" using dc(3,4) by (cases cs) auto
  then have um: "unat (word_of_nat (used + m) :: u32) = used + m"
    using dc(6) len(2) by (intro unat_of_nat_u32) simp
  have "length (concat cs) = (used + m) + (unat (sb_size b) - unat n)"
    using dc(5) hd len(1) by linarith
  moreover have "used + m < length c" if "cs = c # cs'" for c cs' using dc(4) that by simp
  moreover have "drop (unat n) (drop ?u (concat (sb_chunks b))) = drop (used + m) (concat cs)"
    using dc(1) by (simp add: add.commute)
  ultimately show ?thesis
    using dc(2,3,6) um size len(2)
    by (simp only: eq buffer_ok_def buffer_content_def buffer_held_def stream_buffer.simps)
       (simp split: list.split)
qed

lemma buffer_write_law:
  assumes ok: "buffer_ok b" and room: "buffer_held b + length d < 2 ^ 32"
  shows "buffer_ok (buffer_write d b) \<and> buffer_content (buffer_write d b) = buffer_content b @ d \<and>
    buffer_held (buffer_write d b) = buffer_held b + length d"
proof (cases "d = []")
  case True
  with ok show ?thesis by (simp add: buffer_write_def)
next
  case False
  let ?old = "sb_chunks b"
  define new where "new = (if ?old \<noteq> [] \<and> length (last ?old) < kChunkSize
    then butlast ?old @ fill_chunks (last ?old) d else ?old @ fill_chunks [] d)"
  have eq: "buffer_write d b = b\<lparr>sb_chunks := new, sb_size := sb_size b + word_of_nat (length d)\<rparr>"
    using False by (simp only: buffer_write_def Let_def new_def if_False)
  have content: "concat new = concat ?old @ d"
  proof (cases "?old \<noteq> [] \<and> length (last ?old) < kChunkSize")
    case True
    then have "concat ?old = concat (butlast ?old) @ last ?old"
      by (metis append_butlast_last_id concat_append concat.simps append_Nil2)
    with True show ?thesis by (simp add: concat_fill new_def)
  qed (auto simp: concat_fill new_def)
  obtain c cs where fresh: "fill_chunks [] d = c # cs" "[] \<notin> set (c # cs)" "0 < length c"
    using fill_nonempty [OF False, of "[]"] by (auto simp: kChunkSize_def)
  have shape: "[] \<notin> set new \<and>
      (case new of [] \<Rightarrow> sb_head_used b = 0 | c # cs \<Rightarrow> unat (sb_head_used b) < length c)"
  proof (cases "?old \<noteq> [] \<and> length (last ?old) < kChunkSize")
    case True
    then obtain e es where fill: "fill_chunks (last ?old) d = e # es" "[] \<notin> set (e # es)"
        "length (last ?old) < length e"
      using fill_nonempty [OF False, of "last ?old"] by auto
    obtain old x where old: "?old = old @ [x]" using True by (metis append_butlast_last_id)
    show ?thesis using True ok fill
      by (cases old) (auto simp: old buffer_ok_def new_def)
  next
    case no_room: False
    then have "new = ?old @ c # cs" using fresh(1) by (auto simp: new_def)
    with ok fresh(2,3) show ?thesis by (cases ?old) (auto simp: buffer_ok_def)
  qed
  have size: "unat (sb_size b + word_of_nat (length d)) = unat (sb_size b) + length d"
    using ok room by (auto simp: buffer_ok_def buffer_held_def unat_word_ariths unat_of_nat_u32)
  have "unat (sb_head_used b) \<le> length (concat ?old)" using ok by (simp add: buffer_ok_def)
  then show ?thesis
    using ok content shape size room
    by (simp add: eq buffer_ok_def buffer_content_def buffer_held_def split: list.splits)
qed

lemma new_buffer_ok [simp]: "buffer_ok new_buffer" "buffer_content new_buffer = []" "buffer_held new_buffer = 0"
  by (simp_all add: buffer_ok_def buffer_content_def buffer_held_def new_buffer_def)

lemma buffer_size_law: "buffer_ok b \<Longrightarrow> unat (sb_size b) = length (buffer_content b)"
  by (simp add: buffer_ok_def buffer_content_def)

interpretation buffer: byte_queue sb_size buffer_peek buffer_pop buffer_write buffer_ok buffer_content buffer_held
  by unfold_locales (fact buffer_size_law buffer_peek_law buffer_pop_law buffer_write_law)+

section \<open>Against a plain byte list\<close>

text \<open>
  The calls a user makes on a buffer; the specification runs them on a byte list and gives up where
  the code asserts, on a peek beyond the buffered bytes.
\<close>

datatype buffer_call = BC_Write bytes | BC_Peek u32 | BC_Pop u32

fun buffer_replay :: "buffer_call list \<Rightarrow> stream_buffer \<Rightarrow> bytes list \<times> stream_buffer" where
  "buffer_replay [] b = ([], b)"
| "buffer_replay (BC_Write d # cs) b = buffer_replay cs (buffer_write d b)"
| "buffer_replay (BC_Pop n # cs) b = buffer_replay cs (buffer_pop n b)"
| "buffer_replay (BC_Peek n # cs) b =
     (case buffer_peek n b of (out, b1) \<Rightarrow>
      case buffer_replay cs b1 of (outs, b2) \<Rightarrow> (out # outs, b2))"

fun list_replay :: "buffer_call list \<Rightarrow> bytes \<Rightarrow> (bytes list \<times> bytes) option" where
  "list_replay [] q = Some ([], q)"
| "list_replay (BC_Write d # cs) q = list_replay cs (q @ d)"
| "list_replay (BC_Pop n # cs) q = list_replay cs (drop (unat n) q)"
| "list_replay (BC_Peek n # cs) q =
     (if length q < unat n then None
      else map_option (\<lambda>(outs, r). (take (unat n) q # outs, r)) (list_replay cs q))"

fun bytes_written :: "buffer_call list \<Rightarrow> nat" where
  "bytes_written [] = 0"
| "bytes_written (BC_Write d # cs) = length d + bytes_written cs"
| "bytes_written (_ # cs) = bytes_written cs"

lemma buffer_replay_list:
  "buffer_ok b \<Longrightarrow> buffer_held b + bytes_written cs < 2 ^ 32 \<Longrightarrow>
   list_replay cs (buffer_content b) = Some (outs, q) \<Longrightarrow>
   \<exists>b'. buffer_replay cs b = (outs, b') \<and> buffer_ok b' \<and> buffer_content b' = q"
proof (induction cs arbitrary: b outs)
  case (Cons c cs)
  show ?case
  proof (cases c)
    case (BC_Write d)
    then show ?thesis
      using Cons.prems buffer.put_law [OF Cons.prems(1), of d] Cons.IH [of "buffer_write d b" outs] by simp
  next
    case (BC_Pop n)
    then show ?thesis
      using Cons.prems buffer.pop_law [OF Cons.prems(1), of n] Cons.IH [of "buffer_pop n b" outs] by simp
  next
    case (BC_Peek n)
    then obtain os where n: "unat n \<le> length (buffer_content b)"
      and os: "list_replay cs (buffer_content b) = Some (os, q)" "outs = take (unat n) (buffer_content b) # os"
      using Cons.prems(3) by (auto split: if_splits)
    then show ?thesis
      using BC_Peek Cons.prems buffer.peek_law [OF Cons.prems(1), of n] buffer.size_le [OF Cons.prems(1), of n]
        Cons.IH [of "snd (buffer_peek n b)" os]
      by (auto simp: case_prod_unfold)
  qed
qed simp

text \<open>C35. A stream buffer is a first-in first-out queue of bytes: over any sequence of writes, peeks
  and pops, as long as no peek asks for more than is buffered and the bytes written stay below
  4 GiB, every peek returns what a plain byte list gives, and the reported size is the length
  of that list.\<close>

theorem stream_buffer_is_fifo:
  assumes "list_replay cs [] = Some (outs, q)" and "bytes_written cs < 2 ^ 32"
  shows "\<exists>b. buffer_replay cs new_buffer = (outs, b) \<and> unat (sb_size b) = length q"
  using buffer_replay_list [of new_buffer cs outs q] assms buffer.size_law by fastforce

theorem stream_buffer_is_fifo_witness:
  "\<exists>b. buffer_replay [BC_Write [1, 2, 3], BC_Pop 1, BC_Write [4], BC_Peek 2] new_buffer = ([[2, 3]], b) \<and>
     unat (sb_size b) = length [2 :: byte, 3, 4]"
  by (rule stream_buffer_is_fifo) simp_all

end
