(* ===== verification/MachineInterface.thy ===== *)
theory MachineInterface
  imports Prelude
begin

text \<open>
  Two contracts shared by the state machines of the program. A \<open>machine\<close> offers one total step
  function over its operations and keeps an invariant; an \<open>absorbing_machine\<close> also has terminal
  states whose observable part no operation but an explicit restart may change. Clients get
  the statements over whole runs (any interleaving of operations) from the single-step laws.
\<close>

fun run :: "('s \<Rightarrow> 'e \<Rightarrow> 's) \<Rightarrow> 's \<Rightarrow> 'e list \<Rightarrow> 's" where
  "run step s [] = s"
| "run step s (e # es) = run step (step s e) es"

lemma run_append: "run step s (es @ fs) = run step (run step s es) fs"
  by (induction es arbitrary: s) auto

locale machine =
  fixes step :: "'s \<Rightarrow> 'e \<Rightarrow> 's"
    and inv :: "'s \<Rightarrow> bool"
  assumes inv_step: "inv s \<Longrightarrow> inv (step s e)"
begin

lemma inv_run: "inv s \<Longrightarrow> inv (run step s es)"
  by (induction es arbitrary: s) (auto intro: inv_step)

end

locale absorbing_machine = machine step inv
  for step :: "'s \<Rightarrow> 'e \<Rightarrow> 's" and inv :: "'s \<Rightarrow> bool" +
  fixes terminal :: "'s \<Rightarrow> bool"
    and view :: "'s \<Rightarrow> 'v"
    and restart :: "'e \<Rightarrow> bool"
  assumes terminal_step: "inv s \<Longrightarrow> terminal s \<Longrightarrow> \<not> restart e \<Longrightarrow> terminal (step s e)"
    and view_step: "inv s \<Longrightarrow> terminal s \<Longrightarrow> \<not> restart e \<Longrightarrow> view (step s e) = view s"
begin

lemma terminal_run:
  assumes "inv s" and "terminal s" and "\<forall>e \<in> set es. \<not> restart e"
  shows "terminal (run step s es) \<and> view (run step s es) = view s"
  using assms
proof (induction es arbitrary: s)
  case Nil
  then show ?case by simp
next
  case (Cons e es)
  then have "terminal (run step (step s e) es) \<and> view (run step (step s e) es) = view (step s e)"
    by (intro Cons.IH) (auto intro: inv_step terminal_step)
  with Cons.prems show ?case by (auto simp: view_step)
qed

text \<open>Once terminal, the observable outcome is the same after any two later runs.\<close>

lemma outcome_final:
  assumes "inv s" and "terminal (run step s es)"
    and "\<forall>e \<in> set fs. \<not> restart e" and "\<forall>e \<in> set gs. \<not> restart e"
  shows "view (run step s (es @ fs)) = view (run step s (es @ gs))"
  using terminal_run [OF inv_run [OF assms(1), of es] assms(2,3)]
    terminal_run [OF inv_run [OF assms(1), of es] assms(2,4)]
  by (simp add: run_append)

end

text \<open>
  A monotone measure along runs: an observable that single steps never decrease is never
  decreased by a run. Progress counters, sequence numbers and generations use it.
\<close>

locale monotone_machine = machine step inv
  for step :: "'s \<Rightarrow> 'e \<Rightarrow> 's" and inv :: "'s \<Rightarrow> bool" +
  fixes level :: "'s \<Rightarrow> nat"
    and resets :: "'e \<Rightarrow> bool"
  assumes level_step: "inv s \<Longrightarrow> \<not> resets e \<Longrightarrow> level s \<le> level (step s e)"
begin

lemma level_run: "inv s \<Longrightarrow> \<forall>e \<in> set es. \<not> resets e \<Longrightarrow> level s \<le> level (run step s es)"
proof (induction es arbitrary: s)
  case Nil
  then show ?case by simp
next
  case (Cons e es)
  then have "level (step s e) \<le> level (run step (step s e) es)"
    by (intro Cons.IH) (auto intro: inv_step)
  moreover have "level s \<le> level (step s e)"
    using Cons.prems by (auto intro: level_step)
  ultimately show ?case by simp
qed

end

text \<open>
  Provenance: an observable set of facts that a single step only extends by what the operation
  itself contributes. A fact found after a run is traced back to the operation that gave it,
  in the state in which that operation ran. Trust and authenticity statements use it.
\<close>

locale provenance_machine = machine step inv
  for step :: "'s \<Rightarrow> 'e \<Rightarrow> 's" and inv :: "'s \<Rightarrow> bool" +
  fixes facts :: "'s \<Rightarrow> 'x set"
    and gives :: "'s \<Rightarrow> 'e \<Rightarrow> 'x set"
  assumes facts_step: "inv s \<Longrightarrow> facts (step s e) \<subseteq> facts s \<union> gives s e"
begin

lemma origin:
  assumes "inv s" and "x \<in> facts (run step s es)" and "x \<notin> facts s"
  shows "\<exists>before e after. es = before @ e # after \<and> x \<in> gives (run step s before) e"
  using assms
proof (induction es arbitrary: s)
  case Nil
  then show ?case by simp
next
  case (Cons e es)
  show ?case
  proof (cases "x \<in> facts (step s e)")
    case True
    then have "x \<in> gives s e"
      using facts_step [OF Cons.prems(1)] Cons.prems(3) by blast
    then have "e # es = [] @ e # es \<and> x \<in> gives (run step s []) e" by simp
    then show ?thesis by blast
  next
    case False
    then obtain before f after where "es = before @ f # after"
        and "x \<in> gives (run step (step s e) before) f"
      using Cons.IH [of "step s e"] Cons.prems inv_step by auto
    then have "e # es = (e # before) @ f # after \<and> x \<in> gives (run step s (e # before)) f" by simp
    then show ?thesis by blast
  qed
qed

end

end
