(* ===== verification/TcpSocket.thy ===== *)
theory TcpSocket
  imports StreamBuffer MachineInterface
begin

text \<open>
  \<open>TCPSocket\<close> (src/lib/net): the non-blocking data socket below every connection. The operating system
  answers the calls of \<open>ARCH\<close>; its answers are arguments. A socket registers with the multiplexer a
  job that says for what it waits; \<open>service\<close> is the multiplexer calling that job. Each method runs
  under the socket's mutex and is one step. Events are a log.
\<close>

section \<open>State\<close>

datatype stream_event =
    EV_DataSocketConnected | EV_DataSocketConnectionFailed | EV_SocketDisconnected
  | EV_StreamInputReady | EV_StreamInputShutdown | EV_StreamInputFormatError
  | EV_StreamOutputFlushed | EV_StreamOutputShutdown | EV_StreamOutputError

datatype socket_job = SJ_Connecting bool bool | SJ_Connected bool bool

datatype job_result = JR_Break | JR_Retry | JR_New

datatype read_answer = RA_Bytes bytes | RA_Disconnected | RA_Error

datatype write_answer = WA_Wrote u32 | WA_Shutdown | WA_Disconnected | WA_Error

datatype connect_answer = CA_Connected | CA_InProgress | CA_Error

record tcp_socket =
  sk_open :: bool
  sk_connected :: bool
  sk_readable :: bool
  sk_writable :: bool
  sk_flushed :: bool
  sk_input :: stream_buffer
  sk_output :: stream_buffer
  sk_job :: "socket_job option"
  sk_events :: "stream_event list"

definition s_maxInputBufferSize :: u32 where
  "s_maxInputBufferSize = 1048576"

definition socket_event :: "stream_event \<Rightarrow> tcp_socket \<Rightarrow> tcp_socket" where
  "socket_event e k = k\<lparr>sk_events := sk_events k @ [e]\<rparr>"

definition new_job :: "tcp_socket \<Rightarrow> socket_job option" where
  "new_job k =
     (if \<not> sk_open k then None
      else if \<not> sk_connected k then
        (if \<not> (sk_readable k \<or> sk_writable k) then None
         else Some (SJ_Connecting (sk_readable k) (sk_writable k)))
      else
        (if \<not> (sk_readable k \<or> (sk_writable k \<and> sb_size (sk_output k) > 0)) then None
         else Some (SJ_Connected (sk_readable k) (sk_writable k \<and> sb_size (sk_output k) > 0))))"

definition set_new_job :: "tcp_socket \<Rightarrow> tcp_socket" where
  "set_new_job k = k\<lparr>sk_job := new_job k\<rparr>"

definition on_connected :: "tcp_socket \<Rightarrow> tcp_socket" where
  "on_connected k = k\<lparr>sk_connected := True, sk_readable := True, sk_writable := True\<rparr>"

definition on_input_shutdown :: "tcp_socket \<Rightarrow> tcp_socket" where
  "on_input_shutdown k = k\<lparr>sk_input := buffer_pop (sb_size (sk_input k)) (sk_input k), sk_readable := False\<rparr>"

definition on_output_shutdown :: "tcp_socket \<Rightarrow> tcp_socket" where
  "on_output_shutdown k =
     k\<lparr>sk_output := buffer_pop (sb_size (sk_output k)) (sk_output k), sk_writable := False, sk_flushed := True\<rparr>"

definition on_disconnected :: "tcp_socket \<Rightarrow> tcp_socket" where
  "on_disconnected k = (on_output_shutdown (on_input_shutdown k))\<lparr>sk_connected := False\<rparr>"

text \<open>The two constructors: an own socket still to be connected, and an accepted one.\<close>

definition new_tcp_socket :: tcp_socket where
  "new_tcp_socket =
     \<lparr>sk_open = True, sk_connected = False, sk_readable = False, sk_writable = False, sk_flushed = True,
      sk_input = new_buffer, sk_output = new_buffer, sk_job = None, sk_events = []\<rparr>"

definition accepted_tcp_socket :: tcp_socket where
  "accepted_tcp_socket = set_new_job (on_connected new_tcp_socket)"

section \<open>Operations of the owner\<close>

definition socket_close :: "tcp_socket \<Rightarrow> tcp_socket" where
  "socket_close k =
     (let k1 = k\<lparr>sk_job := None\<rparr>;
          k2 = (if sk_connected k1 then socket_event EV_SocketDisconnected k1 else k1)
      in (on_disconnected k2)\<lparr>sk_open := False\<rparr>)"

definition socket_read :: "u32 \<Rightarrow> tcp_socket \<Rightarrow> bytes \<times> tcp_socket" where
  "socket_read n k =
     (let size = sb_size (sk_input k);
          n1 = (if n > size then size else n);
          out_b = buffer_peek n1 (sk_input k);
          k1 = k\<lparr>sk_input := buffer_pop n1 (snd out_b)\<rparr>;
          k2 = (if n1 > 0 \<and> sb_size (sk_input k1) = 0 \<and> \<not> sk_readable k1 \<and> \<not> sk_writable k1
                then (socket_event EV_SocketDisconnected k1)\<lparr>sk_connected := False\<rparr> else k1)
      in (fst out_b, k2))"

definition socket_write :: "bytes \<Rightarrow> tcp_socket \<Rightarrow> tcp_socket" where
  "socket_write data k =
     (if \<not> sk_writable k then socket_event EV_StreamOutputError k
      else if data = [] then k
      else let was_empty = (sb_size (sk_output k) = 0);
               k1 = k\<lparr>sk_output := buffer_write data (sk_output k), sk_flushed := False\<rparr>
           in if was_empty then set_new_job k1 else k1)"

definition socket_shutdown_input :: "tcp_socket \<Rightarrow> tcp_socket" where
  "socket_shutdown_input k =
     (if sk_readable k then set_new_job (on_input_shutdown (socket_event EV_StreamInputShutdown k)) else k)"

definition socket_shutdown_output :: "tcp_socket \<Rightarrow> tcp_socket" where
  "socket_shutdown_output k =
     (if sk_writable k then set_new_job (on_output_shutdown (socket_event EV_StreamOutputShutdown k)) else k)"

text \<open>\<open>True\<close> when \<open>connect\<close> throws a \<open>SocketConnectException\<close>.\<close>

definition socket_connect :: "connect_answer \<Rightarrow> tcp_socket \<Rightarrow> bool \<times> tcp_socket" where
  "socket_connect a k =
     (if \<not> sk_open k \<or> sk_connected k then (False, socket_event EV_DataSocketConnectionFailed k)
      else case a of
        CA_Connected \<Rightarrow> (False, set_new_job (on_connected (socket_event EV_DataSocketConnected k)))
      | CA_InProgress \<Rightarrow> (False, set_new_job (k\<lparr>sk_writable := True\<rparr>))
      | CA_Error \<Rightarrow> (True, k))"

section \<open>Service by the multiplexer\<close>

text \<open>
  The loop of \<open>doRead\<close> after the first piece; \<open>answers i\<close> answers the \<open>i\<close>th call of \<open>readSocket\<close>, whose
  buffer has 4096 bytes. The result says how the loop ended: \<open>None\<close> normally, else the exception.
\<close>

function slurp :: "(nat \<Rightarrow> read_answer) \<Rightarrow> nat \<Rightarrow> stream_buffer \<Rightarrow> read_answer option \<times> stream_buffer" where
  "slurp answers i b =
     (if sb_size b > s_maxInputBufferSize then (None, b)
      else case answers i of
        RA_Bytes d \<Rightarrow>
          if d = [] then (None, b) else slurp answers (Suc i) (buffer_write (take 4096 d) b)
      | e \<Rightarrow> (Some e, b))"
  by pat_completeness auto

lemma size_after_write:
  "sb_size b \<le> s_maxInputBufferSize \<Longrightarrow>
   unat (sb_size (buffer_write (take 4096 d) b)) = unat (sb_size b) + min 4096 (length d)"
  by (auto simp: buffer_write_def Let_def s_maxInputBufferSize_def word_le_nat_alt unat_word_ariths
      unat_of_nat_u32 min_def)

lemma slurp_progress:
  assumes "\<not> s_maxInputBufferSize < sb_size b" and "d \<noteq> []"
  shows "1048577 - unat (sb_size (buffer_write (take 4096 d) b)) < 1048577 - unat (sb_size b)"
proof -
  have "unat (sb_size b) \<le> 1048576"
    using assms(1) by (simp add: s_maxInputBufferSize_def word_le_nat_alt not_less)
  moreover have "0 < min 4096 (length d)" using assms(2) by simp
  moreover have "unat (sb_size (buffer_write (take 4096 d) b)) = unat (sb_size b) + min 4096 (length d)"
    using assms(1) by (intro size_after_write) simp
  ultimately show ?thesis by linarith
qed

termination slurp
  by (relation "measure (\<lambda>(answers, i, b). 1048577 - unat (sb_size b))") (simp_all add: slurp_progress)

declare slurp.simps [simp del]

text \<open>\<open>doRead\<close>: an exception leaves the socket as it was when it was thrown.\<close>

definition do_read :: "(nat \<Rightarrow> read_answer) \<Rightarrow> tcp_socket \<Rightarrow> (read_answer + job_result) \<times> tcp_socket" where
  "do_read answers k =
     (case answers 0 of
        RA_Bytes d \<Rightarrow>
          if d \<noteq> [] then
            (let was_empty = (sb_size (sk_input k) = 0) in
             case slurp answers 1 (buffer_write (take 4096 d) (sk_input k)) of
               (Some e, b) \<Rightarrow> (Inl e, k\<lparr>sk_input := b\<rparr>)
             | (None, b) \<Rightarrow>
                 (Inr JR_Retry,
                  if was_empty then socket_event EV_StreamInputReady (k\<lparr>sk_input := b\<rparr>)
                  else k\<lparr>sk_input := b\<rparr>))
          else
            (let k1 = socket_event EV_StreamInputShutdown k;
                 k2 = (if \<not> sk_writable k1 \<and> sb_size (sk_input k1) = 0
                       then (socket_event EV_SocketDisconnected k1)\<lparr>sk_connected := False\<rparr> else k1)
             in (Inr JR_New, k2\<lparr>sk_readable := False\<rparr>))
      | e \<Rightarrow> (Inl e, k))"

definition discard_written_data :: "u32 \<Rightarrow> tcp_socket \<Rightarrow> tcp_socket" where
  "discard_written_data n k =
     (let k1 = k\<lparr>sk_output := buffer_pop n (sk_output k)\<rparr>
      in if sb_size (sk_output k1) = 0 then (socket_event EV_StreamOutputFlushed k1)\<lparr>sk_flushed := True\<rparr>
         else k1)"

definition do_write :: "write_answer \<Rightarrow> tcp_socket \<Rightarrow> (write_answer + job_result) \<times> tcp_socket" where
  "do_write answer k =
     (let k1 = k\<lparr>sk_output := snd (buffer_peek (sb_size (sk_output k)) (sk_output k))\<rparr>
      in case answer of
           WA_Wrote n \<Rightarrow> if n > 0 then (Inr JR_New, discard_written_data n k1) else (Inr JR_Retry, k1)
         | e \<Rightarrow> (Inl e, k1))"

definition service_connecting :: "bool \<Rightarrow> bool \<Rightarrow> tcp_socket \<Rightarrow> tcp_socket" where
  "service_connecting write_ready failed k =
     (if failed then set_new_job (on_disconnected (socket_event EV_DataSocketConnectionFailed k))
      else if write_ready then set_new_job (on_connected (socket_event EV_DataSocketConnected k))
      else k)"

definition service_write :: "write_answer \<Rightarrow> tcp_socket \<Rightarrow> job_result \<times> tcp_socket" where
  "service_write answer k =
     (case do_write answer k of
        (Inr r, k1) \<Rightarrow> (r, k1)
      | (Inl e, k1) \<Rightarrow>
          (JR_New,
           if e = WA_Shutdown then
             (let k2 = socket_event EV_StreamOutputShutdown (on_output_shutdown k1)
              in if \<not> sk_readable k2 \<and> sb_size (sk_input k2) = 0
                 then (socket_event EV_SocketDisconnected k2)\<lparr>sk_connected := False\<rparr> else k2)
           else if e = WA_Disconnected then socket_event EV_SocketDisconnected (on_disconnected k1)
           else socket_event EV_SocketDisconnected (socket_event EV_StreamOutputError (on_disconnected k1))))"

definition service_read :: "(nat \<Rightarrow> read_answer) \<Rightarrow> tcp_socket \<Rightarrow> job_result \<times> tcp_socket" where
  "service_read answers k =
     (case do_read answers k of
        (Inr r, k1) \<Rightarrow> (r, k1)
      | (Inl e, k1) \<Rightarrow>
          if e = RA_Disconnected then (JR_New, on_disconnected (socket_event EV_SocketDisconnected k1))
          else (JR_Retry, k1))"

definition service_connected ::
  "bool \<Rightarrow> bool \<Rightarrow> bool \<Rightarrow> (nat \<Rightarrow> read_answer) \<Rightarrow> write_answer \<Rightarrow> tcp_socket \<Rightarrow> tcp_socket" where
  "service_connected read_ready write_ready error reads wrote k =
     (if error then set_new_job (on_disconnected (socket_event EV_SocketDisconnected k))
      else
        let (write_result, k1) = (if write_ready then service_write wrote k else (JR_Retry, k));
            (read_result, k2) = (if read_ready \<and> sk_readable k1 then service_read reads k1 else (JR_Retry, k1))
        in if read_result = JR_Break \<or> write_result = JR_Break then k2\<lparr>sk_job := None\<rparr>
           else if write_result = JR_New \<or> read_result = JR_New then set_new_job k2
           else k2)"

text \<open>
  The multiplexer calls whatever job is registered; without a job it does nothing. A connecting
  socket ignores the error flag and asks the system for its error itself (\<open>failed\<close>).
\<close>

definition socket_service ::
  "bool \<Rightarrow> bool \<Rightarrow> bool \<Rightarrow> bool \<Rightarrow> (nat \<Rightarrow> read_answer) \<Rightarrow> write_answer \<Rightarrow> tcp_socket \<Rightarrow> tcp_socket" where
  "socket_service r w e failed reads wrote k =
     (case sk_job k of
        None \<Rightarrow> k
      | Some (SJ_Connecting _ _) \<Rightarrow> service_connecting w failed k
      | Some (SJ_Connected _ _) \<Rightarrow> service_connected r w e reads wrote k)"

section \<open>Invariant\<close>

datatype socket_call =
    SC_Connect connect_answer
  | SC_Read u32
  | SC_Write bytes
  | SC_ShutdownInput
  | SC_ShutdownOutput
  | SC_Close
  | SC_Service bool bool bool bool "nat \<Rightarrow> read_answer" write_answer

fun socket_step :: "tcp_socket \<Rightarrow> socket_call \<Rightarrow> tcp_socket" where
  "socket_step k (SC_Connect a) = snd (socket_connect a k)"
| "socket_step k (SC_Read n) = snd (socket_read n k)"
| "socket_step k (SC_Write d) = socket_write d k"
| "socket_step k SC_ShutdownInput = socket_shutdown_input k"
| "socket_step k SC_ShutdownOutput = socket_shutdown_output k"
| "socket_step k SC_Close = socket_close k"
| "socket_step k (SC_Service r w e f reads wrote) = socket_service r w e f reads wrote k"

text \<open>
  The registered job is always the one the state asks for, so a socket with bytes to send is
  waiting to write; \<open>flush\<close> waits exactly while bytes are buffered; a closed socket is inert.
\<close>

definition socket_inv :: "tcp_socket \<Rightarrow> bool" where
  "socket_inv k \<longleftrightarrow>
     sk_job k = new_job k \<and>
     (sk_flushed k \<longleftrightarrow> sb_size (sk_output k) = 0) \<and>
     (sk_readable k \<longrightarrow> sk_connected k) \<and>
     (\<not> sk_open k \<longrightarrow> \<not> sk_connected k \<and> \<not> sk_writable k \<and> sk_job k = None)"

lemma pop_all [simp]: "sb_size (buffer_pop (sb_size b) b) = 0"
  by (simp add: buffer_pop_def)

lemma peek_size [simp]: "sb_size (snd (buffer_peek n b)) = sb_size b"
  by (simp add: buffer_peek_def Let_def split: list.splits)

lemmas socket_ops =
  socket_event_def new_job_def set_new_job_def on_connected_def on_input_shutdown_def
  on_output_shutdown_def on_disconnected_def

fun call_bytes :: "socket_call \<Rightarrow> nat" where
  "call_bytes (SC_Write d) = length d"
| "call_bytes _ = 0"

definition calls_bytes :: "socket_call list \<Rightarrow> nat" where
  "calls_bytes cs = sum_list (map call_bytes cs)"

lemma pop_size_le: "sb_size (buffer_pop n b) \<le> sb_size b"
  by (auto simp: buffer_pop_def case_prod_unfold word_le_nat_alt unat_sub)

lemma write_size:
  "unat (sb_size b) + length d < 2 ^ 32 \<Longrightarrow> unat (sb_size (buffer_write d b)) = unat (sb_size b) + length d"
  by (auto simp: buffer_write_def Let_def unat_word_ariths unat_of_nat_u32)

text \<open>A socket without output is not affected by what it reads; \<open>outward\<close> is what a job depends on.\<close>

definition outward :: "tcp_socket \<Rightarrow> bool \<times> bool \<times> bool \<times> bool \<times> bool \<times> u32 \<times> socket_job option" where
  "outward k = (sk_open k, sk_connected k, sk_readable k, sk_writable k, sk_flushed k,
     sb_size (sk_output k), sk_job k)"

lemma outward_inv: "outward k = outward k' \<Longrightarrow> socket_inv k = socket_inv k'"
  by (auto simp: outward_def socket_inv_def new_job_def)

lemma do_read_cases:
  assumes "do_read answers k = (r, k')"
  shows "(r = Inr JR_New \<and> sk_open k' = sk_open k \<and> \<not> sk_readable k' \<and> sk_writable k' = sk_writable k \<and>
      sk_flushed k' = sk_flushed k \<and> sk_output k' = sk_output k \<and> (sk_connected k' \<longrightarrow> sk_connected k)) \<or>
   (r \<noteq> Inr JR_New \<and> r \<noteq> Inr JR_Break \<and> outward k' = outward k)"
proof (cases "\<exists>d. answers 0 = RA_Bytes d \<and> d \<noteq> []")
  case True
  then obtain d where d: "answers 0 = RA_Bytes d" "d \<noteq> []" by blast
  obtain e b where sl: "slurp answers 1 (buffer_write (take 4096 d) (sk_input k)) = (e, b)" by fastforce
  let ?k = "k\<lparr>sk_input := b\<rparr>"
  have "do_read answers k = (case e of Some x \<Rightarrow> (Inl x, ?k)
      | None \<Rightarrow> (Inr JR_Retry, if sb_size (sk_input k) = 0 then socket_event EV_StreamInputReady ?k else ?k))"
    unfolding do_read_def Let_def d(1) read_answer.case sl using d(2) by (cases e) simp_all
  then have "(r = Inr JR_Retry \<or> (\<exists>x. r = Inl x)) \<and> (k' = ?k \<or> k' = socket_event EV_StreamInputReady ?k)"
    using assms by (cases e) auto
  then show ?thesis by (auto simp: outward_def socket_event_def)
next
  case False
  with assms show ?thesis
  proof (cases "answers 0")
    case (RA_Bytes d)
    with False have "d = []" by blast
    with RA_Bytes assms show ?thesis
      by (cases "\<not> sk_writable k \<and> sb_size (sk_input k) = 0") (auto simp: do_read_def socket_event_def)
  qed (auto simp: do_read_def)
qed

text \<open>After \<open>set_new_job\<close> only the parts other than the job have to be checked.\<close>

definition socket_core :: "tcp_socket \<Rightarrow> bool" where
  "socket_core k \<longleftrightarrow>
     (sk_flushed k \<longleftrightarrow> sb_size (sk_output k) = 0) \<and> (sk_readable k \<longrightarrow> sk_connected k) \<and>
     (\<not> sk_open k \<longrightarrow> \<not> sk_connected k \<and> \<not> sk_writable k)"

lemma inv_set_new_job [simp]: "socket_inv (set_new_job k) \<longleftrightarrow> socket_core k"
  by (auto simp: socket_inv_def socket_core_def set_new_job_def new_job_def)

lemma inv_core: "socket_inv k \<Longrightarrow> socket_core k"
  by (simp add: socket_inv_def socket_core_def)

lemma core_event [simp]:
  "socket_core (socket_event e k) = socket_core k"
  "socket_inv (socket_event e k) = socket_inv k"
  by (simp_all add: socket_core_def socket_inv_def socket_event_def new_job_def)

lemma core_disconnected [simp]: "socket_core (on_disconnected k)"
  by (simp add: socket_core_def socket_ops)

lemma core_output_shutdown: "socket_core k \<Longrightarrow> socket_core (on_output_shutdown k)"
  by (auto simp: socket_core_def socket_ops)

lemma outward_core: "outward k = outward k' \<Longrightarrow> socket_core k = socket_core k'"
  by (auto simp: outward_def socket_core_def)

lemma core_discard: "socket_core k \<Longrightarrow> socket_core (discard_written_data n k)"
  by (cases "sk_flushed k") (auto simp: discard_written_data_def Let_def socket_core_def socket_event_def buffer_pop_def)

lemma core_peeked [simp]:
  "socket_core (k\<lparr>sk_output := snd (buffer_peek n (sk_output k))\<rparr>) = socket_core k"
  "outward (k\<lparr>sk_output := snd (buffer_peek n (sk_output k))\<rparr>) = outward k"
  by (simp_all add: socket_core_def outward_def)

lemma core_lost: "socket_core k \<Longrightarrow> \<not> sk_readable k \<Longrightarrow>
   socket_core ((socket_event e k)\<lparr>sk_connected := False\<rparr>)"
  by (simp add: socket_core_def socket_event_def)

lemma service_write_core:
  assumes core: "socket_core k" and r: "service_write a k = (r, k')"
  shows "socket_core k' \<and> (r \<noteq> JR_New \<longrightarrow> r = JR_Retry \<and> outward k' = outward k)"
proof (cases a)
  case (WA_Wrote n)
  then show ?thesis using r core
    by (cases "n > 0") (auto simp: service_write_def do_write_def Let_def core_discard)
next
  case WA_Shutdown
  let ?k = "k\<lparr>sk_output := snd (buffer_peek (sb_size (sk_output k)) (sk_output k))\<rparr>"
  have "socket_core (on_output_shutdown ?k)" using core by (simp add: core_output_shutdown)
  then show ?thesis using WA_Shutdown r
    by (auto simp: service_write_def do_write_def Let_def core_lost)
qed (use r in \<open>auto simp: service_write_def do_write_def Let_def\<close>)

lemma service_read_core:
  assumes core: "socket_core k" and r: "service_read a k = (r, k')"
  shows "socket_core k' \<and> (r \<noteq> JR_New \<longrightarrow> r = JR_Retry \<and> outward k' = outward k)"
proof -
  obtain q k1 where d: "do_read a k = (q, k1)" by fastforce
  show ?thesis
  proof (cases q)
    case (Inl e)
    then have "outward k1 = outward k" using do_read_cases [OF d] by auto
    with Inl r d core outward_core [of k1 k] show ?thesis by (auto simp: service_read_def split: if_splits)
  next
    case (Inr j)
    then have [simp]: "j = r" "k1 = k'" using r d by (simp_all add: service_read_def)
    from do_read_cases [OF d] show ?thesis
    proof (elim disjE)
      assume "q = Inr JR_New \<and> sk_open k1 = sk_open k \<and> \<not> sk_readable k1 \<and> sk_writable k1 = sk_writable k \<and>
        sk_flushed k1 = sk_flushed k \<and> sk_output k1 = sk_output k \<and> (sk_connected k1 \<longrightarrow> sk_connected k)"
      then show ?thesis using Inr core by (auto simp: socket_core_def)
    next
      assume "q \<noteq> Inr JR_New \<and> q \<noteq> Inr JR_Break \<and> outward k1 = outward k"
      then show ?thesis using Inr core outward_core [of k1 k] by (cases r) auto
    qed
  qed
qed

lemma service_connected_inv:
  assumes "socket_inv k"
  shows "socket_inv (service_connected rd wr e reads wrote k)"
proof (cases e)
  case False
  obtain w k1 where w: "(if wr then service_write wrote k else (JR_Retry, k)) = (w, k1)" by fastforce
  obtain r k2 where r: "(if rd \<and> sk_readable k1 then service_read reads k1 else (JR_Retry, k1)) = (r, k2)"
    by fastforce
  have 1: "socket_core k1 \<and> (w \<noteq> JR_New \<longrightarrow> w = JR_Retry \<and> outward k1 = outward k)"
    using w inv_core [OF assms] service_write_core by (cases wr) auto
  then have 2: "socket_core k2 \<and> (r \<noteq> JR_New \<longrightarrow> r = JR_Retry \<and> outward k2 = outward k1)"
    using r service_read_core by (cases "rd \<and> sk_readable k1") auto
  have "service_connected rd wr e reads wrote k =
      (if r = JR_Break \<or> w = JR_Break then k2\<lparr>sk_job := None\<rparr>
       else if w = JR_New \<or> r = JR_New then set_new_job k2 else k2)"
    using False w r by (simp add: service_connected_def)
  then show ?thesis using 1 2 assms outward_inv [of k2 k] by auto
qed (simp add: service_connected_def)

lemma socket_read_inv:
  assumes "socket_inv k"
  shows "socket_inv (snd (socket_read n k)) \<and> sk_output (snd (socket_read n k)) = sk_output k"
  using assms by (auto simp: socket_read_def Let_def socket_inv_def socket_event_def new_job_def)

lemma socket_write_inv:
  assumes inv: "socket_inv k" and room: "unat (sb_size (sk_output k)) + length d < 2 ^ 32"
  shows "socket_inv (socket_write d k)"
proof (cases "sk_writable k \<and> d \<noteq> []")
  case True
  let ?k = "k\<lparr>sk_output := buffer_write d (sk_output k), sk_flushed := False\<rparr>"
  have "0 < unat (sb_size (buffer_write d (sk_output k)))"
    using write_size [OF room] True by simp
  then have out: "sb_size (buffer_write d (sk_output k)) \<noteq> 0" "0 < sb_size (buffer_write d (sk_output k))"
    by (auto simp: word_greater_zero_iff)
  then have core: "socket_core ?k" using inv_core [OF inv] by (simp add: socket_core_def)
  have "0 < sb_size (sk_output k) \<Longrightarrow> socket_inv ?k"
    using inv out True by (auto simp: socket_inv_def new_job_def)
  then show ?thesis using True core
    by (auto simp: socket_write_def Let_def word_greater_zero_iff)
qed (use inv in \<open>auto simp: socket_write_def\<close>)

lemma core_connected: "socket_core k \<Longrightarrow> sk_open k \<Longrightarrow> socket_core (on_connected k)"
  by (simp add: socket_core_def on_connected_def)

lemma core_input_shutdown: "socket_core k \<Longrightarrow> socket_core (on_input_shutdown k)"
  by (simp add: socket_core_def on_input_shutdown_def)

lemma event_open [simp]: "sk_open (socket_event e k) = sk_open k"
  by (simp add: socket_event_def)

lemma job_open: "socket_inv k \<Longrightarrow> sk_job k = Some j \<Longrightarrow> sk_open k"
  by (auto simp: socket_inv_def)

lemma socket_connect_inv: "socket_inv k \<Longrightarrow> socket_inv (snd (socket_connect a k))"
  using inv_core [of k]
  by (cases a) (auto simp: socket_connect_def core_connected, auto simp: socket_core_def)

lemma socket_service_inv: "socket_inv k \<Longrightarrow> socket_inv (socket_service r w e f reads wrote k)"
  using inv_core [of k] job_open [of k]
  by (auto simp: socket_service_def service_connected_inv service_connecting_def core_connected
      split: option.splits socket_job.splits)

lemma socket_close_inv: "socket_inv (socket_close k)"
  by (simp add: socket_close_def Let_def socket_inv_def socket_ops)

lemma socket_shutdown_inv:
  "socket_inv k \<Longrightarrow> socket_inv (socket_shutdown_input k)"
  "socket_inv k \<Longrightarrow> socket_inv (socket_shutdown_output k)"
  using inv_core [of k]
  by (auto simp: socket_shutdown_input_def socket_shutdown_output_def core_output_shutdown
      core_input_shutdown)

lemma socket_step_inv:
  "socket_inv k \<Longrightarrow> unat (sb_size (sk_output k)) + call_bytes c < 2 ^ 32 \<Longrightarrow> socket_inv (socket_step k c)"
  by (cases c) (simp_all add: socket_connect_inv socket_read_inv socket_write_inv socket_shutdown_inv
      socket_close_inv socket_service_inv)

text \<open>Only \<open>write\<close> adds to the output.\<close>

lemma output_of_ops [simp]:
  "sk_output (socket_event e k) = sk_output k"
  "sk_output (set_new_job k) = sk_output k"
  "sk_output (on_connected k) = sk_output k"
  "sk_output (on_input_shutdown k) = sk_output k"
  "sb_size (sk_output (on_output_shutdown k)) = 0"
  "sb_size (sk_output (on_disconnected k)) = 0"
  by (simp_all add: socket_ops)

lemma service_read_output: "sb_size (sk_output (snd (service_read a k))) \<le> sb_size (sk_output k)"
proof -
  obtain q k1 where d: "do_read a k = (q, k1)" by fastforce
  then show ?thesis using do_read_cases [OF d] by (auto simp: service_read_def outward_def split: sum.splits)
qed

lemma service_write_output: "sb_size (sk_output (snd (service_write a k))) \<le> sb_size (sk_output k)"
proof (cases a)
  case (WA_Wrote n)
  then show ?thesis
    using pop_size_le [of n "snd (buffer_peek (sb_size (sk_output k)) (sk_output k))"]
    by (simp add: service_write_def do_write_def Let_def discard_written_data_def)
qed (simp_all add: service_write_def do_write_def Let_def)

lemma socket_step_output:
  assumes "unat (sb_size (sk_output k)) + call_bytes c < 2 ^ 32"
  shows "unat (sb_size (sk_output (socket_step k c))) \<le> unat (sb_size (sk_output k)) + call_bytes c"
proof (cases c)
  case (SC_Service r w e f reads wrote)
  have "sb_size (sk_output (service_connected r w e reads wrote k)) \<le> sb_size (sk_output k)"
  proof -
    define k1 where "k1 = (if w then snd (service_write wrote k) else k)"
    define k2 where "k2 = (if r \<and> sk_readable k1 then snd (service_read reads k1) else k1)"
    have "sb_size (sk_output k2) \<le> sb_size (sk_output k)"
      using service_read_output [of reads k1] service_write_output [of wrote k]
      by (auto simp: k1_def k2_def)
    then show ?thesis
      by (auto simp: service_connected_def k1_def k2_def Let_def split: prod.splits)
  qed
  then show ?thesis using SC_Service
    by (auto simp: socket_service_def service_connecting_def word_le_nat_alt split: option.splits socket_job.splits)
next
  case (SC_Write d)
  then show ?thesis using write_size [of "sk_output k" d] assms
    by (auto simp: socket_write_def Let_def)
next
  case (SC_Connect a)
  then show ?thesis by (cases a) (auto simp: socket_connect_def)
qed (auto simp: socket_read_def Let_def socket_close_def socket_shutdown_input_def socket_shutdown_output_def)

lemma socket_run_inv:
  "socket_inv k \<Longrightarrow> unat (sb_size (sk_output k)) + calls_bytes cs < 2 ^ 32 \<Longrightarrow> socket_inv (run socket_step k cs)"
proof (induction cs arbitrary: k)
  case (Cons c cs)
  then show ?case
    using socket_step_inv [of k c] socket_step_output [of k c] by (auto simp: calls_bytes_def)
qed simp



section \<open>Two limits of the code\<close>

text \<open>
  A read error after some bytes have arrived swallows the notification: the bytes are in the input
  buffer, no event tells the owner, and since the buffer is no longer empty later arrivals do
  not either.
\<close>

lemma read_error_loses_notification:
  "let k = socket_service True False False False (\<lambda>i. if i = 0 then RA_Bytes [7] else RA_Error) (WA_Wrote 0)
         accepted_tcp_socket;
       k' = socket_service True False False False (\<lambda>i. if i = 0 then RA_Bytes [8] else RA_Bytes []) (WA_Wrote 0) k
   in sb_size (sk_input k') = 2 \<and> sk_events k' = []"
proof -
  have s1: "slurp (\<lambda>i. if i = 0 then RA_Bytes [7] else RA_Error) (Suc 0)
      \<lparr>sb_chunks = [[7]], sb_size = 1, sb_head_used = 0\<rparr> =
    (Some RA_Error, \<lparr>sb_chunks = [[7]], sb_size = 1, sb_head_used = 0\<rparr>)"
    by (subst slurp.simps) (simp add: s_maxInputBufferSize_def)
  have s2: "slurp (\<lambda>i. if i = 0 then RA_Bytes [8] else RA_Bytes []) (Suc 0)
      \<lparr>sb_chunks = [[7, 8]], sb_size = 2, sb_head_used = 0\<rparr> =
    (None, \<lparr>sb_chunks = [[7, 8]], sb_size = 2, sb_head_used = 0\<rparr>)"
    by (subst slurp.simps) (simp add: s_maxInputBufferSize_def)
  show ?thesis
    using s1 s2
    by (simp add: socket_service_def service_connected_def service_read_def do_read_def accepted_tcp_socket_def
        new_tcp_socket_def socket_ops Let_def buffer_write_def new_buffer_def fill_chunks_fits kChunkSize_def)
qed

text \<open>
  \<open>s_maxInputBufferSize\<close> ends one round of reading but does not bound the buffer: when it is already
  beyond the limit, a further service call still adds what one \<open>readSocket\<close> returns.
\<close>

lemma input_limit_not_enforced:
  assumes "s_maxInputBufferSize < sb_size (sk_input k)" and "unat (sb_size (sk_input k)) + length d < 2 ^ 32"
    and "d \<noteq> []" and "length d \<le> 4096"
  shows "do_read (\<lambda>_. RA_Bytes d) k = (Inr JR_Retry, k\<lparr>sk_input := buffer_write d (sk_input k)\<rparr>)"
proof -
  have "s_maxInputBufferSize < sb_size (buffer_write d (sk_input k))"
    using write_size [OF assms(2)] assms(1) by (simp add: word_less_nat_alt)
  then show ?thesis
    using assms by (subst do_read_def, subst slurp.simps) auto
qed

end
