(* ===== verification/PacketFilter.thy ===== *)
theory PacketFilter
  imports TcpSocket
begin

text \<open>
  \<open>PacketStreamFilter\<close> (src/lib/deskflow): packets over a byte stream. A packet goes out as its
  length, four bytes big-endian, and its payload; incoming bytes are collected until a whole packet
  is buffered. The filtered stream is a \<open>TCPSocket\<close>. Events sent to the filter's own listener are a
  log.
\<close>

section \<open>The filter\<close>

definition PROTOCOL_MAX_MESSAGE_LENGTH :: u32 where
  "PROTOCOL_MAX_MESSAGE_LENGTH = 4 * 1024 * 1024"

record packet_filter =
  pf_stream :: tcp_socket
  pf_size :: u32
  pf_buffer :: stream_buffer
  pf_input_shutdown :: bool
  pf_events :: "stream_event list"

definition new_packet_filter :: "tcp_socket \<Rightarrow> packet_filter" where
  "new_packet_filter k =
     \<lparr>pf_stream = k, pf_size = 0, pf_buffer = new_buffer, pf_input_shutdown = False, pf_events = []\<rparr>"

definition filter_emit :: "stream_event \<Rightarrow> packet_filter \<Rightarrow> packet_filter" where
  "filter_emit e f = f\<lparr>pf_events := pf_events f @ [e]\<rparr>"

definition is_ready_no_lock :: "packet_filter \<Rightarrow> bool" where
  "is_ready_no_lock f \<longleftrightarrow> pf_size f \<noteq> 0 \<and> sb_size (pf_buffer f) \<ge> pf_size f"

definition filter_get_size :: "packet_filter \<Rightarrow> u32" where
  "filter_get_size f = (if is_ready_no_lock f then pf_size f else 0)"

definition filter_close :: "packet_filter \<Rightarrow> packet_filter" where
  "filter_close f =
     f\<lparr>pf_size := 0, pf_buffer := buffer_pop (sb_size (pf_buffer f)) (pf_buffer f),
       pf_stream := socket_close (pf_stream f)\<rparr>"

definition filter_shutdown_input :: "packet_filter \<Rightarrow> packet_filter" where
  "filter_shutdown_input f =
     f\<lparr>pf_size := 0, pf_buffer := buffer_pop (sb_size (pf_buffer f)) (pf_buffer f),
       pf_stream := socket_shutdown_input (pf_stream f)\<rparr>"

definition size_of_header :: "bytes \<Rightarrow> u32" where
  "size_of_header h =
     or (push_bit 24 (ucast (h ! 0))) (or (push_bit 16 (ucast (h ! 1)))
       (or (push_bit 8 (ucast (h ! 2))) (ucast (h ! 3))))"

definition read_packet_size :: "packet_filter \<Rightarrow> bool \<times> packet_filter" where
  "read_packet_size f =
     (if pf_size f = 0 \<and> sb_size (pf_buffer f) \<ge> 4 then
        (case buffer_peek 4 (pf_buffer f) of (header, b) \<Rightarrow>
           let f1 = f\<lparr>pf_buffer := buffer_pop 4 b, pf_size := size_of_header header\<rparr>
           in if pf_size f1 > PROTOCOL_MAX_MESSAGE_LENGTH
              then (False, filter_emit EV_StreamInputFormatError f1)
              else (True, f1))
      else (True, f))"

definition filter_read :: "u32 \<Rightarrow> packet_filter \<Rightarrow> bytes \<times> packet_filter" where
  "filter_read n f =
     (if n = 0 then ([], f)
      else if \<not> is_ready_no_lock f then ([], f)
      else
        let n1 = (if n > pf_size f then pf_size f else n);
            out_b = buffer_peek n1 (pf_buffer f);
            f1 = f\<lparr>pf_buffer := buffer_pop n1 (snd out_b), pf_size := pf_size f - n1\<rparr>;
            f2 = snd (read_packet_size f1);
            f3 = (if pf_input_shutdown f2 \<and> pf_size f2 = 0
                  then filter_emit EV_StreamInputShutdown f2 else f2)
        in (fst out_b, f3))"

definition packet_header :: "u32 \<Rightarrow> bytes" where
  "packet_header count =
     [ucast (and (drop_bit 24 count) 0xff), ucast (and (drop_bit 16 count) 0xff),
      ucast (and (drop_bit 8 count) 0xff), ucast (and count 0xff)]"

definition filter_write :: "bytes \<Rightarrow> packet_filter \<Rightarrow> packet_filter" where
  "filter_write data f =
     f\<lparr>pf_stream := socket_write data (socket_write (packet_header (word_of_nat (length data))) (pf_stream f))\<rparr>"

text \<open>The loop of \<open>readMore\<close>: it ends because each round takes bytes out of the socket's buffer.\<close>

lemma socket_read_shrinks:
  assumes "socket_read n k = (d, k')" and "d \<noteq> []"
  shows "unat (sb_size (sk_input k')) < unat (sb_size (sk_input k))"
proof -
  let ?n = "if n > sb_size (sk_input k) then sb_size (sk_input k) else n"
  have n: "?n \<noteq> 0"
    using assms by (auto simp: socket_read_def Let_def buffer_peek_def split: if_splits)
  have "sb_size (sk_input k') = sb_size (buffer_pop ?n (snd (buffer_peek ?n (sk_input k))))"
    using assms(1) by (auto simp: socket_read_def Let_def socket_event_def)
  moreover have "unat ?n \<le> unat (sb_size (sk_input k))" by (auto simp: word_le_nat_alt not_less)
  moreover have "0 < unat ?n" using n by (simp add: unat_gt_0)
  ultimately show ?thesis
    by (auto simp: buffer_pop_def case_prod_unfold unat_sub word_le_nat_alt simp del: peek_size)
       (auto simp: word_le_nat_alt unat_sub)
qed

lemma read_packet_size_stream [simp]: "pf_stream (snd (read_packet_size f)) = pf_stream f"
  by (simp add: read_packet_size_def filter_emit_def Let_def split: prod.split)

lemma read_loop_progress:
  assumes read: "(d, k) = socket_read 4096 (pf_stream f)" and "f1 = f\<lparr>pf_stream := k\<rparr>" and d: "d \<noteq> []"
    and size: "(go_on, f2) = read_packet_size (f1\<lparr>pf_buffer := buffer_write d (pf_buffer f1)\<rparr>)"
  shows "unat (sb_size (sk_input (pf_stream f2))) < unat (sb_size (sk_input (pf_stream f)))"
proof -
  have "pf_stream f2 = k"
    using arg_cong [OF size, of "\<lambda>x. pf_stream (snd x)"] assms(2) by simp
  then show ?thesis using socket_read_shrinks [OF read [symmetric] d] by simp
qed

function read_loop :: "packet_filter \<Rightarrow> packet_filter" where
  "read_loop f =
     (case socket_read 4096 (pf_stream f) of (d, k) \<Rightarrow>
        let f1 = f\<lparr>pf_stream := k\<rparr> in
        if d = [] then f1
        else case read_packet_size (f1\<lparr>pf_buffer := buffer_write d (pf_buffer f1)\<rparr>) of
          (go_on, f2) \<Rightarrow> if go_on then read_loop f2 else f2)"
  by pat_completeness auto
termination
  by (relation "measure (\<lambda>f. unat (sb_size (sk_input (pf_stream f))))") (simp, simp only: in_measure, rule read_loop_progress [where go_on = True], auto)

declare read_loop.simps [simp del]

text \<open>\<open>readMore\<close> answers whether the readiness of a whole packet has changed.\<close>

definition read_more :: "packet_filter \<Rightarrow> bool \<times> packet_filter" where
  "read_more f = (let f1 = read_loop f in (is_ready_no_lock f \<noteq> is_ready_no_lock f1, f1))"

definition filter_event :: "stream_event \<Rightarrow> packet_filter \<Rightarrow> packet_filter" where
  "filter_event e f =
     (if e = EV_StreamInputReady then
        (case read_more f of (changed, f1) \<Rightarrow> if changed then filter_emit e f1 else f1)
      else if e = EV_StreamInputShutdown then
        (let f1 = f\<lparr>pf_input_shutdown := True\<rparr> in if pf_size f1 \<noteq> 0 then f1 else filter_emit e f1)
      else filter_emit e f)"

section \<open>Packets on the wire\<close>

definition packet :: "bytes \<Rightarrow> bytes" where
  "packet p = packet_header (word_of_nat (length p)) @ p"

definition wire :: "bytes list \<Rightarrow> bytes" where
  "wire ps = concat (map packet ps)"

definition packet_ok :: "bytes \<Rightarrow> bool" where
  "packet_ok p \<longleftrightarrow> p \<noteq> [] \<and> length p \<le> unat PROTOCOL_MAX_MESSAGE_LENGTH"

lemma wire_simps [simp]: "wire [] = []" "wire (p # ps) = packet p @ wire ps"
  by (simp_all add: wire_def)

lemma length_packet [simp]: "length (packet p) = 4 + length p"
  by (simp add: packet_def packet_header_def)

lemma size_of_packet_header: "size_of_header (packet_header n) = n"
proof (rule bit_word_eqI)
  fix i assume i: "i < LENGTH(32)"
  have mask: "(0xff :: u32) = mask 8" by (simp add: mask_eq_exp_minus_1)
  have nth: "[a, b, c, d] ! 0 = a" "[a, b, c, d] ! 1 = b" "[a, b, c, d] ! 2 = c" "[a, b, c, d] ! 3 = d"
    for a b c d :: byte
    by simp_all
  have bits: "bit (push_bit k (ucast (ucast (and (drop_bit k n) (mask 8)) :: byte) :: u32)) i \<longleftrightarrow>
      k \<le> i \<and> i < k + 8 \<and> bit n i" for k
    using i by (auto simp: bit_push_bit_iff bit_unsigned_iff bit_and_iff bit_mask_iff bit_drop_bit_eq)
  have low: "bit (ucast (ucast (and n (mask 8)) :: byte) :: u32) i \<longleftrightarrow> i < 8 \<and> bit n i"
    using bits [of 0] by (simp del: take_bit_eq_mask)
  show "bit (size_of_header (packet_header n)) i \<longleftrightarrow> bit n i"
    unfolding size_of_header_def packet_header_def nth mask
    using i by (simp only: bit_or_iff bits low) auto
qed

lemma packet_size:
  assumes "packet_ok p"
  shows "size_of_header (take 4 (packet p @ r)) = word_of_nat (length p)"
    and "unat (word_of_nat (length p) :: u32) = length p"
    and "(word_of_nat (length p) :: u32) \<noteq> 0"
    and "\<not> word_of_nat (length p) > PROTOCOL_MAX_MESSAGE_LENGTH"
proof -
  have len: "length p \<le> 4194304" "0 < length p"
    using assms by (auto simp: packet_ok_def PROTOCOL_MAX_MESSAGE_LENGTH_def)
  show u: "unat (word_of_nat (length p) :: u32) = length p"
    using len by (intro unat_of_nat_u32) simp
  show "size_of_header (take 4 (packet p @ r)) = word_of_nat (length p)"
    using size_of_packet_header by (simp add: packet_def packet_header_def)
  show "(word_of_nat (length p) :: u32) \<noteq> 0" using u len by (metis unat_0 less_irrefl)
  show "\<not> word_of_nat (length p) > PROTOCOL_MAX_MESSAGE_LENGTH"
    using u len by (simp add: word_less_nat_alt PROTOCOL_MAX_MESSAGE_LENGTH_def)
qed

section \<open>What the reader still has to receive\<close>

text \<open>
  \<open>qs\<close> are the packets not yet read (the first one perhaps in part) and \<open>w\<close> the bytes that will still
  arrive. \<open>weak\<close> allows a header that is buffered but not yet taken.
\<close>

definition pending :: "bool \<Rightarrow> packet_filter \<Rightarrow> bytes list \<Rightarrow> bytes \<Rightarrow> bool" where
  "pending weak f qs w \<longleftrightarrow>
     (let inp = sk_input (pf_stream f); buf = pf_buffer f;
          rest = buffer_content buf @ buffer_content inp @ w in
      buffer_ok inp \<and> buffer_ok buf \<and> list_all packet_ok qs \<and>
      buffer_held inp + length w < 2 ^ 32 \<and>
      buffer_held buf + length (buffer_content inp) + length w < 2 ^ 32 \<and>
      (if pf_size f = 0 then rest = wire qs \<and> (weak \<or> length (buffer_content buf) < 4)
       else \<exists>q qs'. qs = q # qs' \<and> length q = unat (pf_size f) \<and> rest = q @ wire qs'))"

lemma read_packet_size_pending:
  assumes p: "pending True f qs w"
  shows "\<exists>f'. read_packet_size f = (True, f') \<and> pending False f' qs w \<and> pf_stream f' = pf_stream f"
proof (cases "pf_size f = 0 \<and> sb_size (pf_buffer f) \<ge> 4")
  case False
  have "length (buffer_content (pf_buffer f)) < 4" if "pf_size f = 0"
    using p False that buffer.size_le [of "pf_buffer f" 4] by (auto simp: pending_def Let_def)
  then have "pending False f qs w" using p by (auto simp: pending_def Let_def)
  moreover have "read_packet_size f = (True, f)"
    unfolding read_packet_size_def using False by (simp only: if_False)
  ultimately show ?thesis by blast
next
  case True
  let ?b = "pf_buffer f" and ?inp = "sk_input (pf_stream f)"
  have ok: "buffer_ok ?b" and rest: "buffer_content ?b @ buffer_content ?inp @ w = wire qs"
    and oks: "list_all packet_ok qs"
    using p True by (auto simp: pending_def Let_def)
  have len: "4 \<le> length (buffer_content ?b)"
    using True buffer.size_le [OF ok, of 4] by simp
  then obtain q qs' where qs: "qs = q # qs'" using rest by (cases qs) auto
  have q: "packet_ok q" using oks qs by simp
  have "take 4 (buffer_content ?b) = take 4 (packet q @ wire qs')"
    using arg_cong [OF rest, of "take 4"] len qs by simp
  then have size: "size_of_header (take 4 (buffer_content ?b)) = word_of_nat (length q)"
    using packet_size(1) [OF q] by simp
  have "drop 4 (buffer_content ?b @ buffer_content ?inp @ w) = drop 4 (packet q @ wire qs')"
    using rest qs by simp
  then have body: "drop 4 (buffer_content ?b) @ buffer_content ?inp @ w = q @ wire qs'"
    using len by (simp add: packet_def packet_header_def)
  obtain h b where peek: "buffer_peek 4 ?b = (h, b)" by fastforce
  have t: "h = take 4 (buffer_content ?b)" "buffer_ok (buffer_pop 4 b)"
      "buffer_content (buffer_pop 4 b) = drop 4 (buffer_content ?b)" "buffer_held (buffer_pop 4 b) \<le> buffer_held ?b"
    using buffer.take_out [OF ok, of 4] True peek by auto
  let ?f = "f\<lparr>pf_buffer := buffer_pop 4 b, pf_size := word_of_nat (length q)\<rparr>"
  have "read_packet_size f = (True, ?f)"
    using True packet_size(4) [OF q] by (simp add: read_packet_size_def peek t(1) size Let_def)
  moreover have "pending False ?f qs w"
    using p t body packet_size(2,3) [OF q] qs by (auto simp: pending_def Let_def)
  ultimately show ?thesis by auto
qed

lemma socket_read_content:
  assumes ok: "buffer_ok (sk_input k)" and r: "socket_read n k = (d, k')"
  shows "d = take (unat n) (buffer_content (sk_input k))" and "buffer_ok (sk_input k')"
    and "buffer_content (sk_input k') = drop (unat n) (buffer_content (sk_input k))"
    and "buffer_held (sk_input k') \<le> buffer_held (sk_input k)"
proof -
  let ?b = "sk_input k"
  let ?n = "if n > sb_size ?b then sb_size ?b else n"
  have n: "?n \<le> sb_size ?b" by auto
  have len: "length (buffer_content ?b) = unat (sb_size ?b)" using buffer.size_law [OF ok] by simp
  have eq: "take (unat ?n) (buffer_content ?b) = take (unat n) (buffer_content ?b)"
      "drop (unat ?n) (buffer_content ?b) = drop (unat n) (buffer_content ?b)"
    using len by (auto simp: word_less_nat_alt)
  have "d = fst (buffer_peek ?n ?b)" "sk_input k' = buffer_pop ?n (snd (buffer_peek ?n ?b))"
    using r by (auto simp: socket_read_def Let_def socket_event_def)
  then show "d = take (unat n) (buffer_content ?b)" and "buffer_ok (sk_input k')"
    and "buffer_content (sk_input k') = drop (unat n) (buffer_content ?b)"
    and "buffer_held (sk_input k') \<le> buffer_held ?b"
    using buffer.take_out [OF ok n] eq by simp_all
qed

lemma read_loop_pending:
  "pending False f qs w \<Longrightarrow>
   pending False (read_loop f) qs w \<and> buffer_content (sk_input (pf_stream (read_loop f))) = []"
proof (induction f rule: read_loop.induct)
  case (1 f)
  let ?inp = "sk_input (pf_stream f)"
  obtain d k where read: "socket_read 4096 (pf_stream f) = (d, k)" by fastforce
  have ok: "buffer_ok ?inp" using "1.prems" by (simp add: pending_def Let_def)
  note io = socket_read_content [OF ok read]
  show ?case
  proof (cases "d = []")
    case True
    then have "buffer_content ?inp = []" using io(1) by simp
    then have "pending False (f\<lparr>pf_stream := k\<rparr>) qs w" "buffer_content (sk_input k) = []"
      using "1.prems" io by (auto simp: pending_def Let_def)
    then show ?thesis using True read by (simp add: read_loop.simps [of f])
  next
    case False
    let ?f = "f\<lparr>pf_stream := k, pf_buffer := buffer_write d (pf_buffer f)\<rparr>"
    have split: "d @ buffer_content (sk_input k) = buffer_content ?inp" using io(1,3) by simp
    then have tail: "d @ buffer_content (sk_input k) @ w = buffer_content ?inp @ w" by (metis append_assoc)
    from split have len: "length d + length (buffer_content (sk_input k)) = length (buffer_content ?inp)"
      by (metis length_append)
    have put: "buffer_ok (buffer_write d (pf_buffer f)) \<and>
        buffer_content (buffer_write d (pf_buffer f)) = buffer_content (pf_buffer f) @ d \<and>
        buffer_held (buffer_write d (pf_buffer f)) = buffer_held (pf_buffer f) + length d"
      using "1.prems" len by (intro buffer.put_law) (auto simp: pending_def Let_def)
    have "pending True ?f qs w"
      using "1.prems" put io(2,4) len by (auto simp: pending_def Let_def tail)
    then obtain f' where f': "read_packet_size ?f = (True, f')" "pending False f' qs w"
      using read_packet_size_pending by blast
    have step: "read_loop f = read_loop f'"
      using False read f'(1) by (subst read_loop.simps) simp
    show ?thesis
      unfolding step by (rule "1.IH" [OF read [symmetric] refl False _ _ f'(2)]) (simp_all add: f'(1))
  qed
qed

section \<open>Reading against the packet list\<close>

text \<open>What successive reads of at most the given sizes return when they never cross a packet's end.\<close>

fun packet_reads :: "bytes list \<Rightarrow> u32 list \<Rightarrow> bytes list \<times> bytes list" where
  "packet_reads qs [] = ([], qs)"
| "packet_reads [] (n # ns) = ([], [])"
| "packet_reads (q # qs) (n # ns) =
     (case packet_reads (if unat n < length q then drop (unat n) q # qs else qs) ns of
        (outs, rest) \<Rightarrow> (take (unat n) q # outs, rest))"

lemma filter_read_pending:
  assumes p: "pending False f qs w" and r: "filter_read n f = (out, f')"
  shows "if n \<noteq> 0 \<and> is_ready_no_lock f
    then out \<noteq> [] \<and> (\<exists>q qs'. qs = q # qs' \<and> out = take (unat n) q \<and>
      pending False f' (if unat n < length q then drop (unat n) q # qs' else qs') w)
    else out = [] \<and> f' = f"
proof (cases "n \<noteq> 0 \<and> is_ready_no_lock f")
  case True
  let ?b = "pf_buffer f" and ?inp = "sk_input (pf_stream f)"
  let ?n = "if n > pf_size f then pf_size f else n"
  have ok: "buffer_ok ?b" and ready: "pf_size f \<noteq> 0" "pf_size f \<le> sb_size ?b"
    using p True by (auto simp: pending_def Let_def is_ready_no_lock_def)
  then obtain q qs' where q: "qs = q # qs'" "length q = unat (pf_size f)"
      "buffer_content ?b @ buffer_content ?inp @ w = q @ wire qs'"
    using p by (auto simp: pending_def Let_def)
  have n: "?n \<le> sb_size ?b" using ready by (auto simp: word_le_nat_alt word_less_nat_alt)
  have n_q: "unat ?n = min (unat n) (length q)"
    using q(2) by (auto simp: word_less_nat_alt min_def)
  obtain d b where peek: "buffer_peek ?n ?b = (d, b)" by fastforce
  have t: "d = take (unat ?n) (buffer_content ?b)" "buffer_ok (buffer_pop ?n b)"
      "buffer_content (buffer_pop ?n b) = drop (unat ?n) (buffer_content ?b)"
      "buffer_held (buffer_pop ?n b) \<le> buffer_held ?b"
    using buffer.take_out [OF ok n] peek by auto
  have len: "unat ?n \<le> length (buffer_content ?b)" "unat ?n \<le> length q"
    using buffer.size_le [OF ok] n n_q by simp_all
  have d: "d = take (unat n) q"
    using arg_cong [OF q(3), of "take (unat ?n)"] len t(1) n_q by (simp add: min_def split: if_splits)
  have rest: "drop (unat ?n) (buffer_content ?b) @ buffer_content ?inp @ w = drop (unat ?n) q @ wire qs'"
    using arg_cong [OF q(3), of "drop (unat ?n)"] len by simp
  define rem where "rem = (if unat n < length q then drop (unat n) q # qs' else qs')"
  let ?f = "f\<lparr>pf_buffer := buffer_pop ?n b, pf_size := pf_size f - ?n\<rparr>"
  have size: "unat (pf_size f - ?n) = length q - unat ?n"
    using q(2) len(2) by (simp only: unat_sub word_le_nat_alt)
  have q_ok: "packet_ok q" using p q(1) by (simp add: pending_def Let_def)
  have "pending True ?f rem w"
  proof (cases "unat n < length q")
    case True
    then have "unat ?n = unat n" using n_q by simp
    moreover have "pf_size f - ?n \<noteq> 0" using size True n_q by (metis diff_is_0_eq min.absorb3 not_le unat_0)
    moreover have "packet_ok (drop (unat n) q)" using q_ok True
      by (auto simp: packet_ok_def intro: le_trans [OF diff_le_self])
    ultimately show ?thesis
      using p t rest size True q(1) by (auto simp: pending_def Let_def rem_def)
  next
    case False
    then have "unat ?n = length q" using n_q by simp
    moreover from this have "pf_size f - ?n = 0" using size by (simp only: diff_self_eq_0 unat_eq_0)
    ultimately show ?thesis
      using p t rest False q(1) by (auto simp: pending_def Let_def rem_def)
  qed
  then obtain f2 where f2: "read_packet_size ?f = (True, f2)" "pending False f2 rem w"
    using read_packet_size_pending by blast
  have "f' = f2 \<or> f' = filter_emit EV_StreamInputShutdown f2" and "out = d"
    using r True f2(1) peek by (auto simp: filter_read_def Let_def)
  moreover have "pending False (filter_emit e f2) rem w = pending False f2 rem w" for e
    by (simp add: pending_def filter_emit_def)
  moreover have "d \<noteq> []" using d True q_ok by (simp add: packet_ok_def unat_eq_0)
  ultimately show ?thesis using True q(1) d f2(2) by (auto simp: rem_def)
qed (use r in \<open>auto simp: filter_read_def split: if_splits\<close>)

section \<open>Runs of a receiving connection\<close>

text \<open>
  The multiplexer finds the socket readable, the event queue delivers an event of the socket, the
  owner reads or writes. \<open>taken\<close> are the bytes one service call takes from the system.
\<close>

datatype packet_call =
    PC_Arrive "nat \<Rightarrow> read_answer"
  | PC_Event stream_event
  | PC_Read u32
  | PC_Write bytes

function slurped :: "(nat \<Rightarrow> read_answer) \<Rightarrow> nat \<Rightarrow> stream_buffer \<Rightarrow> bytes" where
  "slurped answers i b =
     (if sb_size b > s_maxInputBufferSize then []
      else case answers i of
        RA_Bytes d \<Rightarrow>
          if d = [] then [] else take 4096 d @ slurped answers (Suc i) (buffer_write (take 4096 d) b)
      | _ \<Rightarrow> [])"
  by pat_completeness auto
termination
  by (relation "measure (\<lambda>(answers, i, b). 1048577 - unat (sb_size b))") (simp_all add: slurp_progress)

declare slurped.simps [simp del]

definition taken :: "(nat \<Rightarrow> read_answer) \<Rightarrow> tcp_socket \<Rightarrow> bytes" where
  "taken answers k =
     (case sk_job k of
        Some (SJ_Connected _ _) \<Rightarrow>
          if sk_readable k then
            (case answers 0 of
               RA_Bytes d \<Rightarrow>
                 if d = [] then [] else take 4096 d @ slurped answers 1 (buffer_write (take 4096 d) (sk_input k))
             | _ \<Rightarrow> [])
          else []
      | _ \<Rightarrow> [])"

definition packet_arrive :: "(nat \<Rightarrow> read_answer) \<Rightarrow> packet_filter \<Rightarrow> packet_filter" where
  "packet_arrive answers f =
     f\<lparr>pf_stream := socket_service True False False False answers (WA_Wrote 0) (pf_stream f)\<rparr>"

text \<open>The bytes that arrived, the reads that returned something (size asked for, result), the filter.\<close>

fun packet_run ::
  "packet_call list \<Rightarrow> packet_filter \<Rightarrow> bytes \<times> (u32 \<times> bytes) list \<times> packet_filter" where
  "packet_run [] f = ([], [], f)"
| "packet_run (PC_Arrive answers # cs) f =
     (case packet_run cs (packet_arrive answers f) of
        (w, rs, f') \<Rightarrow> (taken answers (pf_stream f) @ w, rs, f'))"
| "packet_run (PC_Event e # cs) f = packet_run cs (filter_event e f)"
| "packet_run (PC_Write d # cs) f = packet_run cs (filter_write d f)"
| "packet_run (PC_Read n # cs) f =
     (case filter_read n f of (out, f1) \<Rightarrow>
      case packet_run cs f1 of (w, rs, f') \<Rightarrow>
        (w, if out = [] then rs else (n, out) # rs, f'))"

fun undisturbed :: "packet_call \<Rightarrow> bool" where
  "undisturbed (PC_Arrive answers) = (\<forall>i. answers i \<noteq> RA_Disconnected)"
| "undisturbed _ = True"

lemma slurp_content:
  "buffer_ok b \<Longrightarrow> buffer_held b + length (slurped answers i b) < 2 ^ 32 \<Longrightarrow>
   buffer_ok (snd (slurp answers i b)) \<and>
   buffer_content (snd (slurp answers i b)) = buffer_content b @ slurped answers i b \<and>
   buffer_held (snd (slurp answers i b)) = buffer_held b + length (slurped answers i b)"
proof (induction answers i b rule: slurp.induct)
  case (1 answers i b)
  show ?case
  proof (cases "\<not> s_maxInputBufferSize < sb_size b \<and> (\<exists>d. answers i = RA_Bytes d \<and> d \<noteq> [])")
    case True
    then obtain d where d: "answers i = RA_Bytes d" "d \<noteq> []" and small: "\<not> s_maxInputBufferSize < sb_size b"
      by blast
    let ?b = "buffer_write (take 4096 d) b"
    have step: "slurped answers i b = take 4096 d @ slurped answers (Suc i) ?b"
        "slurp answers i b = slurp answers (Suc i) ?b"
      using d small by (simp_all add: slurped.simps [of _ i] slurp.simps [of _ i])
    have put: "buffer_ok ?b \<and> buffer_content ?b = buffer_content b @ take 4096 d \<and>
        buffer_held ?b = buffer_held b + length (take 4096 d)"
      using "1.prems" step by (intro buffer.put_law) auto
    show ?thesis
      using "1.IH" [OF small d] put "1.prems" step by simp
  next
    case False
    then show ?thesis using "1.prems"
      by (auto simp: slurped.simps [of _ i] slurp.simps [of _ i] split: read_answer.splits)
  qed
qed

lemma slurp_exception: "fst (slurp answers i b) = Some e \<Longrightarrow> \<exists>j. answers j = e"
  by (induction answers i b rule: slurp.induct)
     (subst (asm) (2) slurp.simps, auto split: if_splits read_answer.splits)

lemma do_read_exception:
  assumes "do_read answers k = (Inl e, k1)"
  shows "\<exists>j. answers j = e"
proof (cases "answers 0")
  case (RA_Bytes d)
  obtain x b where sl: "slurp answers 1 (buffer_write (take 4096 d) (sk_input k)) = (x, b)" by fastforce
  have "x = Some e"
    using assms sl RA_Bytes by (cases x) (auto simp: do_read_def Let_def split: if_splits)
  then show ?thesis using slurp_exception [of answers 1 "buffer_write (take 4096 d) (sk_input k)"] sl by simp
qed (use assms in \<open>auto simp: do_read_def\<close>)

lemma packet_arrive_content:
  fixes f :: packet_filter and answers :: "nat \<Rightarrow> read_answer"
  defines "k \<equiv> pf_stream f" and "f' \<equiv> packet_arrive answers f"
  assumes ok: "buffer_ok (sk_input k)" and room: "buffer_held (sk_input k) + length (taken answers k) < 2 ^ 32"
    and calm: "\<forall>i. answers i \<noteq> RA_Disconnected"
  shows "buffer_ok (sk_input (pf_stream f')) \<and>
    buffer_content (sk_input (pf_stream f')) = buffer_content (sk_input k) @ taken answers k \<and>
    buffer_held (sk_input (pf_stream f')) = buffer_held (sk_input k) + length (taken answers k)"
proof (cases "(\<exists>r w. sk_job k = Some (SJ_Connected r w)) \<and> sk_readable k")
  case False
  then have "sk_input (pf_stream f') = sk_input k" "taken answers k = []"
    by (auto simp: f'_def k_def packet_arrive_def socket_service_def service_connecting_def service_connected_def
        taken_def split: option.splits socket_job.splits)
  then show ?thesis using ok by simp
next
  case True
  let ?b = "sk_input k"
  obtain q k1 where d: "do_read answers k = (q, k1)" by fastforce
  have "q \<noteq> Inl RA_Disconnected" and io: "buffer_ok (sk_input k1) \<and>
      buffer_content (sk_input k1) = buffer_content ?b @ taken answers k \<and>
      buffer_held (sk_input k1) = buffer_held ?b + length (taken answers k)"
  proof -
    show "q \<noteq> Inl RA_Disconnected"
      using d calm do_read_exception by blast
    show "buffer_ok (sk_input k1) \<and> buffer_content (sk_input k1) = buffer_content ?b @ taken answers k \<and>
        buffer_held (sk_input k1) = buffer_held ?b + length (taken answers k)"
    proof (cases "\<exists>x. answers 0 = RA_Bytes x \<and> x \<noteq> []")
      case False
      then have "taken answers k = []" "sk_input k1 = ?b"
        using d True by (auto simp: taken_def do_read_def Let_def socket_event_def
            split: read_answer.splits if_splits)
      then show ?thesis using ok by simp
    next
      case bytes: True
      then obtain x where x: "answers 0 = RA_Bytes x" "x \<noteq> []" by blast
      let ?b1 = "buffer_write (take 4096 x) ?b"
      have t: "taken answers k = take 4096 x @ slurped answers (Suc 0) ?b1"
        using True x by (auto simp: taken_def)
      have put: "buffer_ok ?b1 \<and> buffer_content ?b1 = buffer_content ?b @ take 4096 x \<and>
          buffer_held ?b1 = buffer_held ?b + length (take 4096 x)"
        using ok room t by (intro buffer.put_law) auto
      have "sk_input k1 = snd (slurp answers (Suc 0) ?b1)"
        using d x by (auto simp: do_read_def Let_def socket_event_def split: prod.splits option.splits)
      then show ?thesis
        using slurp_content [of ?b1 answers "Suc 0"] put room t by simp
    qed
  qed
  have "sk_input (pf_stream f') = sk_input k1"
    using True d \<open>q \<noteq> Inl RA_Disconnected\<close>
    by (cases q) (auto simp: f'_def k_def packet_arrive_def socket_service_def service_connected_def
        service_read_def set_new_job_def)
  with io show ?thesis by simp
qed

lemma pending_other:
  "pf_size f' = pf_size f \<Longrightarrow> pf_buffer f' = pf_buffer f \<Longrightarrow> sk_input (pf_stream f') = sk_input (pf_stream f) \<Longrightarrow>
   pending weak f' qs w = pending weak f qs w"
  by (simp add: pending_def)

lemma pending_emit [simp]:
  "pending weak (filter_emit e f) qs w = pending weak f qs w"
  "pending weak (f\<lparr>pf_input_shutdown := b\<rparr>) qs w = pending weak f qs w"
  by (rule pending_other; simp add: filter_emit_def)+

lemma filter_event_pending:
  assumes "pending False f qs w"
  shows "pending False (filter_event e f) qs w"
proof -
  have "pending False (read_loop f) qs w" using read_loop_pending [OF assms] by simp
  then show ?thesis using assms
    by (simp add: filter_event_def read_more_def Let_def)
qed

lemma filter_write_pending: "pending False (filter_write d f) qs w = pending False f qs w"
  by (rule pending_other) (auto simp: filter_write_def socket_write_def socket_event_def set_new_job_def Let_def)

lemma packet_arrive_pending:
  assumes p: "pending False f qs (taken answers (pf_stream f) @ w)" and "\<forall>i. answers i \<noteq> RA_Disconnected"
  shows "pending False (packet_arrive answers f) qs w"
proof -
  have "pf_size (packet_arrive answers f) = pf_size f" "pf_buffer (packet_arrive answers f) = pf_buffer f"
    by (simp_all add: packet_arrive_def)
  moreover have "buffer_ok (sk_input (pf_stream f))"
      "buffer_held (sk_input (pf_stream f)) + length (taken answers (pf_stream f)) < 2 ^ 32"
    using p by (auto simp: pending_def Let_def)
  ultimately show ?thesis
    using packet_arrive_content [OF _ _ assms(2), of f] p by (auto simp: pending_def Let_def split: if_splits)
qed

lemma packet_run_pending:
  "pending False f qs (a @ w) \<Longrightarrow> list_all undisturbed cs \<Longrightarrow> packet_run cs f = (a, rs, f') \<Longrightarrow>
   \<exists>rest. packet_reads qs (map fst rs) = (map snd rs, rest) \<and> pending False f' rest w"
proof (induction cs arbitrary: f qs a rs)
  case (Cons c cs)
  show ?case
  proof (cases c)
    case (PC_Arrive answers)
    obtain b rs1 g where run: "packet_run cs (packet_arrive answers f) = (b, rs1, g)" by (metis prod_cases3)
    then have eq: "a = taken answers (pf_stream f) @ b" "rs1 = rs" "g = f'" using PC_Arrive Cons.prems(3) by auto
    have "pending False (packet_arrive answers f) qs (b @ w)"
      using Cons.prems(1,2) PC_Arrive eq(1) by (intro packet_arrive_pending) simp_all
    then show ?thesis
      using Cons.IH [of _ qs b rs1] run eq Cons.prems(2) by simp
  next
    case (PC_Read n)
    obtain out f1 where r: "filter_read n f = (out, f1)" by fastforce
    obtain b rs1 g where run: "packet_run cs f1 = (b, rs1, g)" by (metis prod_cases3)
    have eq: "b = a" "g = f'" "rs = (if out = [] then rs1 else (n, out) # rs1)"
      using PC_Read Cons.prems(3) r run by auto
    show ?thesis
    proof (cases "n \<noteq> 0 \<and> is_ready_no_lock f")
      case True
      then obtain q qs' where q: "out \<noteq> []" "qs = q # qs'" "out = take (unat n) q"
          "pending False f1 (if unat n < length q then drop (unat n) q # qs' else qs') (a @ w)"
        using filter_read_pending [OF Cons.prems(1) r] by auto
      then show ?thesis
        using Cons.IH [OF q(4) _ run [unfolded eq]] Cons.prems(2) eq(3) by fastforce
    next
      case False
      then have "out = []" "f1 = f" using filter_read_pending [OF Cons.prems(1) r] by auto
      then show ?thesis
        using Cons.IH [OF Cons.prems(1)] run eq Cons.prems(2) by auto
    qed
  next
    case (PC_Event e)
    then show ?thesis
      using Cons.IH [OF filter_event_pending [OF Cons.prems(1)]] Cons.prems(2,3) by simp
  next
    case (PC_Write d)
    then show ?thesis
      using Cons.IH [of "filter_write d f" qs a rs] Cons.prems by (simp add: filter_write_pending)
  qed
qed simp

lemma accepted_pending:
  "list_all packet_ok ps \<Longrightarrow> length (wire ps) < 2 ^ 32 \<Longrightarrow>
   pending False (new_packet_filter accepted_tcp_socket) ps (wire ps)"
  by (simp add: pending_def Let_def new_packet_filter_def accepted_tcp_socket_def new_tcp_socket_def
      set_new_job_def on_connected_def)

lemma packet_reads_concat:
  "packet_reads qs ns = (outs, rest) \<Longrightarrow> concat outs @ concat rest = concat qs"
proof (induction qs ns arbitrary: outs rule: packet_reads.induct)
  case (3 q qs n ns)
  then show ?case by (force split: prod.splits if_splits)
qed auto

lemma filter_read_input [simp]: "sk_input (pf_stream (snd (filter_read n f))) = sk_input (pf_stream f)"
  by (simp add: filter_read_def Let_def filter_emit_def)

lemma filter_event_drains:
  "pending False f qs w \<Longrightarrow> buffer_content (sk_input (pf_stream (filter_event EV_StreamInputReady f))) = []"
  using read_loop_pending [of f qs w]
  by (simp add: filter_event_def read_more_def filter_emit_def Let_def)

lemma read_all_packets:
  "pending False f qs [] \<Longrightarrow> buffer_content (sk_input (pf_stream f)) = [] \<Longrightarrow>
   \<exists>f'. packet_run (replicate (length qs) (PC_Read (- 1))) f = ([], map (Pair (- 1)) qs, f')"
proof (induction qs arbitrary: f)
  case (Cons q qs)
  have ok: "buffer_ok (pf_buffer f)" and q_ok: "packet_ok q"
    using Cons.prems(1) by (auto simp: pending_def Let_def)
  have "pf_size f \<noteq> 0"
    using Cons.prems arg_cong [of _ _ length] by (fastforce simp: pending_def Let_def)
  then have "buffer_content (pf_buffer f) = q @ wire qs" "length q = unat (pf_size f)"
    using Cons.prems by (auto simp: pending_def Let_def)
  then have "is_ready_no_lock f"
    using \<open>pf_size f \<noteq> 0\<close> buffer.size_le [OF ok, of "pf_size f"] by (simp add: is_ready_no_lock_def)
  moreover obtain out f1 where r: "filter_read (- 1) f = (out, f1)" by fastforce
  moreover have big: "length q \<le> unat (- 1 :: u32)"
    using q_ok by (simp add: packet_ok_def PROTOCOL_MAX_MESSAGE_LENGTH_def unsigned_minus_1_eq_mask mask_eq_exp_minus_1)
  ultimately have "out = q" "out \<noteq> []" "pending False f1 qs []"
    using filter_read_pending [OF Cons.prems(1) r] by auto
  moreover have "buffer_content (sk_input (pf_stream f1)) = []"
    using Cons.prems(2) filter_read_input [of "- 1" f] r by simp
  ultimately show ?case using Cons.IH [of f1] r by auto
qed simp

text \<open>Whatever bytes arrive, the loop of \<open>readMore\<close> ends with the socket drained or a size refused.\<close>

lemma read_packet_size_refuses:
  "read_packet_size f = (False, f') \<Longrightarrow>
   pf_size f' > PROTOCOL_MAX_MESSAGE_LENGTH \<and> last (pf_events f') = EV_StreamInputFormatError"
  by (auto simp: read_packet_size_def filter_emit_def Let_def split: if_splits prod.splits)

lemma read_loop_drains:
  "buffer_ok (sk_input (pf_stream f)) \<Longrightarrow>
   sb_size (sk_input (pf_stream (read_loop f))) = 0 \<or>
   (pf_size (read_loop f) > PROTOCOL_MAX_MESSAGE_LENGTH \<and>
    last (pf_events (read_loop f)) = EV_StreamInputFormatError)"
proof (induction f rule: read_loop.induct)
  case (1 f)
  let ?inp = "sk_input (pf_stream f)"
  obtain d k where read: "socket_read 4096 (pf_stream f) = (d, k)" by fastforce
  note io = socket_read_content [OF "1.prems" read]
  let ?f = "f\<lparr>pf_stream := k, pf_buffer := buffer_write d (pf_buffer f)\<rparr>"
  obtain go_on f2 where size: "read_packet_size ?f = (go_on, f2)" by fastforce
  then have stream: "pf_stream f2 = k" using read_packet_size_stream [of ?f] by simp
  consider "d = []" | "d \<noteq> []" "go_on" | "d \<noteq> []" "\<not> go_on" by blast
  then show ?case
  proof cases
    case 1
    then have "buffer_content (sk_input k) = []" using io(1,3) by simp
    then show ?thesis using 1 read io(2) buffer.size_zero by (subst (1 2 3) read_loop.simps) simp
  next
    case 2
    then have step: "read_loop f = read_loop f2" using read size by (subst read_loop.simps) simp
    have "buffer_ok (sk_input (pf_stream f2))" using io(2) stream by simp
    then show ?thesis unfolding step
      using "1.IH" [OF read [symmetric] refl 2(1) _ 2(2)] size by simp
  next
    case 3
    then have "read_loop f = f2" using read size by (subst read_loop.simps) simp
    then show ?thesis using read_packet_size_refuses size 3 by simp
  qed
qed

section \<open>A sample run\<close>

lemma slurp_stop:
  "answers i = RA_Bytes [] \<Longrightarrow> slurp answers i b = (None, b)"
  "answers i = RA_Bytes [] \<Longrightarrow> slurped answers i b = []"
  by (simp_all add: slurp.simps [of _ i] slurped.simps [of _ i])

definition sample_packet_calls :: "packet_call list" where
  "sample_packet_calls = [PC_Arrive (\<lambda>i. if i = 0 then RA_Bytes [0, 0, 0, 2, 7, 8] else RA_Bytes []),
     PC_Event EV_StreamInputReady, PC_Read 1]"

lemmas packet_eval = packet_arrive_def socket_service_def service_connected_def service_read_def do_read_def
  taken_def accepted_tcp_socket_def new_tcp_socket_def new_packet_filter_def socket_ops Let_def slurp_stop
  buffer_write_def new_buffer_def fill_chunks_fits kChunkSize_def

lemma read_loop_step:
  "socket_read 4096 (pf_stream f) = (d, k) \<Longrightarrow> d \<noteq> [] \<Longrightarrow>
   read_packet_size (f\<lparr>pf_stream := k, pf_buffer := buffer_write d (pf_buffer f)\<rparr>) = (True, f2) \<Longrightarrow>
   read_loop f = read_loop f2"
  by (subst read_loop.simps) simp

lemma read_loop_stop:
  "socket_read 4096 (pf_stream f) = ([], k) \<Longrightarrow> read_loop f = f\<lparr>pf_stream := k\<rparr>"
  by (subst read_loop.simps) simp

lemma sample_packets_loop:
  assumes "sk_input k = \<lparr>sb_chunks = [[0, 0, 0, 2, 7, 8]], sb_size = 6, sb_head_used = 0\<rparr>" and "sk_readable k"
  shows "\<exists>k'. read_loop (new_packet_filter k) =
    \<lparr>pf_stream = k', pf_size = 2, pf_buffer = \<lparr>sb_chunks = [[0, 0, 0, 2, 7, 8]], sb_size = 2, sb_head_used = 4\<rparr>,
     pf_input_shutdown = False, pf_events = []\<rparr>"
proof -
  have "\<exists>k'. socket_read 4096 k = ([0, 0, 0, 2, 7, 8], k') \<and> sk_input k' = new_buffer \<and> sk_readable k'"
    using assms by (simp add: socket_read_def Let_def buffer_peek_def buffer_pop_def new_buffer_def)
  then obtain k' where k': "socket_read 4096 k = ([0, 0, 0, 2, 7, 8], k')" "sk_input k' = new_buffer" by blast
  let ?f = "\<lparr>pf_stream = k', pf_size = 2,
    pf_buffer = \<lparr>sb_chunks = [[0, 0, 0, 2, 7, 8]], sb_size = 2, sb_head_used = 4\<rparr>,
     pf_input_shutdown = False, pf_events = []\<rparr>"
  have "read_loop (new_packet_filter k) = read_loop ?f"
  proof (rule read_loop_step)
    show "socket_read 4096 (pf_stream (new_packet_filter k)) = ([0, 0, 0, 2, 7, 8], k')"
      using k' by (simp add: new_packet_filter_def)
    show "read_packet_size 
        (new_packet_filter k\<lparr>pf_stream := k',
          pf_buffer := buffer_write [0, 0, 0, 2, 7, 8] (pf_buffer (new_packet_filter k))\<rparr>) = (True, ?f)"
      by (simp add: read_packet_size_def new_packet_filter_def buffer_write_def new_buffer_def fill_chunks_fits kChunkSize_def
       buffer_peek_def buffer_pop_def size_of_header_def PROTOCOL_MAX_MESSAGE_LENGTH_def)
  qed simp
  moreover have "\<exists>k2. socket_read 4096 k' = ([], k2)"
    using k'(2) by (simp add: socket_read_def Let_def new_buffer_def buffer_peek_def)
  ultimately show ?thesis using read_loop_stop [of ?f] by auto
qed

lemma sample_packets_run:
  "\<exists>f. packet_run sample_packet_calls (new_packet_filter accepted_tcp_socket) = (wire [[7, 8]], [(1, [7])], f)"
proof -
  have "\<exists>k. packet_arrive (\<lambda>i. if i = 0 then RA_Bytes [0, 0, 0, 2, 7, 8] else RA_Bytes [])
      (new_packet_filter accepted_tcp_socket) = new_packet_filter k \<and> sk_readable k \<and>
      sk_input k = \<lparr>sb_chunks = [[0, 0, 0, 2, 7, 8]], sb_size = 6, sb_head_used = 0\<rparr>"
    by (simp add: packet_eval)
  then obtain k where k: "packet_arrive (\<lambda>i. if i = 0 then RA_Bytes [0, 0, 0, 2, 7, 8] else RA_Bytes [])
      (new_packet_filter accepted_tcp_socket) = new_packet_filter k" "sk_readable k"
      "sk_input k = \<lparr>sb_chunks = [[0, 0, 0, 2, 7, 8]], sb_size = 6, sb_head_used = 0\<rparr>" by blast
  have t: "taken (\<lambda>i. if i = 0 then RA_Bytes [0, 0, 0, 2, 7, 8] else RA_Bytes [])
      (pf_stream (new_packet_filter accepted_tcp_socket)) = [0, 0, 0, 2, 7, 8]"
    by (simp add: packet_eval)
  obtain k' where loop: "read_loop (new_packet_filter k) =
    \<lparr>pf_stream = k', pf_size = 2, pf_buffer = \<lparr>sb_chunks = [[0, 0, 0, 2, 7, 8]], sb_size = 2, sb_head_used = 4\<rparr>,
     pf_input_shutdown = False, pf_events = []\<rparr>"
    using sample_packets_loop [OF k(3,2)] by blast
  have n: "is_ready_no_lock (new_packet_filter k) = False"
    by (simp add: new_packet_filter_def is_ready_no_lock_def)
  show ?thesis
    by (simp add: sample_packet_calls_def k(1) t filter_event_def read_more_def Let_def loop n)
       (simp add: is_ready_no_lock_def filter_read_def filter_emit_def Let_def buffer_peek_def buffer_pop_def
         read_packet_size_def packet_def packet_header_def)
qed

section \<open>Properties\<close>

text \<open>C13. Packets survive the byte stream: however the network cuts the bytes of a list of packets (none
  empty or above the limit, together below 4 GiB), and however arrivals, events, writes and reads
  of any size are interleaved, the reads that return something return exactly what reading the
  packets one after the other returns; no read crosses the end of a packet.\<close>

theorem packet_stream_exact:
  assumes "list_all packet_ok ps" and "length (wire ps) < 2 ^ 32" and "list_all undisturbed cs"
    and "packet_run cs (new_packet_filter accepted_tcp_socket) = (arrived, rs, f)" and "wire ps = arrived @ w"
  shows "fst (packet_reads ps (map fst rs)) = map snd rs"
proof -
  have "pending False (new_packet_filter accepted_tcp_socket) ps (arrived @ w)"
    using accepted_pending [OF assms(1,2)] assms(5) by simp
  then show ?thesis
    using packet_run_pending [OF _ assms(3,4)] by fastforce
qed

theorem packet_stream_exact_witness:
  "fst (packet_reads [[7, 8]] [1]) = [[7 :: byte]]"
proof -
  obtain f where "packet_run sample_packet_calls (new_packet_filter accepted_tcp_socket) =
      (wire [[7, 8]], [(1, [7])], f)"
    using sample_packets_run by blast
  from packet_stream_exact [OF _ _ _ this, of "[[7, 8]]" "[]"] show ?thesis
    by (simp add: packet_ok_def PROTOCOL_MAX_MESSAGE_LENGTH_def sample_packet_calls_def)
qed



text \<open>C37. Handling a readiness event comes to an end, whatever bytes have arrived and in whatever
  state the filter is: the loop leaves the socket's buffer empty, or it has met a packet size
  above the limit and announced the format error.\<close>

theorem read_more_terminates_drained:
  assumes "buffer_ok (sk_input (pf_stream f))"
  shows "let (changed, f') = read_more f in
    sb_size (sk_input (pf_stream f')) = 0 \<or>
    (pf_size f' > PROTOCOL_MAX_MESSAGE_LENGTH \<and> last (pf_events f') = EV_StreamInputFormatError)"
  using read_loop_drains [OF assms] by (simp add: read_more_def Let_def)

theorem read_more_terminates_drained_witness:
  "let (changed, f') = read_more (new_packet_filter accepted_tcp_socket) in
    sb_size (sk_input (pf_stream f')) = 0 \<or>
    (pf_size f' > PROTOCOL_MAX_MESSAGE_LENGTH \<and> last (pf_events f') = EV_StreamInputFormatError)"
  by (rule read_more_terminates_drained)
     (simp add: new_packet_filter_def accepted_tcp_socket_def new_tcp_socket_def set_new_job_def on_connected_def)

end
