(* ===== verification/ProtocolFormat.thy ===== *)
theory ProtocolFormat
  imports PacketFilter
begin

text \<open>
  \<open>ProtocolUtil\<close> and the message formats of \<open>ProtocolTypes\<close> (src/lib/deskflow): printf-like formats that
  put the arguments of a message into bytes and take them out of a stream again. A variable
  argument list is a list of \<open>fmt_arg\<close>; taking an argument of another type, and a failed \<open>assert\<close>, is
  the result \<open>None\<close> of a writer and \<open>RX_Assert\<close> of a reader. Memory is assumed not to run out.
\<close>

section \<open>Formats\<close>

datatype fmt_arg =
    FA_Int u32
  | FA_Vec1 "byte list"
  | FA_Vec2 "u16 list"
  | FA_Vec4 "u32 list"
  | FA_Str bytes
  | FA_Ptr bytes

definition PROTOCOL_MAX_LIST_LENGTH :: u32 where
  "PROTOCOL_MAX_LIST_LENGTH = 1024 * 1024"

definition PROTOCOL_MAX_STRING_LENGTH :: u32 where
  "PROTOCOL_MAX_STRING_LENGTH = 1024 * 1024"

definition digit_value :: "char \<Rightarrow> u32 option" where
  "digit_value c =
     (let n = of_char c in if 48 \<le> n \<and> n \<le> (57 :: nat) then Some (word_of_nat (n - 48)) else None)"

fun eat_length :: "u32 \<Rightarrow> string \<Rightarrow> u32 \<times> string" where
  "eat_length n [] = (n, [])"
| "eat_length n (c # fmt) =
     (case digit_value c of None \<Rightarrow> (n, c # fmt) | Some d \<Rightarrow> eat_length (10 * n + d) fmt)"

lemma eat_length_suffix: "length (snd (eat_length n fmt)) \<le> length fmt"
  by (induction n fmt rule: eat_length.induct) (auto split: option.split)

section \<open>Writing\<close>

definition write_int :: "u32 \<Rightarrow> u32 \<Rightarrow> bytes option" where
  "write_int v n =
     (if n = 1 then Some [ucast (and v 0xff)]
      else if n = 4 then Some
        [ucast (and (drop_bit 24 v) 0xff), ucast (and (drop_bit 16 v) 0xff),
         ucast (and (drop_bit 8 v) 0xff), ucast (and v 0xff)]
      else if n = 2 then Some [ucast (and (drop_bit 8 v) 0xff), ucast (and v 0xff)]
      else None)"

definition write_vector_int :: "u32 \<Rightarrow> u32 list \<Rightarrow> bytes option" where
  "write_vector_int n vs =
     (if n = 1 \<or> n = 2 \<or> n = 4
      then Some (the (write_int (word_of_nat (length vs)) 4) @ concat (map (\<lambda>v. the (write_int v n)) vs))
      else None)"

definition write_string :: "bytes \<Rightarrow> bytes" where
  "write_string s = the (write_int (word_of_nat (length s)) 4) @ s"

text \<open>One specifier of \<open>writef\<close>, and of \<open>getLength\<close>, which runs over the arguments a first time.\<close>

definition write_spec :: "u32 \<Rightarrow> char \<Rightarrow> fmt_arg list \<Rightarrow> (bytes \<times> fmt_arg list) option" where
  "write_spec len c args =
     (if c = CHR ''i'' then
        (case args of FA_Int v # rest \<Rightarrow> map_option (\<lambda>b. (b, rest)) (write_int v len) | _ \<Rightarrow> None)
      else if c = CHR ''I'' then
        (case args of
           FA_Vec1 vs # rest \<Rightarrow> if len = 1 then map_option (\<lambda>b. (b, rest)) (write_vector_int 1 (map ucast vs)) else None
         | FA_Vec2 vs # rest \<Rightarrow> if len = 2 then map_option (\<lambda>b. (b, rest)) (write_vector_int 2 (map ucast vs)) else None
         | FA_Vec4 vs # rest \<Rightarrow> if len = 4 then map_option (\<lambda>b. (b, rest)) (write_vector_int 4 vs) else None
         | _ \<Rightarrow> None)
      else if c = CHR ''s'' then
        (case args of FA_Str s # rest \<Rightarrow> if len = 0 then Some (write_string s, rest) else None | _ \<Rightarrow> None)
      else if c = CHR ''S'' then
        (case args of
           FA_Int n # FA_Ptr src # rest \<Rightarrow>
             if len = 0 \<and> unat n \<le> length src
             then Some (the (write_int n 4) @ take (unat n) src, rest) else None
         | _ \<Rightarrow> None)
      else if c = CHR ''%'' then (if len = 0 then Some ([0x25], args) else None)
      else None)"

definition length_spec :: "u32 \<Rightarrow> char \<Rightarrow> fmt_arg list \<Rightarrow> (u32 \<times> fmt_arg list) option" where
  "length_spec len c args =
     (if c = CHR ''i'' then
        (case args of FA_Int v # rest \<Rightarrow> if len = 1 \<or> len = 2 \<or> len = 4 then Some (len, rest) else None | _ \<Rightarrow> None)
      else if c = CHR ''I'' then
        (case args of
           FA_Vec1 vs # rest \<Rightarrow> if len = 1 then Some (word_of_nat (length vs) + 4, rest) else None
         | FA_Vec2 vs # rest \<Rightarrow> if len = 2 then Some (2 * word_of_nat (length vs) + 4, rest) else None
         | FA_Vec4 vs # rest \<Rightarrow> if len = 4 then Some (4 * word_of_nat (length vs) + 4, rest) else None
         | _ \<Rightarrow> None)
      else if c = CHR ''s'' then
        (case args of FA_Str s # rest \<Rightarrow> if len = 0 then Some (word_of_nat (length s) + 4, rest) else None | _ \<Rightarrow> None)
      else if c = CHR ''S'' then
        (case args of FA_Int n # rest \<Rightarrow> if len = 0 then Some (n + 4, rest) else None | _ \<Rightarrow> None)
      else if c = CHR ''%'' then (if len = 0 then Some (1, args) else None)
      else None)"

function get_length :: "string \<Rightarrow> fmt_arg list \<Rightarrow> u32 option" where
  "get_length [] args = Some 0"
| "get_length (c # fmt) args =
     (if c = CHR ''%'' then
        (case eat_length 0 fmt of
           (len, []) \<Rightarrow> None
         | (len, s # rest) \<Rightarrow>
             (case length_spec len s args of
                None \<Rightarrow> None
              | Some (n, args') \<Rightarrow> map_option (\<lambda>m. n + m) (get_length rest args')))
      else map_option (\<lambda>m. 1 + m) (get_length fmt args))"
  by pat_completeness auto

lemma eat_length_shorter: "(len, s # rest) = eat_length 0 fmt \<Longrightarrow> length rest < Suc (length fmt)"
  using eat_length_suffix [of 0 fmt] by (cases "eat_length 0 fmt") simp

termination get_length
  by (relation "measure (\<lambda>(fmt, args). length fmt)") (auto dest: eat_length_shorter)

function writef_buffer :: "string \<Rightarrow> fmt_arg list \<Rightarrow> bytes option" where
  "writef_buffer [] args = Some []"
| "writef_buffer (c # fmt) args =
     (if c = CHR ''%'' then
        (case eat_length 0 fmt of
           (len, []) \<Rightarrow> None
         | (len, s # rest) \<Rightarrow>
             (case write_spec len s args of
                None \<Rightarrow> None
              | Some (b, args') \<Rightarrow> map_option (\<lambda>bs. b @ bs) (writef_buffer rest args')))
      else map_option (\<lambda>bs. of_char c # bs) (writef_buffer fmt args))"
  by pat_completeness auto
termination
  by (relation "measure (\<lambda>(fmt, args). length fmt)") (auto dest: eat_length_shorter)

text \<open>
  \<open>writef\<close> on a stream: the bytes handed to its \<open>write\<close>, which is not called when the size is 0. The
  size comes from \<open>getLength\<close>; reading beyond the buffer is undefined.
\<close>

definition writef :: "string \<Rightarrow> fmt_arg list \<Rightarrow> bytes option" where
  "writef fmt args =
     (case get_length fmt args of
        None \<Rightarrow> None
      | Some n \<Rightarrow>
          if n = 0 then Some []
          else (case writef_buffer fmt args of
                  None \<Rightarrow> None
                | Some buf \<Rightarrow> if unat n \<le> length buf then Some (take (unat n) buf) else None))"

section \<open>The two passes agree\<close>

lemma write_int_length: "n = 1 \<or> n = 2 \<or> n = 4 \<Longrightarrow> \<exists>b. write_int v n = Some b \<and> length b = unat n"
  by (auto simp: write_int_def)

lemma write_int_4: "\<exists>b. write_int v 4 = Some b \<and> length b = 4"
  using write_int_length [of 4 v] by simp

lemma write_vector_length:
  assumes "n = 1 \<or> n = 2 \<or> n = 4"
  shows "\<exists>b. write_vector_int n vs = Some b \<and> length b = 4 + unat n * length vs"
proof -
  have "length (concat (map (\<lambda>v. the (write_int v n)) vs)) = unat n * length vs"
    using write_int_length [OF assms] by (induction vs) (auto, metis option.sel)
  then show ?thesis
    using assms write_int_4 [of "word_of_nat (length vs)"] by (auto simp: write_vector_int_def)
qed

lemma write_spec_cases [consumes 1, case_names int vec1 vec2 vec4 str buf percent]:
  assumes "write_spec len c args = Some (b, rest)"
  obtains
    (int) v where "c = CHR ''i''" "args = FA_Int v # rest" "write_int v len = Some b"
  | (vec1) vs where "c = CHR ''I''" "len = 1" "args = FA_Vec1 vs # rest"
      "write_vector_int 1 (map ucast vs) = Some b"
  | (vec2) vs where "c = CHR ''I''" "len = 2" "args = FA_Vec2 vs # rest"
      "write_vector_int 2 (map ucast vs) = Some b"
  | (vec4) vs where "c = CHR ''I''" "len = 4" "args = FA_Vec4 vs # rest" "write_vector_int 4 vs = Some b"
  | (str) s where "c = CHR ''s''" "len = 0" "args = FA_Str s # rest" "b = write_string s"
  | (buf) n src where "c = CHR ''S''" "len = 0" "args = FA_Int n # FA_Ptr src # rest"
      "unat n \<le> length src" "b = the (write_int n 4) @ take (unat n) src"
  | (percent) "c = CHR ''%''" "len = 0" "rest = args" "b = [0x25]"
proof -
  note w = assms [unfolded write_spec_def]
  consider "c = CHR ''i''" | "c = CHR ''I''" | "c = CHR ''s''" | "c = CHR ''S''" | "c = CHR ''%''"
    using w by (auto split: if_splits)
  then show ?thesis
  proof cases
    case 1 with w show ?thesis by (auto split: list.splits fmt_arg.splits intro: int)
  next
    case 2 with w show ?thesis
      by (auto split: list.splits fmt_arg.splits if_splits intro: vec1 vec2 vec4)
  next
    case 3 with w show ?thesis by (auto split: list.splits fmt_arg.splits if_splits intro: str)
  next
    case 4 with w show ?thesis by (auto split: list.splits fmt_arg.splits if_splits intro: buf)
  next
    case 5 with w show ?thesis by (auto split: if_splits intro: percent)
  qed
qed

lemma write_int_SomeD: "write_int v n = Some b \<Longrightarrow> (n = 1 \<or> n = 2 \<or> n = 4) \<and> length b = unat n"
  by (auto simp: write_int_def split: if_splits)

lemma write_vector_SomeD:
  "write_vector_int n vs = Some b \<Longrightarrow> (n = 1 \<or> n = 2 \<or> n = 4) \<and> length b = 4 + unat n * length vs"
  using write_vector_length [of n vs] by (auto simp: write_vector_int_def split: if_splits)

lemma the_write_int_4 [simp]: "length (the (write_int v 4)) = 4"
  using write_int_4 [of v] by auto

lemma spec_lengths:
  assumes "write_spec len c args = Some (b, rest)" and "length_spec len c args = Some (n, rest')"
  shows "word_of_nat (length b) = n \<and> (c \<noteq> CHR ''S'' \<longrightarrow> rest' = rest)"
  using assms(1)
proof (cases rule: write_spec_cases)
  case (int v)
  then show ?thesis using assms(2) write_int_SomeD [OF int(3)]
    by (auto simp: length_spec_def split: if_splits)
next
  case (buf k src)
  then show ?thesis using assms(2) by (auto simp: length_spec_def min_def)
qed (use assms(2) in \<open>auto simp: length_spec_def write_string_def dest!: write_vector_SomeD\<close>)

lemma get_length_stale:
  "get_length fmt (FA_Ptr p # xs) = Some n \<Longrightarrow> writef_buffer fmt ys = Some b \<Longrightarrow> word_of_nat (length b) = n"
proof (induction fmt "FA_Ptr p # xs" arbitrary: n ys b rule: get_length.induct)
  case (2 c fmt)
  show ?case
  proof (cases "c = CHR ''%''")
    case True
    obtain len rest0 where e: "eat_length 0 fmt = (len, rest0)" by fastforce
    with True "2.prems"(1) obtain s rest where s: "rest0 = s # rest" by (cases rest0) auto
    obtain m n1 args1 where l: "length_spec len s (FA_Ptr p # xs) = Some (n1, args1)"
        "get_length rest args1 = Some m" "n = n1 + m"
      using "2.prems"(1) True e s by (auto split: option.splits)
    obtain b1 ys1 b2 where w: "write_spec len s ys = Some (b1, ys1)" "writef_buffer rest ys1 = Some b2" "b = b1 @ b2"
      using "2.prems"(2) True e s by (auto split: option.splits)
    have pc: "s = CHR ''%''" "n1 = 1" "args1 = FA_Ptr p # xs"
      using l(1) by (auto simp: length_spec_def split: if_splits)
    then have "b1 = [0x25]" using w(1) by (auto simp: write_spec_def split: if_splits)
    then show ?thesis
      using "2.hyps"(1) [OF True e [symmetric] s l(1), of "1" m ys1 b2] l w pc by simp
  next
    case False
    then show ?thesis using 2 by auto
  qed
qed simp

lemma two_passes_agree:
  "get_length fmt args = Some n \<Longrightarrow> writef_buffer fmt args = Some b \<Longrightarrow> word_of_nat (length b) = n"
proof (induction fmt args arbitrary: n b rule: get_length.induct)
  case (2 c fmt args)
  show ?case
  proof (cases "c = CHR ''%''")
    case True
    obtain len rest0 where e: "eat_length 0 fmt = (len, rest0)" by fastforce
    with True "2.prems"(1) obtain s rest where s: "rest0 = s # rest" by (cases rest0) auto
    obtain m n1 args1 where l: "length_spec len s args = Some (n1, args1)"
        "get_length rest args1 = Some m" "n = n1 + m"
      using "2.prems"(1) True e s by (auto split: option.splits)
    obtain b1 args2 b2 where w: "write_spec len s args = Some (b1, args2)" "writef_buffer rest args2 = Some b2"
        "b = b1 @ b2"
      using "2.prems"(2) True e s by (auto split: option.splits)
    note sl = spec_lengths [OF w(1) l(1)]
    have "word_of_nat (length b2) = m"
    proof (cases "s = CHR ''S''")
      case S: True
      from w(1) obtain k src where "args = FA_Int k # FA_Ptr src # args2"
        using S by (cases rule: write_spec_cases) auto
      then have "args1 = FA_Ptr src # args2" using l(1) S by (auto simp: length_spec_def split: if_splits)
      then show ?thesis using get_length_stale l(2) w(2) by blast
    next
      case noS: False
      then show ?thesis
        using "2.IH"(1) [OF True e [symmetric] s l(1) refl l(2)] w(2) sl by simp
    qed
    then show ?thesis using sl l(3) w(3) by simp
  next
    case False
    then show ?thesis using 2 by auto
  qed
qed simp

section \<open>Reading\<close>

text \<open>
  The stream is a state \<open>'s\<close> with its \<open>read\<close>: at most the given number of bytes, none when it has hung
  up. The arguments \<open>vreadf\<close> completed before it gave up are part of its result (of a vector that ends
  early, the code has also stored the values read so far).
\<close>

datatype read_exn = RX_EndOfStream | RX_Mismatch | RX_BadClient | RX_Assert

function read_exact ::
  "(u32 \<Rightarrow> 's \<Rightarrow> bytes \<times> 's) \<Rightarrow> nat \<Rightarrow> 's \<Rightarrow> (read_exn + bytes) \<times> 's" where
  "read_exact rd count s =
     (if count = 0 then (Inr [], s)
      else case rd (word_of_nat count) s of (d, s1) \<Rightarrow>
        if d = [] then (Inl RX_EndOfStream, s1)
        else case read_exact rd (count - length d) s1 of
          (Inl e, s2) \<Rightarrow> (Inl e, s2)
        | (Inr r, s2) \<Rightarrow> (Inr (d @ r), s2))"
  by pat_completeness auto
termination
  by (relation "measure (\<lambda>(rd, count, s). count)") auto

declare read_exact.simps [simp del]

definition int_of_bytes :: "bytes \<Rightarrow> u32" where
  "int_of_bytes b =
     (if length b = 1 then ucast (b ! 0)
      else if length b = 2 then ucast (or (push_bit 8 (ucast (b ! 0))) (ucast (b ! 1)) :: u16)
      else size_of_header b)"

definition read_int :: "(u32 \<Rightarrow> 's \<Rightarrow> bytes \<times> 's) \<Rightarrow> nat \<Rightarrow> 's \<Rightarrow> (read_exn + u32) \<times> 's" where
  "read_int rd n s = (case read_exact rd n s of (Inl e, s1) \<Rightarrow> (Inl e, s1) | (Inr b, s1) \<Rightarrow> (Inr (int_of_bytes b), s1))"

fun read_ints :: "(u32 \<Rightarrow> 's \<Rightarrow> bytes \<times> 's) \<Rightarrow> nat \<Rightarrow> nat \<Rightarrow> 's \<Rightarrow> (read_exn + u32 list) \<times> 's" where
  "read_ints rd n 0 s = (Inr [], s)"
| "read_ints rd n (Suc k) s =
     (case read_int rd n s of
        (Inl e, s1) \<Rightarrow> (Inl e, s1)
      | (Inr v, s1) \<Rightarrow>
          (case read_ints rd n k s1 of (Inl e, s2) \<Rightarrow> (Inl e, s2) | (Inr vs, s2) \<Rightarrow> (Inr (v # vs), s2)))"

definition read_vector_size :: "(u32 \<Rightarrow> 's \<Rightarrow> bytes \<times> 's) \<Rightarrow> 's \<Rightarrow> (read_exn + u32) \<times> 's" where
  "read_vector_size rd s =
     (case read_int rd 4 s of
        (Inl e, s1) \<Rightarrow> (Inl e, s1)
      | (Inr n, s1) \<Rightarrow> if n > PROTOCOL_MAX_LIST_LENGTH then (Inl RX_BadClient, s1) else (Inr n, s1))"

definition read_vector :: "(u32 \<Rightarrow> 's \<Rightarrow> bytes \<times> 's) \<Rightarrow> nat \<Rightarrow> 's \<Rightarrow> (read_exn + u32 list) \<times> 's" where
  "read_vector rd n s =
     (case read_vector_size rd s of
        (Inl e, s1) \<Rightarrow> (Inl e, s1)
      | (Inr k, s1) \<Rightarrow> read_ints rd n (unat k) s1)"

definition read_string :: "(u32 \<Rightarrow> 's \<Rightarrow> bytes \<times> 's) \<Rightarrow> u32 \<Rightarrow> 's \<Rightarrow> (read_exn + bytes) \<times> 's" where
  "read_string rd len s =
     (case (if len = 0 then read_int rd 4 s else (Inr len, s)) of
        (Inl e, s1) \<Rightarrow> (Inl e, s1)
      | (Inr n, s1) \<Rightarrow> read_exact rd (unat n) s1)"

definition map_result :: "('a \<Rightarrow> 'b) \<Rightarrow> (read_exn + 'a) \<times> 's \<Rightarrow> (read_exn + 'b) \<times> 's" where
  "map_result f r = (case r of (Inl e, s) \<Rightarrow> (Inl e, s) | (Inr x, s) \<Rightarrow> (Inr (f x), s))"

definition read_spec ::
  "(u32 \<Rightarrow> 's \<Rightarrow> bytes \<times> 's) \<Rightarrow> u32 \<Rightarrow> char \<Rightarrow> 's \<Rightarrow> (read_exn + fmt_arg list) \<times> 's" where
  "read_spec rd len c s =
     (if c = CHR ''i'' then
        (if len = 1 \<or> len = 2 \<or> len = 4 then map_result (\<lambda>v. [FA_Int v]) (read_int rd (unat len) s)
         else (Inl RX_Assert, s))
      else if c = CHR ''I'' then
        (if len = 1 then map_result (\<lambda>vs. [FA_Vec1 (map ucast vs)]) (read_vector rd 1 s)
         else if len = 2 then map_result (\<lambda>vs. [FA_Vec2 (map ucast vs)]) (read_vector rd 2 s)
         else if len = 4 then map_result (\<lambda>vs. [FA_Vec4 vs]) (read_vector rd 4 s)
         else (Inl RX_Assert, s))
      else if c = CHR ''s'' then
        (if len > PROTOCOL_MAX_STRING_LENGTH then (Inl RX_BadClient, s)
         else map_result (\<lambda>b. [FA_Str b]) (read_string rd len s))
      else if c = CHR ''%'' then (if len = 0 then (Inr [], s) else (Inl RX_Assert, s))
      else (Inl RX_Assert, s))"

function vreadf :: "(u32 \<Rightarrow> 's \<Rightarrow> bytes \<times> 's) \<Rightarrow> string \<Rightarrow> 's \<Rightarrow> (fmt_arg list \<times> read_exn option) \<times> 's" where
  "vreadf rd [] s = (([], None), s)"
| "vreadf rd (c # fmt) s =
     (if c = CHR ''%'' then
        (case eat_length 0 fmt of
           (len, []) \<Rightarrow> (([], Some RX_Assert), s)
         | (len, sp # rest) \<Rightarrow>
             (case read_spec rd len sp s of
                (Inl e, s1) \<Rightarrow> (([], Some e), s1)
              | (Inr args, s1) \<Rightarrow> (case vreadf rd rest s1 of ((args2, e), s2) \<Rightarrow> ((args @ args2, e), s2))))
      else
        (case read_exact rd 1 s of
           (Inl e, s1) \<Rightarrow> (([], Some e), s1)
         | (Inr b, s1) \<Rightarrow> if b \<noteq> [of_char c] then (([], Some RX_Mismatch), s1) else vreadf rd fmt s1))"
  by pat_completeness auto
termination
  by (relation "measure (\<lambda>(rd, fmt, s). length fmt)") (auto dest: eat_length_shorter)

text \<open>\<open>readf\<close> turns I/O exceptions into \<open>false\<close>; \<open>BadClientException\<close> passes through.\<close>

datatype readf_result = RF_Return bool | RF_Throw | RF_Abort

definition readf ::
  "(u32 \<Rightarrow> 's \<Rightarrow> bytes \<times> 's) \<Rightarrow> string \<Rightarrow> 's \<Rightarrow> (fmt_arg list \<times> readf_result) \<times> 's" where
  "readf rd fmt s =
     (case vreadf rd fmt s of ((args, e), s1) \<Rightarrow>
        ((args, case e of
           None \<Rightarrow> RF_Return True
         | Some RX_EndOfStream \<Rightarrow> RF_Return False
         | Some RX_Mismatch \<Rightarrow> RF_Return False
         | Some RX_BadClient \<Rightarrow> RF_Throw
         | Some RX_Assert \<Rightarrow> RF_Abort), s1))"

section \<open>Sources of bytes\<close>

text \<open>
  What a stream must promise to a reader: while bytes of the message are left, a read returns some of
  the next ones. A packet filter is such a source within one packet.
\<close>

locale byte_source =
  fixes rd :: "u32 \<Rightarrow> 's \<Rightarrow> bytes \<times> 's"
    and holds :: "'s \<Rightarrow> bytes \<Rightarrow> bool"
  assumes rd_law: "holds s (x # q) \<Longrightarrow> n \<noteq> 0 \<Longrightarrow> rd n s = (d, s') \<Longrightarrow>
      d \<noteq> [] \<and> length d \<le> unat n \<and> (\<exists>r. x # q = d @ r \<and> holds s' r)"
begin

lemma read_exact_holds:
  "holds s (a @ r) \<Longrightarrow> length a < 2 ^ 32 \<Longrightarrow>
   \<exists>s'. read_exact rd (length a) s = (Inr a, s') \<and> holds s' r"
proof (induction "length a" arbitrary: a s rule: less_induct)
  case less
  show ?case
  proof (cases a)
    case Nil
    then show ?thesis using less.prems by (simp add: read_exact.simps)
  next
    case (Cons x q)
    obtain d s1 where d: "rd (word_of_nat (length a)) s = (d, s1)" by fastforce
    have n: "unat (word_of_nat (length a) :: u32) = length a"
      using less.prems(2) by (rule unat_of_nat_u32)
    then have "(word_of_nat (length a) :: u32) \<noteq> 0" using Cons by (metis length_0_conv list.distinct(1) unat_0)
    then obtain t where t: "d \<noteq> []" "length d \<le> length a" "a @ r = d @ t" "holds s1 t"
      using rd_law [of s x "q @ r" "word_of_nat (length a)" d s1] less.prems(1) d n Cons by auto
    then obtain a2 where a: "a = d @ a2" "t = a2 @ r" by (auto simp: append_eq_append_conv2)
    then obtain s' where "read_exact rd (length a2) s1 = (Inr a2, s')" "holds s' r"
      using less.hyps [of a2 s1] t less.prems(2) by auto
    then show ?thesis using d a t(1) by (subst read_exact.simps) simp
  qed
qed

lemma read_int_holds:
  "holds s (a @ r) \<Longrightarrow> length a < 2 ^ 32 \<Longrightarrow>
   \<exists>s'. read_int rd (length a) s = (Inr (int_of_bytes a), s') \<and> holds s' r"
  using read_exact_holds [of s a r] by (auto simp: read_int_def)

lemma read_ints_holds:
  "holds s (concat as @ r) \<Longrightarrow> \<forall>a \<in> set as. length a = n \<Longrightarrow> n < 2 ^ 32 \<Longrightarrow>
   \<exists>s'. read_ints rd n (length as) s = (Inr (map int_of_bytes as), s') \<and> holds s' r"
proof (induction as arbitrary: s)
  case (Cons a as)
  then obtain s1 where 1: "read_int rd n s = (Inr (int_of_bytes a), s1)" "holds s1 (concat as @ r)"
    using read_int_holds [of s a "concat as @ r"] by auto
  obtain s2 where "read_ints rd n (length as) s1 = (Inr (map int_of_bytes as), s2)" "holds s2 r"
    using Cons.IH [OF 1(2)] Cons.prems by auto
  with 1(1) show ?case by simp
qed simp

lemma literal_holds:
  "holds s (of_char c # r) \<Longrightarrow> \<exists>s'. read_exact rd 1 s = (Inr [of_char c], s') \<and> holds s' r"
  using read_exact_holds [of s "[of_char c]" r] by simp

end

section \<open>Reading what was written\<close>

definition narrow :: "u32 \<Rightarrow> u32 \<Rightarrow> u32" where
  "narrow n v = (if n = 1 then and v 0xff else if n = 2 then and v 0xffff else v)"

lemma mask_bits:
  "bit (0xff :: u32) i \<longleftrightarrow> i < 8" "bit (0xffff :: u32) i \<longleftrightarrow> i < 16"
  "bit (0xff :: int) i \<longleftrightarrow> i < 8" "bit (0xffff :: int) i \<longleftrightarrow> i < 16"
proof -
  have "bit (mask 8 :: u32) i \<longleftrightarrow> i < 8" "bit (mask 16 :: u32) i \<longleftrightarrow> i < 16"
    "bit (mask 8 :: int) i \<longleftrightarrow> i < 8" "bit (mask 16 :: int) i \<longleftrightarrow> i < 16"
    by (auto simp: bit_mask_iff)
  then show "bit (0xff :: u32) i \<longleftrightarrow> i < 8" "bit (0xffff :: u32) i \<longleftrightarrow> i < 16"
    "bit (0xff :: int) i \<longleftrightarrow> i < 8" "bit (0xffff :: int) i \<longleftrightarrow> i < 16"
    by (simp_all only: mask_eq_exp_minus_1) simp_all
qed

lemma byte_of_mask:
  "bit (push_bit k (ucast (ucast (and (drop_bit j v) 0xff) :: byte) :: 'a :: len word)) i \<longleftrightarrow>
   k \<le> i \<and> i < LENGTH('a) \<and> i - k < 8 \<and> bit (v :: u32) (j + (i - k))"
  by (auto simp: bit_push_bit_iff bit_unsigned_iff bit_and_iff mask_bits bit_drop_bit_eq)

lemma byte_of_mask_low:
  "bit (ucast (ucast (and (drop_bit j v) 0xff) :: byte) :: 'a :: len word) i \<longleftrightarrow>
   i < LENGTH('a) \<and> i < 8 \<and> bit (v :: u32) (j + i)"
  using byte_of_mask [of 0 j v i, where ?'a = 'a] by simp

lemma int_of_written:
  assumes "write_int v n = Some b"
  shows "int_of_bytes b = narrow n v"
proof -
  consider "n = 1" | "n = 2" | "n = 4" using write_int_SomeD [OF assms] by blast
  then show ?thesis
  proof cases
    case 1
    have "ucast (ucast (and v 0xff) :: byte) = and v 0xff"
    proof (rule bit_word_eqI)
      fix i assume "i < LENGTH(32)"
      then show "bit (ucast (ucast (and v 0xff) :: byte) :: u32) i = bit (and v 0xff) i"
        using byte_of_mask_low [of 0 v i, where ?'a = 32] by (auto simp: bit_and_iff mask_bits)
    qed
    then show ?thesis using 1 assms by (auto simp: write_int_def int_of_bytes_def narrow_def)
  next
    case 2
    have "ucast (or (push_bit 8 (ucast (ucast (and (drop_bit 8 v) 0xff) :: byte)))
        (ucast (ucast (and v 0xff) :: byte)) :: u16) = and v 0xffff"
    proof (rule bit_word_eqI)
      fix i assume i: "i < LENGTH(32)"
      then show "bit (ucast (or (push_bit 8 (ucast (ucast (and (drop_bit 8 v) 0xff) :: byte)))
          (ucast (ucast (and v 0xff) :: byte)) :: u16) :: u32) i = bit (and v 0xffff) i"
        using i byte_of_mask_low [of 0 v i, where ?'a = 16] byte_of_mask [of 8 8 v i, where ?'a = 16]
        by (auto simp: bit_unsigned_iff bit_or_iff bit_and_iff mask_bits)
    qed
    then show ?thesis using 2 assms by (auto simp: write_int_def int_of_bytes_def narrow_def)
  next
    case 3
    then show ?thesis
      using assms size_of_packet_header [of v]
      by (auto simp: write_int_def int_of_bytes_def narrow_def packet_header_def)
  qed
qed

lemma narrow_back:
  "ucast (narrow 1 (ucast (x :: byte))) = x" "ucast (narrow 2 (ucast (y :: u16))) = y" "narrow 4 v = v"
proof -
  show "ucast (narrow 1 (ucast (x :: byte))) = x"
    by (rule bit_word_eqI) (auto simp: narrow_def bit_unsigned_iff bit_and_iff mask_bits)
  show "ucast (narrow 2 (ucast (y :: u16))) = y"
    by (rule bit_word_eqI) (auto simp: narrow_def bit_unsigned_iff bit_and_iff mask_bits)
  show "narrow 4 v = v" by (simp add: narrow_def)
qed

text \<open>What a reader with the same format receives, if the format and the sizes can be read back.\<close>

definition received_spec :: "u32 \<Rightarrow> char \<Rightarrow> fmt_arg list \<Rightarrow> fmt_arg list option" where
  "received_spec len c args =
     (if c = CHR ''S'' \<or> c = CHR ''%'' then None
      else case args of
        FA_Int v # _ \<Rightarrow> Some [FA_Int (narrow len v)]
      | FA_Vec1 vs # _ \<Rightarrow> if length vs \<le> unat PROTOCOL_MAX_LIST_LENGTH then Some [FA_Vec1 vs] else None
      | FA_Vec2 vs # _ \<Rightarrow> if length vs \<le> unat PROTOCOL_MAX_LIST_LENGTH then Some [FA_Vec2 vs] else None
      | FA_Vec4 vs # _ \<Rightarrow> if length vs \<le> unat PROTOCOL_MAX_LIST_LENGTH then Some [FA_Vec4 vs] else None
      | FA_Str b # _ \<Rightarrow> if length b < 2 ^ 32 then Some [FA_Str b] else None
      | _ \<Rightarrow> None)"

function received :: "string \<Rightarrow> fmt_arg list \<Rightarrow> fmt_arg list option" where
  "received [] args = Some []"
| "received (c # fmt) args =
     (if c = CHR ''%'' then
        (case eat_length 0 fmt of
           (len, []) \<Rightarrow> None
         | (len, s # rest) \<Rightarrow>
             (case (received_spec len s args, write_spec len s args) of
                (Some got, Some (_, args')) \<Rightarrow> map_option (\<lambda>more_args. got @ more_args) (received rest args')
              | _ \<Rightarrow> None))
      else received fmt args)"
  by pat_completeness auto
termination
  by (relation "measure (\<lambda>(fmt, args). length fmt)") (auto dest: eat_length_shorter)

context byte_source
begin

lemma read_vector_holds:
  assumes w: "write_vector_int n vs = Some b" and h: "holds s (b @ r)"
    and small: "length vs \<le> unat PROTOCOL_MAX_LIST_LENGTH"
  shows "\<exists>s'. read_vector rd (unat n) s = (Inr (map (narrow n) vs), s') \<and> holds s' r"
proof -
  let ?k = "word_of_nat (length vs) :: u32" and ?as = "map (\<lambda>v. the (write_int v n)) vs"
  have n: "n = 1 \<or> n = 2 \<or> n = 4" and b: "b = the (write_int ?k 4) @ concat ?as"
    using w by (auto simp: write_vector_int_def split: if_splits)
  have k: "unat ?k = length vs"
    using small by (intro unat_of_nat_u32) (simp add: PROTOCOL_MAX_LIST_LENGTH_def)
  have "write_int ?k 4 = Some (the (write_int ?k 4))" using write_int_4 [of ?k] by auto
  then have "int_of_bytes (the (write_int ?k 4)) = ?k" using int_of_written narrow_back(3) by metis
  then obtain s1 where s1: "read_int rd 4 s = (Inr ?k, s1)" "holds s1 (concat ?as @ r)"
    using read_int_holds [of s "the (write_int ?k 4)" "concat ?as @ r"] h b by auto
  have "\<not> ?k > PROTOCOL_MAX_LIST_LENGTH" using k small by (simp add: word_less_nat_alt)
  then have size: "read_vector_size rd s = (Inr ?k, s1)" using s1(1) by (simp add: read_vector_size_def)
  have each: "write_int v n = Some (the (write_int v n))" for v using write_int_length [OF n, of v] by auto
  have "map int_of_bytes ?as = map (narrow n) vs" using int_of_written [OF each] by simp
  moreover have "\<forall>a \<in> set ?as. length a = unat n" using write_int_SomeD [OF each] by auto
  moreover have "unat n < 2 ^ 32" using n by auto
  ultimately obtain s2 where "read_ints rd (unat n) (length vs) s1 = (Inr (map (narrow n) vs), s2)" "holds s2 r"
    using read_ints_holds [OF s1(2), of "unat n"] by auto
  then show ?thesis using size k by (simp add: read_vector_def)
qed

lemma read_string_holds:
  assumes h: "holds s (write_string b @ r)" and "length b < 2 ^ 32"
  shows "\<exists>s'. read_string rd 0 s = (Inr b, s') \<and> holds s' r"
proof -
  let ?k = "word_of_nat (length b) :: u32"
  have k: "unat ?k = length b" using assms(2) by (rule unat_of_nat_u32)
  have "write_int ?k 4 = Some (the (write_int ?k 4))" using write_int_4 [of ?k] by auto
  then have "int_of_bytes (the (write_int ?k 4)) = ?k" using int_of_written narrow_back(3) by metis
  then obtain s1 where "read_int rd 4 s = (Inr ?k, s1)" "holds s1 (b @ r)"
    using read_int_holds [of s "the (write_int ?k 4)" "b @ r"] h by (auto simp: write_string_def)
  then show ?thesis
    using read_exact_holds [of s1 b r] assms(2) k by (auto simp: read_string_def)
qed

lemma read_spec_holds:
  assumes "write_spec len c args = Some (b, rest)" and "received_spec len c args = Some got"
    and "holds s (b @ r)"
  shows "\<exists>s'. read_spec rd len c s = (Inr got, s') \<and> holds s' r"
  using assms(1)
proof (cases rule: write_spec_cases)
  case (int v)
  then have "len = 1 \<or> len = 2 \<or> len = 4" "length b = unat len" "int_of_bytes b = narrow len v"
    using write_int_SomeD int_of_written by blast+
  moreover from this have "length b < 2 ^ 32" by auto
  ultimately show ?thesis
    using int assms(2,3) read_int_holds [of s b r] by (auto simp: read_spec_def received_spec_def map_result_def)
next
  case (vec1 vs)
  then show ?thesis using assms(2,3) read_vector_holds [OF vec1(4), of s r]
    by (auto simp: read_spec_def received_spec_def map_result_def narrow_back o_def split: if_splits)
next
  case (vec2 vs)
  then show ?thesis using assms(2,3) read_vector_holds [OF vec2(4), of s r]
    by (auto simp: read_spec_def received_spec_def map_result_def narrow_back o_def split: if_splits)
next
  case (vec4 vs)
  then show ?thesis using assms(2,3) read_vector_holds [OF vec4(4), of s r]
    by (auto simp: read_spec_def received_spec_def map_result_def narrow_back map_idI split: if_splits)
next
  case (str x)
  then show ?thesis using assms(2,3) read_string_holds [of s x r]
    by (auto simp: read_spec_def received_spec_def map_result_def PROTOCOL_MAX_STRING_LENGTH_def split: if_splits)
qed (use assms(2) in \<open>simp_all add: received_spec_def\<close>)

lemma vreadf_holds:
  "writef_buffer fmt args = Some b \<Longrightarrow> received fmt args = Some got \<Longrightarrow> holds s (b @ r) \<Longrightarrow>
   \<exists>s'. vreadf rd fmt s = ((got, None), s') \<and> holds s' r"
proof (induction fmt args arbitrary: b got s rule: writef_buffer.induct)
  case (2 c fmt args)
  show ?case
  proof (cases "c = CHR ''%''")
    case True
    obtain len rest0 where e: "eat_length 0 fmt = (len, rest0)" by fastforce
    with True "2.prems"(1) obtain sp rest where sp: "rest0 = sp # rest" by (cases rest0) auto
    obtain b1 args1 b2 where w: "write_spec len sp args = Some (b1, args1)" "writef_buffer rest args1 = Some b2"
        "b = b1 @ b2"
      using "2.prems"(1) True e sp by (auto split: option.splits)
    obtain got1 got2 where g: "received_spec len sp args = Some got1" "received rest args1 = Some got2"
        "got = got1 @ got2"
      using "2.prems"(2) True e sp w(1) by (auto split: option.splits)
    obtain s1 where s1: "read_spec rd len sp s = (Inr got1, s1)" "holds s1 (b2 @ r)"
      using read_spec_holds [OF w(1) g(1), of s "b2 @ r"] "2.prems"(3) w(3) by auto
    obtain s2 where "vreadf rd rest s1 = ((got2, None), s2)" "holds s2 r"
      using "2.IH"(1) [OF True e [symmetric] sp w(1) refl w(2) g(2) s1(2)] by blast
    then show ?thesis using True e sp s1(1) g(3) by simp
  next
    case False
    then obtain b2 where b: "writef_buffer fmt args = Some b2" "b = of_char c # b2"
      using "2.prems"(1) by auto
    then obtain s1 where s1: "read_exact rd 1 s = (Inr [of_char c], s1)" "holds s1 (b2 @ r)"
      using literal_holds [of s c "b2 @ r"] "2.prems"(3) by auto
    then show ?thesis
      using "2.IH"(2) [OF False b(1) _ s1(2)] "2.prems"(2) False by auto
  qed
qed simp

end

section \<open>Over the packet filter\<close>

definition filter_holds ::
  "bytes list \<Rightarrow> bytes \<Rightarrow> stream_buffer \<Rightarrow> packet_filter \<Rightarrow> bytes \<Rightarrow> bool" where
  "filter_holds qs w inp f q \<longleftrightarrow>
     sk_input (pf_stream f) = inp \<and>
     (if q = [] then pending False f qs w else pending False f (q # qs) w \<and> is_ready_no_lock f)"

lemma filter_read_ready:
  assumes p: "pending False f qs w" and ready: "is_ready_no_lock f" and r: "filter_read n f = (d, f')"
    and n: "n < pf_size f"
  shows "is_ready_no_lock f'"
proof (cases "n = 0")
  case False
  let ?b = "buffer_pop n (snd (buffer_peek n (pf_buffer f)))"
  let ?f = "f\<lparr>pf_buffer := ?b, pf_size := pf_size f - n\<rparr>"
  have ok: "buffer_ok (pf_buffer f)" and le: "n \<le> sb_size (pf_buffer f)"
    using p ready n by (auto simp: pending_def Let_def is_ready_no_lock_def)
  have size: "unat (pf_size f - n) = unat (pf_size f) - unat n" "unat n < unat (pf_size f)"
    using n by (simp_all add: unat_sub word_le_nat_alt word_less_nat_alt)
  have "pf_size f - n \<noteq> 0" using n by auto
  then have "read_packet_size ?f = (True, ?f)" by (simp add: read_packet_size_def)
  then have "f' = ?f" using False ready n r by (auto simp: filter_read_def Let_def)
  moreover have "unat (sb_size ?b) = unat (sb_size (pf_buffer f)) - unat n"
    using buffer.take_out [OF ok le] buffer.size_law [OF ok] buffer.size_law [of ?b] by simp
  then have "pf_size f - n \<le> sb_size ?b"
    using size ready by (simp add: word_le_nat_alt is_ready_no_lock_def diff_le_mono)
  ultimately show ?thesis using \<open>pf_size f - n \<noteq> 0\<close> by (simp add: is_ready_no_lock_def)
qed (use r ready in \<open>simp add: filter_read_def\<close>)

interpretation packet_source: byte_source filter_read "filter_holds qs w inp" for qs w inp
proof
  fix f x q n d f'
  assume h: "filter_holds qs w inp f (x # q)" and n: "n \<noteq> 0" and r: "filter_read n f = (d, f')"
  let ?q = "x # q"
  have p: "pending False f (?q # qs) w" and ready: "is_ready_no_lock f"
    using h by (simp_all add: filter_holds_def)
  then have d: "d \<noteq> []" "d = take (unat n) ?q"
      "pending False f' (if unat n < length ?q then drop (unat n) ?q # qs else qs) w"
    using filter_read_pending [OF p r] n by auto
  have "pf_size f \<noteq> 0" using ready by (simp add: is_ready_no_lock_def)
  then have size: "length ?q = unat (pf_size f)" using p by (auto simp: pending_def Let_def)
  have "is_ready_no_lock f'" if "unat n < length ?q"
    using filter_read_ready [OF p ready r] that size by (simp add: word_less_nat_alt)
  moreover have "sk_input (pf_stream f') = inp"
    using h filter_read_input [of n f] r by (simp add: filter_holds_def)
  ultimately have "filter_holds qs w inp f' (drop (unat n) ?q)"
    using d(3) by (auto simp: filter_holds_def split: if_splits)
  then show "d \<noteq> [] \<and> length d \<le> unat n \<and> (\<exists>r. ?q = d @ r \<and> filter_holds qs w inp f' r)"
    using d(1,2) by (metis append_take_drop_id length_take min.cobounded2)
qed

lemma pending_ready:
  assumes "pending False f (q # qs) []" and "buffer_content (sk_input (pf_stream f)) = []"
  shows "is_ready_no_lock f"
proof -
  have ok: "buffer_ok (pf_buffer f)" using assms by (auto simp: pending_def Let_def)
  have "pf_size f \<noteq> 0"
    using assms arg_cong [of _ _ length] by (fastforce simp: pending_def Let_def)
  moreover from this have "buffer_content (pf_buffer f) = q @ wire qs" "length q = unat (pf_size f)"
    using assms by (auto simp: pending_def Let_def)
  ultimately show ?thesis
    using buffer.size_le [OF ok, of "pf_size f"] by (simp add: is_ready_no_lock_def)
qed

lemma writef_packet:
  assumes "writef fmt args = Some msg" and "packet_ok msg"
  shows "\<exists>buf. writef_buffer fmt args = Some buf \<and> (length buf < 2 ^ 32 \<longrightarrow> msg = buf)"
proof -
  obtain n buf where n: "get_length fmt args = Some n" "writef_buffer fmt args = Some buf"
      "msg = take (unat n) buf"
    using assms by (auto simp: writef_def packet_ok_def split: option.splits if_splits)
  have "length buf < 2 ^ 32 \<longrightarrow> unat n = length buf"
    using two_passes_agree [OF n(1,2)] by (auto simp: unat_of_nat_u32)
  then show ?thesis using n(2,3) by auto
qed

lemma readf_message:
  assumes buf: "writef_buffer fmt args = Some msg" and got: "received fmt args = Some got"
    and p: "pending False f (msg # qs) []" and drained: "buffer_content (sk_input (pf_stream f)) = []"
  shows "\<exists>f'. readf filter_read fmt f = ((got, RF_Return True), f') \<and> pending False f' qs [] \<and>
    buffer_content (sk_input (pf_stream f')) = []"
proof -
  have "msg \<noteq> []" using p by (auto simp: pending_def Let_def packet_ok_def)
  then have "filter_holds qs [] (sk_input (pf_stream f)) f (msg @ [])"
    using p pending_ready [OF p drained] by (simp add: filter_holds_def)
  from packet_source.vreadf_holds [OF buf got this] show ?thesis
    using drained by (auto simp: readf_def filter_holds_def)
qed

text \<open>A receiver that reads one message after the other.\<close>

fun receive_all :: "string list \<Rightarrow> packet_filter \<Rightarrow> (fmt_arg list \<times> readf_result) list \<times> packet_filter" where
  "receive_all [] f = ([], f)"
| "receive_all (fmt # fmts) f =
     (case readf filter_read fmt f of (r, f1) \<Rightarrow> case receive_all fmts f1 of (rs, f2) \<Rightarrow> (r # rs, f2))"

lemma receive_all_messages:
  "list_all2 (\<lambda>(fmt, args) (msg, got). writef_buffer fmt args = Some msg \<and> received fmt args = Some got) ms ps \<Longrightarrow>
   pending False f (map fst ps) [] \<Longrightarrow> buffer_content (sk_input (pf_stream f)) = [] \<Longrightarrow>
   fst (receive_all (map fst ms) f) = map (\<lambda>(msg, got). (got, RF_Return True)) ps"
proof (induction arbitrary: f rule: list_all2_induct)
  case (Cons m ms p ps)
  obtain fmt args msg got where mp: "m = (fmt, args)" "p = (msg, got)" by (cases m; cases p) auto
  obtain f' where "readf filter_read fmt f = ((got, RF_Return True), f')" "pending False f' (map fst ps) []"
      "buffer_content (sk_input (pf_stream f')) = []"
    using readf_message [of fmt args msg got f "map fst ps"] Cons.hyps(1) Cons.prems mp by auto
  then show ?case using Cons.IH [of f'] mp by (auto split: prod.splits)
qed simp

text \<open>The sender's side: a written packet is appended to the output of a writable socket.\<close>

lemma socket_write_output:
  assumes "sk_writable k" and "buffer_ok (sk_output k)" and "buffer_held (sk_output k) + length d < 2 ^ 32"
  shows "sk_writable (socket_write d k) \<and> buffer_ok (sk_output (socket_write d k)) \<and>
    buffer_content (sk_output (socket_write d k)) = buffer_content (sk_output k) @ d \<and>
    buffer_held (sk_output (socket_write d k)) = buffer_held (sk_output k) + length d"
  using buffer.put_law [OF assms(2,3)] assms
  by (cases "d = []") (auto simp: socket_write_def Let_def set_new_job_def)

lemma filter_write_output:
  assumes "sk_writable (pf_stream f)" and "buffer_ok (sk_output (pf_stream f))"
    and "buffer_held (sk_output (pf_stream f)) + length (packet d) < 2 ^ 32"
  shows "sk_writable (pf_stream (filter_write d f)) \<and> buffer_ok (sk_output (pf_stream (filter_write d f))) \<and>
    buffer_content (sk_output (pf_stream (filter_write d f))) =
      buffer_content (sk_output (pf_stream f)) @ packet d \<and>
    buffer_held (sk_output (pf_stream (filter_write d f))) =
      buffer_held (sk_output (pf_stream f)) + length (packet d)"
proof -
  let ?h = "packet_header (word_of_nat (length d))"
  have len: "length ?h = 4" by (simp add: packet_header_def)
  note h = socket_write_output [OF assms(1,2), of ?h]
  note b = socket_write_output [of "socket_write ?h (pf_stream f)" d]
  show ?thesis using h b assms(3) len by (simp add: filter_write_def packet_def)
qed

lemma filter_writes_output:
  "sk_writable (pf_stream f) \<Longrightarrow> buffer_ok (sk_output (pf_stream f)) \<Longrightarrow>
   buffer_held (sk_output (pf_stream f)) + length (wire ps) < 2 ^ 32 \<Longrightarrow>
   buffer_content (sk_output (pf_stream (fold filter_write ps f))) =
     buffer_content (sk_output (pf_stream f)) @ wire ps"
proof (induction ps arbitrary: f)
  case (Cons p ps)
  have "buffer_held (sk_output (pf_stream f)) + length (packet p) < 2 ^ 32" using Cons.prems(3) by simp
  from filter_write_output [OF Cons.prems(1,2) this] show ?case
    using Cons.IH [of "filter_write p f"] Cons.prems(3) by simp
qed simp

section \<open>The messages of the protocol\<close>

definition kMsgHello :: string where
  "kMsgHello = ''%7s%2i%2i''"

definition kMsgHelloArgs :: string where
  "kMsgHelloArgs = ''%2i%2i''"

definition kMsgHelloBack :: string where
  "kMsgHelloBack = ''%7s%2i%2i%s''"

definition kMsgHelloBackArgs :: string where
  "kMsgHelloBackArgs = ''%2i%2i%s''"

definition kMsgCNoop :: string where
  "kMsgCNoop = ''CNOP''"

definition kMsgCClose :: string where
  "kMsgCClose = ''CBYE''"

definition kMsgCEnter :: string where
  "kMsgCEnter = ''CINN%2i%2i%4i%2i''"

definition kMsgCLeave :: string where
  "kMsgCLeave = ''COUT''"

definition kMsgCClipboard :: string where
  "kMsgCClipboard = ''CCLP%1i%4i''"

definition kMsgCScreenSaver :: string where
  "kMsgCScreenSaver = ''CSEC%1i''"

definition kMsgCResetOptions :: string where
  "kMsgCResetOptions = ''CROP''"

definition kMsgCInfoAck :: string where
  "kMsgCInfoAck = ''CIAK''"

definition kMsgCKeepAlive :: string where
  "kMsgCKeepAlive = ''CALV''"

definition kMsgDKeyDownLang :: string where
  "kMsgDKeyDownLang = ''DKDL%2i%2i%2i%s''"

definition kMsgDKeyDown :: string where
  "kMsgDKeyDown = ''DKDN%2i%2i%2i''"

definition kMsgDKeyDown1_0 :: string where
  "kMsgDKeyDown1_0 = ''DKDN%2i%2i''"

definition kMsgDKeyRepeat :: string where
  "kMsgDKeyRepeat = ''DKRP%2i%2i%2i%2i%s''"

definition kMsgDKeyRepeat1_0 :: string where
  "kMsgDKeyRepeat1_0 = ''DKRP%2i%2i%2i''"

definition kMsgDKeyUp :: string where
  "kMsgDKeyUp = ''DKUP%2i%2i%2i''"

definition kMsgDKeyUp1_0 :: string where
  "kMsgDKeyUp1_0 = ''DKUP%2i%2i''"

definition kMsgDMouseDown :: string where
  "kMsgDMouseDown = ''DMDN%1i''"

definition kMsgDMouseUp :: string where
  "kMsgDMouseUp = ''DMUP%1i''"

definition kMsgDMouseMove :: string where
  "kMsgDMouseMove = ''DMMV%2i%2i''"

definition kMsgDMouseRelMove :: string where
  "kMsgDMouseRelMove = ''DMRM%2i%2i''"

definition kMsgDMouseWheel :: string where
  "kMsgDMouseWheel = ''DMWM%2i%2i''"

definition kMsgDMouseWheel1_0 :: string where
  "kMsgDMouseWheel1_0 = ''DMWM%2i''"

definition kMsgDClipboard :: string where
  "kMsgDClipboard = ''DCLP%1i%4i%1i%s''"

definition kMsgDInfo :: string where
  "kMsgDInfo = ''DINF%2i%2i%2i%2i%2i%2i%2i''"

definition kMsgDSetOptions :: string where
  "kMsgDSetOptions = ''DSOP%4I''"

definition kMsgDFileTransfer :: string where
  "kMsgDFileTransfer = ''DFTR%1i%s''"

definition kMsgDDragInfo :: string where
  "kMsgDDragInfo = ''DDRG%2i%s''"

definition kMsgDSecureInputNotification :: string where
  "kMsgDSecureInputNotification = ''SECN%s''"

definition kMsgDLanguageSynchronisation :: string where
  "kMsgDLanguageSynchronisation = ''LSYN%s''"

definition kMsgQInfo :: string where
  "kMsgQInfo = ''QINF''"

definition kMsgEIncompatible :: string where
  "kMsgEIncompatible = ''EICV%2i%2i''"

definition kMsgEBusy :: string where
  "kMsgEBusy = ''EBSY''"

definition kMsgEUnknown :: string where
  "kMsgEUnknown = ''EUNK''"

definition kMsgEBad :: string where
  "kMsgEBad = ''EBAD''"

definition protocol_formats :: "string list" where
  "protocol_formats =
    [kMsgHelloArgs, kMsgHelloBackArgs, kMsgCNoop, kMsgCClose, kMsgCEnter, kMsgCLeave,
     kMsgCClipboard, kMsgCScreenSaver, kMsgCResetOptions, kMsgCInfoAck, kMsgCKeepAlive,
     kMsgDKeyDownLang, kMsgDKeyDown, kMsgDKeyDown1_0, kMsgDKeyRepeat, kMsgDKeyRepeat1_0,
     kMsgDKeyUp, kMsgDKeyUp1_0, kMsgDMouseDown, kMsgDMouseUp, kMsgDMouseMove,
     kMsgDMouseRelMove, kMsgDMouseWheel, kMsgDMouseWheel1_0, kMsgDClipboard, kMsgDInfo,
     kMsgDSetOptions, kMsgDFileTransfer, kMsgDDragInfo, kMsgDSecureInputNotification,
     kMsgDLanguageSynchronisation, kMsgQInfo, kMsgEIncompatible, kMsgEBusy, kMsgEUnknown,
     kMsgEBad]"

lemmas protocol_format_defs =
  kMsgHello_def kMsgHelloArgs_def kMsgHelloBack_def kMsgHelloBackArgs_def kMsgCNoop_def
  kMsgCClose_def kMsgCEnter_def kMsgCLeave_def kMsgCClipboard_def kMsgCScreenSaver_def
  kMsgCResetOptions_def kMsgCInfoAck_def kMsgCKeepAlive_def kMsgDKeyDownLang_def kMsgDKeyDown_def
  kMsgDKeyDown1_0_def kMsgDKeyRepeat_def kMsgDKeyRepeat1_0_def kMsgDKeyUp_def kMsgDKeyUp1_0_def
  kMsgDMouseDown_def kMsgDMouseUp_def kMsgDMouseMove_def kMsgDMouseRelMove_def kMsgDMouseWheel_def
  kMsgDMouseWheel1_0_def kMsgDClipboard_def kMsgDInfo_def kMsgDSetOptions_def
  kMsgDFileTransfer_def kMsgDDragInfo_def kMsgDSecureInputNotification_def
  kMsgDLanguageSynchronisation_def kMsgQInfo_def kMsgEIncompatible_def kMsgEBusy_def
  kMsgEUnknown_def kMsgEBad_def

text \<open>What a format takes from its arguments.\<close>

datatype arg_kind = AK_Int u32 | AK_Vec4 | AK_Str

function kinds_of :: "string \<Rightarrow> arg_kind list option" where
  "kinds_of [] = Some []"
| "kinds_of (c # fmt) =
     (if c = CHR ''%'' then
        (case eat_length 0 fmt of
           (len, []) \<Rightarrow> None
         | (len, s # rest) \<Rightarrow>
             if s = CHR ''i'' \<and> (len = 1 \<or> len = 2 \<or> len = 4) then map_option (Cons (AK_Int len)) (kinds_of rest)
             else if s = CHR ''I'' \<and> len = 4 then map_option (Cons AK_Vec4) (kinds_of rest)
             else if s = CHR ''s'' \<and> len = 0 then map_option (Cons AK_Str) (kinds_of rest)
             else None)
      else kinds_of fmt)"
  by pat_completeness auto
termination
  by (relation "measure length") (auto dest: eat_length_shorter)

fun kind_matches :: "arg_kind \<Rightarrow> fmt_arg \<Rightarrow> bool" where
  "kind_matches (AK_Int n) (FA_Int v) = True"
| "kind_matches AK_Vec4 (FA_Vec4 vs) = (length vs \<le> unat PROTOCOL_MAX_LIST_LENGTH)"
| "kind_matches AK_Str (FA_Str b) = (length b < 2 ^ 32)"
| "kind_matches _ _ = False"

fun kind_received :: "arg_kind \<Rightarrow> fmt_arg \<Rightarrow> fmt_arg" where
  "kind_received (AK_Int n) (FA_Int v) = FA_Int (narrow n v)"
| "kind_received _ a = a"

lemma kind_spec:
  assumes "kind_matches k a"
    and "(k = AK_Int len \<and> c = CHR ''i'' \<and> (len = 1 \<or> len = 2 \<or> len = 4)) \<or>
      (k = AK_Vec4 \<and> c = CHR ''I'' \<and> len = 4) \<or> (k = AK_Str \<and> c = CHR ''s'' \<and> len = 0)"
  shows "\<exists>b. write_spec len c (a # args) = Some (b, args) \<and>
    received_spec len c (a # args) = Some [kind_received k a] \<and>
    length_spec len c (a # args) = Some (word_of_nat (length b), args)"
proof (cases k)
  case (AK_Int n)
  then obtain v where "a = FA_Int v" using assms(1) by (cases a) auto
  moreover obtain b where "write_int v len = Some b" "length b = unat len"
    using write_int_length [of len v] assms(2) AK_Int by auto
  ultimately show ?thesis
    using assms(2) AK_Int by (auto simp: write_spec_def received_spec_def length_spec_def)
next
  case AK_Vec4
  then obtain vs where vs: "a = FA_Vec4 vs" "length vs \<le> unat PROTOCOL_MAX_LIST_LENGTH"
    using assms(1) by (cases a) auto
  obtain b where "write_vector_int 4 vs = Some b" "length b = 4 + 4 * length vs"
    using write_vector_length [of 4 vs] by auto
  then show ?thesis
    using assms(2) AK_Vec4 vs by (auto simp: write_spec_def received_spec_def length_spec_def)
next
  case AK_Str
  then obtain x where "a = FA_Str x" "length x < 2 ^ 32" using assms(1) by (cases a) auto
  then show ?thesis
    using assms(2) AK_Str by (auto simp: write_spec_def received_spec_def length_spec_def write_string_def)
qed

lemma kinds_of_sound:
  "kinds_of fmt = Some ks \<Longrightarrow> list_all2 kind_matches ks args \<Longrightarrow>
   \<exists>msg. writef_buffer fmt args = Some msg \<and> received fmt args = Some (map2 kind_received ks args) \<and>
     get_length fmt args = Some (word_of_nat (length msg))"
proof (induction fmt arbitrary: ks args rule: kinds_of.induct)
  case (2 c fmt)
  show ?case
  proof (cases "c = CHR ''%''")
    case True
    obtain len rest0 where e: "eat_length 0 fmt = (len, rest0)" by fastforce
    with True "2.prems"(1) obtain sp rest where sp: "rest0 = sp # rest" by (cases rest0) auto
    obtain k ks1 where k: "ks = k # ks1" "kinds_of rest = Some ks1"
        "(k = AK_Int len \<and> sp = CHR ''i'' \<and> (len = 1 \<or> len = 2 \<or> len = 4)) \<or>
         (k = AK_Vec4 \<and> sp = CHR ''I'' \<and> len = 4) \<or> (k = AK_Str \<and> sp = CHR ''s'' \<and> len = 0)"
      using "2.prems"(1) True e sp by (auto split: if_splits)
    then obtain a args1 where a: "args = a # args1" "kind_matches k a" "list_all2 kind_matches ks1 args1"
      using "2.prems"(2) by (cases args) auto
    obtain b where b: "write_spec len sp (a # args1) = Some (b, args1)"
        "received_spec len sp (a # args1) = Some [kind_received k a]"
        "length_spec len sp (a # args1) = Some (word_of_nat (length b), args1)"
      using kind_spec [OF a(2) k(3)] by blast
    have "\<exists>msg. writef_buffer rest args1 = Some msg \<and> received rest args1 = Some (map2 kind_received ks1 args1) \<and>
        get_length rest args1 = Some (word_of_nat (length msg))"
      using k(3) "2.IH"(1,2,3) [OF True e [symmetric] sp] k(2) a(3) by auto
    then show ?thesis using True e sp a(1) k(1) b by auto
  next
    case False
    then show ?thesis using 2 by fastforce
  qed
qed simp

lemma writef_exact:
  assumes "writef_buffer fmt args = Some msg" and "get_length fmt args = Some (word_of_nat (length msg))"
    and "length msg < 2 ^ 32"
  shows "writef fmt args = Some msg"
  using assms unat_of_nat_u32 [OF assms(3)]
  by (cases "word_of_nat (length msg) = (0 :: u32)") (auto simp: writef_def)

section \<open>Two limits of the code\<close>

text \<open>\<open>readf\<close> does not consume the literal percent sign that \<open>writef\<close> sends for \<open>%%\<close>.\<close>

lemma percent_not_read:
  "writef ''%%'' [] = Some [0x25] \<and> readf rd ''%%'' s = (([], RF_Return True), s)"
  by (simp add: writef_def digit_value_def write_spec_def length_spec_def readf_def read_spec_def)

text \<open>
  \<open>PROTOCOL_MAX_STRING_LENGTH\<close> is compared with the length in the format, not with the length in the
  stream: a string beyond the limit is accepted.
\<close>

lemma string_limit_not_enforced:
  assumes "length b > unat PROTOCOL_MAX_STRING_LENGTH" and "length b < 2 ^ 32"
    and "pending False f (write_string b # qs) []" and "buffer_content (sk_input (pf_stream f)) = []"
  shows "\<exists>f'. readf filter_read ''%s'' f = (([FA_Str b], RF_Return True), f')"
  using readf_message [of "''%s''" "[FA_Str b]" "write_string b" "[FA_Str b]" f qs] assms
  by (auto simp: digit_value_def write_spec_def received_spec_def)

section \<open>Properties\<close>

definition message_ok :: "string \<times> fmt_arg list \<Rightarrow> bytes \<times> fmt_arg list \<Rightarrow> bool" where
  "message_ok m p \<longleftrightarrow>
     (case (m, p) of ((fmt, args), (msg, got)) \<Rightarrow>
        writef fmt args = Some msg \<and> received fmt args = Some got \<and> packet_ok msg \<and>
        (case writef_buffer fmt args of None \<Rightarrow> True | Some b \<Rightarrow> length b < 2 ^ 32))"

lemma message_ok_buffer:
  "message_ok (fmt, args) (msg, got) \<Longrightarrow> writef_buffer fmt args = Some msg \<and> received fmt args = Some got \<and> packet_ok msg"
  using writef_packet [of fmt args msg] by (auto simp: message_ok_def)

text \<open>C12. Messages arrive as they were written: the packets of a list of formatted messages stand in the
  sender's output one after the other, and when their bytes have arrived at the receiver, in
  whatever pieces, reading message after message with the same formats succeeds each time and
  yields the arguments, an integer narrowed to the bytes its format sends.\<close>

theorem messages_arrive:
  assumes ms: "list_all2 message_ok ms ps" and size: "length (wire (map fst ps)) < 2 ^ 32"
    and calm: "list_all undisturbed cs"
    and run: "packet_run cs (new_packet_filter accepted_tcp_socket) = (wire (map fst ps), [], f)"
  shows "buffer_content (sk_output (pf_stream (fold filter_write (map fst ps)
      (new_packet_filter accepted_tcp_socket)))) = wire (map fst ps) \<and>
    fst (receive_all (map fst ms) (filter_event EV_StreamInputReady f)) =
      map (\<lambda>(msg, got). (got, RF_Return True)) ps"
proof
  show "buffer_content (sk_output (pf_stream (fold filter_write (map fst ps)
      (new_packet_filter accepted_tcp_socket)))) = wire (map fst ps)"
    using filter_writes_output [of "new_packet_filter accepted_tcp_socket" "map fst ps"] size
    by (simp add: new_packet_filter_def accepted_tcp_socket_def new_tcp_socket_def set_new_job_def on_connected_def)
next
  have "list_all packet_ok (map fst ps)"
    using ms by (induction rule: list_all2_induct) (auto simp: message_ok_def split: prod.splits)
  then have "pending False f (map fst ps) []"
    using packet_run_pending [OF _ calm run, of "map fst ps" "[]"] accepted_pending [OF _ size] by simp
  then have "pending False (filter_event EV_StreamInputReady f) (map fst ps) []"
      "buffer_content (sk_input (pf_stream (filter_event EV_StreamInputReady f))) = []"
    using filter_event_pending filter_event_drains by blast+
  moreover have "list_all2 (\<lambda>(fmt, args) (msg, got). writef_buffer fmt args = Some msg \<and>
      received fmt args = Some got) ms ps"
    using ms by (rule list_all2_mono) (use message_ok_buffer in \<open>auto split: prod.splits\<close>)
  ultimately show "fst (receive_all (map fst ms) (filter_event EV_StreamInputReady f)) =
      map (\<lambda>(msg, got). (got, RF_Return True)) ps"
    using receive_all_messages by blast
qed

theorem messages_arrive_witness:
  "\<exists>f. fst (receive_all [''%1i%1i''] (filter_event EV_StreamInputReady f)) =
    [([FA_Int 7, FA_Int 8], RF_Return True)]"
proof -
  let ?answers = "\<lambda>i. if i = 0 then RA_Bytes [0, 0, 0, 2, 7, 8] else RA_Bytes []"
  let ?ms = "[(''%1i%1i'', [FA_Int 7, FA_Int 8])]" and ?ps = "[([7, 8] :: bytes, [FA_Int 7, FA_Int 8])]"
  have ok: "list_all2 message_ok ?ms ?ps"
    by (simp add: message_ok_def writef_def digit_value_def write_spec_def length_spec_def write_int_def
        received_spec_def narrow_def packet_ok_def PROTOCOL_MAX_MESSAGE_LENGTH_def)
  have size: "length (wire (map fst ?ps)) < 2 ^ 32" by simp
  have calm: "list_all undisturbed [PC_Arrive ?answers]" by simp
  have "taken ?answers (pf_stream (new_packet_filter accepted_tcp_socket)) = wire [[7, 8]]"
    by (simp add: packet_eval packet_def packet_header_def)
  then have "packet_run [PC_Arrive ?answers] (new_packet_filter accepted_tcp_socket) =
      (wire (map fst ?ps), [], packet_arrive ?answers (new_packet_filter accepted_tcp_socket))"
    by simp
  from messages_arrive [OF ok size calm this] show ?thesis by auto
qed



end
