(* ===== verification/Clipboard.thy ===== *)
theory Clipboard
  imports ProtocolFormat
begin

text \<open>
  \<open>Clipboard\<close>, the marshalling of \<open>IClipboard\<close>, and the transfer of a clipboard in chunks:
  \<open>StreamChunker\<close>, \<open>ClipboardChunk\<close> and the handlers at both ends (src/lib/deskflow, client, server).
  Reading beyond the received data or storing outside the format arrays is the result \<open>None\<close>.
\<close>

section \<open>The clipboard\<close>

definition TotalFormats :: nat where
  "TotalFormats = 3"

record clipboard =
  cb_open :: bool
  cb_time :: u32
  cb_owner :: bool
  cb_time_owned :: u32
  cb_added :: "bool list"
  cb_data :: "bytes list"

definition clip_open :: "u32 \<Rightarrow> clipboard \<Rightarrow> bool \<times> clipboard" where
  "clip_open time c = (if cb_open c then (True, c) else (True, c\<lparr>cb_open := True, cb_time := time\<rparr>))"

definition clip_close :: "clipboard \<Rightarrow> clipboard" where
  "clip_close c = c\<lparr>cb_open := False\<rparr>"

definition clip_empty :: "clipboard \<Rightarrow> bool \<times> clipboard" where
  "clip_empty c =
     (if \<not> cb_open c then (False, c)
      else (True, c\<lparr>cb_data := replicate TotalFormats [], cb_added := replicate TotalFormats False,
                    cb_time_owned := cb_time c, cb_owner := True\<rparr>))"

definition clip_add :: "nat \<Rightarrow> bytes \<Rightarrow> clipboard \<Rightarrow> clipboard" where
  "clip_add format d c =
     (if \<not> cb_open c then c
      else if \<not> cb_owner c then c
      else c\<lparr>cb_data := (cb_data c)[format := d], cb_added := (cb_added c)[format := True]\<rparr>)"

definition clip_has :: "nat \<Rightarrow> clipboard \<Rightarrow> bool" where
  "clip_has format c = (if \<not> cb_open c then False else cb_added c ! format)"

definition clip_get :: "nat \<Rightarrow> clipboard \<Rightarrow> bytes" where
  "clip_get format c = (if \<not> cb_open c then [] else cb_data c ! format)"

definition new_clipboard :: clipboard where
  "new_clipboard =
     clip_close (snd (clip_empty (snd (clip_open 0
       \<lparr>cb_open = False, cb_time = 0, cb_owner = False, cb_time_owned = 0,
        cb_added = replicate TotalFormats False, cb_data = replicate TotalFormats []\<rparr>))))"

section \<open>Marshalling\<close>

definition write_u32 :: "u32 \<Rightarrow> bytes" where
  "write_u32 v =
     [ucast (and (drop_bit 24 v) 0xff), ucast (and (drop_bit 16 v) 0xff),
      ucast (and (drop_bit 8 v) 0xff), ucast (and v 0xff)]"

definition read_u32 :: "bytes \<Rightarrow> (u32 \<times> bytes) option" where
  "read_u32 index = (if length index < 4 then None else Some (size_of_header (take 4 index), drop 4 index))"

definition marshall_format :: "clipboard \<Rightarrow> nat \<Rightarrow> bytes" where
  "marshall_format c format =
     (if clip_has format c
      then write_u32 (word_of_nat format) @ write_u32 (word_of_nat (length (clip_get format c))) @ clip_get format c
      else [])"

definition marshall :: "clipboard \<Rightarrow> bytes \<times> clipboard" where
  "marshall c =
     (case clip_open 0 c of (opened, c1) \<Rightarrow>
        if opened then
          (write_u32 (word_of_nat (length (filter (\<lambda>f. clip_has f c1) [0..<TotalFormats]))) @
             concat (map (marshall_format c1) [0..<TotalFormats]), clip_close c1)
        else ([], c1))"

text \<open>
  One format of the data at a time. The identifier is converted to the enumeration, a signed
  \<open>int\<close>, before it is compared with \<open>TotalFormats\<close>.
\<close>

fun unmarshall_formats :: "nat \<Rightarrow> bytes \<Rightarrow> clipboard \<Rightarrow> clipboard option" where
  "unmarshall_formats 0 index c = Some c"
| "unmarshall_formats (Suc n) index c =
     (case read_u32 index of
        None \<Rightarrow> None
      | Some (format, index1) \<Rightarrow>
          (case read_u32 index1 of
             None \<Rightarrow> None
           | Some (size_n, index2) \<Rightarrow>
               if sint format < int TotalFormats then
                 (if length index2 < unat size_n \<or> sint format < 0 then None
                  else unmarshall_formats n (drop (unat size_n) index2)
                         (clip_add (unat format) (take (unat size_n) index2) c))
               else unmarshall_formats n (drop (unat size_n) index2) c))"

definition unmarshall :: "bytes \<Rightarrow> u32 \<Rightarrow> clipboard \<Rightarrow> clipboard option" where
  "unmarshall d time c =
     (case clip_open time c of (opened, c1) \<Rightarrow>
        if opened then
          (case read_u32 d of
             None \<Rightarrow> None
           | Some (num_formats, index) \<Rightarrow>
               map_option clip_close (unmarshall_formats (unat num_formats) index (snd (clip_empty c1))))
        else Some c1)"

definition clip_copy :: "u32 \<Rightarrow> clipboard \<Rightarrow> clipboard \<Rightarrow> bool \<times> clipboard \<times> clipboard" where
  "clip_copy time dst src =
     (case clip_open time src of (opened, src1) \<Rightarrow>
        if opened then
          (case clip_open time dst of (opened, dst1) \<Rightarrow>
             if opened then
               (case clip_empty dst1 of (emptied, dst2) \<Rightarrow>
                  (emptied,
                   clip_close (if emptied
                     then fold (\<lambda>f d. if clip_has f src1 then clip_add f (clip_get f src1) d else d)
                            [0..<TotalFormats] dst2
                     else dst2),
                   clip_close src1))
             else (False, dst1, clip_close src1))
        else (False, dst, src1))"

section \<open>Marshalling is faithful\<close>

text \<open>The content of a clipboard: what each format holds.\<close>

definition clip_content :: "clipboard \<Rightarrow> nat \<Rightarrow> bytes option" where
  "clip_content c f = (if f < TotalFormats \<and> cb_added c ! f then Some (cb_data c ! f) else None)"

definition clip_ok :: "clipboard \<Rightarrow> bool" where
  "clip_ok c \<longleftrightarrow> length (cb_added c) = TotalFormats \<and> length (cb_data c) = TotalFormats"

lemma read_write_u32 [simp]: "read_u32 (write_u32 v @ r) = Some (v, r)"
proof -
  have w: "write_u32 v = packet_header v" and "length (packet_header v) = 4"
    by (simp_all only: write_u32_def packet_header_def) simp
  then show ?thesis
    using size_of_packet_header [of v] by (simp add: read_u32_def)
qed

lemma length_write_u32 [simp]: "length (write_u32 v) = 4"
  by (simp add: write_u32_def)

lemma clip_add_content:
  assumes "cb_open c" and "cb_owner c" and "clip_ok c" and "f < TotalFormats"
  shows "cb_open (clip_add f d c) \<and> cb_owner (clip_add f d c) \<and> clip_ok (clip_add f d c) \<and>
    clip_content (clip_add f d c) = (clip_content c)(f := Some d)"
  using assms by (auto simp: clip_add_def clip_ok_def clip_content_def fun_eq_iff nth_list_update)

lemma unmarshall_marshalled:
  assumes "length (concat (map (marshall_format s) fs)) < 2 ^ 32" and "\<forall>f \<in> set fs. f < TotalFormats"
    and "cb_open s" and "cb_open c" and "cb_owner c" and "clip_ok c"
  shows "\<exists>c'. unmarshall_formats (length (filter (\<lambda>f. clip_has f s) fs)) (concat (map (marshall_format s) fs) @ r) c
      = Some c' \<and> cb_open c' \<and> cb_owner c' \<and> clip_ok c' \<and>
    clip_content c' = (\<lambda>f. if f \<in> set fs \<and> clip_has f s then Some (clip_get f s) else clip_content c f)"
  using assms
proof (induction fs arbitrary: c)
  case (Cons f fs)
  show ?case
  proof (cases "clip_has f s")
    case True
    let ?d = "clip_get f s" and ?rest = "concat (map (marshall_format s) fs) @ r"
    have f: "f < 3" using Cons.prems(2) by (simp add: TotalFormats_def)
    have len: "length ?d < 2 ^ 32" using Cons.prems(1) True by (simp add: marshall_format_def)
    then have n: "unat (word_of_nat (length ?d) :: u32) = length ?d" by (rule unat_of_nat_u32)
    have w: "unat (word_of_nat f :: u32) = f" using f by (intro unat_of_nat_u32) simp
    have "f = 0 \<or> f = 1 \<or> f = 2" using f by auto
    then have s: "sint (word_of_nat f :: u32) = int f" by auto
    note add = clip_add_content [OF Cons.prems(4-6), of f ?d]
    let ?c = "clip_add f ?d c"
    have "\<exists>c'. unmarshall_formats (length (filter (\<lambda>f. clip_has f s) fs)) ?rest ?c = Some c' \<and>
        cb_open c' \<and> cb_owner c' \<and> clip_ok c' \<and>
        clip_content c' = (\<lambda>g. if g \<in> set fs \<and> clip_has g s then Some (clip_get g s) else clip_content ?c g)"
      using Cons.prems add by (intro Cons.IH) auto
    moreover have "unmarshall_formats (Suc n) (marshall_format s f @ ?rest) c = unmarshall_formats n ?rest ?c" for n
      using True n w s f by (simp add: marshall_format_def TotalFormats_def)
    ultimately show ?thesis
      using True add Cons.prems(2) by (auto simp: fun_eq_iff)
  next
    case False
    then show ?thesis
      using Cons.IH [of c] Cons.prems by (simp add: marshall_format_def) (auto simp: fun_eq_iff)
  qed
qed (auto simp: fun_eq_iff)

lemma clip_empty_content:
  "cb_open c \<Longrightarrow> clip_ok (snd (clip_empty c)) \<and> cb_open (snd (clip_empty c)) \<and> cb_owner (snd (clip_empty c)) \<and>
   clip_content (snd (clip_empty c)) = (\<lambda>_. None)"
  by (auto simp: clip_empty_def clip_ok_def clip_content_def)

lemma clip_open_simps [simp]:
  "fst (clip_open t c)" "cb_open (snd (clip_open t c))"
  "cb_added (snd (clip_open t c)) = cb_added c" "cb_data (snd (clip_open t c)) = cb_data c"
  by (simp_all add: clip_open_def)

lemma clip_close_content [simp]: "clip_content (clip_close c) = clip_content c" "clip_ok (clip_close c) = clip_ok c"
  by (simp_all add: clip_close_def clip_content_def clip_ok_def fun_eq_iff)

lemma marshall_roundtrip:
  assumes "length (fst (marshall c)) < 2 ^ 32"
  shows "\<exists>d'. unmarshall (fst (marshall c)) t d = Some d' \<and> clip_content d' = clip_content c \<and> clip_ok d'"
proof -
  define s where "s = snd (clip_open 0 c)"
  define e where "e = snd (clip_empty (snd (clip_open t d)))"
  let ?fs = "[0..<TotalFormats]"
  let ?n = "length (filter (\<lambda>f. clip_has f s) ?fs)" and ?bs = "concat (map (marshall_format s) ?fs)"
  have m: "fst (marshall c) = write_u32 (word_of_nat ?n) @ ?bs"
    by (auto simp: marshall_def s_def case_prod_unfold)
  have n: "unat (word_of_nat ?n :: u32) = ?n"
    using length_filter_le [of "\<lambda>f. clip_has f s" ?fs] by (intro unat_of_nat_u32) (simp add: TotalFormats_def)
  have e: "cb_open e" "cb_owner e" "clip_ok e" "clip_content e = (\<lambda>_. None)"
    using clip_empty_content [of "snd (clip_open t d)"] by (simp_all add: e_def)
  have s: "cb_open s" by (simp add: s_def)
  have "length ?bs < 2 ^ 32" using assms m by simp
  then obtain c' where c': "unmarshall_formats ?n ?bs e = Some c'" "clip_ok c'"
      "clip_content c' = (\<lambda>f. if f \<in> set ?fs \<and> clip_has f s then Some (clip_get f s) else clip_content e f)"
    using unmarshall_marshalled [of s ?fs e "[]"] s e by auto
  have "clip_content c' = clip_content c"
    using c'(3) e(4) s by (auto simp: fun_eq_iff clip_has_def clip_get_def clip_content_def s_def)
  then show ?thesis
    using c'(1,2) m n e_def by (simp add: unmarshall_def case_prod_unfold)
qed

section \<open>Chunks\<close>

text \<open>
  The numbers in text that announce the size are Qt's; \<open>s_expectedSize\<close> and the collected data are
  static variables, the state of the assembler.
\<close>

record qt_number =
  qn_number :: "u64 \<Rightarrow> bytes"
  qn_to_ulong :: "bytes \<Rightarrow> u64"

definition kClipboardEnd :: byte where
  "kClipboardEnd = 2"

definition s_clipboardChunkMetaSize :: nat where
  "s_clipboardChunkMetaSize = 7"

definition g_chunkSize :: nat where
  "g_chunkSize = 512 * 1024"

definition DataStart :: byte where "DataStart = 1"
definition DataChunk :: byte where "DataChunk = 2"
definition DataEnd :: byte where "DataEnd = 3"

text \<open>A chunk as the byte array the code builds; the sequence number is copied in the host's byte order.\<close>

definition host_bytes :: "u32 \<Rightarrow> bytes" where
  "host_bytes v = rev (be_encode 4 (unat v))"

definition of_host_bytes :: "bytes \<Rightarrow> u32" where
  "of_host_bytes b = word_of_nat (be_decode (rev b))"

definition chunk_start :: "byte \<Rightarrow> u32 \<Rightarrow> bytes \<Rightarrow> bytes" where
  "chunk_start i sequence size_text = [i] @ host_bytes sequence @ [DataStart] @ size_text @ [0]"

definition chunk_data :: "byte \<Rightarrow> u32 \<Rightarrow> bytes \<Rightarrow> bytes" where
  "chunk_data i sequence d = [i] @ host_bytes sequence @ [DataChunk] @ d @ [0]"

definition chunk_end :: "byte \<Rightarrow> u32 \<Rightarrow> bytes" where
  "chunk_end i sequence = [i] @ host_bytes sequence @ [DataEnd] @ [0]"

definition chunk_args :: "bytes \<Rightarrow> fmt_arg list" where
  "chunk_args chunk =
     [FA_Int (ucast (chunk ! 0)), FA_Int (of_host_bytes (take 4 (drop 1 chunk))), FA_Int (ucast (chunk ! 5)),
      FA_Str (take (length chunk - s_clipboardChunkMetaSize) (drop 6 chunk))]"

definition chunk_send :: "bytes \<Rightarrow> bytes option" where
  "chunk_send chunk = writef kMsgDClipboard (chunk_args chunk)"

text \<open>The loop of \<open>sendClipboard\<close> over the data not yet sent.\<close>

function chunk_loop :: "byte \<Rightarrow> u32 \<Rightarrow> bytes \<Rightarrow> bytes list" where
  "chunk_loop i sequence rest =
     (let n = (if g_chunkSize > length rest then length rest else g_chunkSize); rest1 = drop n rest
      in chunk_data i sequence (take n rest) # (if rest1 = [] then [] else chunk_loop i sequence rest1))"
  by pat_completeness auto
termination
  by (relation "measure (\<lambda>(i, sequence, rest). length rest)") (auto simp: g_chunkSize_def split: if_splits)

declare chunk_loop.simps [simp del]

definition send_clipboard :: "qt_number \<Rightarrow> bytes \<Rightarrow> byte \<Rightarrow> u32 \<Rightarrow> bytes list" where
  "send_clipboard qn d i sequence =
     [chunk_start i sequence (qn_number qn (word_of_nat (length d)))] @ chunk_loop i sequence d @ [chunk_end i sequence]"

datatype clip_transfer = CT_Started | CT_InProgress | CT_Finished | CT_Error

record assembler =
  ca_expected :: u64
  ca_cached :: bytes

definition assemble_chunk ::
  "qt_number \<Rightarrow> byte \<Rightarrow> byte \<Rightarrow> bytes \<Rightarrow> assembler \<Rightarrow> clip_transfer \<times> assembler" where
  "assemble_chunk qn i mark d a =
     (if mark = DataStart then (CT_Started, \<lparr>ca_expected = qn_to_ulong qn d, ca_cached = []\<rparr>)
      else if mark = DataChunk then (CT_InProgress, a\<lparr>ca_cached := ca_cached a @ d\<rparr>)
      else if mark = DataEnd then
        (if i \<ge> kClipboardEnd then (CT_Error, a)
         else if ca_expected a \<noteq> word_of_nat (length (ca_cached a)) then (CT_Error, a)
         else (CT_Finished, a))
      else (CT_Error, a))"

text \<open>\<open>assemble\<close>: the outcome with the identifier and sequence number read; \<open>None\<close> when an exception passes.\<close>

definition clip_assemble ::
  "qt_number \<Rightarrow> (u32 \<Rightarrow> 's \<Rightarrow> bytes \<times> 's) \<Rightarrow> 's \<Rightarrow> assembler \<Rightarrow>
     (clip_transfer \<times> byte \<times> u32) option \<times> 's \<times> assembler" where
  "clip_assemble qn rd s a =
     (case readf rd (drop 4 kMsgDClipboard) s of
        ((args, RF_Return True), s1) \<Rightarrow>
          (case args of
             [FA_Int i, FA_Int sequence, FA_Int mark, FA_Str d] \<Rightarrow>
               (case assemble_chunk qn (ucast i) (ucast mark) d a of
                  (r, a1) \<Rightarrow> (Some (r, ucast i, sequence), s1, a1))
           | _ \<Rightarrow> (None, s1, a))
      | ((args, RF_Return False), s1) \<Rightarrow> (Some (CT_Error, 0, 0), s1, a)
      | (_, s1) \<Rightarrow> (None, s1, a))"

text \<open>
  The handlers. The client builds a new clipboard and forwards it; the server unmarshalls into the
  proxy's slot for the identifier and remembers the sequence number.
\<close>

datatype clip_outcome =
    CO_Ignored
  | CO_Updated byte clipboard
  | CO_Undefined
  | CO_Throw

definition set_clipboard ::
  "qt_number \<Rightarrow> (u32 \<Rightarrow> 's \<Rightarrow> bytes \<times> 's) \<Rightarrow> 's \<Rightarrow> assembler \<Rightarrow> clip_outcome \<times> 's \<times> assembler" where
  "set_clipboard qn rd s a =
     (case clip_assemble qn rd s a of
        (None, s1, a1) \<Rightarrow> (CO_Throw, s1, a1)
      | (Some (r, i, sequence), s1, a1) \<Rightarrow>
          if r = CT_Finished then
            (case unmarshall (ca_cached a1) 0 new_clipboard of
               None \<Rightarrow> (CO_Undefined, s1, a1)
             | Some c \<Rightarrow> (CO_Updated i c, s1, a1))
          else (CO_Ignored, s1, a1))"

definition recv_clipboard ::
  "qt_number \<Rightarrow> (u32 \<Rightarrow> 's \<Rightarrow> bytes \<times> 's) \<Rightarrow> 's \<Rightarrow> assembler \<Rightarrow> (clipboard \<times> u32) list \<Rightarrow>
     clip_outcome \<times> 's \<times> assembler \<times> (clipboard \<times> u32) list" where
  "recv_clipboard qn rd s a slots =
     (case clip_assemble qn rd s a of
        (None, s1, a1) \<Rightarrow> (CO_Throw, s1, a1, slots)
      | (Some (r, i, sequence), s1, a1) \<Rightarrow>
          if r = CT_Finished then
            (case unmarshall (ca_cached a1) 0 (fst (slots ! unat i)) of
               None \<Rightarrow> (CO_Undefined, s1, a1, slots)
             | Some c \<Rightarrow> (CO_Updated i c, s1, a1, slots[unat i := (c, sequence)]))
          else (CO_Ignored, s1, a1, slots))"

section \<open>A clipboard over the wire\<close>

text \<open>The client's loop over its messages: the code of a message, then the handler for \<open>DCLP\<close>.\<close>

definition message_code :: "string \<Rightarrow> bytes" where
  "message_code fmt = map of_char (take 4 fmt)"

fun handle_messages ::
  "qt_number \<Rightarrow> nat \<Rightarrow> packet_filter \<Rightarrow> assembler \<Rightarrow> clip_outcome list \<times> packet_filter \<times> assembler" where
  "handle_messages qn 0 f a = ([], f, a)"
| "handle_messages qn (Suc n) f a =
     (case filter_read 4 f of (code, f1) \<Rightarrow>
        (case (if code = message_code kMsgDClipboard then set_clipboard qn filter_read f1 a else (CO_Ignored, f1, a)) of
           (r, f2, a1) \<Rightarrow>
             (case handle_messages qn n f2 a1 of (rs, f3, a2) \<Rightarrow> (r # rs, f3, a2))))"

definition clip_message :: "byte \<Rightarrow> u32 \<Rightarrow> byte \<Rightarrow> bytes \<Rightarrow> bytes" where
  "clip_message i sequence mark d =
     message_code kMsgDClipboard @ [i] @ packet_header sequence @ [mark] @ write_string d"

lemma code_simps:
  "length (message_code kMsgDClipboard) = 4"
  "drop 4 kMsgDClipboard = ''%1i%4i%1i%s''"
  by (simp_all add: message_code_def kMsgDClipboard_def)

lemma byte_back: "ucast (and (ucast (x :: byte) :: u32) 0xff) = x"
  by (rule bit_word_eqI) (auto simp: bit_unsigned_iff bit_and_iff mask_bits)

lemma clip_args_tail:
  "writef_buffer ''%1i%4i%1i%s'' [FA_Int (ucast i), FA_Int sequence, FA_Int (ucast mark), FA_Str d] =
   Some ([i] @ packet_header sequence @ [mark] @ write_string d)"
  by (simp add: digit_value_def write_spec_def write_int_def packet_header_def byte_back)

lemma clip_args_received:
  "length d < 2 ^ 32 \<Longrightarrow>
   received ''%1i%4i%1i%s'' [FA_Int (ucast i), FA_Int sequence, FA_Int (ucast mark), FA_Str d] =
   Some [FA_Int (and (ucast i) 0xff), FA_Int sequence, FA_Int (and (ucast mark) 0xff), FA_Str d]"
  by (simp add: digit_value_def write_spec_def write_int_def received_spec_def narrow_def)

lemma clip_message_written:
  assumes "length d < 2 ^ 31"
  shows "writef kMsgDClipboard [FA_Int (ucast i), FA_Int sequence, FA_Int (ucast mark), FA_Str d] =
    Some (clip_message i sequence mark d)"
proof (rule writef_exact)
  have 1: "kMsgDClipboard = ''DCLP'' @ ''%1i%4i%1i%s''" by (simp add: kMsgDClipboard_def)
  show buf: "writef_buffer kMsgDClipboard [FA_Int (ucast i), FA_Int sequence, FA_Int (ucast mark), FA_Str d] =
      Some (clip_message i sequence mark d)"
    using clip_args_tail [of i sequence mark d] unfolding 1
    by (simp add: clip_message_def message_code_def kMsgDClipboard_def)
  have "kinds_of kMsgDClipboard = Some [AK_Int 1, AK_Int 4, AK_Int 1, AK_Str]"
    by (simp add: kMsgDClipboard_def digit_value_def)
  then show "get_length kMsgDClipboard [FA_Int (ucast i), FA_Int sequence, FA_Int (ucast mark), FA_Str d] =
      Some (word_of_nat (length (clip_message i sequence mark d)))"
    using kinds_of_sound [of kMsgDClipboard _ "[FA_Int (ucast i), FA_Int sequence, FA_Int (ucast mark), FA_Str d]"]
      buf assms by fastforce
  show "length (clip_message i sequence mark d) < 2 ^ 32"
    using assms by (simp add: clip_message_def code_simps write_string_def packet_header_def)
qed

lemma host_bytes_back [simp]: "of_host_bytes (host_bytes v) = v" "length (host_bytes v) = 4"
proof -
  have "unat v < 256 ^ 4" using unsigned_less [of v, where ?'a = nat] by simp
  then show "of_host_bytes (host_bytes v) = v"
    by (simp add: of_host_bytes_def host_bytes_def be_decode_encode)
qed (simp add: host_bytes_def)

lemma chunk_args_of:
  "chunk_args ([i] @ host_bytes sequence @ [mark] @ d @ [0]) =
   [FA_Int (ucast i), FA_Int sequence, FA_Int (ucast mark), FA_Str d]"
proof -
  obtain a b c e where h: "host_bytes sequence = [a, b, c, e]"
    using host_bytes_back(2) [of sequence] by (auto simp: numeral_eq_Suc length_Suc_conv simp del: host_bytes_back)
  have "of_host_bytes [a, b, c, e] = sequence" using host_bytes_back(1) [of sequence] h by simp
  then show ?thesis by (simp add: chunk_args_def h s_clipboardChunkMetaSize_def numeral_eq_Suc)
qed

lemma chunk_loop_payloads:
  "\<exists>ps. chunk_loop i sequence d = map (chunk_data i sequence) ps \<and> concat ps = d \<and>
    (\<forall>p \<in> set ps. length p \<le> g_chunkSize)"
proof (induction i sequence d rule: chunk_loop.induct)
  case (1 i sequence d)
  let ?n = "if g_chunkSize > length d then length d else g_chunkSize"
  show ?case
  proof (cases "drop ?n d = []")
    case True
    then show ?thesis
      by (intro exI [of _ "[take ?n d]"]) (subst chunk_loop.simps, auto simp: Let_def split: if_splits)
  next
    case False
    then obtain ps where "chunk_loop i sequence (drop ?n d) = map (chunk_data i sequence) ps"
        "concat ps = drop ?n d" "\<forall>p \<in> set ps. length p \<le> g_chunkSize"
      using "1.IH" [OF refl refl False] by blast
    with False show ?thesis
      by (intro exI [of _ "take ?n d # ps"]) (subst chunk_loop.simps, auto simp: Let_def)
  qed
qed

abbreviation drained :: "packet_filter \<Rightarrow> bool" where
  "drained f \<equiv> buffer_content (sk_input (pf_stream f)) = []"

lemma filter_read_code:
  assumes p: "pending False f ((code @ body) # qs) []" and "drained f"
    and "length code = 4" and "body \<noteq> []"
  shows "\<exists>f1. filter_read 4 f = (code, f1) \<and> filter_holds qs [] (sk_input (pf_stream f1)) f1 body \<and> drained f1"
proof -
  obtain out f1 where r: "filter_read 4 f = (out, f1)" by fastforce
  have ready: "is_ready_no_lock f" using pending_ready [OF assms(1,2)] .
  have size: "unat (pf_size f) = length (code @ body)"
    using p ready by (auto simp: pending_def Let_def is_ready_no_lock_def)
  have four: "unat (4 :: u32) < length (code @ body)" using assms(3,4) by simp
  then have "4 < pf_size f" using size by (simp add: word_less_nat_alt)
  then have "is_ready_no_lock f1" using filter_read_ready [OF p ready r] by blast
  moreover have "out = code" "pending False f1 (body # qs) []"
    using filter_read_pending [OF p r] ready four assms(3) by auto
  moreover have "sk_input (pf_stream f1) = sk_input (pf_stream f)"
    using filter_read_input [of 4 f] r by simp
  ultimately show ?thesis using r assms(2,4) by (simp add: filter_holds_def)
qed

lemma handle_clip_message:
  assumes p: "pending False f (clip_message i sequence mark d # qs) []" and dr: "drained f" and len: "length d < 2 ^ 32"
    and step: "assemble_chunk qn i mark d a = (r, a1)"
  shows "\<exists>f1 f2. filter_read 4 f = (message_code kMsgDClipboard, f1) \<and>
    clip_assemble qn filter_read f1 a = (Some (r, i, sequence), f2, a1) \<and> pending False f2 qs [] \<and> drained f2"
proof -
  let ?body = "[i] @ packet_header sequence @ [mark] @ write_string d"
  have "clip_message i sequence mark d = message_code kMsgDClipboard @ ?body" by (simp add: clip_message_def)
  then obtain f1 where f1: "filter_read 4 f = (message_code kMsgDClipboard, f1)"
      "filter_holds qs [] (sk_input (pf_stream f1)) f1 ?body" "drained f1"
    using filter_read_code [of f "message_code kMsgDClipboard" ?body qs] p dr code_simps(1) by auto
  have holds: "filter_holds qs [] (sk_input (pf_stream f1)) f1 (?body @ [])" using f1(2) by simp
  obtain f2 where f2: "vreadf filter_read ''%1i%4i%1i%s'' f1 =
        (([FA_Int (and (ucast i) 0xff), FA_Int sequence, FA_Int (and (ucast mark) 0xff), FA_Str d], None), f2)"
      "filter_holds qs [] (sk_input (pf_stream f1)) f2 []"
    using packet_source.vreadf_holds [OF clip_args_tail clip_args_received [OF len] holds] by auto
  then have "pending False f2 qs [] \<and> drained f2" using f1(3) by (simp add: filter_holds_def)
  moreover have "clip_assemble qn filter_read f1 a = (Some (r, i, sequence), f2, a1)"
    by (simp only: clip_assemble_def readf_def code_simps(2) f2(1)) (simp add: byte_back step)
  ultimately show ?thesis using f1(1) by blast
qed

lemma handle_unfinished:
  assumes p: "pending False f (clip_message i sequence mark d # qs) []" and dr: "drained f" and len: "length d < 2 ^ 32"
    and step: "assemble_chunk qn i mark d a = (r, a1)" and "r \<noteq> CT_Finished"
  shows "\<exists>f2. handle_messages qn (Suc n) f a =
      (case handle_messages qn n f2 a1 of (rs, f3, a2) \<Rightarrow> (CO_Ignored # rs, f3, a2)) \<and>
    pending False f2 qs [] \<and> drained f2"
  using handle_clip_message [OF assms(1-4)] assms(5) by (auto simp: set_clipboard_def)

lemma handle_data:
  "pending False f (map (clip_message i sequence DataChunk) ps @ qs) [] \<Longrightarrow> drained f \<Longrightarrow>
   \<forall>p \<in> set ps. length p < 2 ^ 32 \<Longrightarrow>
   \<exists>f2. handle_messages qn (length ps + n) f a =
      (case handle_messages qn n f2 (a\<lparr>ca_cached := ca_cached a @ concat ps\<rparr>) of
         (rs, f3, a2) \<Rightarrow> (replicate (length ps) CO_Ignored @ rs, f3, a2)) \<and>
    pending False f2 qs [] \<and> drained f2"
proof (induction ps arbitrary: f a)
  case (Cons p ps)
  let ?a = "a\<lparr>ca_cached := ca_cached a @ p\<rparr>"
  have "assemble_chunk qn i DataChunk p a = (CT_InProgress, ?a)"
    by (simp add: assemble_chunk_def DataStart_def DataChunk_def)
  then obtain f1 where f1: "handle_messages qn (Suc (length ps + n)) f a =
      (case handle_messages qn (length ps + n) f1 ?a of (rs, f3, a2) \<Rightarrow> (CO_Ignored # rs, f3, a2))"
      "pending False f1 (map (clip_message i sequence DataChunk) ps @ qs) []" "drained f1"
    using handle_unfinished [of f i sequence DataChunk p _ qn a CT_InProgress ?a "length ps + n"] Cons.prems by auto
  then obtain f2 where "handle_messages qn (length ps + n) f1 ?a =
      (case handle_messages qn n f2 (?a\<lparr>ca_cached := ca_cached ?a @ concat ps\<rparr>) of
         (rs, f3, a2) \<Rightarrow> (replicate (length ps) CO_Ignored @ rs, f3, a2))" "pending False f2 qs []" "drained f2"
    using Cons.IH [OF f1(2,3), of ?a] Cons.prems(3) by fastforce
  with f1(1) show ?case by (intro exI [of _ f2]) (auto split: prod.splits)
qed (auto split: prod.splits)

text \<open>The packets \<open>sendClipboard\<close> and \<open>ClipboardChunk::send\<close> produce.\<close>

definition clip_packets :: "qt_number \<Rightarrow> bytes \<Rightarrow> byte \<Rightarrow> u32 \<Rightarrow> bytes list" where
  "clip_packets qn d i sequence = map (the \<circ> chunk_send) (send_clipboard qn d i sequence)"

lemma chunk_send_message:
  "length d < 2 ^ 31 \<Longrightarrow> chunk_send ([i] @ host_bytes sequence @ [mark] @ d @ [0]) = Some (clip_message i sequence mark d)"
  unfolding chunk_send_def chunk_args_of by (rule clip_message_written)

lemma clip_packets_shape:
  assumes "length (qn_number qn (word_of_nat (length d))) < 2 ^ 20"
  shows "\<exists>ps. clip_packets qn d i sequence =
      clip_message i sequence DataStart (qn_number qn (word_of_nat (length d))) #
      map (clip_message i sequence DataChunk) ps @ [clip_message i sequence DataEnd []] \<and>
    concat ps = d \<and> (\<forall>p \<in> set ps. length p \<le> g_chunkSize) \<and>
    None \<notin> set (map chunk_send (send_clipboard qn d i sequence))"
proof -
  obtain ps where ps: "chunk_loop i sequence d = map (chunk_data i sequence) ps" "concat ps = d"
      "\<forall>p \<in> set ps. length p \<le> g_chunkSize"
    using chunk_loop_payloads by blast
  have "\<forall>p \<in> set ps. chunk_send (chunk_data i sequence p) = Some (clip_message i sequence DataChunk p)"
    using ps(3) chunk_send_message by (fastforce simp: chunk_data_def g_chunkSize_def)
  moreover have "chunk_send (chunk_start i sequence s) = Some (clip_message i sequence DataStart s)"
    if "length s < 2 ^ 20" for s
    using chunk_send_message [of s i sequence DataStart] that by (simp add: chunk_start_def)
  moreover have "chunk_send (chunk_end i sequence) = Some (clip_message i sequence DataEnd [])"
    using chunk_send_message [of "[]" i sequence DataEnd] by (simp add: chunk_end_def)
  ultimately show ?thesis
    using ps assms by (intro exI [of _ ps]) (force simp: clip_packets_def send_clipboard_def)
qed

section \<open>Properties\<close>

text \<open>
  The collected data and the expected size are shared by all senders: when two clients send their
  clipboards at the same time, the first announcement is overwritten and the first clipboard is
  refused.
\<close>

lemma interleaved_clipboards_fail:
  assumes "qn_to_ulong qn b1 = 1" and "qn_to_ulong qn b2 = 2"
  shows "fst (assemble_chunk qn 0 DataEnd [] (snd (assemble_chunk qn 0 DataChunk [7]
    (snd (assemble_chunk qn 0 DataStart b2 (snd (assemble_chunk qn 0 DataStart b1 a))))))) = CT_Error"
  using assms by (simp add: assemble_chunk_def DataStart_def DataChunk_def DataEnd_def kClipboardEnd_def)

text \<open>
  A format number of 2^31 or more is negative as an enumeration value: it passes the comparison with
  \<open>TotalFormats\<close> and indexes before the arrays.
\<close>

lemma negative_format_out_of_bounds:
  "unmarshall (write_u32 1 @ write_u32 0x80000000 @ write_u32 0) 0 new_clipboard = None"
  using read_write_u32 [of 0 "[]"] by (simp add: unmarshall_def case_prod_unfold TotalFormats_def)

text \<open>C11. A clipboard arrives whole: the marshalled clipboard, cut into chunks and sent as messages, is
  read at the other end message by message, and after the last one, and not before, the handler
  forwards a clipboard for the same identifier with exactly the sender's formats and data.\<close>

theorem clipboard_transfer:
  fixes c :: clipboard
  defines "d \<equiv> fst (marshall c)"
  assumes "length d < 2 ^ 31" and "i < kClipboardEnd"
    and number: "length (qn_number qn (word_of_nat (length d))) < 2 ^ 20"
      "qn_to_ulong qn (qn_number qn (word_of_nat (length d))) = word_of_nat (length d)"
    and ps: "ps = clip_packets qn d i sequence" and size: "length (wire ps) < 2 ^ 32"
    and calm: "list_all undisturbed cs"
    and run: "packet_run cs (new_packet_filter accepted_tcp_socket) = (wire ps, [], f)"
  shows "\<exists>c'. fst (handle_messages qn (length ps) (filter_event EV_StreamInputReady f) a) =
      replicate (length ps - 1) CO_Ignored @ [CO_Updated i c'] \<and> clip_content c' = clip_content c"
proof -
  let ?text = "qn_number qn (word_of_nat (length d))"
  let ?final = "clip_message i sequence DataEnd []"
  obtain pay where pay: "ps = clip_message i sequence DataStart ?text #
      map (clip_message i sequence DataChunk) pay @ [?final]" "concat pay = d" "\<forall>p \<in> set pay. length p \<le> g_chunkSize"
    using clip_packets_shape [OF number(1), of i sequence] ps by auto
  have "list_all packet_ok ps"
    using pay number(1) by (auto simp: list_all_iff packet_ok_def PROTOCOL_MAX_MESSAGE_LENGTH_def clip_message_def
      code_simps write_string_def packet_header_def g_chunkSize_def)
  then have p: "pending False f ps []"
    using packet_run_pending [OF _ calm run, of ps "[]"] accepted_pending [OF _ size] by simp
  define g where "g = filter_event EV_StreamInputReady f"
  have g: "pending False g ps []" "drained g"
    using filter_event_pending [OF p] filter_event_drains [OF p] by (simp_all add: g_def)
  let ?a = "\<lparr>ca_expected = word_of_nat (length d), ca_cached = []\<rparr>"
  have "assemble_chunk qn i DataStart ?text a = (CT_Started, ?a)"
    using number(2) by (simp add: assemble_chunk_def)
  then obtain g1 where g1: "handle_messages qn (Suc (length pay + 1)) g a =
      (case handle_messages qn (length pay + 1) g1 ?a of (rs, f3, a2) \<Rightarrow> (CO_Ignored # rs, f3, a2))"
      "pending False g1 (map (clip_message i sequence DataChunk) pay @ [?final]) []" "drained g1"
    using handle_unfinished [of g i sequence DataStart ?text _ qn a CT_Started ?a "length pay + 1"] g pay(1) number(1)
    by auto
  let ?b = "\<lparr>ca_expected = word_of_nat (length d), ca_cached = d\<rparr>"
  have "\<forall>p \<in> set pay. length p < 2 ^ 32" using pay(3) by (auto simp: g_chunkSize_def)
  then obtain g2 where g2: "handle_messages qn (length pay + 1) g1 ?a =
      (case handle_messages qn 1 g2 ?b of (rs, f3, a2) \<Rightarrow> (replicate (length pay) CO_Ignored @ rs, f3, a2))"
      "pending False g2 [?final] []" "drained g2"
    using handle_data [OF g1(2,3), of qn 1 ?a] pay(2) by auto
  have "assemble_chunk qn i DataEnd [] ?b = (CT_Finished, ?b)"
    using assms(3) by (auto simp: assemble_chunk_def DataStart_def DataChunk_def DataEnd_def)
  then obtain h1 h2 where h: "filter_read 4 g2 = (message_code kMsgDClipboard, h1)"
      "clip_assemble qn filter_read h1 ?b = (Some (CT_Finished, i, sequence), h2, ?b)"
    using handle_clip_message [of g2 i sequence DataEnd "[]" "[]" qn ?b CT_Finished ?b] g2(2,3) by auto
  obtain c' where c': "unmarshall d 0 new_clipboard = Some c'" "clip_content c' = clip_content c"
    using marshall_roundtrip [of c 0 new_clipboard] assms(2) by (auto simp: d_def)
  then have "fst (handle_messages qn 1 g2 ?b) = [CO_Updated i c']"
    using h by (simp add: set_clipboard_def)
  then have "fst (handle_messages qn (Suc (length pay + 1)) g a) =
      CO_Ignored # replicate (length pay) CO_Ignored @ [CO_Updated i c']"
    using g1(1) g2(1) by (auto split: prod.splits)
  moreover have "length ps = Suc (length pay + 1)" using pay(1) by simp
  ultimately show ?thesis using c'(2) by (auto simp: g_def)
qed

definition sample_number :: qt_number where
  "sample_number = \<lparr>qn_number = (\<lambda>n. [ucast n]), qn_to_ulong = (\<lambda>b. ucast (hd b))\<rparr>"

lemma one_arrival:
  assumes "w \<noteq> []" and "length w \<le> 4096"
  shows "packet_run [PC_Arrive (\<lambda>i. if i = 0 then RA_Bytes w else RA_Bytes [])]
      (new_packet_filter accepted_tcp_socket) =
    (w, [], packet_arrive (\<lambda>i. if i = 0 then RA_Bytes w else RA_Bytes []) (new_packet_filter accepted_tcp_socket))"
  using assms
  by (simp add: taken_def accepted_tcp_socket_def new_tcp_socket_def new_packet_filter_def socket_ops slurp_stop)

theorem clipboard_transfer_witness:
  "\<exists>f c' n. fst (handle_messages sample_number n (filter_event EV_StreamInputReady f)
      \<lparr>ca_expected = 0, ca_cached = []\<rparr>) =
    replicate (n - 1) CO_Ignored @ [CO_Updated 0 c'] \<and> clip_content c' = clip_content new_clipboard"
proof -
  let ?d = "fst (marshall new_clipboard)"
  have d: "?d = [0, 0, 0, 0]"
    by (simp add: marshall_def clip_open_def new_clipboard_def clip_close_def clip_empty_def TotalFormats_def
        clip_has_def marshall_format_def write_u32_def upt_rec numeral_eq_Suc)
  define ps where "ps = clip_packets sample_number ?d 0 5"
  obtain pay where pay: "ps = clip_message 0 5 DataStart (qn_number sample_number (word_of_nat (length ?d))) #
      map (clip_message 0 5 DataChunk) pay @ [clip_message 0 5 DataEnd []]"
    using clip_packets_shape [of sample_number ?d 0 5] d by (auto simp: ps_def sample_number_def)
  have loop: "chunk_loop 0 5 [0, 0, 0, 0] = [chunk_data 0 5 [0, 0, 0, 0]]"
    by (subst chunk_loop.simps) (simp add: g_chunkSize_def)
  have size: "length (wire ps) = 59"
    using chunk_send_message [of "[4]" 0 5 DataStart] chunk_send_message [of "[0, 0, 0, 0]" 0 5 DataChunk]
      chunk_send_message [of "[]" 0 5 DataEnd]
    by (simp add: ps_def clip_packets_def send_clipboard_def loop chunk_start_def chunk_data_def chunk_end_def d
        sample_number_def clip_message_def code_simps write_string_def packet_header_def)
  then have "wire ps \<noteq> []" "length (wire ps) \<le> 4096" by auto
  let ?g = "\<lambda>i :: nat. if i = 0 then RA_Bytes (wire ps) else RA_Bytes []"
  have "\<exists>c'. fst (handle_messages sample_number (length ps)
      (filter_event EV_StreamInputReady (packet_arrive ?g (new_packet_filter accepted_tcp_socket)))
      \<lparr>ca_expected = 0, ca_cached = []\<rparr>) =
    replicate (length ps - 1) CO_Ignored @ [CO_Updated 0 c'] \<and> clip_content c' = clip_content new_clipboard"
    by (rule clipboard_transfer [OF _ _ _ _ ps_def _ _
          one_arrival [OF \<open>wire ps \<noteq> []\<close> \<open>length (wire ps) \<le> 4096\<close>]])
       (use size in \<open>simp_all add: d kClipboardEnd_def sample_number_def\<close>)
  then show ?thesis by blast
qed

end
