(* ===== verification/StdMap.thy ===== *)
theory StdMap
  imports Prelude
begin

text \<open>
  \<open>std::map\<close>: an association list kept in the order of a comparison. Keys are the same when neither is
  less than the other; \<open>insert\<close> keeps an entry that is already there. The locale \<open>std_map_order\<close> is
  what the standard asks of the comparison, and proves what the operations promise.
\<close>

section \<open>Operations\<close>

definition same_key :: "('k \<Rightarrow> 'k \<Rightarrow> bool) \<Rightarrow> 'k \<Rightarrow> 'k \<Rightarrow> bool" where
  "same_key lt a b \<longleftrightarrow> \<not> lt a b \<and> \<not> lt b a"

fun map_entry :: "('k \<Rightarrow> 'k \<Rightarrow> bool) \<Rightarrow> 'k \<Rightarrow> ('k \<times> 'v) list \<Rightarrow> ('k \<times> 'v) option" where
  "map_entry lt k [] = None"
| "map_entry lt k (e # es) = (if same_key lt k (fst e) then Some e else map_entry lt k es)"

definition map_find :: "('k \<Rightarrow> 'k \<Rightarrow> bool) \<Rightarrow> 'k \<Rightarrow> ('k \<times> 'v) list \<Rightarrow> 'v option" where
  "map_find lt k es = map_option snd (map_entry lt k es)"

definition map_contains :: "('k \<Rightarrow> 'k \<Rightarrow> bool) \<Rightarrow> 'k \<Rightarrow> ('k \<times> 'v) list \<Rightarrow> bool" where
  "map_contains lt k es \<longleftrightarrow> map_entry lt k es \<noteq> None"

fun map_insert :: "('k \<Rightarrow> 'k \<Rightarrow> bool) \<Rightarrow> 'k \<Rightarrow> 'v \<Rightarrow> ('k \<times> 'v) list \<Rightarrow> ('k \<times> 'v) list" where
  "map_insert lt k v [] = [(k, v)]"
| "map_insert lt k v (e # es) =
     (if lt k (fst e) then (k, v) # e # es
      else if lt (fst e) k then e # map_insert lt k v es
      else e # es)"

definition map_erase :: "('k \<Rightarrow> 'k \<Rightarrow> bool) \<Rightarrow> 'k \<Rightarrow> ('k \<times> 'v) list \<Rightarrow> ('k \<times> 'v) list" where
  "map_erase lt k es = filter (\<lambda>e. \<not> same_key lt k (fst e)) es"

definition map_update :: "('k \<Rightarrow> 'k \<Rightarrow> bool) \<Rightarrow> 'k \<Rightarrow> ('v \<Rightarrow> 'v) \<Rightarrow> ('k \<times> 'v) list \<Rightarrow> ('k \<times> 'v) list" where
  "map_update lt k f es = map (\<lambda>(k', v). (k', if same_key lt k k' then f v else v)) es"

text \<open>The entries before and from \<open>upper_bound\<close> on.\<close>

definition below :: "('k \<Rightarrow> 'k \<Rightarrow> bool) \<Rightarrow> 'k \<Rightarrow> ('k \<times> 'v) list \<Rightarrow> ('k \<times> 'v) list" where
  "below lt k es = takeWhile (\<lambda>e. \<not> lt k (fst e)) es"

definition upper_bound :: "('k \<Rightarrow> 'k \<Rightarrow> bool) \<Rightarrow> 'k \<Rightarrow> ('k \<times> 'v) list \<Rightarrow> ('k \<times> 'v) list" where
  "upper_bound lt k es = dropWhile (\<lambda>e. \<not> lt k (fst e)) es"

definition map_sorted :: "('k \<Rightarrow> 'k \<Rightarrow> bool) \<Rightarrow> ('k \<times> 'v) list \<Rightarrow> bool" where
  "map_sorted lt es \<longleftrightarrow> sorted_wrt (\<lambda>a b. lt (fst a) (fst b)) es"

lemma map_entry_mem: "map_entry lt k es = Some e \<Longrightarrow> e \<in> set es \<and> same_key lt k (fst e)"
  by (induction es) (auto split: if_splits)

lemma map_entry_None: "map_entry lt k es = None \<longleftrightarrow> (\<forall>e \<in> set es. \<not> same_key lt k (fst e))"
  by (induction es) auto

lemma set_map_insert: "set (map_insert lt k v es) \<subseteq> insert (k, v) (set es)"
  by (induction es) auto

lemma map_sorted_filter: "map_sorted lt es \<Longrightarrow> map_sorted lt (filter P es)"
  by (simp add: map_sorted_def sorted_wrt_filter)

lemma map_sorted_values:
  "map fst es = map fst es' \<Longrightarrow> map_sorted lt es = map_sorted lt es'"
proof -
  have "map_sorted lt xs \<longleftrightarrow> sorted_wrt lt (map fst xs)" for xs :: "('a \<times> 'c) list"
    by (simp add: map_sorted_def sorted_wrt_map)
  moreover have "map_sorted lt xs \<longleftrightarrow> sorted_wrt lt (map fst xs)" for xs :: "('a \<times> 'b) list"
    by (simp add: map_sorted_def sorted_wrt_map)
  ultimately show "map fst es = map fst es' \<Longrightarrow> map_sorted lt es = map_sorted lt es'" by simp
qed

lemma below_upper: "below lt k es @ upper_bound lt k es = es"
  by (simp add: below_def upper_bound_def)

section \<open>The contract\<close>

locale std_map_order =
  fixes lt :: "'k \<Rightarrow> 'k \<Rightarrow> bool"
  assumes irrefl: "\<not> lt a a"
    and trans: "lt a b \<Longrightarrow> lt b c \<Longrightarrow> lt a c"
    and weak: "\<not> lt a b \<Longrightarrow> \<not> lt b c \<Longrightarrow> \<not> lt a c"
begin

lemma asym: "lt a b \<Longrightarrow> \<not> lt b a"
  using irrefl trans by blast

lemma same_refl [simp]: "same_key lt a a"
  by (simp add: same_key_def irrefl)

lemma same_sym: "same_key lt a b \<Longrightarrow> same_key lt b a"
  by (simp add: same_key_def)

lemma same_trans: "same_key lt a b \<Longrightarrow> same_key lt b c \<Longrightarrow> same_key lt a c"
  using weak by (auto simp: same_key_def)

lemma less_same: "same_key lt a b \<Longrightarrow> lt a c \<longleftrightarrow> lt b c" "same_key lt a b \<Longrightarrow> lt c a \<longleftrightarrow> lt c b"
  using weak by (auto simp: same_key_def)

lemma insert_sorted: "map_sorted lt es \<Longrightarrow> map_sorted lt (map_insert lt k v es)"
proof (induction es)
  case (Cons e es)
  then have "map_sorted lt (map_insert lt k v es)" by (simp add: map_sorted_def)
  moreover have "\<forall>x \<in> set (map_insert lt k v es). lt (fst e) (fst x)" if "lt (fst e) k"
    using that Cons.prems set_map_insert [of lt k v es] by (fastforce simp: map_sorted_def)
  ultimately show ?case
    using Cons.prems by (auto simp: map_sorted_def dest: trans)
qed (simp add: map_sorted_def)

lemma erase_sorted: "map_sorted lt es \<Longrightarrow> map_sorted lt (map_erase lt k es)"
  by (simp add: map_erase_def map_sorted_filter)

lemma update_sorted: "map_sorted lt es \<Longrightarrow> map_sorted lt (map_update lt k f es)"
  by (rule map_sorted_values [THEN iffD1, rotated]) (auto simp: map_update_def)

lemma entry_unique:
  "map_sorted lt es \<Longrightarrow> e \<in> set es \<Longrightarrow> same_key lt k (fst e) \<Longrightarrow> map_entry lt k es = Some e"
proof (induction es)
  case (Cons x es)
  show ?case
  proof (cases "same_key lt k (fst x)")
    case True
    then have "same_key lt (fst x) (fst e)" using Cons.prems(3) same_sym same_trans by blast
    then have "x = e" using Cons.prems(1,2) by (auto simp: map_sorted_def same_key_def)
    then show ?thesis using True by simp
  next
    case False
    then have "e \<in> set es" using Cons.prems(2,3) by auto
    then show ?thesis using False Cons by (simp add: map_sorted_def)
  qed
qed simp

lemma insert_entry:
  "map_sorted lt es \<Longrightarrow>
   map_entry lt j (map_insert lt k v es) =
     (if same_key lt j k \<and> map_entry lt k es = None then Some (k, v) else map_entry lt j es)"
proof (induction es)
  case (Cons x es)
  have before: "map_entry lt k es = None" if "lt k (fst x)"
    using that Cons.prems trans by (auto simp: map_entry_None map_sorted_def same_key_def)
  show ?case
  proof (cases "lt k (fst x)")
    case True
    then show ?thesis using before by (auto simp: same_key_def)
  next
    case False
    show ?thesis
    proof (cases "lt (fst x) k")
      case True
      then have "\<not> same_key lt k (fst x)" by (simp add: same_key_def)
      moreover have "\<not> (same_key lt j k \<and> same_key lt j (fst x))"
        using calculation same_sym same_trans by blast
      ultimately show ?thesis using False True Cons by (auto simp: map_sorted_def)
    next
      case same: False
      then have "same_key lt k (fst x)" using False by (simp add: same_key_def)
      then show ?thesis using False same by auto
    qed
  qed
qed simp

lemma erase_entry:
  "map_entry lt j (map_erase lt k es) = (if same_key lt j k then None else map_entry lt j es)"
proof (induction es)
  case (Cons x es)
  consider "same_key lt k (fst x)" "same_key lt j k" | "same_key lt k (fst x)" "\<not> same_key lt j k"
    | "\<not> same_key lt k (fst x)" by blast
  then show ?case
  proof cases
    case 1
    then show ?thesis using Cons by (simp add: map_erase_def)
  next
    case 2
    then have "\<not> same_key lt j (fst x)" using same_sym same_trans by blast
    then show ?thesis using 2 Cons by (simp add: map_erase_def)
  next
    case 3
    then have "same_key lt j k \<Longrightarrow> \<not> same_key lt j (fst x)" using same_sym same_trans by blast
    then show ?thesis using 3 Cons by (auto simp: map_erase_def)
  qed
qed (simp add: map_erase_def)

text \<open>The neighbours of a key: everything below it in the order is at or before it.\<close>

lemma below_le: "e \<in> set (below lt k es) \<Longrightarrow> \<not> lt k (fst e)"
  by (auto simp: below_def dest: set_takeWhileD)

lemma upper_greater: "map_sorted lt es \<Longrightarrow> e \<in> set (upper_bound lt k es) \<Longrightarrow> lt k (fst e)"
proof (induction es)
  case (Cons x es)
  then show ?case
    using trans by (auto simp: upper_bound_def map_sorted_def split: if_splits)
qed (simp add: upper_bound_def)

lemma upper_first:
  "map_sorted lt es \<Longrightarrow> upper_bound lt k es = e # es' \<Longrightarrow> f \<in> set es' \<Longrightarrow> lt (fst e) (fst f)"
  using below_upper [of lt k es] by (metis map_sorted_def sorted_wrt.simps(2) sorted_wrt_append)

lemma below_last:
  "map_sorted lt es \<Longrightarrow> below lt k es \<noteq> [] \<Longrightarrow> f \<in> set (butlast (below lt k es)) \<Longrightarrow>
   lt (fst f) (fst (last (below lt k es)))"
  using below_upper [of lt k es]
  by (metis append_butlast_last_id list.set_intros(1) map_sorted_def sorted_wrt_append)

end

end
