(* ===== verification/ScreenConfig.thy ===== *)
theory ScreenConfig
  imports StdMap MachineInterface Complex_Main "HOL-Library.List_Lexorder"
begin

text \<open>
  \<open>Config\<close> (src/lib/server): the screens, their aliases and options, and the links between their
  edges. A \<open>float\<close> is a real number, compared exactly; the arithmetic of positions rounds by a
  function that is an argument. Where the code asserts, the result is \<open>None\<close>. The network address
  and the input filter are not part of the model.
\<close>

section \<open>Names\<close>

definition lower_code :: "char \<Rightarrow> nat" where
  "lower_code c = (let n = of_char c in if 65 \<le> n \<and> n \<le> 90 then n + 32 else n)"

definition caseless_less :: "string \<Rightarrow> string \<Rightarrow> bool" where
  "caseless_less a b \<longleftrightarrow> map lower_code a < map lower_code b"

definition caseless_equal :: "string \<Rightarrow> string \<Rightarrow> bool" where
  "caseless_equal a b \<longleftrightarrow> \<not> (caseless_less a b \<or> caseless_less b a)"

lemma caseless_same: "same_key caseless_less = caseless_equal"
  by (auto simp: same_key_def caseless_equal_def fun_eq_iff)

lemma caseless_equal_iff: "caseless_equal a b \<longleftrightarrow> map lower_code a = map lower_code b"
  by (auto simp: caseless_equal_def caseless_less_def)

interpretation caseless: std_map_order caseless_less
  by unfold_locales (auto simp: caseless_less_def)

section \<open>Edges\<close>

datatype direction = NoDirection | DirLeft | DirRight | DirTop | DirBottom

fun direction_value :: "direction \<Rightarrow> nat" where
  "direction_value NoDirection = 0"
| "direction_value DirLeft = 1"
| "direction_value DirRight = 2"
| "direction_value DirTop = 3"
| "direction_value DirBottom = 4"

record cell_edge =
  ce_name :: string
  ce_side :: direction
  ce_first :: real
  ce_second :: real

definition edge_overlaps :: "cell_edge \<Rightarrow> cell_edge \<Rightarrow> bool" where
  "edge_overlaps x y \<longleftrightarrow>
     (if ce_side x \<noteq> ce_side y then False
      else (ce_first x \<ge> ce_first y \<and> ce_first x < ce_second y) \<or>
           (ce_second x > ce_first y \<and> ce_second x \<le> ce_second y) \<or>
           (ce_first y \<ge> ce_first x \<and> ce_first y < ce_second x) \<or>
           (ce_second y > ce_first x \<and> ce_second y \<le> ce_second x))"

definition edge_inside :: "cell_edge \<Rightarrow> real \<Rightarrow> bool" where
  "edge_inside e x \<longleftrightarrow> x \<ge> ce_first e \<and> x < ce_second e"

definition edge_transform :: "(real \<Rightarrow> real) \<Rightarrow> cell_edge \<Rightarrow> real \<Rightarrow> real" where
  "edge_transform rnd e x = rnd (rnd (x - ce_first e) / rnd (ce_second e - ce_first e))"

definition edge_inverse :: "(real \<Rightarrow> real) \<Rightarrow> cell_edge \<Rightarrow> real \<Rightarrow> real" where
  "edge_inverse rnd e x = rnd (rnd (x * rnd (ce_second e - ce_first e)) + ce_first e)"

definition edge_less :: "cell_edge \<Rightarrow> cell_edge \<Rightarrow> bool" where
  "edge_less a b \<longleftrightarrow>
     (if direction_value (ce_side a) < direction_value (ce_side b) then True
      else if direction_value (ce_side a) > direction_value (ce_side b) then False
      else ce_first a < ce_first b)"

definition edge_equal :: "cell_edge \<Rightarrow> cell_edge \<Rightarrow> bool" where
  "edge_equal a b \<longleftrightarrow> ce_side a = ce_side b \<and> ce_first a = ce_first b \<and> ce_second a = ce_second b"

lemma direction_value_inj: "direction_value a = direction_value b \<longleftrightarrow> a = b"
  by (cases a; cases b) auto

interpretation edge: std_map_order edge_less
  by unfold_locales (auto simp: edge_less_def split: if_splits)

interpretation option: std_map_order "(<) :: u32 \<Rightarrow> u32 \<Rightarrow> bool"
  by unfold_locales auto

section \<open>Cells\<close>

type_synonym edge_links = "(cell_edge \<times> cell_edge) list"
type_synonym screen_options = "(u32 \<times> int) list"

record cell =
  cl_links :: edge_links
  cl_options :: screen_options

definition new_cell :: cell where
  "new_cell = \<lparr>cl_links = [], cl_options = []\<rparr>"

definition cell_has_edge :: "cell_edge \<Rightarrow> cell \<Rightarrow> bool" where
  "cell_has_edge e c =
     (case map_entry edge_less e (cl_links c) of None \<Rightarrow> False | Some (k, _) \<Rightarrow> edge_equal k e)"

definition cell_overlaps :: "cell_edge \<Rightarrow> cell \<Rightarrow> bool" where
  "cell_overlaps e c =
     (let before = below edge_less e (cl_links c); after = upper_bound edge_less e (cl_links c)
      in if after \<noteq> [] \<and> edge_overlaps (fst (hd after)) e then True
         else if before \<noteq> [] \<and> edge_overlaps (fst (last before)) e then True
         else False)"

definition cell_add :: "cell_edge \<Rightarrow> cell_edge \<Rightarrow> cell \<Rightarrow> bool \<times> cell" where
  "cell_add src dst c =
     (if \<not> cell_has_edge src c \<and> cell_overlaps src c then (False, c)
      else (True, c\<lparr>cl_links := map_insert edge_less src dst (map_erase edge_less src (cl_links c))\<rparr>))"

definition cell_remove_side :: "direction \<Rightarrow> cell \<Rightarrow> cell" where
  "cell_remove_side side c = c\<lparr>cl_links := filter (\<lambda>l. ce_side (fst l) \<noteq> side) (cl_links c)\<rparr>"

fun drop_first :: "('a \<Rightarrow> bool) \<Rightarrow> 'a list \<Rightarrow> 'a list" where
  "drop_first P [] = []"
| "drop_first P (x # xs) = (if P x then xs else x # drop_first P xs)"

definition cell_remove_at :: "direction \<Rightarrow> real \<Rightarrow> cell \<Rightarrow> cell" where
  "cell_remove_at side position c =
     c\<lparr>cl_links := drop_first (\<lambda>l. ce_side (fst l) = side \<and> edge_inside (fst l) position) (cl_links c)\<rparr>"

definition cell_remove_name :: "(string \<Rightarrow> bool) \<Rightarrow> cell \<Rightarrow> cell" where
  "cell_remove_name is_name c = c\<lparr>cl_links := filter (\<lambda>l. \<not> is_name (ce_name (snd l))) (cl_links c)\<rparr>"

definition cell_rename :: "(string \<Rightarrow> bool) \<Rightarrow> string \<Rightarrow> cell \<Rightarrow> cell" where
  "cell_rename is_name new_name c =
     c\<lparr>cl_links := map (\<lambda>(s, d). (s, if is_name (ce_name d) then d\<lparr>ce_name := new_name\<rparr> else d)) (cl_links c)\<rparr>"

definition cell_get_link :: "direction \<Rightarrow> real \<Rightarrow> cell \<Rightarrow> (cell_edge \<times> cell_edge) option" where
  "cell_get_link side position c =
     (let before = below edge_less \<lparr>ce_name = [], ce_side = side, ce_first = position, ce_second = position\<rparr> (cl_links c)
      in if before = [] then None
         else let l = last before in
           if ce_side (fst l) = side \<and> edge_inside (fst l) position then Some l else None)"

section \<open>The configuration\<close>

record config =
  cf_screens :: "(string \<times> cell) list"
  cf_names :: "(string \<times> string) list"
  cf_globals :: screen_options

definition new_config :: config where
  "new_config = \<lparr>cf_screens = [], cf_names = [], cf_globals = []\<rparr>"

definition canonical_name :: "config \<Rightarrow> string \<Rightarrow> string" where
  "canonical_name c name = (case map_find caseless_less name (cf_names c) of None \<Rightarrow> [] | Some n \<Rightarrow> n)"

text \<open>\<open>Config::Name\<close> compares a link's name with the name it was made from.\<close>

definition name_matches :: "config \<Rightarrow> string \<Rightarrow> string \<Rightarrow> bool" where
  "name_matches c target name \<longleftrightarrow> caseless_equal (canonical_name c name) target"

definition is_screen :: "config \<Rightarrow> string \<Rightarrow> bool" where
  "is_screen c name = map_contains caseless_less name (cf_names c)"

definition is_canonical_name :: "config \<Rightarrow> string \<Rightarrow> bool" where
  "is_canonical_name c name \<longleftrightarrow> name \<noteq> [] \<and> caseless_equal (canonical_name c name) name"

definition add_screen :: "string \<Rightarrow> config \<Rightarrow> bool \<times> config" where
  "add_screen name c =
     (if map_contains caseless_less name (cf_names c) then (False, c)
      else (True, c\<lparr>cf_screens := map_insert caseless_less name new_cell (cf_screens c),
                    cf_names := map_insert caseless_less name name (cf_names c)\<rparr>))"

definition rename_screen :: "string \<Rightarrow> string \<Rightarrow> config \<Rightarrow> bool \<times> config" where
  "rename_screen old_name new_name c =
     (let old_canonical = canonical_name c old_name in
      case map_find caseless_less old_canonical (cf_screens c) of
        None \<Rightarrow> (False, c)
      | Some tmp \<Rightarrow>
          if \<not> caseless_equal old_name new_name \<and> map_contains caseless_less new_name (cf_names c) then (False, c)
          else
            let c1 = c\<lparr>cf_screens := map_insert caseless_less new_name tmp
                         (map_erase caseless_less old_canonical (cf_screens c)),
                       cf_names := map_insert caseless_less new_name new_name
                         (map_erase caseless_less old_canonical (cf_names c))\<rparr>;
                target = canonical_name c1 old_name;
                c2 = c1\<lparr>cf_screens := map (\<lambda>(k, v). (k, cell_rename (name_matches c1 target) new_name v)) (cf_screens c1)\<rparr>;
                c3 = (if caseless_equal old_name old_canonical
                      then c2\<lparr>cf_names := map (\<lambda>(k, v). (k, if caseless_equal v old_canonical then new_name else v))
                             (cf_names c2)\<rparr>
                      else c2)
            in (True, c3))"

definition remove_screen :: "string \<Rightarrow> config \<Rightarrow> config" where
  "remove_screen name c =
     (let canonical = canonical_name c name in
      if \<not> map_contains caseless_less canonical (cf_screens c) then c
      else
        let c1 = c\<lparr>cf_screens := map_erase caseless_less canonical (cf_screens c)\<rparr>;
            target = canonical_name c1 name;
            c2 = c1\<lparr>cf_screens := map (\<lambda>(k, v). (k, cell_remove_name (name_matches c1 target) v)) (cf_screens c1)\<rparr>
        in c2\<lparr>cf_names := filter (\<lambda>e. snd e \<noteq> canonical) (cf_names c2)\<rparr>)"

definition remove_all_screens :: "config \<Rightarrow> config" where
  "remove_all_screens c = c\<lparr>cf_screens := [], cf_names := []\<rparr>"

definition add_alias :: "string \<Rightarrow> string \<Rightarrow> config \<Rightarrow> bool \<times> config" where
  "add_alias canonical al c =
     (if map_contains caseless_less al (cf_names c) then (False, c)
      else if \<not> map_contains caseless_less canonical (cf_screens c) then (False, c)
      else (True, c\<lparr>cf_names := map_insert caseless_less al canonical (cf_names c)\<rparr>))"

definition remove_alias :: "string \<Rightarrow> config \<Rightarrow> bool \<times> config" where
  "remove_alias al c =
     (if map_contains caseless_less al (cf_screens c) then (False, c)
      else if \<not> map_contains caseless_less al (cf_names c) then (False, c)
      else (True, c\<lparr>cf_names := map_erase caseless_less al (cf_names c)\<rparr>))"

definition remove_aliases :: "string \<Rightarrow> config \<Rightarrow> bool \<times> config" where
  "remove_aliases canonical c =
     (if \<not> map_contains caseless_less canonical (cf_screens c) then (False, c)
      else (True, c\<lparr>cf_names := filter (\<lambda>e. \<not> (snd e = canonical \<and> fst e \<noteq> canonical)) (cf_names c)\<rparr>))"

definition remove_all_aliases :: "config \<Rightarrow> config" where
  "remove_all_aliases c =
     c\<lparr>cf_names := fold (\<lambda>e. map_insert caseless_less (fst e) (fst e)) (cf_screens c) []\<rparr>"

definition interval_ok :: "real \<Rightarrow> real \<Rightarrow> bool" where
  "interval_ok first second \<longleftrightarrow> first \<ge> 0 \<and> second \<le> 1 \<and> first < second"

definition connect_screens ::
  "string \<Rightarrow> direction \<Rightarrow> real \<Rightarrow> real \<Rightarrow> string \<Rightarrow> real \<Rightarrow> real \<Rightarrow> config \<Rightarrow> (bool \<times> config) option" where
  "connect_screens src side src_start src_end dst dst_start dst_end c =
     (if side = NoDirection then None
      else let canonical = canonical_name c src in
        case map_find caseless_less canonical (cf_screens c) of
          None \<Rightarrow> Some (False, c)
        | Some cell \<Rightarrow>
            if \<not> interval_ok src_start src_end \<or> \<not> interval_ok dst_start dst_end then None
            else
              case cell_add \<lparr>ce_name = [], ce_side = side, ce_first = src_start, ce_second = src_end\<rparr>
                     \<lparr>ce_name = dst, ce_side = side, ce_first = dst_start, ce_second = dst_end\<rparr> cell of
                (ok, cell1) \<Rightarrow>
                  Some (ok, c\<lparr>cf_screens := map_update caseless_less canonical (\<lambda>_. cell1) (cf_screens c)\<rparr>))"

definition on_cell :: "string \<Rightarrow> (cell \<Rightarrow> cell) \<Rightarrow> config \<Rightarrow> bool \<times> config" where
  "on_cell name f c =
     (if map_contains caseless_less name (cf_screens c)
      then (True, c\<lparr>cf_screens := map_update caseless_less name f (cf_screens c)\<rparr>)
      else (False, c))"

definition disconnect_side :: "string \<Rightarrow> direction \<Rightarrow> config \<Rightarrow> bool \<times> config" where
  "disconnect_side src side c = on_cell src (cell_remove_side side) c"

definition disconnect_at :: "string \<Rightarrow> direction \<Rightarrow> real \<Rightarrow> config \<Rightarrow> bool \<times> config" where
  "disconnect_at src side position c = on_cell src (cell_remove_at side position) c"

definition on_options :: "string \<Rightarrow> (screen_options \<Rightarrow> screen_options) \<Rightarrow> config \<Rightarrow> bool \<times> config" where
  "on_options name f c =
     (if name = [] then (True, c\<lparr>cf_globals := f (cf_globals c)\<rparr>)
      else on_cell name (\<lambda>cell. cell\<lparr>cl_options := f (cl_options cell)\<rparr>) c)"

definition add_option :: "string \<Rightarrow> u32 \<Rightarrow> int \<Rightarrow> config \<Rightarrow> bool \<times> config" where
  "add_option name option_id v c = on_options name (map_insert (<) option_id v) c"

definition remove_option :: "string \<Rightarrow> u32 \<Rightarrow> config \<Rightarrow> bool \<times> config" where
  "remove_option name option_id c = on_options name (map_erase (<) option_id) c"

definition remove_options :: "string \<Rightarrow> config \<Rightarrow> bool \<times> config" where
  "remove_options name c = on_options name (\<lambda>_. []) c"

definition get_options :: "config \<Rightarrow> string \<Rightarrow> screen_options option" where
  "get_options c name =
     (if name = [] then Some (cf_globals c)
      else map_option cl_options (map_find caseless_less name (cf_screens c)))"

definition get_neighbor ::
  "(real \<Rightarrow> real) \<Rightarrow> config \<Rightarrow> string \<Rightarrow> direction \<Rightarrow> real \<Rightarrow> string \<times> real option" where
  "get_neighbor rnd c src side position =
     (case map_find caseless_less (canonical_name c src) (cf_screens c) of
        None \<Rightarrow> ([], None)
      | Some cell \<Rightarrow>
          (case cell_get_link side position cell of
             None \<Rightarrow> ([], None)
           | Some (s, d) \<Rightarrow>
               (canonical_name c (ce_name d), Some (edge_inverse rnd d (edge_transform rnd s position)))))"

definition has_neighbor :: "config \<Rightarrow> string \<Rightarrow> direction \<Rightarrow> real \<Rightarrow> real \<Rightarrow> bool" where
  "has_neighbor c src side start stop =
     (case map_find caseless_less (canonical_name c src) (cf_screens c) of
        None \<Rightarrow> False
      | Some cell \<Rightarrow>
          cell_overlaps \<lparr>ce_name = [], ce_side = side, ce_first = start, ce_second = stop\<rparr> cell)"

section \<open>Screen names\<close>

text \<open>The first dot from a position on, or the end; and the loop over the parts, from part \<open>b\<close> on.\<close>

definition find_dot :: "string \<Rightarrow> nat \<Rightarrow> nat" where
  "find_dot name b = b + length (takeWhile (\<lambda>c. c \<noteq> CHR ''.'') (drop b name))"

definition name_char :: "char \<Rightarrow> bool" where
  "name_char c =
     (let n = of_char c :: nat in (48 \<le> n \<and> n \<le> 57) \<or> (65 \<le> n \<and> n \<le> 90) \<or> (97 \<le> n \<and> n \<le> 122))"

function valid_parts :: "string \<Rightarrow> nat \<Rightarrow> bool" where
  "valid_parts name b =
     (if b \<noteq> length name then True
      else let e = find_dot name b in
        if e - b < 1 then False
        else if \<not> (name_char (name ! b) \<or> name ! b = CHR ''_'') \<or>
                \<not> (name_char (name ! (e - 1)) \<or> name ! (e - 1) = CHR ''_'') then False
        else if \<exists>i \<in> set [b..<e]. \<not> name_char (name ! i) \<and> name ! i \<noteq> CHR ''_'' \<and> name ! i \<noteq> CHR ''-'' then False
        else if e = length name then True
        else valid_parts name (e + 1))"
  by pat_completeness auto
termination
  by (relation "measure (\<lambda>(name, b). if b = length name then 1 else 0)") (auto simp: find_dot_def)

declare valid_parts.simps [simp del]

definition is_valid_screen_name :: "string \<Rightarrow> bool" where
  "is_valid_screen_name name = (if name = [] then False else valid_parts name 0)"

text \<open>The loop condition is false at the start: every name that is not empty is accepted.\<close>

lemma every_name_valid: "is_valid_screen_name name \<longleftrightarrow> name \<noteq> []"
  by (simp add: is_valid_screen_name_def valid_parts.simps)

section \<open>Links that do not overlap\<close>

definition edge_ok :: "cell_edge \<Rightarrow> bool" where
  "edge_ok e \<longleftrightarrow> ce_side e \<noteq> NoDirection \<and> interval_ok (ce_first e) (ce_second e)"

definition links_ok :: "edge_links \<Rightarrow> bool" where
  "links_ok ls \<longleftrightarrow>
     map_sorted edge_less ls \<and> (\<forall>l \<in> set ls. edge_ok (fst l) \<and> edge_ok (snd l)) \<and>
     (\<forall>l \<in> set ls. \<forall>m \<in> set ls. edge_overlaps (fst l) (fst m) \<longrightarrow> l = m)"

lemma edge_overlaps_iff:
  "edge_ok a \<Longrightarrow> edge_ok b \<Longrightarrow>
   edge_overlaps a b \<longleftrightarrow> ce_side a = ce_side b \<and> ce_first a < ce_second b \<and> ce_first b < ce_second a"
  by (auto simp: edge_overlaps_def edge_ok_def interval_ok_def)

lemma edge_overlaps_sym: "edge_ok a \<Longrightarrow> edge_ok b \<Longrightarrow> edge_overlaps a b = edge_overlaps b a"
  by (auto simp: edge_overlaps_iff)

lemma edge_less_iff:
  "edge_less a b \<longleftrightarrow> direction_value (ce_side a) < direction_value (ce_side b) \<or>
     (ce_side a = ce_side b \<and> ce_first a < ce_first b)"
  by (auto simp: edge_less_def direction_value_inj [symmetric])

lemma edge_same_overlaps: "edge_ok a \<Longrightarrow> edge_ok b \<Longrightarrow> same_key edge_less a b \<Longrightarrow> edge_overlaps a b"
  by (auto simp: edge_overlaps_iff same_key_def edge_less_iff direction_value_inj [symmetric]
      edge_ok_def interval_ok_def)

text \<open>An interval that starts below another one and reaches past it covers the starts in between.\<close>

lemma edge_between_left:
  assumes "edge_ok a" "edge_ok b" "edge_less a b" "\<not> edge_less e b"
    and "ce_side a = ce_side e" "ce_first e < ce_second a"
  shows "edge_overlaps a b"
proof -
  have side: "ce_side b = ce_side a" using assms(3-5) unfolding edge_less_iff direction_value_inj [symmetric] by linarith
  then have "ce_first a < ce_first b" "ce_first b \<le> ce_first e" using assms(3-5) by (auto simp: edge_less_iff)
  then show ?thesis using assms(1,2,6) side by (simp add: edge_overlaps_iff edge_ok_def interval_ok_def)
qed

lemma edge_between_right:
  assumes "edge_ok a" "edge_ok b" "edge_ok e" "edge_less e b" "edge_less b a"
    and "ce_side a = ce_side e" "ce_first a < ce_second e"
  shows "edge_overlaps b e"
proof -
  have side: "ce_side b = ce_side e" using assms(4-6) unfolding edge_less_iff direction_value_inj [symmetric] by linarith
  then have "ce_first e < ce_first b" "ce_first b < ce_first a" using assms(4-6) by (auto simp: edge_less_iff)
  then show ?thesis using assms(1-3,7) side by (simp add: edge_overlaps_iff edge_ok_def interval_ok_def)
qed

lemma last_or_before: "x \<in> set xs \<Longrightarrow> x = last xs \<or> x \<in> set (butlast xs)"
  by (induction xs) auto

text \<open>Looking at the two neighbours finds every overlap.\<close>

lemma cell_overlaps_exact:
  assumes ok: "links_ok (cl_links c)" and e: "edge_ok e"
  shows "cell_overlaps e c \<longleftrightarrow> (\<exists>l \<in> set (cl_links c). edge_overlaps (fst l) e)"
proof
  let ?ls = "cl_links c" and ?before = "below edge_less e (cl_links c)" and ?after = "upper_bound edge_less e (cl_links c)"
  have ls: "set ?ls = set ?before \<union> set ?after" using below_upper [of edge_less e ?ls] by (metis set_append)
  {
    assume "cell_overlaps e c"
    then consider "?after \<noteq> []" "edge_overlaps (fst (hd ?after)) e" | "?before \<noteq> []" "edge_overlaps (fst (last ?before)) e"
      unfolding cell_overlaps_def Let_def by (simp split: if_splits)
    then show "\<exists>l \<in> set ?ls. edge_overlaps (fst l) e" using ls by cases (metis UnCI hd_in_set last_in_set)+
  next
    assume "\<exists>l \<in> set ?ls. edge_overlaps (fst l) e"
    then obtain l where l: "l \<in> set ?ls" "edge_overlaps (fst l) e" by blast
    have sorted: "map_sorted edge_less ?ls" and oks: "\<And>m. m \<in> set ?ls \<Longrightarrow> edge_ok (fst m)"
      and disj: "\<And>m. m \<in> set ?ls \<Longrightarrow> edge_overlaps (fst l) (fst m) \<Longrightarrow> l = m"
      using ok l(1) unfolding links_ok_def by blast+
    have le: "ce_side (fst l) = ce_side e" "ce_first (fst l) < ce_second e" "ce_first e < ce_second (fst l)"
      using l(2) edge_overlaps_iff [OF oks [OF l(1)] e] by blast+
    consider "l \<in> set ?before" | "l \<in> set ?after" using l(1) ls by blast
    then show "cell_overlaps e c"
    proof cases
      case 1
      then have ne: "?before \<noteq> []" by auto
      have m: "last ?before \<in> set ?ls" "\<not> edge_less e (fst (last ?before))"
        using ne ls edge.below_le [of "last ?before" e ?ls] by auto
      have "l = last ?before"
        using last_or_before [OF 1] edge.below_last [OF sorted ne]
          edge_between_left [OF oks [OF l(1)] oks [OF m(1)] _ m(2) le(1,3)] disj [OF m(1)] by blast
      then show ?thesis using ne l(2) by (simp add: cell_overlaps_def)
    next
      case 2
      then obtain h t where h: "?after = h # t" by (cases ?after) auto
      have hm: "h \<in> set ?ls" "edge_less e (fst h)"
        using ls h edge.upper_greater [OF sorted, of h e] by auto
      have "l = h \<or> l \<in> set t" using 2 h by simp
      then have "l = h \<or> edge_less (fst h) (fst l)" using edge.upper_first [OF sorted h] by blast
      then have "edge_overlaps (fst h) e"
        using l(2) edge_between_right [OF oks [OF l(1)] oks [OF hm(1)] e hm(2) _ le(1,2)] by blast
      then show ?thesis using h by (simp add: cell_overlaps_def)
    qed
  }
qed

lemma cell_get_link_exact:
  assumes ok: "links_ok (cl_links c)" and side: "side \<noteq> NoDirection"
  shows "cell_get_link side position c = Some l \<longleftrightarrow>
    l \<in> set (cl_links c) \<and> ce_side (fst l) = side \<and> edge_inside (fst l) position"
proof
  let ?e = "\<lparr>ce_name = [], ce_side = side, ce_first = position, ce_second = position\<rparr>"
  let ?ls = "cl_links c" and ?before = "below edge_less ?e (cl_links c)"
  have ls: "set ?ls = set ?before \<union> set (upper_bound edge_less ?e ?ls)"
    using below_upper [of edge_less ?e ?ls] by (metis set_append)
  {
    assume "cell_get_link side position c = Some l"
    then have "?before \<noteq> []" "l = last ?before" "ce_side (fst l) = side" "edge_inside (fst l) position"
      unfolding cell_get_link_def Let_def by (simp_all split: if_splits)
    then show "l \<in> set ?ls \<and> ce_side (fst l) = side \<and> edge_inside (fst l) position"
      using ls last_in_set by blast
  next
    assume l: "l \<in> set ?ls \<and> ce_side (fst l) = side \<and> edge_inside (fst l) position"
    then have lm: "l \<in> set ?ls" by blast
    have sorted: "map_sorted edge_less ?ls" and oks: "\<And>m. m \<in> set ?ls \<Longrightarrow> edge_ok (fst m)"
      and disj: "\<And>m. m \<in> set ?ls \<Longrightarrow> edge_overlaps (fst l) (fst m) \<Longrightarrow> l = m"
      using ok l unfolding links_ok_def by blast+
    have le: "ce_side (fst l) = ce_side ?e" "ce_first ?e < ce_second (fst l)" using l by (auto simp: edge_inside_def)
    have "\<not> edge_less ?e (fst l)" using l by (auto simp: edge_less_iff edge_inside_def)
    then have before: "l \<in> set ?before" using ls lm edge.upper_greater [OF sorted, of l ?e] by blast
    then have ne: "?before \<noteq> []" by auto
    have m: "last ?before \<in> set ?ls" "\<not> edge_less ?e (fst (last ?before))"
      using ne ls edge.below_le [of "last ?before" ?e ?ls] by auto
    have "l = last ?before"
      using last_or_before [OF before] edge.below_last [OF sorted ne]
        edge_between_left [OF oks [OF lm] oks [OF m(1)] _ m(2) le] disj [OF m(1)] by blast
    then show "cell_get_link side position c = Some l"
      using ne l by (simp add: cell_get_link_def Let_def)
  }
qed

section \<open>Runs of the configuration\<close>

text \<open>The calls that change a configuration; a failed \<open>assert\<close> leaves it as it is.\<close>

datatype config_call =
  AddScreen string
| RenameScreen string string
| RemoveScreen string
| RemoveAllScreens
| AddAlias string string
| RemoveAlias string
| RemoveAliases string
| RemoveAllAliases
| ConnectScreens string direction real real string real real
| DisconnectSide string direction
| DisconnectAt string direction real
| AddOption string u32 int
| RemoveOption string u32
| RemoveOptions string

fun config_step :: "config \<Rightarrow> config_call \<Rightarrow> config" where
  "config_step c (AddScreen n) = snd (add_screen n c)"
| "config_step c (RenameScreen a b) = snd (rename_screen a b c)"
| "config_step c (RemoveScreen n) = remove_screen n c"
| "config_step c RemoveAllScreens = remove_all_screens c"
| "config_step c (AddAlias n a) = snd (add_alias n a c)"
| "config_step c (RemoveAlias a) = snd (remove_alias a c)"
| "config_step c (RemoveAliases n) = snd (remove_aliases n c)"
| "config_step c RemoveAllAliases = remove_all_aliases c"
| "config_step c (ConnectScreens s d ss se t ts te) =
     (case connect_screens s d ss se t ts te c of None \<Rightarrow> c | Some r \<Rightarrow> snd r)"
| "config_step c (DisconnectSide n d) = snd (disconnect_side n d c)"
| "config_step c (DisconnectAt n d x) = snd (disconnect_at n d x c)"
| "config_step c (AddOption n i v) = snd (add_option n i v c)"
| "config_step c (RemoveOption n i) = snd (remove_option n i c)"
| "config_step c (RemoveOptions n) = snd (remove_options n c)"

definition cell_ok :: "cell \<Rightarrow> bool" where
  "cell_ok cell \<longleftrightarrow> links_ok (cl_links cell) \<and> map_sorted (<) (cl_options cell)"

definition cells_ok :: "(string \<times> cell) list \<Rightarrow> bool" where
  "cells_ok es \<longleftrightarrow> (\<forall>(n, cell) \<in> set es. cell_ok cell)"

definition config_ok :: "config \<Rightarrow> bool" where
  "config_ok c \<longleftrightarrow>
     map_sorted caseless_less (cf_screens c) \<and> map_sorted caseless_less (cf_names c) \<and>
     map_sorted (<) (cf_globals c) \<and> cells_ok (cf_screens c)"

lemma links_ok_sub: "links_ok ls \<Longrightarrow> map_sorted edge_less ms \<Longrightarrow> set ms \<subseteq> set ls \<Longrightarrow> links_ok ms"
  unfolding links_ok_def by blast

lemma links_ok_filter: "links_ok ls \<Longrightarrow> links_ok (filter P ls)"
  by (rule links_ok_sub) (auto simp: links_ok_def map_sorted_filter)

lemma drop_first_set: "set (drop_first P xs) \<subseteq> set xs"
  by (induction xs) auto

lemma drop_first_sorted: "map_sorted lt xs \<Longrightarrow> map_sorted lt (drop_first P xs)"
  using drop_first_set by (induction xs) (fastforce simp: map_sorted_def)+

lemma links_ok_rename:
  assumes "links_ok ls" and f: "\<And>d. edge_ok d \<Longrightarrow> edge_ok (f d)"
  shows "links_ok (map (\<lambda>(s, d). (s, f d)) ls)"
proof -
  have "map_sorted edge_less (map (\<lambda>(s, d). (s, f d)) ls) = map_sorted edge_less ls"
    by (rule map_sorted_values) (simp add: case_prod_beta)
  then show ?thesis using assms unfolding links_ok_def by fastforce
qed

text \<open>A link added beside links it does not overlap, or in place of the one with the same interval.\<close>

lemma links_ok_insert:
  assumes ls: "links_ok ls" and e: "edge_ok e" and d: "edge_ok d"
    and free: "\<And>l. l \<in> set ls \<Longrightarrow> \<not> edge_overlaps (fst l) e"
  shows "links_ok (map_insert edge_less e d ls)"
proof -
  have "map_sorted edge_less (map_insert edge_less e d ls)"
    using ls by (simp add: links_ok_def edge.insert_sorted)
  moreover have "edge_overlaps (fst l) (fst m) \<longrightarrow> l = m"
    if lm: "l \<in> insert (e, d) (set ls)" "m \<in> insert (e, d) (set ls)" for l m
  proof -
    consider "l = (e, d)" "m = (e, d)" | "l = (e, d)" "m \<in> set ls" | "l \<in> set ls" "m = (e, d)" | "l \<in> set ls" "m \<in> set ls"
      using lm by blast
    then show ?thesis
    proof cases
      case 2
      then have "edge_ok (fst m)" using ls unfolding links_ok_def by blast
      then have "edge_overlaps e (fst m) = edge_overlaps (fst m) e" using e edge_overlaps_sym by blast
      then show ?thesis using free 2 by simp
    next
      case 3
      then show ?thesis using free by simp
    next
      case 4
      then show ?thesis using ls unfolding links_ok_def by blast
    qed simp
  qed
  moreover have "edge_ok (fst l) \<and> edge_ok (snd l)" if "l \<in> insert (e, d) (set ls)" for l
    using that e d ls unfolding links_ok_def by auto
  moreover have "set (map_insert edge_less e d ls) \<subseteq> insert (e, d) (set ls)" by (rule set_map_insert)
  ultimately show ?thesis unfolding links_ok_def by (meson subsetD)
qed

lemma cell_add_ok:
  assumes ok: "links_ok (cl_links c)" and e: "edge_ok e" and d: "edge_ok d"
  shows "links_ok (cl_links (snd (cell_add e d c)))"
proof (cases "\<not> cell_has_edge e c \<and> cell_overlaps e c")
  case False
  let ?rest = "map_erase edge_less e (cl_links c)"
  have sub: "set ?rest \<subseteq> set (cl_links c)" by (auto simp: map_erase_def)
  then have rest: "links_ok ?rest" using ok by (auto simp: map_erase_def links_ok_filter)
  have free: "\<not> edge_overlaps (fst l) e" if "l \<in> set ?rest" for l
  proof
    assume over: "edge_overlaps (fst l) e"
    have l: "l \<in> set (cl_links c)" "\<not> same_key edge_less e (fst l)" using that by (auto simp: map_erase_def)
    then have "cell_overlaps e c" using cell_overlaps_exact [OF ok e] over by blast
    then have "cell_has_edge e c" using False by blast
    then obtain k v where k: "map_entry edge_less e (cl_links c) = Some (k, v)" "edge_equal k e"
      unfolding cell_has_edge_def by (auto split: option.splits)
    then have kv: "(k, v) \<in> set (cl_links c)" "same_key edge_less e k" using map_entry_mem by fastforce+
    have "edge_overlaps (fst l) k" using over k(2) by (auto simp: edge_overlaps_def edge_equal_def split: if_splits)
    then have "l = (k, v)" using ok l(1) kv(1) unfolding links_ok_def by fastforce
    then show False using l(2) kv(2) by simp
  qed
  show ?thesis using links_ok_insert [OF rest e d free] False by (simp add: cell_add_def del: de_Morgan_conj)
qed (use ok in \<open>simp add: cell_add_def\<close>)

lemma cell_ok_new: "cell_ok new_cell"
  by (simp add: cell_ok_def new_cell_def links_ok_def map_sorted_def)

lemma cell_ok_remove_name: "cell_ok c \<Longrightarrow> cell_ok (cell_remove_name P c)"
  by (simp add: cell_ok_def cell_remove_name_def links_ok_filter)

lemma cell_ok_remove_side: "cell_ok c \<Longrightarrow> cell_ok (cell_remove_side d c)"
  by (simp add: cell_ok_def cell_remove_side_def links_ok_filter)

lemma cell_ok_remove_at: "cell_ok c \<Longrightarrow> cell_ok (cell_remove_at d x c)"
proof -
  assume c: "cell_ok c"
  then have "links_ok (drop_first P (cl_links c))" for P
    using links_ok_sub [of "cl_links c", OF _ drop_first_sorted drop_first_set] by (auto simp: cell_ok_def links_ok_def)
  then show ?thesis using c by (simp add: cell_ok_def cell_remove_at_def)
qed

lemma cell_ok_rename: "cell_ok c \<Longrightarrow> cell_ok (cell_rename P n c)"
  unfolding cell_ok_def cell_rename_def
  using links_ok_rename [of "cl_links c" "\<lambda>d. if P (ce_name d) then d\<lparr>ce_name := n\<rparr> else d"]
  by (simp add: edge_ok_def)

lemmas cell_ok_intros = cell_ok_new cell_ok_remove_name cell_ok_remove_side cell_ok_remove_at cell_ok_rename

lemma cells_ok_map: "cells_ok es \<Longrightarrow> (\<And>v. cell_ok v \<Longrightarrow> cell_ok (f v)) \<Longrightarrow> cells_ok (map (\<lambda>(k, v). (k, f v)) es)"
  by (auto simp: cells_ok_def)

lemma cells_ok_insert: "cells_ok es \<Longrightarrow> cell_ok v \<Longrightarrow> cells_ok (map_insert caseless_less k v es)"
  using set_map_insert [of caseless_less k v es] by (auto simp: cells_ok_def)

lemma cells_ok_erase: "cells_ok es \<Longrightarrow> cells_ok (map_erase caseless_less k es)"
  by (auto simp: cells_ok_def map_erase_def)

lemma cells_ok_update:
  "cells_ok es \<Longrightarrow> (\<And>v. cell_ok v \<Longrightarrow> cell_ok (f v)) \<Longrightarrow> cells_ok (map_update caseless_less n f es)"
  by (auto simp: cells_ok_def map_update_def)

lemma map_keys_sorted: "map_sorted lt (map (\<lambda>(k, v). (k, f k v)) es) = map_sorted lt es"
  by (rule map_sorted_values) (simp add: case_prod_beta)

lemma cells_ok_nil: "cells_ok []"
  by (simp add: cells_ok_def)

lemma screens_find_ok: "config_ok c \<Longrightarrow> map_find caseless_less n (cf_screens c) = Some cell \<Longrightarrow> cell_ok cell"
  using map_entry_mem by (fastforce simp: config_ok_def cells_ok_def map_find_def)

lemmas config_ok_parts = config_ok_def map_sorted_filter map_keys_sorted caseless.insert_sorted
  caseless.erase_sorted caseless.update_sorted cells_ok_insert cells_ok_erase

lemma add_screen_ok: "config_ok c \<Longrightarrow> config_ok (snd (add_screen n c))"
  by (simp add: add_screen_def config_ok_parts cell_ok_new)

lemma rename_screen_ok:
  assumes ok: "config_ok c"
  shows "config_ok (snd (rename_screen a b c))"
proof (cases "map_find caseless_less (canonical_name c a) (cf_screens c)")
  case (Some cell)
  then show ?thesis
    using ok screens_find_ok [OF ok Some]
    by (simp add: rename_screen_def Let_def config_ok_parts cells_ok_map cell_ok_rename)
qed (use ok in \<open>simp add: rename_screen_def Let_def\<close>)

lemma remove_screen_ok: "config_ok c \<Longrightarrow> config_ok (remove_screen n c)"
  by (simp add: remove_screen_def Let_def config_ok_parts cells_ok_map cell_ok_remove_name)

lemma update_screen_ok:
  "config_ok c \<Longrightarrow> (\<And>cell. cell_ok cell \<Longrightarrow> cell_ok (f cell)) \<Longrightarrow>
   config_ok (c\<lparr>cf_screens := map_update caseless_less n f (cf_screens c)\<rparr>)"
  by (simp add: config_ok_parts cells_ok_update)

lemma on_cell_ok:
  "config_ok c \<Longrightarrow> (\<And>cell. cell_ok cell \<Longrightarrow> cell_ok (f cell)) \<Longrightarrow> config_ok (snd (on_cell n f c))"
  by (simp add: on_cell_def update_screen_ok)

lemma on_options_ok:
  assumes ok: "config_ok c" and f: "\<And>os. map_sorted (<) os \<Longrightarrow> map_sorted (<) (f os)"
  shows "config_ok (snd (on_options n f c))"
proof (cases "n = []")
  case True
  then show ?thesis using assms by (simp add: on_options_def config_ok_def)
next
  case False
  moreover have "config_ok (snd (on_cell n (\<lambda>cell. cell\<lparr>cl_options := f (cl_options cell)\<rparr>) c))"
    by (rule on_cell_ok [OF ok]) (simp add: cell_ok_def f)
  ultimately show ?thesis by (simp add: on_options_def)
qed

lemma aliases_sorted:
  "map_sorted caseless_less ns \<Longrightarrow>
   map_sorted caseless_less (fold (\<lambda>e. map_insert caseless_less (fst e) (fst e)) es ns)"
  by (induction es arbitrary: ns) (auto simp: caseless.insert_sorted)

lemma connect_ok:
  assumes ok: "config_ok c" and call: "connect_screens s d ss se t ts te c = Some r"
  shows "config_ok (snd r)"
proof (cases "map_find caseless_less (canonical_name c s) (cf_screens c)")
  case (Some cell)
  let ?e = "\<lparr>ce_name = [], ce_side = d, ce_first = ss, ce_second = se\<rparr>"
  let ?d = "\<lparr>ce_name = t, ce_side = d, ce_first = ts, ce_second = te\<rparr>"
  have iv: "d \<noteq> NoDirection" "interval_ok ss se" "interval_ok ts te"
    and r: "snd r = c\<lparr>cf_screens := map_update caseless_less (canonical_name c s)
              (\<lambda>_. snd (cell_add ?e ?d cell)) (cf_screens c)\<rparr>"
    using call Some by (auto simp: connect_screens_def Let_def split: if_splits prod.splits)
  have "cell_ok (snd (cell_add ?e ?d cell))"
    using cell_add_ok [of cell ?e ?d] screens_find_ok [OF ok Some] iv
    by (simp add: cell_ok_def edge_ok_def) (simp add: cell_add_def)
  then show ?thesis unfolding r by (intro update_screen_ok [OF ok])
qed (use ok call in \<open>auto simp: connect_screens_def Let_def split: if_splits\<close>)

lemma options_sorted_nil: "map_sorted lt []"
  by (simp add: map_sorted_def)

lemma name_calls_ok:
  assumes "config_ok c"
  shows "config_ok (remove_all_screens c)" "config_ok (snd (add_alias n a c))" "config_ok (snd (remove_alias a c))"
    "config_ok (snd (remove_aliases n c))" "config_ok (remove_all_aliases c)"
  using assms
  by (simp_all add: remove_all_screens_def add_alias_def remove_alias_def remove_aliases_def remove_all_aliases_def
      config_ok_parts aliases_sorted options_sorted_nil cells_ok_nil)

lemma screen_calls_ok:
  assumes "config_ok c"
  shows "config_ok (snd (disconnect_side n d c))" "config_ok (snd (disconnect_at n d x c))"
    "config_ok (snd (add_option n i v c))" "config_ok (snd (remove_option n i c))" "config_ok (snd (remove_options n c))"
  unfolding disconnect_side_def disconnect_at_def add_option_def remove_option_def remove_options_def
  using assms by (auto intro!: on_cell_ok on_options_ok cell_ok_intros
      option.insert_sorted option.erase_sorted options_sorted_nil)

lemma config_ok_step: "config_ok c \<Longrightarrow> config_ok (config_step c call)"
  by (cases call) (auto simp: add_screen_ok rename_screen_ok remove_screen_ok name_calls_ok screen_calls_ok
      dest: connect_ok split: option.splits)

interpretation config: machine config_step config_ok
  by unfold_locales (rule config_ok_step)

lemma config_ok_new: "config_ok new_config"
  by (simp add: config_ok_def new_config_def map_sorted_def cells_ok_nil)

section \<open>Neighbours\<close>

text \<open>The links of a screen that leave a side at a position.\<close>

definition links_at :: "config \<Rightarrow> string \<Rightarrow> direction \<Rightarrow> real \<Rightarrow> edge_links" where
  "links_at c src side position =
     (case map_find caseless_less (canonical_name c src) (cf_screens c) of
        None \<Rightarrow> []
      | Some cell \<Rightarrow> filter (\<lambda>l. ce_side (fst l) = side \<and> edge_inside (fst l) position) (cl_links cell))"

lemma inside_both_overlap:
  "edge_ok a \<Longrightarrow> edge_ok b \<Longrightarrow> ce_side a = ce_side b \<Longrightarrow> edge_inside a x \<Longrightarrow> edge_inside b x \<Longrightarrow> edge_overlaps a b"
  by (auto simp: edge_overlaps_iff edge_inside_def)

lemma distinct_one: "distinct xs \<Longrightarrow> (\<And>x y. x \<in> set xs \<Longrightarrow> y \<in> set xs \<Longrightarrow> x = y) \<Longrightarrow> length xs \<le> 1"
proof -
  assume d: "distinct xs" and one: "\<And>x y. x \<in> set xs \<Longrightarrow> y \<in> set xs \<Longrightarrow> x = y"
  have "card (set xs) \<le> 1" using one by (metis card.empty card_1_singleton_iff is_singletonI' is_singleton_altdef le_numeral_extra(4) zero_le_one)
  then show ?thesis using d by (simp add: distinct_card)
qed

lemma links_ok_distinct: "links_ok ls \<Longrightarrow> distinct ls"
proof -
  assume "links_ok ls"
  then have "sorted_wrt (\<lambda>a b. edge_less (fst a) (fst b)) ls" by (simp add: links_ok_def map_sorted_def)
  then show "distinct ls" using edge.irrefl by (induction ls) auto
qed

lemma links_at_cases:
  assumes ok: "config_ok c" and side: "side \<noteq> NoDirection"
  shows "links_at c src side position =
    (case map_find caseless_less (canonical_name c src) (cf_screens c) of
       None \<Rightarrow> []
     | Some cell \<Rightarrow> (case cell_get_link side position cell of None \<Rightarrow> [] | Some l \<Rightarrow> [l]))"
proof (cases "map_find caseless_less (canonical_name c src) (cf_screens c)")
  case (Some cell)
  let ?at = "filter (\<lambda>l. ce_side (fst l) = side \<and> edge_inside (fst l) position) (cl_links cell)"
  have links: "links_ok (cl_links cell)" using screens_find_ok [OF ok Some] by (simp add: cell_ok_def)
  have "l = m" if lm: "l \<in> set ?at" "m \<in> set ?at" for l m
  proof -
    have mem: "l \<in> set (cl_links cell)" "m \<in> set (cl_links cell)" using lm by auto
    then have "edge_ok (fst l)" "edge_ok (fst m)" using links unfolding links_ok_def by blast+
    then have "edge_overlaps (fst l) (fst m)" using lm by (intro inside_both_overlap) auto
    then show ?thesis using links mem unfolding links_ok_def by blast
  qed
  then have "length ?at \<le> 1" using links_ok_distinct [OF links] by (intro distinct_one) auto
  then have shape: "?at = [] \<or> (\<exists>l. ?at = [l])" by (cases ?at) auto
  have get: "cell_get_link side position cell = Some l \<longleftrightarrow> l \<in> set ?at" for l
    using cell_get_link_exact [OF links side] by simp
  show ?thesis
  proof (cases "?at = []")
    case True
    then have "cell_get_link side position cell = None" using get by (cases "cell_get_link side position cell") auto
    then show ?thesis using True Some by (simp add: links_at_def)
  next
    case False
    then obtain l where l: "?at = [l]" using shape by blast
    then have "cell_get_link side position cell = Some l" using get by simp
    then show ?thesis using l Some by (simp add: links_at_def)
  qed
qed (simp add: links_at_def)

lemma neighbor_from_links:
  assumes "config_ok c" and "side \<noteq> NoDirection"
  shows "get_neighbor rnd c src side position =
    (case links_at c src side position of
       [] \<Rightarrow> ([], None)
     | l # _ \<Rightarrow> (canonical_name c (ce_name (snd l)),
               Some (edge_inverse rnd (snd l) (edge_transform rnd (fst l) position))))"
  unfolding links_at_cases [OF assms] get_neighbor_def
  by (auto split: option.splits prod.splits)

text \<open>With a monotone rounding that keeps zero, a position is mapped at or after the start of the destination interval.\<close>

lemma transform_lower:
  assumes mono: "\<And>x y. x \<le> y \<Longrightarrow> rnd x \<le> rnd y" and zero: "rnd 0 = 0"
    and ok: "edge_ok s" "edge_ok d" and inside: "edge_inside s position" and exact: "rnd (ce_first d) = ce_first d"
  shows "ce_first d \<le> edge_inverse rnd d (edge_transform rnd s position)"
proof -
  have pos: "0 \<le> rnd x" if "0 \<le> x" for x using mono [OF that] zero by simp
  have "0 \<le> rnd (position - ce_first s)" using inside by (intro pos) (simp add: edge_inside_def)
  moreover have "0 \<le> rnd (ce_second s - ce_first s)" using ok by (intro pos) (simp add: edge_ok_def interval_ok_def)
  ultimately have t: "0 \<le> edge_transform rnd s position" by (simp add: edge_transform_def pos)
  have "0 \<le> rnd (ce_second d - ce_first d)" using ok by (intro pos) (simp add: edge_ok_def interval_ok_def)
  then have "0 \<le> rnd (edge_transform rnd s position * rnd (ce_second d - ce_first d))" using t by (simp add: pos)
  then have "rnd (ce_first d) \<le> edge_inverse rnd d (edge_transform rnd s position)"
    unfolding edge_inverse_def by (intro mono) simp
  then show ?thesis using exact by simp
qed

text \<open>C18. After any sequence of configuration calls the links that leave one side of a screen do not
  overlap, so at most one covers a position; \<open>getNeighbor\<close>, which looks only at the link before the
  position in the map, returns exactly that link's screen, under its canonical name, and no
  neighbour when no link covers the position.\<close>

theorem neighbors_exact:
  assumes "side \<noteq> NoDirection"
  shows "let c = run config_step new_config calls; covering = links_at c src side position in
    length covering \<le> 1 \<and>
    get_neighbor rnd c src side position =
      (case covering of
         [] \<Rightarrow> ([], None)
       | l # _ \<Rightarrow> (canonical_name c (ce_name (snd l)),
                 Some (edge_inverse rnd (snd l) (edge_transform rnd (fst l) position))))"
proof -
  have ok: "config_ok (run config_step new_config calls)" by (rule config.inv_run [OF config_ok_new])
  show ?thesis
    unfolding Let_def neighbor_from_links [OF ok assms]
    by (auto simp: links_at_cases [OF ok assms] split: option.splits)
qed

text \<open>The definitions, to evaluate a configuration.\<close>

lemmas config_evaluation = Let_def add_screen_def new_config_def add_alias_def connect_screens_def map_contains_def map_find_def
  same_key_def caseless_less_def lower_code_def interval_ok_def canonical_name_def cell_add_def cell_has_edge_def
  cell_overlaps_def below_def upper_bound_def new_cell_def map_erase_def map_update_def get_neighbor_def
  cell_get_link_def edge_less_def edge_inside_def edge_inverse_def edge_transform_def edge_overlaps_def

lemma neighbors_exact_witness:
  "let c = run config_step new_config
         [AddScreen ''a'', AddScreen ''b'', AddAlias ''b'' ''c'',
          ConnectScreens ''A'' DirRight 0 1 ''C'' 0 (1 / 2),
          ConnectScreens ''a'' DirRight (1 / 2) 1 ''b'' 0 1]
   in length (links_at c ''A'' DirRight (1 / 2)) \<le> 1 \<and> get_neighbor id c ''A'' DirRight (1 / 2) = (''b'', Some (1 / 4))"
proof -
  let ?calls = "[AddScreen ''a'', AddScreen ''b'', AddAlias ''b'' ''c'',
          ConnectScreens ''A'' DirRight 0 1 ''C'' 0 (1 / 2),
          ConnectScreens ''a'' DirRight (1 / 2) 1 ''b'' 0 1]"
  have "get_neighbor id (run config_step new_config ?calls) ''A'' DirRight (1 / 2) = (''b'', Some (1 / 4))"
    by (simp add: config_evaluation)
  then show ?thesis
    using neighbors_exact [of DirRight ?calls "''A''" "1 / 2" id] by (simp add: Let_def)
qed

end
