(* ===== verification/ServerState.thy ===== *)
theory ServerState
  imports ScreenConfig Clipboard "HOL-Library.Char_ord"
begin

text \<open>
  The state of \<open>Server\<close> (server/Server.h), the calls it makes on its clients and the queries and
  options that the rest of the server uses. Clients are pointers, numbered; what a client's screen
  answers during one event is a \<open>screen_env\<close>. Coordinates are integers (the code's arithmetic stays
  within 32 bits for the coordinates of real screens), floats are reals with their rounding in the
  environment, times are reals.
\<close>

section \<open>Clients, calls and the environment\<close>

type_synonym client = nat

datatype screen_call =
  Enter int int u32 u32 bool
| Leave
| MouseMove int int
| MouseRelativeMove int int
| MouseDown nat
| MouseUp nat
| MouseWheel int int
| KeyDown u32 u32 u16 string
| KeyUp u32 u32 u16
| KeyRepeat u32 u32 int u16 string
| SetClipboard nat clipboard
| GrabClipboard nat
| SetClipboardDirty nat bool
| CallScreensaver bool
| ResetOptions
| SetOptions "u32 list"
| Reconfigure nat
| FakeInputBegin
| FakeInputEnd
| CloseWith string

datatype server_effect =
  Call client screen_call
| PostConnected string
| PostDisconnected
| PostScreenSwitched string
| AddScrollLockRule

record screen_env =
  en_name :: "client \<Rightarrow> string"
  en_shape :: "client \<Rightarrow> int \<times> int \<times> int \<times> int"
  en_cursor :: "client \<Rightarrow> int \<times> int"
  en_center :: "int \<times> int"
  en_jump_zone :: int
  en_toggle_mask :: u32
  en_primary_locked :: bool
  en_leaves :: "client \<Rightarrow> bool"
  en_get_clipboard :: "client \<Rightarrow> nat \<Rightarrow> clipboard \<Rightarrow> clipboard"
  en_now :: real
  en_adjust :: "int \<Rightarrow> int"
  en_rnd :: "real \<Rightarrow> real"

section \<open>State\<close>

record clip_info =
  ci_clipboard :: clipboard
  ci_data :: bytes
  ci_owner :: string
  ci_seq :: u32

record server =
  sv_primary :: client
  sv_active :: client
  sv_config :: config
  sv_active_saver :: "client option"
  sv_switch_screen :: "client option"
  sv_switch_wait_delay :: real
  sv_switch_wait_timer :: bool
  sv_two_tap_delay :: real
  sv_two_tap_mark :: real
  sv_max_clipboard :: nat
  sv_broadcast_screens :: string
  sv_clients :: "(string \<times> client) list"
  sv_client_set :: "client set"
  sv_old_clients :: "client set"
  sv_watched :: "client set"
  sv_deleted :: "client set"
  sv_clipboards :: "clip_info list"
  sv_protocol :: int
  sv_seq :: u32
  sv_x :: int
  sv_y :: int
  sv_x_delta :: int
  sv_y_delta :: int
  sv_x_delta2 :: int
  sv_y_delta2 :: int
  sv_x_saver :: int
  sv_y_saver :: int
  sv_wait_x :: int
  sv_wait_y :: int
  sv_switch_dir :: direction
  sv_two_tap_engaged :: bool
  sv_two_tap_armed :: bool
  sv_needs_shift :: bool
  sv_needs_control :: bool
  sv_needs_alt :: bool
  sv_relative_moves :: bool
  sv_broadcasting :: bool
  sv_locked :: bool
  sv_default_lock :: bool
  sv_disable_lock :: bool
  sv_enable_clipboard :: bool
  sv_jump_pos :: "client \<Rightarrow> int \<times> int"
  sv_trace :: "server_effect list"

text \<open>\<open>sv_watched\<close>: clients with a handler for their disconnection; \<open>sv_deleted\<close>: clients the server
  deleted; \<open>sv_jump_pos\<close>: the position kept in each client (server/BaseClientProxy.cpp).\<close>

definition emit :: "server_effect list \<Rightarrow> server \<Rightarrow> server" where
  "emit es s = s\<lparr>sv_trace := sv_trace s @ es\<rparr>"

definition set_jump_cursor_pos :: "client \<Rightarrow> int \<times> int \<Rightarrow> server \<Rightarrow> server" where
  "set_jump_cursor_pos c p s = s\<lparr>sv_jump_pos := (sv_jump_pos s)(c := p)\<rparr>"

definition get_jump_cursor_pos :: "server \<Rightarrow> client \<Rightarrow> int \<times> int" where
  "get_jump_cursor_pos s c = sv_jump_pos s c"

section \<open>Option codes\<close>

definition option_code :: "string \<Rightarrow> u32" where
  "option_code t = word_of_nat (foldl (\<lambda>v c. 256 * v + of_char c) 0 (take 4 t))"

definition kOptionProtocol :: u32 where "kOptionProtocol = option_code ''PROT''"
definition kOptionScreenSwitchCorners :: u32 where "kOptionScreenSwitchCorners = option_code ''SSCM''"
definition kOptionScreenSwitchCornerSize :: u32 where "kOptionScreenSwitchCornerSize = option_code ''SSCS''"
definition kOptionScreenSwitchDelay :: u32 where "kOptionScreenSwitchDelay = option_code ''SSWT''"
definition kOptionScreenSwitchTwoTap :: u32 where "kOptionScreenSwitchTwoTap = option_code ''SSTT''"
definition kOptionScreenSwitchNeedsShift :: u32 where "kOptionScreenSwitchNeedsShift = option_code ''SSNS''"
definition kOptionScreenSwitchNeedsControl :: u32 where "kOptionScreenSwitchNeedsControl = option_code ''SSNC''"
definition kOptionScreenSwitchNeedsAlt :: u32 where "kOptionScreenSwitchNeedsAlt = option_code ''SSNA''"
definition kOptionRelativeMouseMoves :: u32 where "kOptionRelativeMouseMoves = option_code ''MDLT''"
definition kOptionDefaultLockToScreenState :: u32 where "kOptionDefaultLockToScreenState = option_code ''LTSS''"
definition kOptionDisableLockToScreen :: u32 where "kOptionDisableLockToScreen = option_code ''DLTS''"
definition kOptionClipboardSharing :: u32 where "kOptionClipboardSharing = option_code ''CLPS''"
definition kOptionClipboardSharingSize :: u32 where "kOptionClipboardSharingSize = option_code ''CLSZ''"

lemmas option_codes = kOptionProtocol_def kOptionScreenSwitchCorners_def kOptionScreenSwitchCornerSize_def
  kOptionScreenSwitchDelay_def kOptionScreenSwitchTwoTap_def kOptionScreenSwitchNeedsShift_def
  kOptionScreenSwitchNeedsControl_def kOptionScreenSwitchNeedsAlt_def kOptionRelativeMouseMoves_def
  kOptionDefaultLockToScreenState_def kOptionDisableLockToScreen_def kOptionClipboardSharing_def
  kOptionClipboardSharingSize_def option_code_def

definition KeyModifierShift :: u32 where "KeyModifierShift = 0x0001"
definition KeyModifierControl :: u32 where "KeyModifierControl = 0x0002"
definition KeyModifierAlt :: u32 where "KeyModifierAlt = 0x0004"
definition KeyModifierScrollLock :: u32 where "KeyModifierScrollLock = 0x4000"

section \<open>Queries\<close>

definition client_name :: "screen_env \<Rightarrow> server \<Rightarrow> client \<Rightarrow> string" where
  "client_name e s c =
     (let name = canonical_name (sv_config s) (en_name e c) in if name = [] then en_name e c else name)"

definition find_client :: "server \<Rightarrow> string \<Rightarrow> client option" where
  "find_client s name = map_find (<) name (sv_clients s)"

definition get_clients :: "server \<Rightarrow> string list" where
  "get_clients s = map fst (sv_clients s)"

definition has_any_neighbor :: "screen_env \<Rightarrow> server \<Rightarrow> client \<Rightarrow> direction \<Rightarrow> bool" where
  "has_any_neighbor e s c dir = has_neighbor (sv_config s) (client_name e s c) dir 0 1"

definition active_primary_sides :: "screen_env \<Rightarrow> server \<Rightarrow> nat" where
  "active_primary_sides e s =
     (if sv_locked s then 0
      else (if has_any_neighbor e s (sv_primary s) DirLeft then 2 else 0) +
           (if has_any_neighbor e s (sv_primary s) DirRight then 4 else 0) +
           (if has_any_neighbor e s (sv_primary s) DirTop then 8 else 0) +
           (if has_any_neighbor e s (sv_primary s) DirBottom then 16 else 0))"

definition is_locked_to_screen :: "screen_env \<Rightarrow> server \<Rightarrow> bool" where
  "is_locked_to_screen e s =
     (if sv_disable_lock s then False
      else if sv_locked s then True
      else if en_primary_locked e then True
      else False)"

definition jump_zone_size :: "screen_env \<Rightarrow> server \<Rightarrow> client \<Rightarrow> int" where
  "jump_zone_size e s c = (if c = sv_primary s then en_jump_zone e else 0)"

definition get_corner :: "screen_env \<Rightarrow> client \<Rightarrow> int \<Rightarrow> int \<Rightarrow> int \<Rightarrow> nat" where
  "get_corner e c x y sz =
     (case en_shape e c of (ax, ay, aw, ah) \<Rightarrow>
       let x_side = (if x \<le> ax then - 1 else if x \<ge> ax + aw - 1 then 1 else (0::int));
           y_side = (if y \<le> ay then - 1 else if y \<ge> ay + ah - 1 then 1 else (0::int))
       in if x_side \<noteq> 0 \<and> y < ay + sz then (if x_side < 0 then 1 else 2)
          else if x_side \<noteq> 0 \<and> y \<ge> ay + ah - sz then (if x_side < 0 then 4 else 8)
          else if y_side \<noteq> 0 \<and> x < ax + sz then (if y_side < 0 then 1 else 4)
          else if y_side \<noteq> 0 \<and> x \<ge> ax + aw - sz then (if y_side < 0 then 2 else 8)
          else 0)"

section \<open>Waiting and tapping before a switch\<close>

definition stop_switch_two_tap :: "server \<Rightarrow> server" where
  "stop_switch_two_tap s = s\<lparr>sv_two_tap_engaged := False, sv_two_tap_armed := False\<rparr>"

definition stop_switch_wait :: "server \<Rightarrow> server" where
  "stop_switch_wait s = (if sv_switch_wait_timer s then s\<lparr>sv_switch_wait_timer := False\<rparr> else s)"

definition stop_switch :: "server \<Rightarrow> server" where
  "stop_switch s =
     (if sv_switch_screen s \<noteq> None
      then stop_switch_wait (stop_switch_two_tap (s\<lparr>sv_switch_screen := None, sv_switch_dir := NoDirection\<rparr>))
      else s)"

definition start_switch_two_tap :: "screen_env \<Rightarrow> server \<Rightarrow> server" where
  "start_switch_two_tap e s =
     s\<lparr>sv_two_tap_engaged := True, sv_two_tap_armed := False, sv_two_tap_mark := en_now e\<rparr>"

definition two_tap_time :: "screen_env \<Rightarrow> server \<Rightarrow> real" where
  "two_tap_time e s = en_now e - sv_two_tap_mark s"

definition should_switch_two_tap :: "screen_env \<Rightarrow> server \<Rightarrow> bool" where
  "should_switch_two_tap e s \<longleftrightarrow> sv_two_tap_armed s \<and> two_tap_time e s \<le> sv_two_tap_delay s"

definition start_switch_wait :: "int \<Rightarrow> int \<Rightarrow> server \<Rightarrow> server" where
  "start_switch_wait x y s =
     (stop_switch_wait s)\<lparr>sv_wait_x := x, sv_wait_y := y, sv_switch_wait_timer := True\<rparr>"

definition switch_two_tap_zone :: int where
  "switch_two_tap_zone = 3"

definition arm_switch_two_tap :: "screen_env \<Rightarrow> int \<Rightarrow> int \<Rightarrow> server \<Rightarrow> server" where
  "arm_switch_two_tap e x y s =
     (if \<not> sv_two_tap_engaged s then s
      else if two_tap_time e s > sv_two_tap_delay s then stop_switch_two_tap s
      else if sv_two_tap_armed s then s
      else
        case en_shape e (sv_active s) of (ax, ay, aw, ah) \<Rightarrow>
          let zone = (if en_jump_zone e < switch_two_tap_zone then switch_two_tap_zone else en_jump_zone e)
          in if x \<ge> ax + zone \<and> x < ax + aw - zone \<and> y \<ge> ay + zone \<and> y < ay + ah - zone
             then (case sv_switch_dir s of
                 DirLeft \<Rightarrow> s\<lparr>sv_two_tap_armed := sv_x_delta s > 0 \<and> sv_x_delta2 s > 0\<rparr>
               | DirRight \<Rightarrow> s\<lparr>sv_two_tap_armed := sv_x_delta s < 0 \<and> sv_x_delta2 s < 0\<rparr>
               | DirTop \<Rightarrow> s\<lparr>sv_two_tap_armed := sv_y_delta s > 0 \<and> sv_y_delta2 s > 0\<rparr>
               | DirBottom \<Rightarrow> s\<lparr>sv_two_tap_armed := sv_y_delta s < 0 \<and> sv_y_delta2 s < 0\<rparr>
               | NoDirection \<Rightarrow> s)
             else s)"

definition no_switch :: "screen_env \<Rightarrow> int \<Rightarrow> int \<Rightarrow> server \<Rightarrow> server" where
  "no_switch e x y s = stop_switch_wait (arm_switch_two_tap e x y s)"

section \<open>Options\<close>

definition stop_relative_moves :: "screen_env \<Rightarrow> server \<Rightarrow> server" where
  "stop_relative_moves e s =
     (if sv_relative_moves s \<and> sv_active s \<noteq> sv_primary s
      then case en_shape e (sv_active s) of (ax, ay, aw, ah) \<Rightarrow>
        let x = ax + aw div 2; y = ay + ah div 2
        in emit [Call (sv_active s) (MouseMove x y)]
             (s\<lparr>sv_x := x, sv_y := y, sv_x_delta := 0, sv_y_delta := 0, sv_x_delta2 := 0, sv_y_delta2 := 0\<rparr>)
      else s)"

definition options_list :: "screen_options \<Rightarrow> u32 list" where
  "options_list os = concat (map (\<lambda>(i, v). [i, word_of_int v]) os)"

definition send_options :: "screen_env \<Rightarrow> client \<Rightarrow> server \<Rightarrow> server" where
  "send_options e c s =
     (let own = (case get_options (sv_config s) (client_name e s c) of None \<Rightarrow> [] | Some os \<Rightarrow> options_list os);
          globals = (case get_options (sv_config s) [] of None \<Rightarrow> [] | Some os \<Rightarrow> options_list os)
      in emit [Call c ResetOptions, Call c (SetOptions (own @ globals))] s)"

text \<open>One option; the second component is the new setting of relative moves, and \<open>None\<close> the
  exception for an unknown protocol.\<close>

definition process_option :: "u32 \<Rightarrow> int \<Rightarrow> server \<times> bool \<Rightarrow> (server \<times> bool) option" where
  "process_option i value sr =
     (case sr of (s, relative) \<Rightarrow>
      if i = kOptionProtocol then
        (if value = - 1 then None else Some (s\<lparr>sv_protocol := value\<rparr>, relative))
      else if i = kOptionScreenSwitchDelay then
        Some (stop_switch_wait (s\<lparr>sv_switch_wait_delay := max 0 (real_of_int value / 1000)\<rparr>), relative)
      else if i = kOptionScreenSwitchTwoTap then
        Some (stop_switch_two_tap (s\<lparr>sv_two_tap_delay := max 0 (real_of_int value / 1000)\<rparr>), relative)
      else if i = kOptionScreenSwitchNeedsControl then Some (s\<lparr>sv_needs_control := value \<noteq> 0\<rparr>, relative)
      else if i = kOptionScreenSwitchNeedsShift then Some (s\<lparr>sv_needs_shift := value \<noteq> 0\<rparr>, relative)
      else if i = kOptionScreenSwitchNeedsAlt then Some (s\<lparr>sv_needs_alt := value \<noteq> 0\<rparr>, relative)
      else if i = kOptionRelativeMouseMoves then Some (s, value \<noteq> 0)
      else if i = kOptionDefaultLockToScreenState then Some (s\<lparr>sv_default_lock := value \<noteq> 0\<rparr>, relative)
      else if i = kOptionDisableLockToScreen then Some (s\<lparr>sv_disable_lock := value \<noteq> 0\<rparr>, relative)
      else if i = kOptionClipboardSharing then Some (s\<lparr>sv_enable_clipboard := value \<noteq> 0\<rparr>, relative)
      else if i = kOptionClipboardSharingSize then
        Some (s\<lparr>sv_max_clipboard := (if value \<le> 0 then 0 else nat value)\<rparr>, relative)
      else Some (s, relative))"

fun process_option_list :: "screen_options \<Rightarrow> server \<times> bool \<Rightarrow> (server \<times> bool) option" where
  "process_option_list [] sr = Some sr"
| "process_option_list ((i, v) # os) sr =
     (case process_option i v sr of None \<Rightarrow> None | Some sr1 \<Rightarrow> process_option_list os sr1)"

definition process_options :: "screen_env \<Rightarrow> server \<Rightarrow> server option" where
  "process_options e s =
     (case get_options (sv_config s) [] of
        None \<Rightarrow> Some s
      | Some os \<Rightarrow>
          (case process_option_list os
             (s\<lparr>sv_needs_shift := False, sv_needs_control := False, sv_needs_alt := False\<rparr>, sv_relative_moves s) of
             None \<Rightarrow> None
           | Some (s1, relative) \<Rightarrow>
               let s2 = (if sv_relative_moves s1 \<and> \<not> relative then stop_relative_moves e s1 else s1)
               in Some (s2\<lparr>sv_relative_moves := relative\<rparr>)))"

end
