(* ===== verification/ServerSwitch.thy ===== *)
theory ServerSwitch
  imports ServerState
begin

text \<open>
  How the server finds the screen beyond an edge and moves the cursor there: the search for a connected
  neighbour, the walk over neighbours, the jump zone, the conditions for a switch, and the switch
  itself. The result \<open>None\<close> is an execution that does not return: a failed \<open>assert\<close>, an exception, or
  the search going round screens that are not connected.
\<close>

section \<open>Positions along an edge\<close>

definition float_of :: "screen_env \<Rightarrow> int \<Rightarrow> real" where
  "float_of e i = en_rnd e (real_of_int i)"

definition truncate_real :: "real \<Rightarrow> int" where
  "truncate_real r = (if r < 0 then \<lceil>r\<rceil> else \<lfloor>r\<rfloor>)"

definition map_to_fraction :: "screen_env \<Rightarrow> client \<Rightarrow> direction \<Rightarrow> int \<Rightarrow> int \<Rightarrow> real option" where
  "map_to_fraction e c dir x y =
     (case en_shape e c of (sx, sy, sw, sh) \<Rightarrow>
       if dir = DirLeft \<or> dir = DirRight
       then Some (en_rnd e (en_rnd e (float_of e (y - sy) + 1 / 2) / float_of e sh))
       else if dir = DirTop \<or> dir = DirBottom
       then Some (en_rnd e (en_rnd e (float_of e (x - sx) + 1 / 2) / float_of e sw))
       else None)"

definition map_to_pixel :: "screen_env \<Rightarrow> client \<Rightarrow> direction \<Rightarrow> real \<Rightarrow> int \<Rightarrow> int \<Rightarrow> int \<times> int" where
  "map_to_pixel e c dir f x y =
     (case en_shape e c of (sx, sy, sw, sh) \<Rightarrow>
       if dir = DirLeft \<or> dir = DirRight then (x, truncate_real (en_rnd e (f * float_of e sh)) + sy)
       else if dir = DirTop \<or> dir = DirBottom then (truncate_real (en_rnd e (f * float_of e sw)) + sx, y)
       else (x, y))"

section \<open>The neighbour\<close>

partial_function (option) search_neighbor ::
  "(real \<Rightarrow> real) \<Rightarrow> config \<Rightarrow> (string \<times> client) list \<Rightarrow> direction \<Rightarrow> string \<Rightarrow> real \<Rightarrow>
   (client \<times> real) option option" where
  "search_neighbor rnd cfg clients dir src t =
     (case get_neighbor rnd cfg src dir t of
        (name, pos) \<Rightarrow>
          if name = [] then Some None
          else case map_find (<) name clients of
            Some c \<Rightarrow> Some (map_option (\<lambda>p. (c, p)) pos)
          | None \<Rightarrow> (case pos of None \<Rightarrow> Some None | Some p \<Rightarrow> search_neighbor rnd cfg clients dir name p))"

definition server_neighbor ::
  "screen_env \<Rightarrow> server \<Rightarrow> client \<Rightarrow> direction \<Rightarrow> int \<Rightarrow> int \<Rightarrow> (client \<times> int \<times> int) option option" where
  "server_neighbor e s src dir x y =
     (case map_to_fraction e src dir x y of
        None \<Rightarrow> None
      | Some t \<Rightarrow>
          (case search_neighbor (en_rnd e) (sv_config s) (sv_clients s) dir (client_name e s src) t of
             None \<Rightarrow> None
           | Some None \<Rightarrow> Some None
           | Some (Some (c, p)) \<Rightarrow> Some (Some (c, map_to_pixel e c dir p x y))))"

definition avoid_jump_zone :: "screen_env \<Rightarrow> server \<Rightarrow> client \<Rightarrow> direction \<Rightarrow> int \<Rightarrow> int \<Rightarrow> (int \<times> int) option" where
  "avoid_jump_zone e s dst dir x y =
     (if dst \<noteq> sv_primary s then Some (x, y)
      else
        case (en_shape e dst, map_to_fraction e dst dir x y) of
          ((dx, dy, dw, dh), Some t) \<Rightarrow>
            let z = jump_zone_size e s dst;
                beyond = (\<lambda>side. fst (get_neighbor (en_rnd e) (sv_config s) (client_name e s dst) side t) \<noteq> [])
            in (case dir of
                  DirLeft \<Rightarrow> Some (if beyond DirRight \<and> x > dx + dw - 1 - z then dx + dw - 1 - z else x, y)
                | DirRight \<Rightarrow> Some (if beyond DirLeft \<and> x < dx + z then dx + z else x, y)
                | DirTop \<Rightarrow> Some (x, if beyond DirBottom \<and> y > dy + dh - 1 - z then dy + dh - 1 - z else y)
                | DirBottom \<Rightarrow> Some (x, if beyond DirTop \<and> y < dy + z then dy + z else y)
                | NoDirection \<Rightarrow> None)
        | (_, None) \<Rightarrow> None)"

text \<open>One turn of the loops of \<open>mapToNeighbor\<close>: the position relative to the screen \<open>d\<close> when it is entered
  from \<open>last\<close>, and whether it is on \<open>d\<close>.\<close>

definition enter_screen ::
  "screen_env \<Rightarrow> direction \<Rightarrow> client \<Rightarrow> client \<Rightarrow> int \<Rightarrow> int \<Rightarrow> (int \<times> int) \<times> bool" where
  "enter_screen e dir last_screen d x y =
     (case (en_shape e last_screen, en_shape e d) of
        ((lx, ly, lw, lh), (dx, dy, dw, dh)) \<Rightarrow>
          (case dir of
             DirLeft \<Rightarrow> ((x + dw, y), x + dw \<ge> 0)
           | DirRight \<Rightarrow> ((x - lw, y), x - lw < dw)
           | DirTop \<Rightarrow> ((x, y + dh), y + dh \<ge> 0)
           | DirBottom \<Rightarrow> ((x, y - lh), y - lh < dh)
           | NoDirection \<Rightarrow> ((x, y), True)))"

partial_function (option) walk_neighbors ::
  "screen_env \<Rightarrow> server \<Rightarrow> direction \<Rightarrow> client \<Rightarrow> client \<Rightarrow> int \<times> int \<Rightarrow> (client \<times> int \<times> int) option" where
  "walk_neighbors e s dir last_screen d pos =
     (case enter_screen e dir last_screen d (fst pos) (snd pos) of
        ((x1, y1), inside) \<Rightarrow>
          if inside then Some (d, x1, y1)
          else
            case server_neighbor e s d dir x1 y1 of
              None \<Rightarrow> None
            | Some None \<Rightarrow> Some (d, x1, y1)
            | Some (Some (n, pos2)) \<Rightarrow> walk_neighbors e s dir d n pos2)"

definition along :: "direction \<Rightarrow> bool" where
  "along dir \<longleftrightarrow> dir = DirLeft \<or> dir = DirRight"

definition map_to_neighbor ::
  "screen_env \<Rightarrow> server \<Rightarrow> client \<Rightarrow> direction \<Rightarrow> int \<Rightarrow> int \<Rightarrow> (client \<times> int \<times> int) option option" where
  "map_to_neighbor e s src dir x y =
     (case server_neighbor e s src dir x y of
        None \<Rightarrow> None
      | Some None \<Rightarrow> Some None
      | Some (Some (dst, x1, y1)) \<Rightarrow>
          (case en_shape e src of (sx, sy, sw, sh) \<Rightarrow>
            (case (if along dir then walk_neighbors e s dir src dst (x1 - sx, y1)
                   else walk_neighbors e s dir src dst (x1, y1 - sy)) of
               None \<Rightarrow> None
             | Some (good, x2, y2) \<Rightarrow>
                 (case en_shape e good of (dx, dy, dw, dh) \<Rightarrow>
                   (case (if along dir then avoid_jump_zone e s good dir (x2 + dx) y2
                          else avoid_jump_zone e s good dir x2 (y2 + dy)) of
                      None \<Rightarrow> None
                    | Some (x3, y3) \<Rightarrow> Some (Some (good, x3, y3)))))))"

section \<open>Whether to switch\<close>

definition corner_locked :: "screen_env \<Rightarrow> server \<Rightarrow> int \<Rightarrow> int \<Rightarrow> bool" where
  "corner_locked e s x y =
     (let own = get_options (sv_config s) (client_name e s (sv_active s));
          options = (case own of
                       Some os \<Rightarrow> if map_contains (<) kOptionScreenSwitchCorners os then own else get_options (sv_config s) []
                     | None \<Rightarrow> get_options (sv_config s) [])
      in case options of
           None \<Rightarrow> False
         | Some os \<Rightarrow>
             (case map_find (<) kOptionScreenSwitchCorners os of
                None \<Rightarrow> False
              | Some corners \<Rightarrow>
                  let corner_size = (case map_find (<) kOptionScreenSwitchCornerSize os of None \<Rightarrow> 0 | Some v \<Rightarrow> v)
                  in and (word_of_nat (get_corner e (sv_active s) x y corner_size)) (word_of_int corners :: u32) \<noteq> 0))"

definition modifiers_missing :: "screen_env \<Rightarrow> server \<Rightarrow> bool" where
  "modifiers_missing e s \<longleftrightarrow>
     (sv_needs_shift s \<and> and (en_toggle_mask e) KeyModifierShift \<noteq> KeyModifierShift) \<or>
     (sv_needs_control s \<and> and (en_toggle_mask e) KeyModifierControl \<noteq> KeyModifierControl) \<or>
     (sv_needs_alt s \<and> and (en_toggle_mask e) KeyModifierAlt \<noteq> KeyModifierAlt)"

definition is_switch_okay ::
  "screen_env \<Rightarrow> client option \<Rightarrow> direction \<Rightarrow> int \<Rightarrow> int \<Rightarrow> int \<Rightarrow> int \<Rightarrow> server \<Rightarrow> bool \<times> server" where
  "is_switch_okay e new_screen dir x y x_active y_active s =
     (if new_screen = None then (False, stop_switch s)
      else
        let new_direction = (dir \<noteq> sv_switch_dir s);
            s1 = (if new_direction \<or> sv_switch_screen s = None
                  then s\<lparr>sv_switch_dir := dir, sv_switch_screen := new_screen\<rparr> else s);
            first_tap = (sv_two_tap_delay s1 > 0 \<and>
              (new_direction \<or> \<not> sv_two_tap_engaged s1 \<or> \<not> should_switch_two_tap e s1));
            allow = (sv_two_tap_delay s1 > 0 \<and> \<not> first_tap);
            s2 = (if first_tap then start_switch_two_tap e s1 else s1);
            waiting = (\<not> allow \<and> sv_switch_wait_delay s2 > 0);
            s3 = (if waiting \<and> (new_direction \<or> \<not> sv_switch_wait_timer s2) then start_switch_wait x y s2 else s2);
            prevent3 = (first_tap \<or> waiting);
            in_corner = corner_locked e s3 x_active y_active;
            s4 = (if in_corner then stop_switch s3 else s3);
            prevent4 = (prevent3 \<or> in_corner);
            locked = (\<not> prevent4 \<and> is_locked_to_screen e s4);
            s5 = (if locked then stop_switch s4 else s4);
            prevent5 = (prevent4 \<or> locked);
            missing = (\<not> prevent5 \<and> modifiers_missing e s5);
            s6 = (if missing then stop_switch s5 else s5)
        in (\<not> (prevent5 \<or> missing), s6))"

section \<open>Clipboards\<close>

definition clip_at :: "server \<Rightarrow> nat \<Rightarrow> clip_info" where
  "clip_at s i = sv_clipboards s ! i"

definition put_clip :: "nat \<Rightarrow> clip_info \<Rightarrow> server \<Rightarrow> server" where
  "put_clip i c s = s\<lparr>sv_clipboards := (sv_clipboards s)[i := c]\<rparr>"

definition all_clients :: "server \<Rightarrow> client list" where
  "all_clients s = map snd (sv_clients s)"

definition on_clipboard_changed :: "screen_env \<Rightarrow> client \<Rightarrow> nat \<Rightarrow> u32 \<Rightarrow> server \<Rightarrow> server option" where
  "on_clipboard_changed e sender i seq s =
     (let clip = clip_at s i in
      if seq < ci_seq clip then Some s
      else if find_client s (ci_owner clip) \<noteq> Some sender then None
      else
        case marshall (en_get_clipboard e sender i (ci_clipboard clip)) of (d, stored) \<Rightarrow>
          let s1 = put_clip i (clip\<lparr>ci_clipboard := stored\<rparr>) s in
          if length d > sv_max_clipboard s * 1024 then Some s1
          else if d = ci_data clip then Some s1
          else Some (emit (map (\<lambda>c. Call c (SetClipboardDirty i (c \<noteq> sender))) (all_clients s) @
                           [Call (sv_active s) (SetClipboard i stored)])
                 (put_clip i (clip\<lparr>ci_clipboard := stored, ci_data := d\<rparr>) s)))"

fun on_clipboards_changed :: "screen_env \<Rightarrow> client \<Rightarrow> (server \<Rightarrow> nat \<Rightarrow> bool) \<Rightarrow> nat list \<Rightarrow> server \<Rightarrow> server option" where
  "on_clipboards_changed e sender guard [] s = Some s"
| "on_clipboards_changed e sender guard (i # is) s =
     (if guard s i
      then case on_clipboard_changed e sender i (ci_seq (clip_at s i)) s of
             None \<Rightarrow> None
           | Some s1 \<Rightarrow> on_clipboards_changed e sender guard is s1
      else on_clipboards_changed e sender guard is s)"

fun send_clipboards :: "nat list \<Rightarrow> server \<Rightarrow> server" where
  "send_clipboards [] s = s"
| "send_clipboards (i # is) s =
     (case marshall (ci_clipboard (clip_at s i)) of (d, stored) \<Rightarrow>
       let s1 = put_clip i ((clip_at s i)\<lparr>ci_clipboard := stored\<rparr>) s in
       if length d > sv_max_clipboard s * 1024 then send_clipboards is s1
       else send_clipboards is (emit [Call (sv_active s) (SetClipboard i stored)] s1))"

section \<open>The switch\<close>

definition clipboard_ids :: "nat list" where
  "clipboard_ids = [0..<unat kClipboardEnd]"

definition switch_screen :: "screen_env \<Rightarrow> client \<Rightarrow> int \<Rightarrow> int \<Rightarrow> bool \<Rightarrow> server \<Rightarrow> server option" where
  "switch_screen e dst x y for_screensaver s =
     (let s1 = (stop_switch s)\<lparr>sv_x := x, sv_y := y, sv_x_delta := 0, sv_y_delta := 0,
                               sv_x_delta2 := 0, sv_y_delta2 := 0\<rparr>
      in if sv_active s1 = dst then Some (emit [Call dst (MouseMove x y)] s1)
         else
           let s2 = emit [Call (sv_active s1) Leave] s1 in
           if \<not> en_leaves e (sv_active s1) then Some s2
           else
             case (if sv_active s2 = sv_primary s2 \<and> sv_enable_clipboard s2
                   then on_clipboards_changed e (sv_primary s2)
                          (\<lambda>t i. ci_owner (clip_at t i) = client_name e t (sv_primary t)) clipboard_ids s2
                   else Some s2) of
               None \<Rightarrow> None
             | Some s3 \<Rightarrow>
                 let s4 = emit [Call dst (Enter x y (sv_seq s3 + 1) (en_toggle_mask e) for_screensaver)]
                            (s3\<lparr>sv_active := dst, sv_seq := sv_seq s3 + 1\<rparr>);
                     s5 = (if sv_enable_clipboard s4 then send_clipboards clipboard_ids s4 else s4)
                 in Some (emit [PostScreenSwitched (en_name e dst)] s5))"

definition jump_to_screen :: "screen_env \<Rightarrow> client \<Rightarrow> server \<Rightarrow> server option" where
  "jump_to_screen e new_screen s =
     (let s1 = set_jump_cursor_pos (sv_active s) (sv_x s, sv_y s) s
      in case get_jump_cursor_pos s1 new_screen of (x, y) \<Rightarrow> switch_screen e new_screen x y False s1)"

end
