(* ===== verification/ServerEvents.thy ===== *)
theory ServerEvents
  imports ServerSwitch MachineInterface "HOL-Library.Sublist"
begin

text \<open>
  The handlers of \<open>Server\<close>: motion on the primary and on a secondary screen, keys and buttons, the
  screen saver, clipboards, clients that come, leave or are closed, and a new configuration. A step
  handles one event that the event queue can deliver: one whose handler is installed, whose timer
  runs and whose client has not been removed. A client that is adopted is a new object.
\<close>

section \<open>Mouse motion\<close>

fun try_directions ::
  "screen_env \<Rightarrow> int \<Rightarrow> int \<Rightarrow> (direction \<times> int \<times> int) list \<Rightarrow> server \<Rightarrow> (bool \<times> server) option" where
  "try_directions e xc yc [] s = Some (False, s)"
| "try_directions e xc yc ((dir, x, y) # rest) s =
     (if dir = NoDirection then try_directions e xc yc rest s
      else
        case map_to_neighbor e s (sv_active s) dir x y of
          None \<Rightarrow> None
        | Some found \<Rightarrow>
            (case (case found of None \<Rightarrow> (None, x, y) | Some (c, x1, y1) \<Rightarrow> (Some c, x1, y1)) of
               (new_screen, x2, y2) \<Rightarrow>
                 (case is_switch_okay e new_screen dir x2 y2 xc yc s of
                    (okay, s1) \<Rightarrow>
                      (case (okay, new_screen) of
                         (True, Some c) \<Rightarrow> map_option (\<lambda>s2. (True, s2)) (switch_screen e c x2 y2 False s1)
                       | _ \<Rightarrow> try_directions e xc yc rest s1))))"

definition on_mouse_move_primary :: "screen_env \<Rightarrow> int \<Rightarrow> int \<Rightarrow> server \<Rightarrow> (bool \<times> server) option" where
  "on_mouse_move_primary e x y s =
     (if sv_active s \<noteq> sv_primary s then Some (False, s)
      else
        let s1 = s\<lparr>sv_x_delta2 := sv_x_delta s, sv_y_delta2 := sv_y_delta s,
                   sv_x_delta := x - sv_x s, sv_y_delta := y - sv_y s, sv_x := x, sv_y := y\<rparr>
        in case en_shape e (sv_active s1) of (ax, ay, aw, ah) \<Rightarrow>
          let zone = jump_zone_size e s1 (sv_active s1);
              xc = (if x < ax + zone then ax else if x \<ge> ax + aw - zone then ax + aw - 1 else x);
              yc = (if y < ay + zone then ay else if y \<ge> ay + ah - zone then ay + ah - 1 else y);
              (dirh, xh) = (if x < ax + zone then (DirLeft, x - zone)
                            else if x \<ge> ax + aw - zone then (DirRight, x + zone) else (NoDirection, x));
              (dirv, yv) = (if y < ay + zone then (DirTop, y - zone)
                            else if y \<ge> ay + ah - zone then (DirBottom, y + zone) else (NoDirection, y))
          in if dirh = NoDirection \<and> dirv = NoDirection then Some (False, no_switch e x y s1)
             else try_directions e xc yc [(dirh, xh, y), (dirv, x, yv)] s1)"

text \<open>Waiting stops once the cursor is away from the edge it waits on.\<close>

definition clear_wait :: "screen_env \<Rightarrow> server \<Rightarrow> bool" where
  "clear_wait e s =
     (case en_shape e (sv_active s) of (ax, ay, aw, ah) \<Rightarrow>
       let zone = en_jump_zone e in
       (case sv_switch_dir s of
          DirLeft \<Rightarrow> sv_x s \<ge> ax + zone
        | DirRight \<Rightarrow> sv_x s \<le> ax + aw - 1 - zone
        | DirTop \<Rightarrow> sv_y s \<ge> ay + zone
        | DirBottom \<Rightarrow> sv_y s \<le> ay + ah - 1 + zone
        | NoDirection \<Rightarrow> False))"

definition clamp :: "int \<Rightarrow> int \<Rightarrow> int \<Rightarrow> int" where
  "clamp a w p = (if p < a then a else if p > a + w - 1 then a + w - 1 else p)"

definition move_on_active :: "screen_env \<Rightarrow> int \<Rightarrow> int \<Rightarrow> int \<Rightarrow> int \<Rightarrow> server \<Rightarrow> server" where
  "move_on_active e x_old y_old dx dy s =
     (case en_shape e (sv_active s) of (ax, ay, aw, ah) \<Rightarrow>
       let s1 = s\<lparr>sv_x := clamp ax aw (x_old + dx), sv_y := clamp ay ah (y_old + dy)\<rparr>
       in if sv_x s1 \<noteq> x_old \<or> sv_y s1 \<noteq> y_old
          then emit [Call (sv_active s1) (MouseMove (sv_x s1) (sv_y s1))] s1 else s1)"

definition leave_direction :: "screen_env \<Rightarrow> server \<Rightarrow> direction" where
  "leave_direction e s =
     (case en_shape e (sv_active s) of (ax, ay, aw, ah) \<Rightarrow>
       if sv_x s < ax then DirLeft
       else if sv_x s > ax + aw - 1 then DirRight
       else if sv_y s < ay then DirTop
       else if sv_y s > ay + ah - 1 then DirBottom
       else NoDirection)"

definition on_mouse_move_secondary :: "screen_env \<Rightarrow> int \<Rightarrow> int \<Rightarrow> server \<Rightarrow> server option" where
  "on_mouse_move_secondary e dx0 dy0 s =
     (let dx = en_adjust e dx0; dy = en_adjust e dy0 in
      if sv_active s = sv_primary s then Some s
      else if sv_relative_moves s \<and> sv_locked s then Some (emit [Call (sv_active s) (MouseRelativeMove dx dy)] s)
      else
        let s1 = s\<lparr>sv_x_delta2 := sv_x_delta s, sv_y_delta2 := sv_y_delta s, sv_x_delta := dx, sv_y_delta := dy,
                   sv_x := sv_x s + dx, sv_y := sv_y s + dy\<rparr>;
            dir = leave_direction e s1
        in if dir = NoDirection
           then
             let s2 = (if sv_switch_screen s1 \<noteq> None \<and> clear_wait e s1 then no_switch e (sv_x s1) (sv_y s1) s1 else s1)
             in Some (move_on_active e (sv_x s) (sv_y s) dx dy s2)
           else
             case en_shape e (sv_active s1) of (ax, ay, aw, ah) \<Rightarrow>
             (case map_to_neighbor e s1 (sv_active s1) dir (sv_x s1) (sv_y s1) of
                None \<Rightarrow> None
              | Some found \<Rightarrow>
                  (case (case found of None \<Rightarrow> (None, sv_x s1, sv_y s1) | Some (c, x, y) \<Rightarrow> (Some c, x, y)) of
                     (new_screen, x, y) \<Rightarrow>
                       (case is_switch_okay e new_screen dir x y (clamp ax aw (sv_x s1)) (clamp ay ah (sv_y s1))
                               (s1\<lparr>sv_x := x, sv_y := y\<rparr>) of
                          (okay, s2) \<Rightarrow>
                            (case (okay, new_screen) of
                               (True, Some c) \<Rightarrow> switch_screen e c x y False s2
                             | _ \<Rightarrow> Some (move_on_active e (sv_x s) (sv_y s) dx dy s2))))))"

section \<open>Keys and buttons\<close>

definition screens_default :: "string \<Rightarrow> bool" where
  "screens_default screens \<longleftrightarrow> screens = []"

definition screens_contain :: "string \<Rightarrow> string \<Rightarrow> bool" where
  "screens_contain screens name =
     (if screens_default screens then False
      else if hd screens = CHR ''*'' then True
      else sublist ('':'' @ name @ '':'') screens)"

text \<open>The list of screens is a C string, never a null pointer.\<close>

definition relay_key :: "screen_call \<Rightarrow> string \<Rightarrow> server \<Rightarrow> server" where
  "relay_key call screens s =
     (if \<not> sv_broadcasting s \<and> screens_default screens then emit [Call (sv_active s) call] s
      else emit (map (\<lambda>(name, c). Call c call) (filter (\<lambda>(name, c). screens_contain screens name) (sv_clients s))) s)"

definition relay :: "screen_call \<Rightarrow> server \<Rightarrow> server" where
  "relay call s = emit [Call (sv_active s) call] s"

datatype toggle_state = ToggleOn | ToggleOff | ToggleSwitch

definition new_setting :: "toggle_state \<Rightarrow> bool \<Rightarrow> bool" where
  "new_setting t old = (case t of ToggleOn \<Rightarrow> True | ToggleOff \<Rightarrow> False | ToggleSwitch \<Rightarrow> \<not> old)"

definition handle_keyboard_broadcast :: "toggle_state \<Rightarrow> string \<Rightarrow> server \<Rightarrow> server" where
  "handle_keyboard_broadcast t screens s =
     (let new = new_setting t (sv_broadcasting s) in
      if new \<noteq> sv_broadcasting s \<or> screens \<noteq> sv_broadcast_screens s
      then s\<lparr>sv_broadcasting := new, sv_broadcast_screens := screens\<rparr> else s)"

definition handle_lock_cursor :: "screen_env \<Rightarrow> toggle_state \<Rightarrow> server \<Rightarrow> server" where
  "handle_lock_cursor e t s =
     (let new = new_setting t (sv_locked s) in
      if new \<noteq> sv_locked s
      then
        let s1 = s\<lparr>sv_locked := new\<rparr>;
            s2 = emit [Call (sv_primary s1) (Reconfigure (active_primary_sides e s1))] s1
        in if \<not> sv_locked s2 then stop_relative_moves e s2 else s2
      else s)"

section \<open>Jumps\<close>

definition handle_switch_wait_timeout :: "screen_env \<Rightarrow> server \<Rightarrow> server option" where
  "handle_switch_wait_timeout e s =
     (if is_locked_to_screen e s then Some (stop_switch s)
      else case sv_switch_screen s of
        None \<Rightarrow> None
      | Some c \<Rightarrow> switch_screen e c (sv_wait_x s) (sv_wait_y s) False s)"

definition handle_switch_to_screen :: "screen_env \<Rightarrow> string \<Rightarrow> server \<Rightarrow> server option" where
  "handle_switch_to_screen e name s =
     (case find_client s name of None \<Rightarrow> Some s | Some c \<Rightarrow> jump_to_screen e c s)"

definition handle_switch_in_direction :: "screen_env \<Rightarrow> direction \<Rightarrow> server \<Rightarrow> server option" where
  "handle_switch_in_direction e dir s =
     (case server_neighbor e s (sv_active s) dir (sv_x s) (sv_y s) of
        None \<Rightarrow> None
      | Some None \<Rightarrow> Some s
      | Some (Some (c, _)) \<Rightarrow> jump_to_screen e c s)"

fun after_name :: "string \<Rightarrow> string list \<Rightarrow> string list option" where
  "after_name name [] = None"
| "after_name name (n # ns) = (if n = name then Some ns else after_name name ns)"

definition handle_toggle_screen :: "screen_env \<Rightarrow> server \<Rightarrow> server option" where
  "handle_toggle_screen e s =
     (let screens = get_clients s in
      if length screens < 2 then Some s
      else case after_name (client_name e s (sv_active s)) screens of
        None \<Rightarrow> Some s
      | Some rest \<Rightarrow>
          let next_name = (case rest of [] \<Rightarrow> hd screens | n # _ \<Rightarrow> n) in
          (case find_client s next_name of None \<Rightarrow> Some s | Some c \<Rightarrow> jump_to_screen e c s))"

definition saver_position :: "int \<Rightarrow> int \<Rightarrow> int \<Rightarrow> int \<Rightarrow> int" where
  "saver_position a w zone p =
     (if p < a + zone then a + zone else if p \<ge> a + w - zone then a + w - zone - 1 else p)"

definition on_screensaver :: "screen_env \<Rightarrow> bool \<Rightarrow> server \<Rightarrow> server option" where
  "on_screensaver e activated s =
     (case (if activated
            then
              let s1 = s\<lparr>sv_active_saver := Some (sv_active s), sv_x_saver := sv_x s, sv_y_saver := sv_y s\<rparr>
              in if sv_active s1 \<noteq> sv_primary s1 then switch_screen e (sv_primary s1) 0 0 True s1 else Some s1
            else
              map_option (\<lambda>t. t\<lparr>sv_active_saver := None\<rparr>)
                (case sv_active_saver s of
                   None \<Rightarrow> Some s
                 | Some c \<Rightarrow>
                     if c = sv_primary s then Some s
                     else case en_shape e c of (x, y, w, h) \<Rightarrow>
                       let zone = jump_zone_size e s c;
                           s1 = s\<lparr>sv_x_saver := saver_position x w zone (sv_x_saver s),
                                  sv_y_saver := saver_position y h zone (sv_y_saver s)\<rparr>
                       in switch_screen e c (sv_x_saver s1) (sv_y_saver s1) False s1)) of
        None \<Rightarrow> None
      | Some s2 \<Rightarrow> Some (emit (map (\<lambda>c. Call c (CallScreensaver activated)) (all_clients s2)) s2))"

section \<open>Clients\<close>

definition force_leave_client :: "screen_env \<Rightarrow> client \<Rightarrow> server \<Rightarrow> server" where
  "force_leave_client e c s =
     (let active = (case sv_active_saver s of Some a \<Rightarrow> a | None \<Rightarrow> sv_active s);
          s1 = (if active = c
                then
                  let t = s\<lparr>sv_x := fst (en_center e), sv_y := snd (en_center e)\<rparr>;
                      t1 = (if sv_switch_screen t = Some active then stop_switch t else t);
                      t2 = t1\<lparr>sv_active := sv_primary t1\<rparr>
                  in if sv_active_saver t2 = None
                     then emit [Call (sv_primary t2) (Enter (sv_x t2) (sv_y t2) (sv_seq t2) (en_toggle_mask e) False)] t2
                     else t2
                else s);
          s2 = (if sv_active_saver s1 = Some c then s1\<lparr>sv_active_saver := None\<rparr> else s1)
      in emit [Call (sv_primary s2) (Reconfigure (active_primary_sides e s2))] s2)"

definition add_client :: "screen_env \<Rightarrow> client \<Rightarrow> server \<Rightarrow> bool \<times> server" where
  "add_client e c s =
     (let name = client_name e s c in
      if map_contains (<) name (sv_clients s) then (False, s)
      else
        let s1 = set_jump_cursor_pos c (en_cursor e c)
                   (s\<lparr>sv_client_set := insert c (sv_client_set s), sv_clients := map_insert (<) name c (sv_clients s)\<rparr>)
        in (True, emit [Call (sv_primary s1) (Reconfigure (active_primary_sides e s1))] s1))"

definition remove_client :: "screen_env \<Rightarrow> client \<Rightarrow> server \<Rightarrow> bool \<times> server" where
  "remove_client e c s =
     (if c \<notin> sv_client_set s then (False, s)
      else (True, s\<lparr>sv_clients := map_erase (<) (client_name e s c) (sv_clients s),
                    sv_client_set := sv_client_set s - {c}\<rparr>))"

definition close_client :: "screen_env \<Rightarrow> string \<Rightarrow> client \<Rightarrow> server \<Rightarrow> server" where
  "close_client e msg c s =
     (let s1 = snd (remove_client e c (emit [Call c (CloseWith msg)] s))
      in force_leave_client e c (s1\<lparr>sv_old_clients := insert c (sv_old_clients s1)\<rparr>))"

definition close_clients :: "screen_env \<Rightarrow> config \<Rightarrow> server \<Rightarrow> server" where
  "close_clients e cfg s =
     (let removed = sort (remdups (map snd (filter (\<lambda>(name, c). \<not> is_canonical_name cfg name) (sv_clients s))))
      in fold (close_client e kMsgCClose) (filter (\<lambda>c. c \<noteq> sv_primary s) removed) s)"

definition adopt_client :: "screen_env \<Rightarrow> client \<Rightarrow> server \<Rightarrow> server" where
  "adopt_client e c s =
     (let s1 = s\<lparr>sv_watched := insert c (sv_watched s)\<rparr> in
      if \<not> is_screen (sv_config s1) (en_name e c) then close_client e kMsgEUnknown c s1
      else
        case add_client e c s1 of
          (False, s2) \<Rightarrow> close_client e kMsgEBusy c s2
        | (True, s2) \<Rightarrow>
            let s3 = send_options e c s2;
                s4 = (if sv_active_saver s3 \<noteq> None then emit [Call c (CallScreensaver True)] s3 else s3)
            in emit [PostConnected (client_name e s4 c)] s4)"

definition post_if_empty :: "server \<Rightarrow> server" where
  "post_if_empty s =
     (if length (sv_clients s) = 1 \<and> sv_old_clients s = {} then emit [PostDisconnected] s else s)"

definition remove_active_client :: "screen_env \<Rightarrow> client \<Rightarrow> server \<Rightarrow> server" where
  "remove_active_client e c s =
     (case remove_client e c s of
        (False, s1) \<Rightarrow> s1
      | (True, s1) \<Rightarrow>
          let s2 = force_leave_client e c s1
          in post_if_empty (s2\<lparr>sv_watched := sv_watched s2 - {c}\<rparr>))"

definition remove_old_client :: "client \<Rightarrow> server \<Rightarrow> server" where
  "remove_old_client c s =
     (if c \<in> sv_old_clients s
      then post_if_empty (s\<lparr>sv_watched := sv_watched s - {c}, sv_old_clients := sv_old_clients s - {c}\<rparr>)
      else s)"

definition delete_client :: "client \<Rightarrow> server \<Rightarrow> server" where
  "delete_client c s = s\<lparr>sv_deleted := insert c (sv_deleted s)\<rparr>"

definition handle_client_disconnected :: "screen_env \<Rightarrow> client \<Rightarrow> server \<Rightarrow> server" where
  "handle_client_disconnected e c s = delete_client c (remove_old_client c (remove_active_client e c s))"

definition handle_client_close_timeout :: "client \<Rightarrow> server \<Rightarrow> server" where
  "handle_client_close_timeout c s = delete_client c (remove_old_client c s)"

definition server_disconnect :: "screen_env \<Rightarrow> server \<Rightarrow> server" where
  "server_disconnect e s =
     (if length (sv_clients s) > 1 \<or> sv_old_clients s \<noteq> {} then close_clients e new_config s
      else emit [PostDisconnected] s)"

text \<open>The configuration is read into the object the server already uses (deskflow/ServerApp.cpp), so it is
  in place before \<open>setConfig\<close> looks at it.\<close>

definition set_config :: "screen_env \<Rightarrow> config \<Rightarrow> bool \<Rightarrow> server \<Rightarrow> (bool \<times> server) option" where
  "set_config e cfg has_lock_action s =
     (let s1 = s\<lparr>sv_config := cfg\<rparr> in
      if \<not> is_screen cfg (en_name e (sv_primary s1)) then Some (False, s1)
      else
        case process_options e (close_clients e cfg s1) of
          None \<Rightarrow> None
        | Some s2 \<Rightarrow>
            let s3 = (if \<not> sv_disable_lock s2 \<and> \<not> has_lock_action then emit [AddScrollLockRule] s2 else s2);
                s4 = emit [Call (sv_primary s3) (Reconfigure (active_primary_sides e s3))] s3
            in Some (True, fold (send_options e) (all_clients s4) s4))"

section \<open>Shapes and clipboards\<close>

definition handle_shape_changed :: "screen_env \<Rightarrow> client \<Rightarrow> server \<Rightarrow> server option" where
  "handle_shape_changed e c s =
     (if c \<notin> sv_client_set s then Some s
      else
        case en_cursor e c of (x, y) \<Rightarrow>
          let s1 = set_jump_cursor_pos c (x, y) s;
              s2 = (if c = sv_active s1 then s1\<lparr>sv_x := x, sv_y := y\<rparr> else s1)
          in if c = sv_primary s2
             then (if c = sv_active s2 then map_option snd (on_mouse_move_primary e (sv_x s2) (sv_y s2) s2)
                   else on_mouse_move_secondary e 0 0 s2)
             else Some s2)"

definition handle_clipboard_grabbed :: "screen_env \<Rightarrow> client \<Rightarrow> nat \<Rightarrow> u32 \<Rightarrow> server \<Rightarrow> server option" where
  "handle_clipboard_grabbed e grabber i seq s =
     (if \<not> sv_enable_clipboard s \<or> sv_max_clipboard s = 0 then Some s
      else if grabber \<notin> sv_client_set s then Some s
      else if grabber \<noteq> sv_primary s \<and> seq < ci_seq (clip_at s i) then Some s
      else
        case marshall (clip_close (snd (clip_empty (snd (clip_open 0 (ci_clipboard (clip_at s i))))))) of
          (d, cleared) \<Rightarrow>
            let s1 = put_clip i \<lparr>ci_clipboard = cleared, ci_data = d, ci_owner = client_name e s grabber, ci_seq = seq\<rparr> s;
                s2 = emit (map (\<lambda>c. Call c (if c = grabber then SetClipboardDirty i False else GrabClipboard i))
                       (all_clients s1)) s1
            in if grabber = sv_primary s2 \<and> sv_active s2 \<noteq> sv_primary s2
               then on_clipboards_changed e (sv_primary s2) (\<lambda>_ _. True) clipboard_ids s2
               else Some s2)"

definition handle_clipboard_changed :: "screen_env \<Rightarrow> client \<Rightarrow> nat \<Rightarrow> u32 \<Rightarrow> server \<Rightarrow> server option" where
  "handle_clipboard_changed e c i seq s =
     (if c \<notin> sv_client_set s then Some s else on_clipboard_changed e c i seq s)"

section \<open>Start and steps\<close>

definition start_clip :: "string \<Rightarrow> clip_info" where
  "start_clip owner =
     (case marshall (clip_close (snd (clip_empty (snd (clip_open 0 new_clipboard))))) of
        (d, c) \<Rightarrow> \<lparr>ci_clipboard = c, ci_data = d, ci_owner = owner, ci_seq = 0\<rparr>)"

definition blank_server :: "client \<Rightarrow> config \<Rightarrow> int \<Rightarrow> int \<Rightarrow> server" where
  "blank_server primary cfg x0 y0 =
     \<lparr>sv_primary = primary, sv_active = primary, sv_config = cfg, sv_active_saver = None, sv_switch_screen = None,
      sv_switch_wait_delay = 0, sv_switch_wait_timer = False, sv_two_tap_delay = 0, sv_two_tap_mark = 0,
      sv_max_clipboard = 2147483647, sv_broadcast_screens = [], sv_clients = [], sv_client_set = {},
      sv_old_clients = {}, sv_watched = {}, sv_deleted = {}, sv_clipboards = [], sv_protocol = 1, sv_seq = 0,
      sv_x = x0, sv_y = y0, sv_x_delta = 0, sv_y_delta = 0, sv_x_delta2 = 0, sv_y_delta2 = 0,
      sv_x_saver = 0, sv_y_saver = 0, sv_wait_x = 0, sv_wait_y = 0, sv_switch_dir = NoDirection,
      sv_two_tap_engaged = False, sv_two_tap_armed = False, sv_needs_shift = False, sv_needs_control = False,
      sv_needs_alt = False, sv_relative_moves = False, sv_broadcasting = False, sv_locked = False,
      sv_default_lock = False, sv_disable_lock = False, sv_enable_clipboard = True, sv_jump_pos = (\<lambda>_. (0, 0)),
      sv_trace = []\<rparr>"

definition new_server :: "screen_env \<Rightarrow> client \<Rightarrow> config \<Rightarrow> bool \<Rightarrow> int \<Rightarrow> int \<Rightarrow> server option" where
  "new_server e primary cfg has_lock_action x0 y0 =
     (if \<not> is_screen cfg (en_name e primary) then None
      else
        let s0 = blank_server primary cfg x0 y0;
            s1 = s0\<lparr>sv_two_tap_mark := en_now e,
                    sv_clipboards := map (\<lambda>_. start_clip (client_name e s0 primary)) clipboard_ids\<rparr>;
            s2 = snd (add_client e primary s1)
        in case set_config e cfg has_lock_action s2 of
             None \<Rightarrow> None
           | Some (_, s3) \<Rightarrow>
               if \<not> sv_disable_lock s3 \<and> and (en_toggle_mask e) KeyModifierScrollLock \<noteq> 0
               then Some (s3\<lparr>sv_locked := True\<rparr>)
               else if sv_default_lock s3 then Some (s3\<lparr>sv_locked := True\<rparr>)
               else Some s3)"

datatype server_event =
  EvMotionPrimary int int
| EvMotionSecondary int int
| EvSwitchWaitTimeout
| EvSwitchToScreen string
| EvSwitchInDirection direction
| EvToggleScreen
| EvLockCursor toggle_state
| EvKeyboardBroadcast toggle_state string
| EvKeyDown u32 u32 u16 string string
| EvKeyUp u32 u32 u16 string
| EvKeyRepeat u32 u32 int u16 string
| EvButtonDown nat
| EvButtonUp nat
| EvWheel int int
| EvScreensaver bool
| EvFakeInputBegin
| EvFakeInputEnd
| EvShapeChanged client
| EvClipboardGrabbed client nat u32
| EvClipboardChanged client nat u32
| EvClientAdopted client
| EvClientDisconnected client
| EvClientCloseTimeout client
| EvSetConfig config bool
| EvDisconnect

fun server_step :: "screen_env \<Rightarrow> server_event \<Rightarrow> server \<Rightarrow> server option" where
  "server_step e (EvMotionPrimary x y) s = map_option snd (on_mouse_move_primary e x y s)"
| "server_step e (EvMotionSecondary dx dy) s = on_mouse_move_secondary e dx dy s"
| "server_step e EvSwitchWaitTimeout s =
     (if sv_switch_wait_timer s then handle_switch_wait_timeout e s else Some s)"
| "server_step e (EvSwitchToScreen name) s = handle_switch_to_screen e name s"
| "server_step e (EvSwitchInDirection dir) s = handle_switch_in_direction e dir s"
| "server_step e EvToggleScreen s = handle_toggle_screen e s"
| "server_step e (EvLockCursor t) s = Some (handle_lock_cursor e t s)"
| "server_step e (EvKeyboardBroadcast t screens) s = Some (handle_keyboard_broadcast t screens s)"
| "server_step e (EvKeyDown k m b lang screens) s = Some (relay_key (KeyDown k m b lang) screens s)"
| "server_step e (EvKeyUp k m b screens) s = Some (relay_key (KeyUp k m b) screens s)"
| "server_step e (EvKeyRepeat k m n b lang) s = Some (relay (KeyRepeat k m n b lang) s)"
| "server_step e (EvButtonDown b) s = Some (relay (MouseDown b) s)"
| "server_step e (EvButtonUp b) s = Some (relay (MouseUp b) s)"
| "server_step e (EvWheel dx dy) s = Some (relay (MouseWheel dx dy) s)"
| "server_step e (EvScreensaver activated) s = on_screensaver e activated s"
| "server_step e EvFakeInputBegin s = Some (emit [Call (sv_primary s) FakeInputBegin] s)"
| "server_step e EvFakeInputEnd s = Some (emit [Call (sv_primary s) FakeInputEnd] s)"
| "server_step e (EvShapeChanged c) s = handle_shape_changed e c s"
| "server_step e (EvClipboardGrabbed c i seq) s =
     (if i < unat kClipboardEnd then handle_clipboard_grabbed e c i seq s else Some s)"
| "server_step e (EvClipboardChanged c i seq) s =
     (if i < unat kClipboardEnd then handle_clipboard_changed e c i seq s else Some s)"
| "server_step e (EvClientAdopted c) s =
     (if c = sv_primary s \<or> c \<in> sv_watched s \<or> c \<in> sv_deleted s then Some s else Some (adopt_client e c s))"
| "server_step e (EvClientDisconnected c) s =
     (if c \<in> sv_watched s then Some (handle_client_disconnected e c s) else Some s)"
| "server_step e (EvClientCloseTimeout c) s =
     (if c \<in> sv_old_clients s then Some (handle_client_close_timeout c s) else Some s)"
| "server_step e (EvSetConfig cfg has_lock_action) s = map_option snd (set_config e cfg has_lock_action s)"
| "server_step e EvDisconnect s = Some (server_disconnect e s)"

fun server_run :: "server \<Rightarrow> (screen_env \<times> server_event) list \<Rightarrow> server option" where
  "server_run s [] = Some s"
| "server_run s ((e, ev) # evs) = (case server_step e ev s of None \<Rightarrow> None | Some s1 \<Rightarrow> server_run s1 evs)"

end
