(* ===== verification/ServerInvariant.thy ===== *)
theory ServerInvariant
  imports ServerEvents
begin

text \<open>
  What the handlers of the server keep. \<open>keeps\<close> relates the states before and after an operation that
  neither changes the set of clients nor the configuration; it is a preorder that every operation of
  that kind satisfies, so the lemmas compose along the handlers' code.
\<close>

section \<open>The preorder\<close>

definition clipboards_fit :: "nat \<Rightarrow> server_effect list \<Rightarrow> bool" where
  "clipboards_fit limit es \<longleftrightarrow>
     (\<forall>x \<in> set es. case x of Call c (SetClipboard i cb) \<Rightarrow> length (fst (marshall cb)) \<le> limit * 1024 | _ \<Rightarrow> True)"

definition wait_ok :: "server \<Rightarrow> bool" where
  "wait_ok s \<longleftrightarrow> (sv_switch_wait_timer s \<longrightarrow> sv_switch_screen s \<noteq> None)"

definition same_clients :: "server \<Rightarrow> server \<Rightarrow> bool" where
  "same_clients s t \<longleftrightarrow>
     sv_primary t = sv_primary s \<and> sv_clients t = sv_clients s \<and> sv_client_set t = sv_client_set s \<and>
     sv_old_clients t = sv_old_clients s \<and> sv_watched t = sv_watched s \<and> sv_deleted t = sv_deleted s \<and>
     sv_config t = sv_config s"

definition same_settings :: "server \<Rightarrow> server \<Rightarrow> bool" where
  "same_settings s t \<longleftrightarrow>
     sv_switch_wait_delay t = sv_switch_wait_delay s \<and> sv_max_clipboard t = sv_max_clipboard s \<and>
     sv_enable_clipboard t = sv_enable_clipboard s"

definition sends :: "server \<Rightarrow> server \<Rightarrow> bool" where
  "sends s t \<longleftrightarrow> (\<exists>es. sv_trace t = sv_trace s @ es \<and> clipboards_fit (sv_max_clipboard s) es)"

definition keeps :: "server \<Rightarrow> server \<Rightarrow> bool" where
  "keeps s t \<longleftrightarrow>
     same_clients s t \<and> same_settings s t \<and> sv_active_saver t = sv_active_saver s \<and> sends s t \<and>
     (sv_switch_wait_timer t \<longrightarrow> sv_switch_wait_timer s \<or> sv_switch_wait_delay s > 0) \<and> (wait_ok s \<longrightarrow> wait_ok t)"

definition keeps_active :: "server \<Rightarrow> server \<Rightarrow> bool" where
  "keeps_active s t \<longleftrightarrow> keeps s t \<and> sv_active t = sv_active s"

lemmas keeps_defs = keeps_active_def keeps_def same_clients_def same_settings_def

lemma fit_append: "clipboards_fit n (es @ fs) \<longleftrightarrow> clipboards_fit n es \<and> clipboards_fit n fs"
  by (auto simp: clipboards_fit_def)

lemma fit_Nil [simp]: "clipboards_fit n []"
  by (simp add: clipboards_fit_def)

lemma sends_refl: "sends s s"
  by (simp add: sends_def)

lemma sends_same: "sv_trace t = sv_trace s \<Longrightarrow> sends s t"
  by (simp add: sends_def)

lemma sends_trans: "sends s t \<Longrightarrow> sv_max_clipboard t = sv_max_clipboard s \<Longrightarrow> sends t u \<Longrightarrow> sends s u"
  by (auto simp: sends_def fit_append)

lemma keeps_refl: "keeps s s"
  by (simp add: keeps_defs sends_refl)

lemma keeps_trans:
  assumes "keeps s t" and "keeps t u"
  shows "keeps s u"
proof -
  have "sends s u" using assms sends_trans [of s t u] by (simp add: keeps_def same_settings_def)
  moreover have "sv_switch_wait_timer u \<longrightarrow> sv_switch_wait_timer s \<or> sv_switch_wait_delay s > 0"
    using assms unfolding keeps_def same_settings_def by metis
  ultimately show ?thesis using assms unfolding keeps_def same_clients_def same_settings_def by simp
qed

lemma keeps_active_refl: "keeps_active s s"
  by (simp add: keeps_active_def keeps_refl)

lemma keeps_active_trans: "keeps_active s t \<Longrightarrow> keeps_active t u \<Longrightarrow> keeps_active s u"
  using keeps_trans by (auto simp: keeps_active_def)

lemma keeps_activeD: "keeps_active s t \<Longrightarrow> keeps s t"
  by (simp add: keeps_active_def)

lemma keeps_emit: "clipboards_fit (sv_max_clipboard s) es \<Longrightarrow> keeps_active s (emit es s)"
  by (auto simp: keeps_defs emit_def wait_ok_def sends_def)

text \<open>A change of fields the preorder does not speak about.\<close>

lemma keeps_fields:
  assumes "same_clients s t" "same_settings s t" "sv_active_saver t = sv_active_saver s" "sv_trace t = sv_trace s"
    "sv_switch_wait_timer t = sv_switch_wait_timer s" "sv_switch_screen t = sv_switch_screen s" "sv_active t = sv_active s"
  shows "keeps_active s t"
  using assms by (auto simp: keeps_active_def keeps_def wait_ok_def intro: sends_same)

lemma keeps_if: "(P \<Longrightarrow> keeps_active s a) \<Longrightarrow> (\<not> P \<Longrightarrow> keeps_active s b) \<Longrightarrow> keeps_active s (if P then a else b)"
  by simp

section \<open>Waiting and switching\<close>

lemma keeps_stop_switch: "keeps_active s (stop_switch s)"
  by (auto simp: keeps_defs stop_switch_def stop_switch_wait_def stop_switch_two_tap_def wait_ok_def intro: sends_same)

lemma keeps_stop_switch_wait: "keeps_active s (stop_switch_wait s)"
  by (auto simp: keeps_defs stop_switch_wait_def wait_ok_def intro: sends_same)

lemma keeps_stop_two_tap: "keeps_active s (stop_switch_two_tap s)"
  by (rule keeps_fields) (simp_all add: stop_switch_two_tap_def same_clients_def same_settings_def)

lemma keeps_armed: "keeps_active s (s\<lparr>sv_two_tap_armed := b\<rparr>)"
  by (rule keeps_fields) (simp_all add: same_clients_def same_settings_def)

lemma keeps_arm: "keeps_active s (arm_switch_two_tap e x y s)"
proof -
  obtain ax ay aw ah where "en_shape e (sv_active s) = (ax, ay, aw, ah)" by (cases "en_shape e (sv_active s)")
  then show ?thesis
    unfolding arm_switch_two_tap_def Let_def
    by (cases "sv_switch_dir s") (simp_all add: keeps_active_refl keeps_armed keeps_stop_two_tap)
qed

lemma keeps_no_switch: "keeps_active s (no_switch e x y s)"
  unfolding no_switch_def by (rule keeps_active_trans [OF keeps_arm keeps_stop_switch_wait])

lemma keeps_start_tap: "keeps_active s (start_switch_two_tap e s)"
  by (rule keeps_fields) (simp_all add: start_switch_two_tap_def same_clients_def same_settings_def)

lemma keeps_start_wait:
  "sv_switch_wait_delay s > 0 \<Longrightarrow> sv_switch_screen s \<noteq> None \<Longrightarrow> keeps_active s (start_switch_wait x y s)"
  by (auto simp: keeps_defs start_switch_wait_def stop_switch_wait_def wait_ok_def intro: sends_same)

lemma keeps_switch_target: "sc \<noteq> None \<Longrightarrow> keeps_active s (s\<lparr>sv_switch_dir := d, sv_switch_screen := sc\<rparr>)"
  by (auto simp: keeps_defs wait_ok_def intro: sends_same)

lemma start_tap_screen: "sv_switch_screen (start_switch_two_tap e s) = sv_switch_screen s"
  by (simp add: start_switch_two_tap_def)

lemma keeps_then_if:
  assumes "keeps_active s t" and "c \<Longrightarrow> keeps_active t u"
  shows "keeps_active s (if c then u else t)"
  using assms keeps_active_trans by simp

lemma keeps_is_switch_okay: "keeps_active s (snd (is_switch_okay e sc dir x y xa ya s))"
proof (cases "sc = None")
  case False
  define nd where "nd \<longleftrightarrow> dir \<noteq> sv_switch_dir s"
  define s1 where "s1 = (if nd \<or> sv_switch_screen s = None then s\<lparr>sv_switch_dir := dir, sv_switch_screen := sc\<rparr> else s)"
  define tap where "tap \<longleftrightarrow> sv_two_tap_delay s1 > 0 \<and> (nd \<or> \<not> sv_two_tap_engaged s1 \<or> \<not> should_switch_two_tap e s1)"
  define s2 where "s2 = (if tap then start_switch_two_tap e s1 else s1)"
  define waiting where "waiting \<longleftrightarrow> \<not> (sv_two_tap_delay s1 > 0 \<and> \<not> tap) \<and> sv_switch_wait_delay s2 > 0"
  define s3 where "s3 = (if waiting \<and> (nd \<or> \<not> sv_switch_wait_timer s2) then start_switch_wait x y s2 else s2)"
  define cor where "cor = corner_locked e s3 xa ya"
  define s4 where "s4 = (if cor then stop_switch s3 else s3)"
  define lck where "lck \<longleftrightarrow> \<not> (tap \<or> waiting \<or> cor) \<and> is_locked_to_screen e s4"
  define s5 where "s5 = (if lck then stop_switch s4 else s4)"
  define miss where "miss \<longleftrightarrow> \<not> (tap \<or> waiting \<or> cor \<or> lck) \<and> modifiers_missing e s5"
  define s6 where "s6 = (if miss then stop_switch s5 else s5)"
  have eq: "snd (is_switch_okay e sc dir x y xa ya s) = s6"
    unfolding is_switch_okay_def Let_def s6_def miss_def s5_def lck_def s4_def cor_def s3_def waiting_def s2_def
      tap_def s1_def nd_def using False by (simp only: if_False snd_conv disj_assoc)
  have screen: "sv_switch_screen s2 \<noteq> None" using False by (simp add: s2_def s1_def start_tap_screen)
  have "keeps_active s s1" unfolding s1_def by (rule keeps_then_if [of s s]) (simp_all add: False keeps_active_refl keeps_switch_target)
  then have "keeps_active s s2" unfolding s2_def by (rule keeps_then_if) (rule keeps_start_tap)
  then have "keeps_active s s3"
    unfolding s3_def by (rule keeps_then_if) (use screen waiting_def in \<open>blast intro: keeps_start_wait\<close>)
  then have "keeps_active s s4" unfolding s4_def by (rule keeps_then_if) (rule keeps_stop_switch)
  then have "keeps_active s s5" unfolding s5_def by (rule keeps_then_if) (rule keeps_stop_switch)
  then have "keeps_active s s6" unfolding s6_def by (rule keeps_then_if) (rule keeps_stop_switch)
  then show ?thesis unfolding eq .
qed (simp add: is_switch_okay_def keeps_stop_switch)

lemma marshall_again: "fst (marshall (snd (marshall c))) = fst (marshall c)"
proof -
  have "marshall_format (c\<lparr>cb_open := True, cb_time := 0\<rparr>) = marshall_format c" if "cb_open c"
    using that by (intro ext) (simp add: marshall_format_def clip_has_def clip_get_def)
  then show ?thesis
    by (cases "cb_open c") (simp_all add: marshall_def clip_open_def clip_close_def clip_has_def)
qed

lemma keeps_put_clip: "keeps_active s (put_clip i c s)"
  by (rule keeps_fields) (simp_all add: put_clip_def same_clients_def same_settings_def)

lemma keeps_clipboard_changed:
  assumes "on_clipboard_changed e sender i seq s = Some t"
  shows "keeps_active s t"
proof -
  obtain d st where m: "marshall (en_get_clipboard e sender i (ci_clipboard (clip_at s i))) = (d, st)" by fastforce
  have fit: "length (fst (marshall st)) = length d" using m marshall_again by (metis fst_conv snd_conv)
  let ?u = "put_clip i ((clip_at s i)\<lparr>ci_clipboard := st, ci_data := d\<rparr>) s"
  have max: "sv_max_clipboard ?u = sv_max_clipboard s" by (simp add: put_clip_def)
  consider "t = s" | "t = put_clip i ((clip_at s i)\<lparr>ci_clipboard := st\<rparr>) s"
    | "\<not> length d > sv_max_clipboard s * 1024"
      "t = emit (map (\<lambda>c. Call c (SetClipboardDirty i (c \<noteq> sender))) (all_clients s) @ [Call (sv_active s) (SetClipboard i st)]) ?u"
    using assms unfolding on_clipboard_changed_def Let_def m prod.case
    by (metis (no_types, lifting) option.distinct(1) option.inject)
  then show ?thesis
  proof cases
    case 3
    have "clipboards_fit (sv_max_clipboard ?u)
        (map (\<lambda>c. Call c (SetClipboardDirty i (c \<noteq> sender))) (all_clients s) @ [Call (sv_active s) (SetClipboard i st)])"
      using 3(1) fit max by (auto simp: clipboards_fit_def)
    then show ?thesis using 3(2) keeps_active_trans [OF keeps_put_clip keeps_emit] by blast
  qed (auto intro: keeps_active_refl keeps_put_clip)
qed

lemma keeps_clipboards_changed: "on_clipboards_changed e sender guard is s = Some t \<Longrightarrow> keeps_active s t"
proof (induction "is" arbitrary: s)
  case (Cons i "is")
  show ?case
  proof (cases "guard s i")
    case True
    then obtain u where u: "on_clipboard_changed e sender i (ci_seq (clip_at s i)) s = Some u"
        "on_clipboards_changed e sender guard is u = Some t"
      using Cons.prems by (auto split: option.splits)
    show ?thesis by (rule keeps_active_trans [OF keeps_clipboard_changed [OF u(1)] Cons.IH [OF u(2)]])
  qed (use Cons in simp)
qed (simp add: keeps_active_refl)

lemma keeps_send_clipboards: "keeps_active s (send_clipboards is s)"
proof (induction "is" arbitrary: s)
  case (Cons i "is")
  obtain d st where m: "marshall (ci_clipboard (clip_at s i)) = (d, st)" by fastforce
  have fit: "length (fst (marshall st)) = length d" using m marshall_again by (metis fst_conv snd_conv)
  let ?u = "put_clip i ((clip_at s i)\<lparr>ci_clipboard := st\<rparr>) s"
  have put: "keeps_active s ?u" by (rule keeps_put_clip)
  have max: "sv_max_clipboard ?u = sv_max_clipboard s" by (simp add: put_clip_def)
  show ?case
  proof (cases "length d > sv_max_clipboard s * 1024")
    case True
    then show ?thesis using m keeps_active_trans [OF put Cons.IH] by simp
  next
    case False
    then have "clipboards_fit (sv_max_clipboard ?u) [Call (sv_active ?u) (SetClipboard i st)]"
      using fit max by (auto simp: clipboards_fit_def)
    then have "keeps_active s (emit [Call (sv_active ?u) (SetClipboard i st)] ?u)"
      by (rule keeps_active_trans [OF put keeps_emit])
    then show ?thesis using m False keeps_active_trans [OF _ Cons.IH] by (simp add: put_clip_def)
  qed
qed (simp add: keeps_active_refl)

lemma keeps_switch_screen:
  assumes "switch_screen e dst x y saver s = Some t"
  shows "keeps s t \<and> (sv_active t = sv_active s \<or> sv_active t = dst)"
proof -
  define s1 where "s1 = (stop_switch s)\<lparr>sv_x := x, sv_y := y, sv_x_delta := 0, sv_y_delta := 0,
      sv_x_delta2 := 0, sv_y_delta2 := 0\<rparr>"
  define s2 where "s2 = emit [Call (sv_active s1) Leave] s1"
  have k1: "keeps_active s s1"
    unfolding s1_def by (rule keeps_active_trans [OF keeps_stop_switch keeps_fields])
      (simp_all add: same_clients_def same_settings_def)
  have k2: "keeps_active s s2"
    unfolding s2_def by (rule keeps_active_trans [OF k1 keeps_emit]) (simp add: clipboards_fit_def)
  define r where "r = (if sv_active s2 = sv_primary s2 \<and> sv_enable_clipboard s2
    then on_clipboards_changed e (sv_primary s2) (\<lambda>t i. ci_owner (clip_at t i) = client_name e t (sv_primary t)) clipboard_ids s2
    else Some s2)"
  have def: "switch_screen e dst x y saver s = (if sv_active s1 = dst then Some (emit [Call dst (MouseMove x y)] s1)
    else if \<not> en_leaves e (sv_active s1) then Some s2
    else case r of None \<Rightarrow> None | Some s3 \<Rightarrow>
      let s4 = emit [Call dst (Enter x y (sv_seq s3 + 1) (en_toggle_mask e) saver)] (s3\<lparr>sv_active := dst, sv_seq := sv_seq s3 + 1\<rparr>);
          s5 = (if sv_enable_clipboard s4 then send_clipboards clipboard_ids s4 else s4)
      in Some (emit [PostScreenSwitched (en_name e dst)] s5))"
    unfolding switch_screen_def s1_def [symmetric] s2_def [symmetric] r_def Let_def ..
  consider "t = emit [Call dst (MouseMove x y)] s1" | "t = s2" | "sv_active s1 \<noteq> dst" "en_leaves e (sv_active s1)"
    using assms unfolding def by (cases "sv_active s1 = dst"; cases "en_leaves e (sv_active s1)") auto
  then show ?thesis
  proof cases
    case 1
    have "keeps_active s1 t" unfolding 1 by (rule keeps_emit) (simp add: clipboards_fit_def)
    then show ?thesis using keeps_active_trans [OF k1] by (auto simp: keeps_active_def)
  next
    case 2
    then show ?thesis using k2 by (simp add: keeps_active_def)
  next
    case 3
    then obtain s3 where s3: "r = Some s3" using assms unfolding def by (cases r) auto
    have k3: "keeps_active s2 s3"
      using s3 keeps_clipboards_changed unfolding r_def by (auto split: if_splits intro: keeps_active_refl)
    define s4 where "s4 = emit [Call dst (Enter x y (sv_seq s3 + 1) (en_toggle_mask e) saver)]
      (s3\<lparr>sv_active := dst, sv_seq := sv_seq s3 + 1\<rparr>)"
    have "keeps s3 (s3\<lparr>sv_active := dst, sv_seq := sv_seq s3 + 1\<rparr>)"
      by (simp add: keeps_defs wait_ok_def sends_same)
    moreover have "keeps (s3\<lparr>sv_active := dst, sv_seq := sv_seq s3 + 1\<rparr>) s4"
      unfolding s4_def by (rule keeps_activeD [OF keeps_emit]) (simp add: clipboards_fit_def)
    ultimately have k4: "keeps s s4"
      using keeps_trans keeps_active_trans [OF k2 k3] by (meson keeps_activeD)
    have a4: "sv_active s4 = dst" by (simp add: s4_def emit_def)
    let ?s5 = "if sv_enable_clipboard s4 then send_clipboards clipboard_ids s4 else s4"
    have k5: "keeps_active s4 ?s5" by (rule keeps_if) (simp_all add: keeps_send_clipboards keeps_active_refl)
    have t: "t = emit [PostScreenSwitched (en_name e dst)] ?s5"
      using 3 s3 assms unfolding def s4_def Let_def by simp
    have "keeps_active s4 t" unfolding t by (rule keeps_active_trans [OF k5 keeps_emit]) (simp add: clipboards_fit_def)
    then show ?thesis using k4 a4 keeps_trans by (auto simp: keeps_active_def)
  qed
qed

lemma keeps_jump:
  assumes "jump_to_screen e c s = Some t"
  shows "keeps s t \<and> (sv_active t = sv_active s \<or> sv_active t = c)"
proof -
  have "keeps_active s (set_jump_cursor_pos a p s)" for a p
    by (rule keeps_fields) (simp_all add: set_jump_cursor_pos_def same_clients_def same_settings_def)
  then show ?thesis
    using assms keeps_switch_screen keeps_trans unfolding jump_to_screen_def Let_def
    by (fastforce simp: keeps_active_def split: prod.splits)
qed

section \<open>Where a switch can lead\<close>

definition moves :: "server \<Rightarrow> server \<Rightarrow> bool" where
  "moves s t \<longleftrightarrow> keeps s t \<and> (sv_active t = sv_active s \<or> sv_active t \<in> set (all_clients s))"

lemma keeps_all_clients: "keeps s t \<Longrightarrow> all_clients t = all_clients s"
  by (simp add: keeps_def same_clients_def all_clients_def)

lemma moves_trans: "moves s t \<Longrightarrow> moves t u \<Longrightarrow> moves s u"
  unfolding moves_def using keeps_trans keeps_all_clients by metis

lemma keeps_moves: "keeps_active s t \<Longrightarrow> moves s t"
  by (simp add: keeps_active_def moves_def)

lemma moves_refl: "moves s s"
  by (rule keeps_moves [OF keeps_active_refl])

lemma keeps_active_clients: "keeps_active s t \<Longrightarrow> all_clients t = all_clients s"
  by (simp add: keeps_defs all_clients_def)

lemma moves_switch:
  "switch_screen e dst x y saver s = Some t \<Longrightarrow> dst \<in> set (all_clients s) \<Longrightarrow> moves s t"
  using keeps_switch_screen by (fastforce simp: moves_def)

lemma moves_jump: "jump_to_screen e c s = Some t \<Longrightarrow> c \<in> set (all_clients s) \<Longrightarrow> moves s t"
  using keeps_jump by (fastforce simp: moves_def)

lemma map_find_value: "map_find lt k es = Some v \<Longrightarrow> v \<in> set (map snd es)"
proof -
  assume "map_find lt k es = Some v"
  then obtain k' where "map_entry lt k es = Some (k', v)" by (auto simp: map_find_def)
  then have "(k', v) \<in> set es" using map_entry_mem by fast
  then show "v \<in> set (map snd es)" by force
qed

lemma search_neighbor_client:
  assumes "search_neighbor rnd cfg clients dir src t = Some (Some (c, p))"
  shows "c \<in> set (map snd clients)"
proof -
  let ?P = "\<lambda>(_ :: real \<Rightarrow> real) (_ :: config) cl (_ :: direction) (_ :: string) (_ :: real) r.
    \<forall>c p. r = Some (c, p) \<longrightarrow> c \<in> set (map snd cl)"
  have "?P rnd cfg clients dir src t (Some (c, p))"
  proof (rule search_neighbor.raw_induct [where P = ?P, OF _ assms])
    fix f rnd cfg cl dir src t r
    assume IH: "\<And>rnd cfg cl dir src t r. f rnd cfg cl dir src t = Some r \<Longrightarrow> ?P rnd cfg cl dir src t r"
      and body: "(case get_neighbor rnd cfg src dir t of (name, pos) \<Rightarrow>
          if name = [] then Some None
          else case map_find (<) name cl of
            None \<Rightarrow> (case pos of None \<Rightarrow> Some None | Some p \<Rightarrow> f rnd cfg cl dir name p)
          | Some c \<Rightarrow> Some (map_option (Pair c) pos)) = Some r"
    obtain name pos where g: "get_neighbor rnd cfg src dir t = (name, pos)" by fastforce
    show "?P rnd cfg cl dir src t r"
    proof (cases "map_find (<) name cl")
      case None
      then show ?thesis using body g IH by (auto split: if_splits option.splits)
    next
      case (Some c)
      then show ?thesis using body g map_find_value [OF Some] by (auto split: if_splits)
    qed
  qed
  then show ?thesis by blast
qed

lemma server_neighbor_client: "server_neighbor e s src dir x y = Some (Some (c, q)) \<Longrightarrow> c \<in> set (all_clients s)"
  using search_neighbor_client by (fastforce simp: server_neighbor_def all_clients_def split: option.splits)

lemma walk_neighbors_client:
  assumes "walk_neighbors e s dir last_screen d pos = Some (c, q)"
  shows "c = d \<or> c \<in> set (all_clients s)"
proof -
  let ?P = "\<lambda>(_ :: screen_env) t (_ :: direction) (_ :: client) d (_ :: int \<times> int) r.
    fst r = d \<or> fst r \<in> set (all_clients t)"
  have "?P e s dir last_screen d pos (c, q)"
  proof (rule walk_neighbors.raw_induct [where P = ?P, OF _ assms])
    fix f e s dir last_screen d pos r
    assume IH: "\<And>e s dir last_screen d pos r. f e s dir last_screen d pos = Some r \<Longrightarrow> ?P e s dir last_screen d pos r"
      and body: "(case enter_screen e dir last_screen d (fst pos) (snd pos) of ((x1, y1), inside) \<Rightarrow>
          if inside then Some (d, x1, y1)
          else case server_neighbor e s d dir x1 y1 of
            None \<Rightarrow> None
          | Some None \<Rightarrow> Some (d, x1, y1)
          | Some (Some (n, pos2)) \<Rightarrow> f e s dir d n pos2) = Some r"
    obtain x1 y1 inside where en: "enter_screen e dir last_screen d (fst pos) (snd pos) = ((x1, y1), inside)"
      by (metis surj_pair)
    show "?P e s dir last_screen d pos r"
    proof (cases "server_neighbor e s d dir x1 y1")
      case None
      then show ?thesis using body en by (auto split: if_splits)
    next
      case (Some found)
      show ?thesis
      proof (cases found)
        case None
        then show ?thesis using body en Some by (auto split: if_splits)
      next
        case (Some t)
        obtain n pos2 where t: "t = (n, pos2)" by (cases t)
        have n: "server_neighbor e s d dir x1 y1 = Some (Some (n, pos2))" using \<open>_ = Some found\<close> Some t by simp
        then have "inside \<and> r = (d, x1, y1) \<or> f e s dir d n pos2 = Some r" using body en by (auto split: if_splits)
        then show ?thesis using IH server_neighbor_client [OF n] by fastforce
      qed
    qed
  qed
  then show ?thesis by simp
qed

lemma map_to_neighbor_client:
  assumes "map_to_neighbor e s src dir x y = Some (Some (c, q))"
  shows "c \<in> set (all_clients s)"
proof -
  obtain dst x1 y1 where n: "server_neighbor e s src dir x y = Some (Some (dst, x1, y1))"
    using assms unfolding map_to_neighbor_def by (auto split: option.splits)
  obtain sx sy sw sh where sh: "en_shape e src = (sx, sy, sw, sh)" by (cases "en_shape e src")
  let ?w = "if along dir then walk_neighbors e s dir src dst (x1 - sx, y1) else walk_neighbors e s dir src dst (x1, y1 - sy)"
  obtain good q1 where w: "?w = Some (good, q1)" and good: "good = c"
    using assms n sh unfolding map_to_neighbor_def by (fastforce split: option.splits prod.splits)
  then have "c = dst \<or> c \<in> set (all_clients s)" using walk_neighbors_client by (metis (full_types))
  then show ?thesis using server_neighbor_client [OF n] by blast
qed

section \<open>The handlers of the mouse and of jumps\<close>

lemma moves_try_directions: "try_directions e xc yc ds s = Some (b, t) \<Longrightarrow> moves s t"
proof (induction ds arbitrary: s)
  case (Cons d ds)
  obtain dir x y where d: "d = (dir, x, y)" by (cases d)
  show ?case
  proof (cases "dir = NoDirection")
    case False
    then obtain found where found: "map_to_neighbor e s (sv_active s) dir x y = Some found"
      using Cons.prems d by (auto split: option.splits)
    obtain sc x2 y2 where sc: "(case found of None \<Rightarrow> (None, x, y) | Some (c, x1, y1) \<Rightarrow> (Some c, x1, y1)) = (sc, x2, y2)"
      by (metis surj_pair)
    obtain okay s1 where ok: "is_switch_okay e sc dir x2 y2 xc yc s = (okay, s1)" by fastforce
    have k: "keeps_active s s1" using keeps_is_switch_okay [of s e sc dir x2 y2 xc yc] ok by simp
    show ?thesis
    proof (cases "okay \<and> sc \<noteq> None")
      case True
      then obtain c where c: "sc = Some c" by blast
      then have "map_to_neighbor e s (sv_active s) dir x y = Some (Some (c, x2, y2))"
        using found sc by (auto split: option.splits)
      then have "c \<in> set (all_clients s1)" using map_to_neighbor_client keeps_active_clients [OF k] by fastforce
      moreover have "switch_screen e c x2 y2 False s1 = Some t"
        using Cons.prems True c d False found sc ok by auto
      ultimately show ?thesis using moves_switch moves_trans [OF keeps_moves [OF k]] by blast
    next
      case no: False
      then have "try_directions e xc yc ds s1 = Some (b, t)"
        using Cons.prems d False found sc ok by (auto split: option.splits bool.splits)
      then show ?thesis using Cons.IH moves_trans [OF keeps_moves [OF k]] by blast
    qed
  qed (use Cons d in simp)
qed (simp add: moves_refl)

lemma moves_primary:
  assumes "on_mouse_move_primary e x y s = Some (b, t)"
  shows "moves s t"
proof (cases "sv_active s = sv_primary s")
  case True
  define s1 where "s1 = s\<lparr>sv_x_delta2 := sv_x_delta s, sv_y_delta2 := sv_y_delta s,
      sv_x_delta := x - sv_x s, sv_y_delta := y - sv_y s, sv_x := x, sv_y := y\<rparr>"
  have k: "keeps_active s s1" unfolding s1_def by (rule keeps_fields) (simp_all add: same_clients_def same_settings_def)
  have "t = no_switch e x y s1 \<or> (\<exists>xc yc ds. try_directions e xc yc ds s1 = Some (b, t))"
    using assms True unfolding on_mouse_move_primary_def s1_def [symmetric] Let_def
    by (auto split: prod.splits if_splits simp del: try_directions.simps)
  then show ?thesis
    using moves_trans [OF keeps_moves [OF k]] moves_try_directions keeps_moves [OF keeps_no_switch] by blast
qed (use assms in \<open>simp add: on_mouse_move_primary_def moves_refl\<close>)

lemma keeps_move_on_active: "keeps_active s (move_on_active e xo yo dx dy s)"
proof -
  obtain ax ay aw ah where sh: "en_shape e (sv_active s) = (ax, ay, aw, ah)" by (cases "en_shape e (sv_active s)")
  let ?s1 = "s\<lparr>sv_x := clamp ax aw (xo + dx), sv_y := clamp ay ah (yo + dy)\<rparr>"
  have k: "keeps_active s ?s1" by (rule keeps_fields) (simp_all add: same_clients_def same_settings_def)
  have "keeps_active s (emit [Call (sv_active ?s1) (MouseMove (sv_x ?s1) (sv_y ?s1))] ?s1)"
    by (rule keeps_active_trans [OF k keeps_emit]) (simp add: clipboards_fit_def)
  then show ?thesis unfolding move_on_active_def sh Let_def prod.case using k by (intro keeps_if)
qed

lemma moves_secondary:
  assumes "on_mouse_move_secondary e dx0 dy0 s = Some t"
  shows "moves s t"
proof -
  let ?dx = "en_adjust e dx0" and ?dy = "en_adjust e dy0"
  define s1 where "s1 = s\<lparr>sv_x_delta2 := sv_x_delta s, sv_y_delta2 := sv_y_delta s, sv_x_delta := ?dx, sv_y_delta := ?dy,
      sv_x := sv_x s + ?dx, sv_y := sv_y s + ?dy\<rparr>"
  have k1: "keeps_active s s1" unfolding s1_def by (rule keeps_fields) (simp_all add: same_clients_def same_settings_def)
  obtain ax ay aw ah where sh: "en_shape e (sv_active s1) = (ax, ay, aw, ah)" by (cases "en_shape e (sv_active s1)")
  define dir where "dir = leave_direction e s1"
  define s2 where "s2 = (if sv_switch_screen s1 \<noteq> None \<and> clear_wait e s1 then no_switch e (sv_x s1) (sv_y s1) s1 else s1)"
  have k2: "keeps_active s s2" unfolding s2_def by (rule keeps_then_if [OF k1 keeps_no_switch])
  define found where "found = map_to_neighbor e s1 (sv_active s1) dir (sv_x s1) (sv_y s1)"
  have def: "on_mouse_move_secondary e dx0 dy0 s =
     (if sv_active s = sv_primary s then Some s
      else if sv_relative_moves s \<and> sv_locked s then Some (emit [Call (sv_active s) (MouseRelativeMove ?dx ?dy)] s)
      else if dir = NoDirection then Some (move_on_active e (sv_x s) (sv_y s) ?dx ?dy s2)
      else case found of None \<Rightarrow> None | Some f \<Rightarrow>
        (case (case f of None \<Rightarrow> (None, sv_x s1, sv_y s1) | Some (c, x, y) \<Rightarrow> (Some c, x, y)) of (sc, x, y) \<Rightarrow>
          (case is_switch_okay e sc dir x y (clamp ax aw (sv_x s1)) (clamp ay ah (sv_y s1)) (s1\<lparr>sv_x := x, sv_y := y\<rparr>) of
            (okay, s3) \<Rightarrow> (case (okay, sc) of (True, Some c) \<Rightarrow> switch_screen e c x y False s3
              | _ \<Rightarrow> Some (move_on_active e (sv_x s) (sv_y s) ?dx ?dy s3)))))"
    unfolding on_mouse_move_secondary_def s1_def [symmetric] dir_def [symmetric] Let_def s2_def [symmetric] sh prod.case found_def ..
  consider "t = s" | "t = emit [Call (sv_active s) (MouseRelativeMove ?dx ?dy)] s"
    | "t = move_on_active e (sv_x s) (sv_y s) ?dx ?dy s2"
    | f where "found = Some f" "\<not> (sv_active s = sv_primary s)" "\<not> (sv_relative_moves s \<and> sv_locked s)" "dir \<noteq> NoDirection"
  proof (cases "sv_active s = sv_primary s \<or> (sv_relative_moves s \<and> sv_locked s) \<or> dir = NoDirection")
    case True
    then show ?thesis using that(1-3) assms unfolding def by (metis option.inject)
  next
    case False
    have "found \<noteq> None"
    proof
      assume "found = None"
      then show False using False assms unfolding def by (simp split: if_splits)
    qed
    then show ?thesis using that(4) False by blast
  qed
  then show ?thesis
  proof cases
    case 2
    then show ?thesis using keeps_moves [OF keeps_emit] by (simp add: clipboards_fit_def)
  next
    case 3
    then show ?thesis using keeps_moves [OF keeps_active_trans [OF k2 keeps_move_on_active]] by simp
  next
    case (4 f)
    obtain sc x y where sc: "(case f of None \<Rightarrow> (None, sv_x s1, sv_y s1) | Some (c, x, y) \<Rightarrow> (Some c, x, y)) = (sc, x, y)"
      by (metis surj_pair)
    obtain okay s3 where ok: "is_switch_okay e sc dir x y (clamp ax aw (sv_x s1)) (clamp ay ah (sv_y s1))
        (s1\<lparr>sv_x := x, sv_y := y\<rparr>) = (okay, s3)" by fastforce
    have "keeps_active s1 (s1\<lparr>sv_x := x, sv_y := y\<rparr>)"
      by (rule keeps_fields) (simp_all add: same_clients_def same_settings_def)
    then have k3: "keeps_active s s3" using k1 keeps_is_switch_okay keeps_active_trans ok by (metis snd_conv)
    show ?thesis
    proof (cases "okay \<and> sc \<noteq> None")
      case True
      then obtain c where c: "sc = Some c" by blast
      then have "found = Some (Some (c, x, y))" using 4 sc by (auto split: option.splits)
      then have "c \<in> set (all_clients s3)"
        using map_to_neighbor_client keeps_active_clients [OF k3] keeps_active_clients [OF k1] unfolding found_def by metis
      moreover have "switch_screen e c x y False s3 = Some t"
        using assms 4 sc ok True c unfolding def by simp
      ultimately show ?thesis using moves_switch moves_trans [OF keeps_moves [OF k3]] by blast
    next
      case False
      then have "t = move_on_active e (sv_x s) (sv_y s) ?dx ?dy s3"
        using assms 4 sc ok unfolding def by (auto split: option.splits bool.splits)
      then show ?thesis using keeps_moves [OF keeps_active_trans [OF k3 keeps_move_on_active]] by simp
    qed
  qed (simp add: moves_refl)
qed

lemma moves_shape_changed:
  assumes "handle_shape_changed e c s = Some t"
  shows "moves s t"
proof (cases "c \<in> sv_client_set s")
  case True
  obtain x y where p: "en_cursor e c = (x, y)" by fastforce
  define s2 where "s2 = (if c = sv_active (set_jump_cursor_pos c (x, y) s)
    then (set_jump_cursor_pos c (x, y) s)\<lparr>sv_x := x, sv_y := y\<rparr> else set_jump_cursor_pos c (x, y) s)"
  have k: "keeps_active s s2" unfolding s2_def set_jump_cursor_pos_def
    by (rule keeps_if; rule keeps_fields) (simp_all add: same_clients_def same_settings_def)
  have "t = s2 \<or> map_option snd (on_mouse_move_primary e (sv_x s2) (sv_y s2) s2) = Some t \<or>
      on_mouse_move_secondary e 0 0 s2 = Some t"
    using assms True unfolding handle_shape_changed_def p prod.case Let_def s2_def [symmetric] by (auto split: if_splits)
  then consider "t = s2" | b where "on_mouse_move_primary e (sv_x s2) (sv_y s2) s2 = Some (b, t)"
    | "on_mouse_move_secondary e 0 0 s2 = Some t" by auto
  then have "moves s2 t"
    by cases (simp add: moves_refl, rule moves_primary, assumption, rule moves_secondary, assumption)
  then show ?thesis by (rule moves_trans [OF keeps_moves [OF k]])
qed (use assms in \<open>simp add: handle_shape_changed_def moves_refl\<close>)

lemma find_client_mem: "find_client s n = Some c \<Longrightarrow> c \<in> set (all_clients s)"
  using map_find_value by (fastforce simp: find_client_def all_clients_def)

lemma moves_switch_to: "handle_switch_to_screen e n s = Some t \<Longrightarrow> moves s t"
  using moves_jump find_client_mem by (auto simp: handle_switch_to_screen_def moves_refl split: option.splits)

lemma moves_in_direction: "handle_switch_in_direction e d s = Some t \<Longrightarrow> moves s t"
  using moves_jump server_neighbor_client
  by (fastforce simp: handle_switch_in_direction_def moves_refl split: option.splits)

lemma moves_toggle: "handle_toggle_screen e s = Some t \<Longrightarrow> moves s t"
  unfolding handle_toggle_screen_def Let_def
  using moves_jump find_client_mem by (auto simp: moves_refl split: if_splits option.splits)

lemma keeps_timeout: "handle_switch_wait_timeout e s = Some t \<Longrightarrow> keeps s t"
  using keeps_switch_screen keeps_activeD [OF keeps_stop_switch]
  by (auto simp: handle_switch_wait_timeout_def split: if_splits option.splits)

lemma keeps_relative: "keeps_active s (stop_relative_moves e s)"
proof -
  obtain ax ay aw ah where sh: "en_shape e (sv_active s) = (ax, ay, aw, ah)" by (cases "en_shape e (sv_active s)")
  let ?s1 = "s\<lparr>sv_x := ax + aw div 2, sv_y := ay + ah div 2, sv_x_delta := 0, sv_y_delta := 0, sv_x_delta2 := 0, sv_y_delta2 := 0\<rparr>"
  have k: "keeps_active s ?s1" by (rule keeps_fields) (simp_all add: same_clients_def same_settings_def)
  have "keeps_active s (emit [Call (sv_active s) (MouseMove (ax + aw div 2) (ay + ah div 2))] ?s1)"
    by (rule keeps_active_trans [OF k keeps_emit]) (simp add: clipboards_fit_def)
  then show ?thesis unfolding stop_relative_moves_def sh Let_def prod.case by (intro keeps_if keeps_active_refl)
qed

lemma keeps_lock: "keeps_active s (handle_lock_cursor e t s)"
proof -
  let ?s1 = "s\<lparr>sv_locked := new_setting t (sv_locked s)\<rparr>"
  have k: "keeps_active s ?s1" by (rule keeps_fields) (simp_all add: same_clients_def same_settings_def)
  have k2: "keeps_active s (emit [Call (sv_primary ?s1) (Reconfigure (active_primary_sides e ?s1))] ?s1)"
    by (rule keeps_active_trans [OF k keeps_emit]) (simp add: clipboards_fit_def)
  show ?thesis unfolding handle_lock_cursor_def Let_def
    using k2 keeps_active_trans [OF k2 keeps_relative] by (intro keeps_if keeps_active_refl)
qed

lemma keeps_broadcast: "keeps_active s (handle_keyboard_broadcast t screens s)"
  unfolding handle_keyboard_broadcast_def Let_def
  by (rule keeps_if; (rule keeps_fields)?) (simp_all add: same_clients_def same_settings_def keeps_active_refl)

lemma keeps_relay: "(\<And>i cb. call \<noteq> SetClipboard i cb) \<Longrightarrow> keeps_active s (relay call s)"
  unfolding relay_def by (rule keeps_emit) (auto simp: clipboards_fit_def split: screen_call.splits)

lemma keeps_relay_key: "(\<And>i cb. call \<noteq> SetClipboard i cb) \<Longrightarrow> keeps_active s (relay_key call screens s)"
  unfolding relay_key_def by (intro keeps_if keeps_emit) (auto simp: clipboards_fit_def split: screen_call.splits)

lemma keeps_grabbed:
  assumes "handle_clipboard_grabbed e c i seq s = Some t"
  shows "keeps_active s t"
proof -
  obtain d cleared where m: "marshall (clip_close (snd (clip_empty (snd (clip_open 0 (ci_clipboard (clip_at s i))))))) = (d, cleared)"
    by fastforce
  define s1 where "s1 = put_clip i \<lparr>ci_clipboard = cleared, ci_data = d, ci_owner = client_name e s c, ci_seq = seq\<rparr> s"
  define s2 where "s2 = emit (map (\<lambda>d. Call d (if d = c then SetClipboardDirty i False else GrabClipboard i)) (all_clients s1)) s1"
  have "keeps_active s s2" unfolding s2_def s1_def
    by (rule keeps_active_trans [OF keeps_put_clip keeps_emit]) (auto simp: clipboards_fit_def)
  moreover have "t = s \<or> t = s2 \<or> on_clipboards_changed e (sv_primary s2) (\<lambda>_ _. True) clipboard_ids s2 = Some t"
    using assms unfolding handle_clipboard_grabbed_def m prod.case Let_def s1_def [symmetric] s2_def [symmetric]
    by (simp split: if_splits)
  ultimately show ?thesis using keeps_clipboards_changed keeps_active_trans keeps_active_refl by blast
qed

lemma keeps_changed: "handle_clipboard_changed e c i seq s = Some t \<Longrightarrow> keeps_active s t"
  using keeps_clipboard_changed by (auto simp: handle_clipboard_changed_def keeps_active_refl split: if_splits)

end
