(* ===== verification/ServerRuns.thy ===== *)
theory ServerRuns
  imports ServerInvariant
begin

text \<open>
  Runs of the server. Clients come and go; the invariant \<open>calm\<close> says that the screen with the focus and
  every screen the server knows by name is a connected client that has not been deleted. It needs
  runs without a screen saver, without a switch delay, and with clients under their canonical names;
  three runs show that each of these is needed.
\<close>

section \<open>Operations on clients\<close>

definition quiet :: "server \<Rightarrow> server \<Rightarrow> bool" where
  "quiet s t \<longleftrightarrow> (\<exists>es. sv_trace t = sv_trace s @ es \<and> (\<forall>n. clipboards_fit n es)) \<and> (wait_ok s \<longrightarrow> wait_ok t)"

lemma server_quiet_refl: "quiet s s"
  by (auto simp: quiet_def intro: exI [of _ "[]"])

lemma server_quiet_trans: "quiet s t \<Longrightarrow> quiet t u \<Longrightarrow> quiet s u"
  unfolding quiet_def by (metis append.assoc fit_append)

lemma quiet_if: "quiet s a \<Longrightarrow> quiet s b \<Longrightarrow> quiet s (if P then a else b)"
  by simp

lemma quiet_fields:
  "sv_trace t = sv_trace s \<Longrightarrow> sv_switch_wait_timer t = sv_switch_wait_timer s \<Longrightarrow>
   sv_switch_screen t = sv_switch_screen s \<Longrightarrow> quiet s t"
  by (auto simp: quiet_def wait_ok_def intro: exI [of _ "[]"])

lemma quiet_emit: "(\<And>n. clipboards_fit n es) \<Longrightarrow> quiet s (emit es s)"
  by (auto simp: quiet_def emit_def wait_ok_def)

lemma quiet_stop_switch: "quiet s (stop_switch s)"
  by (auto simp: quiet_def stop_switch_def stop_switch_wait_def stop_switch_two_tap_def wait_ok_def intro: exI [of _ "[]"])

lemma quiet_force_leave: "quiet s (force_leave_client e c s)"
proof -
  define active where "active = (case sv_active_saver s of Some a \<Rightarrow> a | None \<Rightarrow> sv_active s)"
  define t where "t = s\<lparr>sv_x := fst (en_center e), sv_y := snd (en_center e)\<rparr>"
  define t1 where "t1 = (if sv_switch_screen t = Some active then stop_switch t else t)"
  define t2 where "t2 = t1\<lparr>sv_active := sv_primary t1\<rparr>"
  define t3 where "t3 = (if sv_active_saver t2 = None
    then emit [Call (sv_primary t2) (Enter (sv_x t2) (sv_y t2) (sv_seq t2) (en_toggle_mask e) False)] t2 else t2)"
  define s1 where "s1 = (if active = c then t3 else s)"
  define s2 where "s2 = (if sv_active_saver s1 = Some c then s1\<lparr>sv_active_saver := None\<rparr> else s1)"
  have eq: "force_leave_client e c s = emit [Call (sv_primary s2) (Reconfigure (active_primary_sides e s2))] s2"
    unfolding force_leave_client_def Let_def s2_def s1_def t3_def t2_def t1_def t_def active_def ..
  have "quiet s t" unfolding t_def by (rule quiet_fields) simp_all
  then have "quiet s t1" unfolding t1_def by (intro quiet_if) (auto intro: server_quiet_trans quiet_stop_switch)
  then have "quiet s t2" by (rule server_quiet_trans) (auto simp: t2_def intro: quiet_fields)
  then have "quiet s t3" unfolding t3_def
    by (intro quiet_if; (rule server_quiet_trans [OF _ quiet_emit])?) (simp_all add: clipboards_fit_def)
  then have "quiet s s1" unfolding s1_def by (intro quiet_if server_quiet_refl)
  then have "quiet s s2" by (rule server_quiet_trans) (auto simp: s2_def intro: quiet_fields server_quiet_refl)
  then show ?thesis unfolding eq by (rule server_quiet_trans [OF _ quiet_emit]) (simp add: clipboards_fit_def)
qed

lemma quiet_remove_client: "quiet s (snd (remove_client e c s))"
  by (auto simp: remove_client_def intro: quiet_fields server_quiet_refl)

lemma quiet_add_client: "quiet s (snd (add_client e c s))"
proof -
  let ?s1 = "set_jump_cursor_pos c (en_cursor e c) (s\<lparr>sv_client_set := insert c (sv_client_set s),
    sv_clients := map_insert (<) (client_name e s c) c (sv_clients s)\<rparr>)"
  have "quiet s ?s1" by (rule quiet_fields) (simp_all add: set_jump_cursor_pos_def)
  then have "quiet s (emit [Call (sv_primary ?s1) (Reconfigure (active_primary_sides e ?s1))] ?s1)"
    by (rule server_quiet_trans [OF _ quiet_emit]) (simp add: clipboards_fit_def)
  then show ?thesis by (simp add: add_client_def Let_def server_quiet_refl)
qed

lemma quiet_close_client: "quiet s (close_client e msg c s)"
proof -
  let ?s1 = "snd (remove_client e c (emit [Call c (CloseWith msg)] s))"
  have "quiet s (emit [Call c (CloseWith msg)] s)" by (rule quiet_emit) (simp add: clipboards_fit_def)
  then have "quiet s ?s1" by (rule server_quiet_trans [OF _ quiet_remove_client])
  then have "quiet s (?s1\<lparr>sv_old_clients := insert c (sv_old_clients ?s1)\<rparr>)"
    by (rule server_quiet_trans) (rule quiet_fields, simp_all)
  then show ?thesis unfolding close_client_def Let_def by (rule server_quiet_trans [OF _ quiet_force_leave])
qed

lemma quiet_fold: "(\<And>x s. quiet s (f x s)) \<Longrightarrow> quiet s (fold f xs s)"
  by (induction xs arbitrary: s) (auto intro: server_quiet_refl server_quiet_trans)

lemma quiet_close_clients: "quiet s (close_clients e cfg s)"
  unfolding close_clients_def Let_def by (rule quiet_fold [OF quiet_close_client])

lemma quiet_send_options: "quiet s (send_options e c s)"
  unfolding send_options_def Let_def by (rule quiet_emit) (simp add: clipboards_fit_def)

lemma quiet_adopt: "quiet s (adopt_client e c s)"
proof -
  define s1 where "s1 = s\<lparr>sv_watched := insert c (sv_watched s)\<rparr>"
  have q1: "quiet s s1" unfolding s1_def by (rule quiet_fields) simp_all
  obtain b s2 where add: "add_client e c s1 = (b, s2)" by fastforce
  have q2: "quiet s s2" using q1 quiet_add_client [of s1 e c] add server_quiet_trans by simp
  let ?s3 = "send_options e c s2"
  have q3: "quiet s ?s3" by (rule server_quiet_trans [OF q2 quiet_send_options])
  let ?s4 = "if sv_active_saver ?s3 \<noteq> None then emit [Call c (CallScreensaver True)] ?s3 else ?s3"
  have q4: "quiet s ?s4"
    by (intro quiet_if q3 server_quiet_trans [OF q3 quiet_emit]) (simp add: clipboards_fit_def)
  have "quiet s (emit [PostConnected (client_name e ?s4 c)] ?s4)"
    by (rule server_quiet_trans [OF q4 quiet_emit]) (simp add: clipboards_fit_def)
  then show ?thesis
    unfolding adopt_client_def s1_def [symmetric] Let_def add prod.case
    using server_quiet_trans [OF q1 quiet_close_client] server_quiet_trans [OF q2 quiet_close_client] by (cases b) simp_all
qed

lemma quiet_post: "quiet s (post_if_empty s)"
  unfolding post_if_empty_def by (intro quiet_if server_quiet_refl quiet_emit) (simp add: clipboards_fit_def)

lemma quiet_remove_active: "quiet s (remove_active_client e c s)"
proof -
  obtain b s1 where r: "remove_client e c s = (b, s1)" by fastforce
  let ?s2 = "force_leave_client e c s1"
  have q1: "quiet s s1" using quiet_remove_client [of s e c] r by simp
  have "quiet s (?s2\<lparr>sv_watched := sv_watched ?s2 - {c}\<rparr>)"
    by (rule server_quiet_trans [OF server_quiet_trans [OF q1 quiet_force_leave]]) (rule quiet_fields, simp_all)
  then show ?thesis using q1 server_quiet_trans [OF _ quiet_post] unfolding remove_active_client_def r Let_def
    by (cases b) simp_all
qed

lemma quiet_remove_old: "quiet s (remove_old_client c s)"
  unfolding remove_old_client_def
  by (intro quiet_if server_quiet_refl server_quiet_trans [OF quiet_fields quiet_post]) simp_all

lemma quiet_delete: "quiet s (delete_client c s)"
  unfolding delete_client_def by (rule quiet_fields) simp_all

lemma quiet_disconnected: "quiet s (handle_client_disconnected e c s)"
  unfolding handle_client_disconnected_def
  by (intro server_quiet_trans [OF server_quiet_trans [OF quiet_remove_active quiet_remove_old] quiet_delete])

lemma quiet_timeout: "quiet s (handle_client_close_timeout c s)"
  unfolding handle_client_close_timeout_def by (rule server_quiet_trans [OF quiet_remove_old quiet_delete])

lemma quiet_disconnect: "quiet s (server_disconnect e s)"
  unfolding server_disconnect_def by (intro quiet_if quiet_close_clients quiet_emit) (simp add: clipboards_fit_def)

section \<open>A new configuration\<close>

text \<open>What an option changes: settings, and a running timer may stop.\<close>

definition resets :: "server \<Rightarrow> server \<Rightarrow> bool" where
  "resets s t \<longleftrightarrow>
     same_clients s t \<and> sv_active t = sv_active s \<and> sv_active_saver t = sv_active_saver s \<and>
     sv_trace t = sv_trace s \<and> sv_switch_screen t = sv_switch_screen s \<and>
     (sv_switch_wait_timer t \<longrightarrow> sv_switch_wait_timer s)"

lemma resets_refl: "resets s s"
  by (simp add: resets_def same_clients_def)

lemma resets_trans: "resets s t \<Longrightarrow> resets t u \<Longrightarrow> resets s u"
  by (auto simp: resets_def same_clients_def)

lemma process_option_resets: "process_option i v (s, r) = Some (t, r') \<Longrightarrow> resets s t"
  unfolding process_option_def prod.case
  by (auto simp: resets_def same_clients_def stop_switch_wait_def stop_switch_two_tap_def split: if_splits)

lemma process_option_delay:
  "process_option i v (s, r) = Some (t, r') \<Longrightarrow> (i = kOptionScreenSwitchDelay \<Longrightarrow> v \<le> 0) \<Longrightarrow>
   sv_switch_wait_delay s \<le> 0 \<Longrightarrow> sv_switch_wait_delay t \<le> 0"
  unfolding process_option_def prod.case
  by (auto simp: stop_switch_wait_def stop_switch_two_tap_def split: if_splits)

definition no_delay :: "config \<Rightarrow> bool" where
  "no_delay cfg \<longleftrightarrow> (\<forall>(i, v) \<in> set (cf_globals cfg). i = kOptionScreenSwitchDelay \<longrightarrow> v \<le> 0)"

lemma option_list_resets:
  "process_option_list os (s, r) = Some (t, r') \<Longrightarrow>
   resets s t \<and> ((\<forall>(i, v) \<in> set os. i = kOptionScreenSwitchDelay \<longrightarrow> v \<le> 0) \<longrightarrow>
     sv_switch_wait_delay s \<le> 0 \<longrightarrow> sv_switch_wait_delay t \<le> 0)"
proof (induction os arbitrary: s r)
  case (Cons o1 os)
  obtain i v where o1: "o1 = (i, v)" by fastforce
  obtain s1 r1 where s1: "process_option i v (s, r) = Some (s1, r1)"
    using Cons.prems o1 by (auto split: option.splits)
  then have "process_option_list os (s1, r1) = Some (t, r')" using Cons.prems o1 by simp
  then show ?case
    using Cons.IH resets_trans [OF process_option_resets [OF s1]] process_option_delay [OF s1] o1 by fastforce
qed (simp add: resets_refl)

lemma process_options_effect:
  assumes "process_options e s = Some t"
  shows "\<exists>u. resets s u \<and> keeps_active u t \<and>
    (no_delay (sv_config s) \<longrightarrow> sv_switch_wait_delay s \<le> 0 \<longrightarrow> sv_switch_wait_delay u \<le> 0)"
proof (cases "get_options (sv_config s) []")
  case None
  then show ?thesis using assms resets_refl keeps_active_refl by (auto simp: process_options_def)
next
  case (Some os)
  then have os: "os = cf_globals (sv_config s)" by (simp add: get_options_def)
  let ?s0 = "s\<lparr>sv_needs_shift := False, sv_needs_control := False, sv_needs_alt := False\<rparr>"
  obtain s1 r where s1: "process_option_list os (?s0, sv_relative_moves s) = Some (s1, r)"
    and t: "t = (if sv_relative_moves s1 \<and> \<not> r then stop_relative_moves e s1 else s1)\<lparr>sv_relative_moves := r\<rparr>"
    using assms Some unfolding process_options_def Let_def by (auto split: option.splits)
  have "resets s ?s0" by (simp add: resets_def same_clients_def)
  then have r1: "resets s s1" using option_list_resets [OF s1] resets_trans by blast
  have "keeps_active s1 (if sv_relative_moves s1 \<and> \<not> r then stop_relative_moves e s1 else s1)"
    by (intro keeps_if keeps_relative keeps_active_refl)
  moreover have "keeps_active u (u\<lparr>sv_relative_moves := r\<rparr>)" for u
    by (rule keeps_fields) (simp_all add: same_clients_def same_settings_def)
  ultimately have "keeps_active s1 t" unfolding t by (rule keeps_active_trans)
  moreover have "no_delay (sv_config s) \<longrightarrow> sv_switch_wait_delay s \<le> 0 \<longrightarrow> sv_switch_wait_delay s1 \<le> 0"
    using option_list_resets [OF s1] os by (simp add: no_delay_def)
  ultimately show ?thesis using r1 by blast
qed

lemma stop_relative_quiet: "quiet s (stop_relative_moves e s)"
proof -
  obtain ax ay aw ah where sh: "en_shape e (sv_active s) = (ax, ay, aw, ah)" by (cases "en_shape e (sv_active s)")
  let ?s1 = "s\<lparr>sv_x := ax + aw div 2, sv_y := ay + ah div 2, sv_x_delta := 0, sv_y_delta := 0, sv_x_delta2 := 0, sv_y_delta2 := 0\<rparr>"
  have "quiet s ?s1" by (rule quiet_fields) simp_all
  then have "quiet s (emit [Call (sv_active s) (MouseMove (ax + aw div 2) (ay + ah div 2))] ?s1)"
    by (rule server_quiet_trans [OF _ quiet_emit]) (simp add: clipboards_fit_def)
  then show ?thesis unfolding stop_relative_moves_def sh Let_def prod.case by (intro quiet_if server_quiet_refl)
qed

lemma resets_quiet: "resets s t \<Longrightarrow> quiet s t"
  by (auto simp: resets_def quiet_def wait_ok_def intro: exI [of _ "[]"])

lemma quiet_process_options:
  assumes "process_options e s = Some t"
  shows "quiet s t"
proof (cases "get_options (sv_config s) []")
  case (Some os)
  let ?s0 = "s\<lparr>sv_needs_shift := False, sv_needs_control := False, sv_needs_alt := False\<rparr>"
  obtain s1 r where s1: "process_option_list os (?s0, sv_relative_moves s) = Some (s1, r)"
    and t: "t = (if sv_relative_moves s1 \<and> \<not> r then stop_relative_moves e s1 else s1)\<lparr>sv_relative_moves := r\<rparr>"
    using assms Some unfolding process_options_def Let_def by (auto split: option.splits)
  have "quiet s ?s0" by (rule quiet_fields) simp_all
  then have q1: "quiet s s1" by (rule server_quiet_trans) (use option_list_resets [OF s1] resets_quiet in blast)
  let ?s2 = "if sv_relative_moves s1 \<and> \<not> r then stop_relative_moves e s1 else s1"
  have "quiet s ?s2" by (intro quiet_if q1 server_quiet_trans [OF q1 stop_relative_quiet])
  then show ?thesis unfolding t by (rule server_quiet_trans) (rule quiet_fields, simp_all)
qed (use assms in \<open>simp add: process_options_def server_quiet_refl\<close>)

lemma quiet_set_config:
  assumes "set_config e cfg lock s = Some (b, t)"
  shows "quiet s t"
proof -
  define s1 where "s1 = s\<lparr>sv_config := cfg\<rparr>"
  have q1: "quiet s s1" unfolding s1_def by (rule quiet_fields) simp_all
  show ?thesis
  proof (cases "is_screen cfg (en_name e (sv_primary s1))")
    case False
    then show ?thesis using assms q1 unfolding set_config_def s1_def [symmetric] Let_def by simp
  next
    case True
    obtain s2 where s2: "process_options e (close_clients e cfg s1) = Some s2"
      using assms True unfolding set_config_def s1_def [symmetric] Let_def by (auto split: option.splits)
    let ?s3 = "if \<not> sv_disable_lock s2 \<and> \<not> lock then emit [AddScrollLockRule] s2 else s2"
    let ?s4 = "emit [Call (sv_primary ?s3) (Reconfigure (active_primary_sides e ?s3))] ?s3"
    have q2: "quiet s s2" by (rule server_quiet_trans [OF server_quiet_trans [OF q1 quiet_close_clients] quiet_process_options [OF s2]])
    have "quiet s ?s3" by (intro quiet_if q2 server_quiet_trans [OF q2 quiet_emit]) (simp add: clipboards_fit_def)
    then have "quiet s ?s4" by (rule server_quiet_trans [OF _ quiet_emit]) (simp add: clipboards_fit_def)
    then have "quiet s (fold (send_options e) (all_clients ?s4) ?s4)"
      by (rule server_quiet_trans) (rule quiet_fold [OF quiet_send_options])
    moreover have "t = fold (send_options e) (all_clients ?s4) ?s4"
      using assms True s2 unfolding set_config_def s1_def [symmetric] Let_def by simp
    ultimately show ?thesis by simp
  qed
qed

section \<open>Every step\<close>

definition safe :: "server \<Rightarrow> server \<Rightarrow> bool" where
  "safe s t \<longleftrightarrow> sends s t \<and> (wait_ok s \<longrightarrow> wait_ok t)"

lemma quiet_safe: "quiet s t \<Longrightarrow> safe s t"
  by (auto simp: quiet_def safe_def sends_def)

lemma keeps_safe: "keeps s t \<Longrightarrow> safe s t"
  by (simp add: keeps_def safe_def)

lemma moves_safe: "moves s t \<Longrightarrow> safe s t"
  by (simp add: moves_def keeps_safe)

lemma safe_quiet: "safe s t \<Longrightarrow> quiet t u \<Longrightarrow> safe s u"
  unfolding safe_def quiet_def sends_def by (metis append.assoc fit_append)

lemma screensaver_cases:
  assumes "on_screensaver e a s = Some t"
  obtains u v where "sv_trace u = sv_trace s" "sv_switch_wait_timer u = sv_switch_wait_timer s"
    "sv_switch_screen u = sv_switch_screen s" "same_settings s u"
    "v = u \<or> (\<exists>c x y f. switch_screen e c x y f u = Some v)"
    "t = emit (map (\<lambda>c. Call c (CallScreensaver a)) (all_clients v)) (if a then v else v\<lparr>sv_active_saver := None\<rparr>)"
proof (cases a)
  case True
  let ?s1 = "s\<lparr>sv_active_saver := Some (sv_active s), sv_x_saver := sv_x s, sv_y_saver := sv_y s\<rparr>"
  obtain v where v: "(if sv_active ?s1 \<noteq> sv_primary ?s1 then switch_screen e (sv_primary ?s1) 0 0 True ?s1 else Some ?s1) = Some v"
    "t = emit (map (\<lambda>c. Call c (CallScreensaver a)) (all_clients v)) v"
    using assms True unfolding on_screensaver_def Let_def by (auto split: option.splits)
  show ?thesis
    by (rule that [of ?s1 v]) (use v True in \<open>auto simp: same_settings_def split: if_splits\<close>)
next
  case False
  define r where "r = (case sv_active_saver s of None \<Rightarrow> Some s
    | Some c \<Rightarrow> if c = sv_primary s then Some s
        else case en_shape e c of (x, y, w, h) \<Rightarrow>
          let zone = jump_zone_size e s c;
              s1 = s\<lparr>sv_x_saver := saver_position x w zone (sv_x_saver s), sv_y_saver := saver_position y h zone (sv_y_saver s)\<rparr>
          in switch_screen e c (sv_x_saver s1) (sv_y_saver s1) False s1)"
  obtain v where v: "r = Some v"
    "t = emit (map (\<lambda>c. Call c (CallScreensaver a)) (all_clients (v\<lparr>sv_active_saver := None\<rparr>))) (v\<lparr>sv_active_saver := None\<rparr>)"
    using assms False unfolding on_screensaver_def r_def [symmetric] by (cases r) auto
  have all: "all_clients (v\<lparr>sv_active_saver := None\<rparr>) = all_clients v" by (simp add: all_clients_def)
  show ?thesis
  proof (cases "v = s")
    case True
    show ?thesis by (rule that [of s v]) (use True v False all in \<open>auto simp: same_settings_def\<close>)
  next
    case no: False
    then obtain c x y w h where c: "sv_active_saver s = Some c" "en_shape e c = (x, y, w, h)" "c \<noteq> sv_primary s"
      using v(1) unfolding r_def by (cases "sv_active_saver s") (auto split: if_splits prod.splits)
    let ?s1 = "s\<lparr>sv_x_saver := saver_position x w (jump_zone_size e s c) (sv_x_saver s),
      sv_y_saver := saver_position y h (jump_zone_size e s c) (sv_y_saver s)\<rparr>"
    have sw: "switch_screen e c (sv_x_saver ?s1) (sv_y_saver ?s1) False ?s1 = Some v"
      using v(1) c unfolding r_def Let_def by simp
    show ?thesis
    proof (rule that [of ?s1 v])
      show "v = ?s1 \<or> (\<exists>c x y f. switch_screen e c x y f ?s1 = Some v)" using sw by blast
    qed (use v False all in \<open>simp_all add: same_settings_def\<close>)
  qed
qed

lemma safe_screensaver:
  assumes "on_screensaver e a s = Some t"
  shows "safe s t"
  using assms
proof (rule screensaver_cases)
  fix u v
  assume u: "sv_trace u = sv_trace s" "sv_switch_wait_timer u = sv_switch_wait_timer s"
      "sv_switch_screen u = sv_switch_screen s" "same_settings s u"
    and v: "v = u \<or> (\<exists>c x y f. switch_screen e c x y f u = Some v)"
    and t: "t = emit (map (\<lambda>c. Call c (CallScreensaver a)) (all_clients v)) (if a then v else v\<lparr>sv_active_saver := None\<rparr>)"
  have "safe u v" using v keeps_safe [OF keeps_refl] keeps_safe keeps_switch_screen by blast
  then have "safe s v" using u by (simp add: safe_def sends_def wait_ok_def same_settings_def)
  moreover have "quiet v (if a then v else v\<lparr>sv_active_saver := None\<rparr>)"
    by (intro quiet_if server_quiet_refl quiet_fields) simp_all
  then have "quiet v t" unfolding t by (rule server_quiet_trans [OF _ quiet_emit]) (auto simp: clipboards_fit_def)
  ultimately show ?thesis by (rule safe_quiet)
qed

lemma safe_step:
  assumes "server_step e ev s = Some t"
  shows "safe s t"
proof (cases ev)
  case (EvMotionPrimary x y)
  then obtain b where "on_mouse_move_primary e x y s = Some (b, t)" using assms by auto
  then show ?thesis by (intro moves_safe moves_primary)
next
  case (EvSetConfig cfg lock)
  then obtain b where "set_config e cfg lock s = Some (b, t)" using assms by auto
  then show ?thesis by (intro quiet_safe quiet_set_config)
next
  case (EvScreensaver a)
  then show ?thesis using assms safe_screensaver by simp
qed (use assms in \<open>auto split: if_splits
    simp: moves_safe moves_secondary moves_switch_to moves_in_direction moves_toggle moves_shape_changed
      keeps_safe keeps_timeout keeps_activeD keeps_lock keeps_broadcast keeps_relay keeps_relay_key keeps_grabbed keeps_changed
      keeps_refl keeps_emit clipboards_fit_def
      quiet_safe quiet_adopt quiet_disconnected quiet_timeout quiet_disconnect\<close>)

section \<open>Calm runs\<close>

text \<open>Every client uses its canonical name, spelled as in the configuration.\<close>

definition plain :: "(client \<Rightarrow> string) \<Rightarrow> config \<Rightarrow> bool" where
  "plain nm cfg \<longleftrightarrow> (\<forall>c. canonical_name cfg (nm c) = [] \<or> canonical_name cfg (nm c) = nm c)"

definition calm_event :: "(client \<Rightarrow> string) \<Rightarrow> screen_env \<times> server_event \<Rightarrow> bool" where
  "calm_event nm x \<longleftrightarrow>
     en_name (fst x) = nm \<and>
     (case snd x of
        EvScreensaver a \<Rightarrow> \<not> a
      | EvSetConfig cfg _ \<Rightarrow> plain nm cfg \<and> no_delay cfg
      | _ \<Rightarrow> True)"

definition connected :: "(client \<Rightarrow> string) \<Rightarrow> server \<Rightarrow> bool" where
  "connected nm s \<longleftrightarrow>
     (\<forall>(n, c) \<in> set (sv_clients s). c \<in> sv_client_set s \<and> n = nm c) \<and>
     sv_active s \<in> sv_client_set s \<and> sv_primary s \<in> sv_client_set s \<and>
     sv_client_set s \<subseteq> insert (sv_primary s) (sv_watched s) \<and>
     sv_old_clients s \<subseteq> sv_watched s \<and> sv_primary s \<notin> sv_watched s \<and>
     sv_client_set s \<inter> (sv_old_clients s \<union> sv_deleted s) = {}"

definition still :: "(client \<Rightarrow> string) \<Rightarrow> server \<Rightarrow> bool" where
  "still nm s \<longleftrightarrow>
     plain nm (sv_config s) \<and> sv_active_saver s = None \<and> sv_switch_wait_delay s \<le> 0 \<and> \<not> sv_switch_wait_timer s"

definition calm :: "(client \<Rightarrow> string) \<Rightarrow> server \<Rightarrow> bool" where
  "calm nm s \<longleftrightarrow> connected nm s \<and> still nm s"

lemma plain_name: "plain nm (sv_config s) \<Longrightarrow> en_name e = nm \<Longrightarrow> client_name e s c = nm c"
  unfolding plain_def client_name_def Let_def by metis

lemma calm_moves:
  assumes "calm nm s" and "moves s t"
  shows "calm nm t"
proof -
  have "sv_active t \<in> sv_client_set s"
    using assms unfolding moves_def calm_def connected_def all_clients_def by fastforce
  then show ?thesis
    using assms by (auto simp: moves_def keeps_def same_clients_def same_settings_def calm_def connected_def still_def)
qed

lemma still_same:
  "still nm s \<Longrightarrow> sv_config t = sv_config s \<Longrightarrow> sv_active_saver t = sv_active_saver s \<Longrightarrow>
   sv_switch_wait_delay t = sv_switch_wait_delay s \<Longrightarrow> (sv_switch_wait_timer t \<Longrightarrow> sv_switch_wait_timer s) \<Longrightarrow> still nm t"
  by (auto simp: still_def)

text \<open>The fields of clients and focus after the operations on one client.\<close>

definition focus :: "server \<Rightarrow> client \<times> client \<times> (string \<times> client) list \<times> client set \<times> client set \<times> client set \<times> client set" where
  "focus s = (sv_primary s, sv_active s, sv_clients s, sv_client_set s, sv_old_clients s, sv_watched s, sv_deleted s)"

lemma connected_focus: "focus s = focus t \<Longrightarrow> connected nm s = connected nm t"
  by (simp add: focus_def connected_def)

lemma emit_focus: "focus (emit es s) = focus s" "still nm (emit es s) = still nm s"
  by (simp_all add: focus_def emit_def still_def)

lemma stop_switch_focus: "focus (stop_switch s) = focus s" "still nm s \<Longrightarrow> still nm (stop_switch s)"
  by (simp_all add: focus_def still_def stop_switch_def stop_switch_wait_def stop_switch_two_tap_def)

lemma force_leave_focus:
  assumes "still nm s"
  shows "focus (force_leave_client e c s) = focus (if sv_active s = c then s\<lparr>sv_active := sv_primary s\<rparr> else s)"
    and "still nm (force_leave_client e c s)"
proof -
  have none: "sv_active_saver s = None" using assms by (simp add: still_def)
  define active where "active = (case sv_active_saver s of Some a \<Rightarrow> a | None \<Rightarrow> sv_active s)"
  define t where "t = s\<lparr>sv_x := fst (en_center e), sv_y := snd (en_center e)\<rparr>"
  define t1 where "t1 = (if sv_switch_screen t = Some active then stop_switch t else t)"
  define t2 where "t2 = t1\<lparr>sv_active := sv_primary t1\<rparr>"
  define t3 where "t3 = (if sv_active_saver t2 = None
    then emit [Call (sv_primary t2) (Enter (sv_x t2) (sv_y t2) (sv_seq t2) (en_toggle_mask e) False)] t2 else t2)"
  define s1 where "s1 = (if active = c then t3 else s)"
  define s2 where "s2 = (if sv_active_saver s1 = Some c then s1\<lparr>sv_active_saver := None\<rparr> else s1)"
  have eq: "force_leave_client e c s = emit [Call (sv_primary s2) (Reconfigure (active_primary_sides e s2))] s2"
    unfolding force_leave_client_def Let_def s2_def s1_def t3_def t2_def t1_def t_def active_def ..
  have active: "active = sv_active s" by (simp add: active_def none)
  have "still nm t" unfolding t_def by (rule still_same [OF assms]) simp_all
  then have st1: "still nm t1" by (simp add: t1_def stop_switch_focus)
  have f1: "focus t1 = focus s" by (simp add: t1_def stop_switch_focus) (simp add: t_def focus_def)
  have st2: "still nm t2" unfolding t2_def by (rule still_same [OF st1]) simp_all
  have f2: "focus t2 = focus (s\<lparr>sv_active := sv_primary s\<rparr>)" using f1 by (simp add: t2_def focus_def)
  have st3: "still nm t3" "focus t3 = focus t2" using st2 by (simp_all add: t3_def emit_focus)
  have s1: "still nm s1" "focus s1 = focus (if sv_active s = c then s\<lparr>sv_active := sv_primary s\<rparr> else s)"
    using st3 f2 assms by (simp_all add: s1_def active)
  then have "s2 = s1" by (simp add: s2_def still_def)
  then show "focus (force_leave_client e c s) = focus (if sv_active s = c then s\<lparr>sv_active := sv_primary s\<rparr> else s)"
    and "still nm (force_leave_client e c s)" using s1 by (simp_all add: eq emit_focus)
qed

lemma calm_focus: "focus t = focus s \<Longrightarrow> still nm t \<Longrightarrow> connected nm s \<Longrightarrow> calm nm t"
  using connected_focus [of t s nm] by (simp add: calm_def)

lemma calm_emit: "calm nm s \<Longrightarrow> calm nm (emit es s)"
  by (simp add: calm_def emit_focus connected_focus [OF emit_focus(1)])

lemma calm_close:
  assumes calm: "calm nm s" and name: "en_name e = nm" and c: "c \<noteq> sv_primary s" "c \<in> sv_watched s" "c \<notin> sv_deleted s"
  shows "calm nm (close_client e msg c s)" "sv_primary (close_client e msg c s) = sv_primary s"
    "sv_watched (close_client e msg c s) = sv_watched s" "sv_deleted (close_client e msg c s) = sv_deleted s"
proof -
  define s0 where "s0 = emit [Call c (CloseWith msg)] s"
  define s1 where "s1 = snd (remove_client e c s0)"
  define s2 where "s2 = s1\<lparr>sv_old_clients := insert c (sv_old_clients s1)\<rparr>"
  have st: "still nm s" and conn: "connected nm s" using calm by (simp_all add: calm_def)
  have st0: "still nm s0" and f0: "focus s0 = focus s" using st by (simp_all add: s0_def emit_focus)
  then have nm: "client_name e s0 c = nm c" using plain_name name by (simp add: still_def)
  have "still nm s1" using st0 by (simp add: s1_def remove_client_def still_def)
  then have st2: "still nm s2" by (simp add: s2_def still_def)
  have fields: "sv_primary s2 = sv_primary s" "sv_active s2 = sv_active s" "sv_client_set s2 = sv_client_set s - {c}"
    "sv_old_clients s2 = insert c (sv_old_clients s)" "sv_watched s2 = sv_watched s" "sv_deleted s2 = sv_deleted s"
    using f0 by (auto simp: s2_def s1_def remove_client_def focus_def)
  have clients: "sv_clients s2 = (if c \<in> sv_client_set s then map_erase (<) (nm c) (sv_clients s) else sv_clients s)"
    using f0 nm by (auto simp: s2_def s1_def remove_client_def focus_def)
  have eq: "close_client e msg c s = force_leave_client e c s2"
    unfolding close_client_def Let_def s2_def s1_def s0_def ..
  note fl = force_leave_focus [OF st2, of e c]
  have members: "d \<in> sv_client_set s - {c} \<and> n = nm d" if "(n, d) \<in> set (sv_clients s2)" for n d
  proof -
    have "(n, d) \<in> set (sv_clients s)" "c \<in> sv_client_set s \<Longrightarrow> n \<noteq> nm c"
      using that clients by (auto simp: map_erase_def same_key_def split: if_splits)
    then show ?thesis using conn unfolding connected_def by fastforce
  qed
  have "\<forall>(n, d) \<in> set (sv_clients s2). d \<in> sv_client_set s2 \<and> n = nm d" using members fields(3) by fastforce
  moreover have "sv_primary s2 \<in> sv_client_set s2" "sv_client_set s2 \<subseteq> insert (sv_primary s2) (sv_watched s2)"
    "sv_old_clients s2 \<subseteq> sv_watched s2" "sv_primary s2 \<notin> sv_watched s2"
    "sv_client_set s2 \<inter> (sv_old_clients s2 \<union> sv_deleted s2) = {}"
    "sv_active s2 \<noteq> c \<Longrightarrow> sv_active s2 \<in> sv_client_set s2"
    using conn fields c unfolding connected_def by auto
  ultimately have "connected nm (if sv_active s2 = c then s2\<lparr>sv_active := sv_primary s2\<rparr> else s2)"
    unfolding connected_def by simp
  then show "calm nm (close_client e msg c s)" unfolding eq using fl calm_focus by blast
  show "sv_primary (close_client e msg c s) = sv_primary s" "sv_watched (close_client e msg c s) = sv_watched s"
    "sv_deleted (close_client e msg c s) = sv_deleted s"
    using fl(1) fields unfolding eq by (auto simp: focus_def split: if_splits)
qed

lemma calm_fold_close:
  assumes "calm nm s" and "en_name e = nm" and "\<forall>c \<in> set cs. c \<noteq> sv_primary s \<and> c \<in> sv_watched s \<and> c \<notin> sv_deleted s"
  shows "calm nm (fold (close_client e msg) cs s)"
  using assms
proof (induction cs arbitrary: s)
  case (Cons c cs)
  have c: "c \<noteq> sv_primary s" "c \<in> sv_watched s" "c \<notin> sv_deleted s" using Cons.prems by auto
  note close = calm_close [OF Cons.prems(1,2) c, of msg]
  have "calm nm (fold (close_client e msg) cs (close_client e msg c s))"
    by (rule Cons.IH) (use close Cons.prems in auto)
  then show ?case by simp
qed simp

lemma calm_close_clients:
  assumes "calm nm s" and "en_name e = nm"
  shows "calm nm (close_clients e cfg s)"
proof -
  have "c \<in> sv_watched s \<and> c \<notin> sv_deleted s" if "c \<in> set (all_clients s)" "c \<noteq> sv_primary s" for c
    using assms(1) that unfolding calm_def connected_def all_clients_def by fastforce
  then show ?thesis
    unfolding close_clients_def Let_def by (intro calm_fold_close assms) (auto simp: all_clients_def)
qed

lemma send_options_focus: "focus (send_options e c s) = focus s" "still nm (send_options e c s) = still nm s"
  by (simp_all add: send_options_def Let_def emit_focus)

lemma calm_send_options: "calm nm s \<Longrightarrow> calm nm (send_options e c s)"
  by (simp add: send_options_def Let_def calm_emit)

lemma calm_fold_options: "calm nm s \<Longrightarrow> calm nm (fold (send_options e) cs s)"
  by (induction cs arbitrary: s) (simp_all add: calm_send_options)

lemma calm_adopt:
  assumes calm: "calm nm s" and name: "en_name e = nm"
    and c: "c \<noteq> sv_primary s" "c \<notin> sv_watched s" "c \<notin> sv_deleted s"
  shows "calm nm (adopt_client e c s)"
proof -
  define s1 where "s1 = s\<lparr>sv_watched := insert c (sv_watched s)\<rparr>"
  have calm1: "calm nm s1" using calm c by (auto simp: s1_def calm_def connected_def still_def)
  have close: "calm nm (close_client e msg c u)" if "u = s1" for u msg
    unfolding that by (rule calm_close [OF calm1 name]) (use c in \<open>simp_all add: s1_def\<close>)
  have nm: "client_name e s1 c = nm c" using calm1 plain_name name by (simp add: calm_def still_def)
  show ?thesis
  proof (cases "\<not> is_screen (sv_config s1) (en_name e c) \<or> map_contains (<) (nm c) (sv_clients s1)")
    case True
    then show ?thesis
      unfolding adopt_client_def s1_def [symmetric] Let_def add_client_def using close nm by auto
  next
    case False
    define s2 where "s2 = set_jump_cursor_pos c (en_cursor e c) (s1\<lparr>sv_client_set := insert c (sv_client_set s1),
      sv_clients := map_insert (<) (nm c) c (sv_clients s1)\<rparr>)"
    define s3 where "s3 = send_options e c (emit [Call (sv_primary s2) (Reconfigure (active_primary_sides e s2))] s2)"
    have eq: "adopt_client e c s = (let s4 = (if sv_active_saver s3 \<noteq> None then emit [Call c (CallScreensaver True)] s3 else s3)
        in emit [PostConnected (client_name e s4 c)] s4)"
      unfolding adopt_client_def s1_def [symmetric] Let_def add_client_def nm s3_def s2_def using False by simp
    have sub: "(n, d) \<in> insert (nm c, c) (set (sv_clients s1))" if "(n, d) \<in> set (sv_clients s2)" for n d
      using that set_map_insert [of "(<)" "nm c" c "sv_clients s1"] by (auto simp: s2_def set_jump_cursor_pos_def)
    have conn: "connected nm s1" using calm1 by (simp add: calm_def)
    have old: "c \<notin> sv_old_clients s1" "c \<notin> sv_deleted s1" "c \<in> sv_watched s1"
      using calm c by (auto simp: s1_def calm_def connected_def)
    have fields: "sv_primary s2 = sv_primary s1" "sv_active s2 = sv_active s1" "sv_client_set s2 = insert c (sv_client_set s1)"
      "sv_old_clients s2 = sv_old_clients s1" "sv_watched s2 = sv_watched s1" "sv_deleted s2 = sv_deleted s1"
      by (simp_all add: s2_def set_jump_cursor_pos_def)
    have "\<forall>(n, d) \<in> set (sv_clients s2). d \<in> sv_client_set s2 \<and> n = nm d"
      using sub conn unfolding fields connected_def by fastforce
    then have "connected nm s2" using conn old unfolding connected_def fields by auto
    moreover have "still nm s2" using calm1 by (simp add: calm_def still_def s2_def set_jump_cursor_pos_def)
    ultimately have "calm nm s2" by (simp add: calm_def)
    then have "calm nm s3" unfolding s3_def by (intro calm_send_options calm_emit)
    then show ?thesis unfolding eq Let_def by (simp add: calm_emit)
  qed
qed

lemma post_focus: "focus (post_if_empty s) = focus s" "still nm (post_if_empty s) = still nm s"
  by (simp_all add: post_if_empty_def emit_focus)

lemma remove_old_effect:
  "still nm s \<Longrightarrow> still nm (remove_old_client c s)"
  "focus (remove_old_client c s) = focus (if c \<in> sv_old_clients s
     then s\<lparr>sv_watched := sv_watched s - {c}, sv_old_clients := sv_old_clients s - {c}\<rparr> else s)"
  by (simp_all add: remove_old_client_def post_focus) (simp_all add: still_def)

lemma remove_active_effect:
  assumes calm: "calm nm s" and name: "en_name e = nm" and c: "c \<noteq> sv_primary s"
  defines "t \<equiv> remove_active_client e c s"
  shows "connected nm t" "still nm t" "sv_primary t = sv_primary s" "c \<notin> sv_client_set t"
    "sv_old_clients t = sv_old_clients s" "sv_deleted t = sv_deleted s"
proof -
  have "connected nm t \<and> still nm t \<and> sv_primary t = sv_primary s \<and> c \<notin> sv_client_set t \<and>
    sv_old_clients t = sv_old_clients s \<and> sv_deleted t = sv_deleted s"
  proof (cases "c \<in> sv_client_set s")
    case False
    then show ?thesis using calm by (simp add: t_def remove_active_client_def remove_client_def calm_def)
  next
    case True
    have st: "still nm s" and conn: "connected nm s" using calm by (simp_all add: calm_def)
    have nm: "client_name e s c = nm c" using st plain_name name by (simp add: still_def)
    define s1 where "s1 = s\<lparr>sv_clients := map_erase (<) (nm c) (sv_clients s), sv_client_set := sv_client_set s - {c}\<rparr>"
    define s2 where "s2 = force_leave_client e c s1"
    define s3 where "s3 = s2\<lparr>sv_watched := sv_watched s2 - {c}\<rparr>"
    have t: "t = post_if_empty s3"
      using True nm by (simp add: t_def remove_active_client_def remove_client_def s3_def s2_def s1_def Let_def)
    have "still nm s1" using st by (simp add: s1_def still_def)
    note fl = force_leave_focus [OF this, of e c]
    have f2: "focus s2 = focus (if sv_active s = c then s1\<lparr>sv_active := sv_primary s\<rparr> else s1)"
      using fl(1) by (simp add: s2_def s1_def)
    have st3: "still nm s3" using fl(2) by (simp add: s3_def s2_def still_def)
    have fields: "sv_primary s3 = sv_primary s" "sv_client_set s3 = sv_client_set s - {c}"
      "sv_old_clients s3 = sv_old_clients s" "sv_watched s3 = sv_watched s - {c}" "sv_deleted s3 = sv_deleted s"
      "sv_clients s3 = map_erase (<) (nm c) (sv_clients s)"
      "sv_active s3 = (if sv_active s = c then sv_primary s else sv_active s)"
      using f2 by (auto simp: s3_def s1_def focus_def split: if_splits)
    have "\<forall>(n, d) \<in> set (sv_clients s3). d \<in> sv_client_set s3 \<and> n = nm d"
      using conn unfolding fields connected_def by (fastforce simp: map_erase_def same_key_def)
    moreover have "c \<notin> sv_old_clients s" using True conn by (auto simp: connected_def)
    ultimately have "connected nm s3" using conn c unfolding connected_def fields by auto
    then have "connected nm t" using connected_focus [OF post_focus(1) [of s3]] by (simp add: t)
    moreover have "still nm t" using st3 by (simp add: t post_focus)
    ultimately show ?thesis
      using post_focus(1) [of s3] fields by (simp add: t focus_def)
  qed
  then show "connected nm t" "still nm t" "sv_primary t = sv_primary s" "c \<notin> sv_client_set t"
    "sv_old_clients t = sv_old_clients s" "sv_deleted t = sv_deleted s" by blast+
qed

lemma calm_remove_old_delete:
  assumes conn: "connected nm s" and st: "still nm s" and c: "c \<notin> sv_client_set s"
  shows "calm nm (delete_client c (remove_old_client c s))"
proof -
  let ?u = "if c \<in> sv_old_clients s
     then s\<lparr>sv_watched := sv_watched s - {c}, sv_old_clients := sv_old_clients s - {c}\<rparr> else s"
  let ?t = "remove_old_client c s"
  have f: "focus ?t = focus ?u" and st': "still nm ?t" using remove_old_effect st by blast+
  have fields: "sv_primary ?t = sv_primary s" "sv_active ?t = sv_active s" "sv_clients ?t = sv_clients s"
    "sv_client_set ?t = sv_client_set s" "sv_deleted ?t = sv_deleted s"
    "sv_old_clients ?t = sv_old_clients s - {c}"
    "sv_watched ?t = (if c \<in> sv_old_clients s then sv_watched s - {c} else sv_watched s)"
    using f by (auto simp: focus_def split: if_splits)
  have "connected nm (delete_client c ?t)"
    using conn c unfolding connected_def delete_client_def by (auto simp: fields)
  moreover have "still nm (delete_client c ?t)" using st' by (simp add: delete_client_def still_def)
  ultimately show ?thesis by (simp add: calm_def)
qed

lemma calm_disconnected:
  assumes "calm nm s" and "en_name e = nm" and "c \<in> sv_watched s"
  shows "calm nm (handle_client_disconnected e c s)"
proof -
  have "c \<noteq> sv_primary s" using assms by (auto simp: calm_def connected_def)
  note r = remove_active_effect [OF assms(1,2) this]
  show ?thesis unfolding handle_client_disconnected_def by (rule calm_remove_old_delete [OF r(1,2,4)])
qed

lemma calm_close_timeout:
  assumes "calm nm s" and "c \<in> sv_old_clients s"
  shows "calm nm (handle_client_close_timeout c s)"
  unfolding handle_client_close_timeout_def
  by (rule calm_remove_old_delete) (use assms in \<open>auto simp: calm_def connected_def\<close>)

lemma calm_disconnect: "calm nm s \<Longrightarrow> en_name e = nm \<Longrightarrow> calm nm (server_disconnect e s)"
  by (simp add: server_disconnect_def calm_close_clients calm_emit)

lemma calm_process_options:
  assumes calm: "calm nm s" and opts: "process_options e s = Some t" and delay: "no_delay (sv_config s)"
  shows "calm nm t"
proof -
  obtain u where u: "resets s u" "keeps_active u t" "sv_switch_wait_delay u \<le> 0"
    using process_options_effect [OF opts] delay calm by (auto simp: calm_def still_def)
  have "calm nm u" using calm u(1,3) by (auto simp: calm_def still_def connected_def resets_def same_clients_def)
  then show ?thesis using calm_moves keeps_moves [OF u(2)] by blast
qed

lemma close_clients_config: "sv_config (close_clients e cfg s) = sv_config s"
proof -
  have "sv_config (close_client e m c u) = sv_config u" for m c u
    by (simp add: close_client_def force_leave_client_def remove_client_def Let_def emit_def stop_switch_def
        stop_switch_wait_def stop_switch_two_tap_def)
  then have "sv_config (fold (close_client e m) cs u) = sv_config u" for m cs u
    by (induction cs arbitrary: u) simp_all
  then show ?thesis by (simp add: close_clients_def Let_def)
qed

lemma calm_set_config:
  assumes calm: "calm nm s" and name: "en_name e = nm" and cfg: "plain nm cfg" "no_delay cfg"
    and set: "set_config e cfg lock s = Some (b, t)"
  shows "calm nm t"
proof -
  define s1 where "s1 = s\<lparr>sv_config := cfg\<rparr>"
  have calm1: "calm nm s1" using calm cfg by (simp add: s1_def calm_def still_def connected_def)
  show ?thesis
  proof (cases "is_screen cfg (en_name e (sv_primary s1))")
    case False
    then show ?thesis using set calm1 unfolding set_config_def s1_def [symmetric] Let_def by simp
  next
    case True
    obtain s2 where s2: "process_options e (close_clients e cfg s1) = Some s2"
      using set True unfolding set_config_def s1_def [symmetric] Let_def by (auto split: option.splits)
    have "sv_config (close_clients e cfg s1) = cfg" by (simp add: close_clients_config s1_def)
    then have calm2: "calm nm s2"
      using calm_process_options [OF calm_close_clients [OF calm1 name] s2] cfg by simp
    let ?s3 = "if \<not> sv_disable_lock s2 \<and> \<not> lock then emit [AddScrollLockRule] s2 else s2"
    let ?s4 = "emit [Call (sv_primary ?s3) (Reconfigure (active_primary_sides e ?s3))] ?s3"
    have "calm nm ?s4" using calm2 by (intro calm_emit) (simp add: calm_emit)
    then have "calm nm (fold (send_options e) (all_clients ?s4) ?s4)" by (rule calm_fold_options)
    moreover have "t = fold (send_options e) (all_clients ?s4) ?s4"
      using set True s2 unfolding set_config_def s1_def [symmetric] Let_def by simp
    ultimately show ?thesis by simp
  qed
qed

lemma calm_screensaver_off:
  assumes calm: "calm nm s" and off: "on_screensaver e False s = Some t"
  shows "calm nm t"
proof -
  have none: "sv_active_saver s = None" using calm by (simp add: calm_def still_def)
  have "t = emit (map (\<lambda>c. Call c (CallScreensaver False)) (all_clients (s\<lparr>sv_active_saver := None\<rparr>))) (s\<lparr>sv_active_saver := None\<rparr>)"
    using off none unfolding on_screensaver_def by simp
  moreover have "s\<lparr>sv_active_saver := None\<rparr> = s" using none by simp
  ultimately show ?thesis using calm calm_emit by simp
qed

lemma calm_step:
  assumes calm: "calm nm s" and ev: "calm_event nm (e, ev)" and step: "server_step e ev s = Some t"
  shows "calm nm t"
proof -
  have name: "en_name e = nm" using ev by (simp add: calm_event_def)
  have m: "moves s u \<Longrightarrow> calm nm u" for u by (rule calm_moves [OF calm])
  have k: "keeps_active s u \<Longrightarrow> calm nm u" for u by (intro m keeps_moves)
  note kept = keeps_lock [THEN k] keeps_broadcast [THEN k] keeps_relay [THEN k] keeps_relay_key [THEN k]
    keeps_grabbed [THEN k] keeps_changed [THEN k] keeps_emit [THEN k]
  note moved = moves_secondary [THEN m] moves_switch_to [THEN m] moves_in_direction [THEN m] moves_toggle [THEN m]
    moves_shape_changed [THEN m]
  show ?thesis
  proof (cases ev)
    case (EvMotionPrimary x y)
    then obtain b where "on_mouse_move_primary e x y s = Some (b, t)" using step by auto
    then show ?thesis by (intro m moves_primary)
  next
    case EvSwitchWaitTimeout
    then show ?thesis using step calm by (simp add: calm_def still_def)
  next
    case (EvScreensaver a)
    then show ?thesis using step ev calm_screensaver_off [OF calm] by (simp add: calm_event_def)
  next
    case (EvSetConfig cfg lock)
    then obtain b where set: "set_config e cfg lock s = Some (b, t)" using step by auto
    then show ?thesis using calm_set_config [OF calm name _ _ set] ev EvSetConfig by (simp add: calm_event_def)
  next
    case (EvClientAdopted c)
    then show ?thesis using step calm calm_adopt [OF calm name] by (auto split: if_splits)
  next
    case (EvClientDisconnected c)
    then show ?thesis using step calm calm_disconnected [OF calm name] by (auto split: if_splits)
  next
    case (EvClientCloseTimeout c)
    then show ?thesis using step calm calm_close_timeout [OF calm] by (auto split: if_splits)
  next
    case (EvClipboardGrabbed c i seq)
    then show ?thesis using step calm by (simp add: kept split: if_splits)
  next
    case (EvClipboardChanged c i seq)
    then show ?thesis using step calm by (simp add: kept split: if_splits)
  next
    case EvDisconnect
    then show ?thesis using step calm_disconnect [OF calm name] by simp
  qed (use step in \<open>auto split: if_splits simp: clipboards_fit_def calm kept moved\<close>)
qed

lemma calm_start:
  assumes start: "new_server e p cfg lock x y = Some s" and name: "en_name e = nm"
    and cfg: "plain nm cfg" "no_delay cfg"
  shows "calm nm s"
proof -
  define s0 where "s0 = blank_server p cfg x y"
  define s1 where "s1 = s0\<lparr>sv_two_tap_mark := en_now e, sv_clipboards := map (\<lambda>_. start_clip (client_name e s0 p)) clipboard_ids\<rparr>"
  define s2 where "s2 = snd (add_client e p s1)"
  obtain b s3 where s3: "set_config e cfg lock s2 = Some (b, s3)" and s: "s = s3 \<or> s = s3\<lparr>sv_locked := True\<rparr>"
    using start unfolding new_server_def Let_def s0_def [symmetric] s1_def [symmetric] s2_def [symmetric]
    by (auto split: if_splits option.splits)
  have nm: "client_name e s1 p = nm p" using cfg name plain_name [of nm s1 e] by (simp add: s1_def s0_def blank_server_def)
  have "calm nm s2"
    using cfg nm by (simp add: s2_def add_client_def Let_def calm_def connected_def still_def s1_def s0_def blank_server_def
        emit_def set_jump_cursor_pos_def map_contains_def)
  then have "calm nm s3" using calm_set_config [OF _ name cfg s3] by blast
  then show ?thesis using s by (auto simp: calm_def connected_def still_def)
qed

lemma calm_run:
  "calm nm s \<Longrightarrow> \<forall>x \<in> set evs. calm_event nm x \<Longrightarrow> server_run s evs = Some t \<Longrightarrow> calm nm t"
proof (induction evs arbitrary: s)
  case (Cons x evs)
  obtain e ev where x: "x = (e, ev)" by fastforce
  obtain s1 where s1: "server_step e ev s = Some s1" "server_run s1 evs = Some t"
    using Cons.prems(3) x by (auto split: option.splits)
  have "calm nm s1" using calm_step [OF Cons.prems(1) _ s1(1)] Cons.prems(2) x by simp
  then show ?case using Cons.IH s1(2) Cons.prems(2) by simp
qed simp

lemma wait_ok_run: "wait_ok s \<Longrightarrow> server_run s evs = Some t \<Longrightarrow> wait_ok t"
proof (induction evs arbitrary: s)
  case (Cons x evs)
  obtain e ev where x: "x = (e, ev)" by fastforce
  obtain s1 where s1: "server_step e ev s = Some s1" "server_run s1 evs = Some t"
    using Cons.prems(2) x by (auto split: option.splits)
  then show ?case using Cons.IH [OF _ s1(2)] safe_step [OF s1(1)] Cons.prems(1) by (simp add: safe_def)
qed simp

lemma wait_ok_start:
  assumes "new_server e p cfg lock x y = Some s"
  shows "wait_ok s"
proof -
  define s0 where "s0 = blank_server p cfg x y"
  define s1 where "s1 = s0\<lparr>sv_two_tap_mark := en_now e, sv_clipboards := map (\<lambda>_. start_clip (client_name e s0 p)) clipboard_ids\<rparr>"
  obtain b s3 where s3: "set_config e cfg lock (snd (add_client e p s1)) = Some (b, s3)" and s: "s = s3 \<or> s = s3\<lparr>sv_locked := True\<rparr>"
    using assms unfolding new_server_def Let_def s0_def [symmetric] s1_def [symmetric]
    by (auto split: if_splits option.splits)
  have "wait_ok s1" by (simp add: s1_def s0_def blank_server_def wait_ok_def)
  then have "wait_ok s3" using server_quiet_trans [OF quiet_add_client quiet_set_config [OF s3]] by (simp add: quiet_def)
  then show ?thesis using s by (auto simp: wait_ok_def)
qed

end
