(* ===== verification/ServerTheorems.thy ===== *)
theory ServerTheorems
  imports ServerRuns
begin

text \<open>
  The properties of the server: the focus stays on connected clients, clipboards stay within the limit,
  the cursor arrives on the screen it enters, and a switch happens only when the options allow it; with
  the runs in which the code does not keep what it means to.
\<close>

section \<open>The condition for a switch\<close>

definition policy :: "screen_env \<Rightarrow> server \<Rightarrow> int \<Rightarrow> int \<Rightarrow> bool \<times> bool \<times> bool \<times> real \<times> real \<times> client" where
  "policy e s xa ya =
     (is_locked_to_screen e s, modifiers_missing e s, corner_locked e s xa ya, sv_switch_wait_delay s,
      sv_two_tap_delay s, sv_active s)"

definition same_policy :: "server \<Rightarrow> server \<Rightarrow> bool" where
  "same_policy s t \<longleftrightarrow>
     sv_locked t = sv_locked s \<and> sv_disable_lock t = sv_disable_lock s \<and> sv_needs_shift t = sv_needs_shift s \<and>
     sv_needs_control t = sv_needs_control s \<and> sv_needs_alt t = sv_needs_alt s \<and> sv_config t = sv_config s \<and>
     sv_active t = sv_active s \<and> sv_switch_wait_delay t = sv_switch_wait_delay s \<and>
     sv_two_tap_delay t = sv_two_tap_delay s"

lemma same_policy_policy:
  assumes "same_policy s t"
  shows "policy e t = policy e s"
proof -
  have eqs: "sv_locked t = sv_locked s" "sv_disable_lock t = sv_disable_lock s" "sv_needs_shift t = sv_needs_shift s"
    "sv_needs_control t = sv_needs_control s" "sv_needs_alt t = sv_needs_alt s" "sv_config t = sv_config s"
    "sv_active t = sv_active s" "sv_switch_wait_delay t = sv_switch_wait_delay s"
    "sv_two_tap_delay t = sv_two_tap_delay s"
    using assms by (simp_all add: same_policy_def)
  show ?thesis
    unfolding policy_def is_locked_to_screen_def modifiers_missing_def corner_locked_def client_name_def eqs ..
qed

lemma same_policy_refl: "same_policy s s"
  by (simp add: same_policy_def)

lemma same_policy_trans: "same_policy s t \<Longrightarrow> same_policy t u \<Longrightarrow> same_policy s u"
  by (simp add: same_policy_def)

lemma policy_then_if: "same_policy s t \<Longrightarrow> same_policy t u \<Longrightarrow> same_policy s (if c then u else t)"
  by (simp add: same_policy_def)

lemma policy_stop: "same_policy s (stop_switch s)"
  by (simp add: same_policy_def stop_switch_def stop_switch_wait_def stop_switch_two_tap_def)

lemma policy_waits: "same_policy s (start_switch_wait x y s)" "same_policy s (start_switch_two_tap e s)"
  by (simp_all add: same_policy_def start_switch_wait_def stop_switch_wait_def start_switch_two_tap_def)

lemma switch_okay_policy:
  assumes ok: "is_switch_okay e sc dir x y xa ya s = (okay, t)"
  shows "same_policy s t \<and>
    (okay \<longrightarrow> sc \<noteq> None \<and> \<not> corner_locked e s xa ya \<and> \<not> is_locked_to_screen e s \<and> \<not> modifiers_missing e s \<and>
       (sv_switch_wait_delay s \<le> 0 \<or> sv_two_tap_delay s > 0))"
proof (cases "sc = None")
  case True
  then show ?thesis using ok policy_stop by (auto simp: is_switch_okay_def)
next
  case False
  define nd where "nd \<longleftrightarrow> dir \<noteq> sv_switch_dir s"
  define s1 where "s1 = (if nd \<or> sv_switch_screen s = None then s\<lparr>sv_switch_dir := dir, sv_switch_screen := sc\<rparr> else s)"
  define tap where "tap \<longleftrightarrow> sv_two_tap_delay s1 > 0 \<and> (nd \<or> \<not> sv_two_tap_engaged s1 \<or> \<not> should_switch_two_tap e s1)"
  define s2 where "s2 = (if tap then start_switch_two_tap e s1 else s1)"
  define waiting where "waiting \<longleftrightarrow> \<not> (sv_two_tap_delay s1 > 0 \<and> \<not> tap) \<and> sv_switch_wait_delay s2 > 0"
  define s3 where "s3 = (if waiting \<and> (nd \<or> \<not> sv_switch_wait_timer s2) then start_switch_wait x y s2 else s2)"
  define cor where "cor = corner_locked e s3 xa ya"
  define s4 where "s4 = (if cor then stop_switch s3 else s3)"
  define lck where "lck \<longleftrightarrow> \<not> (tap \<or> waiting \<or> cor) \<and> is_locked_to_screen e s4"
  define s5 where "s5 = (if lck then stop_switch s4 else s4)"
  define miss where "miss \<longleftrightarrow> \<not> (tap \<or> waiting \<or> cor \<or> lck) \<and> modifiers_missing e s5"
  define s6 where "s6 = (if miss then stop_switch s5 else s5)"
  have eq: "is_switch_okay e sc dir x y xa ya s = (\<not> (tap \<or> waiting \<or> cor \<or> lck \<or> miss), s6)"
    unfolding is_switch_okay_def Let_def s6_def miss_def s5_def lck_def s4_def cor_def s3_def waiting_def s2_def
      tap_def s1_def nd_def using False by (simp only: if_False disj_assoc)
  have p1: "same_policy s s1" by (simp add: s1_def same_policy_def)
  have p2: "same_policy s s2" unfolding s2_def by (rule policy_then_if [OF p1 policy_waits(2)])
  have p3: "same_policy s s3" unfolding s3_def by (rule policy_then_if [OF p2 policy_waits(1)])
  have p4: "same_policy s s4" unfolding s4_def by (rule policy_then_if [OF p3 policy_stop])
  have p5: "same_policy s s5" unfolding s5_def by (rule policy_then_if [OF p4 policy_stop])
  have p6: "same_policy s s6" unfolding s6_def by (rule policy_then_if [OF p5 policy_stop])
  have pol: "policy e s3 xa ya = policy e s xa ya" "policy e s4 xa ya = policy e s xa ya" "policy e s5 xa ya = policy e s xa ya"
    using p3 p4 p5 same_policy_policy by metis+
  have "sv_switch_wait_delay s2 = sv_switch_wait_delay s" "sv_two_tap_delay s1 = sv_two_tap_delay s"
    using p1 p2 by (simp_all add: same_policy_def)
  then have "sv_switch_wait_delay s \<le> 0 \<or> sv_two_tap_delay s > 0" if "\<not> waiting"
    using that unfolding waiting_def by force
  moreover have "\<not> corner_locked e s xa ya" if "\<not> cor" using that pol(1) by (auto simp: cor_def policy_def)
  moreover have "\<not> is_locked_to_screen e s" if "\<not> (tap \<or> waiting \<or> cor \<or> lck)"
    using that pol(2) by (auto simp: lck_def policy_def)
  moreover have "\<not> modifiers_missing e s" if "\<not> (tap \<or> waiting \<or> cor \<or> lck \<or> miss)"
    using that pol(3) by (auto simp: miss_def policy_def)
  ultimately show ?thesis using ok p6 False unfolding eq by auto
qed

definition allowed :: "screen_env \<Rightarrow> server \<Rightarrow> bool" where
  "allowed e s \<longleftrightarrow>
     \<not> is_locked_to_screen e s \<and> \<not> modifiers_missing e s \<and> (sv_switch_wait_delay s \<le> 0 \<or> sv_two_tap_delay s > 0)"

lemma allowed_same: "same_policy s t \<Longrightarrow> allowed e t = allowed e s"
  by (simp add: same_policy_def allowed_def is_locked_to_screen_def modifiers_missing_def)

lemma corner_same: "same_policy s t \<Longrightarrow> corner_locked e t xa ya = corner_locked e s xa ya"
  using same_policy_policy [of s t e] by (simp add: policy_def fun_eq_iff)

lemma try_directions_allowed:
  "try_directions e xc yc ds s = Some (b, t) \<Longrightarrow> sv_active t \<noteq> sv_active s \<Longrightarrow>
   allowed e s \<and> \<not> corner_locked e s xc yc"
proof (induction ds arbitrary: s)
  case (Cons d ds)
  obtain dir x y where d: "d = (dir, x, y)" by (cases d)
  show ?case
  proof (cases "dir = NoDirection")
    case False
    then obtain found where found: "map_to_neighbor e s (sv_active s) dir x y = Some found"
      using Cons.prems d by (auto split: option.splits)
    obtain sc x2 y2 where sc: "(case found of None \<Rightarrow> (None, x, y) | Some (c, x1, y1) \<Rightarrow> (Some c, x1, y1)) = (sc, x2, y2)"
      by (metis surj_pair)
    obtain okay s1 where ok: "is_switch_okay e sc dir x2 y2 xc yc s = (okay, s1)" by fastforce
    note pol = switch_okay_policy [OF ok]
    show ?thesis
    proof (cases okay)
      case True
      then show ?thesis using pol by (simp add: allowed_def)
    next
      case no: False
      then have "try_directions e xc yc ds s1 = Some (b, t)" using Cons.prems d False found sc ok by simp
      moreover have "sv_active s1 = sv_active s" using pol by (simp add: same_policy_def)
      ultimately show ?thesis using Cons.IH [of s1] Cons.prems(2) pol allowed_same corner_same by metis
    qed
  qed (use Cons d in simp)
qed simp

lemma no_switch_active: "sv_active (no_switch e x y s) = sv_active s"
  using keeps_no_switch [of s e x y] by (simp add: keeps_active_def)

lemma primary_allowed:
  assumes "on_mouse_move_primary e x y s = Some (b, t)" and "sv_active t \<noteq> sv_active s"
  shows "allowed e s \<and> (\<exists>xc yc. \<not> corner_locked e s xc yc)"
proof -
  define s1 where "s1 = s\<lparr>sv_x_delta2 := sv_x_delta s, sv_y_delta2 := sv_y_delta s,
      sv_x_delta := x - sv_x s, sv_y_delta := y - sv_y s, sv_x := x, sv_y := y\<rparr>"
  have p: "same_policy s s1" by (simp add: s1_def same_policy_def)
  have "t = s \<or> t = no_switch e x y s1 \<or> (\<exists>xc yc ds. try_directions e xc yc ds s1 = Some (b, t))"
    using assms(1) unfolding on_mouse_move_primary_def s1_def [symmetric] Let_def
    by (auto split: prod.splits if_splits simp del: try_directions.simps)
  moreover have "sv_active s1 = sv_active s" by (simp add: s1_def)
  ultimately obtain xc yc ds where "try_directions e xc yc ds s1 = Some (b, t)" "sv_active t \<noteq> sv_active s1"
    using assms(2) no_switch_active by auto
  then show ?thesis using try_directions_allowed allowed_same [OF p] corner_same [OF p] by blast
qed

lemma move_on_active_active: "sv_active (move_on_active e xo yo dx dy s) = sv_active s"
  using keeps_move_on_active [of s e xo yo dx dy] by (simp add: keeps_active_def)

lemma secondary_allowed:
  assumes move: "on_mouse_move_secondary e dx0 dy0 s = Some t" and new: "sv_active t \<noteq> sv_active s"
  shows "allowed e s \<and> (\<exists>xc yc. \<not> corner_locked e s xc yc)"
proof -
  let ?dx = "en_adjust e dx0" and ?dy = "en_adjust e dy0"
  define s1 where "s1 = s\<lparr>sv_x_delta2 := sv_x_delta s, sv_y_delta2 := sv_y_delta s, sv_x_delta := ?dx, sv_y_delta := ?dy,
      sv_x := sv_x s + ?dx, sv_y := sv_y s + ?dy\<rparr>"
  obtain ax ay aw ah where sh: "en_shape e (sv_active s1) = (ax, ay, aw, ah)" by (cases "en_shape e (sv_active s1)")
  define dir where "dir = leave_direction e s1"
  define s2 where "s2 = (if sv_switch_screen s1 \<noteq> None \<and> clear_wait e s1 then no_switch e (sv_x s1) (sv_y s1) s1 else s1)"
  have a2: "sv_active s2 = sv_active s" by (simp add: s2_def no_switch_active) (simp add: s1_def)
  define found where "found = map_to_neighbor e s1 (sv_active s1) dir (sv_x s1) (sv_y s1)"
  have def: "on_mouse_move_secondary e dx0 dy0 s =
     (if sv_active s = sv_primary s then Some s
      else if sv_relative_moves s \<and> sv_locked s then Some (emit [Call (sv_active s) (MouseRelativeMove ?dx ?dy)] s)
      else if dir = NoDirection then Some (move_on_active e (sv_x s) (sv_y s) ?dx ?dy s2)
      else case found of None \<Rightarrow> None | Some f \<Rightarrow>
        (case (case f of None \<Rightarrow> (None, sv_x s1, sv_y s1) | Some (c, x, y) \<Rightarrow> (Some c, x, y)) of (sc, x, y) \<Rightarrow>
          (case is_switch_okay e sc dir x y (clamp ax aw (sv_x s1)) (clamp ay ah (sv_y s1)) (s1\<lparr>sv_x := x, sv_y := y\<rparr>) of
            (okay, s3) \<Rightarrow> (case (okay, sc) of (True, Some c) \<Rightarrow> switch_screen e c x y False s3
              | _ \<Rightarrow> Some (move_on_active e (sv_x s) (sv_y s) ?dx ?dy s3)))))"
    unfolding on_mouse_move_secondary_def s1_def [symmetric] dir_def [symmetric] Let_def s2_def [symmetric] sh prod.case found_def ..
  have "dir \<noteq> NoDirection \<and> \<not> (sv_relative_moves s \<and> sv_locked s) \<and> sv_active s \<noteq> sv_primary s"
    using move new a2 unfolding def by (auto simp: emit_def move_on_active_active split: if_splits)
  then have run: "(case found of None \<Rightarrow> None | Some f \<Rightarrow>
        (case (case f of None \<Rightarrow> (None, sv_x s1, sv_y s1) | Some (c, x, y) \<Rightarrow> (Some c, x, y)) of (sc, x, y) \<Rightarrow>
          (case is_switch_okay e sc dir x y (clamp ax aw (sv_x s1)) (clamp ay ah (sv_y s1)) (s1\<lparr>sv_x := x, sv_y := y\<rparr>) of
            (okay, s3) \<Rightarrow> (case (okay, sc) of (True, Some c) \<Rightarrow> switch_screen e c x y False s3
              | _ \<Rightarrow> Some (move_on_active e (sv_x s) (sv_y s) ?dx ?dy s3))))) = Some t"
    using move unfolding def by (metis (no_types, lifting))
  then obtain f where f: "found = Some f" by (cases found) auto
  obtain sc x y where sc: "(case f of None \<Rightarrow> (None, sv_x s1, sv_y s1) | Some (c, x, y) \<Rightarrow> (Some c, x, y)) = (sc, x, y)"
    by (metis surj_pair)
  let ?s1 = "s1\<lparr>sv_x := x, sv_y := y\<rparr>"
  obtain okay s3 where ok: "is_switch_okay e sc dir x y (clamp ax aw (sv_x s1)) (clamp ay ah (sv_y s1)) ?s1 = (okay, s3)"
    by fastforce
  note pol = switch_okay_policy [OF ok]
  have p: "same_policy s ?s1" by (simp add: s1_def same_policy_def)
  have a3: "sv_active s3 = sv_active s" using pol p by (simp add: same_policy_def)
  have okay
  proof (rule ccontr)
    assume "\<not> okay"
    then have "t = move_on_active e (sv_x s) (sv_y s) ?dx ?dy s3" using run f sc ok by simp
    then show False using new a3 by (simp add: move_on_active_active)
  qed
  then have "allowed e ?s1 \<and> \<not> corner_locked e ?s1 (clamp ax aw (sv_x s1)) (clamp ay ah (sv_y s1))"
    using pol by (simp add: allowed_def)
  then show ?thesis using allowed_same [OF p] corner_same [OF p] by blast
qed

section \<open>Where the cursor arrives\<close>

definition crosses :: "screen_env \<Rightarrow> direction \<Rightarrow> client \<Rightarrow> int \<Rightarrow> int \<Rightarrow> bool" where
  "crosses e dir c x y =
     (case en_shape e c of (dx, dy, dw, dh) \<Rightarrow>
       if along dir then dy \<le> y \<and> y < dy + dh else dx \<le> x \<and> x < dx + dw)"

definition on_screen :: "screen_env \<Rightarrow> client \<Rightarrow> int \<Rightarrow> int \<Rightarrow> bool" where
  "on_screen e c x y =
     (case en_shape e c of (dx, dy, dw, dh) \<Rightarrow> dx \<le> x \<and> x < dx + dw \<and> dy \<le> y \<and> y < dy + dh)"

text \<open>The position has left the screen in the direction.\<close>

definition beyond :: "screen_env \<Rightarrow> direction \<Rightarrow> client \<Rightarrow> int \<Rightarrow> int \<Rightarrow> bool" where
  "beyond e dir c x y =
     (case en_shape e c of (dx, dy, dw, dh) \<Rightarrow>
       (case dir of DirLeft \<Rightarrow> x < dx | DirRight \<Rightarrow> x \<ge> dx + dw | DirTop \<Rightarrow> y < dy | DirBottom \<Rightarrow> y \<ge> dy + dh
        | NoDirection \<Rightarrow> False))"

definition screens_sane :: "screen_env \<Rightarrow> server \<Rightarrow> bool" where
  "screens_sane e s \<longleftrightarrow>
     0 \<le> en_jump_zone e \<and>
     (\<forall>c \<in> set (all_clients s). case en_shape e c of (dx, dy, dw, dh) \<Rightarrow>
        0 < dw \<and> 0 < dh \<and> (c = sv_primary s \<longrightarrow> en_jump_zone e < dw \<and> en_jump_zone e < dh))"

lemma edge_map_range:
  assumes s: "edge_ok s" and d: "edge_ok d" and t: "edge_inside s t"
  shows "0 \<le> edge_inverse id d (edge_transform id s t) \<and> edge_inverse id d (edge_transform id s t) < 1"
proof -
  have len: "0 < ce_second s - ce_first s" and dst: "0 \<le> ce_first d" "ce_second d \<le> 1" "0 < ce_second d - ce_first d"
    using s d by (auto simp: edge_ok_def interval_ok_def)
  let ?r = "(t - ce_first s) / (ce_second s - ce_first s)"
  have r: "0 \<le> ?r" "?r < 1" using t len by (auto simp: edge_inside_def field_simps)
  have "0 \<le> ?r * (ce_second d - ce_first d)" by (rule mult_nonneg_nonneg) (use r dst in linarith)+
  moreover have "?r * (ce_second d - ce_first d) < 1 * (ce_second d - ce_first d)"
    using r dst by (intro mult_strict_right_mono) auto
  ultimately show ?thesis using dst by (auto simp: edge_inverse_def edge_transform_def)
qed

lemma neighbor_position:
  assumes ok: "config_ok cfg" and dir: "dir \<noteq> NoDirection" and nb: "get_neighbor id cfg src dir t = (name, Some p)"
  shows "0 \<le> p \<and> p < 1"
proof -
  obtain cell where cell: "map_find caseless_less (canonical_name cfg src) (cf_screens cfg) = Some cell"
    using nb by (auto simp: get_neighbor_def split: option.splits)
  obtain a b where l: "cell_get_link dir t cell = Some (a, b)"
    and p: "p = edge_inverse id b (edge_transform id a t)"
    using nb cell by (auto simp: get_neighbor_def split: option.splits)
  have links: "links_ok (cl_links cell)" using screens_find_ok [OF ok cell] by (simp add: cell_ok_def)
  have "(a, b) \<in> set (cl_links cell)" "edge_inside a t" using cell_get_link_exact [OF links dir] l by auto
  then have "edge_ok a" "edge_ok b" using links unfolding links_ok_def by fastforce+
  then show ?thesis unfolding p using edge_map_range \<open>edge_inside a t\<close> by blast
qed

lemma search_position:
  assumes ok: "config_ok cfg" and dir: "dir \<noteq> NoDirection"
    and found: "search_neighbor id cfg clients dir src t = Some (Some (c, p))"
  shows "0 \<le> p \<and> p < 1"
proof -
  let ?P = "\<lambda>(rnd :: real \<Rightarrow> real) cf (_ :: (string \<times> client) list) d (_ :: string) (_ :: real) r.
    rnd = id \<longrightarrow> cf = cfg \<longrightarrow> d = dir \<longrightarrow> (\<forall>c p. r = Some (c, p) \<longrightarrow> (0 :: real) \<le> p \<and> p < 1)"
  have "?P id cfg clients dir src t (Some (c, p))"
  proof (rule search_neighbor.raw_induct [where P = ?P, OF _ found])
    fix f rnd cf cl d src t r
    assume IH: "\<And>rnd cf cl d src t r. f rnd cf cl d src t = Some r \<Longrightarrow> ?P rnd cf cl d src t r"
      and body: "(case get_neighbor rnd cf src d t of (name, pos) \<Rightarrow>
          if name = [] then Some None
          else case map_find (<) name cl of
            None \<Rightarrow> (case pos of None \<Rightarrow> Some None | Some p \<Rightarrow> f rnd cf cl d name p)
          | Some c \<Rightarrow> Some (map_option (Pair c) pos)) = Some r"
    show "?P rnd cf cl d src t r"
    proof (intro impI)
      assume h: "rnd = id" "cf = cfg" "d = dir"
      obtain name pos where g: "get_neighbor rnd cf src d t = (name, pos)" by fastforce
      show "\<forall>c p. r = Some (c, p) \<longrightarrow> 0 \<le> p \<and> p < 1"
      proof (cases "map_find (<) name cl")
        case None
        then have "r = None \<or> (\<exists>p. f rnd cf cl d name p = Some r)"
          using body g by (auto split: if_splits option.splits)
        then show ?thesis using IH h by fastforce
      next
        case (Some c)
        then have "r = None \<or> (\<exists>p. pos = Some p \<and> r = Some (c, p))" using body g by (cases pos) (auto split: if_splits)
        then show ?thesis using neighbor_position [OF ok dir] g h by auto
      qed
    qed
  qed
  then show ?thesis by blast
qed

lemma truncate_range:
  assumes "0 \<le> p" and "p < 1" and "0 < n"
  shows "0 \<le> truncate_real (p * real_of_int n) \<and> truncate_real (p * real_of_int n) < n"
proof -
  have "0 \<le> p * real_of_int n" "p * real_of_int n < real_of_int n" using assms by auto
  then show ?thesis by (auto simp: truncate_real_def floor_less_iff)
qed

text \<open>A neighbour's position crosses its edge; the other coordinate does not change.\<close>

lemma server_neighbor_position:
  assumes id: "en_rnd e = id" and ok: "config_ok (sv_config s)" and sane: "screens_sane e s"
    and nb: "server_neighbor e s src dir x y = Some (Some (c, x1, y1))"
  shows "dir \<noteq> NoDirection \<and> crosses e dir c x1 y1 \<and> (if along dir then x1 = x else y1 = y)"
proof -
  obtain dx dy dw dh where sh: "en_shape e c = (dx, dy, dw, dh)" by (cases "en_shape e c")
  have pos: "0 < dw" "0 < dh" using sane server_neighbor_client [OF nb] sh by (auto simp: screens_sane_def)
  obtain t where t: "map_to_fraction e src dir x y = Some t"
    using nb by (auto simp: server_neighbor_def split: option.splits)
  have dir: "dir \<noteq> NoDirection" using t by (auto simp: map_to_fraction_def split: prod.splits)
  obtain p where p: "search_neighbor id (sv_config s) (sv_clients s) dir (client_name e s src) t = Some (Some (c, p))"
    and px: "(x1, y1) = map_to_pixel e c dir p x y"
    using nb t id by (auto simp: server_neighbor_def split: option.splits)
  have "0 \<le> p \<and> p < 1" by (rule search_position [OF ok dir p])
  then show ?thesis
    using px dir truncate_range [of p dw] truncate_range [of p dh] pos id
    by (cases dir) (auto simp: map_to_pixel_def sh crosses_def along_def float_of_def)
qed

definition past :: "screen_env \<Rightarrow> direction \<Rightarrow> client \<Rightarrow> int \<times> int \<Rightarrow> bool" where
  "past e dir c p =
     (case (en_shape e c, p) of ((_, _, lw, lh), (x, y)) \<Rightarrow>
       (case dir of DirLeft \<Rightarrow> x < 0 | DirRight \<Rightarrow> x \<ge> lw | DirTop \<Rightarrow> y < 0 | DirBottom \<Rightarrow> y \<ge> lh | NoDirection \<Rightarrow> False))"

definition lies_on :: "screen_env \<Rightarrow> direction \<Rightarrow> client \<Rightarrow> int \<Rightarrow> int \<Rightarrow> bool" where
  "lies_on e dir c x y =
     (case en_shape e c of (_, _, dw, dh) \<Rightarrow> if along dir then 0 \<le> x \<and> x < dw else 0 \<le> y \<and> y < dh)"

lemma enter_screen_cases:
  assumes "past e dir l (x, y)" and "enter_screen e dir l d x y = ((x1, y1), inside)"
  shows "(if along dir then y1 = y else x1 = x) \<and> (if inside then lies_on e dir d x1 y1 else past e dir d (x1, y1))"
  using assms by (cases dir) (auto simp: past_def enter_screen_def lies_on_def along_def split: prod.splits)

lemma crosses_along: "along dir \<Longrightarrow> crosses e dir c x y = crosses e dir c x' y"
  "\<not> along dir \<Longrightarrow> crosses e dir c x y = crosses e dir c x y'"
  by (simp_all add: crosses_def split: prod.splits)

lemma walk_position:
  assumes id: "en_rnd e = id" and ok: "config_ok (sv_config s)" and sane: "screens_sane e s"
    and walk: "walk_neighbors e s dir l d pos = Some (c, x', y')"
    and start: "past e dir l pos" "crosses e dir d (fst pos) (snd pos)"
  shows "crosses e dir c x' y' \<and> (lies_on e dir c x' y' \<or> past e dir c (x', y') \<and> (\<exists>x y. server_neighbor e s c dir x y = Some None))"
proof -
  let ?Q = "\<lambda>r. crosses e dir (fst r) (fst (snd r)) (snd (snd r)) \<and>
    (lies_on e dir (fst r) (fst (snd r)) (snd (snd r)) \<or>
     past e dir (fst r) (snd r) \<and> (\<exists>x y. server_neighbor e s (fst r) dir x y = Some None))"
  let ?P = "\<lambda>e' s' dir' l d pos r. e' = e \<longrightarrow> s' = s \<longrightarrow> dir' = dir \<longrightarrow>
    past e dir l pos \<longrightarrow> crosses e dir d (fst pos) (snd pos) \<longrightarrow> ?Q r"
  have "?P e s dir l d pos (c, x', y')"
  proof (rule walk_neighbors.raw_induct [where P = ?P, OF _ walk])
    fix f e' s' dir' l d pos r
    assume IH: "\<And>e' s' dir' l d pos r. f e' s' dir' l d pos = Some r \<Longrightarrow> ?P e' s' dir' l d pos r"
      and body: "(case enter_screen e' dir' l d (fst pos) (snd pos) of ((x1, y1), inside) \<Rightarrow>
          if inside then Some (d, x1, y1)
          else case server_neighbor e' s' d dir' x1 y1 of
            None \<Rightarrow> None
          | Some None \<Rightarrow> Some (d, x1, y1)
          | Some (Some (n, pos2)) \<Rightarrow> f e' s' dir' d n pos2) = Some r"
    show "?P e' s' dir' l d pos r"
    proof (intro impI)
      assume h: "e' = e" "s' = s" "dir' = dir" "past e dir l pos" "crosses e dir d (fst pos) (snd pos)"
      obtain x1 y1 inside where en: "enter_screen e dir l d (fst pos) (snd pos) = ((x1, y1), inside)"
        by (metis surj_pair)
      note ent = enter_screen_cases [OF _ en] h(4)
      have cr: "crosses e dir d x1 y1" using ent h(5) crosses_along by (metis prod.collapse)
      show "?Q r"
      proof (cases inside)
        case True
        then show ?thesis using body en h(1-3) ent cr by (auto split: if_splits)
      next
        case False
        then have pst: "past e dir d (x1, y1)" using ent by (simp split: if_splits)
        obtain found where found: "server_neighbor e s d dir x1 y1 = Some found"
          using body en False h(1-3) by (cases "server_neighbor e s d dir x1 y1") auto
        show ?thesis
        proof (cases found)
          case None
          then have "server_neighbor e s d dir x1 y1 = Some None" "r = (d, x1, y1)"
            using body en False h(1-3) found by auto
          then show ?thesis using pst cr by auto
        next
          case (Some t)
          obtain n x2 y2 where t: "t = (n, x2, y2)" by (cases t)
          have n: "server_neighbor e s d dir x1 y1 = Some (Some (n, x2, y2))" using found Some t by simp
          note pos2 = server_neighbor_position [OF id ok sane n]
          have "past e dir d (x2, y2)"
            using pst pos2 by (cases dir) (auto simp: past_def along_def split: prod.splits)
          moreover have "f e s dir d n (x2, y2) = Some r" using body en False h(1-3) n by simp
          ultimately show ?thesis using IH pos2 by simp
        qed
      qed
    qed
  qed
  then show ?thesis using start by simp
qed

lemma jump_zone_position:
  assumes sane: "screens_sane e s" and c: "c \<in> set (all_clients s)"
    and av: "avoid_jump_zone e s c dir x y = Some (x', y')"
  shows "(on_screen e c x y \<longrightarrow> on_screen e c x' y') \<and> (crosses e dir c x y \<longrightarrow> crosses e dir c x' y')"
proof -
  obtain dx dy dw dh where sh: "en_shape e c = (dx, dy, dw, dh)" by (cases "en_shape e c")
  have z: "0 \<le> en_jump_zone e" "c = sv_primary s \<longrightarrow> en_jump_zone e < dw \<and> en_jump_zone e < dh"
    using sane c sh by (auto simp: screens_sane_def)
  show ?thesis
  proof (cases "c = sv_primary s")
    case True
    then show ?thesis using av z
      by (cases dir) (auto simp: avoid_jump_zone_def sh [unfolded True] Let_def jump_zone_size_def on_screen_def crosses_def along_def
          split: option.splits if_splits)
  qed (use av in \<open>simp add: avoid_jump_zone_def\<close>)
qed


section \<open>Runs\<close>

text \<open>C4. As long as no screen saver starts, no switch delay is set and every client connects under its
  canonical name, whatever comes and goes, the screen with the focus and every screen the server
  knows by name are connected clients, and no connected client has been deleted.\<close>

theorem focus_on_connected_client:
  assumes "new_server e0 p cfg lock x y = Some s0" and "server_run s0 evs = Some s"
    and "\<forall>ev \<in> set ((e0, EvSetConfig cfg lock) # evs). calm_event nm ev"
  shows "sv_active s \<in> sv_client_set s \<and> (\<forall>c \<in> set (all_clients s). c \<in> sv_client_set s) \<and>
    sv_client_set s \<inter> sv_deleted s = {}"
proof -
  have "calm nm s0" using calm_start [OF assms(1), of nm] assms(3) by (simp add: calm_event_def)
  then have "connected nm s" using calm_run [of nm s0 evs s] assms(2,3) by (simp add: calm_def)
  then have "sv_active s \<in> sv_client_set s" "\<forall>(n, c) \<in> set (sv_clients s). c \<in> sv_client_set s \<and> n = nm c"
    "sv_client_set s \<inter> sv_deleted s = {}"
    unfolding connected_def by blast+
  then show ?thesis unfolding all_clients_def by fastforce
qed

text \<open>C19. Whatever event the server handles, in any state, every clipboard it sends to a client fits the
  configured size limit.\<close>

theorem clipboards_within_limit:
  assumes "server_step e ev s = Some t"
  shows "\<exists>sent. sv_trace t = sv_trace s @ sent \<and>
    (\<forall>c i cb. Call c (SetClipboard i cb) \<in> set sent \<longrightarrow> length (fst (marshall cb)) \<le> sv_max_clipboard s * 1024)"
proof -
  obtain es where es: "sv_trace t = sv_trace s @ es" "clipboards_fit (sv_max_clipboard s) es"
    using safe_step [OF assms] by (auto simp: safe_def sends_def)
  then have "length (fst (marshall cb)) \<le> sv_max_clipboard s * 1024" if "Call c (SetClipboard i cb) \<in> set es" for c i cb
    using that unfolding clipboards_fit_def by fastforce
  then show ?thesis using es(1) by blast
qed

text \<open>When a switch delay expires there is a screen to switch to: the handler's assertion holds.\<close>

lemma switch_timer_has_target:
  assumes "new_server e0 p cfg lock x y = Some s0" and "server_run s0 evs = Some s" and "sv_switch_wait_timer s"
  shows "\<exists>c. sv_switch_screen s = Some c"
  using wait_ok_run [OF wait_ok_start [OF assms(1)] assms(2)] assms(3) by (auto simp: wait_ok_def)


section \<open>Where the code does not keep what it means to\<close>

text \<open>While the screen saver remembers another screen, a client that has the focus can leave and keep it.\<close>

lemma saver_keeps_deleted_focus:
  assumes "sv_active_saver s = Some a" and "a \<noteq> sv_active s" and "sv_active s \<in> sv_client_set s"
    and "sv_active s \<in> sv_watched s" and "sv_active s \<notin> sv_old_clients s"
  shows "\<exists>t. server_step e (EvClientDisconnected (sv_active s)) s = Some t \<and> sv_active t = sv_active s \<and>
    sv_active t \<in> sv_deleted t"
proof -
  let ?c = "sv_active s"
  define s1 where "s1 = s\<lparr>sv_clients := map_erase (<) (client_name e s ?c) (sv_clients s), sv_client_set := sv_client_set s - {?c}\<rparr>"
  define s2 where "s2 = emit [Call (sv_primary s1) (Reconfigure (active_primary_sides e s1))] s1"
  have leave: "force_leave_client e ?c s1 = s2"
    using assms(1,2) unfolding force_leave_client_def Let_def s2_def by (simp add: s1_def)
  have "remove_active_client e ?c s = post_if_empty (s2\<lparr>sv_watched := sv_watched s2 - {?c}\<rparr>)"
    using assms(3) leave by (simp add: remove_active_client_def remove_client_def s1_def Let_def)
  then have "sv_active (remove_active_client e ?c s) = ?c"
    by (simp add: post_if_empty_def emit_def s2_def s1_def)
  then show ?thesis using assms(4)
    by (simp add: handle_client_disconnected_def delete_client_def remove_old_client_def post_if_empty_def emit_def)
qed

text \<open>A client that is the target of a pending switch can leave; the timer then switches to it.\<close>

lemma delay_switches_to_deleted:
  assumes "sv_switch_screen s = Some c" and "c \<in> sv_deleted s" and "sv_switch_wait_timer s"
    and "\<not> is_locked_to_screen e s" and "sv_active s \<noteq> sv_primary s" and "en_leaves e (sv_active s)" and "sv_active s \<noteq> c"
  shows "\<exists>t. server_step e EvSwitchWaitTimeout s = Some t \<and> sv_active t = c \<and> c \<in> sv_deleted t"
proof -
  have active: "sv_active (stop_switch s) = sv_active s" "sv_primary (stop_switch s) = sv_primary s"
    using keeps_stop_switch [of s] by (simp_all add: keeps_defs)
  obtain u b where t: "switch_screen e c (sv_wait_x s) (sv_wait_y s) False s =
      Some (emit [PostScreenSwitched (en_name e c)] (if b then send_clipboards clipboard_ids u else u))" and u: "sv_active u = c"
    using assms(5-7) active by (simp add: switch_screen_def Let_def emit_def)
  let ?t = "emit [PostScreenSwitched (en_name e c)] (if b then send_clipboards clipboard_ids u else u)"
  have "keeps s ?t" using keeps_switch_screen [OF t] by blast
  then have "c \<in> sv_deleted ?t" using assms(2) by (simp add: keeps_def same_clients_def)
  moreover have "sv_active ?t = c"
    using keeps_send_clipboards [of u clipboard_ids] u by (simp add: keeps_active_def emit_def)
  ultimately show ?thesis using t assms(1,3,4) by (simp add: handle_switch_wait_timeout_def)
qed

lemma disconnect_keeps_target:
  assumes "sv_active_saver s = None" and "sv_active s \<noteq> c"
  shows "sv_switch_screen (handle_client_disconnected e c s) = sv_switch_screen s \<and>
    sv_switch_wait_timer (handle_client_disconnected e c s) = sv_switch_wait_timer s \<and>
    c \<in> sv_deleted (handle_client_disconnected e c s)"
  using assms
  by (simp add: handle_client_disconnected_def delete_client_def remove_old_client_def remove_active_client_def
      remove_client_def force_leave_client_def post_if_empty_def emit_def Let_def)

text \<open>A client whose name in the configuration changed stays in the list of clients after it is closed.\<close>

lemma closed_client_stays_listed:
  assumes "(n, c) \<in> set (sv_clients s)" and "client_name e s c \<noteq> n"
  shows "(n, c) \<in> set (sv_clients (close_client e msg c s))"
proof -
  have "sv_clients (force_leave_client e c u) = sv_clients u" for u
    by (simp add: force_leave_client_def Let_def emit_def stop_switch_def stop_switch_wait_def stop_switch_two_tap_def)
  moreover have "client_name e (emit es s) c = client_name e s c" for es by (simp add: client_name_def emit_def)
  ultimately show ?thesis using assms
    by (auto simp: close_client_def Let_def remove_client_def emit_def map_erase_def same_key_def client_name_def)
qed

text \<open>With keyboard broadcasting on, a key without its own list of screens reaches no screen at all.\<close>

lemma broadcast_key_is_lost:
  "sv_broadcasting s \<Longrightarrow> relay_key call [] s = s"
  by (simp add: relay_key_def screens_default_def screens_contain_def emit_def case_prod_beta)

text \<open>With clipboard sharing disabled, a clipboard is still passed on to the active screen.\<close>

lemma disabled_clipboard_is_sent:
  assumes "\<not> sv_enable_clipboard s" and "c \<in> sv_client_set s" and "i < unat kClipboardEnd"
    and "ci_seq (clip_at s i) \<le> seq" and "find_client s (ci_owner (clip_at s i)) = Some c"
    and "marshall (en_get_clipboard e c i (ci_clipboard (clip_at s i))) = (d, cb)"
    and "length d \<le> sv_max_clipboard s * 1024" and "d \<noteq> ci_data (clip_at s i)"
  shows "\<exists>t. server_step e (EvClipboardChanged c i seq) s = Some t \<and> Call (sv_active s) (SetClipboard i cb) \<in> set (sv_trace t)"
proof -
  have "\<not> seq < ci_seq (clip_at s i)" using assms(4) by (simp add: not_less)
  then show ?thesis using assms by (simp add: handle_clipboard_changed_def on_clipboard_changed_def Let_def emit_def put_clip_def)
qed

text \<open>The wait at the bottom edge is given up by any motion inside the screen.\<close>

lemma bottom_wait_always_cleared:
  assumes "en_shape e (sv_active s) = (ax, ay, aw, ah)" and "sv_switch_dir s = DirBottom"
    and "0 \<le> en_jump_zone e" and "sv_y s < ay + ah"
  shows "clear_wait e s"
  using assms by (simp add: clear_wait_def)

text \<open>The search for a connected neighbour does not end when unconnected screens link to each other, here a
  screen to itself.\<close>

lemma self_link_search_endless:
  assumes n: "n \<noteq> []" "map_find (<) n clients = None"
    and loop: "\<And>t. t \<in> T \<Longrightarrow> \<exists>p \<in> T. get_neighbor rnd cfg n dir t = (n, Some p)" and t: "t \<in> T"
  shows "search_neighbor rnd cfg clients dir n t = None"
proof (rule ccontr)
  assume "search_neighbor rnd cfg clients dir n t \<noteq> None"
  then obtain r where r: "search_neighbor rnd cfg clients dir n t = Some r" by blast
  let ?P = "\<lambda>rnd' cf cl d src t (r :: (client \<times> real) option).
    \<not> (rnd' = rnd \<and> cf = cfg \<and> cl = clients \<and> d = dir \<and> src = n \<and> t \<in> T)"
  have "?P rnd cfg clients dir n t r"
  proof (rule search_neighbor.raw_induct [where P = ?P, OF _ r])
    fix f rnd' cf cl d src t r
    assume IH: "\<And>rnd cf cl d src t r. f rnd cf cl d src t = Some r \<Longrightarrow> ?P rnd cf cl d src t r"
      and body: "(case get_neighbor rnd' cf src d t of (name, pos) \<Rightarrow>
          if name = [] then Some None
          else case map_find (<) name cl of
            None \<Rightarrow> (case pos of None \<Rightarrow> Some None | Some p \<Rightarrow> f rnd' cf cl d name p)
          | Some c \<Rightarrow> Some (map_option (Pair c) pos)) = Some r"
    show "?P rnd' cf cl d src t r"
    proof
      assume h: "rnd' = rnd \<and> cf = cfg \<and> cl = clients \<and> d = dir \<and> src = n \<and> t \<in> T"
      then obtain p where "p \<in> T" "get_neighbor rnd cfg n dir t = (n, Some p)" using loop by blast
      then have "f rnd cfg clients dir n p = Some r" using body h n by simp
      then show False using IH \<open>p \<in> T\<close> by blast
    qed
  qed
  then show False using t by simp
qed

section \<open>An example: a primary screen with one client on its right\<close>

definition demo_env :: screen_env where
  "demo_env =
     \<lparr>en_name = (\<lambda>c. if c = 0 then ''p'' else ''c''), en_shape = (\<lambda>_. (0, 0, 100, 80)), en_cursor = (\<lambda>_. (10, 10)),
      en_center = (50, 40), en_jump_zone = 1, en_toggle_mask = 0, en_primary_locked = False, en_leaves = (\<lambda>_. True),
      en_get_clipboard = (\<lambda>_ _ c. c), en_now = 0, en_adjust = id, en_rnd = id\<rparr>"

abbreviation demo_calls :: "config_call list" where
  "demo_calls \<equiv> [AddScreen ''p'', AddScreen ''c'', ConnectScreens ''p'' DirRight 0 1 ''c'' 0 1,
     ConnectScreens ''c'' DirLeft 0 1 ''p'' 0 1]"

definition demo_config :: config where
  "demo_config =
     \<lparr>cf_screens =
        [(''c'', \<lparr>cl_links = [(\<lparr>ce_name = [], ce_side = DirLeft, ce_first = 0, ce_second = 1\<rparr>,
                               \<lparr>ce_name = ''p'', ce_side = DirLeft, ce_first = 0, ce_second = 1\<rparr>)], cl_options = []\<rparr>),
         (''p'', \<lparr>cl_links = [(\<lparr>ce_name = [], ce_side = DirRight, ce_first = 0, ce_second = 1\<rparr>,
                               \<lparr>ce_name = ''c'', ce_side = DirRight, ce_first = 0, ce_second = 1\<rparr>)], cl_options = []\<rparr>)],
      cf_names = [(''c'', ''c''), (''p'', ''p'')], cf_globals = []\<rparr>"

lemma demo_config_calls: "demo_config = run config_step new_config demo_calls"
  by (simp add: config_evaluation demo_config_def)

definition demo_server :: server where
  "demo_server = (blank_server 0 demo_config 50 40)\<lparr>sv_clients := [(''c'', 1), (''p'', 0)], sv_client_set := {0, 1},
     sv_watched := {1}, sv_clipboards := [start_clip ''p'', start_clip ''p'']\<rparr>"

lemma demo_neighbor:
  "sv_config s = demo_config \<Longrightarrow> sv_clients s = [(''c'', 1), (''p'', 0)] \<Longrightarrow>
   server_neighbor demo_env s 0 DirRight 100 40 = Some (Some (1, 100, 40))"
  by (simp add: server_neighbor_def map_to_fraction_def search_neighbor.simps config_evaluation demo_config_def
      demo_env_def client_name_def float_of_def map_to_pixel_def truncate_real_def)

lemma demo_map:
  "sv_config s = demo_config \<Longrightarrow> sv_clients s = [(''c'', 1), (''p'', 0)] \<Longrightarrow> sv_primary s = 0 \<Longrightarrow>
   map_to_neighbor demo_env s 0 DirRight 100 40 = Some (Some (1, 0, 40))"
  by (simp add: map_to_neighbor_def demo_neighbor walk_neighbors.simps enter_screen_def along_def)
    (simp add: demo_env_def avoid_jump_zone_def)

lemma demo_fields: "sv_config demo_server = demo_config" "sv_clients demo_server = [(''c'', 1), (''p'', 0)]" "sv_primary demo_server = 0"
  by (simp_all add: demo_server_def blank_server_def)


text \<open>A motion over the right edge of the primary screen.\<close>

definition moving_server :: server where
  "moving_server = demo_server\<lparr>sv_enable_clipboard := False\<rparr>"

lemma demo_options: "get_options demo_config n = None \<or> get_options demo_config n = Some []"
  by (auto simp: get_options_def demo_config_def map_find_def split: if_splits)

lemma demo_corner: "sv_config s = demo_config \<Longrightarrow> \<not> corner_locked demo_env s x y"
proof -
  have "get_options demo_config [] = Some []" by (simp add: get_options_def demo_config_def)
  then show "sv_config s = demo_config \<Longrightarrow> ?thesis"
    using demo_options [of "client_name demo_env s (sv_active s)"]
    by (auto simp: corner_locked_def Let_def map_contains_def map_find_def)
qed

lemma switch_without_clipboards:
  assumes "sv_active s \<noteq> c" and "en_leaves e (sv_active s)" and "\<not> sv_enable_clipboard s"
  shows "\<exists>t. switch_screen e c x y saver s = Some t \<and> sv_active t = c"
proof -
  have "sv_active (stop_switch s) = sv_active s" "sv_enable_clipboard (stop_switch s) = sv_enable_clipboard s"
    using keeps_stop_switch [of s] by (simp_all add: keeps_defs)
  then show ?thesis using assms by (simp add: switch_screen_def Let_def emit_def)
qed

lemma demo_motion:
  "\<exists>t. server_step demo_env (EvMotionPrimary 99 40) moving_server = Some t \<and> sv_active t = 1"
proof -
  define s1 where "s1 = moving_server\<lparr>sv_x_delta2 := sv_x_delta moving_server, sv_y_delta2 := sv_y_delta moving_server,
    sv_x_delta := 99 - sv_x moving_server, sv_y_delta := 40 - sv_y moving_server, sv_x := 99, sv_y := 40\<rparr>"
  have fields: "sv_active s1 = 0" "sv_primary s1 = 0" "sv_active moving_server = 0" "sv_primary moving_server = 0"
    "sv_config s1 = demo_config" "sv_clients s1 = [(''c'', 1), (''p'', 0)]" "sv_switch_screen s1 = None"
    "sv_two_tap_delay s1 = 0" "sv_switch_wait_delay s1 = 0" "sv_locked s1 = False" "sv_switch_dir s1 = NoDirection"
    "sv_disable_lock s1 = False" "sv_needs_shift s1 = False" "sv_needs_control s1 = False" "sv_needs_alt s1 = False"
    "sv_enable_clipboard s1 = False"
    by (simp_all add: s1_def moving_server_def demo_server_def blank_server_def)
  have map: "map_to_neighbor demo_env s1 0 DirRight 100 40 = Some (Some (1, 0, 40))" by (rule demo_map) (simp_all add: fields)
  define s2 where "s2 = s1\<lparr>sv_switch_dir := DirRight, sv_switch_screen := Some 1\<rparr>"
  have "sv_config s2 = demo_config" by (simp add: s2_def fields)
  then have "\<not> corner_locked demo_env s2 99 40" by (rule demo_corner)
  moreover have "\<not> is_locked_to_screen demo_env s2" "\<not> modifiers_missing demo_env s2"
    by (simp_all add: is_locked_to_screen_def modifiers_missing_def s2_def fields) (simp add: demo_env_def)
  ultimately have okay: "is_switch_okay demo_env (Some 1) DirRight 0 40 99 40 s1 = (True, s2)"
    unfolding is_switch_okay_def Let_def by (simp add: fields s2_def [symmetric]) (simp add: s2_def fields)
  obtain t where switch: "switch_screen demo_env 1 0 40 False s2 = Some t" "sv_active t = 1"
    using switch_without_clipboards [of s2 1 demo_env 0 40 False] by (auto simp: s2_def fields demo_env_def)
  have "on_mouse_move_primary demo_env 99 40 moving_server = Some (True, t)"
    unfolding on_mouse_move_primary_def s1_def [symmetric] Let_def
    using map okay switch by (simp add: fields demo_env_def jump_zone_size_def)
  then show ?thesis using switch by simp
qed


lemma clipboards_within_limit_witness:
  "\<exists>t sent. server_step demo_env (EvMotionPrimary 99 40) moving_server = Some t \<and>
    sv_trace t = sv_trace moving_server @ sent \<and>
    (\<forall>c i cb. Call c (SetClipboard i cb) \<in> set sent \<longrightarrow> length (fst (marshall cb)) \<le> sv_max_clipboard moving_server * 1024)"
  using demo_motion clipboards_within_limit by blast

lemma demo_start: "\<exists>s0. new_server demo_env 0 demo_config True 50 40 = Some s0"
proof -
  have screen: "is_screen demo_config (en_name demo_env 0)"
    by (simp add: is_screen_def demo_config_def demo_env_def config_evaluation)
  have "process_options demo_env u \<noteq> None" if "sv_config u = demo_config" for u
    using that by (simp add: process_options_def get_options_def demo_config_def Let_def)
  then have "set_config demo_env demo_config True u \<noteq> None" if "sv_primary u = 0" for u
    using that screen close_clients_config by (auto simp: set_config_def Let_def split: option.splits)
  moreover have "sv_primary (snd (add_client demo_env 0 u)) = sv_primary u" for u
    by (simp add: add_client_def Let_def emit_def set_jump_cursor_pos_def)
  ultimately have set: "set_config demo_env demo_config True (snd (add_client demo_env 0 u)) \<noteq> None" if "sv_primary u = 0" for u
    using that by metis
  let ?u = "(blank_server 0 demo_config 50 40)\<lparr>sv_two_tap_mark := en_now demo_env,
    sv_clipboards := map (\<lambda>_. start_clip (client_name demo_env (blank_server 0 demo_config 50 40) 0)) clipboard_ids\<rparr>"
  have "sv_primary ?u = 0" by (simp add: blank_server_def)
  then obtain r where "set_config demo_env demo_config True (snd (add_client demo_env 0 ?u)) = Some r"
    using set [of ?u] by blast
  then show ?thesis using screen by (cases r) (simp add: new_server_def Let_def)
qed

lemma focus_on_connected_client_witness:
  "\<exists>s0 s. new_server demo_env 0 demo_config True 50 40 = Some s0 \<and>
     server_run s0 [(demo_env, EvClientAdopted 1), (demo_env, EvLockCursor ToggleOn), (demo_env, EvClientDisconnected 1)] = Some s \<and>
     sv_active s \<in> sv_client_set s \<and> (\<forall>c \<in> set (all_clients s). c \<in> sv_client_set s) \<and>
     sv_client_set s \<inter> sv_deleted s = {}"
proof -
  let ?evs = "[(demo_env, EvClientAdopted 1), (demo_env, EvLockCursor ToggleOn), (demo_env, EvClientDisconnected 1)]"
  obtain s0 where s0: "new_server demo_env 0 demo_config True 50 40 = Some s0" using demo_start by blast
  have total: "\<exists>t. server_step e (EvClientAdopted c) u = Some t" "\<exists>t. server_step e (EvLockCursor m) u = Some t"
    "\<exists>t. server_step e (EvClientDisconnected c) u = Some t" for e c m u by simp_all
  obtain s1 where s1: "server_step demo_env (EvClientAdopted 1) s0 = Some s1" using total(1) by blast
  obtain s2 where s2: "server_step demo_env (EvLockCursor ToggleOn) s1 = Some s2" using total(2) by blast
  obtain s where s3: "server_step demo_env (EvClientDisconnected 1) s2 = Some s" using total(3) by blast
  have s: "server_run s0 ?evs = Some s" using s1 s2 s3 by (simp only: server_run.simps option.case)
  have name: "canonical_name demo_config ''p'' = ''p''" "canonical_name demo_config ''c'' = ''c''"
    by (simp_all add: demo_config_def config_evaluation)
  have calm: "\<forall>ev \<in> set ((demo_env, EvSetConfig demo_config True) # ?evs). calm_event (en_name demo_env) ev"
    using name by (simp add: calm_event_def plain_def no_delay_def demo_config_def demo_env_def)
  show ?thesis using s0 s focus_on_connected_client [OF s0 s calm] by blast
qed

end
