(* ===== verification/LocalScreen.thy ===== *)
theory LocalScreen
  imports ServerState
begin

text \<open>
  \<open>Screen\<close> (src/lib/deskflow/Screen.cpp), the platform independent half of a screen, and \<open>PrimaryClient\<close>
  (src/lib/server), through which the server uses its own screen. What they ask of an \<open>IPlatformScreen\<close> is
  a log of calls; a query is answered by the \<open>platform\<close>, which may look at the calls made before. A
  failed \<open>assert\<close> and a read beyond an option list are the result \<open>None\<close>.
\<close>

section \<open>The platform screen\<close>

datatype platform_call =
    P_UpdateKeyMap | P_UpdateKeyState | P_Enable | P_Disable | P_Enter | P_Leave | P_CheckClipboards
  | P_Reconfigure nat
  | P_WarpCursor int int
  | P_SetClipboard nat "clipboard option"
  | P_FakeCtrlAltDel
  | P_FakeKeyDown u32 u32 u16 bytes
  | P_FakeKeyRepeat u32 u32 int u16 bytes
  | P_FakeKeyUp u16
  | P_FakeMouseButton nat bool
  | P_FakeMouseMove int int
  | P_FakeMouseRelativeMove int int
  | P_FakeMouseWheel int int
  | P_ResetOptions
  | P_SetOptions "u32 list"
  | P_SetHalfDuplexMask u32
  | P_SetSequenceNumber u32
  | P_RegisterHotKey u32 u32
  | P_UnregisterHotKey u32
  | P_FakeInputBegin | P_FakeInputEnd
  | P_OpenScreensaver bool | P_CloseScreensaver
  | P_FakeAllKeysUp

record platform =
  pl_can_leave :: "platform_call list \<Rightarrow> bool"
  pl_ctrl_alt_del :: "platform_call list \<Rightarrow> bool"
  pl_hot_key :: "platform_call list \<Rightarrow> u32"
  pl_get_clipboard :: "platform_call list \<Rightarrow> nat \<Rightarrow> clipboard \<Rightarrow> bool \<times> clipboard"
  pl_shape :: "platform_call list \<Rightarrow> int \<times> int \<times> int \<times> int"
  pl_cursor :: "platform_call list \<Rightarrow> int \<times> int"
  pl_center :: "platform_call list \<Rightarrow> int \<times> int"
  pl_jump_zone :: "platform_call list \<Rightarrow> int"
  pl_button_down :: "platform_call list \<Rightarrow> bool"
  pl_active_modifiers :: "platform_call list \<Rightarrow> u32"
  pl_poll_modifiers :: "platform_call list \<Rightarrow> u32"
  pl_secure_input_app :: "platform_call list \<Rightarrow> bytes"

section \<open>The screen\<close>

text \<open>\<open>ls_shape_events\<close> counts the \<open>ScreenShapeChanged\<close> events the screen has posted.\<close>

record local_screen =
  ls_primary :: bool
  ls_enabled :: bool
  ls_entered :: bool
  ls_half_duplex :: u32
  ls_fake_input :: bool
  ls_shape_events :: nat
  ls_calls :: "platform_call list"

definition platform_calls :: "platform_call list \<Rightarrow> local_screen \<Rightarrow> local_screen" where
  "platform_calls ps s = s\<lparr>ls_calls := ls_calls s @ ps\<rparr>"

definition KeyModifierCapsLock :: u32 where "KeyModifierCapsLock = 0x1000"
definition KeyModifierNumLock :: u32 where "KeyModifierNumLock = 0x2000"
definition kKeyDelete :: u32 where "kKeyDelete = 0xEFFF"
definition kOptionHalfDuplexCapsLock :: u32 where "kOptionHalfDuplexCapsLock = option_code ''HDCL''"
definition kOptionHalfDuplexNumLock :: u32 where "kOptionHalfDuplexNumLock = option_code ''HDNL''"
definition kOptionHalfDuplexScrollLock :: u32 where "kOptionHalfDuplexScrollLock = option_code ''HDSL''"

definition screen_reset_options :: "local_screen \<Rightarrow> local_screen" where
  "screen_reset_options s = platform_calls [P_ResetOptions] (s\<lparr>ls_half_duplex := 0\<rparr>)"

definition new_screen :: "bool \<Rightarrow> local_screen" where
  "new_screen primary =
     screen_reset_options \<lparr>ls_primary = primary, ls_enabled = False, ls_entered = primary, ls_half_duplex = 0,
       ls_fake_input = False, ls_shape_events = 0, ls_calls = []\<rparr>"

definition screen_grab_clipboard :: "nat \<Rightarrow> local_screen \<Rightarrow> local_screen" where
  "screen_grab_clipboard i s = platform_calls [P_SetClipboard i None] s"

definition enable_primary :: "local_screen \<Rightarrow> local_screen" where
  "enable_primary s = (platform_calls [P_OpenScreensaver True] s)\<lparr>ls_shape_events := Suc (ls_shape_events s)\<rparr>"

definition enable_secondary :: "local_screen \<Rightarrow> local_screen" where
  "enable_secondary s = fold screen_grab_clipboard [0..<unat kClipboardEnd] s"

definition screen_enable :: "local_screen \<Rightarrow> local_screen option" where
  "screen_enable s =
     (if ls_enabled s then None
      else let s1 = platform_calls [P_UpdateKeyMap, P_UpdateKeyState, P_Enable] s;
               s2 = (if ls_primary s1 then enable_primary s1 else enable_secondary s1)
           in Some (s2\<lparr>ls_enabled := True\<rparr>))"

definition leave_screen :: "local_screen \<Rightarrow> local_screen" where
  "leave_screen s =
     (if ls_primary s then platform_calls [P_UpdateKeyState] s else platform_calls [P_FakeAllKeysUp] s)"

definition screen_leave :: "platform \<Rightarrow> local_screen \<Rightarrow> bool \<times> local_screen" where
  "screen_leave pl s =
     (if \<not> pl_can_leave pl (ls_calls s) then (False, s)
      else (True, (platform_calls [P_Leave, P_CheckClipboards] (leave_screen s))\<lparr>ls_entered := False\<rparr>))"

text \<open>\<open>enterPrimary\<close> and \<open>enterSecondary\<close> do nothing, so the toggle mask is not used.\<close>

definition screen_enter :: "u32 \<Rightarrow> local_screen \<Rightarrow> local_screen" where
  "screen_enter toggle s = platform_calls [P_Enter] (s\<lparr>ls_entered := True\<rparr>)"

definition screen_disable :: "platform \<Rightarrow> local_screen \<Rightarrow> local_screen option" where
  "screen_disable pl s =
     (if \<not> ls_enabled s then None
      else let s1 = (if \<not> ls_primary s \<and> ls_entered s then snd (screen_leave pl s)
                     else if ls_primary s \<and> \<not> ls_entered s then screen_enter 0 s else s)
           in Some ((platform_calls [P_Disable, P_CloseScreensaver] s1)\<lparr>ls_enabled := False\<rparr>))"

definition screen_reconfigure :: "nat \<Rightarrow> local_screen \<Rightarrow> local_screen option" where
  "screen_reconfigure sides s = (if \<not> ls_primary s then None else Some (platform_calls [P_Reconfigure sides] s))"

definition screen_warp_cursor :: "int \<Rightarrow> int \<Rightarrow> local_screen \<Rightarrow> local_screen option" where
  "screen_warp_cursor x y s = (if \<not> ls_primary s then None else Some (platform_calls [P_WarpCursor x y] s))"

definition screen_set_clipboard :: "nat \<Rightarrow> clipboard \<Rightarrow> local_screen \<Rightarrow> local_screen" where
  "screen_set_clipboard i c s = platform_calls [P_SetClipboard i (Some c)] s"

definition screen_screensaver :: "bool \<Rightarrow> local_screen \<Rightarrow> local_screen" where
  "screen_screensaver on s = s"

definition screen_key_down :: "platform \<Rightarrow> u32 \<Rightarrow> u32 \<Rightarrow> u16 \<Rightarrow> bytes \<Rightarrow> local_screen \<Rightarrow> local_screen" where
  "screen_key_down pl key m button lang s =
     (let ctrl_alt = or KeyModifierControl KeyModifierAlt in
      if key = kKeyDelete \<and> and m ctrl_alt = ctrl_alt then
        (let s1 = platform_calls [P_FakeCtrlAltDel] s in
         if pl_ctrl_alt_del pl (ls_calls s) then s1 else platform_calls [P_FakeKeyDown key m button lang] s1)
      else platform_calls [P_FakeKeyDown key m button lang] s)"

definition screen_key_repeat ::
  "u32 \<Rightarrow> u32 \<Rightarrow> int \<Rightarrow> u16 \<Rightarrow> bytes \<Rightarrow> local_screen \<Rightarrow> local_screen option" where
  "screen_key_repeat key m count button lang s =
     (if ls_primary s then None else Some (platform_calls [P_FakeKeyRepeat key m count button lang] s))"

definition screen_key_up :: "u32 \<Rightarrow> u32 \<Rightarrow> u16 \<Rightarrow> local_screen \<Rightarrow> local_screen" where
  "screen_key_up key m button s = platform_calls [P_FakeKeyUp button] s"

definition screen_mouse_down :: "nat \<Rightarrow> local_screen \<Rightarrow> local_screen" where
  "screen_mouse_down button s = platform_calls [P_FakeMouseButton button True] s"

definition screen_mouse_up :: "nat \<Rightarrow> local_screen \<Rightarrow> local_screen" where
  "screen_mouse_up button s = platform_calls [P_FakeMouseButton button False] s"

definition screen_mouse_move :: "int \<Rightarrow> int \<Rightarrow> local_screen \<Rightarrow> local_screen option" where
  "screen_mouse_move x y s = (if ls_primary s then None else Some (platform_calls [P_FakeMouseMove x y] s))"

definition screen_mouse_relative_move :: "int \<Rightarrow> int \<Rightarrow> local_screen \<Rightarrow> local_screen option" where
  "screen_mouse_relative_move dx dy s =
     (if ls_primary s then None else Some (platform_calls [P_FakeMouseRelativeMove dx dy] s))"

definition screen_mouse_wheel :: "int \<Rightarrow> int \<Rightarrow> local_screen \<Rightarrow> local_screen option" where
  "screen_mouse_wheel dx dy s = (if ls_primary s then None else Some (platform_calls [P_FakeMouseWheel dx dy] s))"

text \<open>The loop of \<open>setOptions\<close> takes two elements at a time; the second of the last pair may be missing.\<close>

definition half_duplex_bit :: "u32 \<Rightarrow> u32 \<Rightarrow> local_screen \<Rightarrow> local_screen" where
  "half_duplex_bit bits v s =
     s\<lparr>ls_half_duplex := (if v \<noteq> 0 then or (ls_half_duplex s) bits else and (ls_half_duplex s) (not bits))\<rparr>"

definition half_duplex_option :: "u32 \<Rightarrow> u32 option" where
  "half_duplex_option opt =
     (if opt = kOptionHalfDuplexCapsLock then Some KeyModifierCapsLock
      else if opt = kOptionHalfDuplexNumLock then Some KeyModifierNumLock
      else if opt = kOptionHalfDuplexScrollLock then Some KeyModifierScrollLock
      else None)"

fun half_duplex_options :: "u32 list \<Rightarrow> local_screen \<Rightarrow> local_screen option" where
  "half_duplex_options [] s = Some s"
| "half_duplex_options [opt] s = (if half_duplex_option opt = None then Some s else None)"
| "half_duplex_options (opt # v # rest) s =
     half_duplex_options rest
       (case half_duplex_option opt of None \<Rightarrow> s | Some bits \<Rightarrow> half_duplex_bit bits v s)"

definition screen_set_options :: "u32 list \<Rightarrow> local_screen \<Rightarrow> local_screen option" where
  "screen_set_options opts s =
     (case half_duplex_options opts s of
        None \<Rightarrow> None
      | Some s1 \<Rightarrow> Some (platform_calls [P_SetHalfDuplexMask (ls_half_duplex s1), P_SetOptions opts] s1))"

definition screen_set_sequence_number :: "u32 \<Rightarrow> local_screen \<Rightarrow> local_screen" where
  "screen_set_sequence_number n s = platform_calls [P_SetSequenceNumber n] s"

definition screen_register_hot_key :: "platform \<Rightarrow> u32 \<Rightarrow> u32 \<Rightarrow> local_screen \<Rightarrow> u32 \<times> local_screen" where
  "screen_register_hot_key pl key m s = (pl_hot_key pl (ls_calls s), platform_calls [P_RegisterHotKey key m] s)"

definition screen_unregister_hot_key :: "u32 \<Rightarrow> local_screen \<Rightarrow> local_screen" where
  "screen_unregister_hot_key i s = platform_calls [P_UnregisterHotKey i] s"

definition screen_fake_input_begin :: "local_screen \<Rightarrow> local_screen option" where
  "screen_fake_input_begin s =
     (if ls_fake_input s then None else Some (platform_calls [P_FakeInputBegin] (s\<lparr>ls_fake_input := True\<rparr>)))"

definition screen_fake_input_end :: "local_screen \<Rightarrow> local_screen option" where
  "screen_fake_input_end s =
     (if \<not> ls_fake_input s then None else Some (platform_calls [P_FakeInputEnd] (s\<lparr>ls_fake_input := False\<rparr>)))"

definition screen_is_locked :: "platform \<Rightarrow> local_screen \<Rightarrow> bool" where
  "screen_is_locked pl s = pl_button_down pl (ls_calls s)"

definition screen_jump_zone_size :: "platform \<Rightarrow> local_screen \<Rightarrow> int" where
  "screen_jump_zone_size pl s = (if \<not> ls_primary s then 0 else pl_jump_zone pl (ls_calls s))"

section \<open>The primary client\<close>

record primary_client =
  pr_screen :: local_screen
  pr_dirty :: "bool list"
  pr_fake_count :: int

definition new_primary_client :: "local_screen \<Rightarrow> primary_client" where
  "new_primary_client s = \<lparr>pr_screen = s, pr_dirty = [False, False], pr_fake_count = 0\<rparr>"

definition on_local :: "primary_client \<Rightarrow> local_screen \<Rightarrow> primary_client" where
  "on_local p s = p\<lparr>pr_screen := s\<rparr>"

definition primary_fake_begin :: "primary_client \<Rightarrow> primary_client option" where
  "primary_fake_begin p =
     (let p1 = p\<lparr>pr_fake_count := pr_fake_count p + 1\<rparr> in
      if pr_fake_count p1 = 1 then map_option (on_local p1) (screen_fake_input_begin (pr_screen p1)) else Some p1)"

definition primary_fake_end :: "primary_client \<Rightarrow> primary_client option" where
  "primary_fake_end p =
     (let p1 = p\<lparr>pr_fake_count := pr_fake_count p - 1\<rparr> in
      if pr_fake_count p1 = 0 then map_option (on_local p1) (screen_fake_input_end (pr_screen p1)) else Some p1)"

definition primary_enter :: "int \<Rightarrow> int \<Rightarrow> u32 \<Rightarrow> u32 \<Rightarrow> bool \<Rightarrow> primary_client \<Rightarrow> primary_client option" where
  "primary_enter x y n m saver p =
     (let s1 = screen_set_sequence_number n (pr_screen p) in
      case (if saver then Some s1 else screen_warp_cursor x y s1) of
        None \<Rightarrow> None
      | Some s2 \<Rightarrow> Some (on_local p (screen_enter m s2)))"

definition primary_set_clipboard :: "nat \<Rightarrow> clipboard \<Rightarrow> primary_client \<Rightarrow> primary_client" where
  "primary_set_clipboard i c p =
     (if pr_dirty p ! i
      then on_local (p\<lparr>pr_dirty := (pr_dirty p)[i := False]\<rparr>) (screen_set_clipboard i c (pr_screen p))
      else p)"

definition primary_grab_clipboard :: "nat \<Rightarrow> primary_client \<Rightarrow> primary_client" where
  "primary_grab_clipboard i p =
     (on_local p (screen_grab_clipboard i (pr_screen p)))\<lparr>pr_dirty := (pr_dirty p)[i := True]\<rparr>"

text \<open>A call of the server on its primary client.\<close>

fun primary_call :: "platform \<Rightarrow> screen_call \<Rightarrow> primary_client \<Rightarrow> primary_client option" where
  "primary_call pl (Enter x y n m saver) p = primary_enter x y n m saver p"
| "primary_call pl Leave p = Some (on_local p (snd (screen_leave pl (pr_screen p))))"
| "primary_call pl (MouseMove x y) p = map_option (on_local p) (screen_warp_cursor x y (pr_screen p))"
| "primary_call pl (SetClipboard i c) p = Some (primary_set_clipboard i c p)"
| "primary_call pl (GrabClipboard i) p = Some (primary_grab_clipboard i p)"
| "primary_call pl (SetClipboardDirty i d) p = Some (p\<lparr>pr_dirty := (pr_dirty p)[i := d]\<rparr>)"
| "primary_call pl ResetOptions p = Some (on_local p (screen_reset_options (pr_screen p)))"
| "primary_call pl (SetOptions opts) p = map_option (on_local p) (screen_set_options opts (pr_screen p))"
| "primary_call pl (Reconfigure sides) p = map_option (on_local p) (screen_reconfigure sides (pr_screen p))"
| "primary_call pl FakeInputBegin p = primary_fake_begin p"
| "primary_call pl FakeInputEnd p = primary_fake_end p"
| "primary_call pl _ p = Some p"

end
