(* ===== verification/ClientState.thy ===== *)
theory ClientState
  imports LocalScreen
begin

text \<open>
  The state of \<open>Client\<close> (src/lib/client/Client.h) with its \<open>ServerProxy\<close> object, the calls the proxy
  makes on the client, and the client's cleanup. \<open>lc_target\<close> is the address of the stream and \<open>None\<close> the
  null pointer, \<open>lc_stream\<close> the stream it points to; \<open>lc_server\<close> says that the proxy \<open>lc_proxy\<close> exists;
  \<open>lc_proxies\<close> counts the proxies created, so that it numbers the current one.
  Handlers are kept as the event queue keeps them, per target and event type: a handler that is not
  removed stays when its target is deleted. \<open>lc_assembler\<close> are the static variables of the chunk
  assembler. A failed \<open>assert\<close>, and undefined behaviour, is the result \<open>None\<close>.
\<close>

section \<open>State\<close>

datatype stream_signal = SecureConnected | Signal stream_event

datatype client_handler = H_Connected | H_ConnectionFailed | H_Disconnected | H_Hello | H_OutputError | H_Data

datatype client_post =
    Post_Connected
  | Post_Disconnected
  | Post_ConnectionFailed string
  | Post_ConnectionRefused string
  | Post_InputReady nat
  | Post_ClipboardSending nat bytes

record client_env =
  ce_platform :: platform
  ce_number :: qt_number
  ce_tls :: bool
  ce_languages :: "bytes list"
  ce_round :: "real \<Rightarrow> real"

record server_proxy =
  sp_seq :: u32
  sp_compress :: bool
  sp_compress_relative :: bool
  sp_x :: int
  sp_y :: int
  sp_dx :: int
  sp_dy :: int
  sp_ignore_mouse :: bool
  sp_modifiers :: "u32 list"
  sp_alarm :: real
  sp_alarm_timer :: bool
  sp_handshake :: bool
  sp_language :: bytes
  sp_notified :: bool
  sp_remote_languages :: "bytes list"

record net_client =
  lc_name :: bytes
  lc_target :: "nat option"
  lc_stream :: packet_filter
  lc_timer :: bool
  lc_server :: bool
  lc_proxies :: nat
  lc_proxy :: server_proxy
  lc_ready :: bool
  lc_active :: bool
  lc_suspended :: bool
  lc_connect_on_resume :: bool
  lc_own_clipboard :: "bool list"
  lc_sent_clipboard :: "bool list"
  lc_time_clipboard :: "u32 list"
  lc_data_clipboard :: "bytes list"
  lc_enable_clipboard :: bool
  lc_max_clipboard :: u64
  lc_resolved :: nat
  lc_handlers :: "nat \<Rightarrow> stream_signal \<Rightarrow> client_handler option"
  lc_screen_handlers :: bool
  lc_screen :: local_screen
  lc_assembler :: assembler
  lc_posted :: "client_post list"

definition no_proxy :: server_proxy where
  "no_proxy =
     \<lparr>sp_seq = 0, sp_compress = False, sp_compress_relative = False, sp_x = 0, sp_y = 0, sp_dx = 0, sp_dy = 0,
      sp_ignore_mouse = False, sp_modifiers = map word_of_nat [0..<7], sp_alarm = 0, sp_alarm_timer = False,
      sp_handshake = True, sp_language = [], sp_notified = False, sp_remote_languages = []\<rparr>"

definition new_client :: "bytes \<Rightarrow> local_screen \<Rightarrow> net_client" where
  "new_client name s =
     \<lparr>lc_name = name, lc_target = None, lc_stream = new_packet_filter new_tcp_socket, lc_timer = False,
      lc_server = False, lc_proxies = 0, lc_proxy = no_proxy, lc_ready = False, lc_active = False, lc_suspended = False,
      lc_connect_on_resume = False, lc_own_clipboard = [False, False], lc_sent_clipboard = [False, False],
      lc_time_clipboard = [0, 0], lc_data_clipboard = [[], []], lc_enable_clipboard = True,
      lc_max_clipboard = 0x7fffffff, lc_resolved = 0, lc_handlers = (\<lambda>t g. None), lc_screen_handlers = False,
      lc_screen = s, lc_assembler = \<lparr>ca_expected = 0, ca_cached = []\<rparr>, lc_posted = []\<rparr>"

definition post_event :: "client_post \<Rightarrow> net_client \<Rightarrow> net_client" where
  "post_event p c = c\<lparr>lc_posted := lc_posted c @ [p]\<rparr>"

definition on_proxy :: "(server_proxy \<Rightarrow> server_proxy) \<Rightarrow> net_client \<Rightarrow> net_client" where
  "on_proxy f c = c\<lparr>lc_proxy := f (lc_proxy c)\<rparr>"

definition set_screen :: "net_client \<Rightarrow> local_screen \<Rightarrow> net_client" where
  "set_screen c s = c\<lparr>lc_screen := s\<rparr>"

definition add_handler :: "nat \<Rightarrow> stream_signal \<Rightarrow> client_handler \<Rightarrow> net_client \<Rightarrow> net_client" where
  "add_handler t g h c = c\<lparr>lc_handlers := (lc_handlers c)(t := (lc_handlers c t)(g := Some h))\<rparr>"

definition remove_handler :: "nat \<Rightarrow> stream_signal \<Rightarrow> net_client \<Rightarrow> net_client" where
  "remove_handler t g c = c\<lparr>lc_handlers := (lc_handlers c)(t := (lc_handlers c t)(g := None))\<rparr>"

text \<open>
  \<open>writef\<close> on the stream. With the formats of the protocol and arguments of their types it always has
  bytes to write (\<open>protocol_formats_typed\<close>).
\<close>

definition client_send :: "string \<Rightarrow> fmt_arg list \<Rightarrow> net_client \<Rightarrow> net_client" where
  "client_send fmt args c =
     (case writef fmt args of
        None \<Rightarrow> c
      | Some msg \<Rightarrow> if msg = [] then c else c\<lparr>lc_stream := filter_write msg (lc_stream c)\<rparr>)"

section \<open>Cleanup\<close>

definition cleanup_timer :: "net_client \<Rightarrow> net_client" where
  "cleanup_timer c = c\<lparr>lc_timer := False\<rparr>"

definition cleanup_connecting :: "net_client \<Rightarrow> net_client" where
  "cleanup_connecting c =
     (case lc_target c of
        None \<Rightarrow> c
      | Some t \<Rightarrow> remove_handler t (Signal EV_DataSocketConnectionFailed)
                   (remove_handler t (Signal EV_DataSocketConnected) c))"

definition cleanup_stream :: "net_client \<Rightarrow> net_client" where
  "cleanup_stream c = c\<lparr>lc_target := None\<rparr>"

definition cleanup_connection :: "net_client \<Rightarrow> net_client" where
  "cleanup_connection c =
     (case lc_target c of
        None \<Rightarrow> c
      | Some t \<Rightarrow> cleanup_stream (fold (\<lambda>e. remove_handler t (Signal e))
          [EV_StreamInputReady, EV_StreamOutputError, EV_StreamInputShutdown, EV_StreamOutputShutdown,
           EV_SocketDisconnected] c))"

text \<open>The destructor of the proxy removes its alarm and its handler on the stream.\<close>

definition delete_proxy :: "net_client \<Rightarrow> net_client" where
  "delete_proxy c =
     (let c1 = on_proxy (\<lambda>p. p\<lparr>sp_alarm_timer := False\<rparr>) c;
          c2 = (case lc_target c1 of None \<Rightarrow> c1 | Some t \<Rightarrow> remove_handler t (Signal EV_StreamInputReady) c1)
      in c2\<lparr>lc_server := False\<rparr>)"

definition cleanup_screen :: "client_env \<Rightarrow> net_client \<Rightarrow> net_client option" where
  "cleanup_screen e c =
     (if \<not> lc_server c then Some c
      else case (if lc_ready c
                 then map_option (\<lambda>s. (set_screen c s)\<lparr>lc_ready := False\<rparr>)
                        (screen_disable (ce_platform e) (lc_screen c))
                 else Some c) of
        None \<Rightarrow> None
      | Some c1 \<Rightarrow> Some (delete_proxy (c1\<lparr>lc_screen_handlers := False\<rparr>)))"

definition client_cleanup :: "client_env \<Rightarrow> net_client \<Rightarrow> net_client option" where
  "client_cleanup e c =
     (case cleanup_screen e (cleanup_timer (c\<lparr>lc_connect_on_resume := False\<rparr>)) of
        None \<Rightarrow> None
      | Some c1 \<Rightarrow> Some (cleanup_connection (cleanup_connecting c1)))"

definition client_disconnect :: "client_env \<Rightarrow> string option \<Rightarrow> net_client \<Rightarrow> net_client option" where
  "client_disconnect e msg c =
     map_option (post_event (case msg of Some m \<Rightarrow> Post_ConnectionFailed m | None \<Rightarrow> Post_Disconnected))
       (client_cleanup e c)"

definition refuse_connection :: "client_env \<Rightarrow> string \<Rightarrow> net_client \<Rightarrow> net_client option" where
  "refuse_connection e msg c = map_option (post_event (Post_ConnectionRefused msg)) (client_cleanup e c)"

definition handshake_complete :: "net_client \<Rightarrow> net_client option" where
  "handshake_complete c =
     map_option (\<lambda>s. post_event Post_Connected (set_screen (c\<lparr>lc_ready := True\<rparr>) s)) (screen_enable (lc_screen c))"

section \<open>Clipboards\<close>

definition kClipboards :: "nat list" where
  "kClipboards = [0..<unat kClipboardEnd]"

definition client_clipboard_changed :: "client_env \<Rightarrow> nat \<Rightarrow> clipboard \<Rightarrow> net_client \<Rightarrow> net_client" where
  "client_clipboard_changed e i cb c =
     (let d = fst (marshall cb)
      in fold (\<lambda>chunk. post_event (Post_ClipboardSending (lc_proxies c) chunk))
           (send_clipboard (ce_number e) d (word_of_nat i) (sp_seq (lc_proxy c))) c)"

definition client_send_clipboard :: "client_env \<Rightarrow> nat \<Rightarrow> net_client \<Rightarrow> net_client option" where
  "client_send_clipboard e i c =
     (if \<not> lc_server c then None
      else
        let cb0 = (case clip_open (lc_time_clipboard c ! i) new_clipboard of
                     (opened, b) \<Rightarrow> if opened then clip_close b else b);
            cb = snd (pl_get_clipboard (ce_platform e) (ls_calls (lc_screen c)) i cb0)
        in if lc_time_clipboard c ! i = 0 \<or> cb_time cb \<noteq> lc_time_clipboard c ! i then
             (case marshall cb of (d, cb1) \<Rightarrow>
                if word_of_nat (length d) \<ge> lc_max_clipboard c * 1024 then Some c
                else
                  let c1 = c\<lparr>lc_time_clipboard := (lc_time_clipboard c)[i := cb_time cb1]\<rparr>
                  in if \<not> lc_sent_clipboard c1 ! i \<or> d \<noteq> lc_data_clipboard c1 ! i
                     then Some (client_clipboard_changed e i cb1
                       (c1\<lparr>lc_sent_clipboard := (lc_sent_clipboard c1)[i := True],
                          lc_data_clipboard := (lc_data_clipboard c1)[i := d]\<rparr>))
                     else Some c1)
           else Some c)"

definition drop_ownership :: "nat \<Rightarrow> net_client \<Rightarrow> net_client" where
  "drop_ownership i c =
     c\<lparr>lc_own_clipboard := (lc_own_clipboard c)[i := False], lc_sent_clipboard := (lc_sent_clipboard c)[i := False]\<rparr>"

definition client_set_clipboard :: "nat \<Rightarrow> clipboard \<Rightarrow> net_client \<Rightarrow> net_client" where
  "client_set_clipboard i cb c = drop_ownership i (set_screen c (screen_set_clipboard i cb (lc_screen c)))"

definition client_grab_clipboard :: "nat \<Rightarrow> net_client \<Rightarrow> net_client" where
  "client_grab_clipboard i c = drop_ownership i (set_screen c (screen_grab_clipboard i (lc_screen c)))"

section \<open>Calls of the proxy\<close>

definition client_enter :: "int \<Rightarrow> int \<Rightarrow> u32 \<Rightarrow> net_client \<Rightarrow> net_client option" where
  "client_enter x y m c =
     (let c1 = c\<lparr>lc_active := True\<rparr>
      in map_option (\<lambda>s. set_screen c1 (screen_enter m s)) (screen_mouse_move x y (lc_screen c1)))"

fun send_owned :: "client_env \<Rightarrow> nat list \<Rightarrow> net_client \<Rightarrow> net_client option" where
  "send_owned e [] c = Some c"
| "send_owned e (i # is) c =
     (case (if lc_own_clipboard c ! i then client_send_clipboard e i c else Some c) of
        None \<Rightarrow> None
      | Some c1 \<Rightarrow> send_owned e is c1)"

definition client_leave :: "client_env \<Rightarrow> net_client \<Rightarrow> net_client option" where
  "client_leave e c =
     (let c1 = c\<lparr>lc_active := False\<rparr>;
          c2 = set_screen c1 (snd (screen_leave (ce_platform e) (lc_screen c1)))
      in if lc_enable_clipboard c2 then send_owned e kClipboards c2 else Some c2)"

definition client_key_down :: "client_env \<Rightarrow> u32 \<Rightarrow> u32 \<Rightarrow> u16 \<Rightarrow> bytes \<Rightarrow> net_client \<Rightarrow> net_client" where
  "client_key_down e key m button lang c =
     set_screen c (screen_key_down (ce_platform e) key m button lang (lc_screen c))"

definition client_key_repeat :: "u32 \<Rightarrow> u32 \<Rightarrow> int \<Rightarrow> u16 \<Rightarrow> bytes \<Rightarrow> net_client \<Rightarrow> net_client option" where
  "client_key_repeat key m count button lang c =
     map_option (set_screen c) (screen_key_repeat key m count button lang (lc_screen c))"

definition client_key_up :: "u32 \<Rightarrow> u32 \<Rightarrow> u16 \<Rightarrow> net_client \<Rightarrow> net_client" where
  "client_key_up key m button c = set_screen c (screen_key_up key m button (lc_screen c))"

definition client_mouse_down :: "nat \<Rightarrow> net_client \<Rightarrow> net_client" where
  "client_mouse_down button c = set_screen c (screen_mouse_down button (lc_screen c))"

definition client_mouse_up :: "nat \<Rightarrow> net_client \<Rightarrow> net_client" where
  "client_mouse_up button c = set_screen c (screen_mouse_up button (lc_screen c))"

definition client_mouse_move :: "int \<Rightarrow> int \<Rightarrow> net_client \<Rightarrow> net_client option" where
  "client_mouse_move x y c = map_option (set_screen c) (screen_mouse_move x y (lc_screen c))"

definition client_mouse_relative_move :: "int \<Rightarrow> int \<Rightarrow> net_client \<Rightarrow> net_client option" where
  "client_mouse_relative_move dx dy c = map_option (set_screen c) (screen_mouse_relative_move dx dy (lc_screen c))"

definition client_mouse_wheel :: "int \<Rightarrow> int \<Rightarrow> net_client \<Rightarrow> net_client option" where
  "client_mouse_wheel dx dy c = map_option (set_screen c) (screen_mouse_wheel dx dy (lc_screen c))"

definition client_screensaver :: "bool \<Rightarrow> net_client \<Rightarrow> net_client" where
  "client_screensaver on c = set_screen c (screen_screensaver on (lc_screen c))"

definition client_reset_options :: "net_client \<Rightarrow> net_client" where
  "client_reset_options c = set_screen c (screen_reset_options (lc_screen c))"

text \<open>
  The loop of \<open>setOptions\<close> looks at every element; when the last one is a clipboard option, the iterator is
  incremented beyond the end.
\<close>

fun clipboard_options :: "u32 list \<Rightarrow> net_client \<Rightarrow> net_client option" where
  "clipboard_options [] c = Some c"
| "clipboard_options [opt] c =
     (if opt = kOptionClipboardSharing \<or> opt = kOptionClipboardSharingSize then None else Some c)"
| "clipboard_options (opt # v # rest) c =
     (if opt = kOptionClipboardSharing then clipboard_options rest (c\<lparr>lc_enable_clipboard := v \<noteq> 0\<rparr>)
      else if opt = kOptionClipboardSharingSize then clipboard_options rest (c\<lparr>lc_max_clipboard := ucast v\<rparr>)
      else clipboard_options (v # rest) c)"

definition client_set_options :: "u32 list \<Rightarrow> net_client \<Rightarrow> net_client option" where
  "client_set_options opts c =
     (case clipboard_options opts c of
        None \<Rightarrow> None
      | Some c1 \<Rightarrow>
          let c2 = (if lc_enable_clipboard c1 \<and> lc_max_clipboard c1 = 0 then c1\<lparr>lc_enable_clipboard := False\<rparr> else c1)
          in map_option (set_screen c2) (screen_set_options opts (lc_screen c2)))"

end
