(* ===== verification/ServerProxy.thy ===== *)
theory ServerProxy
  imports ClientState
begin

text \<open>
  \<open>ServerProxy\<close> (src/lib/client/ServerProxy.cpp): the client's end of the connection, which turns the
  server's messages into calls on the client. A handler's result is \<open>None\<close> where its behaviour is
  undefined: it uses arguments that a message too short has left uninitialised, or reads beyond a table
  or a list. Times are reals; \<open>ce_round\<close> rounds a product to a double.
\<close>

section \<open>Reading a message\<close>

datatype conn_result = CR_Okay | CR_Unknown | CR_Disconnect | CR_BadMessage

type_synonym handled = "(conn_result \<times> net_client) option"

definition okay :: "net_client \<Rightarrow> handled" where
  "okay c = Some (CR_Okay, c)"

definition okay_if :: "net_client option \<Rightarrow> handled" where
  "okay_if r = map_option (\<lambda>c. (CR_Okay, c)) r"

text \<open>\<open>readf\<close> with the format behind the code of a message; its \<open>bool\<close> result is ignored everywhere.\<close>

definition receive :: "string \<Rightarrow> net_client \<Rightarrow> (fmt_arg list \<Rightarrow> net_client \<Rightarrow> handled) \<Rightarrow> handled" where
  "receive fmt c k =
     (case readf filter_read (drop 4 fmt) (lc_stream c) of ((args, r), f) \<Rightarrow>
        (case r of
           RF_Throw \<Rightarrow> Some (CR_BadMessage, c\<lparr>lc_stream := f\<rparr>)
         | RF_Abort \<Rightarrow> None
         | RF_Return _ \<Rightarrow> k args (c\<lparr>lc_stream := f\<rparr>)))"

definition int16 :: "u32 \<Rightarrow> int" where
  "int16 v = sint (ucast v :: u16)"

text \<open>An argument of a handler that initialises its variables to 0, and the string of one.\<close>

definition int_arg :: "fmt_arg list \<Rightarrow> nat \<Rightarrow> u32" where
  "int_arg args n = (if n < length args then (case args ! n of FA_Int v \<Rightarrow> v | _ \<Rightarrow> 0) else 0)"

definition str_arg :: "fmt_arg list \<Rightarrow> nat \<Rightarrow> bytes" where
  "str_arg args n = (if n < length args then (case args ! n of FA_Str s \<Rightarrow> s | _ \<Rightarrow> []) else [])"

section \<open>Keep alive\<close>

definition kKeepAliveRate :: real where "kKeepAliveRate = 3"
definition kKeepAlivesUntilDeath :: real where "kKeepAlivesUntilDeath = 3"
definition kOptionHeartbeat :: u32 where "kOptionHeartbeat = option_code ''HART''"

definition reset_keep_alive_alarm :: "server_proxy \<Rightarrow> server_proxy" where
  "reset_keep_alive_alarm p = p\<lparr>sp_alarm_timer := sp_alarm p > 0\<rparr>"

definition set_keep_alive_rate :: "client_env \<Rightarrow> real \<Rightarrow> server_proxy \<Rightarrow> server_proxy" where
  "set_keep_alive_rate e rate p = reset_keep_alive_alarm (p\<lparr>sp_alarm := ce_round e (rate * kKeepAlivesUntilDeath)\<rparr>)"

definition echo_keep_alive :: "net_client \<Rightarrow> net_client" where
  "echo_keep_alive c = on_proxy reset_keep_alive_alarm (client_send kMsgCKeepAlive [] c)"

section \<open>Translation of modifiers\<close>

definition kKeyNone :: u32 where "kKeyNone = 0"
definition kKeyAltGr :: u32 where "kKeyAltGr = 0xEF7E"
definition kKeyShift_L :: u32 where "kKeyShift_L = 0xEFE1"
definition kKeyShift_R :: u32 where "kKeyShift_R = 0xEFE2"
definition kKeyControl_L :: u32 where "kKeyControl_L = 0xEFE3"
definition kKeyControl_R :: u32 where "kKeyControl_R = 0xEFE4"
definition kKeyMeta_L :: u32 where "kKeyMeta_L = 0xEFE7"
definition kKeyMeta_R :: u32 where "kKeyMeta_R = 0xEFE8"
definition kKeyAlt_L :: u32 where "kKeyAlt_L = 0xEFE9"
definition kKeyAlt_R :: u32 where "kKeyAlt_R = 0xEFEA"
definition kKeySuper_L :: u32 where "kKeySuper_L = 0xEFEB"
definition kKeySuper_R :: u32 where "kKeySuper_R = 0xEFEC"

definition KeyModifierMeta :: u32 where "KeyModifierMeta = 0x0008"
definition KeyModifierSuper :: u32 where "KeyModifierSuper = 0x0010"
definition KeyModifierAltGr :: u32 where "KeyModifierAltGr = 0x0020"

definition kKeyModifierIDShift :: nat where "kKeyModifierIDShift = 1"
definition kKeyModifierIDControl :: nat where "kKeyModifierIDControl = 2"
definition kKeyModifierIDAlt :: nat where "kKeyModifierIDAlt = 3"
definition kKeyModifierIDMeta :: nat where "kKeyModifierIDMeta = 4"
definition kKeyModifierIDSuper :: nat where "kKeyModifierIDSuper = 5"
definition kKeyModifierIDAltGr :: nat where "kKeyModifierIDAltGr = 6"
definition kKeyModifierIDLast :: nat where "kKeyModifierIDLast = 7"

definition s_translationTable :: "(u32 \<times> u32) list" where
  "s_translationTable =
     [(kKeyNone, kKeyNone), (kKeyShift_L, kKeyShift_R), (kKeyControl_L, kKeyControl_R), (kKeyAlt_L, kKeyAlt_R),
      (kKeyMeta_L, kKeyMeta_R), (kKeySuper_L, kKeySuper_R), (kKeyAltGr, kKeyAltGr)]"

definition s_masks :: "u32 list" where
  "s_masks = [0, KeyModifierShift, KeyModifierControl, KeyModifierAlt, KeyModifierMeta, KeyModifierSuper,
     KeyModifierAltGr]"

text \<open>The switch of \<open>translateKey\<close>: the modifier of a key and whether it is the right one.\<close>

definition key_modifier :: "u32 \<Rightarrow> (nat \<times> bool) option" where
  "key_modifier key =
     (if key = kKeyShift_L then Some (kKeyModifierIDShift, False)
      else if key = kKeyShift_R then Some (kKeyModifierIDShift, True)
      else if key = kKeyControl_L then Some (kKeyModifierIDControl, False)
      else if key = kKeyControl_R then Some (kKeyModifierIDControl, True)
      else if key = kKeyAlt_L then Some (kKeyModifierIDAlt, False)
      else if key = kKeyAlt_R then Some (kKeyModifierIDAlt, True)
      else if key = kKeyAltGr then Some (kKeyModifierIDAltGr, True)
      else if key = kKeyMeta_L then Some (kKeyModifierIDMeta, False)
      else if key = kKeyMeta_R then Some (kKeyModifierIDMeta, True)
      else if key = kKeySuper_L then Some (kKeyModifierIDSuper, False)
      else if key = kKeySuper_R then Some (kKeyModifierIDSuper, True)
      else None)"

definition translate_key :: "u32 list \<Rightarrow> u32 \<Rightarrow> u32 option" where
  "translate_key table key =
     (case key_modifier key of
        None \<Rightarrow> Some key
      | Some (i, right) \<Rightarrow>
          let j = unat (table ! i)
          in if j < kKeyModifierIDLast
             then Some ((if right then snd else fst) (s_translationTable ! j))
             else None)"

definition translate_bit :: "u32 list \<Rightarrow> u32 \<Rightarrow> u32 \<times> nat \<Rightarrow> u32 option \<Rightarrow> u32 option" where
  "translate_bit table m bit_id r =
     (case r of
        None \<Rightarrow> None
      | Some new_mask \<Rightarrow>
          if and m (fst bit_id) \<noteq> 0 then
            (let j = unat (table ! snd bit_id)
             in if j < kKeyModifierIDLast then Some (or new_mask (s_masks ! j)) else None)
          else Some new_mask)"

definition modifier_bits :: "(u32 \<times> nat) list" where
  "modifier_bits =
     [(KeyModifierShift, kKeyModifierIDShift), (KeyModifierControl, kKeyModifierIDControl),
      (KeyModifierAlt, kKeyModifierIDAlt), (KeyModifierAltGr, kKeyModifierIDAltGr),
      (KeyModifierMeta, kKeyModifierIDMeta), (KeyModifierSuper, kKeyModifierIDSuper)]"

definition translate_mask :: "u32 list \<Rightarrow> u32 \<Rightarrow> u32 option" where
  "translate_mask table m =
     fold (translate_bit table m) modifier_bits (Some (and m (not (fold or (map fst modifier_bits) 0))))"

section \<open>Mouse motion\<close>

definition flush_compressed_mouse :: "net_client \<Rightarrow> net_client option" where
  "flush_compressed_mouse c =
     (case (if sp_compress (lc_proxy c)
            then client_mouse_move (sp_x (lc_proxy c)) (sp_y (lc_proxy c))
                   (on_proxy (\<lambda>p. p\<lparr>sp_compress := False\<rparr>) c)
            else Some c) of
        None \<Rightarrow> None
      | Some c1 \<Rightarrow>
          if sp_compress_relative (lc_proxy c1)
          then map_option (on_proxy (\<lambda>p. p\<lparr>sp_dx := 0, sp_dy := 0\<rparr>))
                 (client_mouse_relative_move (sp_dx (lc_proxy c1)) (sp_dy (lc_proxy c1))
                    (on_proxy (\<lambda>p. p\<lparr>sp_compress_relative := False\<rparr>) c1))
          else Some c1)"

definition flushed :: "net_client \<Rightarrow> (net_client \<Rightarrow> handled) \<Rightarrow> handled" where
  "flushed c k = Option.bind (flush_compressed_mouse c) k"

definition drop_motion :: "server_proxy \<Rightarrow> server_proxy" where
  "drop_motion p = p\<lparr>sp_compress := False, sp_compress_relative := False, sp_dx := 0, sp_dy := 0\<rparr>"

definition sp_mouse_move :: "net_client \<Rightarrow> handled" where
  "sp_mouse_move c =
     receive kMsgDMouseMove c (\<lambda>args c1.
       case args of
         [FA_Int xv, FA_Int yv] \<Rightarrow>
           (let x = int16 xv; y = int16 yv;
                ignoring = sp_ignore_mouse (lc_proxy c1);
                c2 = (if \<not> ignoring \<and> \<not> sp_compress (lc_proxy c1) \<and> is_ready_no_lock (lc_stream c1)
                      then on_proxy (\<lambda>p. p\<lparr>sp_compress := True\<rparr>) c1 else c1)
            in if sp_compress (lc_proxy c2)
               then okay (on_proxy (\<lambda>p. p\<lparr>sp_compress_relative := False, sp_x := x, sp_y := y,
                      sp_dx := 0, sp_dy := 0\<rparr>) c2)
               else if ignoring then okay c2
               else okay_if (client_mouse_move x y c2))
       | _ \<Rightarrow> None)"

definition sp_mouse_relative_move :: "net_client \<Rightarrow> handled" where
  "sp_mouse_relative_move c =
     receive kMsgDMouseRelMove c (\<lambda>args c1.
       case args of
         [FA_Int xv, FA_Int yv] \<Rightarrow>
           (let dx = int16 xv; dy = int16 yv;
                ignoring = sp_ignore_mouse (lc_proxy c1);
                c2 = (if \<not> ignoring \<and> \<not> sp_compress_relative (lc_proxy c1) \<and> is_ready_no_lock (lc_stream c1)
                      then on_proxy (\<lambda>p. p\<lparr>sp_compress_relative := True\<rparr>) c1 else c1)
            in if sp_compress_relative (lc_proxy c2)
               then okay (on_proxy (\<lambda>p. p\<lparr>sp_dx := sp_dx p + dx, sp_dy := sp_dy p + dy\<rparr>) c2)
               else if ignoring then okay c2
               else okay_if (client_mouse_relative_move dx dy c2))
       | _ \<Rightarrow> None)"

definition sp_mouse_wheel :: "net_client \<Rightarrow> handled" where
  "sp_mouse_wheel c =
     flushed c (\<lambda>c1. receive kMsgDMouseWheel c1 (\<lambda>args c2.
       case args of
         [FA_Int dx, FA_Int dy] \<Rightarrow> okay_if (client_mouse_wheel (int16 dx) (int16 dy) c2)
       | _ \<Rightarrow> None))"

definition button_id :: "u32 \<Rightarrow> nat" where
  "button_id v = unat (ucast v :: byte)"

definition sp_mouse_down :: "net_client \<Rightarrow> handled" where
  "sp_mouse_down c =
     flushed c (\<lambda>c1. receive kMsgDMouseDown c1 (\<lambda>args c2.
       case args of [FA_Int b] \<Rightarrow> okay (client_mouse_down (button_id b) c2) | _ \<Rightarrow> None))"

definition sp_mouse_up :: "net_client \<Rightarrow> handled" where
  "sp_mouse_up c =
     flushed c (\<lambda>c1. receive kMsgDMouseUp c1 (\<lambda>args c2.
       case args of [FA_Int b] \<Rightarrow> okay (client_mouse_up (button_id b) c2) | _ \<Rightarrow> None))"

section \<open>Keys\<close>

definition language_installed :: "client_env \<Rightarrow> bytes \<Rightarrow> bool" where
  "language_installed e l \<longleftrightarrow> ce_languages e = [] \<or> l \<in> set (ce_languages e)"

definition set_active_language :: "client_env \<Rightarrow> bytes \<Rightarrow> server_proxy \<Rightarrow> server_proxy" where
  "set_active_language e l p =
     (if l = [] then p
      else
        let p1 = (if sp_language p \<noteq> l then p\<lparr>sp_notified := False, sp_language := l\<rparr> else p)
        in p1\<lparr>sp_notified := \<not> language_installed e (sp_language p1)\<rparr>)"

definition translated :: "u32 \<Rightarrow> u32 \<Rightarrow> net_client \<Rightarrow> (u32 \<Rightarrow> u32 \<Rightarrow> handled) \<Rightarrow> handled" where
  "translated key m c k =
     (case translate_key (sp_modifiers (lc_proxy c)) key of
        None \<Rightarrow> None
      | Some key2 \<Rightarrow>
          (case translate_mask (sp_modifiers (lc_proxy c)) m of
             None \<Rightarrow> None
           | Some m2 \<Rightarrow> k key2 m2))"

definition sp_key_down :: "client_env \<Rightarrow> u16 \<Rightarrow> u16 \<Rightarrow> u16 \<Rightarrow> bytes \<Rightarrow> net_client \<Rightarrow> handled" where
  "sp_key_down e key m button lang c =
     flushed c (\<lambda>c1.
       let c2 = on_proxy (set_active_language e lang) c1
       in translated (ucast key) (ucast m) c2 (\<lambda>key2 m2. okay (client_key_down e key2 m2 button lang c2)))"

definition recv_key_down :: "client_env \<Rightarrow> net_client \<Rightarrow> handled" where
  "recv_key_down e c =
     receive kMsgDKeyDown c (\<lambda>args c1.
       sp_key_down e (ucast (int_arg args 0)) (ucast (int_arg args 1)) (ucast (int_arg args 2)) [] c1)"

definition recv_key_down_lang :: "client_env \<Rightarrow> net_client \<Rightarrow> handled" where
  "recv_key_down_lang e c =
     receive kMsgDKeyDownLang c (\<lambda>args c1.
       sp_key_down e (ucast (int_arg args 0)) (ucast (int_arg args 1)) (ucast (int_arg args 2)) (str_arg args 3) c1)"

definition sp_key_repeat :: "net_client \<Rightarrow> handled" where
  "sp_key_repeat c =
     flushed c (\<lambda>c1. receive kMsgDKeyRepeat c1 (\<lambda>args c2.
       if length args < 4 then None
       else translated (ucast (ucast (int_arg args 0) :: u16)) (ucast (ucast (int_arg args 1) :: u16)) c2 (\<lambda>key2 m2.
         okay_if (client_key_repeat key2 m2 (int (unat (ucast (int_arg args 2) :: u16)))
           (ucast (int_arg args 3)) (str_arg args 4) c2))))"

definition sp_key_up :: "net_client \<Rightarrow> handled" where
  "sp_key_up c =
     flushed c (\<lambda>c1. receive kMsgDKeyUp c1 (\<lambda>args c2.
       case args of
         [FA_Int key, FA_Int m, FA_Int button] \<Rightarrow>
           translated (ucast (ucast key :: u16)) (ucast (ucast m :: u16)) c2 (\<lambda>key2 m2.
             okay (client_key_up key2 m2 (ucast button) c2))
       | _ \<Rightarrow> None))"

section \<open>Entering, leaving, clipboards\<close>

definition sp_enter :: "net_client \<Rightarrow> handled" where
  "sp_enter c =
     receive kMsgCEnter c (\<lambda>args c1.
       case args of
         [FA_Int x, FA_Int y, FA_Int n, FA_Int m] \<Rightarrow>
           okay_if (client_enter (int16 x) (int16 y) (ucast (ucast m :: u16))
             (on_proxy (\<lambda>p. (drop_motion p)\<lparr>sp_seq := n, sp_language := [], sp_notified := False\<rparr>) c1))
       | _ \<Rightarrow> None)"

definition sp_leave :: "client_env \<Rightarrow> net_client \<Rightarrow> handled" where
  "sp_leave e c = flushed c (\<lambda>c1. okay_if (client_leave e c1))"

definition sp_set_clipboard :: "client_env \<Rightarrow> net_client \<Rightarrow> handled" where
  "sp_set_clipboard e c =
     (case set_clipboard (ce_number e) filter_read (lc_stream c) (lc_assembler c) of
        (r, f, a) \<Rightarrow>
          let c1 = c\<lparr>lc_stream := f, lc_assembler := a\<rparr>
          in (case r of
                CO_Ignored \<Rightarrow> okay c1
              | CO_Updated i cb \<Rightarrow> okay (client_set_clipboard (unat i) cb c1)
              | CO_Undefined \<Rightarrow> None
              | CO_Throw \<Rightarrow> Some (CR_BadMessage, c1)))"

definition sp_grab_clipboard :: "net_client \<Rightarrow> handled" where
  "sp_grab_clipboard c =
     receive kMsgCClipboard c (\<lambda>args c1.
       case args of
         FA_Int i # _ \<Rightarrow>
           if ucast i \<ge> kClipboardEnd then okay c1
           else okay (client_grab_clipboard (unat (ucast i :: byte)) c1)
       | _ \<Rightarrow> None)"

definition sp_screensaver :: "net_client \<Rightarrow> handled" where
  "sp_screensaver c =
     receive kMsgCScreenSaver c (\<lambda>args c1.
       case args of [FA_Int on] \<Rightarrow> okay (client_screensaver ((ucast on :: byte) \<noteq> 0) c1) | _ \<Rightarrow> None)"

section \<open>Options and information\<close>

definition identity_modifiers :: "u32 list" where
  "identity_modifiers = map word_of_nat [0..<kKeyModifierIDLast]"

definition sp_reset_options :: "client_env \<Rightarrow> net_client \<Rightarrow> handled" where
  "sp_reset_options e c =
     okay (on_proxy (\<lambda>p. (set_keep_alive_rate e kKeepAliveRate p)\<lparr>sp_modifiers := identity_modifiers\<rparr>)
       (client_reset_options c))"

definition kOptionModifierMapForShift :: u32 where "kOptionModifierMapForShift = option_code ''MMFS''"
definition kOptionModifierMapForControl :: u32 where "kOptionModifierMapForControl = option_code ''MMFC''"
definition kOptionModifierMapForAlt :: u32 where "kOptionModifierMapForAlt = option_code ''MMFA''"
definition kOptionModifierMapForAltGr :: u32 where "kOptionModifierMapForAltGr = option_code ''MMFG''"
definition kOptionModifierMapForMeta :: u32 where "kOptionModifierMapForMeta = option_code ''MMFM''"
definition kOptionModifierMapForSuper :: u32 where "kOptionModifierMapForSuper = option_code ''MMFR''"

definition modifier_option :: "u32 \<Rightarrow> nat option" where
  "modifier_option opt =
     (if opt = kOptionModifierMapForShift then Some kKeyModifierIDShift
      else if opt = kOptionModifierMapForControl then Some kKeyModifierIDControl
      else if opt = kOptionModifierMapForAlt then Some kKeyModifierIDAlt
      else if opt = kOptionModifierMapForAltGr then Some kKeyModifierIDAltGr
      else if opt = kOptionModifierMapForMeta then Some kKeyModifierIDMeta
      else if opt = kOptionModifierMapForSuper then Some kKeyModifierIDSuper
      else None)"

definition heartbeat_rate :: "client_env \<Rightarrow> u32 \<Rightarrow> real" where
  "heartbeat_rate e v = ce_round e (ce_round e (1 / 1000) * real (unat v))"

fun proxy_options :: "client_env \<Rightarrow> u32 list \<Rightarrow> server_proxy \<Rightarrow> server_proxy option" where
  "proxy_options e [] p = Some p"
| "proxy_options e [opt] p = (if modifier_option opt \<noteq> None \<or> opt = kOptionHeartbeat then None else Some p)"
| "proxy_options e (opt # v # rest) p =
     proxy_options e rest
       (case modifier_option opt of
          Some i \<Rightarrow> p\<lparr>sp_modifiers := (sp_modifiers p)[i := v]\<rparr>
        | None \<Rightarrow> if opt = kOptionHeartbeat then set_keep_alive_rate e (heartbeat_rate e v) p else p)"

text \<open>
  \<open>readf\<close> with \<open>%4I\<close> as it fills the vector: the values read before a failure stay in it, and \<open>setOptions\<close>
  goes on with them.
\<close>

fun read_values :: "nat \<Rightarrow> packet_filter \<Rightarrow> u32 list \<times> packet_filter" where
  "read_values 0 f = ([], f)"
| "read_values (Suc k) f =
     (case read_int filter_read 4 f of
        (Inl ex, f1) \<Rightarrow> ([], f1)
      | (Inr v, f1) \<Rightarrow> (case read_values k f1 of (vs, f2) \<Rightarrow> (v # vs, f2)))"

definition read_options :: "packet_filter \<Rightarrow> (bool \<times> u32 list) \<times> packet_filter" where
  "read_options f =
     (case read_vector_size filter_read f of
        (Inl ex, f1) \<Rightarrow> ((ex = RX_BadClient, []), f1)
      | (Inr n, f1) \<Rightarrow> (case read_values (unat n) f1 of (vs, f2) \<Rightarrow> ((False, vs), f2)))"

definition sp_set_options :: "client_env \<Rightarrow> net_client \<Rightarrow> handled" where
  "sp_set_options e c =
     (case read_options (lc_stream c) of
        ((True, _), f) \<Rightarrow> Some (CR_BadMessage, c\<lparr>lc_stream := f\<rparr>)
      | ((False, opts), f) \<Rightarrow>
          (case client_set_options opts (c\<lparr>lc_stream := f\<rparr>) of
             None \<Rightarrow> None
           | Some c1 \<Rightarrow> okay_if (map_option (\<lambda>p. c1\<lparr>lc_proxy := p\<rparr>) (proxy_options e opts (lc_proxy c1)))))"

definition query_info :: "client_env \<Rightarrow> net_client \<Rightarrow> net_client" where
  "query_info e c =
     (case pl_shape (ce_platform e) (ls_calls (lc_screen c)) of (x, y, w, h) \<Rightarrow>
        case pl_cursor (ce_platform e) (ls_calls (lc_screen c)) of (mx, my) \<Rightarrow>
          client_send kMsgDInfo (map (FA_Int \<circ> word_of_int) [x, y, w, h, 0, mx, my]) c)"

definition info_acknowledgment :: "net_client \<Rightarrow> net_client" where
  "info_acknowledgment c = on_proxy (\<lambda>p. p\<lparr>sp_ignore_mouse := False\<rparr>) c"

definition on_info_changed :: "client_env \<Rightarrow> net_client \<Rightarrow> net_client" where
  "on_info_changed e c = query_info e (on_proxy (\<lambda>p. p\<lparr>sp_ignore_mouse := True\<rparr>) c)"

definition on_grab_clipboard :: "nat \<Rightarrow> net_client \<Rightarrow> net_client" where
  "on_grab_clipboard i c = client_send kMsgCClipboard [FA_Int (word_of_nat i), FA_Int (sp_seq (lc_proxy c))] c"

text \<open>
  \<open>LanguageManager::setRemoteLanguages\<close>: two characters at a time up to the size less two, which wraps for
  one character; \<open>substr\<close> then throws at the second turn.
\<close>

fun language_codes :: "bytes \<Rightarrow> bytes list" where
  "language_codes (a # b # rest) = [a, b] # language_codes rest"
| "language_codes _ = []"

definition set_remote_languages :: "bytes \<Rightarrow> bytes list option" where
  "set_remote_languages langs = (if length langs = 1 then None else Some (language_codes langs))"

definition set_server_languages :: "net_client \<Rightarrow> handled" where
  "set_server_languages c =
     receive kMsgDLanguageSynchronisation c (\<lambda>args c1.
       case set_remote_languages (str_arg args 0) of
         None \<Rightarrow> None
       | Some ls \<Rightarrow> okay (on_proxy (\<lambda>p. p\<lparr>sp_remote_languages := ls\<rparr>) c1))"

section \<open>Dispatch\<close>

definition is_code :: "bytes \<Rightarrow> string \<Rightarrow> bool" where
  "is_code code fmt \<longleftrightarrow> code = message_code fmt"

definition disconnected :: "net_client option \<Rightarrow> handled" where
  "disconnected r = map_option (\<lambda>c. (CR_Disconnect, c)) r"

definition parse_handshake :: "client_env \<Rightarrow> bytes \<Rightarrow> net_client \<Rightarrow> handled" where
  "parse_handshake e code c =
     (if is_code code kMsgQInfo then okay (query_info e c)
      else if is_code code kMsgCInfoAck then okay (info_acknowledgment c)
      else if is_code code kMsgDSetOptions then
        (case sp_set_options e c of
           Some (CR_Okay, c1) \<Rightarrow> okay_if (handshake_complete (on_proxy (\<lambda>p. p\<lparr>sp_handshake := False\<rparr>) c1))
         | r \<Rightarrow> r)
      else if is_code code kMsgCResetOptions then sp_reset_options e c
      else if is_code code kMsgCKeepAlive then okay (echo_keep_alive c)
      else if is_code code kMsgCNoop then okay c
      else if is_code code kMsgCClose then disconnected (client_disconnect e None c)
      else if is_code code kMsgEIncompatible then
        receive kMsgEIncompatible c (\<lambda>args c1. disconnected (refuse_connection e ''server has incompatible version'' c1))
      else if is_code code kMsgEBusy then
        disconnected (refuse_connection e ''server already has a connected client with our name'' c)
      else if is_code code kMsgEUnknown then
        disconnected (refuse_connection e ''server refused client with our name'' c)
      else if is_code code kMsgEBad then
        disconnected (refuse_connection e ''server reported a protocol error'' c)
      else if is_code code kMsgDLanguageSynchronisation then set_server_languages c
      else Some (CR_Unknown, c))"

definition parse_input :: "client_env \<Rightarrow> bytes \<Rightarrow> net_client \<Rightarrow> handled" where
  "parse_input e code c =
     (if is_code code kMsgDMouseMove then sp_mouse_move c
      else if is_code code kMsgDMouseRelMove then sp_mouse_relative_move c
      else if is_code code kMsgDMouseWheel then sp_mouse_wheel c
      else if is_code code kMsgDKeyDown then recv_key_down e c
      else if is_code code kMsgDKeyDownLang then recv_key_down_lang e c
      else if is_code code kMsgDKeyUp then sp_key_up c
      else if is_code code kMsgDMouseDown then sp_mouse_down c
      else if is_code code kMsgDMouseUp then sp_mouse_up c
      else if is_code code kMsgDKeyRepeat then sp_key_repeat c
      else Some (CR_Unknown, c))"

definition parse_control :: "client_env \<Rightarrow> bytes \<Rightarrow> net_client \<Rightarrow> handled" where
  "parse_control e code c =
     (if is_code code kMsgCKeepAlive then okay (echo_keep_alive c)
      else if is_code code kMsgCNoop then okay c
      else if is_code code kMsgCEnter then sp_enter c
      else if is_code code kMsgCLeave then sp_leave e c
      else if is_code code kMsgCClipboard then sp_grab_clipboard c
      else if is_code code kMsgCScreenSaver then sp_screensaver c
      else if is_code code kMsgQInfo then okay (query_info e c)
      else if is_code code kMsgCInfoAck then okay (info_acknowledgment c)
      else if is_code code kMsgDClipboard then sp_set_clipboard e c
      else if is_code code kMsgCResetOptions then sp_reset_options e c
      else if is_code code kMsgDSetOptions then sp_set_options e c
      else if is_code code kMsgDSecureInputNotification then
        receive kMsgDSecureInputNotification c (\<lambda>args c1. okay c1)
      else if is_code code kMsgCClose then disconnected (client_disconnect e None c)
      else if is_code code kMsgEBad then
        disconnected (client_disconnect e (Some ''server reported a protocol error'') c)
      else Some (CR_Unknown, c))"

text \<open>\<open>parseMessage\<close>; the reply at its end is a no-op.\<close>

definition parse_message :: "client_env \<Rightarrow> bytes \<Rightarrow> net_client \<Rightarrow> handled" where
  "parse_message e code c =
     (case (case parse_input e code c of
              Some (CR_Unknown, c1) \<Rightarrow> parse_control e code c1
            | r \<Rightarrow> r) of
        Some (CR_Okay, c1) \<Rightarrow> okay (client_send kMsgCNoop [] c1)
      | r \<Rightarrow> r)"

definition parse :: "client_env \<Rightarrow> bytes \<Rightarrow> net_client \<Rightarrow> handled" where
  "parse e code c = (if sp_handshake (lc_proxy c) then parse_handshake e code c else parse_message e code c)"

end
