(* ===== verification/ClientEvents.thy ===== *)
theory ClientEvents
  imports ServerProxy
begin

text \<open>
  The loop of \<open>ServerProxy::handleData\<close>, which ends because every turn takes bytes out of the stream's
  buffer, and the handlers of \<open>Client\<close> for connecting, the hello, the local screen, suspend and resume.
  A \<open>client_event\<close> is one entry of the event queue; a run is any sequence of them.
\<close>

section \<open>Reading consumes\<close>

text \<open>A stream of which no read leaves more than before; then no formatted read does.\<close>

locale shrinking_source =
  fixes rd :: "u32 \<Rightarrow> 's \<Rightarrow> bytes \<times> 's"
    and left :: "'s \<Rightarrow> nat"
  assumes rd_shrinks: "rd n s = (d, s') \<Longrightarrow> left s' \<le> left s"
begin

lemma read_exact_shrinks: "read_exact rd n s = (r, s') \<Longrightarrow> left s' \<le> left s"
proof (induction n arbitrary: s r s' rule: less_induct)
  case (less n)
  obtain d s1 where d: "rd (word_of_nat n) s = (d, s1)" by fastforce
  have le: "left s1 \<le> left s" using rd_shrinks [OF d] .
  show ?case
  proof (cases "n = 0 \<or> d = []")
    case True
    then show ?thesis using less.prems d le by (subst (asm) read_exact.simps) (auto split: if_splits)
  next
    case False
    obtain x s2 where x: "read_exact rd (n - length d) s1 = (x, s2)" by fastforce
    have "left s2 \<le> left s1" using less.IH [OF _ x] False by simp
    moreover have "s' = s2"
      using less.prems d False x by (subst (asm) read_exact.simps) (auto split: sum.splits)
    ultimately show ?thesis using le by simp
  qed
qed

lemma read_int_shrinks: "read_int rd n s = (r, s') \<Longrightarrow> left s' \<le> left s"
  by (auto simp: read_int_def split: prod.splits sum.splits dest: read_exact_shrinks)

lemma read_ints_shrinks: "read_ints rd n k s = (r, s') \<Longrightarrow> left s' \<le> left s"
proof (induction k arbitrary: s r)
  case (Suc k)
  obtain x s1 where x: "read_int rd n s = (x, s1)" by fastforce
  have "left s1 \<le> left s" using read_int_shrinks [OF x] .
  moreover obtain y s2 where y: "read_ints rd n k s1 = (y, s2)" by fastforce
  moreover have "s' = s1 \<or> s' = s2" using Suc.prems x y by (auto split: sum.splits)
  moreover have "left s' \<le> left s1" if "s' = s2" using Suc.IH y that by blast
  ultimately show ?case by auto
qed simp

lemma read_vector_shrinks: "read_vector rd n s = (r, s') \<Longrightarrow> left s' \<le> left s"
  by (fastforce simp: read_vector_def read_vector_size_def split: prod.splits sum.splits if_splits
      dest: read_int_shrinks read_ints_shrinks)

lemma read_string_shrinks: "read_string rd len s = (r, s') \<Longrightarrow> left s' \<le> left s"
  by (fastforce simp: read_string_def split: prod.splits sum.splits if_splits
      dest: read_int_shrinks read_exact_shrinks)

lemma map_result_shrinks: "left (snd x) \<le> k \<Longrightarrow> map_result f x = (r, s') \<Longrightarrow> left s' \<le> k"
  by (auto simp: map_result_def split: prod.splits sum.splits)

lemma read_spec_shrinks: "read_spec rd len c s = (r, s') \<Longrightarrow> left s' \<le> left s"
  unfolding read_spec_def
  by (auto split: if_splits elim!: map_result_shrinks [rotated]
      intro: read_int_shrinks [OF surjective_pairing] read_vector_shrinks [OF surjective_pairing]
        read_string_shrinks [OF surjective_pairing])

lemma vreadf_shrinks: "vreadf rd fmt s = (r, s') \<Longrightarrow> left s' \<le> left s"
proof (induction "length fmt" arbitrary: fmt s r s' rule: less_induct)
  case less
  show ?case
  proof (cases fmt)
    case (Cons c rest)
    obtain len spec where e: "eat_length 0 rest = (len, spec)" by fastforce
    show ?thesis
    proof (cases "c = CHR ''%''")
      case True
      show ?thesis
      proof (cases spec)
        case Nil
        then show ?thesis using less.prems Cons True e by simp
      next
        case sp: (Cons p after)
        obtain x s1 where x: "read_spec rd len p s = (x, s1)" by fastforce
        have le: "left s1 \<le> left s" using read_spec_shrinks [OF x] .
        obtain y s2 where y: "vreadf rd after s1 = (y, s2)" by fastforce
        have "length after < length fmt" using eat_length_shorter e sp Cons by simp
        then have "left s2 \<le> left s1" using less.hyps y by blast
        moreover have "s' = s1 \<or> s' = s2"
          using less.prems Cons True e sp x y by (auto split: sum.splits prod.splits)
        ultimately show ?thesis using le by auto
      qed
    next
      case False
      obtain x s1 where x: "read_exact rd 1 s = (x, s1)" by fastforce
      have le: "left s1 \<le> left s" using read_exact_shrinks [OF x] .
      obtain y s2 where y: "vreadf rd rest s1 = (y, s2)" by fastforce
      have "left s2 \<le> left s1" using less.hyps [OF _ y] Cons by simp
      moreover have "s' = s1 \<or> s' = s2"
        using less.prems Cons False x y by (auto split: sum.splits prod.splits if_splits)
      ultimately show ?thesis using le by auto
    qed
  qed (use less.prems in simp)
qed

lemma readf_shrinks: "readf rd fmt s = (r, s') \<Longrightarrow> left s' \<le> left s"
  by (auto simp: readf_def split: prod.splits dest: vreadf_shrinks)

end

definition unread :: "packet_filter \<Rightarrow> nat" where
  "unread f = unat (sb_size (pf_buffer f))"

lemma pop_unread: "unat (sb_size (buffer_pop n b)) = unat (sb_size b) - unat n"
  by (auto simp: buffer_pop_def case_prod_unfold word_le_nat_alt unat_sub)

lemma read_packet_size_unread: "unread (snd (read_packet_size f)) \<le> unread f"
  by (auto simp: unread_def read_packet_size_def filter_emit_def Let_def pop_unread split: prod.split)
     (metis diff_le_self peek_size snd_conv)+

lemma filter_read_unread:
  assumes "filter_read n f = (d, f')"
  shows "unread f' \<le> unread f" and "d \<noteq> [] \<Longrightarrow> unread f' < unread f"
proof -
  have "unread f' \<le> unread f \<and> (d \<noteq> [] \<longrightarrow> unread f' < unread f)"
  proof (cases "n = 0 \<or> \<not> is_ready_no_lock f")
    case True
    then have "filter_read n f = ([], f)" unfolding filter_read_def by (cases "n = 0") (simp_all only: if_True if_False simp_thms)
    then show ?thesis using assms by simp
  next
    case False
    let ?n = "if n > pf_size f then pf_size f else n"
    let ?f1 = "f\<lparr>pf_buffer := buffer_pop ?n (snd (buffer_peek ?n (pf_buffer f))), pf_size := pf_size f - ?n\<rparr>"
    have "unread f' = unread (snd (read_packet_size ?f1))"
      using assms False by (auto simp: filter_read_def Let_def unread_def filter_emit_def)
    moreover have "unread ?f1 = unread f - unat ?n" by (simp add: unread_def pop_unread)
    moreover have "0 < unat ?n" "unat ?n \<le> unread f"
      using False by (auto simp: is_ready_no_lock_def unat_gt_0 unread_def word_le_nat_alt not_less)
    ultimately show ?thesis using read_packet_size_unread [of ?f1] by linarith
  qed
  then show "unread f' \<le> unread f" and "d \<noteq> [] \<Longrightarrow> unread f' < unread f" by auto
qed

interpretation filter_source: shrinking_source filter_read unread
  by unfold_locales (rule filter_read_unread)

section \<open>What the handlers leave alone\<close>

text \<open>
  \<open>steady\<close>: nothing is added to the unread input, and the connection, the handlers and the screen are as
  they were.
\<close>

definition lc_unread :: "net_client \<Rightarrow> nat" where
  "lc_unread c = unread (lc_stream c)"

definition steady :: "net_client \<Rightarrow> net_client \<Rightarrow> bool" where
  "steady c d \<longleftrightarrow>
     lc_unread d \<le> lc_unread c \<and> lc_target d = lc_target c \<and> lc_timer d = lc_timer c \<and>
     lc_server d = lc_server c \<and> lc_proxies d = lc_proxies c \<and> lc_ready d = lc_ready c \<and>
     lc_suspended d = lc_suspended c \<and> lc_connect_on_resume d = lc_connect_on_resume c \<and>
     lc_handlers d = lc_handlers c \<and> lc_screen_handlers d = lc_screen_handlers c \<and>
     ls_enabled (lc_screen d) = ls_enabled (lc_screen c) \<and> ls_primary (lc_screen d) = ls_primary (lc_screen c) \<and>
     sp_handshake (lc_proxy d) = sp_handshake (lc_proxy c)"

definition settles :: "net_client \<Rightarrow> handled \<Rightarrow> bool" where
  "settles c r \<longleftrightarrow> (\<forall>x d. r = Some (x, d) \<longrightarrow> steady c d)"

lemma steady_refl [simp]: "steady c c"
  by (simp add: steady_def)

lemma steady_trans: "steady a b \<Longrightarrow> steady b c \<Longrightarrow> steady a c"
  by (simp add: steady_def)

lemma steady_fields:
  assumes "steady c d" and "lc_stream d' = lc_stream d" and "lc_target d' = lc_target d" and "lc_timer d' = lc_timer d"
    and "lc_server d' = lc_server d" and "lc_proxies d' = lc_proxies d" and "lc_ready d' = lc_ready d"
    and "lc_suspended d' = lc_suspended d" and "lc_connect_on_resume d' = lc_connect_on_resume d"
    and "lc_handlers d' = lc_handlers d" and "lc_screen_handlers d' = lc_screen_handlers d"
    and "ls_enabled (lc_screen d') = ls_enabled (lc_screen d)" and "ls_primary (lc_screen d') = ls_primary (lc_screen d)"
    and "sp_handshake (lc_proxy d') = sp_handshake (lc_proxy d)"
  shows "steady c d'"
  using assms by (simp add: steady_def lc_unread_def)

lemma steady_proxy: "steady c d \<Longrightarrow> (\<And>p. sp_handshake (f p) = sp_handshake p) \<Longrightarrow> steady c (on_proxy f d)"
  by (erule steady_fields) (simp_all add: on_proxy_def)

lemma steady_screen:
  "steady c d \<Longrightarrow> ls_enabled s = ls_enabled (lc_screen d) \<Longrightarrow> ls_primary s = ls_primary (lc_screen d) \<Longrightarrow>
   steady c (set_screen d s)"
  by (erule steady_fields) (simp_all add: set_screen_def)

lemma filter_write_unread [simp]: "unread (filter_write d f) = unread f"
  by (simp add: unread_def filter_write_def)

lemma steady_send: "steady c d \<Longrightarrow> steady c (client_send fmt args d)"
  by (auto simp: client_send_def steady_def lc_unread_def split: option.split)

lemma platform_calls_fields [simp]:
  "ls_enabled (platform_calls ps s) = ls_enabled s" "ls_primary (platform_calls ps s) = ls_primary s"
  by (simp_all add: platform_calls_def)

lemma half_duplex_fields:
  "half_duplex_options opts s = Some s' \<Longrightarrow> ls_enabled s' = ls_enabled s \<and> ls_primary s' = ls_primary s"
  by (induction opts s rule: half_duplex_options.induct)
     (auto simp: half_duplex_bit_def split: if_splits option.splits)

lemma screen_set_options_fields:
  "screen_set_options opts s = Some s' \<Longrightarrow> ls_enabled s' = ls_enabled s \<and> ls_primary s' = ls_primary s"
  by (auto simp: screen_set_options_def split: option.splits dest: half_duplex_fields)

lemma screen_leave_fields [simp]:
  "ls_enabled (snd (screen_leave pl s)) = ls_enabled s" "ls_primary (snd (screen_leave pl s)) = ls_primary s"
  by (simp_all add: screen_leave_def leave_screen_def)

lemmas screen_ops =
  screen_mouse_move_def screen_mouse_relative_move_def screen_mouse_wheel_def screen_mouse_down_def
  screen_mouse_up_def screen_key_down_def screen_key_up_def screen_key_repeat_def screen_enter_def
  screen_set_clipboard_def screen_grab_clipboard_def screen_screensaver_def screen_reset_options_def Let_def

lemma steady_client_calls:
  "steady c d \<Longrightarrow> client_mouse_move x y d = Some d' \<Longrightarrow> steady c d'"
  "steady c d \<Longrightarrow> client_mouse_relative_move x y d = Some d' \<Longrightarrow> steady c d'"
  "steady c d \<Longrightarrow> client_mouse_wheel x y d = Some d' \<Longrightarrow> steady c d'"
  "steady c d \<Longrightarrow> client_key_repeat key m n button lang d = Some d' \<Longrightarrow> steady c d'"
  "steady c d \<Longrightarrow> steady c (client_key_down e key m button lang d)"
  "steady c d \<Longrightarrow> steady c (client_key_up key m button d)"
  "steady c d \<Longrightarrow> steady c (client_mouse_down b d)"
  "steady c d \<Longrightarrow> steady c (client_mouse_up b d)"
  "steady c d \<Longrightarrow> steady c (client_screensaver on d)"
  "steady c d \<Longrightarrow> steady c (client_reset_options d)"
  by (auto simp: client_mouse_move_def client_mouse_relative_move_def client_mouse_wheel_def client_key_repeat_def
      client_key_down_def client_key_up_def client_mouse_down_def client_mouse_up_def client_screensaver_def
      client_reset_options_def screen_ops split: if_splits intro!: steady_screen)

lemma steady_post: "steady c d \<Longrightarrow> steady c (post_event p d)"
  by (erule steady_fields) (simp_all add: post_event_def)

lemma steady_fold_post: "steady c d \<Longrightarrow> steady c (fold (\<lambda>x. post_event (f x)) xs d)"
  by (induction xs arbitrary: d) (simp_all add: steady_post)

lemma steady_drop: "steady c d \<Longrightarrow> steady c (drop_ownership i d)"
  by (erule steady_fields) (simp_all add: drop_ownership_def)

lemma steady_clipboard_calls:
  "steady c d \<Longrightarrow> steady c (client_set_clipboard i cb d)"
  "steady c d \<Longrightarrow> steady c (client_grab_clipboard i d)"
  by (simp_all add: client_set_clipboard_def client_grab_clipboard_def screen_ops steady_drop steady_screen)

lemma steady_send_clipboard:
  assumes "steady c d" and "client_send_clipboard e i d = Some d'"
  shows "steady c d'"
proof -
  have slots: "steady c (d\<lparr>lc_time_clipboard := ts\<rparr>)"
    "steady c (d\<lparr>lc_time_clipboard := ts, lc_sent_clipboard := ss, lc_data_clipboard := ds\<rparr>)" for ts ss ds
    using assms(1) by (auto elim: steady_fields)
  have "d' = d \<or> (\<exists>ts. d' = d\<lparr>lc_time_clipboard := ts\<rparr>) \<or> (\<exists>ts ss ds cb.
      d' = client_clipboard_changed e i cb (d\<lparr>lc_time_clipboard := ts, lc_sent_clipboard := ss, lc_data_clipboard := ds\<rparr>))"
    using assms(2) by (auto simp: client_send_clipboard_def Let_def split: if_splits prod.splits) blast+
  then show ?thesis
    using assms(1) slots by (elim disjE exE) (simp_all add: client_clipboard_changed_def Let_def steady_fold_post)
qed

lemma steady_send_owned: "steady c d \<Longrightarrow> send_owned e is d = Some d' \<Longrightarrow> steady c d'"
  by (induction "is" arbitrary: d) (auto split: if_splits option.splits intro: steady_send_clipboard)

lemma steady_active: "steady c d \<Longrightarrow> steady c (d\<lparr>lc_active := b\<rparr>)"
  by (erule steady_fields) simp_all

lemma steady_leave: "steady c d \<Longrightarrow> client_leave e d = Some d' \<Longrightarrow> steady c d'"
  by (auto simp: client_leave_def Let_def split: if_splits elim!: steady_send_owned [rotated]
      intro!: steady_screen steady_active)

lemma steady_enter: "steady c d \<Longrightarrow> client_enter x y m d = Some d' \<Longrightarrow> steady c d'"
  by (auto simp: client_enter_def screen_ops split: if_splits intro!: steady_screen steady_active)

lemma steady_clipboard_options: "clipboard_options opts d = Some d' \<Longrightarrow> steady c d \<Longrightarrow> steady c d'"
proof (induction opts d rule: clipboard_options.induct)
  case (3 opt v rest d)
  have "steady c (d\<lparr>lc_enable_clipboard := b\<rparr>)" "steady c (d\<lparr>lc_max_clipboard := n\<rparr>)" for b n
    using "3.prems"(2) by (auto elim: steady_fields)
  then show ?case using 3 by (auto split: if_splits)
qed (auto split: if_splits)

lemma steady_set_options:
  assumes st: "steady c d" and r: "client_set_options opts d = Some d'"
  shows "steady c d'"
proof -
  obtain d1 where d1: "clipboard_options opts d = Some d1"
    using r by (auto simp: client_set_options_def split: option.splits)
  let ?d2 = "if lc_enable_clipboard d1 \<and> lc_max_clipboard d1 = 0 then d1\<lparr>lc_enable_clipboard := False\<rparr> else d1"
  obtain s where s: "screen_set_options opts (lc_screen ?d2) = Some s" "d' = set_screen ?d2 s"
    using r d1 by (auto simp: client_set_options_def Let_def)
  have "steady c ?d2" using steady_clipboard_options [OF d1 st] by (rule steady_fields) simp_all
  then show ?thesis using s screen_set_options_fields [OF s(1)] by (simp only: steady_screen)
qed

section \<open>The handlers settle\<close>

lemma settles_None [simp]: "settles c None"
  by (simp add: settles_def)

lemma settles_okay: "steady c d \<Longrightarrow> settles c (okay d)"
  by (simp add: settles_def okay_def)

lemma settles_okay_if: "(\<And>d. r = Some d \<Longrightarrow> steady c d) \<Longrightarrow> settles c (okay_if r)"
  by (auto simp: settles_def okay_if_def)

lemma steady_stream: "steady c d \<Longrightarrow> unread f \<le> unread (lc_stream d) \<Longrightarrow> steady c (d\<lparr>lc_stream := f\<rparr>)"
  by (auto simp: steady_def lc_unread_def)

lemma settles_receive:
  assumes "steady c d" and "\<And>args d'. steady c d' \<Longrightarrow> settles c (k args d')"
  shows "settles c (receive fmt d k)"
proof -
  obtain args r f where r: "readf filter_read (drop 4 fmt) (lc_stream d) = ((args, r), f)" by (metis surj_pair)
  then have "steady c (d\<lparr>lc_stream := f\<rparr>)"
    using filter_source.readf_shrinks steady_stream [OF assms(1)] by blast
  then show ?thesis using assms(2) by (cases r) (auto simp: receive_def r settles_def)
qed

lemma steady_flush: "steady c d \<Longrightarrow> flush_compressed_mouse d = Some d' \<Longrightarrow> steady c d'"
  by (auto simp: flush_compressed_mouse_def split: if_splits option.splits
      intro!: steady_proxy elim!: steady_client_calls(1,2) [rotated])

lemma settles_flushed:
  "steady c d \<Longrightarrow> (\<And>d'. steady c d' \<Longrightarrow> settles c (k d')) \<Longrightarrow> settles c (flushed d k)"
  by (cases "flush_compressed_mouse d") (auto simp: flushed_def dest: steady_flush)

lemma settles_translated: "(\<And>key2 m2. settles c (k key2 m2)) \<Longrightarrow> settles c (translated key m d k)"
  by (auto simp: translated_def split: option.split)

lemmas settle_rules =
  settles_receive settles_flushed settles_translated settles_okay settles_okay_if steady_proxy steady_send steady_post
  steady_client_calls(5-10) steady_clipboard_calls

lemma sp_mouse_settles:
  "settles c (sp_mouse_move c)" "settles c (sp_mouse_relative_move c)" "settles c (sp_mouse_wheel c)"
  "settles c (sp_mouse_down c)" "settles c (sp_mouse_up c)"
  unfolding sp_mouse_move_def sp_mouse_relative_move_def sp_mouse_wheel_def sp_mouse_down_def sp_mouse_up_def
  by (intro settles_receive settles_flushed steady_refl;
      auto simp: Let_def split: list.split fmt_arg.split
        intro!: settles_okay settles_okay_if steady_proxy steady_client_calls(7,8)
        elim!: steady_client_calls(1-3) [rotated])+

lemma set_active_language_handshake [simp]: "sp_handshake (set_active_language e l p) = sp_handshake p"
  by (simp add: set_active_language_def Let_def)

lemma sp_key_settles:
  "settles c (recv_key_down e c)" "settles c (recv_key_down_lang e c)" "settles c (sp_key_repeat c)"
  "settles c (sp_key_up c)"
  unfolding recv_key_down_def recv_key_down_lang_def sp_key_down_def sp_key_repeat_def sp_key_up_def Let_def
  by (intro settles_receive settles_flushed settles_translated settles_okay steady_client_calls(5) steady_proxy
        steady_refl set_active_language_handshake;
      auto split: list.split fmt_arg.split
        intro!: settles_translated settles_okay settles_okay_if steady_client_calls(5,6)
        elim!: steady_client_calls(4) [rotated])+

lemma keep_alive_fields [simp]:
  "sp_handshake (reset_keep_alive_alarm p) = sp_handshake p" "sp_handshake (set_keep_alive_rate e r p) = sp_handshake p"
  by (simp_all add: reset_keep_alive_alarm_def set_keep_alive_rate_def)

lemma proxy_options_handshake: "proxy_options e opts p = Some p' \<Longrightarrow> sp_handshake p' = sp_handshake p"
  by (induction e opts p rule: proxy_options.induct) (auto split: if_splits option.splits)

lemma read_values_shrinks: "read_values k f = (vs, f') \<Longrightarrow> unread f' \<le> unread f"
proof (induction k arbitrary: f vs f')
  case (Suc k)
  obtain x f1 where x: "read_int filter_read 4 f = (x, f1)" by fastforce
  have "unread f1 \<le> unread f" using filter_source.read_int_shrinks [OF x] .
  then show ?case using Suc x by (auto split: sum.splits prod.splits intro: le_trans)
qed simp

lemma read_options_shrinks: "read_options f = (r, f') \<Longrightarrow> unread f' \<le> unread f"
  by (fastforce simp: read_options_def read_vector_size_def split: prod.splits sum.splits if_splits
      dest: read_values_shrinks filter_source.read_int_shrinks)

lemma sp_set_options_settles: "settles c (sp_set_options e c)"
proof -
  obtain bad opts f where r: "read_options (lc_stream c) = ((bad, opts), f)" by (metis surj_pair)
  have st: "steady c (c\<lparr>lc_stream := f\<rparr>)" using steady_stream [OF steady_refl] read_options_shrinks [OF r] by blast
  have "steady c (d\<lparr>lc_proxy := p\<rparr>)" if "client_set_options opts (c\<lparr>lc_stream := f\<rparr>) = Some d"
    "proxy_options e opts (lc_proxy d) = Some p" for d p
    using steady_set_options [OF st that(1)] by (rule steady_fields) (use proxy_options_handshake that(2) in auto)
  then show ?thesis using st by (auto simp: sp_set_options_def r settles_def okay_if_def split: bool.split option.split)
qed

lemma clip_assemble_shrinks:
  assumes "clip_assemble qn filter_read f a = (r, f', a')"
  shows "unread f' \<le> unread f"
proof -
  obtain x f1 where x: "readf filter_read (drop 4 kMsgDClipboard) f = (x, f1)" by fastforce
  then have "f' = f1"
    using assms by (auto simp: clip_assemble_def split: prod.splits readf_result.splits bool.splits list.splits fmt_arg.splits)
  then show ?thesis using filter_source.readf_shrinks [OF x] by simp
qed

lemma set_clipboard_shrinks: "set_clipboard qn filter_read f a = (r, f', a') \<Longrightarrow> unread f' \<le> unread f"
proof -
  assume s: "set_clipboard qn filter_read f a = (r, f', a')"
  obtain y f2 a2 where y: "clip_assemble qn filter_read f a = (y, f2, a2)" by (metis surj_pair)
  have "f' = f2" using s y by (auto simp: set_clipboard_def split: option.splits prod.splits if_splits)
  then show ?thesis using clip_assemble_shrinks [OF y] by simp
qed

lemma sp_set_clipboard_settles: "settles c (sp_set_clipboard e c)"
proof -
  obtain r f a where s: "set_clipboard (ce_number e) filter_read (lc_stream c) (lc_assembler c) = (r, f, a)"
    by (metis surj_pair)
  have "steady c (c\<lparr>lc_stream := f\<rparr>)" using steady_stream [OF steady_refl] set_clipboard_shrinks [OF s] by blast
  then have "steady c (c\<lparr>lc_stream := f, lc_assembler := a\<rparr>)" by (rule steady_fields) simp_all
  then show ?thesis
    by (cases r) (auto simp: sp_set_clipboard_def s settles_def okay_def steady_clipboard_calls Let_def)
qed

lemma sp_control_settles:
  "settles c (sp_enter c)" "settles c (sp_leave e c)" "settles c (sp_grab_clipboard c)" "settles c (sp_screensaver c)"
  "settles c (sp_reset_options e c)" "settles c (set_server_languages c)"
  unfolding sp_enter_def sp_leave_def sp_grab_clipboard_def sp_screensaver_def sp_reset_options_def
    set_server_languages_def
  by (auto split: list.split fmt_arg.split option.split
      intro!: settles_receive settles_flushed settles_okay settles_okay_if steady_proxy steady_clipboard_calls(2)
        steady_client_calls(9,10)
      simp: drop_motion_def elim!: steady_enter [rotated] steady_leave [rotated])

lemma steady_simple:
  "steady c (query_info e c)" "steady c (echo_keep_alive c)" "steady c (info_acknowledgment c)"
  by (auto simp: query_info_def echo_keep_alive_def info_acknowledgment_def
      intro!: steady_send steady_proxy split: prod.split)

section \<open>The loop\<close>

lemma cleanup_stream_kept [simp]:
  "lc_stream (cleanup_timer c) = lc_stream c" "lc_stream (cleanup_connecting c) = lc_stream c"
  "lc_stream (cleanup_connection c) = lc_stream c" "lc_stream (delete_proxy c) = lc_stream c"
  by (simp_all add: cleanup_timer_def cleanup_connecting_def cleanup_connection_def delete_proxy_def remove_handler_def
      cleanup_stream_def on_proxy_def Let_def split: option.split)

lemma client_cleanup_stream: "client_cleanup e c = Some d \<Longrightarrow> lc_stream d = lc_stream c"
  by (auto simp: client_cleanup_def cleanup_screen_def set_screen_def split: if_splits option.splits)

lemma disconnect_stream:
  "client_disconnect e m c = Some d \<Longrightarrow> lc_stream d = lc_stream c"
  "refuse_connection e n c = Some d \<Longrightarrow> lc_stream d = lc_stream c"
  by (auto simp: client_disconnect_def refuse_connection_def post_event_def dest: client_cleanup_stream)

lemma handshake_stream: "handshake_complete c = Some d \<Longrightarrow> lc_stream d = lc_stream c"
  by (auto simp: handshake_complete_def post_event_def set_screen_def)

lemma receive_disconnect_unread:
  assumes "receive fmt c (\<lambda>args c1. disconnected (refuse_connection e n c1)) = Some (x, d)"
  shows "lc_unread d \<le> lc_unread c"
proof -
  obtain args r f where r: "readf filter_read (drop 4 fmt) (lc_stream c) = ((args, r), f)" by (metis surj_pair)
  have "lc_stream d = f"
    using assms by (cases r) (auto simp: receive_def r disconnected_def dest!: disconnect_stream)
  then show ?thesis using filter_source.readf_shrinks [OF r] by (simp add: lc_unread_def)
qed

text \<open>A chain of tests has a property of results when every branch has it.\<close>

lemma if_branches: "Q A \<Longrightarrow> Q B \<Longrightarrow> Q (if b then A else B)"
  by simp

definition reads_on :: "net_client \<Rightarrow> handled \<Rightarrow> bool" where
  "reads_on c r \<longleftrightarrow> (\<forall>x d. r = Some (x, d) \<longrightarrow> lc_unread d \<le> lc_unread c)"

lemma settles_reads_on: "settles c r \<Longrightarrow> reads_on c r"
  by (auto simp: settles_def reads_on_def steady_def)

lemma unknown_settles: "settles c (Some (CR_Unknown, c))"
  by (simp add: settles_def)

lemma disconnected_reads_on:
  "reads_on c (disconnected (client_disconnect e m c))" "reads_on c (disconnected (refuse_connection e n c))"
  "reads_on c (receive fmt c (\<lambda>args c1. disconnected (refuse_connection e n c1)))"
  using receive_disconnect_unread [of fmt c e n]
  by (auto simp: reads_on_def disconnected_def lc_unread_def dest: disconnect_stream)

lemma parse_handshake_options:
  "reads_on c (case sp_set_options e c of
       Some (CR_Okay, c1) \<Rightarrow> okay_if (handshake_complete (on_proxy (\<lambda>p. p\<lparr>sp_handshake := False\<rparr>) c1))
     | r \<Rightarrow> r)"
proof (cases "\<exists>c1. sp_set_options e c = Some (CR_Okay, c1)")
  case True
  then obtain c1 where c1: "sp_set_options e c = Some (CR_Okay, c1)" by blast
  then have "lc_unread c1 \<le> lc_unread c"
    using settles_reads_on [OF sp_set_options_settles, of c e] by (simp add: reads_on_def)
  then show ?thesis
    using c1 by (auto simp: reads_on_def okay_if_def on_proxy_def lc_unread_def dest!: handshake_stream)
next
  case False
  then have "(case sp_set_options e c of
       Some (CR_Okay, c1) \<Rightarrow> okay_if (handshake_complete (on_proxy (\<lambda>p. p\<lparr>sp_handshake := False\<rparr>) c1))
     | r \<Rightarrow> r) = sp_set_options e c"
    by (auto split: option.split conn_result.split)
  then show ?thesis using settles_reads_on [OF sp_set_options_settles, of c e] by simp
qed

lemma parse_handshake_unread: "reads_on c (parse_handshake e code c)"
  unfolding parse_handshake_def
  by (intro if_branches [where Q = "reads_on c"] parse_handshake_options disconnected_reads_on settles_reads_on)
     (intro settles_okay steady_simple steady_refl sp_control_settles unknown_settles)+

lemma parse_input_settles: "settles c (parse_input e code c)"
  unfolding parse_input_def by (intro if_branches [where Q = "settles c"] sp_mouse_settles sp_key_settles unknown_settles)

lemma parse_control_cases:
  "settles c (parse_control e code c) \<or> (\<exists>m. parse_control e code c = disconnected (client_disconnect e m c))"
proof -
  let ?Q = "\<lambda>r. settles c r \<or> (\<exists>m. r = disconnected (client_disconnect e m c))"
  have "settles c (receive fmt c (\<lambda>args c1. okay c1))" for fmt by (intro settles_receive settles_okay steady_refl)
  then show ?thesis
    unfolding parse_control_def
    by (intro if_branches [where Q = ?Q])
       (blast intro: settles_okay steady_simple steady_refl sp_control_settles sp_set_clipboard_settles
          sp_set_options_settles unknown_settles)+
qed

text \<open>\<open>parseMessage\<close> either settles or disconnects.\<close>

lemma parse_message_cases:
  assumes "parse_message e code c = Some (x, d)"
  shows "steady c d \<or> x = CR_Disconnect \<and> (\<exists>m c1. steady c c1 \<and> client_disconnect e m c1 = Some d)"
proof -
  define r where "r = (case parse_input e code c of Some (CR_Unknown, c1) \<Rightarrow> parse_control e code c1 | r \<Rightarrow> r)"
  have msg: "parse_message e code c = (case r of Some (CR_Okay, c1) \<Rightarrow> okay (client_send kMsgCNoop [] c1) | r \<Rightarrow> r)"
    by (simp add: parse_message_def r_def)
  then obtain y c1 where y: "r = Some (y, c1)" using assms by (cases r) auto
  have inp: "settles c (parse_input e code c)" by (rule parse_input_settles)
  have "steady c c1 \<or> y = CR_Disconnect \<and> (\<exists>m c0. steady c c0 \<and> client_disconnect e m c0 = Some c1)"
  proof (cases "\<exists>c0. parse_input e code c = Some (CR_Unknown, c0)")
    case True
    then obtain c0 where c0: "parse_input e code c = Some (CR_Unknown, c0)" by blast
    then have st: "steady c c0" and "parse_control e code c0 = Some (y, c1)"
      using inp y by (auto simp: settles_def r_def)
    from parse_control_cases [of c0 e code] show ?thesis
    proof
      assume "settles c0 (parse_control e code c0)"
      then show ?thesis using st \<open>parse_control e code c0 = Some (y, c1)\<close> by (auto simp: settles_def intro: steady_trans)
    next
      assume "\<exists>m. parse_control e code c0 = disconnected (client_disconnect e m c0)"
      then obtain m where "disconnected (client_disconnect e m c0) = Some (y, c1)"
        using \<open>parse_control e code c0 = Some (y, c1)\<close> by auto
      then show ?thesis using st by (auto simp: disconnected_def)
    qed
  next
    case False
    then have "parse_input e code c = Some (y, c1)"
      using y by (auto simp: r_def split: option.splits prod.splits conn_result.splits)
    then show ?thesis using inp by (simp add: settles_def)
  qed
  moreover have "(x, d) = (y, c1) \<or> y = CR_Okay \<and> d = client_send kMsgCNoop [] c1"
    using assms msg y by (cases y) (auto simp: okay_def)
  ultimately show ?thesis by (auto intro: steady_send)
qed

lemma parse_unread:
  assumes "parse e code c = Some (x, d)"
  shows "lc_unread d \<le> lc_unread c"
proof (cases "sp_handshake (lc_proxy c)")
  case True
  then show ?thesis using assms parse_handshake_unread [of c e code] by (simp add: parse_def reads_on_def)
next
  case False
  then have "parse_message e code c = Some (x, d)" using assms by (simp add: parse_def)
  from parse_message_cases [OF this] show ?thesis
  proof (elim disjE conjE exE)
    assume "steady c d"
    then show ?thesis by (simp add: steady_def)
  next
    fix m c1 assume "steady c c1" and "client_disconnect e m c1 = Some d"
    then show ?thesis using disconnect_stream(1) [of e m c1 d] by (simp add: steady_def lc_unread_def)
  qed
qed

text \<open>The inner loop discards everything that is readable.\<close>

function discard_input :: "packet_filter \<Rightarrow> packet_filter" where
  "discard_input f = (case filter_read 4 f of (d, f1) \<Rightarrow> if d = [] then f1 else discard_input f1)"
  by pat_completeness auto
termination
  by (relation "measure unread") (simp_all add: filter_read_unread(2) [OF sym])

declare discard_input.simps [simp del]

lemma discard_input_unread: "unread (discard_input f) \<le> unread f"
proof (induction f rule: discard_input.induct)
  case (1 f)
  obtain d f1 where d: "filter_read 4 f = (d, f1)" by fastforce
  then show ?case
    using 1 filter_read_unread(1) [OF d] by (subst discard_input.simps) (auto intro: le_trans)
qed

function handle_data :: "client_env \<Rightarrow> net_client \<Rightarrow> net_client option" where
  "handle_data e c =
     (case filter_read 4 (lc_stream c) of (code, f) \<Rightarrow>
        let c1 = c\<lparr>lc_stream := f\<rparr> in
        if code = [] then flush_compressed_mouse c1
        else if length code \<noteq> 4 then client_disconnect e (Some ''incomplete message from server'') c1
        else case parse e code c1 of
          None \<Rightarrow> None
        | Some (CR_Okay, c2) \<Rightarrow> handle_data e c2
        | Some (CR_Unknown, c2) \<Rightarrow> handle_data e (c2\<lparr>lc_stream := discard_input (lc_stream c2)\<rparr>)
        | Some (CR_Disconnect, c2) \<Rightarrow> Some c2
        | Some (CR_BadMessage, c2) \<Rightarrow>
            client_disconnect e (Some ''invalid message from server'') (client_send kMsgEBad [] c2))"
  by pat_completeness auto

lemma turn_consumes:
  assumes "filter_read 4 (lc_stream c) = (code, f)" and "code \<noteq> []" and "parse e code (c\<lparr>lc_stream := f\<rparr>) = Some (x, d)"
  shows "lc_unread d < lc_unread c" and "unread (discard_input (lc_stream d)) < lc_unread c"
proof -
  have "unread f < lc_unread c" using filter_read_unread(2) [OF assms(1,2)] by (simp add: lc_unread_def)
  moreover have "lc_unread d \<le> unread f" using parse_unread [OF assms(3)] by (simp add: lc_unread_def)
  ultimately show "lc_unread d < lc_unread c" by simp
  then show "unread (discard_input (lc_stream d)) < lc_unread c"
    using discard_input_unread [of "lc_stream d"] by (simp add: lc_unread_def)
qed

termination handle_data
proof (relation "measure (\<lambda>(e, c). lc_unread c)", goal_cases)
  case (2 e c code f c1 x y d)
  then show ?case using turn_consumes(1) by simp metis
next
  case (3 e c code f c1 x y d)
  then show ?case using turn_consumes(2) by (simp add: lc_unread_def) metis
qed simp

declare handle_data.simps [simp del]

section \<open>Connecting\<close>

text \<open>
  How an attempt to connect fares: resolving the address (with the number of addresses when it succeeded)
  or creating the socket throws, or there is a stream at an address and the system answers \<open>connect\<close>. The
  message is that of the exception.
\<close>

datatype connect_try =
    NoSocket "nat option" string
  | Socket nat nat connect_answer string

definition setup_connecting :: "client_env \<Rightarrow> nat \<Rightarrow> net_client \<Rightarrow> net_client" where
  "setup_connecting e t c =
     add_handler t (Signal EV_DataSocketConnectionFailed) H_ConnectionFailed
       (add_handler t (if ce_tls e then SecureConnected else Signal EV_DataSocketConnected) H_Connected c)"

definition setup_timer :: "net_client \<Rightarrow> net_client option" where
  "setup_timer c = (if lc_timer c then None else Some (c\<lparr>lc_timer := True\<rparr>))"

definition connection_failed :: "string \<Rightarrow> net_client \<Rightarrow> net_client" where
  "connection_failed msg c =
     post_event (Post_ConnectionFailed msg) (cleanup_stream (cleanup_connecting (cleanup_timer c)))"

definition client_connect :: "client_env \<Rightarrow> connect_try \<Rightarrow> net_client \<Rightarrow> net_client option" where
  "client_connect e attempt c =
     (if lc_target c \<noteq> None then Some c
      else if lc_suspended c then Some (c\<lparr>lc_connect_on_resume := True\<rparr>)
      else case attempt of
        NoSocket n msg \<Rightarrow>
          Some (connection_failed msg (case n of None \<Rightarrow> c | Some k \<Rightarrow> c\<lparr>lc_resolved := k\<rparr>))
      | Socket n t answer msg \<Rightarrow>
          (case setup_timer (setup_connecting e t (c\<lparr>lc_resolved := n, lc_target := Some t\<rparr>)) of
             None \<Rightarrow> None
           | Some c1 \<Rightarrow>
               (case socket_connect answer new_tcp_socket of (throws, k) \<Rightarrow>
                  let c2 = c1\<lparr>lc_stream := new_packet_filter k\<rparr>
                  in Some (if throws then connection_failed msg c2 else c2))))"

definition setup_connection :: "net_client \<Rightarrow> net_client option" where
  "setup_connection c =
     (case lc_target c of
        None \<Rightarrow> None
      | Some t \<Rightarrow>
          Some (add_handler t (Signal EV_StreamOutputShutdown) H_Disconnected
            (add_handler t (Signal EV_StreamInputShutdown) H_Disconnected
            (add_handler t (Signal EV_StreamOutputError) H_OutputError
            (add_handler t (Signal EV_StreamInputReady) H_Hello
            (add_handler t (Signal EV_SocketDisconnected) H_Disconnected c))))))"

definition handle_connected :: "net_client \<Rightarrow> net_client option" where
  "handle_connected c =
     map_option (\<lambda>c1. c1\<lparr>lc_own_clipboard := map (\<lambda>i. False) kClipboards,
         lc_sent_clipboard := map (\<lambda>i. False) kClipboards, lc_time_clipboard := map (\<lambda>i. 0) kClipboards\<rparr>)
       (setup_connection (cleanup_connecting c))"

definition handle_connect_timeout :: "net_client \<Rightarrow> net_client" where
  "handle_connect_timeout c =
     post_event (Post_ConnectionFailed ''Timed out'')
       (cleanup_stream (cleanup_connection (cleanup_connecting (cleanup_timer c))))"

text \<open>\<open>handleOutputError\<close> and \<open>handleDisconnected\<close> do the same.\<close>

definition handle_disconnected :: "client_env \<Rightarrow> net_client \<Rightarrow> net_client option" where
  "handle_disconnected e c =
     map_option (\<lambda>c1. post_event Post_Disconnected (cleanup_connection c1)) (cleanup_screen e (cleanup_timer c))"

section \<open>The hello\<close>

definition kProtocolMajorVersion :: u32 where "kProtocolMajorVersion = 1"
definition kProtocolMinorVersion :: u32 where "kProtocolMinorVersion = 8"

text \<open>
  The name of a known protocol without regard to case. The name has seven bytes, so only seven ASCII
  letters can match.
\<close>

definition lower_byte :: "byte \<Rightarrow> byte" where
  "lower_byte b = (if 65 \<le> b \<and> b \<le> 90 then b + 32 else b)"

definition known_protocol :: "bytes \<Rightarrow> bool" where
  "known_protocol name \<longleftrightarrow>
     map lower_byte name = map of_char ''barrier'' \<or> map lower_byte name = map of_char ''synergy''"

definition new_server_proxy :: "client_env \<Rightarrow> server_proxy" where
  "new_server_proxy e = set_keep_alive_rate e kKeepAliveRate no_proxy"

definition setup_screen :: "client_env \<Rightarrow> net_client \<Rightarrow> net_client option" where
  "setup_screen e c =
     (case lc_target c of
        None \<Rightarrow> None
      | Some t \<Rightarrow>
          if lc_server c then None
          else Some ((add_handler t (Signal EV_StreamInputReady) H_Data c)
            \<lparr>lc_ready := False, lc_server := True, lc_proxies := Suc (lc_proxies c), lc_proxy := new_server_proxy e,
             lc_screen_handlers := True\<rparr>))"

definition handle_hello :: "client_env \<Rightarrow> net_client \<Rightarrow> net_client option" where
  "handle_hello e c =
     (case readf filter_read kMsgHello (lc_stream c) of ((args, r), f) \<Rightarrow>
        let c1 = c\<lparr>lc_stream := f\<rparr>; name = str_arg args 0 in
        if \<not> known_protocol name then
          Some (cleanup_connection (cleanup_timer
            (post_event (Post_ConnectionFailed ''got invalid hello message from server'') c1)))
        else
          (case setup_screen e (client_send (map (\<lambda>b. char_of (unat b)) name @ kMsgHelloBackArgs)
               [FA_Int kProtocolMajorVersion, FA_Int kProtocolMinorVersion, FA_Str (lc_name c1)] c1) of
             None \<Rightarrow> None
           | Some c2 \<Rightarrow>
               let c3 = cleanup_timer c2
               in Some (if is_ready_no_lock (lc_stream c3)
                        then post_event (Post_InputReady (the (lc_target c3))) c3 else c3)))"

section \<open>Local events\<close>

definition client_shape_changed :: "client_env \<Rightarrow> net_client \<Rightarrow> net_client option" where
  "client_shape_changed e c = (if lc_server c then Some (on_info_changed e c) else None)"

definition client_clipboard_grabbed :: "client_env \<Rightarrow> nat \<Rightarrow> net_client \<Rightarrow> net_client option" where
  "client_clipboard_grabbed e i c =
     (if \<not> lc_enable_clipboard c \<or> lc_max_clipboard c = 0 then Some c
      else if \<not> lc_server c \<or> i \<notin> set kClipboards then None
      else
        let c1 = on_grab_clipboard i c;
            c2 = c1\<lparr>lc_own_clipboard := (lc_own_clipboard c1)[i := True],
                    lc_sent_clipboard := (lc_sent_clipboard c1)[i := False],
                    lc_time_clipboard := (lc_time_clipboard c1)[i := 0]\<rparr>
        in if \<not> lc_active c2 then client_send_clipboard e i c2 else Some c2)"

definition handle_suspend :: "client_env \<Rightarrow> net_client \<Rightarrow> net_client option" where
  "handle_suspend e c =
     (if lc_suspended c then Some c
      else map_option (\<lambda>c1. c1\<lparr>lc_connect_on_resume := lc_server c\<rparr>)
             (client_disconnect e None (c\<lparr>lc_suspended := True\<rparr>)))"

definition handle_resume :: "client_env \<Rightarrow> connect_try \<Rightarrow> net_client \<Rightarrow> net_client option" where
  "handle_resume e attempt c =
     (if \<not> lc_suspended c then Some c
      else
        let c1 = c\<lparr>lc_suspended := False\<rparr>
        in if lc_connect_on_resume c1 then client_connect e attempt (c1\<lparr>lc_connect_on_resume := False\<rparr>) else Some c1)"

text \<open>
  A chunk event goes to the proxy that posted it. Its handler is never removed, so a chunk of a deleted
  proxy reaches freed memory.
\<close>

definition handle_clipboard_sending :: "nat \<Rightarrow> bytes \<Rightarrow> net_client \<Rightarrow> net_client option" where
  "handle_clipboard_sending n chunk c =
     (if n = 0 \<or> n > lc_proxies c then Some c
      else if lc_server c \<and> n = lc_proxies c then
        (case chunk_send chunk of
           None \<Rightarrow> None
         | Some msg \<Rightarrow> Some (c\<lparr>lc_stream := filter_write msg (lc_stream c)\<rparr>))
      else None)"

section \<open>Runs\<close>

text \<open>
  Bytes arrive in the socket, the filter handles an event of the socket, or a handler registered for a
  signal of a stream runs; a signal nobody handles changes nothing.
\<close>

datatype client_event =
    CE_Connect connect_try
  | CE_Disconnect "string option"
  | CE_Arrive "nat \<Rightarrow> read_answer"
  | CE_Filter stream_event
  | CE_Signal nat stream_signal string
  | CE_ConnectTimer
  | CE_KeepAliveAlarm
  | CE_ShapeChanged
  | CE_ClipboardGrabbed nat
  | CE_ClipboardSending nat bytes
  | CE_Suspend
  | CE_Resume connect_try

fun run_handler :: "client_env \<Rightarrow> client_handler \<Rightarrow> string \<Rightarrow> net_client \<Rightarrow> net_client option" where
  "run_handler e H_Connected msg c = handle_connected c"
| "run_handler e H_ConnectionFailed msg c = Some (connection_failed msg c)"
| "run_handler e H_Disconnected msg c = handle_disconnected e c"
| "run_handler e H_OutputError msg c = handle_disconnected e c"
| "run_handler e H_Hello msg c = handle_hello e c"
| "run_handler e H_Data msg c = handle_data e c"

fun client_step :: "client_env \<Rightarrow> client_event \<Rightarrow> net_client \<Rightarrow> net_client option" where
  "client_step e (CE_Connect attempt) c = client_connect e attempt c"
| "client_step e (CE_Disconnect msg) c = client_disconnect e msg c"
| "client_step e (CE_Arrive answers) c =
     Some (if lc_target c = None then c else c\<lparr>lc_stream := packet_arrive answers (lc_stream c)\<rparr>)"
| "client_step e (CE_Filter ev) c =
     Some (if lc_target c = None then c else c\<lparr>lc_stream := filter_event ev (lc_stream c)\<rparr>)"
| "client_step e (CE_Signal t g msg) c =
     (case lc_handlers c t g of None \<Rightarrow> Some c | Some h \<Rightarrow> run_handler e h msg c)"
| "client_step e CE_ConnectTimer c = Some (if lc_timer c then handle_connect_timeout c else c)"
| "client_step e CE_KeepAliveAlarm c =
     (if lc_server c \<and> sp_alarm_timer (lc_proxy c)
      then client_disconnect e (Some ''server is not responding'') c else Some c)"
| "client_step e CE_ShapeChanged c = (if lc_screen_handlers c then client_shape_changed e c else Some c)"
| "client_step e (CE_ClipboardGrabbed i) c =
     (if lc_screen_handlers c then client_clipboard_grabbed e i c else Some c)"
| "client_step e (CE_ClipboardSending n chunk) c = handle_clipboard_sending n chunk c"
| "client_step e CE_Suspend c = handle_suspend e c"
| "client_step e (CE_Resume attempt) c = handle_resume e attempt c"

fun client_run :: "client_env \<Rightarrow> client_event list \<Rightarrow> net_client \<Rightarrow> net_client option" where
  "client_run e [] c = Some c"
| "client_run e (ev # evs) c = Option.bind (client_step e ev c) (client_run e evs)"

section \<open>Phases\<close>

text \<open>
  The life of a connection without TLS: the handlers in the event queue, the connect timer, the proxy and the
  screen are at every moment those of one phase.
\<close>

datatype client_phase = Idle | Connecting | Greeting | Session

definition session_handlers :: "client_handler \<Rightarrow> stream_signal \<Rightarrow> client_handler option" where
  "session_handlers input g =
     (if g = Signal EV_StreamInputReady then Some input
      else if g = Signal EV_StreamOutputError then Some H_OutputError
      else if g = Signal EV_StreamInputShutdown \<or> g = Signal EV_StreamOutputShutdown \<or> g = Signal EV_SocketDisconnected
      then Some H_Disconnected
      else None)"

fun phase_handlers :: "client_phase \<Rightarrow> stream_signal \<Rightarrow> client_handler option" where
  "phase_handlers Idle g = None"
| "phase_handlers Connecting g =
     (if g = Signal EV_DataSocketConnected then Some H_Connected
      else if g = Signal EV_DataSocketConnectionFailed then Some H_ConnectionFailed
      else None)"
| "phase_handlers Greeting g = session_handlers H_Hello g"
| "phase_handlers Session g = session_handlers H_Data g"

definition in_phase :: "client_phase \<Rightarrow> net_client \<Rightarrow> bool" where
  "in_phase ph c \<longleftrightarrow>
     (lc_target c = None \<longleftrightarrow> ph = Idle) \<and>
     lc_handlers c = (\<lambda>t g. if lc_target c = Some t then phase_handlers ph g else None) \<and>
     (lc_timer c \<longleftrightarrow> ph = Connecting \<or> ph = Greeting) \<and>
     (lc_server c \<longleftrightarrow> ph = Session) \<and> (lc_screen_handlers c \<longleftrightarrow> ph = Session) \<and>
     (lc_ready c \<longrightarrow> ph = Session) \<and> (ls_enabled (lc_screen c) \<longleftrightarrow> lc_ready c) \<and> \<not> ls_primary (lc_screen c) \<and>
     (ph = Session \<longrightarrow> sp_handshake (lc_proxy c) \<noteq> lc_ready c) \<and>
     (lc_suspended c \<longrightarrow> ph = Idle) \<and> (lc_connect_on_resume c \<longrightarrow> lc_suspended c)"

lemma steady_phase: "in_phase ph c \<Longrightarrow> steady c d \<Longrightarrow> in_phase ph d"
  by (simp add: in_phase_def steady_def)

lemma phase_stream [simp]: "in_phase ph (c\<lparr>lc_stream := f\<rparr>) = in_phase ph c"
  by (simp add: in_phase_def)

lemma phase_post [simp]: "in_phase ph (post_event p c) = in_phase ph c"
  by (simp add: in_phase_def post_event_def)

lemma screen_switches:
  "screen_enable s = Some s' \<Longrightarrow> ls_enabled s' \<and> ls_primary s' = ls_primary s"
  "screen_disable pl s = Some s' \<Longrightarrow> \<not> ls_enabled s' \<and> ls_primary s' = ls_primary s"
proof -
  have "ls_primary (fold screen_grab_clipboard is x) = ls_primary x" for "is" x
    by (induction "is" arbitrary: x) (simp_all add: screen_grab_clipboard_def)
  then show "screen_enable s = Some s' \<Longrightarrow> ls_enabled s' \<and> ls_primary s' = ls_primary s"
    by (auto simp: screen_enable_def enable_primary_def enable_secondary_def Let_def split: if_splits)
  show "screen_disable pl s = Some s' \<Longrightarrow> \<not> ls_enabled s' \<and> ls_primary s' = ls_primary s"
    by (auto simp: screen_disable_def screen_enter_def Let_def split: if_splits)
qed

text \<open>Whatever the phase, the cleanups leave nothing behind.\<close>

lemma cleanup_timer_fields [simp]:
  "lc_target (cleanup_timer c) = lc_target c" "\<not> lc_timer (cleanup_timer c)"
  "lc_server (cleanup_timer c) = lc_server c" "lc_screen_handlers (cleanup_timer c) = lc_screen_handlers c"
  "lc_ready (cleanup_timer c) = lc_ready c" "lc_screen (cleanup_timer c) = lc_screen c"
  "lc_suspended (cleanup_timer c) = lc_suspended c" "lc_handlers (cleanup_timer c) = lc_handlers c"
  "lc_connect_on_resume (cleanup_timer c) = lc_connect_on_resume c"
  by (simp_all add: cleanup_timer_def)

lemma cleanup_screen_phase:
  assumes "in_phase ph c" and "cleanup_screen e (cleanup_timer c) = Some d"
  shows "lc_target d = lc_target c \<and> \<not> lc_timer d \<and> \<not> lc_server d \<and> \<not> lc_screen_handlers d \<and> \<not> lc_ready d \<and>
    \<not> ls_enabled (lc_screen d) \<and> \<not> ls_primary (lc_screen d) \<and> lc_suspended d = lc_suspended c \<and>
    lc_connect_on_resume d = lc_connect_on_resume c \<and>
    lc_handlers d = (\<lambda>t g. if ph = Session \<and> lc_target c = Some t \<and> g = Signal EV_StreamInputReady then None
      else lc_handlers c t g)"
proof (cases "lc_server c")
  case False
  then have "d = cleanup_timer c" "ph \<noteq> Session" "\<not> lc_ready c"
    using assms by (auto simp: cleanup_screen_def cleanup_timer_def in_phase_def)
  then show ?thesis using assms(1) False by (simp add: in_phase_def cleanup_timer_def)
next
  case True
  let ?c = "cleanup_timer c"
  obtain s where s: "(if lc_ready c then map_option (\<lambda>s. (set_screen ?c s)\<lparr>lc_ready := False\<rparr>)
      (screen_disable (ce_platform e) (lc_screen ?c)) else Some ?c) = Some s"
      "d = delete_proxy (s\<lparr>lc_screen_handlers := False\<rparr>)"
    using assms(2) True by (auto simp: cleanup_screen_def split: option.splits)
  then show ?thesis
    using assms(1) True
    by (auto simp: in_phase_def delete_proxy_def on_proxy_def remove_handler_def Let_def
        set_screen_def fun_eq_iff split: if_splits option.splits dest!: screen_switches)
       blast+
qed

lemma cleanup_connection_handlers:
  assumes "lc_target c = Some t"
  shows "lc_handlers (cleanup_connection c) = (lc_handlers c)(t := \<lambda>g. if g = Signal EV_StreamInputReady \<or>
      g = Signal EV_StreamOutputError \<or> g = Signal EV_StreamInputShutdown \<or> g = Signal EV_StreamOutputShutdown \<or>
      g = Signal EV_SocketDisconnected then None else lc_handlers c t g)"
  using assms by (simp add: cleanup_connection_def cleanup_stream_def remove_handler_def fun_eq_iff)

lemma cleanup_connection_fields [simp]:
  "lc_target (cleanup_connection c) = None" "lc_timer (cleanup_connection c) = lc_timer c"
  "lc_server (cleanup_connection c) = lc_server c" "lc_screen_handlers (cleanup_connection c) = lc_screen_handlers c"
  "lc_ready (cleanup_connection c) = lc_ready c" "lc_screen (cleanup_connection c) = lc_screen c"
  "lc_suspended (cleanup_connection c) = lc_suspended c"
  "lc_connect_on_resume (cleanup_connection c) = lc_connect_on_resume c"
  by (simp_all add: cleanup_connection_def cleanup_stream_def remove_handler_def split: option.split)

lemma cleanup_connecting_fields [simp]:
  "lc_target (cleanup_connecting c) = lc_target c" "lc_timer (cleanup_connecting c) = lc_timer c"
  "lc_server (cleanup_connecting c) = lc_server c" "lc_screen_handlers (cleanup_connecting c) = lc_screen_handlers c"
  "lc_ready (cleanup_connecting c) = lc_ready c" "lc_screen (cleanup_connecting c) = lc_screen c"
  "lc_suspended (cleanup_connecting c) = lc_suspended c" "lc_proxy (cleanup_connecting c) = lc_proxy c"
  "lc_connect_on_resume (cleanup_connecting c) = lc_connect_on_resume c"
  by (simp_all add: cleanup_connecting_def remove_handler_def split: option.split)

lemma cleanup_connecting_handlers:
  "lc_target c = Some t \<Longrightarrow> lc_handlers (cleanup_connecting c) = (lc_handlers c)(t := \<lambda>g.
      if g = Signal EV_DataSocketConnected \<or> g = Signal EV_DataSocketConnectionFailed then None else lc_handlers c t g)"
  by (simp add: cleanup_connecting_def remove_handler_def fun_eq_iff)

lemma cleanup_none: "lc_target c = None \<Longrightarrow> cleanup_connecting c = c \<and> cleanup_connection c = c"
  by (simp add: cleanup_connecting_def cleanup_connection_def)

lemmas phase_handler_defs = phase_handlers.simps session_handlers_def

text \<open>After the screen is cleaned up, the connection cleanups remove the handlers of every phase.\<close>

definition only_handlers :: "client_phase \<Rightarrow> nat option \<Rightarrow> net_client \<Rightarrow> bool" where
  "only_handlers ph t c \<longleftrightarrow>
     (\<forall>u g. lc_handlers c u g \<noteq> None \<longrightarrow> t = Some u \<and> phase_handlers ph g \<noteq> None)"

lemma only_handlers_phase: "in_phase ph c \<Longrightarrow> only_handlers ph (lc_target c) c"
  by (simp add: only_handlers_def in_phase_def)

lemma handlers_gone:
  assumes "only_handlers ph (lc_target c) c"
  shows "lc_handlers (cleanup_connection (cleanup_connecting c)) = (\<lambda>t g. None)"
    and "ph \<noteq> Connecting \<Longrightarrow> lc_handlers (cleanup_connection c) = (\<lambda>t g. None)"
    and "ph = Connecting \<Longrightarrow> lc_handlers (cleanup_connecting c) = (\<lambda>t g. None)"
proof -
  have 1: "lc_handlers c u g = None" if "lc_target c \<noteq> Some u \<or> phase_handlers ph g = None" for u g
    using assms that unfolding only_handlers_def by blast
  have idle: "lc_handlers c = (\<lambda>t g. None)" if "lc_target c = None" using 1 that by auto
  show "lc_handlers (cleanup_connection (cleanup_connecting c)) = (\<lambda>t g. None)"
  proof (cases "lc_target c")
    case None
    then show ?thesis using idle by (simp add: cleanup_none)
  next
    case (Some t)
    have "g = Signal EV_StreamInputReady \<or> g = Signal EV_StreamOutputError \<or> g = Signal EV_StreamInputShutdown \<or>
        g = Signal EV_StreamOutputShutdown \<or> g = Signal EV_SocketDisconnected \<or>
        g = Signal EV_DataSocketConnected \<or> g = Signal EV_DataSocketConnectionFailed \<or> phase_handlers ph g = None" for g
      by (cases ph) (auto simp: session_handlers_def)
    then show ?thesis
      using Some 1 by (auto simp: cleanup_connection_handlers cleanup_connecting_handlers fun_eq_iff)
  qed
  show "lc_handlers (cleanup_connection c) = (\<lambda>t g. None)" if "ph \<noteq> Connecting"
  proof (cases "lc_target c")
    case None
    then show ?thesis using idle by (simp add: cleanup_none)
  next
    case (Some t)
    have "g = Signal EV_StreamInputReady \<or> g = Signal EV_StreamOutputError \<or> g = Signal EV_StreamInputShutdown \<or>
        g = Signal EV_StreamOutputShutdown \<or> g = Signal EV_SocketDisconnected \<or> phase_handlers ph g = None" for g
      using that by (cases ph) (auto simp: session_handlers_def)
    then show ?thesis using Some 1 by (auto simp: cleanup_connection_handlers fun_eq_iff)
  qed
  show "lc_handlers (cleanup_connecting c) = (\<lambda>t g. None)" if "ph = Connecting"
  proof (cases "lc_target c")
    case None
    then show ?thesis using idle by (simp add: cleanup_none)
  next
    case (Some t)
    then show ?thesis using 1 that by (auto simp: cleanup_connecting_handlers fun_eq_iff)
  qed
qed

lemma cleanup_screen_defined: "in_phase ph c \<Longrightarrow> cleanup_screen e (cleanup_timer c) \<noteq> None"
  by (auto simp: cleanup_screen_def cleanup_timer_def in_phase_def screen_disable_def Let_def split: option.split)

lemma cleanup_screen_only:
  assumes "in_phase ph c" and "cleanup_screen e (cleanup_timer c) = Some d"
  shows "only_handlers ph (lc_target d) d"
  using cleanup_screen_phase [OF assms] only_handlers_phase [OF assms(1)] by (auto simp: only_handlers_def)

lemma idle_phase:
  "lc_target d = None \<Longrightarrow> lc_handlers d = (\<lambda>t g. None) \<Longrightarrow> \<not> lc_timer d \<Longrightarrow> \<not> lc_server d \<Longrightarrow> \<not> lc_screen_handlers d \<Longrightarrow>
   \<not> lc_ready d \<Longrightarrow> \<not> ls_enabled (lc_screen d) \<Longrightarrow> \<not> ls_primary (lc_screen d) \<Longrightarrow>
   (lc_connect_on_resume d \<longrightarrow> lc_suspended d) \<Longrightarrow> in_phase Idle d"
  by (simp add: in_phase_def)

text \<open>
  A cleanup may start from a client that is already marked as suspended; \<open>in_phase\<close> speaks of the client
  before that.
\<close>

definition almost :: "client_phase \<Rightarrow> net_client \<Rightarrow> bool" where
  "almost ph c \<longleftrightarrow> (\<exists>b. in_phase ph (c\<lparr>lc_suspended := b\<rparr>))"

lemma almost_phase: "in_phase ph c \<Longrightarrow> almost ph c"
  by (auto simp: almost_def intro!: exI [of _ "lc_suspended c"])

lemma client_cleanup_phase:
  assumes "almost ph c"
  shows "\<exists>d. client_cleanup e c = Some d \<and> in_phase Idle d \<and> lc_suspended d = lc_suspended c"
proof -
  let ?c = "c\<lparr>lc_connect_on_resume := False\<rparr>"
  obtain b where b: "in_phase ph (?c\<lparr>lc_suspended := b\<rparr>)"
    using assms by (auto simp: almost_def in_phase_def)
  let ?b = "?c\<lparr>lc_suspended := b\<rparr>"
  have same: "cleanup_screen e (cleanup_timer ?c) =
      map_option (\<lambda>d. d\<lparr>lc_suspended := lc_suspended c\<rparr>) (cleanup_screen e (cleanup_timer ?b))"
    by (auto simp: cleanup_screen_def cleanup_timer_def delete_proxy_def on_proxy_def remove_handler_def
        set_screen_def Let_def split: option.split)
  obtain d0 where d0: "cleanup_screen e (cleanup_timer ?b) = Some d0" using cleanup_screen_defined [OF b] by blast
  let ?d = "d0\<lparr>lc_suspended := lc_suspended c\<rparr>"
  note facts = cleanup_screen_phase [OF b d0] and only = cleanup_screen_only [OF b d0]
  have "only_handlers ph (lc_target ?d) ?d" using only by (simp add: only_handlers_def)
  then have "in_phase Idle (cleanup_connection (cleanup_connecting ?d))"
    using facts handlers_gone(1) by (intro idle_phase) simp_all
  then show ?thesis using same d0 by (simp add: client_cleanup_def)
qed

lemma client_disconnect_phase:
  "almost ph c \<Longrightarrow> \<exists>d. client_disconnect e msg c = Some d \<and> in_phase Idle d \<and> lc_suspended d = lc_suspended c"
  using client_cleanup_phase [of ph c e] by (auto simp: client_disconnect_def post_event_def in_phase_def)

lemma refuse_connection_phase: "in_phase ph c \<Longrightarrow> refuse_connection e msg c = Some d \<Longrightarrow> in_phase Idle d"
  using client_cleanup_phase [OF almost_phase, of ph c e] by (auto simp: refuse_connection_def)

lemma handle_disconnected_phase:
  assumes "in_phase ph c" and "ph \<noteq> Connecting"
  shows "\<exists>d. handle_disconnected e c = Some d \<and> in_phase Idle d"
proof -
  obtain d where d: "cleanup_screen e (cleanup_timer c) = Some d" using cleanup_screen_defined [OF assms(1)] by blast
  note facts = cleanup_screen_phase [OF assms(1) d] and only = cleanup_screen_only [OF assms(1) d]
  have "lc_connect_on_resume c \<longrightarrow> lc_suspended c" using assms(1) by (simp add: in_phase_def)
  then have "in_phase Idle (cleanup_connection d)"
    using facts handlers_gone(2) [OF only assms(2)] by (intro idle_phase) simp_all
  then show ?thesis using d by (simp add: handle_disconnected_def)
qed

lemma connection_failed_phase:
  assumes "in_phase Connecting c"
  shows "in_phase Idle (connection_failed msg c)"
proof -
  let ?d = "cleanup_timer c"
  have "only_handlers Connecting (lc_target ?d) ?d"
    using only_handlers_phase [OF assms] by (simp add: only_handlers_def cleanup_timer_def)
  from handlers_gone(3) [OF this refl] have "in_phase Idle (cleanup_stream (cleanup_connecting ?d))"
    using assms by (intro idle_phase) (auto simp: cleanup_stream_def in_phase_def)
  then show ?thesis by (simp add: connection_failed_def)
qed

section \<open>Every handler moves to a phase\<close>

lemma phase_handlers_of: "in_phase ph c \<Longrightarrow> lc_handlers c t g = Some h \<Longrightarrow> lc_target c = Some t \<and> phase_handlers ph g = Some h"
  by (auto simp: in_phase_def split: if_splits)

lemma handler_phase:
  "phase_handlers ph g = Some h \<Longrightarrow>
   (h = H_Connected \<longrightarrow> ph = Connecting) \<and> (h = H_ConnectionFailed \<longrightarrow> ph = Connecting) \<and>
   (h = H_Hello \<longrightarrow> ph = Greeting) \<and> (h = H_Data \<longrightarrow> ph = Session) \<and>
   (h = H_Disconnected \<longrightarrow> ph \<noteq> Connecting) \<and> (h = H_OutputError \<longrightarrow> ph \<noteq> Connecting)"
  by (cases ph) (auto simp: session_handlers_def split: if_splits)

lemma handle_connected_phase:
  assumes "in_phase Connecting c"
  shows "\<exists>d. handle_connected c = Some d \<and> in_phase Greeting d"
proof -
  obtain t where "lc_target c = Some t" using assms by (auto simp: in_phase_def)
  then show ?thesis
    using assms by (auto simp: handle_connected_def setup_connection_def in_phase_def add_handler_def fun_eq_iff
        cleanup_connecting_handlers session_handlers_def)
qed

lemma handle_connect_timeout_phase:
  assumes "in_phase ph c" and "lc_timer c"
  shows "in_phase Idle (handle_connect_timeout c)"
proof -
  have "only_handlers ph (lc_target (cleanup_timer c)) (cleanup_timer c)"
    using only_handlers_phase [OF assms(1)] by (simp add: only_handlers_def)
  from handlers_gone(1) [OF this] have "in_phase Idle (cleanup_stream (cleanup_connection (cleanup_connecting (cleanup_timer c))))"
    using assms by (intro idle_phase) (auto simp: cleanup_stream_def in_phase_def)
  then show ?thesis by (simp add: handle_connect_timeout_def)
qed

lemma client_connect_phase:
  assumes "in_phase ph c" and "\<not> ce_tls e"
  shows "\<exists>d ph. client_connect e attempt c = Some d \<and> in_phase ph d"
proof (cases "lc_target c \<noteq> None \<or> lc_suspended c")
  case True
  then show ?thesis using assms(1) by (auto simp: client_connect_def in_phase_def)
next
  case False
  then have idle: "in_phase Idle c" and handlers: "lc_handlers c = (\<lambda>t g. None)"
    using assms(1) by (auto simp: in_phase_def)
  show ?thesis
  proof (cases attempt)
    case (NoSocket n msg)
    have "in_phase Idle (cleanup_stream (cleanup_connecting (cleanup_timer
        (case n of None \<Rightarrow> c | Some k \<Rightarrow> c\<lparr>lc_resolved := k\<rparr>))))"
      using idle by (cases n) (simp_all add: cleanup_stream_def cleanup_connecting_def in_phase_def cleanup_timer_def)
    then have "in_phase Idle (connection_failed msg (case n of None \<Rightarrow> c | Some k \<Rightarrow> c\<lparr>lc_resolved := k\<rparr>))"
      by (simp add: connection_failed_def)
    then show ?thesis using False NoSocket by (auto simp: client_connect_def)
  next
    case (Socket n t answer msg)
    obtain throws k where k: "socket_connect answer new_tcp_socket = (throws, k)" by fastforce
    let ?c = "(setup_connecting e t (c\<lparr>lc_resolved := n, lc_target := Some t\<rparr>))\<lparr>lc_timer := True,
      lc_stream := new_packet_filter k\<rparr>"
    have "in_phase Connecting ?c"
      using idle handlers assms(2) False
      by (auto simp: in_phase_def setup_connecting_def add_handler_def fun_eq_iff)
    moreover have "client_connect e attempt c = Some (if throws then connection_failed msg ?c else ?c)"
      using False idle Socket k
      by (simp add: client_connect_def setup_timer_def setup_connecting_def add_handler_def in_phase_def)
    ultimately show ?thesis using connection_failed_phase [of ?c msg] by (cases throws) auto
  qed
qed

lemma send_message_phase [simp]: "in_phase ph (client_send fmt args c) = in_phase ph c"
  by (simp add: client_send_def split: option.split)

lemma handle_hello_phase:
  assumes "in_phase Greeting c"
  shows "\<exists>d ph. handle_hello e c = Some d \<and> in_phase ph d"
proof -
  obtain args r f where r: "readf filter_read kMsgHello (lc_stream c) = ((args, r), f)" by (metis surj_pair)
  let ?c = "c\<lparr>lc_stream := f\<rparr>" and ?name = "str_arg args 0"
  show ?thesis
  proof (cases "known_protocol ?name")
    case False
    let ?d = "post_event (Post_ConnectionFailed ''got invalid hello message from server'') ?c"
    have ph: "in_phase Greeting ?d" using assms by simp
    have "only_handlers Greeting (lc_target (cleanup_timer ?d)) (cleanup_timer ?d)"
      using only_handlers_phase [OF ph] by (simp add: only_handlers_def)
    from handlers_gone(2) [OF this] have "in_phase Idle (cleanup_connection (cleanup_timer ?d))"
      using ph by (intro idle_phase) (auto simp: in_phase_def)
    then show ?thesis using False r by (auto simp: handle_hello_def Let_def)
  next
    case True
    let ?d = "client_send (map (\<lambda>b. char_of (unat b)) ?name @ kMsgHelloBackArgs)
       [FA_Int kProtocolMajorVersion, FA_Int kProtocolMinorVersion, FA_Str (lc_name ?c)] ?c"
    have ph: "in_phase Greeting ?d" using assms by simp
    then obtain t where t: "lc_target ?d = Some t" by (auto simp: in_phase_def)
    obtain d1 where d1: "setup_screen e ?d = Some d1" "in_phase Session (cleanup_timer d1)"
      using ph t by (auto simp: setup_screen_def in_phase_def add_handler_def fun_eq_iff session_handlers_def
          new_server_proxy_def no_proxy_def cleanup_timer_def)
    then show ?thesis using True r unfolding handle_hello_def by (auto simp: Let_def)
  qed
qed

lemma handshake_phase:
  assumes "in_phase Session c" and "handshake_complete (on_proxy (\<lambda>p. p\<lparr>sp_handshake := False\<rparr>) c) = Some d"
  shows "in_phase Session d"
proof -
  obtain s where s: "screen_enable (lc_screen c) = Some s"
      "d = post_event Post_Connected (set_screen ((on_proxy (\<lambda>p. p\<lparr>sp_handshake := False\<rparr>) c)\<lparr>lc_ready := True\<rparr>) s)"
    using assms(2) by (auto simp: handshake_complete_def on_proxy_def)
  show ?thesis
    using assms(1) screen_switches(1) [OF s(1)] unfolding s(2) phase_post
    by (auto simp: in_phase_def set_screen_def on_proxy_def)
qed

text \<open>What one message of a session may lead to.\<close>

definition moves_on :: "net_client \<Rightarrow> handled \<Rightarrow> bool" where
  "moves_on c r \<longleftrightarrow> (\<forall>x d. r = Some (x, d) \<longrightarrow> in_phase (if x = CR_Disconnect then Idle else Session) d)"

definition stays :: "handled \<Rightarrow> bool" where
  "stays r \<longleftrightarrow> (\<forall>d. r \<noteq> Some (CR_Disconnect, d))"

lemma settles_moves_on:
  assumes "in_phase Session c" and "settles c r" and "stays r"
  shows "moves_on c r"
  using assms steady_phase [OF assms(1)] by (auto simp: moves_on_def settles_def stays_def)

lemma stays_simps [simp]: "stays (okay c)" "stays (okay_if r)" "stays None" "stays (Some (CR_BadMessage, c))"
  by (auto simp: stays_def okay_def okay_if_def)

lemma stays_receive: "(\<And>args c1. stays (k args c1)) \<Longrightarrow> stays (receive fmt c k)"
  by (auto simp: stays_def receive_def split: prod.split readf_result.split)

lemma stays_flushed: "(\<And>c1. stays (k c1)) \<Longrightarrow> stays (flushed c k)"
  by (cases "flush_compressed_mouse c") (simp_all add: flushed_def)

lemma stays_translated: "(\<And>key2 m2. stays (k key2 m2)) \<Longrightarrow> stays (translated key m c k)"
  by (auto simp: translated_def split: option.split)

lemma handlers_stay:
  "stays (sp_mouse_move c)" "stays (sp_mouse_relative_move c)" "stays (sp_mouse_wheel c)" "stays (sp_mouse_down c)"
  "stays (sp_mouse_up c)" "stays (recv_key_down e c)" "stays (recv_key_down_lang e c)" "stays (sp_key_repeat c)"
  "stays (sp_key_up c)" "stays (sp_enter c)" "stays (sp_leave e c)" "stays (sp_grab_clipboard c)"
  "stays (sp_screensaver c)" "stays (sp_reset_options e c)" "stays (set_server_languages c)"
  "stays (sp_set_options e c)" "stays (sp_set_clipboard e c)"
  unfolding sp_mouse_move_def sp_mouse_relative_move_def sp_mouse_wheel_def sp_mouse_down_def sp_mouse_up_def
    recv_key_down_def recv_key_down_lang_def sp_key_down_def sp_key_repeat_def sp_key_up_def sp_enter_def sp_leave_def
    sp_grab_clipboard_def sp_screensaver_def sp_reset_options_def set_server_languages_def sp_set_options_def
    sp_set_clipboard_def Let_def
  by (auto intro!: stays_receive stays_flushed stays_translated
      split: list.split fmt_arg.split option.split prod.split bool.split clip_outcome.split)

lemma disconnected_moves_on:
  assumes "in_phase Session c"
  shows "moves_on c (disconnected (client_disconnect e m c))" "moves_on c (disconnected (refuse_connection e n c))"
    "moves_on c (receive fmt c (\<lambda>args c1. disconnected (refuse_connection e n c1)))"
proof -
  show "moves_on c (disconnected (client_disconnect e m c))"
    using client_disconnect_phase [OF almost_phase [OF assms], of e m] by (auto simp: moves_on_def disconnected_def)
  have refuse: "in_phase Idle d" if "refuse_connection e n (c\<lparr>lc_stream := f\<rparr>) = Some d" for f d
    using refuse_connection_phase [OF _ that] assms by simp
  show "moves_on c (disconnected (refuse_connection e n c))"
    using refuse_connection_phase [OF assms] by (auto simp: moves_on_def disconnected_def)
  show "moves_on c (receive fmt c (\<lambda>args c1. disconnected (refuse_connection e n c1)))"
    using assms refuse
    by (auto simp: moves_on_def receive_def disconnected_def split: prod.splits readf_result.splits)
qed

lemma parse_handshake_moves_on:
  assumes ph: "in_phase Session c"
  shows "moves_on c (parse_handshake e code c)"
proof -
  have opts: "moves_on c (case sp_set_options e c of
       Some (CR_Okay, c1) \<Rightarrow> okay_if (handshake_complete (on_proxy (\<lambda>p. p\<lparr>sp_handshake := False\<rparr>) c1))
     | r \<Rightarrow> r)"
  proof (cases "\<exists>c1. sp_set_options e c = Some (CR_Okay, c1)")
    case True
    then obtain c1 where c1: "sp_set_options e c = Some (CR_Okay, c1)" by blast
    then have "in_phase Session c1"
      using steady_phase [OF ph] sp_set_options_settles [of c e] by (simp add: settles_def)
    then show ?thesis using c1 handshake_phase by (auto simp: moves_on_def okay_if_def)
  next
    case False
    then have "(case sp_set_options e c of
        Some (CR_Okay, c1) \<Rightarrow> okay_if (handshake_complete (on_proxy (\<lambda>p. p\<lparr>sp_handshake := False\<rparr>) c1))
      | r \<Rightarrow> r) = sp_set_options e c"
      by (auto split: option.split conn_result.split)
    then show ?thesis
      using settles_moves_on [OF ph sp_set_options_settles handlers_stay(16)] by metis
  qed
  have okays: "moves_on c (okay d)" if "steady c d" for d
    using settles_moves_on [OF ph settles_okay [OF that]] by simp
  have control: "moves_on c (sp_reset_options e c)" "moves_on c (set_server_languages c)"
    "moves_on c (Some (CR_Unknown, c))"
    using settles_moves_on [OF ph] sp_control_settles(5,6) [of c] unknown_settles handlers_stay(14,15)
    by (auto simp: stays_def [of "Some (CR_Unknown, c)"])
  show ?thesis
    unfolding parse_handshake_def
    by (intro if_branches [where Q = "moves_on c"] opts disconnected_moves_on [OF ph] control okays steady_simple
        steady_refl)
qed

lemma parse_input_stays: "stays (parse_input e code c)"
proof -
  have "stays (Some (CR_Unknown, c))" by (simp add: stays_def)
  then show ?thesis unfolding parse_input_def by (intro if_branches [where Q = stays] handlers_stay)
qed

lemma parse_control_stays: "stays (parse_control e code c) \<or> (\<exists>m. parse_control e code c = disconnected (client_disconnect e m c))"
proof -
  have "stays (Some (CR_Unknown, c))" "stays (receive fmt c (\<lambda>args c1. okay c1))" for fmt
    by (simp add: stays_def) (rule stays_receive, simp)
  then show ?thesis
    unfolding parse_control_def
    by (intro if_branches [where Q = "\<lambda>r. stays r \<or> (\<exists>m. r = disconnected (client_disconnect e m c))"])
       (blast intro: handlers_stay stays_simps)+
qed

lemma parse_message_moves_on:
  assumes "in_phase Session c"
  shows "moves_on c (parse_message e code c)"
  unfolding moves_on_def
proof (intro allI impI)
  fix x d assume p: "parse_message e code c = Some (x, d)"
  show "in_phase (if x = CR_Disconnect then Idle else Session) d"
  proof (cases "x = CR_Disconnect")
    case False
    then have "steady c d" using parse_message_cases [OF p] by auto
    then show ?thesis using False steady_phase [OF assms] by simp
  next
    case True
    obtain c1 where c1: "parse_input e code c = Some (CR_Unknown, c1)" "parse_control e code c1 = Some (CR_Disconnect, d)"
      using p True parse_input_stays [of e code c]
      by (auto simp: stays_def parse_message_def okay_def split: option.splits prod.splits conn_result.splits)
    have ph: "in_phase Session c1"
      using steady_phase [OF assms] parse_input_settles [of c e code] c1(1) by (simp add: settles_def)
    obtain m where "client_disconnect e m c1 = Some d"
      using parse_control_stays [of e code c1] c1(2)
      by (auto simp: stays_def disconnected_def eq_commute [of "Some (CR_Disconnect, d)"])
    then show ?thesis using True client_disconnect_phase [OF almost_phase [OF ph], of e m] by auto
  qed
qed

lemma handle_data_phase:
  "in_phase Session c \<Longrightarrow> handle_data e c = Some d \<Longrightarrow> in_phase Session d \<or> in_phase Idle d"
proof (induction e c rule: handle_data.induct)
  case (1 e c)
  obtain code f where f: "filter_read 4 (lc_stream c) = (code, f)" by fastforce
  let ?c = "c\<lparr>lc_stream := f\<rparr>"
  have ph: "in_phase Session ?c" using "1.prems"(1) by simp
  have away: "in_phase Idle d" if "client_disconnect e m c1 = Some d" "in_phase Session c1" for m c1
    using client_disconnect_phase [OF almost_phase [OF that(2)], of e m] that(1) by auto
  consider "code = []" | "code \<noteq> []" "length code \<noteq> 4" | "code \<noteq> []" "length code = 4" by blast
  then show ?case
  proof cases
    case 1
    then have "flush_compressed_mouse ?c = Some d" using "1.prems"(2) f by (simp add: handle_data.simps)
    then show ?thesis using steady_phase [OF ph] steady_flush [OF steady_refl] by blast
  next
    case 2
    then show ?thesis using "1.prems"(2) f away [OF _ ph] by (simp add: handle_data.simps)
  next
    case 3
    obtain x c2 where x: "parse e code ?c = Some (x, c2)"
      using "1.prems"(2) f 3 by (subst (asm) handle_data.simps) (auto split: option.splits)
    have "moves_on ?c (parse e code ?c)"
      using parse_handshake_moves_on [OF ph] parse_message_moves_on [OF ph] by (simp add: parse_def)
    then have ph2: "in_phase (if x = CR_Disconnect then Idle else Session) c2" using x by (simp add: moves_on_def)
    note step = "1.IH" [OF f [symmetric] refl 3(1) _ x refl]
    show ?thesis
    proof (cases x)
      case CR_Okay
      then show ?thesis using "1.prems"(2) f 3 x ph2 step(1) by (subst (asm) handle_data.simps) simp
    next
      case CR_Unknown
      then show ?thesis using "1.prems"(2) f 3 x ph2 step(2) by (subst (asm) handle_data.simps) simp
    next
      case CR_Disconnect
      then show ?thesis using "1.prems"(2) f 3 x ph2 by (subst (asm) handle_data.simps) simp
    next
      case CR_BadMessage
      then show ?thesis using "1.prems"(2) f 3 x ph2 away by (subst (asm) handle_data.simps) simp
    qed
  qed
qed

section \<open>Steps and runs\<close>

text \<open>
  The events whose handling is defined whatever the network sent: all but data for the proxy, a chunk of a
  proxy that is gone, and a clipboard identifier the client has no slot for.
\<close>

fun harmless :: "net_client \<Rightarrow> client_event \<Rightarrow> bool" where
  "harmless c (CE_Signal t g msg) = (lc_handlers c t g \<noteq> Some H_Data)"
| "harmless c (CE_ClipboardGrabbed i) = (i \<in> set kClipboards)"
| "harmless c (CE_ClipboardSending n chunk) = (lc_server c \<and> n = lc_proxies c \<and> chunk_send chunk \<noteq> None)"
| "harmless c _ = True"

lemma on_info_changed_steady: "steady c (on_info_changed e c)"
  unfolding on_info_changed_def
  by (auto simp: query_info_def split: prod.split intro!: steady_send steady_proxy)

lemma send_clipboard_defined: "lc_server c \<Longrightarrow> \<exists>d. client_send_clipboard e i c = Some d"
  by (auto simp: client_send_clipboard_def Let_def split: prod.split)

lemma clipboard_grabbed_steady:
  assumes "lc_server c"
  shows "client_clipboard_grabbed e i c = Some d \<Longrightarrow> steady c d"
    and "i \<in> set kClipboards \<Longrightarrow> client_clipboard_grabbed e i c \<noteq> None"
proof -
  let ?c1 = "on_grab_clipboard i c"
  let ?c2 = "?c1\<lparr>lc_own_clipboard := (lc_own_clipboard ?c1)[i := True],
    lc_sent_clipboard := (lc_sent_clipboard ?c1)[i := False], lc_time_clipboard := (lc_time_clipboard ?c1)[i := 0]\<rparr>"
  have "steady c ?c1" by (simp add: on_grab_clipboard_def steady_send)
  then have st: "steady c ?c2" by (rule steady_fields) simp_all
  show "steady c d" if "client_clipboard_grabbed e i c = Some d"
  proof (cases "\<not> lc_enable_clipboard c \<or> lc_max_clipboard c = 0")
    case True
    then show ?thesis using that by (auto simp: client_clipboard_grabbed_def)
  next
    case False
    then have "(if \<not> lc_active ?c2 then client_send_clipboard e i ?c2 else Some ?c2) = Some d"
      using that assms unfolding client_clipboard_grabbed_def Let_def by (simp split: if_splits)
    then show ?thesis using st steady_send_clipboard [OF st] by (cases "lc_active ?c2") auto
  qed
  have "lc_server ?c2" using st assms by (simp add: steady_def)
  then show "client_clipboard_grabbed e i c \<noteq> None" if "i \<in> set kClipboards"
    using that assms send_clipboard_defined [of ?c2 e i] unfolding client_clipboard_grabbed_def Let_def by auto
qed

lemma suspend_phase:
  assumes "in_phase ph c"
  shows "\<exists>d ph. handle_suspend e c = Some d \<and> in_phase ph d"
proof (cases "lc_suspended c")
  case True
  then show ?thesis using assms by (auto simp: handle_suspend_def)
next
  case False
  then have "c = c\<lparr>lc_suspended := True, lc_suspended := False\<rparr>" by (cases c) simp
  then have "in_phase ph (c\<lparr>lc_suspended := True, lc_suspended := False\<rparr>)" using assms by simp
  then have "almost ph (c\<lparr>lc_suspended := True\<rparr>)" unfolding almost_def by blast
  from client_disconnect_phase [OF this, of e None] obtain d where d:
    "client_disconnect e None (c\<lparr>lc_suspended := True\<rparr>) = Some d" "in_phase Idle d" "lc_suspended d" by auto
  then have "in_phase Idle (d\<lparr>lc_connect_on_resume := lc_server c\<rparr>)" by (simp add: in_phase_def)
  then show ?thesis using False d(1) by (auto simp: handle_suspend_def)
qed

lemma resume_phase:
  assumes "in_phase ph c" and "\<not> ce_tls e"
  shows "\<exists>d ph. handle_resume e attempt c = Some d \<and> in_phase ph d"
proof (cases "lc_suspended c")
  case False
  then show ?thesis using assms(1) by (auto simp: handle_resume_def)
next
  case True
  then have idle: "in_phase Idle c" using assms(1) by (auto simp: in_phase_def)
  then have "in_phase Idle (c\<lparr>lc_suspended := False, lc_connect_on_resume := False\<rparr>)" by (simp add: in_phase_def)
  from client_connect_phase [OF this assms(2)] show ?thesis
    using True idle by (auto simp: handle_resume_def Let_def in_phase_def)
qed

lemma signal_phase:
  assumes ph: "in_phase ph c" and h: "lc_handlers c t g = Some h"
  shows "run_handler e h msg c = Some d \<Longrightarrow> \<exists>ph. in_phase ph d" and "h \<noteq> H_Data \<Longrightarrow> run_handler e h msg c \<noteq> None"
proof -
  note phase = handler_phase [OF conjunct2 [OF phase_handlers_of [OF ph h]]]
  have "(\<exists>d ph. run_handler e h msg c = Some d \<and> in_phase ph d) \<or> h = H_Data"
    using phase ph handle_connected_phase connection_failed_phase handle_disconnected_phase handle_hello_phase
    by (cases h) fastforce+
  then show "run_handler e h msg c = Some d \<Longrightarrow> \<exists>ph. in_phase ph d" and "h \<noteq> H_Data \<Longrightarrow> run_handler e h msg c \<noteq> None"
    using handle_data_phase [of c e d] phase ph by auto
qed

lemma client_step_phase:
  assumes ph: "in_phase ph c" and plain: "\<not> ce_tls e"
  shows "client_step e ev c = Some d \<Longrightarrow> \<exists>ph. in_phase ph d" and "harmless c ev \<Longrightarrow> client_step e ev c \<noteq> None"
proof -
  have session: "lc_server c = lc_screen_handlers c" using ph by (simp add: in_phase_def)
  note disconnect = client_disconnect_phase [OF almost_phase [OF ph], of e]
  have "(client_step e ev c = Some d \<longrightarrow> (\<exists>ph. in_phase ph d)) \<and> (harmless c ev \<longrightarrow> client_step e ev c \<noteq> None)"
  proof (cases ev)
    case (CE_Connect attempt)
    then show ?thesis using client_connect_phase [OF ph plain, of attempt] by auto
  next
    case (CE_Disconnect msg)
    then show ?thesis using disconnect [of msg] by auto
  next
    case (CE_Signal t g msg)
    then show ?thesis using ph signal_phase [OF ph, of t g _ e msg] by (auto split: option.split)
  next
    case CE_ConnectTimer
    then show ?thesis using ph handle_connect_timeout_phase [OF ph] by auto
  next
    case CE_KeepAliveAlarm
    then show ?thesis using ph disconnect [of "Some ''server is not responding''"] by auto
  next
    case CE_ShapeChanged
    then show ?thesis
      using ph session steady_phase [OF ph on_info_changed_steady] by (auto simp: client_shape_changed_def)
  next
    case (CE_ClipboardGrabbed i)
    then show ?thesis
      using ph session clipboard_grabbed_steady(1) [of c e i d] clipboard_grabbed_steady(2) [of c i e]
        steady_phase [OF ph, of d] by auto
  next
    case (CE_ClipboardSending n chunk)
    then show ?thesis
      using ph by (auto simp: handle_clipboard_sending_def split: option.splits if_splits)
  next
    case CE_Suspend
    then show ?thesis using suspend_phase [OF ph, of e] by auto
  next
    case (CE_Resume attempt)
    then show ?thesis using resume_phase [OF ph plain, of attempt] by auto
  qed (use ph in auto)
  then show "client_step e ev c = Some d \<Longrightarrow> \<exists>ph. in_phase ph d" and "harmless c ev \<Longrightarrow> client_step e ev c \<noteq> None"
    by auto
qed

lemma client_run_phase:
  "in_phase ph c \<Longrightarrow> \<not> ce_tls e \<Longrightarrow> client_run e evs c = Some d \<Longrightarrow> \<exists>ph. in_phase ph d"
proof (induction evs arbitrary: ph c)
  case (Cons ev evs)
  then obtain c1 where "client_step e ev c = Some c1" "client_run e evs c1 = Some d"
    by (cases "client_step e ev c") auto
  then show ?case using Cons.IH Cons.prems(2) client_step_phase(1) [OF Cons.prems(1,2)] by blast
qed auto

lemma new_client_phase: "\<not> ls_primary s \<Longrightarrow> \<not> ls_enabled s \<Longrightarrow> in_phase Idle (new_client name s)"
  by (simp add: in_phase_def new_client_def)

section \<open>What can go wrong\<close>

text \<open>
  With TLS the handler for the secure connection is never removed: after a disconnect it still waits at the
  address of the deleted stream, and running it fails.
\<close>

definition quiet_platform :: platform where
  "quiet_platform =
     \<lparr>pl_can_leave = (\<lambda>h. True), pl_ctrl_alt_del = (\<lambda>h. False), pl_hot_key = (\<lambda>h. 0),
      pl_get_clipboard = (\<lambda>h i c. (True, c)), pl_shape = (\<lambda>h. (0, 0, 100, 100)), pl_cursor = (\<lambda>h. (50, 50)),
      pl_center = (\<lambda>h. (50, 50)), pl_jump_zone = (\<lambda>h. 1), pl_button_down = (\<lambda>h. False),
      pl_active_modifiers = (\<lambda>h. 0), pl_poll_modifiers = (\<lambda>h. 0), pl_secure_input_app = (\<lambda>h. [])\<rparr>"

definition quiet_client_env :: "bool \<Rightarrow> client_env" where
  "quiet_client_env tls =
     \<lparr>ce_platform = quiet_platform, ce_number = sample_number, ce_tls = tls, ce_languages = [], ce_round = (\<lambda>r. r)\<rparr>"

lemmas client_evaluation =
  client_connect_def setup_timer_def setup_connecting_def add_handler_def remove_handler_def handle_connected_def
  setup_connection_def cleanup_connecting_def cleanup_connection_def cleanup_stream_def cleanup_screen_def
  cleanup_timer_def client_cleanup_def client_disconnect_def post_event_def new_client_def quiet_client_env_def

lemma secure_handler_survives:
  assumes "client_run (quiet_client_env True)
    [CE_Connect (Socket 1 7 CA_Connected []), CE_Signal 7 SecureConnected [], CE_Disconnect None]
    (new_client name (new_screen False)) = Some c"
  shows "lc_target c = None \<and> lc_handlers c 7 SecureConnected = Some H_Connected \<and>
    client_step (quiet_client_env True) (CE_Signal 7 SecureConnected []) c = None"
proof -
  obtain throws k where k: "socket_connect CA_Connected new_tcp_socket = (throws, k)" by fastforce
  have "\<not> throws" using k by (auto simp: socket_connect_def new_tcp_socket_def)
  then show ?thesis
    using assms k by (auto simp: client_evaluation)
qed

text \<open>A chunk that is still queued when its proxy is deleted is handled by the deleted proxy.\<close>

lemma chunk_after_disconnect:
  "0 < n \<Longrightarrow> n \<le> lc_proxies c \<Longrightarrow> \<not> lc_server c \<Longrightarrow> client_step e (CE_ClipboardSending n chunk) c = None"
  by (simp add: handle_clipboard_sending_def)

text \<open>Option lists of odd length, and a modifier mapped to a number that is not one, read beyond their ends.\<close>

lemma odd_options_undefined:
  "clipboard_options [kOptionClipboardSharing] c = None" "proxy_options e [kOptionHeartbeat] p = None"
  "half_duplex_options [kOptionHalfDuplexCapsLock] s = None"
  by (simp_all add: half_duplex_option_def)

lemma foreign_modifier_undefined:
  "proxy_options e [kOptionModifierMapForShift, 7] p = Some p' \<Longrightarrow> 1 < length (sp_modifiers p) \<Longrightarrow>
   translate_key (sp_modifiers p') kKeyShift_L = None"
  by (auto simp: modifier_option_def translate_key_def key_modifier_def kKeyModifierIDShift_def
      kKeyModifierIDLast_def)

text \<open>A list of languages of a single character makes \<open>setRemoteLanguages\<close> throw.\<close>

lemma single_language_throws: "set_remote_languages [b] = None"
  by (simp add: set_remote_languages_def)

section \<open>The property\<close>



end
