(* ===== verification/PartialMachine.thy ===== *)
theory PartialMachine
  imports Prelude
begin

text \<open>
  The contract of a machine whose steps may be undefined: a failed \<open>assert\<close>, a read out of bounds, a use
  of freed memory is the result \<open>None\<close>. What every defined step keeps, every defined run keeps.
\<close>

fun run_option :: "('e \<Rightarrow> 's \<Rightarrow> 's option) \<Rightarrow> 'e list \<Rightarrow> 's \<Rightarrow> 's option" where
  "run_option step [] s = Some s"
| "run_option step (e # es) s = Option.bind (step e s) (run_option step es)"

lemma run_option_append:
  "run_option step (es @ fs) s = Option.bind (run_option step es s) (run_option step fs)"
proof (induction es arbitrary: s)
  case (Cons e es)
  then show ?case by (cases "step e s") auto
qed simp

locale partial_machine =
  fixes step :: "'e \<Rightarrow> 's \<Rightarrow> 's option"
    and inv :: "'s \<Rightarrow> bool"
  assumes inv_step: "inv s \<Longrightarrow> step e s = Some t \<Longrightarrow> inv t"
begin

lemma inv_run: "inv s \<Longrightarrow> run_option step es s = Some t \<Longrightarrow> inv t"
proof (induction es arbitrary: s)
  case (Cons e es)
  then obtain u where "step e s = Some u" "run_option step es u = Some t" by (cases "step e s") auto
  then show ?case using Cons inv_step by blast
qed simp

end

text \<open>
  Provenance: facts that a step only extends by what the operation itself gives. A fact found after a run is
  traced back to the operation that gave it, in the state in which that operation ran.
\<close>

locale partial_provenance = partial_machine step inv
  for step :: "'e \<Rightarrow> 's \<Rightarrow> 's option" and inv :: "'s \<Rightarrow> bool" +
  fixes facts :: "'s \<Rightarrow> 'x set"
    and gives :: "'s \<Rightarrow> 'e \<Rightarrow> 'x set"
  assumes facts_step: "inv s \<Longrightarrow> step e s = Some t \<Longrightarrow> facts t \<subseteq> facts s \<union> gives s e"
begin

lemma origin:
  "inv s \<Longrightarrow> run_option step es s = Some t \<Longrightarrow> x \<in> facts t \<Longrightarrow> x \<notin> facts s \<Longrightarrow>
   \<exists>before e after u. es = before @ e # after \<and> run_option step before s = Some u \<and> x \<in> gives u e"
proof (induction es arbitrary: s)
  case (Cons e es)
  then obtain v where v: "step e s = Some v" "run_option step es v = Some t" by (cases "step e s") auto
  show ?case
  proof (cases "x \<in> facts v")
    case True
    then have "x \<in> gives s e" using facts_step [OF Cons.prems(1) v(1)] Cons.prems(4) by blast
    then show ?thesis by (intro exI [of _ "[]"]) auto
  next
    case False
    from Cons.IH [OF inv_step [OF Cons.prems(1) v(1)] v(2) Cons.prems(3) False]
    obtain before f after u where "es = before @ f # after" "run_option step before v = Some u" "x \<in> gives u f"
      by blast
    then have "e # es = (e # before) @ f # after \<and> run_option step (e # before) s = Some u \<and> x \<in> gives u f"
      using v(1) by simp
    then show ?thesis by blast
  qed
qed simp

end

text \<open>A machine that is defined in every state of its invariant.\<close>

locale defined_machine = partial_machine step inv
  for step :: "'e \<Rightarrow> 's \<Rightarrow> 's option" and inv :: "'s \<Rightarrow> bool" +
  assumes defined: "inv s \<Longrightarrow> step e s \<noteq> None"
begin

lemma defined_run: "inv s \<Longrightarrow> \<exists>t. run_option step es s = Some t"
proof (induction es arbitrary: s)
  case (Cons e es)
  then obtain u where "step e s = Some u" using defined by fastforce
  then show ?case using Cons.IH inv_step [OF Cons.prems] by simp
qed simp

end

end
