(* ===== verification/ClientProxy.thy ===== *)
theory ClientProxy
  imports ClientEvents PartialMachine
begin

text \<open>
  \<open>ClientProxy1_0\<close> to \<open>ClientProxy1_8\<close> (src/lib/server): the server's end of the connection to a client,
  which turns the calls of the server into messages and the client's messages into events for the server.
  The nine classes override each other's methods, so one function per method looks at \<open>px_minor\<close>, the
  minor version that selects the class. \<open>px_assembler\<close> are the static variables of the chunk assembler.
  The result \<open>None\<close> is undefined behaviour.
\<close>

section \<open>State\<close>

datatype proxy_post =
    Proxy_Ready
  | Proxy_Disconnected
  | Proxy_ShapeChanged
  | Proxy_ClipboardGrabbed byte u32
  | Proxy_ClipboardChanged byte u32
  | Proxy_ClipboardSending bytes

record client_info =
  info_x :: int
  info_y :: int
  info_w :: int
  info_h :: int
  info_mx :: int
  info_my :: int

record client_clipboard =
  cc_clipboard :: clipboard
  cc_seq :: u32
  cc_dirty :: bool

text \<open>
  \<open>px_handlers\<close>: the handlers on the stream and for the alarm are installed. \<open>px_alarm\<close> and
  \<open>px_keep_alive\<close> say that the timer members are not null; \<open>px_lost_alarms\<close> and \<open>px_lost_keep_alives\<close>
  count timers that still run but whose member was overwritten.
\<close>

record client_proxy =
  px_minor :: nat
  px_name :: bytes
  px_stream :: packet_filter
  px_handlers :: bool
  px_info :: client_info
  px_alarm_after :: real
  px_alarm :: bool
  px_rate :: real
  px_keep_alive :: bool
  px_lost_alarms :: nat
  px_lost_keep_alives :: nat
  px_handshake :: bool
  px_clipboards :: "client_clipboard list"
  px_assembler :: assembler
  px_posted :: "proxy_post list"

record proxy_env =
  pe_number :: qt_number
  pe_languages :: bytes
  pe_round :: "real \<Rightarrow> real"
  pe_time :: u32

definition px_post :: "proxy_post \<Rightarrow> client_proxy \<Rightarrow> client_proxy" where
  "px_post e p = p\<lparr>px_posted := px_posted p @ [e]\<rparr>"

definition px_send :: "string \<Rightarrow> fmt_arg list \<Rightarrow> client_proxy \<Rightarrow> client_proxy" where
  "px_send fmt args p =
     (case writef fmt args of
        None \<Rightarrow> p
      | Some msg \<Rightarrow> if msg = [] then p else p\<lparr>px_stream := filter_write msg (px_stream p)\<rparr>)"

section \<open>Heartbeat\<close>

definition kHeartRate :: real where "kHeartRate = -1"
definition kHeartBeatsUntilDeath :: real where "kHeartBeatsUntilDeath = 3"

text \<open>From version 1.3 on the server sends keep-alives; the alarm argument is then not used.\<close>

definition set_heartbeat_rate :: "proxy_env \<Rightarrow> real \<Rightarrow> real \<Rightarrow> client_proxy \<Rightarrow> client_proxy" where
  "set_heartbeat_rate e rate alarm p =
     (if px_minor p < 3 then p\<lparr>px_alarm_after := alarm\<rparr>
      else p\<lparr>px_rate := rate, px_alarm_after := pe_round e (rate * kKeepAlivesUntilDeath)\<rparr>)"

definition reset_heartbeat_rate :: "proxy_env \<Rightarrow> client_proxy \<Rightarrow> client_proxy" where
  "reset_heartbeat_rate e p =
     (if px_minor p < 3 then set_heartbeat_rate e kHeartRate (kHeartRate * kHeartBeatsUntilDeath) p
      else set_heartbeat_rate e kKeepAliveRate (kKeepAliveRate * kKeepAlivesUntilDeath) p)"

definition add_alarm :: "client_proxy \<Rightarrow> client_proxy" where
  "add_alarm p =
     (if px_alarm_after p > 0
      then p\<lparr>px_alarm := True, px_lost_alarms := px_lost_alarms p + (if px_alarm p then 1 else 0)\<rparr>
      else p)"

definition remove_alarm :: "client_proxy \<Rightarrow> client_proxy" where
  "remove_alarm p = p\<lparr>px_alarm := False\<rparr>"

definition add_heartbeat_timer :: "client_proxy \<Rightarrow> client_proxy" where
  "add_heartbeat_timer p =
     add_alarm (if px_minor p \<ge> 3 \<and> px_rate p > 0
       then p\<lparr>px_keep_alive := True, px_lost_keep_alives := px_lost_keep_alives p + (if px_keep_alive p then 1 else 0)\<rparr>
       else p)"

definition remove_heartbeat_timer :: "client_proxy \<Rightarrow> client_proxy" where
  "remove_heartbeat_timer p =
     remove_alarm (if px_minor p \<ge> 3 then p\<lparr>px_keep_alive := False\<rparr> else p)"

definition reset_heartbeat_timer :: "client_proxy \<Rightarrow> client_proxy" where
  "reset_heartbeat_timer p = add_alarm (remove_alarm p)"

definition keep_alive :: "client_proxy \<Rightarrow> client_proxy" where
  "keep_alive p = px_send kMsgCKeepAlive [] p"

section \<open>Construction and disconnection\<close>

text \<open>
  Each constructor runs its base's first, so the heartbeat of version 1.0 is set before that of 1.3, and the
  question for the client's screen is written before the languages of 1.8.
\<close>

definition new_client_proxy :: "proxy_env \<Rightarrow> nat \<Rightarrow> bytes \<Rightarrow> packet_filter \<Rightarrow> assembler \<Rightarrow> client_proxy" where
  "new_client_proxy e minor name f a =
     (let p = \<lparr>px_minor = minor, px_name = name, px_stream = f, px_handlers = True,
                px_info = \<lparr>info_x = 0, info_y = 0, info_w = 0, info_h = 0, info_mx = 0, info_my = 0\<rparr>,
                px_alarm_after = pe_round e (kHeartRate * kHeartBeatsUntilDeath), px_alarm = False,
                px_rate = kKeepAliveRate, px_keep_alive = False,
                px_lost_alarms = 0, px_lost_keep_alives = 0, px_handshake = True,
                px_clipboards = replicate (unat kClipboardEnd) \<lparr>cc_clipboard = new_clipboard, cc_seq = 0, cc_dirty = True\<rparr>,
                px_assembler = a, px_posted = []\<rparr>;
          p1 = px_send kMsgQInfo [] p;
          p2 = (if minor \<ge> 3 then set_heartbeat_rate e kKeepAliveRate (kKeepAliveRate * kKeepAlivesUntilDeath) p1 else p1)
      in if minor \<ge> 8 \<and> pe_languages e \<noteq> []
         then px_send kMsgDLanguageSynchronisation [FA_Str (pe_languages e)] p2
         else p2)"

definition px_remove_handlers :: "client_proxy \<Rightarrow> client_proxy" where
  "px_remove_handlers p = remove_heartbeat_timer (p\<lparr>px_handlers := False\<rparr>)"

text \<open>\<open>handleDisconnect\<close>, \<open>handleWriteError\<close> and \<open>handleFlatline\<close> do no more than this.\<close>

definition px_disconnect :: "client_proxy \<Rightarrow> client_proxy" where
  "px_disconnect p =
     (let p1 = px_remove_handlers p
      in px_post Proxy_Disconnected (p1\<lparr>px_stream := filter_close (px_stream p1)\<rparr>))"

section \<open>Messages of the client\<close>

datatype proxy_result = PR_True | PR_False | PR_Throw

type_synonym proxied = "(proxy_result \<times> client_proxy) option"

definition px_receive :: "string \<Rightarrow> client_proxy \<Rightarrow> (fmt_arg list \<Rightarrow> client_proxy \<Rightarrow> proxied) \<Rightarrow> proxied" where
  "px_receive fmt p k =
     (case readf filter_read (drop 4 fmt) (px_stream p) of ((args, r), f) \<Rightarrow>
        (case r of
           RF_Throw \<Rightarrow> Some (PR_Throw, p\<lparr>px_stream := f\<rparr>)
         | RF_Abort \<Rightarrow> None
         | RF_Return ok \<Rightarrow> if ok then k args (p\<lparr>px_stream := f\<rparr>) else Some (PR_False, p\<lparr>px_stream := f\<rparr>)))"

text \<open>The centre of the screen is computed in \<open>int\<close> and stored in 16 bits.\<close>

definition wrap16 :: "int \<Rightarrow> int" where
  "wrap16 v = sint (word_of_int v :: u16)"

definition make_info :: "int \<Rightarrow> int \<Rightarrow> int \<Rightarrow> int \<Rightarrow> int \<Rightarrow> int \<Rightarrow> client_info" where
  "make_info x y w h mx my =
     (let outside = mx < x \<or> mx \<ge> x + w \<or> my < y \<or> my \<ge> y + h
      in \<lparr>info_x = x, info_y = y, info_w = w, info_h = h,
          info_mx = (if outside then wrap16 (x + w div 2) else mx),
          info_my = (if outside then wrap16 (y + h div 2) else my)\<rparr>)"

definition recv_info :: "client_proxy \<Rightarrow> proxied" where
  "recv_info p =
     px_receive kMsgDInfo p (\<lambda>args p1.
       case args of
         [FA_Int x, FA_Int y, FA_Int w, FA_Int h, FA_Int _, FA_Int mx, FA_Int my] \<Rightarrow>
           if int16 w \<le> 0 \<or> int16 h \<le> 0 then Some (PR_False, p1)
           else Some (PR_True, px_send kMsgCInfoAck []
             (p1\<lparr>px_info := make_info (int16 x) (int16 y) (int16 w) (int16 h) (int16 mx) (int16 my)\<rparr>))
       | _ \<Rightarrow> None)"

definition recv_grab_clipboard :: "client_proxy \<Rightarrow> proxied" where
  "recv_grab_clipboard p =
     px_receive kMsgCClipboard p (\<lambda>args p1.
       case args of
         [FA_Int i, FA_Int n] \<Rightarrow>
           if (ucast i :: byte) \<ge> kClipboardEnd then Some (PR_False, p1)
           else Some (PR_True, px_post (Proxy_ClipboardGrabbed (ucast i) n) p1)
       | _ \<Rightarrow> None)"

text \<open>\<open>recvClipboard\<close> from version 1.6 on; before, it only returns \<open>false\<close>.\<close>

definition px_slots :: "client_proxy \<Rightarrow> (clipboard \<times> u32) list" where
  "px_slots p = map (\<lambda>cc. (cc_clipboard cc, cc_seq cc)) (px_clipboards p)"

definition px_recv_clipboard :: "proxy_env \<Rightarrow> client_proxy \<Rightarrow> proxied" where
  "px_recv_clipboard e p =
     (if px_minor p < 6 then Some (PR_False, p)
      else case recv_clipboard (pe_number e) filter_read (px_stream p) (px_assembler p) (px_slots p) of
        (r, f, a, slots) \<Rightarrow>
          let p1 = p\<lparr>px_stream := f, px_assembler := a,
                     px_clipboards := map2 (\<lambda>cc (c, n). cc\<lparr>cc_clipboard := c, cc_seq := n\<rparr>) (px_clipboards p) slots\<rparr>
          in (case r of
                CO_Ignored \<Rightarrow> Some (PR_True, p1)
              | CO_Updated i c \<Rightarrow> Some (PR_True, px_post (Proxy_ClipboardChanged i (snd (slots ! unat i))) p1)
              | CO_Undefined \<Rightarrow> None
              | CO_Throw \<Rightarrow> Some (PR_Throw, p1)))"

definition px_parse_handshake :: "bytes \<Rightarrow> client_proxy \<Rightarrow> proxied" where
  "px_parse_handshake code p =
     (if is_code code kMsgCNoop then Some (PR_True, p)
      else if is_code code kMsgDInfo then
        (case recv_info (p\<lparr>px_handshake := False\<rparr>) of
           Some (PR_True, p1) \<Rightarrow> Some (PR_True, add_heartbeat_timer (px_post Proxy_Ready p1))
         | r \<Rightarrow> r)
      else Some (PR_False, p))"

text \<open>
  Files and drag information are accepted from version 1.5 on, but nothing of their message beyond the code
  is read.
\<close>

definition px_parse_message :: "proxy_env \<Rightarrow> bytes \<Rightarrow> client_proxy \<Rightarrow> proxied" where
  "px_parse_message e code p =
     (if px_minor p \<ge> 5 \<and> (is_code code kMsgDFileTransfer \<or> is_code code kMsgDDragInfo) then Some (PR_True, p)
      else if px_minor p \<ge> 3 \<and> is_code code kMsgCKeepAlive then Some (PR_True, reset_heartbeat_timer p)
      else if is_code code kMsgDInfo then
        (case recv_info p of
           Some (PR_True, p1) \<Rightarrow> Some (PR_True, px_post Proxy_ShapeChanged p1)
         | r \<Rightarrow> r)
      else if is_code code kMsgCNoop then Some (PR_True, p)
      else if is_code code kMsgCClipboard then recv_grab_clipboard p
      else if is_code code kMsgDClipboard then px_recv_clipboard e p
      else Some (PR_False, p))"

definition px_parse :: "proxy_env \<Rightarrow> bytes \<Rightarrow> client_proxy \<Rightarrow> proxied" where
  "px_parse e code p = (if px_handshake p then px_parse_handshake code p else px_parse_message e code p)"

section \<open>The message loop\<close>

lemma px_receive_unread:
  assumes "px_receive fmt p k = Some (r, q)"
    and "\<And>args p1 q r. k args p1 = Some (r, q) \<Longrightarrow> unread (px_stream q) \<le> unread (px_stream p1)"
  shows "unread (px_stream q) \<le> unread (px_stream p)"
proof -
  obtain args x f where r: "readf filter_read (drop 4 fmt) (px_stream p) = ((args, x), f)"
    by (metis surj_pair)
  have "unread f \<le> unread (px_stream p)" using filter_source.readf_shrinks [OF r] .
  moreover have "unread (px_stream q) \<le> unread f"
    using assms(1) r assms(2) [of args "p\<lparr>px_stream := f\<rparr>"]
    by (auto simp: px_receive_def split: readf_result.splits if_splits)
  ultimately show ?thesis by simp
qed

lemma px_send_unread [simp]: "unread (px_stream (px_send fmt args p)) = unread (px_stream p)"
  by (auto simp: px_send_def unread_def filter_write_def split: option.split)

lemma px_post_stream [simp]: "px_stream (px_post e p) = px_stream p"
  by (simp add: px_post_def)

lemma heartbeat_stream [simp]:
  "px_stream (add_heartbeat_timer p) = px_stream p" "px_stream (reset_heartbeat_timer p) = px_stream p"
  by (simp_all add: add_heartbeat_timer_def reset_heartbeat_timer_def add_alarm_def remove_alarm_def)

lemma recv_info_unread: "recv_info p = Some (r, q) \<Longrightarrow> unread (px_stream q) \<le> unread (px_stream p)"
  unfolding recv_info_def
  by (erule px_receive_unread) (auto split: list.splits fmt_arg.splits if_splits)

lemma recv_grab_unread: "recv_grab_clipboard p = Some (r, q) \<Longrightarrow> unread (px_stream q) \<le> unread (px_stream p)"
  unfolding recv_grab_clipboard_def
  by (erule px_receive_unread) (auto split: list.splits fmt_arg.splits if_splits)

lemma recv_clipboard_shrinks:
  "recv_clipboard qn filter_read f a slots = (r, f', a', slots') \<Longrightarrow> unread f' \<le> unread f"
proof -
  assume s: "recv_clipboard qn filter_read f a slots = (r, f', a', slots')"
  obtain x f1 a1 where x: "clip_assemble qn filter_read f a = (x, f1, a1)" by (metis surj_pair)
  have "f' = f1" using s x by (auto simp: recv_clipboard_def split: option.splits prod.splits if_splits)
  then show ?thesis using clip_assemble_shrinks [OF x] by simp
qed

lemma px_recv_clipboard_unread: "px_recv_clipboard e p = Some (r, q) \<Longrightarrow> unread (px_stream q) \<le> unread (px_stream p)"
proof -
  assume s: "px_recv_clipboard e p = Some (r, q)"
  obtain x f a slots where x: "recv_clipboard (pe_number e) filter_read (px_stream p) (px_assembler p) (px_slots p) = (x, f, a, slots)"
    by (metis surj_pair)
  have "unread f \<le> unread (px_stream p)" using recv_clipboard_shrinks [OF x] .
  moreover have "px_stream q = px_stream p \<or> px_stream q = f"
    using s x by (auto simp: px_recv_clipboard_def Let_def split: if_splits clip_outcome.splits)
  ultimately show ?thesis by auto
qed

lemma px_parse_unread: "px_parse e code p = Some (r, q) \<Longrightarrow> unread (px_stream q) \<le> unread (px_stream p)"
  unfolding px_parse_def px_parse_handshake_def px_parse_message_def
  by (auto split: if_splits option.splits prod.splits proxy_result.splits
      dest: recv_info_unread recv_grab_unread px_recv_clipboard_unread)

lemma px_turn_consumes:
  assumes "filter_read 4 (px_stream p) = (code, f)" and "code \<noteq> []" and "px_parse e code (p\<lparr>px_stream := f\<rparr>) = Some (r, q)"
  shows "unread (px_stream q) < unread (px_stream p)" and "unread (discard_input (px_stream q)) < unread (px_stream p)"
proof -
  have "unread f < unread (px_stream p)" using filter_read_unread(2) [OF assms(1,2)] .
  moreover have "unread (px_stream q) \<le> unread f" using px_parse_unread [OF assms(3)] by simp
  ultimately show "unread (px_stream q) < unread (px_stream p)" by simp
  then show "unread (discard_input (px_stream q)) < unread (px_stream p)"
    using discard_input_unread [of "px_stream q"] by simp
qed

function px_handle_data :: "proxy_env \<Rightarrow> client_proxy \<Rightarrow> client_proxy option" where
  "px_handle_data e p =
     (case filter_read 4 (px_stream p) of (code, f) \<Rightarrow>
        let p1 = p\<lparr>px_stream := f\<rparr> in
        if code = [] then Some (reset_heartbeat_timer p1)
        else if length code \<noteq> 4 then Some (px_disconnect p1)
        else case px_parse e code p1 of
          None \<Rightarrow> None
        | Some (PR_True, q) \<Rightarrow> px_handle_data e q
        | Some (PR_False, q) \<Rightarrow> px_handle_data e (q\<lparr>px_stream := discard_input (px_stream q)\<rparr>)
        | Some (PR_Throw, q) \<Rightarrow> Some (px_disconnect q))"
  by pat_completeness auto
termination
proof (relation "measure (\<lambda>(e, p). unread (px_stream p))", goal_cases)
  case (2 e p code f p1 x r q)
  then show ?case using px_turn_consumes(1) by simp metis
next
  case (3 e p code f p1 x r q)
  then show ?case using px_turn_consumes(2) by simp metis
qed simp

declare px_handle_data.simps [simp del]

section \<open>Calls of the server\<close>

text \<open>\<open>setClipboard\<close> sends nothing before version 1.6; the chunks are queued as events.\<close>

definition px_set_clipboard :: "proxy_env \<Rightarrow> nat \<Rightarrow> clipboard \<Rightarrow> client_proxy \<Rightarrow> client_proxy" where
  "px_set_clipboard e i cb p =
     (let cc = px_clipboards p ! i in
      if px_minor p < 6 \<or> \<not> cc_dirty cc then p
      else
        let copied = fst (snd (clip_copy (pe_time e) (cc_clipboard cc) cb));
            d_cb = marshall copied
        in fold (\<lambda>chunk. px_post (Proxy_ClipboardSending chunk))
             (send_clipboard (pe_number e) (fst d_cb) (word_of_nat i) 0)
             (p\<lparr>px_clipboards := (px_clipboards p)[i := cc\<lparr>cc_dirty := False, cc_clipboard := snd d_cb\<rparr>]\<rparr>))"

definition px_grab_clipboard :: "nat \<Rightarrow> client_proxy \<Rightarrow> client_proxy" where
  "px_grab_clipboard i p =
     (let p1 = px_send kMsgCClipboard [FA_Int (word_of_nat i), FA_Int 0] p
      in p1\<lparr>px_clipboards := (px_clipboards p1)[i := (px_clipboards p1 ! i)\<lparr>cc_dirty := True\<rparr>]\<rparr>)"

definition px_set_dirty :: "nat \<Rightarrow> bool \<Rightarrow> client_proxy \<Rightarrow> client_proxy" where
  "px_set_dirty i d p = p\<lparr>px_clipboards := (px_clipboards p)[i := (px_clipboards p ! i)\<lparr>cc_dirty := d\<rparr>]\<rparr>"

abbreviation text_bytes :: "string \<Rightarrow> bytes" where
  "text_bytes \<equiv> map of_char"

abbreviation FA_Signed :: "int \<Rightarrow> fmt_arg" where
  "FA_Signed v \<equiv> FA_Int (word_of_int v)"

abbreviation FA_Button :: "u16 \<Rightarrow> fmt_arg" where
  "FA_Button b \<equiv> FA_Int (ucast b)"

definition px_key_down :: "u32 \<Rightarrow> u32 \<Rightarrow> u16 \<Rightarrow> string \<Rightarrow> client_proxy \<Rightarrow> client_proxy" where
  "px_key_down key m button lang p =
     (if px_minor p = 0 then px_send kMsgDKeyDown1_0 [FA_Int key, FA_Int m] p
      else if px_minor p < 8 then px_send kMsgDKeyDown [FA_Int key, FA_Int m, FA_Button button] p
      else px_send kMsgDKeyDownLang [FA_Int key, FA_Int m, FA_Button button, FA_Str (text_bytes lang)] p)"

definition px_key_repeat :: "u32 \<Rightarrow> u32 \<Rightarrow> int \<Rightarrow> u16 \<Rightarrow> string \<Rightarrow> client_proxy \<Rightarrow> client_proxy" where
  "px_key_repeat key m count button lang p =
     (if px_minor p = 0 then px_send kMsgDKeyRepeat1_0 [FA_Int key, FA_Int m, FA_Signed count] p
      else px_send kMsgDKeyRepeat
             [FA_Int key, FA_Int m, FA_Signed count, FA_Button button, FA_Str (text_bytes lang)] p)"

definition px_key_up :: "u32 \<Rightarrow> u32 \<Rightarrow> u16 \<Rightarrow> client_proxy \<Rightarrow> client_proxy" where
  "px_key_up key m button p =
     (if px_minor p = 0 then px_send kMsgDKeyUp1_0 [FA_Int key, FA_Int m] p
      else px_send kMsgDKeyUp [FA_Int key, FA_Int m, FA_Button button] p)"

definition px_mouse_wheel :: "int \<Rightarrow> int \<Rightarrow> client_proxy \<Rightarrow> client_proxy" where
  "px_mouse_wheel dx dy p =
     (if px_minor p < 3 then px_send kMsgDMouseWheel1_0 [FA_Signed dy] p
      else px_send kMsgDMouseWheel [FA_Signed dx, FA_Signed dy] p)"

definition px_reset_options :: "proxy_env \<Rightarrow> client_proxy \<Rightarrow> client_proxy" where
  "px_reset_options e p =
     add_heartbeat_timer (remove_heartbeat_timer (reset_heartbeat_rate e (px_send kMsgCResetOptions [] p)))"

text \<open>As in the client, the loop takes two elements at a time and does not test for the second.\<close>

fun px_option_loop :: "proxy_env \<Rightarrow> u32 list \<Rightarrow> client_proxy \<Rightarrow> client_proxy option" where
  "px_option_loop e [] p = Some p"
| "px_option_loop e [opt] p = (if opt = kOptionHeartbeat then None else Some p)"
| "px_option_loop e (opt # v # rest) p =
     px_option_loop e rest
       (if opt = kOptionHeartbeat then
          let rate = pe_round e (pe_round e (1 / 1000) * real (unat v));
              rate1 = (if rate \<le> 0 then - 1 else rate)
          in add_heartbeat_timer (remove_heartbeat_timer
               (set_heartbeat_rate e rate1 (pe_round e (rate1 * kHeartBeatsUntilDeath)) p))
        else p)"

definition px_set_options :: "proxy_env \<Rightarrow> u32 list \<Rightarrow> client_proxy \<Rightarrow> client_proxy option" where
  "px_set_options e opts p = px_option_loop e opts (px_send kMsgDSetOptions [FA_Vec4 opts] p)"

text \<open>\<open>close\<close> also waits until the socket has sent what was written.\<close>

definition px_close :: "string \<Rightarrow> client_proxy \<Rightarrow> client_proxy" where
  "px_close msg p = px_send msg [] p"

text \<open>The server's calls; the last three go to its primary client only.\<close>

fun proxy_call :: "proxy_env \<Rightarrow> screen_call \<Rightarrow> client_proxy \<Rightarrow> client_proxy option" where
  "proxy_call e (Enter x y n m saver) p =
     Some (px_send kMsgCEnter [FA_Signed x, FA_Signed y, FA_Int n, FA_Int m] p)"
| "proxy_call e Leave p = Some (px_send kMsgCLeave [] p)"
| "proxy_call e (MouseMove x y) p = Some (px_send kMsgDMouseMove [FA_Signed x, FA_Signed y] p)"
| "proxy_call e (MouseRelativeMove dx dy) p =
     Some (if px_minor p < 2 then p else px_send kMsgDMouseRelMove [FA_Signed dx, FA_Signed dy] p)"
| "proxy_call e (MouseDown b) p = Some (px_send kMsgDMouseDown [FA_Int (word_of_nat b)] p)"
| "proxy_call e (MouseUp b) p = Some (px_send kMsgDMouseUp [FA_Int (word_of_nat b)] p)"
| "proxy_call e (MouseWheel dx dy) p = Some (px_mouse_wheel dx dy p)"
| "proxy_call e (KeyDown key m button lang) p = Some (px_key_down key m button lang p)"
| "proxy_call e (KeyUp key m button) p = Some (px_key_up key m button p)"
| "proxy_call e (KeyRepeat key m count button lang) p = Some (px_key_repeat key m count button lang p)"
| "proxy_call e (SetClipboard i cb) p =
     (if i < length (px_clipboards p) then Some (px_set_clipboard e i cb p) else None)"
| "proxy_call e (GrabClipboard i) p =
     (if i < length (px_clipboards p) then Some (px_grab_clipboard i p) else None)"
| "proxy_call e (SetClipboardDirty i d) p =
     (if i < length (px_clipboards p) then Some (px_set_dirty i d p) else None)"
| "proxy_call e (CallScreensaver on) p = Some (px_send kMsgCScreenSaver [FA_Int (if on then 1 else 0)] p)"
| "proxy_call e ResetOptions p = Some (px_reset_options e p)"
| "proxy_call e (SetOptions opts) p = px_set_options e opts p"
| "proxy_call e (CloseWith msg) p = Some (px_close msg p)"
| "proxy_call e (Reconfigure sides) p = None"
| "proxy_call e FakeInputBegin p = None"
| "proxy_call e FakeInputEnd p = None"

section \<open>Events\<close>

text \<open>
  The handlers on the stream, the timers, the events of the filter below, a queued chunk of a clipboard, and
  the calls of the server. A lost timer fires like any other.
\<close>

datatype proxy_event =
    PX_Input
  | PX_WriteError
  | PX_Shutdown
  | PX_Alarm
  | PX_KeepAlive
  | PX_Arrive "nat \<Rightarrow> read_answer"
  | PX_Filter stream_event
  | PX_Chunk bytes
  | PX_Call screen_call

fun proxy_step :: "proxy_env \<Rightarrow> proxy_event \<Rightarrow> client_proxy \<Rightarrow> client_proxy option" where
  "proxy_step e PX_Input p = (if px_handlers p then px_handle_data e p else Some p)"
| "proxy_step e PX_WriteError p = Some (if px_handlers p then px_disconnect p else p)"
| "proxy_step e PX_Shutdown p = Some (if px_handlers p then px_disconnect p else p)"
| "proxy_step e PX_Alarm p =
     Some (if px_handlers p \<and> (px_alarm p \<or> px_lost_alarms p > 0) then px_disconnect p else p)"
| "proxy_step e PX_KeepAlive p = Some (if px_keep_alive p \<or> px_lost_keep_alives p > 0 then keep_alive p else p)"
| "proxy_step e (PX_Arrive answers) p = Some (p\<lparr>px_stream := packet_arrive answers (px_stream p)\<rparr>)"
| "proxy_step e (PX_Filter ev) p = Some (p\<lparr>px_stream := filter_event ev (px_stream p)\<rparr>)"
| "proxy_step e (PX_Chunk chunk) p =
     map_option (\<lambda>msg. p\<lparr>px_stream := filter_write msg (px_stream p)\<rparr>) (chunk_send chunk)"
| "proxy_step e (PX_Call c) p = proxy_call e c p"

section \<open>What the server may rely on\<close>

text \<open>
  A shape that was accepted: positive sides, and the cursor on the screen unless the screen ends beyond the
  16 bit coordinates (the centre then wraps).
\<close>

definition info_ok :: "client_info \<Rightarrow> bool" where
  "info_ok i \<longleftrightarrow>
     0 < info_w i \<and> 0 < info_h i \<and>
     (info_x i + info_w i \<le> 2 ^ 15 \<and> info_y i + info_h i \<le> 2 ^ 15 \<longrightarrow>
        info_x i \<le> info_mx i \<and> info_mx i < info_x i + info_w i \<and>
        info_y i \<le> info_my i \<and> info_my i < info_y i + info_h i)"

lemma int16_range: "- (2 ^ 15) \<le> int16 v" "int16 v < 2 ^ 15"
  using sint_range_size [of "ucast v :: u16"] by (auto simp: int16_def word_size sint_ge sint_less)

lemma wrap16_small: "- (2 ^ 15) \<le> v \<Longrightarrow> v < 2 ^ 15 \<Longrightarrow> wrap16 v = v"
  by (simp add: wrap16_def sint_sbintrunc' signed_take_bit_int_eq_self)

lemma make_info_ok:
  assumes "- (2 ^ 15) \<le> x" and "- (2 ^ 15) \<le> y" and "0 < w" and "0 < h"
  shows "info_ok (make_info x y w h mx my)"
proof -
  have "wrap16 (x + w div 2) = x + w div 2" "wrap16 (y + h div 2) = y + h div 2"
    if "x + w \<le> 2 ^ 15" "y + h \<le> 2 ^ 15"
    using assms that by (auto intro!: wrap16_small)
  then show ?thesis using assms by (auto simp: info_ok_def make_info_def Let_def)
qed

fun post_ok :: "proxy_post \<Rightarrow> bool" where
  "post_ok (Proxy_ClipboardGrabbed i n) = (i < kClipboardEnd)"
| "post_ok (Proxy_ClipboardChanged i n) = (i < kClipboardEnd)"
| "post_ok e = True"

fun tells_shape :: "proxy_post \<Rightarrow> bool" where
  "tells_shape Proxy_Ready = True"
| "tells_shape Proxy_ShapeChanged = True"
| "tells_shape e = False"

definition px_inv :: "client_proxy \<Rightarrow> bool" where
  "px_inv p \<longleftrightarrow>
     length (px_clipboards p) = unat kClipboardEnd \<and> list_all post_ok (px_posted p) \<and>
     count_list (px_posted p) Proxy_Ready \<le> 1 \<and>
     (\<forall>e \<in> set (px_posted p). tells_shape e \<longrightarrow> \<not> px_handshake p \<and> info_ok (px_info p))"

text \<open>\<open>px_quiet\<close>: the identity, the phase and the shape are kept, and only clean events are posted.\<close>

definition px_quiet :: "client_proxy \<Rightarrow> client_proxy \<Rightarrow> bool" where
  "px_quiet p q \<longleftrightarrow>
     px_minor q = px_minor p \<and> px_name q = px_name p \<and> px_handshake q = px_handshake p \<and> px_info q = px_info p \<and>
     length (px_clipboards q) = length (px_clipboards p) \<and>
     (\<exists>es. px_posted q = px_posted p @ es \<and> list_all post_ok es \<and> list_all (\<lambda>e. \<not> tells_shape e) es)"

lemma px_quiet_refl [simp]: "px_quiet p p"
  by (simp add: px_quiet_def)

lemma px_quiet_trans: "px_quiet p q \<Longrightarrow> px_quiet q r \<Longrightarrow> px_quiet p r"
  by (force simp: px_quiet_def)

lemma px_quiet_fields:
  "px_quiet p q \<Longrightarrow> px_minor r = px_minor q \<Longrightarrow> px_name r = px_name q \<Longrightarrow> px_handshake r = px_handshake q \<Longrightarrow>
   px_info r = px_info q \<Longrightarrow> length (px_clipboards r) = length (px_clipboards q) \<Longrightarrow> px_posted r = px_posted q \<Longrightarrow>
   px_quiet p r"
  by (simp add: px_quiet_def)

lemma px_quiet_post: "px_quiet p q \<Longrightarrow> post_ok e \<Longrightarrow> \<not> tells_shape e \<Longrightarrow> px_quiet p (px_post e q)"
  by (force simp: px_quiet_def px_post_def)

lemma px_quiet_send [intro]: "px_quiet p q \<Longrightarrow> px_quiet p (px_send fmt args q)"
  by (auto simp: px_send_def split: option.split elim: px_quiet_fields)

lemma px_quiet_heartbeat [intro]:
  "px_quiet p q \<Longrightarrow> px_quiet p (add_heartbeat_timer q)" "px_quiet p q \<Longrightarrow> px_quiet p (remove_heartbeat_timer q)"
  "px_quiet p q \<Longrightarrow> px_quiet p (reset_heartbeat_timer q)" "px_quiet p q \<Longrightarrow> px_quiet p (set_heartbeat_rate e r a q)"
  "px_quiet p q \<Longrightarrow> px_quiet p (reset_heartbeat_rate e q)"
  by (auto simp: add_heartbeat_timer_def remove_heartbeat_timer_def reset_heartbeat_timer_def add_alarm_def
      remove_alarm_def set_heartbeat_rate_def reset_heartbeat_rate_def elim!: px_quiet_fields)

lemma px_quiet_disconnect [intro]: "px_quiet p q \<Longrightarrow> px_quiet p (px_disconnect q)"
proof -
  assume "px_quiet p q"
  then have "px_quiet p (q\<lparr>px_handlers := False\<rparr>)" by (rule px_quiet_fields) simp_all
  then have "px_quiet p (px_remove_handlers q)" by (auto simp: px_remove_handlers_def)
  then have "px_quiet p ((px_remove_handlers q)\<lparr>px_stream := filter_close (px_stream (px_remove_handlers q))\<rparr>)"
    by (rule px_quiet_fields) simp_all
  then show ?thesis by (simp add: px_disconnect_def Let_def px_quiet_post)
qed

lemma px_quiet_chunks: "px_quiet p q \<Longrightarrow> px_quiet p (fold (\<lambda>c. px_post (Proxy_ClipboardSending c)) cs q)"
  by (induction cs arbitrary: q) (simp_all add: px_quiet_post)

lemma px_quiet_calls:
  "px_quiet p (px_set_clipboard e i cb p)" "px_quiet p (px_grab_clipboard i p)" "px_quiet p (px_set_dirty i d p)"
  "px_quiet p (px_key_down key m button lang p)" "px_quiet p (px_key_repeat key m count button lang p)"
  "px_quiet p (px_key_up key m button p)" "px_quiet p (px_mouse_wheel dx dy p)" "px_quiet p (px_reset_options e p)"
proof -
  show "px_quiet p (px_set_clipboard e i cb p)"
  proof (cases "px_minor p < 6 \<or> \<not> cc_dirty (px_clipboards p ! i)")
    case False
    then show ?thesis
      unfolding px_set_clipboard_def Let_def
      by (simp only: if_False, intro px_quiet_chunks) (rule px_quiet_fields [OF px_quiet_refl], simp_all)
  qed (simp add: px_set_clipboard_def)
  have "px_quiet p (px_send kMsgCClipboard [FA_Int (word_of_nat i), FA_Int 0] p)" by auto
  then show "px_quiet p (px_grab_clipboard i p)"
    unfolding px_grab_clipboard_def Let_def by (rule px_quiet_fields) simp_all
  show "px_quiet p (px_set_dirty i d p)"
    unfolding px_set_dirty_def by (rule px_quiet_fields [OF px_quiet_refl]) simp_all
  show "px_quiet p (px_reset_options e p)"
    unfolding px_reset_options_def by (intro px_quiet_heartbeat px_quiet_send px_quiet_refl)
qed (auto simp: px_key_down_def px_key_repeat_def px_key_up_def px_mouse_wheel_def)

lemma px_option_loop_quiet: "px_quiet p q \<Longrightarrow> px_option_loop e opts q = Some r \<Longrightarrow> px_quiet p r"
proof (induction e opts q rule: px_option_loop.induct)
  case (3 e opt v rest q)
  then show ?case by (auto simp: Let_def split: if_splits)
qed (auto split: if_splits)

lemma proxy_call_quiet: "proxy_call e c p = Some q \<Longrightarrow> px_quiet p q"
proof (cases c)
  case (SetOptions opts)
  moreover have "px_quiet p (px_send kMsgDSetOptions [FA_Vec4 opts] p)" by auto
  ultimately show "proxy_call e c p = Some q \<Longrightarrow> px_quiet p q"
    using px_option_loop_quiet by (simp add: px_set_options_def)
qed (auto simp: px_close_def px_quiet_calls split: if_splits)

text \<open>A handler keeps the phase, and it replaces the shape only by a valid one, before it says so.\<close>

definition px_calm :: "client_proxy \<Rightarrow> proxied \<Rightarrow> bool" where
  "px_calm p r \<longleftrightarrow> (\<forall>x q. r = Some (x, q) \<longrightarrow> px_quiet p q)"

lemma px_receive_calm:
  assumes "\<And>args q. px_quiet p q \<Longrightarrow> px_calm p (k args q)"
  shows "px_calm p (px_receive fmt p k)"
proof -
  obtain args x f where r: "readf filter_read (drop 4 fmt) (px_stream p) = ((args, x), f)" by (metis surj_pair)
  have "px_quiet p (p\<lparr>px_stream := f\<rparr>)" by (rule px_quiet_fields [OF px_quiet_refl]) simp_all
  then show ?thesis using assms r by (auto simp: px_calm_def px_receive_def split: readf_result.splits)
qed

lemma recv_grab_calm: "px_calm p (recv_grab_clipboard p)"
  unfolding recv_grab_clipboard_def
  by (rule px_receive_calm) (auto simp: px_calm_def not_le intro!: px_quiet_post split: list.splits fmt_arg.splits if_splits)

lemma clip_assemble_finished:
  "clip_assemble qn rd s a = (Some (CT_Finished, i, n), s', a') \<Longrightarrow> i < kClipboardEnd"
  by (auto simp: clip_assemble_def assemble_chunk_def not_le split: prod.splits readf_result.splits bool.splits
      list.splits fmt_arg.splits if_splits)

lemma px_recv_clipboard_calm: "px_calm p (px_recv_clipboard e p)"
proof -
  obtain x f a slots where x: "recv_clipboard (pe_number e) filter_read (px_stream p) (px_assembler p) (px_slots p) = (x, f, a, slots)"
    by (metis surj_pair)
  obtain y g b where y: "clip_assemble (pe_number e) filter_read (px_stream p) (px_assembler p) = (y, g, b)"
    by (metis surj_pair)
  have len: "length slots = length (px_clipboards p)"
    using x y by (auto simp: recv_clipboard_def px_slots_def split: option.splits prod.splits if_splits)
  have ids: "i < kClipboardEnd" if "x = CO_Updated i c" for i c
    using x y that clip_assemble_finished by (auto simp: recv_clipboard_def split: option.splits prod.splits if_splits)
  let ?p = "p\<lparr>px_stream := f, px_assembler := a,
    px_clipboards := map2 (\<lambda>cc (c, n). cc\<lparr>cc_clipboard := c, cc_seq := n\<rparr>) (px_clipboards p) slots\<rparr>"
  have "px_quiet p ?p" by (rule px_quiet_fields [OF px_quiet_refl]) (simp_all add: len)
  then show ?thesis
    using x ids by (auto simp: px_calm_def px_recv_clipboard_def Let_def intro!: px_quiet_post split: clip_outcome.splits)
qed

lemma px_quiet_inv:
  assumes "px_quiet p q" and "px_inv p"
  shows "px_inv q"
proof -
  obtain es where es: "px_posted q = px_posted p @ es" "list_all post_ok es" "list_all (\<lambda>e. \<not> tells_shape e) es"
    using assms(1) by (auto simp: px_quiet_def)
  then have "Proxy_Ready \<notin> set es" by (auto simp: list_all_iff)
  then have "count_list (px_posted q) Proxy_Ready = count_list (px_posted p) Proxy_Ready"
    by (simp add: es(1) count_list_append count_list_0_iff)
  moreover have "list_all post_ok (px_posted q)" using es assms(2) by (simp add: px_inv_def)
  moreover have "e \<in> set (px_posted p)" if "e \<in> set (px_posted q)" "tells_shape e" for e
    using that es by (auto simp: list_all_iff)
  ultimately show ?thesis using assms unfolding px_quiet_def px_inv_def by auto
qed

lemma px_calm_inv: "px_calm p r \<Longrightarrow> px_inv p \<Longrightarrow> r = Some (x, q) \<Longrightarrow> px_inv q"
  using px_quiet_inv by (auto simp: px_calm_def)

lemma recv_info_cases:
  assumes "recv_info p = Some (x, q)"
  shows "(x = PR_True \<longrightarrow> info_ok (px_info q)) \<and> (x \<noteq> PR_True \<longrightarrow> px_info q = px_info p) \<and>
    px_quiet p (q\<lparr>px_info := px_info p\<rparr>)"
proof -
  obtain args r f where r: "readf filter_read (drop 4 kMsgDInfo) (px_stream p) = ((args, r), f)" by (metis surj_pair)
  let ?p = "p\<lparr>px_stream := f\<rparr>"
  have quiet: "px_quiet p ?p" by (rule px_quiet_fields [OF px_quiet_refl]) simp_all
  have sent: "px_quiet p ((px_send kMsgCInfoAck [] (?p\<lparr>px_info := i\<rparr>))\<lparr>px_info := px_info p\<rparr>)"
      "px_info (px_send kMsgCInfoAck [] (?p\<lparr>px_info := i\<rparr>)) = i" for i
    by (auto simp: px_send_def split: option.split intro!: px_quiet_fields [OF quiet])
  have "x \<noteq> PR_True \<and> q = ?p \<or> x = PR_True \<and> (\<exists>i. info_ok i \<and> q = px_send kMsgCInfoAck [] (?p\<lparr>px_info := i\<rparr>))"
    using assms r
    by (auto simp: recv_info_def px_receive_def not_le split: readf_result.splits if_splits list.splits fmt_arg.splits)
       (blast intro: make_info_ok int16_range)
  then show ?thesis using quiet sent by auto
qed

lemma px_inv_info: "px_quiet p (q\<lparr>px_info := px_info p\<rparr>) \<Longrightarrow> px_inv p \<Longrightarrow> info_ok (px_info q) \<Longrightarrow> px_inv q"
  using px_quiet_inv [of p "q\<lparr>px_info := px_info p\<rparr>"] by (auto simp: px_inv_def)

lemma px_same_info: "px_info q = px_info p \<Longrightarrow> q\<lparr>px_info := px_info p\<rparr> = q"
  by (cases q) auto

lemma px_inv_announce:
  assumes "px_inv p" and "info_ok (px_info p)" and "\<not> px_handshake p" and "e = Proxy_Ready \<Longrightarrow> Proxy_Ready \<notin> set (px_posted p)"
    and "post_ok e"
  shows "px_inv (px_post e p)"
  using assms by (auto simp: px_inv_def px_post_def count_list_append count_list_0_iff)

lemma recv_info_inv:
  assumes p: "px_inv p" "\<not> px_handshake p" and r: "recv_info p = Some (x, q)"
  shows "px_inv q \<and> \<not> px_handshake q \<and> (x = PR_True \<longrightarrow> info_ok (px_info q)) \<and>
    (Proxy_Ready \<in> set (px_posted q) \<longrightarrow> Proxy_Ready \<in> set (px_posted p))"
proof -
  note cases = recv_info_cases [OF r]
  then obtain es where es: "px_posted q = px_posted p @ es" "list_all (\<lambda>e. \<not> tells_shape e) es"
    by (auto simp: px_quiet_def)
  then have "Proxy_Ready \<notin> set es" by (auto simp: list_all_iff)
  moreover have "px_inv q"
  proof (cases "x = PR_True")
    case True
    then show ?thesis using px_inv_info [OF _ p(1)] cases by simp
  next
    case False
    then have "q\<lparr>px_info := px_info p\<rparr> = q" using cases px_same_info by blast
    then have "px_quiet p q" using cases by simp
    then show ?thesis using p(1) by (rule px_quiet_inv)
  qed
  moreover have "\<not> px_handshake q" using cases p(2) by (simp add: px_quiet_def)
  ultimately show ?thesis using cases es(1) by auto
qed

lemma info_handshake_inv:
  assumes p: "px_inv p" "px_handshake p"
    and r: "(case recv_info (p\<lparr>px_handshake := False\<rparr>) of
        Some (PR_True, p1) \<Rightarrow> Some (PR_True, add_heartbeat_timer (px_post Proxy_Ready p1)) | r \<Rightarrow> r) = Some (x, q)"
  shows "px_inv q"
proof -
  let ?p = "p\<lparr>px_handshake := False\<rparr>"
  have none: "Proxy_Ready \<notin> set (px_posted p)" and start: "px_inv ?p" using p by (auto simp: px_inv_def)
  obtain y p1 where y: "recv_info ?p = Some (y, p1)" using r by (cases "recv_info ?p") auto
  note inv = recv_info_inv [OF start _ y]
  show ?thesis
  proof (cases "y = PR_True")
    case True
    then have "px_inv (px_post Proxy_Ready p1)" using inv none by (intro px_inv_announce) auto
    then show ?thesis using r y True px_quiet_inv [OF px_quiet_heartbeat(1) [OF px_quiet_refl]] by auto
  next
    case False
    then show ?thesis using r y inv by (cases y) auto
  qed
qed

lemma info_changed_inv:
  assumes p: "px_inv p" "\<not> px_handshake p"
    and r: "(case recv_info p of Some (PR_True, p1) \<Rightarrow> Some (PR_True, px_post Proxy_ShapeChanged p1) | r \<Rightarrow> r) = Some (x, q)"
  shows "px_inv q"
proof -
  obtain y p1 where y: "recv_info p = Some (y, p1)" using r by (cases "recv_info p") auto
  note inv = recv_info_inv [OF p y]
  show ?thesis
  proof (cases "y = PR_True")
    case True
    then have "px_inv (px_post Proxy_ShapeChanged p1)" using inv by (intro px_inv_announce) auto
    then show ?thesis using r y True by auto
  next
    case False
    then show ?thesis using r y inv by (cases y) auto
  qed
qed

lemma px_parse_inv:
  assumes p: "px_inv p" and r: "px_parse e code p = Some (x, q)"
  shows "px_inv q"
proof -
  have "px_calm p (recv_grab_clipboard p)" "px_calm p (px_recv_clipboard e p)" "px_calm p (Some (y, p))"
      "px_calm p (Some (y, reset_heartbeat_timer p))" for y
    using recv_grab_clipboard_def recv_grab_calm px_recv_clipboard_calm by (auto simp: px_calm_def)
  note calm = this [THEN px_calm_inv, OF p]
  show ?thesis
  proof (cases "px_handshake p")
    case True
    then show ?thesis
      using r info_handshake_inv [OF p True] calm(3) by (auto simp: px_parse_def px_parse_handshake_def split: if_splits)
  next
    case False
    then show ?thesis
      using r info_changed_inv [OF p False] calm by (auto simp: px_parse_def px_parse_message_def split: if_splits)
  qed
qed

lemma px_handle_data_unfold:
  "filter_read 4 (px_stream p) = (code, f) \<Longrightarrow>
   px_handle_data e p =
     (if code = [] then Some (reset_heartbeat_timer (p\<lparr>px_stream := f\<rparr>))
      else if length code \<noteq> 4 then Some (px_disconnect (p\<lparr>px_stream := f\<rparr>))
      else case px_parse e code (p\<lparr>px_stream := f\<rparr>) of
        None \<Rightarrow> None
      | Some (PR_True, q) \<Rightarrow> px_handle_data e q
      | Some (PR_False, q) \<Rightarrow> px_handle_data e (q\<lparr>px_stream := discard_input (px_stream q)\<rparr>)
      | Some (PR_Throw, q) \<Rightarrow> Some (px_disconnect q))"
  by (subst px_handle_data.simps) (simp add: Let_def)

lemma px_inv_stream [simp]: "px_inv (p\<lparr>px_stream := f\<rparr>) = px_inv p"
  by (simp add: px_inv_def)

lemma px_inv_kept:
  assumes "px_inv p"
  shows "px_inv (px_disconnect p)" "px_inv (reset_heartbeat_timer p)" "px_inv (keep_alive p)"
  unfolding keep_alive_def
  by (rule px_quiet_inv [OF _ assms], intro px_quiet_disconnect px_quiet_heartbeat px_quiet_send px_quiet_refl)+

lemma px_handle_data_inv: "px_inv p \<Longrightarrow> px_handle_data e p = Some q \<Longrightarrow> px_inv q"
proof (induction e p rule: px_handle_data.induct)
  case (1 e p)
  obtain code f where code: "filter_read 4 (px_stream p) = (code, f)" by fastforce
  let ?p = "p\<lparr>px_stream := f\<rparr>"
  note step = "1.prems"(2) [unfolded px_handle_data_unfold [OF code]]
  have inv: "px_inv ?p" using "1.prems"(1) by simp
  show ?case
  proof (cases "code = [] \<or> length code \<noteq> 4")
    case True
    then show ?thesis using step px_inv_kept [OF inv] by (auto split: if_splits)
  next
    case False
    obtain x p1 where p1: "px_parse e code ?p = Some (x, p1)"
      using step False by (cases "px_parse e code ?p") auto
    note inv1 = px_parse_inv [OF inv p1]
    note IH = "1.IH" [OF code [symmetric] refl _ _ p1 refl]
    show ?thesis
      using False step p1 inv1 IH px_inv_kept(1) [OF inv1] by (cases x) auto
  qed
qed

lemma proxy_step_inv:
  assumes p: "px_inv p" and q: "proxy_step e ev p = Some q"
  shows "px_inv q"
proof (cases ev)
  case PX_Input
  then show ?thesis using q p px_handle_data_inv [OF p, of e q] by (auto split: if_splits)
next
  case (PX_Call c)
  then show ?thesis using q px_quiet_inv [OF proxy_call_quiet p, of e c q] by simp
qed (use q p px_inv_kept [OF p] in \<open>auto split: if_splits\<close>)

interpretation proxy: partial_machine "proxy_step e" px_inv for e
  by unfold_locales (rule proxy_step_inv)

lemma new_proxy_inv: "px_inv (new_client_proxy e minor name f a)"
proof -
  have "px_inv (px_send kMsgQInfo [] p)" "px_inv (px_send kMsgDLanguageSynchronisation [FA_Str l] p)"
      "px_inv (set_heartbeat_rate e r al p)" if "px_inv p" for p l r al
    by (rule px_quiet_inv [OF _ that], intro px_quiet_heartbeat px_quiet_send px_quiet_refl)+
  then show ?thesis
    by (simp add: new_client_proxy_def Let_def) (auto simp: px_inv_def)
qed

text \<open>No step changes who the client is, or takes back an event that was posted.\<close>

definition px_same :: "client_proxy \<Rightarrow> client_proxy \<Rightarrow> bool" where
  "px_same p q \<longleftrightarrow>
     px_minor q = px_minor p \<and> px_name q = px_name p \<and> (\<exists>es. px_posted q = px_posted p @ es)"

lemma px_same_trans: "px_same p q \<Longrightarrow> px_same q r \<Longrightarrow> px_same p r"
  by (auto simp: px_same_def)

lemma px_quiet_same: "px_quiet p q \<Longrightarrow> px_same p q"
  by (auto simp: px_quiet_def px_same_def)

lemma px_same_stream [simp]: "px_same p (q\<lparr>px_stream := f\<rparr>) = px_same p q" "px_same (p\<lparr>px_stream := f\<rparr>) q = px_same p q"
  by (simp_all add: px_same_def)

lemma recv_info_same: "recv_info p = Some (x, q) \<Longrightarrow> px_same p q"
  using recv_info_cases [of p x q] by (auto simp: px_quiet_def px_same_def)

lemma px_same_timers: "px_same p q \<Longrightarrow> px_same p (add_heartbeat_timer (px_post e q))" "px_same p q \<Longrightarrow> px_same p (px_post e q)"
  by (auto simp: px_same_def px_post_def add_heartbeat_timer_def add_alarm_def)

lemma recv_info_then_same:
  assumes "px_same p p0" and "\<And>p1. px_same p p1 \<Longrightarrow> px_same p (g p1)"
    and "(case recv_info p0 of Some (PR_True, p1) \<Rightarrow> Some (PR_True, g p1) | r \<Rightarrow> r) = Some (x, q)"
  shows "px_same p q"
proof -
  obtain y p1 where y: "recv_info p0 = Some (y, p1)" using assms(3) by (cases "recv_info p0") auto
  then have "px_same p p1" using px_same_trans [OF assms(1) recv_info_same [OF y]] by simp
  then show ?thesis using assms(2,3) y by (cases y) auto
qed

lemma px_parse_same:
  assumes r: "px_parse e code p = Some (x, q)"
  shows "px_same p q"
proof -
  have calm: "px_same p q" if "px_calm p r" "r = Some (x, q)" for r
    using that px_quiet_same by (auto simp: px_calm_def)
  note calms = calm [OF recv_grab_calm] calm [OF px_recv_clipboard_calm [of p e]]
  have timer: "px_same p p" "px_same p (reset_heartbeat_timer p)" "px_same p (p\<lparr>px_handshake := False\<rparr>)"
    by (simp_all add: px_same_def reset_heartbeat_timer_def remove_alarm_def add_alarm_def)
  have first: "px_same p q" if "(case recv_info (p\<lparr>px_handshake := False\<rparr>) of
      Some (PR_True, p1) \<Rightarrow> Some (PR_True, add_heartbeat_timer (px_post Proxy_Ready p1)) | r \<Rightarrow> r) = Some (x, q)"
    using recv_info_then_same [of p _ "\<lambda>p1. add_heartbeat_timer (px_post Proxy_Ready p1)", OF timer(3) px_same_timers(1) that] .
  have later: "px_same p q" if "(case recv_info p of
      Some (PR_True, p1) \<Rightarrow> Some (PR_True, px_post Proxy_ShapeChanged p1) | r \<Rightarrow> r) = Some (x, q)"
    using recv_info_then_same [of p _ "px_post Proxy_ShapeChanged", OF timer(1) px_same_timers(2) that] .
  show ?thesis
  proof (cases "px_handshake p")
    case True
    then show ?thesis using r timer(1) first unfolding px_parse_def px_parse_handshake_def
      by (simp split: if_split_asm)
  next
    case False
    then show ?thesis using r timer(1,2) later calms unfolding px_parse_def px_parse_message_def
      by (simp split: if_split_asm)
  qed
qed

lemma px_handle_data_same: "px_handle_data e p = Some q \<Longrightarrow> px_same p q"
proof (induction e p rule: px_handle_data.induct)
  case (1 e p)
  obtain code f where code: "filter_read 4 (px_stream p) = (code, f)" by fastforce
  let ?p = "p\<lparr>px_stream := f\<rparr>"
  note step = "1.prems" [unfolded px_handle_data_unfold [OF code]]
  show ?case
  proof (cases "code = [] \<or> length code \<noteq> 4")
    case True
    have "px_quiet ?p (reset_heartbeat_timer ?p)" "px_quiet ?p (px_disconnect ?p)"
      by (intro px_quiet_heartbeat px_quiet_disconnect px_quiet_refl)+
    then show ?thesis using True step px_quiet_same by (fastforce split: if_splits)
  next
    case False
    obtain x p1 where p1: "px_parse e code ?p = Some (x, p1)"
      using step False by (cases "px_parse e code ?p") auto
    note IH = "1.IH" [OF code [symmetric] refl _ _ p1 refl]
    have "px_quiet p1 (px_disconnect p1)" by (intro px_quiet_disconnect px_quiet_refl)
    then have "px_same p1 q" using False step p1 IH px_quiet_same by (cases x) auto
    then show ?thesis using px_same_trans [OF px_parse_same [OF p1]] by simp
  qed
qed

lemma proxy_step_same:
  assumes "proxy_step e ev p = Some q"
  shows "px_same p q"
proof (cases ev)
  case PX_Input
  then show ?thesis using assms px_handle_data_same [of e p q] by (auto simp: px_same_def split: if_splits)
next
  case (PX_Call c)
  then show ?thesis using assms px_quiet_same [OF proxy_call_quiet, of e c p q] by simp
next
  case PX_KeepAlive
  have "px_quiet p (keep_alive p)" unfolding keep_alive_def by (intro px_quiet_send px_quiet_refl)
  then show ?thesis using PX_KeepAlive assms px_quiet_same by (auto simp: px_same_def split: if_splits)
qed (use assms px_quiet_same [OF px_quiet_disconnect [OF px_quiet_refl]] in
  \<open>auto simp: px_same_def split: if_splits\<close>)

section \<open>What can go wrong\<close>

text \<open>
  A no-op before the client's information starts the alarm; the information then starts a second one over
  it. The first cannot be removed any more, and when it fires the client is disconnected.
\<close>

lemma early_alarm_is_lost:
  assumes "px_alarm p" and "0 < px_alarm_after p"
  shows "px_lost_alarms (reset_heartbeat_timer (add_heartbeat_timer p)) = Suc (px_lost_alarms p)"
  using assms by (simp add: reset_heartbeat_timer_def add_heartbeat_timer_def add_alarm_def remove_alarm_def)

lemma lost_alarm_disconnects:
  "px_handlers p \<Longrightarrow> 0 < px_lost_alarms p \<Longrightarrow> proxy_step e PX_Alarm (remove_alarm p) = Some (px_disconnect (remove_alarm p))"
  by (simp add: remove_alarm_def)

text \<open>The body of a file or drag message is left in the stream and then read as codes of messages.\<close>

lemma file_message_not_read:
  "5 \<le> px_minor p \<Longrightarrow> \<not> px_handshake p \<Longrightarrow> px_parse e (message_code kMsgDFileTransfer) p = Some (PR_True, p)"
  by (simp add: px_parse_def px_parse_message_def is_code_def)

text \<open>The centre of a screen that ends beyond the 16 bit coordinates wraps to the other side.\<close>

lemma centre_wraps: "info_mx (make_info 30000 0 10000 100 0 0) = - 30536"
  by (simp add: make_info_def wrap16_def)

lemma odd_proxy_options_undefined: "proxy_call e (SetOptions [kOptionHeartbeat]) p = None"
  by (simp add: px_set_options_def)

end
