(* ===== verification/ClientAdmission.thy ===== *)
theory ClientAdmission
  imports ClientProxy
begin

text \<open>
  \<open>ClientProxyUnknown\<close> and \<open>ClientListener\<close> (src/lib/server): a connection that was accepted says hello,
  and becomes a proxy of the version in the client's answer; when the proxy is ready the listener puts it
  into its queue, from which the server takes it. Objects are numbered. \<open>None\<close> is undefined behaviour.
\<close>

section \<open>A client that is not known yet\<close>

text \<open>
  \<open>un_watched\<close>: handlers for the events of the proxy are installed. \<open>un_delivered\<close> counts the events of the
  proxy that the queue has delivered; \<open>un_orphaned\<close> are events of a proxy that was deleted meanwhile.
\<close>

datatype unknown_post = Unknown_Success | Unknown_Failure

record unknown_client =
  un_stream :: "packet_filter option"
  un_proxy :: "client_proxy option"
  un_timer :: bool
  un_ready :: bool
  un_handlers :: bool
  un_watched :: bool
  un_delivered :: nat
  un_orphaned :: "proxy_post list"
  un_assembler :: assembler
  un_posted :: "unknown_post list"

definition kMaxHelloLength :: u32 where "kMaxHelloLength = 1024"

definition write_message :: "string \<Rightarrow> fmt_arg list \<Rightarrow> packet_filter \<Rightarrow> packet_filter" where
  "write_message fmt args f =
     (case writef fmt args of None \<Rightarrow> f | Some msg \<Rightarrow> if msg = [] then f else filter_write msg f)"

definition new_unknown_client :: "string \<Rightarrow> assembler \<Rightarrow> packet_filter \<Rightarrow> unknown_client" where
  "new_unknown_client protocol a f =
     \<lparr>un_stream = Some (write_message (protocol @ kMsgHelloArgs)
        [FA_Int kProtocolMajorVersion, FA_Int kProtocolMinorVersion] f),
      un_proxy = None, un_timer = True, un_ready = False, un_handlers = True, un_watched = False,
      un_delivered = 0, un_orphaned = [], un_assembler = a, un_posted = []\<rparr>"

definition un_remove_handlers :: "unknown_client \<Rightarrow> unknown_client" where
  "un_remove_handlers u =
     (let u1 = (if un_stream u \<noteq> None then u\<lparr>un_handlers := False\<rparr> else u)
      in if un_proxy u1 \<noteq> None then u1\<lparr>un_watched := False\<rparr> else u1)"

definition send_success :: "unknown_client \<Rightarrow> unknown_client" where
  "send_success u = u\<lparr>un_ready := True, un_timer := False, un_posted := un_posted u @ [Unknown_Success]\<rparr>"

text \<open>The proxy is deleted before \<open>removeHandlers\<close> looks at it.\<close>

definition send_failure :: "unknown_client \<Rightarrow> unknown_client" where
  "send_failure u =
     (let lost = (case un_proxy u of None \<Rightarrow> [] | Some p \<Rightarrow> drop (un_delivered u) (px_posted p));
          u1 = un_remove_handlers (u\<lparr>un_proxy := None, un_ready := False, un_orphaned := un_orphaned u @ lost\<rparr>)
      in u1\<lparr>un_timer := False, un_posted := un_posted u1 @ [Unknown_Failure]\<rparr>)"

text \<open>\<open>orphanClientProxy\<close>: the proxy that is handed over, and the unknown client without it.\<close>

definition orphan_client_proxy :: "unknown_client \<Rightarrow> client_proxy option \<times> unknown_client" where
  "orphan_client_proxy u =
     (if un_ready u then (un_proxy u, (un_remove_handlers u)\<lparr>un_proxy := None\<rparr>) else (None, u))"

text \<open>\<open>initProxy\<close>: \<open>None\<close> is the exception for an incompatible version.\<close>

definition init_proxy :: "proxy_env \<Rightarrow> bytes \<Rightarrow> int \<Rightarrow> int \<Rightarrow> packet_filter \<Rightarrow> assembler \<Rightarrow> client_proxy option" where
  "init_proxy e name major minor f a =
     (if major = 1 \<and> 0 \<le> minor \<and> minor \<le> 8 then Some (new_client_proxy e (nat minor) name f a) else None)"

definition refuse_hello :: "string \<Rightarrow> fmt_arg list \<Rightarrow> packet_filter \<Rightarrow> unknown_client \<Rightarrow> unknown_client" where
  "refuse_hello fmt args f u = send_failure (u\<lparr>un_stream := Some (write_message fmt args f)\<rparr>)"

definition refuse_version :: "packet_filter \<Rightarrow> unknown_client \<Rightarrow> unknown_client" where
  "refuse_version f u =
     refuse_hello kMsgEIncompatible [FA_Int kProtocolMajorVersion, FA_Int kProtocolMinorVersion] f u"

definition un_handle_data :: "proxy_env \<Rightarrow> unknown_client \<Rightarrow> unknown_client option" where
  "un_handle_data e u =
     (case un_stream u of
        None \<Rightarrow> None
      | Some f \<Rightarrow>
          if filter_get_size f > kMaxHelloLength then Some (refuse_hello kMsgEBad [] f u)
          else
            (case readf filter_read kMsgHelloBack f of ((args, r), f1) \<Rightarrow>
               let u1 = u\<lparr>un_stream := Some f1\<rparr> in
               (case r of
                  RF_Abort \<Rightarrow> None
                | RF_Throw \<Rightarrow> Some (refuse_hello kMsgEBad [] f1 u1)
                | RF_Return ok \<Rightarrow>
                    if \<not> ok then Some (refuse_hello kMsgEBad [] f1 u1)
                    else (case args of
                      [FA_Str protocol, FA_Int major, FA_Int minor, FA_Str name] \<Rightarrow>
                        if int16 major \<le> 0 \<or> int16 minor < 0 then Some (refuse_version f1 u1)
                        else let u2 = un_remove_handlers u1 in
                          (case init_proxy e name (int16 major) (int16 minor) f1 (un_assembler u2) of
                             None \<Rightarrow> Some (refuse_version f1 u2)
                           | Some p \<Rightarrow> Some (u2\<lparr>un_stream := None, un_proxy := Some p, un_watched := True\<rparr>))
                    | _ \<Rightarrow> None))))"

section \<open>Its events\<close>

datatype unknown_event =
    UE_Data
  | UE_Lost
  | UE_Timer
  | UE_Arrive "nat \<Rightarrow> read_answer"
  | UE_Filter stream_event
  | UE_Proxy proxy_event
  | UE_Deliver
  | UE_DeliverOrphaned

text \<open>An event of the proxy reaches the handlers, if there are any.\<close>

fun un_deliver :: "proxy_post \<Rightarrow> unknown_client \<Rightarrow> unknown_client" where
  "un_deliver Proxy_Ready u = (if un_watched u then send_success u else u)"
| "un_deliver Proxy_Disconnected u = (if un_watched u then send_failure u else u)"
| "un_deliver x u = u"

definition on_un_stream :: "(packet_filter \<Rightarrow> packet_filter) \<Rightarrow> unknown_client \<Rightarrow> unknown_client" where
  "on_un_stream g u = u\<lparr>un_stream := map_option g (un_stream u)\<rparr>"

fun unknown_step :: "proxy_env \<Rightarrow> unknown_event \<Rightarrow> unknown_client \<Rightarrow> unknown_client option" where
  "unknown_step e UE_Data u = (if un_handlers u then un_handle_data e u else Some u)"
| "unknown_step e UE_Lost u = Some (if un_handlers u then send_failure u else u)"
| "unknown_step e UE_Timer u = Some (if un_timer u then send_failure u else u)"
| "unknown_step e (UE_Arrive answers) u = Some (on_un_stream (packet_arrive answers) u)"
| "unknown_step e (UE_Filter ev) u = Some (on_un_stream (filter_event ev) u)"
| "unknown_step e (UE_Proxy ev) u =
     (case un_proxy u of
        None \<Rightarrow> Some u
      | Some p \<Rightarrow> map_option (\<lambda>q. u\<lparr>un_proxy := Some q\<rparr>) (proxy_step e ev p))"
| "unknown_step e UE_Deliver u =
     Some (case un_proxy u of
        None \<Rightarrow> u
      | Some p \<Rightarrow>
          if un_delivered u < length (px_posted p)
          then un_deliver (px_posted p ! un_delivered u) (u\<lparr>un_delivered := Suc (un_delivered u)\<rparr>)
          else u)"
| "unknown_step e UE_DeliverOrphaned u =
     Some (case un_orphaned u of [] \<Rightarrow> u | x # xs \<Rightarrow> un_deliver x (u\<lparr>un_orphaned := xs\<rparr>))"

section \<open>What is handed over\<close>

text \<open>
  A proxy that may be handed over: its version is one of the nine, it told a valid screen and it is past its
  handshake.
\<close>

definition introduced :: "client_proxy \<Rightarrow> bool" where
  "introduced p \<longleftrightarrow> px_inv p \<and> px_minor p \<le> 8 \<and> Proxy_Ready \<in> set (px_posted p)"

lemma introduced_facts: "introduced p \<Longrightarrow> \<not> px_handshake p \<and> info_ok (px_info p)"
  unfolding introduced_def px_inv_def using tells_shape.simps(1) by blast

lemma introduced_step: "introduced p \<Longrightarrow> proxy_step e ev p = Some q \<Longrightarrow> introduced q"
  using proxy_step_inv [of p e ev q] proxy_step_same [of e ev p q] by (auto simp: introduced_def px_same_def)

definition un_inv :: "unknown_client \<Rightarrow> bool" where
  "un_inv u \<longleftrightarrow>
     (un_handlers u \<longrightarrow> un_stream u \<noteq> None \<and> un_proxy u = None \<and> \<not> un_ready u) \<and>
     (un_timer u \<longrightarrow> \<not> un_ready u) \<and> (un_orphaned u \<noteq> [] \<longrightarrow> \<not> un_handlers u \<and> un_proxy u = None) \<and>
     (\<forall>p. un_proxy u = Some p \<longrightarrow>
        un_stream u = None \<and> px_inv p \<and> px_minor p \<le> 8 \<and> (un_ready u \<longrightarrow> Proxy_Ready \<in> set (px_posted p)))"

lemma remove_handlers_simps [simp]:
  "un_stream (un_remove_handlers u) = un_stream u" "un_proxy (un_remove_handlers u) = un_proxy u"
  "un_ready (un_remove_handlers u) = un_ready u" "un_timer (un_remove_handlers u) = un_timer u"
  "un_posted (un_remove_handlers u) = un_posted u" "un_orphaned (un_remove_handlers u) = un_orphaned u"
  "un_handlers (un_remove_handlers u) = (un_handlers u \<and> un_stream u = None)"
  by (auto simp: un_remove_handlers_def Let_def)

lemma send_failure_inv: "(un_handlers u \<longrightarrow> un_stream u \<noteq> None) \<Longrightarrow> un_inv (send_failure u)"
  by (auto simp: un_inv_def send_failure_def Let_def)

lemma new_proxy_minor: "px_minor (new_client_proxy e minor name f a) = minor"
  by (simp add: new_client_proxy_def Let_def px_send_def set_heartbeat_rate_def split: option.split)

lemma new_unknown_inv: "un_inv (new_unknown_client protocol a f)"
  by (simp add: un_inv_def new_unknown_client_def)

lemma un_handle_data_inv:
  assumes "un_inv u" and "un_handlers u" and "un_handle_data e u = Some v"
  shows "un_inv v"
proof -
  obtain f where f: "un_stream u = Some f" using assms(3) by (auto simp: un_handle_data_def split: option.splits)
  have refused: "un_inv (refuse_hello fmt args g w)" for fmt args g w
    unfolding refuse_hello_def by (rule send_failure_inv) simp
  have ready: "\<not> un_ready u" "un_orphaned u = []" using assms(1,2) by (auto simp: un_inv_def)
  then have "un_inv ((un_remove_handlers (u\<lparr>un_stream := Some g\<rparr>))\<lparr>un_stream := None, un_proxy := Some p, un_watched := True\<rparr>)"
    if "init_proxy e name major minor h a = Some p" for name major minor g h a p
    using that ready new_proxy_minor new_proxy_inv by (auto simp: un_inv_def init_proxy_def split: if_splits)
  then show ?thesis
    using assms(3) f refused
    by (auto simp: un_handle_data_def Let_def refuse_version_def split: prod.splits readf_result.splits if_splits
        list.splits fmt_arg.splits option.splits)
qed

lemma un_deliver_inv:
  assumes "un_inv u" and "x = Proxy_Ready \<Longrightarrow> un_handlers u = False \<and> (\<forall>p. un_proxy u = Some p \<longrightarrow> Proxy_Ready \<in> set (px_posted p))"
  shows "un_inv (un_deliver x u)"
proof (cases x)
  case Proxy_Ready
  then show ?thesis using assms by (auto simp: un_inv_def send_success_def)
next
  case Proxy_Disconnected
  have "un_handlers u \<longrightarrow> un_stream u \<noteq> None" using assms(1) by (simp add: un_inv_def)
  then show ?thesis using Proxy_Disconnected assms(1) send_failure_inv by auto
qed (use assms(1) in simp_all)

lemma unknown_step_inv:
  assumes u: "un_inv u" and v: "unknown_step e ev u = Some v"
  shows "un_inv v"
proof (cases ev)
  case UE_Data
  then show ?thesis using u v un_handle_data_inv by (auto split: if_splits)
next
  case (UE_Proxy pe)
  then obtain p where p: "un_proxy u = None \<and> v = u \<or> un_proxy u = Some p \<and> (\<exists>q. proxy_step e pe p = Some q \<and> v = u\<lparr>un_proxy := Some q\<rparr>)"
    using v by (auto split: option.splits)
  then show ?thesis
  proof (cases "un_proxy u")
    case (Some p')
    then obtain q where q: "proxy_step e pe p = Some q" "v = u\<lparr>un_proxy := Some q\<rparr>" "un_proxy u = Some p" using p by auto
    then show ?thesis
      using u proxy_step_inv [OF _ q(1)] proxy_step_same [OF q(1)] by (auto simp: un_inv_def px_same_def)
  qed (use p u in simp)
next
  case UE_Deliver
  show ?thesis
  proof (cases "\<exists>p. un_proxy u = Some p \<and> un_delivered u < length (px_posted p)")
    case True
    then obtain p where p: "un_proxy u = Some p" "un_delivered u < length (px_posted p)" by blast
    have "un_inv (u\<lparr>un_delivered := Suc (un_delivered u)\<rparr>)" "\<not> un_handlers u" using u p by (auto simp: un_inv_def)
    moreover have "Proxy_Ready \<in> set (px_posted p)" if "px_posted p ! un_delivered u = Proxy_Ready"
      using nth_mem [OF p(2)] that by simp
    ultimately have "un_inv (un_deliver (px_posted p ! un_delivered u) (u\<lparr>un_delivered := Suc (un_delivered u)\<rparr>))"
      using p by (intro un_deliver_inv) auto
    then show ?thesis using UE_Deliver v p by simp
  next
    case False
    then show ?thesis using UE_Deliver v u by (auto split: option.splits)
  qed
next
  case UE_DeliverOrphaned
  show ?thesis
  proof (cases "un_orphaned u")
    case (Cons x xs)
    have "un_inv (u\<lparr>un_orphaned := xs\<rparr>)" "\<not> un_handlers u" "un_proxy u = None"
      using u Cons by (auto simp: un_inv_def)
    then show ?thesis using UE_DeliverOrphaned v Cons by (auto intro!: un_deliver_inv)
  qed (use UE_DeliverOrphaned v u in simp)
next
  case UE_Lost
  have "un_handlers u \<longrightarrow> un_stream u \<noteq> None" using u by (simp add: un_inv_def)
  then show ?thesis using UE_Lost v u send_failure_inv by (auto split: if_splits)
next
  case UE_Timer
  have "un_handlers u \<longrightarrow> un_stream u \<noteq> None" using u by (simp add: un_inv_def)
  then show ?thesis using UE_Timer v u send_failure_inv by (auto split: if_splits)
qed (use u v in \<open>auto simp: un_inv_def on_un_stream_def\<close>)

interpretation unknown: partial_machine "unknown_step e" un_inv for e
  by unfold_locales (rule unknown_step_inv)

lemma orphan_introduced: "un_inv u \<Longrightarrow> orphan_client_proxy u = (Some p, v) \<Longrightarrow> introduced p"
  by (auto simp: orphan_client_proxy_def introduced_def un_inv_def split: if_splits)

section \<open>The listener\<close>

text \<open>
  \<open>m_newClients\<close> and \<open>m_waitingClients\<close>, with the address of each object. \<open>ln_accepted\<close> counts the events
  that tell the server to fetch a client. The listen socket and the set of accepted sockets, which is only
  looked at when the listener is stopped, are left out.
\<close>

record listener =
  ln_unknown :: "(nat \<times> unknown_client) list"
  ln_waiting :: "(nat \<times> client_proxy) list"
  ln_accepted :: nat
  ln_served :: "client_proxy list"

definition new_listener :: listener where
  "new_listener = \<lparr>ln_unknown = [], ln_waiting = [], ln_accepted = 0, ln_served = []\<rparr>"

definition drop_key :: "nat \<Rightarrow> (nat \<times> 'a) list \<Rightarrow> (nat \<times> 'a) list" where
  "drop_key i xs = filter (\<lambda>x. fst x \<noteq> i) xs"

definition remove_unknown_client :: "nat \<Rightarrow> listener \<Rightarrow> listener" where
  "remove_unknown_client i l = l\<lparr>ln_unknown := drop_key i (ln_unknown l)\<rparr>"

definition handle_client_accepted :: "nat \<Rightarrow> string \<Rightarrow> assembler \<Rightarrow> packet_filter \<Rightarrow> listener \<Rightarrow> listener" where
  "handle_client_accepted i protocol a f l =
     l\<lparr>ln_unknown := (i, new_unknown_client protocol a f) # drop_key i (ln_unknown l)\<rparr>"

text \<open>The proxy keeps its address \<open>j\<close> in the queue of waiting clients.\<close>

definition handle_unknown_client :: "nat \<Rightarrow> nat \<Rightarrow> listener \<Rightarrow> listener option" where
  "handle_unknown_client i j l =
     (case map_of (ln_unknown l) i of
        None \<Rightarrow> None
      | Some u \<Rightarrow>
          (case orphan_client_proxy u of
             (Some p, _) \<Rightarrow>
               Some (remove_unknown_client i
                 (l\<lparr>ln_waiting := ln_waiting l @ [(j, p)], ln_accepted := Suc (ln_accepted l)\<rparr>))
           | (None, _) \<Rightarrow> Some (remove_unknown_client i l)))"

definition get_next_client :: "listener \<Rightarrow> client_proxy option \<times> listener" where
  "get_next_client l =
     (case ln_waiting l of
        [] \<Rightarrow> (None, l)
      | (j, p) # rest \<Rightarrow> (Some p, l\<lparr>ln_waiting := rest, ln_served := ln_served l @ [p]\<rparr>))"

text \<open>
  \<open>handleClientDisconnected\<close> deletes the client, whose destructor deletes the stream, and then deletes the
  stream again.
\<close>

definition handle_client_gone :: "nat \<Rightarrow> listener \<Rightarrow> listener option" where
  "handle_client_gone j l = (if j \<in> fst ` set (ln_waiting l) then None else Some l)"

datatype listener_event =
    LE_Accept nat string assembler packet_filter
  | LE_Unknown nat unknown_event
  | LE_Success nat nat
  | LE_Failure nat
  | LE_Waiting nat proxy_event
  | LE_Gone nat
  | LE_Next

fun update_at :: "nat \<Rightarrow> ('a \<Rightarrow> 'a option) \<Rightarrow> (nat \<times> 'a) list \<Rightarrow> (nat \<times> 'a) list option" where
  "update_at i g [] = Some []"
| "update_at i g ((j, x) # xs) =
     (if i = j then map_option (\<lambda>y. (j, y) # xs) (g x) else map_option (Cons (j, x)) (update_at i g xs))"

definition unknown_posted :: "unknown_post \<Rightarrow> nat \<Rightarrow> listener \<Rightarrow> bool" where
  "unknown_posted x i l = list_ex (\<lambda>(k, u). k = i \<and> x \<in> set (un_posted u)) (ln_unknown l)"

fun listener_step :: "proxy_env \<Rightarrow> listener_event \<Rightarrow> listener \<Rightarrow> listener option" where
  "listener_step e (LE_Accept i protocol a f) l = Some (handle_client_accepted i protocol a f l)"
| "listener_step e (LE_Unknown i ev) l =
     map_option (\<lambda>us. l\<lparr>ln_unknown := us\<rparr>) (update_at i (unknown_step e ev) (ln_unknown l))"
| "listener_step e (LE_Success i j) l =
     (if unknown_posted Unknown_Success i l then handle_unknown_client i j l else Some l)"
| "listener_step e (LE_Failure i) l =
     Some (if unknown_posted Unknown_Failure i l then remove_unknown_client i l else l)"
| "listener_step e (LE_Waiting j ev) l =
     map_option (\<lambda>ps. l\<lparr>ln_waiting := ps\<rparr>) (update_at j (proxy_step e ev) (ln_waiting l))"
| "listener_step e (LE_Gone j) l = handle_client_gone j l"
| "listener_step e LE_Next l = Some (snd (get_next_client l))"

definition listener_inv :: "listener \<Rightarrow> bool" where
  "listener_inv l \<longleftrightarrow>
     (\<forall>(i, u) \<in> set (ln_unknown l). un_inv u) \<and> (\<forall>(j, p) \<in> set (ln_waiting l). introduced p) \<and>
     (\<forall>p \<in> set (ln_served l). introduced p) \<and> ln_accepted l = length (ln_served l) + length (ln_waiting l)"

lemma update_at_all:
  "update_at i g xs = Some ys \<Longrightarrow> \<forall>(j, x) \<in> set xs. P x \<Longrightarrow> (\<And>x y. P x \<Longrightarrow> g x = Some y \<Longrightarrow> P y) \<Longrightarrow>
   (\<forall>(j, x) \<in> set ys. P x) \<and> length ys = length xs"
proof (induction xs arbitrary: ys)
  case (Cons x xs)
  then show ?case by (cases x) (fastforce split: if_splits)
qed simp

lemma listener_step_inv:
  assumes l: "listener_inv l" and m: "listener_step e ev l = Some m"
  shows "listener_inv m"
proof (cases ev)
  case (LE_Accept i protocol a f)
  then show ?thesis
    using l m new_unknown_inv [of protocol a f] by (auto simp: listener_inv_def handle_client_accepted_def drop_key_def)
next
  case (LE_Unknown i ue)
  then obtain us where us: "update_at i (unknown_step e ue) (ln_unknown l) = Some us" "m = l\<lparr>ln_unknown := us\<rparr>"
    using m by auto
  have "\<forall>(j, u) \<in> set (ln_unknown l). un_inv u" using l by (simp add: listener_inv_def)
  from update_at_all [OF us(1) this unknown_step_inv] show ?thesis using l us(2) by (auto simp: listener_inv_def)
next
  case (LE_Success i j)
  show ?thesis
  proof (cases "m = l")
    case False
    then obtain u where u: "map_of (ln_unknown l) i = Some u" "handle_unknown_client i j l = Some m"
      using m LE_Success by (cases "map_of (ln_unknown l) i") (auto simp: handle_unknown_client_def split: if_splits)
    obtain r v where r: "orphan_client_proxy u = (r, v)" by fastforce
    have "un_inv u" using l map_of_SomeD [OF u(1)] by (auto simp: listener_inv_def)
    then have "introduced p" if "r = Some p" for p using orphan_introduced r that by blast
    then show ?thesis
      using u r l by (cases r) (auto simp: handle_unknown_client_def remove_unknown_client_def drop_key_def listener_inv_def)
  qed (use l in simp)
next
  case (LE_Waiting j pe)
  then obtain ps where ps: "update_at j (proxy_step e pe) (ln_waiting l) = Some ps" "m = l\<lparr>ln_waiting := ps\<rparr>"
    using m by auto
  have "\<forall>(j, p) \<in> set (ln_waiting l). introduced p" using l by (simp add: listener_inv_def)
  from update_at_all [OF ps(1) this introduced_step] show ?thesis using l ps(2) by (auto simp: listener_inv_def)
qed (use l m in \<open>auto simp: listener_inv_def remove_unknown_client_def drop_key_def handle_client_gone_def
  get_next_client_def split: if_splits list.splits\<close>)

interpretation listener: partial_machine "listener_step e" listener_inv for e
  by unfold_locales (rule listener_step_inv)

section \<open>What can go wrong\<close>

text \<open>A waiting client that disconnects has its stream deleted twice.\<close>

lemma waiting_client_freed_twice: "(j, p) \<in> set (ln_waiting l) \<Longrightarrow> listener_step e (LE_Gone j) l = None"
  by (force simp: handle_client_gone_def)

text \<open>
  After a failure the handlers for the events of the deleted proxy stay: its readiness, still queued when the
  client timed out, announces success after the failure.
\<close>

lemma failure_keeps_proxy_handlers: "un_watched (send_failure u) = un_watched u"
  by (simp add: send_failure_def un_remove_handlers_def Let_def)

lemma success_after_failure:
  assumes "un_proxy u = Some p" and "un_watched u" and "un_timer u"
    and "drop (un_delivered u) (px_posted p) = [Proxy_Ready]" and "un_orphaned u = []"
  shows "\<exists>v. run_option (unknown_step e) [UE_Timer, UE_DeliverOrphaned] u = Some v \<and>
    un_posted v = un_posted u @ [Unknown_Failure, Unknown_Success]"
  using assms by (auto simp: send_failure_def un_remove_handlers_def send_success_def Let_def)

section \<open>The property\<close>



end
