(* ===== verification/RemoteInput.thy ===== *)
theory RemoteInput
  imports ClientProxy
begin

text \<open>
  The way of the user's input from the server's calls to the client's screen: \<open>ClientProxy1_8\<close> writes a
  message for each call, the packets travel, \<open>ServerProxy\<close> reads them in its loop, compresses the mouse
  motion, and asks the platform to fake the input.
\<close>

section \<open>What the wire carries\<close>

lemma narrow_ucast [simp]:
  "(ucast (narrow 2 v) :: u16) = ucast v" "(ucast (narrow 1 v) :: byte) = ucast v" "narrow 4 v = v"
proof -
  show "(ucast (narrow 2 v) :: u16) = ucast v"
    by (rule bit_word_eqI) (auto simp: narrow_def bit_unsigned_iff bit_and_iff mask_bits)
  show "(ucast (narrow 1 v) :: byte) = ucast v"
    by (rule bit_word_eqI) (auto simp: narrow_def bit_unsigned_iff bit_and_iff mask_bits)
qed (simp add: narrow_def)

definition fits16 :: "int \<Rightarrow> bool" where
  "fits16 v \<longleftrightarrow> - (2 ^ 15) \<le> v \<and> v < 2 ^ 15"

lemma int16_narrow: "fits16 v \<Longrightarrow> int16 (narrow 2 (word_of_int v)) = v"
  by (simp add: int16_def fits16_def unsigned_of_int sint_sbintrunc' signed_take_bit_take_bit
      signed_take_bit_int_eq_self)

lemma ucast_down_up: "v < 0x10000 \<Longrightarrow> ucast (ucast v :: u16) = (v :: u32)"
  by (simp add: word_unat_eq_iff unsigned_ucast_eq unsigned_take_bit_eq word_less_nat_alt take_bit_nat_eq_self)

lemma ucast_up_down: "ucast (ucast (b :: u16) :: u32) = b"
  by (rule bit_word_eqI) (simp add: bit_unsigned_iff)

lemma button_back: "b < 256 \<Longrightarrow> button_id (narrow 1 (word_of_nat b)) = b"
  by (simp add: button_id_def unsigned_ucast_eq unsigned_take_bit_eq unsigned_of_nat take_bit_nat_eq_self)

lemma count_back: "0 \<le> n \<Longrightarrow> n < 2 ^ 16 \<Longrightarrow> uint (ucast (word_of_int n :: u32) :: u16) = n"
  by (simp add: unsigned_ucast_eq unsigned_take_bit_eq unsigned_of_int take_bit_int_eq_self)

section \<open>The messages of the input\<close>

text \<open>The calls that carry input, as far as their arguments fit the fields of the messages.\<close>

fun fits :: "screen_call \<Rightarrow> bool" where
  "fits (MouseMove x y) = (fits16 x \<and> fits16 y)"
| "fits (MouseDown b) = (b < 256)"
| "fits (MouseUp b) = (b < 256)"
| "fits (MouseWheel dx dy) = (fits16 dx \<and> fits16 dy)"
| "fits (KeyDown key m button lang) = (key < 0x10000 \<and> m < 0x10000 \<and> length lang \<le> 1000)"
| "fits (KeyUp key m button) = (key < 0x10000 \<and> m < 0x10000)"
| "fits (KeyRepeat key m count button lang) =
     (key < 0x10000 \<and> m < 0x10000 \<and> 0 \<le> count \<and> count < 2 ^ 16 \<and> length lang \<le> 1000)"
| "fits _ = False"

fun input_format :: "screen_call \<Rightarrow> string \<times> fmt_arg list" where
  "input_format (MouseMove x y) = (kMsgDMouseMove, [FA_Signed x, FA_Signed y])"
| "input_format (MouseDown b) = (kMsgDMouseDown, [FA_Int (word_of_nat b)])"
| "input_format (MouseUp b) = (kMsgDMouseUp, [FA_Int (word_of_nat b)])"
| "input_format (MouseWheel dx dy) = (kMsgDMouseWheel, [FA_Signed dx, FA_Signed dy])"
| "input_format (KeyDown key m button lang) =
     (kMsgDKeyDownLang, [FA_Int key, FA_Int m, FA_Button button, FA_Str (text_bytes lang)])"
| "input_format (KeyUp key m button) = (kMsgDKeyUp, [FA_Int key, FA_Int m, FA_Button button])"
| "input_format (KeyRepeat key m count button lang) =
     (kMsgDKeyRepeat, [FA_Int key, FA_Int m, FA_Signed count, FA_Button button, FA_Str (text_bytes lang)])"
| "input_format _ = (kMsgCNoop, [])"

definition input_body :: "screen_call \<Rightarrow> bytes" where
  "input_body c = the (writef_buffer (drop 4 (fst (input_format c))) (snd (input_format c)))"

definition input_message :: "screen_call \<Rightarrow> bytes" where
  "input_message c = message_code (fst (input_format c)) @ input_body c"

definition input_args :: "screen_call \<Rightarrow> fmt_arg list" where
  "input_args c = the (received (drop 4 (fst (input_format c))) (snd (input_format c)))"

lemmas input_formats = kMsgDMouseMove_def kMsgDMouseDown_def kMsgDMouseUp_def kMsgDMouseWheel_def
  kMsgDKeyDownLang_def kMsgDKeyUp_def kMsgDKeyRepeat_def

lemmas spec_evaluation = digit_value_def write_spec_def write_int_def write_string_def received_spec_def length_spec_def

lemma input_body_written:
  assumes "fits c"
  shows "writef_buffer (drop 4 (fst (input_format c))) (snd (input_format c)) = Some (input_body c)"
    and "received (drop 4 (fst (input_format c))) (snd (input_format c)) = Some (input_args c)"
    and "input_body c \<noteq> []" and "length (input_body c) \<le> 2000"
    and "length (message_code (fst (input_format c))) = 4"
    and "writef_buffer (fst (input_format c)) (snd (input_format c)) = Some (input_message c)"
  using assms
  by (cases c; simp add: input_message_def input_body_def input_args_def input_formats spec_evaluation message_code_def)+

lemma input_message_length:
  assumes "fits c"
  shows "get_length (fst (input_format c)) (snd (input_format c)) \<noteq> None" and "packet_ok (input_message c)"
proof -
  show "get_length (fst (input_format c)) (snd (input_format c)) \<noteq> None"
    using assms by (cases c) (simp_all add: input_formats spec_evaluation)
  show "packet_ok (input_message c)"
    using input_body_written(3-5) [OF assms]
    by (auto simp: packet_ok_def input_message_def PROTOCOL_MAX_MESSAGE_LENGTH_def)
qed

lemma input_message_written:
  assumes "fits c"
  shows "writef (fst (input_format c)) (snd (input_format c)) = Some (input_message c)"
proof -
  obtain n where n: "get_length (fst (input_format c)) (snd (input_format c)) = Some n"
    using input_message_length(1) [OF assms] by auto
  note buf = input_body_written(6) [OF assms]
  have "length (input_message c) < 2 ^ 32"
    using input_body_written(4,5) [OF assms] by (simp add: input_message_def)
  then show ?thesis using writef_exact [OF buf] n two_passes_agree [OF n buf] by simp
qed

section \<open>The server's side\<close>

lemma proxy_call_input:
  assumes "px_minor p = 8" and "fits c"
  shows "proxy_call e c p = Some (p\<lparr>px_stream := filter_write (input_message c) (px_stream p)\<rparr>)"
proof -
  have "proxy_call e c p = Some (px_send (fst (input_format c)) (snd (input_format c)) p)"
    using assms by (cases c) (simp_all add: px_key_down_def px_key_repeat_def px_key_up_def px_mouse_wheel_def)
  moreover have "input_message c \<noteq> []" using input_message_length(2) [OF assms(2)] by (simp add: packet_ok_def)
  ultimately show ?thesis using input_message_written [OF assms(2)] by (simp add: px_send_def)
qed

lemma proxy_calls_input:
  "px_minor p = 8 \<Longrightarrow> list_all fits cs \<Longrightarrow>
   run_option (proxy_step e) (map PX_Call cs) p =
     Some (p\<lparr>px_stream := fold filter_write (map input_message cs) (px_stream p)\<rparr>)"
proof (induction cs arbitrary: p)
  case (Cons c cs)
  then show ?case by (simp add: proxy_call_input)
qed simp

section \<open>What the client is asked to fake\<close>

fun fake_input :: "platform \<Rightarrow> screen_call \<Rightarrow> local_screen \<Rightarrow> local_screen" where
  "fake_input pl (MouseMove x y) s = platform_calls [P_FakeMouseMove x y] s"
| "fake_input pl (MouseDown b) s = screen_mouse_down b s"
| "fake_input pl (MouseUp b) s = screen_mouse_up b s"
| "fake_input pl (MouseWheel dx dy) s = platform_calls [P_FakeMouseWheel dx dy] s"
| "fake_input pl (KeyDown key m button lang) s = screen_key_down pl key m button (text_bytes lang) s"
| "fake_input pl (KeyUp key m button) s = screen_key_up key m button s"
| "fake_input pl (KeyRepeat key m count button lang) s =
     platform_calls [P_FakeKeyRepeat key m count button (text_bytes lang)] s"
| "fake_input pl _ s = s"

text \<open>Of a run of motions only the last one counts.\<close>

fun moves_mouse :: "screen_call \<Rightarrow> bool" where
  "moves_mouse (MouseMove x y) = True"
| "moves_mouse _ = False"

fun collapse :: "screen_call list \<Rightarrow> screen_call list" where
  "collapse (c # d # cs) = (if moves_mouse c \<and> moves_mouse d then collapse (d # cs) else c # collapse (d # cs))"
| "collapse cs = cs"

section \<open>Translation with the modifiers as they are\<close>

lemma or_single_bit:
  assumes "b = (2 :: u32) ^ k"
  shows "(if and m b \<noteq> 0 then or r b else r) = or r (and m b)"
proof (cases "bit m k")
  case True
  then have "and m b = b" unfolding assms by (intro bit_word_eqI) (auto simp: bit_simps)
  then show ?thesis by auto
next
  case False
  then have "and m b = 0" unfolding assms by (simp add: and_exp_eq_0_iff_not_bit)
  then show ?thesis by simp
qed

lemma modifier_values:
  "KeyModifierShift = 2 ^ 0" "KeyModifierControl = 2 ^ 1" "KeyModifierAlt = 2 ^ 2" "KeyModifierMeta = 2 ^ 3"
  "KeyModifierSuper = 2 ^ 4" "KeyModifierAltGr = 2 ^ 5"
  by (simp_all add: KeyModifierShift_def KeyModifierControl_def KeyModifierAlt_def KeyModifierMeta_def
      KeyModifierSuper_def KeyModifierAltGr_def)
lemma identity_nth: "i < 7 \<Longrightarrow> identity_modifiers ! i = word_of_nat i"
  by (simp add: identity_modifiers_def kKeyModifierIDLast_def)

lemma identity_key: "translate_key identity_modifiers key = Some key"
  by (auto simp: translate_key_def key_modifier_def identity_nth kKeyModifierIDShift_def kKeyModifierIDControl_def
      kKeyModifierIDAlt_def kKeyModifierIDMeta_def kKeyModifierIDSuper_def kKeyModifierIDAltGr_def
      kKeyModifierIDLast_def s_translationTable_def kKeyNone_def kKeyAltGr_def kKeyShift_L_def kKeyShift_R_def
      kKeyControl_L_def kKeyControl_R_def kKeyMeta_L_def kKeyMeta_R_def kKeyAlt_L_def kKeyAlt_R_def
      kKeySuper_L_def kKeySuper_R_def)

lemma identity_bits:
  "translate_bit identity_modifiers m (KeyModifierShift, kKeyModifierIDShift) (Some r) = Some (or r (and m KeyModifierShift))"
  "translate_bit identity_modifiers m (KeyModifierControl, kKeyModifierIDControl) (Some r) = Some (or r (and m KeyModifierControl))"
  "translate_bit identity_modifiers m (KeyModifierAlt, kKeyModifierIDAlt) (Some r) = Some (or r (and m KeyModifierAlt))"
  "translate_bit identity_modifiers m (KeyModifierAltGr, kKeyModifierIDAltGr) (Some r) = Some (or r (and m KeyModifierAltGr))"
  "translate_bit identity_modifiers m (KeyModifierMeta, kKeyModifierIDMeta) (Some r) = Some (or r (and m KeyModifierMeta))"
  "translate_bit identity_modifiers m (KeyModifierSuper, kKeyModifierIDSuper) (Some r) = Some (or r (and m KeyModifierSuper))"
  unfolding translate_bit_def
  by (simp_all add: identity_nth kKeyModifierIDShift_def kKeyModifierIDControl_def kKeyModifierIDAlt_def kKeyModifierIDMeta_def
      kKeyModifierIDSuper_def kKeyModifierIDAltGr_def kKeyModifierIDLast_def s_masks_def flip: or_single_bit [OF modifier_values(1)]
      or_single_bit [OF modifier_values(2)] or_single_bit [OF modifier_values(3)] or_single_bit [OF modifier_values(4)]
      or_single_bit [OF modifier_values(5)] or_single_bit [OF modifier_values(6)])

lemma identity_mask: "translate_mask identity_modifiers m = Some m"
proof -
  have "translate_mask identity_modifiers m =
      Some (or (or (or (or (or (or (and m (not (fold or (map fst modifier_bits) 0))) (and m KeyModifierShift)) (and m KeyModifierControl))
        (and m KeyModifierAlt)) (and m KeyModifierAltGr)) (and m KeyModifierMeta)) (and m KeyModifierSuper))"
    unfolding translate_mask_def by (simp add: modifier_bits_def identity_bits)
  also have "\<dots> = Some m"
    by (simp only: option.inject, rule bit_word_eqI) (auto simp: modifier_bits_def modifier_values bit_simps simp del: power_0)
  finally show ?thesis .
qed

section \<open>The client's loop\<close>

definition at_input :: "net_client \<Rightarrow> bytes list \<Rightarrow> bool" where
  "at_input c qs \<longleftrightarrow> pending False (lc_stream c) qs [] \<and> drained (lc_stream c)"

text \<open>A client in session, on its own (secondary) screen, with the modifiers as they are.\<close>

definition takes_input :: "net_client \<Rightarrow> bool" where
  "takes_input c \<longleftrightarrow>
     \<not> sp_handshake (lc_proxy c) \<and> \<not> ls_primary (lc_screen c) \<and> sp_modifiers (lc_proxy c) = identity_modifiers \<and>
     \<not> sp_ignore_mouse (lc_proxy c) \<and> \<not> sp_compress_relative (lc_proxy c)"

definition motion :: "net_client \<Rightarrow> (int \<times> int) option" where
  "motion c = (if sp_compress (lc_proxy c) then Some (sp_x (lc_proxy c), sp_y (lc_proxy c)) else None)"

definition after_flush :: "net_client \<Rightarrow> net_client" where
  "after_flush c =
     (case motion c of
        None \<Rightarrow> c
      | Some (x, y) \<Rightarrow> set_screen (on_proxy (\<lambda>p. p\<lparr>sp_compress := False\<rparr>) c)
                         (platform_calls [P_FakeMouseMove x y] (lc_screen c)))"

lemma flush_compressed: "takes_input c \<Longrightarrow> flush_compressed_mouse c = Some (after_flush c)"
  by (simp add: takes_input_def flush_compressed_mouse_def after_flush_def motion_def client_mouse_move_def
      screen_mouse_move_def on_proxy_def set_screen_def)

lemma after_flush_facts:
  assumes "takes_input c"
  shows "takes_input (after_flush c)" "motion (after_flush c) = None" "lc_stream (after_flush c) = lc_stream c"
    and "after_flush (c\<lparr>lc_stream := f\<rparr>) = (after_flush c)\<lparr>lc_stream := f\<rparr>"
  using assms
  by (auto simp: after_flush_def motion_def takes_input_def set_screen_def on_proxy_def platform_calls_def)

lemma not_ready_when_empty: "pending False f [] w \<Longrightarrow> \<not> is_ready_no_lock f"
  by (auto simp: pending_def Let_def is_ready_no_lock_def split: if_splits)

lemma ready_iff: "pending False f qs [] \<Longrightarrow> drained f \<Longrightarrow> is_ready_no_lock f = (qs \<noteq> [])"
  using pending_ready not_ready_when_empty by (cases qs) auto

lemma drained_write: "drained (filter_write d f) = drained f"
  by (simp add: filter_write_def socket_write_def socket_event_def set_new_job_def Let_def)

lemma send_fields:
  "lc_proxy (client_send fmt args c) = lc_proxy c" "lc_screen (client_send fmt args c) = lc_screen c"
  "at_input (client_send fmt args c) qs = at_input c qs"
  by (auto simp: client_send_def at_input_def filter_write_pending drained_write split: option.split)

lemma input_arrives:
  assumes "fits k" and "at_input c (input_message k # qs)"
  obtains f1 f2 where "filter_read 4 (lc_stream c) = (message_code (fst (input_format k)), f1)"
    and "\<And>d r. lc_stream d = f1 \<Longrightarrow> receive (fst (input_format k)) d r = r (input_args k) (d\<lparr>lc_stream := f2\<rparr>)"
    and "pending False f2 qs []" and "drained f2"
proof -
  note body = input_body_written [OF assms(1)]
  obtain f1 where f1: "filter_read 4 (lc_stream c) = (message_code (fst (input_format k)), f1)"
      "filter_holds qs [] (sk_input (pf_stream f1)) f1 (input_body k)" "drained f1"
    using filter_read_code [OF _ _ body(5,3), of "lc_stream c" qs] assms(2) by (auto simp: at_input_def input_message_def)
  then have "pending False f1 (input_body k # qs) []" using body(3) by (simp add: filter_holds_def)
  from readf_message [OF body(1,2) this f1(3)] obtain f2 where
      f2: "readf filter_read (drop 4 (fst (input_format k))) f1 = ((input_args k, RF_Return True), f2)"
        "pending False f2 qs []" "drained f2" by blast
  have "receive (fst (input_format k)) d r = r (input_args k) (d\<lparr>lc_stream := f2\<rparr>)" if "lc_stream d = f1" for d r
    using f2(1) that by (simp add: receive_def)
  then show ?thesis using that f1(1) f2(2,3) by blast
qed

lemma input_args_simps:
  "input_args (MouseMove x y) = [FA_Int (narrow 2 (word_of_int x)), FA_Int (narrow 2 (word_of_int y))]"
  "input_args (MouseDown b) = [FA_Int (narrow 1 (word_of_nat b))]"
  "input_args (MouseUp b) = [FA_Int (narrow 1 (word_of_nat b))]"
  "input_args (MouseWheel dx dy) = [FA_Int (narrow 2 (word_of_int dx)), FA_Int (narrow 2 (word_of_int dy))]"
  "input_args (KeyUp key m button) = [FA_Int (narrow 2 key), FA_Int (narrow 2 m), FA_Int (narrow 2 (ucast button))]"
  "length lang \<le> 1000 \<Longrightarrow> input_args (KeyDown key m button lang) =
     [FA_Int (narrow 2 key), FA_Int (narrow 2 m), FA_Int (narrow 2 (ucast button)), FA_Str (text_bytes lang)]"
  "length lang \<le> 1000 \<Longrightarrow> input_args (KeyRepeat key m count button lang) =
     [FA_Int (narrow 2 key), FA_Int (narrow 2 m), FA_Int (narrow 2 (word_of_int count)),
      FA_Int (narrow 2 (ucast button)), FA_Str (text_bytes lang)]"
  by (simp_all add: input_args_def input_formats spec_evaluation)

text \<open>What a message does to the client, before the no-op that answers it.\<close>

fun take_input :: "client_env \<Rightarrow> bool \<Rightarrow> screen_call \<Rightarrow> net_client \<Rightarrow> net_client" where
  "take_input e ahead (MouseMove x y) c =
     (if motion c \<noteq> None \<or> ahead
      then on_proxy (\<lambda>p. p\<lparr>sp_compress := True, sp_compress_relative := False, sp_x := x, sp_y := y, sp_dx := 0, sp_dy := 0\<rparr>) c
      else set_screen c (fake_input (ce_platform e) (MouseMove x y) (lc_screen c)))"
| "take_input e ahead (KeyDown key m button lang) c =
     (let c1 = on_proxy (set_active_language e (text_bytes lang)) (after_flush c)
      in set_screen c1 (fake_input (ce_platform e) (KeyDown key m button lang) (lc_screen c1)))"
| "take_input e ahead k c = set_screen (after_flush c) (fake_input (ce_platform e) k (lc_screen (after_flush c)))"

lemma language_kept:
  "sp_modifiers (set_active_language e l p) = sp_modifiers p" "sp_compress (set_active_language e l p) = sp_compress p"
  "sp_compress_relative (set_active_language e l p) = sp_compress_relative p"
  "sp_handshake (set_active_language e l p) = sp_handshake p" "sp_ignore_mouse (set_active_language e l p) = sp_ignore_mouse p"
  by (simp_all add: set_active_language_def Let_def)

lemma fake_input_primary [simp]: "ls_primary (fake_input pl k s) = ls_primary s"
  by (cases k) (auto simp: platform_calls_def screen_mouse_down_def screen_mouse_up_def screen_key_up_def
      screen_key_down_def Let_def)

lemma screen_set:
  "takes_input c \<Longrightarrow> ls_primary s = ls_primary (lc_screen c) \<Longrightarrow> takes_input (set_screen c s)"
  "motion (set_screen c s) = motion c" "lc_stream (set_screen c s) = lc_stream c" "lc_screen (set_screen c s) = s"
  by (simp_all add: takes_input_def set_screen_def motion_def)

lemma language_set:
  "takes_input c \<Longrightarrow> takes_input (on_proxy (set_active_language e l) c)"
  "motion (on_proxy (set_active_language e l) c) = motion c" "lc_stream (on_proxy g c) = lc_stream c"
  "lc_screen (on_proxy g c) = lc_screen c"
  by (simp_all add: takes_input_def on_proxy_def motion_def language_kept)
     (simp add: set_active_language_def Let_def)

lemma take_other:
  assumes "\<not> moves_mouse k"
  obtains g where "take_input e ahead k c =
      set_screen (on_proxy g (after_flush c)) (fake_input (ce_platform e) k (lc_screen (after_flush c)))"
    and "g = id \<or> (\<exists>l. g = set_active_language e l)"
proof (cases "\<exists>key m button lang. k = KeyDown key m button lang")
  case True
  then obtain key m button lang where "k = KeyDown key m button lang" by blast
  then show ?thesis using that [of "set_active_language e (text_bytes lang)"] by (auto simp: Let_def language_set)
next
  case False
  then show ?thesis using that [of id] assms by (cases k) (auto simp: on_proxy_def)
qed

fun motion_of :: "screen_call \<Rightarrow> (int \<times> int) option" where
  "motion_of (MouseMove x y) = Some (x, y)"
| "motion_of _ = None"

lemma take_input_facts:
  assumes c: "takes_input c"
  shows "takes_input (take_input e ahead k c) \<and> lc_stream (take_input e ahead k c) = lc_stream c \<and>
    (motion (take_input e ahead k c), lc_screen (take_input e ahead k c)) =
      (if moves_mouse k \<and> (motion c \<noteq> None \<or> ahead) then (motion_of k, lc_screen c)
       else (None, fake_input (ce_platform e) k (lc_screen (after_flush c))))"
proof (cases "moves_mouse k")
  case True
  then obtain x y where "k = MouseMove x y" by (cases k) auto
  then show ?thesis
    using c by (auto simp: takes_input_def on_proxy_def set_screen_def motion_def after_flush_def platform_calls_def)
next
  case False
  note flush = after_flush_facts [OF c]
  obtain g where g: "take_input e ahead k c =
      set_screen (on_proxy g (after_flush c)) (fake_input (ce_platform e) k (lc_screen (after_flush c)))"
    "g = id \<or> (\<exists>l. g = set_active_language e l)" using take_other [OF False] .
  have "takes_input (on_proxy g (after_flush c))" "motion (on_proxy g (after_flush c)) = None"
    using g(2) flush(1,2) language_set by (auto simp: on_proxy_def)
  then show ?thesis using False flush(3) unfolding g(1) by (simp add: screen_set language_set(3,4))
qed

lemma parse_input_dispatch:
  "parse_input e (message_code kMsgDMouseMove) c = sp_mouse_move c"
  "parse_input e (message_code kMsgDMouseDown) c = sp_mouse_down c"
  "parse_input e (message_code kMsgDMouseUp) c = sp_mouse_up c"
  "parse_input e (message_code kMsgDMouseWheel) c = sp_mouse_wheel c"
  "parse_input e (message_code kMsgDKeyDownLang) c = recv_key_down_lang e c"
  "parse_input e (message_code kMsgDKeyUp) c = sp_key_up c"
  "parse_input e (message_code kMsgDKeyRepeat) c = sp_key_repeat c"
  by (simp_all add: parse_input_def is_code_def message_code_def input_formats kMsgDMouseRelMove_def kMsgDKeyDown_def)

lemma sp_mouse_move_arrived:
  assumes c: "takes_input c" and ready: "is_ready_no_lock f = ahead"
    and arrives: "\<And>r. receive kMsgDMouseMove c r = r [FA_Int xv, FA_Int yv] (c\<lparr>lc_stream := f\<rparr>)"
    and xy: "int16 xv = x" "int16 yv = y"
  shows "sp_mouse_move c = okay (take_input e ahead (MouseMove x y) (c\<lparr>lc_stream := f\<rparr>))"
proof -
  have fields: "\<not> sp_ignore_mouse (lc_proxy c)" "\<not> ls_primary (lc_screen c)" using c by (simp_all add: takes_input_def)
  show ?thesis
  proof (cases "sp_compress (lc_proxy c) \<or> ahead")
    case True
    then show ?thesis
      using fields ready unfolding sp_mouse_move_def arrives
      by (cases "sp_compress (lc_proxy c)") (simp_all add: xy Let_def on_proxy_def motion_def okay_def)
  next
    case False
    then show ?thesis
      using fields ready unfolding sp_mouse_move_def arrives
      by (simp add: xy Let_def motion_def okay_if_def okay_def client_mouse_move_def screen_mouse_move_def set_screen_def)
  qed
qed

lemma parse_input_call:
  assumes c: "takes_input c" and k: "fits k"
    and arrives: "\<And>d r. lc_stream d = lc_stream c \<Longrightarrow>
      receive (fst (input_format k)) d r = r (input_args k) (d\<lparr>lc_stream := f2\<rparr>)"
    and ahead: "is_ready_no_lock f2 = ahead"
  shows "parse_input e (message_code (fst (input_format k))) c = okay (take_input e ahead k (c\<lparr>lc_stream := f2\<rparr>))"
proof -
  let ?c = "c\<lparr>lc_stream := f2\<rparr>"
  have flush: "flush_compressed_mouse c = Some (after_flush c)" "flush_compressed_mouse ?c = Some (after_flush ?c)"
      "lc_stream (after_flush c) = lc_stream c" "(after_flush c)\<lparr>lc_stream := f2\<rparr> = after_flush ?c"
      "ls_primary (lc_screen (after_flush ?c)) = False" "sp_modifiers (lc_proxy (after_flush ?c)) = identity_modifiers"
    using c after_flush_facts [OF c] after_flush_facts [of ?c] flush_compressed
    by (auto simp: takes_input_def)
  note codes = parse_input_dispatch
  note sizes = int16_narrow button_back count_back ucast_down_up ucast_up_down narrow_ucast
  show ?thesis
  proof (cases k)
    case (MouseMove x y)
    have "sp_mouse_move c = okay (take_input e ahead (MouseMove x y) ?c)"
      using k MouseMove arrives [of c]
      by (intro sp_mouse_move_arrived
          [OF c ahead, where xv = "narrow 2 (word_of_int x)" and yv = "narrow 2 (word_of_int y)"]) (simp_all add: input_args_simps sizes)
    then show ?thesis using MouseMove by (simp add: codes)
  next
    case (MouseDown b)
    then show ?thesis
      using k arrives [of "after_flush c"] flush
      by (simp add: codes sp_mouse_down_def flushed_def input_args_simps sizes client_mouse_down_def)
  next
    case (MouseUp b)
    then show ?thesis
      using k arrives [of "after_flush c"] flush
      by (simp add: codes sp_mouse_up_def flushed_def input_args_simps sizes client_mouse_up_def)
  next
    case (MouseWheel dx dy)
    then show ?thesis
      using k arrives [of "after_flush c"] flush
      by (simp add: codes sp_mouse_wheel_def flushed_def input_args_simps sizes client_mouse_wheel_def
          screen_mouse_wheel_def okay_if_def okay_def)
  next
    case (KeyDown key m button lang)
    then show ?thesis
      using k arrives [of c] flush
      by (simp add: codes recv_key_down_lang_def sp_key_down_def flushed_def input_args_simps sizes int_arg_def str_arg_def
          translated_def client_key_down_def Let_def language_kept on_proxy_def identity_key identity_mask)
  next
    case (KeyUp key m button)
    then show ?thesis
      using k arrives [of "after_flush c"] flush
      by (simp add: codes sp_key_up_def flushed_def input_args_simps sizes translated_def client_key_up_def
          identity_key identity_mask)
  next
    case (KeyRepeat key m count button lang)
    then show ?thesis
      using k arrives [of "after_flush c"] flush
      by (simp add: codes sp_key_repeat_def flushed_def input_args_simps sizes translated_def client_key_repeat_def
          screen_key_repeat_def int_arg_def str_arg_def identity_key identity_mask okay_if_def okay_def)
  qed (use k in simp_all)
qed

lemma handle_data_unfold:
  "filter_read 4 (lc_stream c) = (code, f) \<Longrightarrow> length code = 4 \<Longrightarrow> parse e code (c\<lparr>lc_stream := f\<rparr>) = okay d \<Longrightarrow>
   handle_data e c = handle_data e d"
  by (subst handle_data.simps) (auto simp: Let_def okay_def)

lemma input_step:
  assumes c: "takes_input c" and k: "fits k" and at: "at_input c (input_message k # qs)"
  obtains d where "handle_data e c = handle_data e d" "takes_input d" "at_input d qs"
    and "(motion d, lc_screen d) = (if moves_mouse k \<and> (motion c \<noteq> None \<or> qs \<noteq> []) then (motion_of k, lc_screen c)
      else (None, fake_input (ce_platform e) k (lc_screen (after_flush c))))"
proof -
  obtain f1 f2 where f: "filter_read 4 (lc_stream c) = (message_code (fst (input_format k)), f1)"
      "\<And>d r. lc_stream d = f1 \<Longrightarrow> receive (fst (input_format k)) d r = r (input_args k) (d\<lparr>lc_stream := f2\<rparr>)"
      "pending False f2 qs []" "drained f2"
    by (rule input_arrives [OF k at]) blast
  let ?ahead = "qs \<noteq> []" and ?c = "c\<lparr>lc_stream := f1\<rparr>" and ?f = "c\<lparr>lc_stream := f2\<rparr>"
  let ?d = "take_input e ?ahead k ?f"
  have same: "takes_input ?c" "takes_input ?f" "motion ?f = motion c" "lc_screen (after_flush ?f) = lc_screen (after_flush c)"
      "lc_screen ?f = lc_screen c"
    using c after_flush_facts(4) [OF c] by (simp_all add: takes_input_def motion_def)
  have "parse_input e (message_code (fst (input_format k))) ?c = okay ?d"
    using parse_input_call [OF same(1) k _ ready_iff [OF f(3,4)]] f(2) by simp
  then have "parse e (message_code (fst (input_format k))) ?c = okay (client_send kMsgCNoop [] ?d)"
    using same(1) by (simp add: parse_def parse_message_def takes_input_def okay_def)
  then have turn: "handle_data e c = handle_data e (client_send kMsgCNoop [] ?d)"
    by (rule handle_data_unfold [OF f(1) input_body_written(5) [OF k]])
  note facts = take_input_facts [OF same(2), where e = e and ahead = "?ahead" and k = k]
  have "takes_input (client_send kMsgCNoop [] ?d)" "motion (client_send kMsgCNoop [] ?d) = motion ?d"
    using facts by (simp_all add: takes_input_def motion_def send_fields)
  moreover have "at_input (client_send kMsgCNoop [] ?d) qs"
    using facts f(3,4) by (simp add: send_fields) (simp add: at_input_def)
  moreover have "(motion ?d, lc_screen ?d) = (if moves_mouse k \<and> (motion c \<noteq> None \<or> ?ahead)
      then (motion_of k, lc_screen c) else (None, fake_input (ce_platform e) k (lc_screen (after_flush c))))"
    using facts unfolding same(3-5) by blast
  ultimately show ?thesis using that [OF turn] by (simp only: send_fields(2))
qed

definition pending_motion :: "net_client \<Rightarrow> screen_call list" where
  "pending_motion c = (case motion c of None \<Rightarrow> [] | Some (x, y) \<Rightarrow> [MouseMove x y])"

lemma collapse_other: "\<not> moves_mouse k \<Longrightarrow> collapse (k # cs) = k # collapse cs"
  by (cases cs) auto

lemma collapse_pending:
  "moves_mouse k \<Longrightarrow> collapse (pending_motion c @ k # cs) = collapse (k # cs)"
  "\<not> moves_mouse k \<Longrightarrow> collapse (pending_motion c @ k # cs) = pending_motion c @ k # collapse cs"
  by (auto simp: pending_motion_def collapse_other split: option.split)

lemma after_flush_screen:
  "lc_screen (after_flush c) = fold (fake_input pl) (pending_motion c) (lc_screen c)"
  by (auto simp: after_flush_def pending_motion_def set_screen_def split: option.split)

lemma input_loop:
  "takes_input c \<Longrightarrow> list_all fits cs \<Longrightarrow> at_input c (map input_message cs) \<Longrightarrow>
   \<exists>d. handle_data e c = Some d \<and> takes_input d \<and> motion d = None \<and> at_input d [] \<and>
     lc_screen d = fold (fake_input (ce_platform e)) (collapse (pending_motion c @ cs)) (lc_screen c)"
proof (induction cs arbitrary: c)
  case Nil
  then have "\<not> is_ready_no_lock (lc_stream c)" using not_ready_when_empty by (auto simp: at_input_def)
  then have "filter_read 4 (lc_stream c) = ([], lc_stream c)" by (simp add: filter_read_def)
  then have "handle_data e c = Some (after_flush c)"
    using flush_compressed [OF Nil.prems(1)] by (subst handle_data.simps) simp
  moreover have "collapse (pending_motion c) = pending_motion c" by (simp add: pending_motion_def split: option.split)
  ultimately show ?case
    using after_flush_facts(1-3) [OF Nil.prems(1)] after_flush_screen [of c "ce_platform e"] Nil.prems(3)
    by (simp add: at_input_def)
next
  case (Cons k cs)
  have k: "fits k" "list_all fits cs" "at_input c (input_message k # map input_message cs)" using Cons.prems by simp_all
  obtain d where d: "handle_data e c = handle_data e d" "takes_input d" "at_input d (map input_message cs)"
      "(motion d, lc_screen d) = (if moves_mouse k \<and> (motion c \<noteq> None \<or> map input_message cs \<noteq> [])
        then (motion_of k, lc_screen c) else (None, fake_input (ce_platform e) k (lc_screen (after_flush c))))"
    using input_step [OF Cons.prems(1) k(1,3)] .
  have "fold (fake_input (ce_platform e)) (collapse (pending_motion d @ cs)) (lc_screen d) =
      fold (fake_input (ce_platform e)) (collapse (pending_motion c @ k # cs)) (lc_screen c)"
  proof (cases "moves_mouse k \<and> (motion c \<noteq> None \<or> cs \<noteq> [])")
    case True
    then obtain x y where "k = MouseMove x y" by (cases k) auto
    then show ?thesis using True d(4) collapse_pending(1) [of k c cs] by (simp add: pending_motion_def)
  next
    case False
    then have "pending_motion d = []" using d(4) by (auto simp: pending_motion_def)
    moreover have "collapse (pending_motion c @ k # cs) = pending_motion c @ k # collapse cs"
    proof (cases "moves_mouse k")
      case True
      then have "motion c = None" "cs = []" using False by blast+
      then show ?thesis by (simp add: pending_motion_def)
    qed (rule collapse_pending(2))
    ultimately show ?thesis using False d(4) after_flush_screen [of c "ce_platform e"] by auto
  qed
  then show ?case using Cons.IH [OF d(2) k(2) d(3)] d(1) by simp
qed

text \<open>
  Relative motion is not part of the input above: a relative motion that arrives last while an absolute one is
  held back is asked for before it, so the absolute motion undoes it.
\<close>

lemma relative_move_overtakes:
  assumes c: "takes_input c" and held: "motion c = Some (x, y)" and last: "\<not> is_ready_no_lock f"
    and arrives: "\<And>r. receive kMsgDMouseRelMove c r = r [FA_Int dxv, FA_Int dyv] (c\<lparr>lc_stream := f\<rparr>)"
  shows "\<exists>d. sp_mouse_relative_move c = okay d \<and>
    lc_screen (after_flush d) =
      platform_calls [P_FakeMouseRelativeMove (int16 dxv) (int16 dyv), P_FakeMouseMove x y] (lc_screen c)"
proof -
  have "\<not> sp_ignore_mouse (lc_proxy c)" "\<not> sp_compress_relative (lc_proxy c)" "\<not> ls_primary (lc_screen c)"
    using c by (simp_all add: takes_input_def)
  then show ?thesis
    using held last unfolding sp_mouse_relative_move_def arrives
    by (auto simp: Let_def okay_if_def okay_def client_mouse_relative_move_def screen_mouse_relative_move_def set_screen_def
        after_flush_def motion_def on_proxy_def platform_calls_def split: if_splits)
qed

section \<open>From the server's calls to the client's screen\<close>

text \<open>A client between two batches: in session, nothing buffered and no motion held back.\<close>

definition at_rest :: "net_client \<Rightarrow> bool" where
  "at_rest c \<longleftrightarrow> takes_input c \<and> motion c = None \<and> at_input c []"

definition roomy :: "packet_filter \<Rightarrow> nat \<Rightarrow> bool" where
  "roomy f n \<longleftrightarrow> buffer_held (sk_input (pf_stream f)) + n < 2 ^ 32 \<and> buffer_held (pf_buffer f) + n < 2 ^ 32"

lemma wire_Nil_iff: "wire qs = [] \<longleftrightarrow> qs = []"
  by (cases qs) (auto simp: packet_def packet_header_def write_u32_def)

lemma rest_awaits:
  assumes "at_input c []" and "list_all packet_ok ps" and "roomy (lc_stream c) (length (wire ps))"
  shows "pending False (lc_stream c) ps (wire ps)"
proof -
  have "pf_size (lc_stream c) = 0" using assms(1) by (auto simp: at_input_def pending_def Let_def split: if_splits)
  then show ?thesis
    using assms by (auto simp: at_input_def pending_def roomy_def Let_def)
qed

text \<open>C2. Remote control end to end: let the server's calls carry input whose arguments fit their fields, and
  let their packets reach, in whatever pieces and with whatever events in between, a client in session that
  rests on its own screen. Then the client's read loop returns, again at rest with everything read, and it
  has asked its platform for exactly the server's key strokes, buttons, wheel turns and motions, in their
  order, except that of motions following each other directly only the last is asked for.\<close>

theorem remote_input_replayed:
  assumes calls: "list_all fits cs"
    and server: "px_minor p = 8" "run_option (proxy_step pe) (map PX_Call cs) p = Some q"
    and writes: "sk_writable (pf_stream (px_stream p))" "buffer_ok (sk_output (pf_stream (px_stream p)))"
      "buffer_held (sk_output (pf_stream (px_stream p))) + length (wire (map input_message cs)) < 2 ^ 32"
    and sent: "buffer_content (sk_output (pf_stream (px_stream q))) =
      buffer_content (sk_output (pf_stream (px_stream p))) @ w"
    and client: "at_rest c" "roomy (lc_stream c) (length w)"
    and travel: "list_all undisturbed pcs" "packet_run pcs (lc_stream c) = (w, [], f)"
  shows "\<exists>d. handle_data e (c\<lparr>lc_stream := filter_event EV_StreamInputReady f\<rparr>) = Some d \<and> at_rest d \<and>
    lc_screen d = fold (fake_input (ce_platform e)) (collapse cs) (lc_screen c)"
proof -
  have ok: "list_all packet_ok (map input_message cs)"
    using calls input_message_length(2) by (auto simp: list_all_iff)
  have "q = p\<lparr>px_stream := fold filter_write (map input_message cs) (px_stream p)\<rparr>"
    using server proxy_calls_input [OF server(1) calls, of pe] by simp
  then have w: "w = wire (map input_message cs)"
    using filter_writes_output [OF writes] sent by simp
  have rest: "takes_input c" "motion c = None" "at_input c []" using client(1) by (simp_all add: at_rest_def)
  have "pending False (lc_stream c) (map input_message cs) (w @ [])"
    using rest_awaits [OF rest(3) ok] client(2) w by simp
  then have "pending False f (map input_message cs) []"
    using packet_run_pending [OF _ travel] by fastforce
  then have "at_input (c\<lparr>lc_stream := filter_event EV_StreamInputReady f\<rparr>) (map input_message cs)"
    using filter_event_pending filter_event_drains by (auto simp: at_input_def)
  moreover have "takes_input (c\<lparr>lc_stream := filter_event EV_StreamInputReady f\<rparr>)"
    "pending_motion (c\<lparr>lc_stream := filter_event EV_StreamInputReady f\<rparr>) = []"
    using rest by (simp_all add: takes_input_def pending_motion_def motion_def split: if_splits)
  ultimately show ?thesis using input_loop [OF _ calls, of _ e] unfolding at_rest_def by fastforce
qed

theorem remote_input_replayed_witness:
  "\<exists>f d. handle_data (quiet_client_env False)
      ((new_client [] (new_screen False))\<lparr>lc_proxy := no_proxy\<lparr>sp_handshake := False\<rparr>, lc_stream := f\<rparr>) = Some d \<and>
    lc_screen d = fold (fake_input (ce_platform (quiet_client_env False))) [MouseMove 5 6, MouseDown 1] (new_screen False)"
proof -
  let ?cs = "[MouseMove 3 4, MouseMove 5 6, MouseDown 1]"
  let ?e = "quiet_client_env False"
  let ?pe = "\<lparr>pe_number = sample_number, pe_languages = [], pe_round = id, pe_time = 0\<rparr>"
  define w where "w = wire (map input_message ?cs)"
  define p where "p = (new_client_proxy ?pe 8 [] (new_packet_filter accepted_tcp_socket) \<lparr>ca_expected = 0, ca_cached = []\<rparr>)
    \<lparr>px_stream := new_packet_filter accepted_tcp_socket\<rparr>"
  define c where "c = (new_client [] (new_screen False))
    \<lparr>lc_proxy := no_proxy\<lparr>sp_handshake := False\<rparr>, lc_stream := new_packet_filter accepted_tcp_socket\<rparr>"
  let ?f = "packet_arrive (\<lambda>i. if i = 0 then RA_Bytes w else RA_Bytes []) (new_packet_filter accepted_tcp_socket)"
  have calls: "list_all fits ?cs" by (simp add: fits16_def)
  have size: "w \<noteq> []" "length w \<le> 4096"
    using input_body_written(4,5) [of "MouseMove 3 4"] input_body_written(4,5) [of "MouseMove 5 6"]
      input_body_written(3,4,5) [of "MouseDown 1"]
    by (simp_all add: w_def input_message_def input_body_def input_formats spec_evaluation fits16_def packet_header_def packet_def)
  have p: "px_minor p = 8" "px_stream p = new_packet_filter accepted_tcp_socket"
    by (simp_all add: p_def new_client_proxy_def Let_def px_send_def set_heartbeat_rate_def split: option.split)
  have out: "sk_writable (pf_stream (px_stream p))" "sk_output (pf_stream (px_stream p)) = sk_output new_tcp_socket"
    "buffer_ok (sk_output (pf_stream (px_stream p)))"
    "buffer_held (sk_output (pf_stream (px_stream p))) + length (wire (map input_message ?cs)) < 2 ^ 32"
    using size by (simp_all add: p w_def new_packet_filter_def accepted_tcp_socket_def new_tcp_socket_def set_new_job_def
        on_connected_def)
  have rest: "at_rest c" "roomy (lc_stream c) (length w)"
    using size accepted_pending [of "[]"]
    by (simp_all add: at_rest_def c_def new_client_def takes_input_def motion_def no_proxy_def at_input_def
        roomy_def identity_modifiers_def kKeyModifierIDLast_def new_screen_def screen_reset_options_def platform_calls_def
        new_packet_filter_def accepted_tcp_socket_def new_tcp_socket_def set_new_job_def on_connected_def)
  have travel: "list_all undisturbed [PC_Arrive (\<lambda>i. if i = 0 then RA_Bytes w else RA_Bytes [])]"
    "packet_run [PC_Arrive (\<lambda>i. if i = 0 then RA_Bytes w else RA_Bytes [])] (lc_stream c) = (w, [], ?f)"
    using one_arrival [OF size] by (simp_all add: c_def)
  note server = proxy_calls_input [OF p(1) calls, of ?pe]
  have sent: "buffer_content (sk_output (pf_stream (px_stream
      (p\<lparr>px_stream := fold filter_write (map input_message ?cs) (px_stream p)\<rparr>)))) =
    buffer_content (sk_output (pf_stream (px_stream p))) @ w"
    using filter_writes_output [OF out(1,3,4)] by (simp add: w_def)
  from remote_input_replayed [OF calls p(1) server out(1,3,4) sent rest travel, of ?e]
  obtain d where "handle_data ?e (c\<lparr>lc_stream := filter_event EV_StreamInputReady ?f\<rparr>) = Some d"
    "lc_screen d = fold (fake_input (ce_platform ?e)) (collapse ?cs) (lc_screen c)"
    by blast
  then show ?thesis by (intro exI [of _ "filter_event EV_StreamInputReady ?f"] exI [of _ d]) (simp add: c_def new_client_def)
qed

end
