(* ===== verification/EventQueue.thy ===== *)
theory EventQueue
  imports Complex_Main StdMap PartialMachine
begin

text \<open>
  \<open>EventQueue\<close> (src/lib/base): events wait in a table under small numbers, the numbers wait in a buffer,
  timers count down between the events, and handlers are found by target and type. The buffer is an
  interface, as in the code; \<open>SimpleEventQueueBuffer\<close> provides it. Readings of the clock are arguments.
\<close>

section \<open>The stopwatch\<close>

record stopwatch =
  sw_mark :: real
  sw_triggered :: bool
  sw_stopped :: bool

definition new_stopwatch :: "bool \<Rightarrow> real \<Rightarrow> stopwatch" where
  "new_stopwatch triggered now =
     \<lparr>sw_mark = (if triggered then 0 else now), sw_triggered = triggered, sw_stopped = triggered\<rparr>"

definition sw_reset :: "real \<Rightarrow> stopwatch \<Rightarrow> real \<times> stopwatch" where
  "sw_reset now w =
     (if sw_stopped w then (sw_mark w, w\<lparr>sw_mark := 0\<rparr>) else (now - sw_mark w, w\<lparr>sw_mark := now\<rparr>))"

definition sw_stop :: "real \<Rightarrow> stopwatch \<Rightarrow> stopwatch" where
  "sw_stop now w = (if sw_stopped w then w else w\<lparr>sw_mark := now - sw_mark w, sw_stopped := True\<rparr>)"

definition sw_start :: "real \<Rightarrow> stopwatch \<Rightarrow> stopwatch" where
  "sw_start now w =
     (let w1 = w\<lparr>sw_triggered := False\<rparr>
      in if sw_stopped w1 then w1\<lparr>sw_mark := now - sw_mark w1, sw_stopped := False\<rparr> else w1)"

definition sw_set_trigger :: "real \<Rightarrow> stopwatch \<Rightarrow> stopwatch" where
  "sw_set_trigger now w = (sw_stop now w)\<lparr>sw_triggered := True\<rparr>"

text \<open>The two \<open>getTime\<close>, of which only the one for variables starts a triggered stopwatch.\<close>

definition sw_peek :: "real \<Rightarrow> stopwatch \<Rightarrow> real" where
  "sw_peek now w = (if sw_stopped w then sw_mark w else now - sw_mark w)"

definition sw_get_time :: "real \<Rightarrow> stopwatch \<Rightarrow> real \<times> stopwatch" where
  "sw_get_time now w = (if sw_triggered w then (sw_mark w, sw_start now w) else (sw_peek now w, w))"

section \<open>Events\<close>

definition ET_Unknown :: u32 where "ET_Unknown = 0"
definition ET_Quit :: u32 where "ET_Quit = 1"
definition ET_System :: u32 where "ET_System = 2"
definition ET_Timer :: u32 where "ET_Timer = 3"

definition DeliverImmediately :: u32 where "DeliverImmediately = 1"
definition DontFreeData :: u32 where "DontFreeData = 2"

text \<open>The two data pointers are one, as at most one of them is set. A timer event tells its timer and count.\<close>

datatype 'd event_data = No_Data | User_Data 'd | Timer_Data nat u32

record 'd event =
  ev_type :: u32
  ev_target :: nat
  ev_data :: "'d event_data"
  ev_flags :: u32

definition no_event :: "'d event" where
  "no_event = \<lparr>ev_type = ET_Unknown, ev_target = 0, ev_data = No_Data, ev_flags = 0\<rparr>"

definition frees_data :: "'d event \<Rightarrow> bool" where
  "frees_data ev \<longleftrightarrow> ev_type ev \<notin> {ET_Unknown, ET_Quit, ET_System, ET_Timer} \<and> and (ev_flags ev) DontFreeData = 0"

section \<open>The buffer of event numbers\<close>

datatype 'd buffer_answer = BA_Unknown | BA_System "'d event" | BA_User u32

record ('d, 'b) buffer_ops =
  bo_new :: 'b
  bo_add :: "u32 \<Rightarrow> 'b \<Rightarrow> bool \<times> 'b"
  bo_get :: "'b \<Rightarrow> 'd buffer_answer \<times> 'b"
  bo_empty :: "'b \<Rightarrow> bool"

locale event_buffer =
  fixes ops :: "('d, 'b) buffer_ops"
    and content :: "'b \<Rightarrow> u32 list"
    and ok :: "'b \<Rightarrow> bool"
  assumes new: "ok (bo_new ops)" "content (bo_new ops) = []"
    and add: "ok b \<Longrightarrow> bo_add ops i b = (r, b') \<Longrightarrow> r \<and> ok b' \<and> content b' = content b @ [i]"
    and get: "ok b \<Longrightarrow> content b = i # is \<Longrightarrow> bo_get ops b = (a, b') \<Longrightarrow> a = BA_User i \<and> ok b' \<and> content b' = is"
    and empty: "ok b \<Longrightarrow> bo_empty ops b \<longleftrightarrow> content b = []"

record simple_buffer =
  qb_queue :: "u32 list"
  qb_ready :: bool

definition simple_add :: "u32 \<Rightarrow> simple_buffer \<Rightarrow> bool \<times> simple_buffer" where
  "simple_add i b = (True, b\<lparr>qb_queue := i # qb_queue b, qb_ready := True\<rparr>)"

definition simple_get :: "simple_buffer \<Rightarrow> 'd buffer_answer \<times> simple_buffer" where
  "simple_get b =
     (if \<not> qb_ready b then (BA_Unknown, b)
      else (BA_User (last (qb_queue b)),
            b\<lparr>qb_queue := butlast (qb_queue b), qb_ready := butlast (qb_queue b) \<noteq> []\<rparr>))"

definition simple_ops :: "('d, simple_buffer) buffer_ops" where
  "simple_ops = \<lparr>bo_new = \<lparr>qb_queue = [], qb_ready = False\<rparr>, bo_add = simple_add, bo_get = simple_get,
     bo_empty = (\<lambda>b. \<not> qb_ready b)\<rparr>"

definition simple_ok :: "simple_buffer \<Rightarrow> bool" where
  "simple_ok b \<longleftrightarrow> qb_ready b = (qb_queue b \<noteq> [])"

definition simple_content :: "simple_buffer \<Rightarrow> u32 list" where
  "simple_content b = rev (qb_queue b)"

interpretation simple: event_buffer "simple_ops :: ('d, simple_buffer) buffer_ops" simple_content simple_ok
proof
  fix b b' :: simple_buffer and i "is" and a :: "'d buffer_answer"
  assume "simple_ok b" "simple_content b = i # is" "bo_get (simple_ops :: ('d, simple_buffer) buffer_ops) b = (a, b')"
  moreover from this have "qb_queue b = rev is @ [i]" by (simp add: simple_content_def rev_swap [symmetric])
  ultimately show "a = BA_User i \<and> simple_ok b' \<and> simple_content b' = is"
    by (auto simp: simple_ok_def simple_content_def simple_ops_def simple_get_def)
qed (auto simp: simple_ok_def simple_content_def simple_ops_def simple_add_def)

section \<open>State\<close>

text \<open>
  \<open>eq_old\<close> holds the numbers to be used again, the last one first. \<open>eq_freed\<close> is the data that was freed.
  \<open>eq_accepted\<close> is the history of the events that were accepted to be delivered later; nothing reads it.
\<close>

record timer =
  tm_timer :: nat
  tm_timeout :: real
  tm_target :: nat
  tm_one_shot :: bool
  tm_time :: real

record ('d, 'h, 'b) event_queue =
  eq_ready :: bool
  eq_pending :: "'d event list"
  eq_buffer :: 'b
  eq_events :: "(u32 \<times> 'd event) list"
  eq_old :: "u32 list"
  eq_time :: stopwatch
  eq_timers :: "nat set"
  eq_timer_queue :: "timer list"
  eq_handlers :: "(nat \<times> (u32 \<times> 'h) list) list"
  eq_freed :: "'d event_data list"
  eq_accepted :: "'d event list"

definition new_event_queue :: "('d, 'b) buffer_ops \<Rightarrow> real \<Rightarrow> ('d, 'h, 'b) event_queue" where
  "new_event_queue ops now =
     \<lparr>eq_ready = False, eq_pending = [], eq_buffer = bo_new ops, eq_events = [], eq_old = [],
      eq_time = new_stopwatch False now, eq_timers = {}, eq_timer_queue = [], eq_handlers = [], eq_freed = [],
      eq_accepted = []\<rparr>"

definition delete_data :: "'d event \<Rightarrow> ('d, 'h, 'b) event_queue \<Rightarrow> ('d, 'h, 'b) event_queue" where
  "delete_data ev q = (if frees_data ev then q\<lparr>eq_freed := eq_freed q @ [ev_data ev]\<rparr> else q)"

section \<open>Handlers\<close>

definition add_event_handler :: "u32 \<Rightarrow> nat \<Rightarrow> 'h \<Rightarrow> ('d, 'h, 'b) event_queue \<Rightarrow> ('d, 'h, 'b) event_queue" where
  "add_event_handler t target h q =
     (let hs = (case map_find (<) target (eq_handlers q) of None \<Rightarrow> [] | Some hs \<Rightarrow> hs);
          hs1 = map_insert (<) t h (map_erase (<) t hs)
      in q\<lparr>eq_handlers := map_insert (<) target hs1 (map_erase (<) target (eq_handlers q))\<rparr>)"

definition remove_event_handler :: "u32 \<Rightarrow> nat \<Rightarrow> ('d, 'h, 'b) event_queue \<Rightarrow> ('d, 'h, 'b) event_queue" where
  "remove_event_handler t target q =
     (case map_find (<) target (eq_handlers q) of
        None \<Rightarrow> q
      | Some hs \<Rightarrow>
          let hs1 = map_erase (<) t hs
          in q\<lparr>eq_handlers := (if hs1 = [] then map_erase (<) target (eq_handlers q)
                 else map_update (<) target (\<lambda>_. hs1) (eq_handlers q))\<rparr>)"

definition remove_event_handlers :: "nat \<Rightarrow> ('d, 'h, 'b) event_queue \<Rightarrow> ('d, 'h, 'b) event_queue" where
  "remove_event_handlers target q = q\<lparr>eq_handlers := map_erase (<) target (eq_handlers q)\<rparr>"

definition get_handler :: "u32 \<Rightarrow> nat \<Rightarrow> ('d, 'h, 'b) event_queue \<Rightarrow> 'h option" where
  "get_handler t target q = Option.bind (map_find (<) target (eq_handlers q)) (map_find (<) t)"

text \<open>The handler that is called; what it does is up to the one who installed it.\<close>

definition dispatch_event :: "'d event \<Rightarrow> ('d, 'h, 'b) event_queue \<Rightarrow> 'h option" where
  "dispatch_event ev q =
     (case get_handler (ev_type ev) (ev_target ev) q of
        Some h \<Rightarrow> Some h
      | None \<Rightarrow> get_handler ET_Unknown (ev_target ev) q)"

section \<open>Adding events\<close>

definition save_event :: "'d event \<Rightarrow> ('d, 'h, 'b) event_queue \<Rightarrow> u32 \<times> ('d, 'h, 'b) event_queue" where
  "save_event ev q =
     (case (case eq_old q of
              i # old \<Rightarrow> (i, q\<lparr>eq_old := old\<rparr>)
            | [] \<Rightarrow> (word_of_nat (length (eq_events q)), q)) of
        (i, q1) \<Rightarrow> (i, q1\<lparr>eq_events := map_insert (<) i ev (map_erase (<) i (eq_events q1))\<rparr>))"

definition remove_event :: "u32 \<Rightarrow> ('d, 'h, 'b) event_queue \<Rightarrow> 'd event \<times> ('d, 'h, 'b) event_queue" where
  "remove_event i q =
     (case map_find (<) i (eq_events q) of
        None \<Rightarrow> (no_event, q)
      | Some ev \<Rightarrow> (ev, q\<lparr>eq_events := map_erase (<) i (eq_events q), eq_old := i # eq_old q\<rparr>))"

definition add_event_to_buffer ::
  "('d, 'b) buffer_ops \<Rightarrow> 'd event \<Rightarrow> ('d, 'h, 'b) event_queue \<Rightarrow> ('d, 'h, 'b) event_queue" where
  "add_event_to_buffer ops ev q =
     (case save_event ev q of
        (i, q1) \<Rightarrow>
          (case bo_add ops i (eq_buffer q1) of
             (True, b) \<Rightarrow> q1\<lparr>eq_buffer := b\<rparr>
           | (False, b) \<Rightarrow>
               (case remove_event i (q1\<lparr>eq_buffer := b\<rparr>) of (ev1, q2) \<Rightarrow> delete_data ev1 q2)))"

text \<open>The handler that is called when the event is to be delivered at once.\<close>

definition add_event ::
  "('d, 'b) buffer_ops \<Rightarrow> 'd event \<Rightarrow> ('d, 'h, 'b) event_queue \<Rightarrow> 'h option \<times> ('d, 'h, 'b) event_queue" where
  "add_event ops ev q =
     (if ev_type ev \<in> {ET_Unknown, ET_System, ET_Timer} then (None, q)
      else if and (ev_flags ev) DeliverImmediately \<noteq> 0 then (dispatch_event ev q, delete_data ev q)
      else (None,
        let q1 = q\<lparr>eq_accepted := eq_accepted q @ [ev]\<rparr>
        in if \<not> eq_ready q1 then q1\<lparr>eq_pending := eq_pending q1 @ [ev]\<rparr> else add_event_to_buffer ops ev q1))"

text \<open>The start of \<open>loop\<close>: the queue becomes ready, then the pending events move to the buffer.\<close>

definition set_ready :: "('d, 'h, 'b) event_queue \<Rightarrow> ('d, 'h, 'b) event_queue" where
  "set_ready q = q\<lparr>eq_ready := True\<rparr>"

definition move_pending :: "('d, 'b) buffer_ops \<Rightarrow> ('d, 'h, 'b) event_queue \<Rightarrow> ('d, 'h, 'b) event_queue" where
  "move_pending ops q =
     (case eq_pending q of [] \<Rightarrow> q | ev # evs \<Rightarrow> (add_event_to_buffer ops ev q)\<lparr>eq_pending := evs\<rparr>)"

definition loop_start :: "('d, 'b) buffer_ops \<Rightarrow> ('d, 'h, 'b) event_queue \<Rightarrow> ('d, 'h, 'b) event_queue" where
  "loop_start ops q = (move_pending ops ^^ length (eq_pending q)) (set_ready q)"

definition adopt_buffer :: "('d, 'b) buffer_ops \<Rightarrow> 'b option \<Rightarrow> ('d, 'h, 'b) event_queue \<Rightarrow> ('d, 'h, 'b) event_queue" where
  "adopt_buffer ops b q =
     (let q1 = fold (\<lambda>(i, ev). delete_data ev) (eq_events q) q
      in q1\<lparr>eq_events := [], eq_old := [], eq_buffer := (case b of None \<Rightarrow> bo_new ops | Some b' \<Rightarrow> b')\<rparr>)"

section \<open>Timers\<close>

text \<open>
  The timer queue is a heap whose head is \<open>soonest\<close>, an argument, as the order of equal elements in a heap is
  left open; the list holds its elements. A timer counts down from its duration; the clock that has run since
  the last count is added at the start, as it will be subtracted.
\<close>

definition fill_event :: "timer \<Rightarrow> 'd event_data" where
  "fill_event t =
     Timer_Data (tm_timer t)
       (if tm_time t \<le> 0 then word_of_int \<lfloor>(tm_timeout t - tm_time t) / tm_timeout t\<rfloor> else 0)"

definition new_queue_timer ::
  "nat \<Rightarrow> real \<Rightarrow> nat \<Rightarrow> bool \<Rightarrow> real \<Rightarrow> ('d, 'h, 'b) event_queue \<Rightarrow> ('d, 'h, 'b) event_queue option" where
  "new_queue_timer timer duration target once now q =
     (if \<not> 0 < duration then None
      else case sw_get_time now (eq_time q) of
        (elapsed, w) \<Rightarrow>
          Some (q\<lparr>eq_timers := insert timer (eq_timers q), eq_time := w,
            eq_timer_queue := eq_timer_queue q @
              [\<lparr>tm_timer = timer, tm_timeout = duration, tm_target = (if target = 0 then timer else target),
                tm_one_shot = once, tm_time = duration + elapsed\<rparr>]\<rparr>))"

fun erase_timer :: "nat \<Rightarrow> timer list \<Rightarrow> timer list" where
  "erase_timer timer [] = []"
| "erase_timer timer (t # ts) = (if tm_timer t = timer then ts else t # erase_timer timer ts)"

definition delete_queue_timer :: "nat \<Rightarrow> ('d, 'h, 'b) event_queue \<Rightarrow> ('d, 'h, 'b) event_queue" where
  "delete_queue_timer timer q =
     q\<lparr>eq_timer_queue := erase_timer timer (eq_timer_queue q), eq_timers := eq_timers q - {timer}\<rparr>"

definition has_timer_expired ::
  "(timer list \<Rightarrow> timer) \<Rightarrow> real \<Rightarrow> real \<Rightarrow> ('d, 'h, 'b) event_queue \<Rightarrow>
   'd event option \<times> ('d, 'h, 'b) event_queue" where
  "has_timer_expired soonest t1 t2 q =
     (if eq_timer_queue q = [] then (None, q)
      else case sw_get_time t1 (eq_time q) of
        (time, w) \<Rightarrow>
          let ts = map (\<lambda>t. t\<lparr>tm_time := tm_time t - time\<rparr>) (eq_timer_queue q);
              q1 = q\<lparr>eq_time := snd (sw_reset t2 w), eq_timer_queue := ts\<rparr>;
              t = soonest ts
          in if tm_time t > 0 then (None, q1)
             else (Some \<lparr>ev_type = ET_Timer, ev_target = tm_target t, ev_data = fill_event t, ev_flags = 0\<rparr>,
                   q1\<lparr>eq_timer_queue := remove1 t ts @
                        (if tm_one_shot t then [] else [t\<lparr>tm_time := tm_timeout t\<rparr>])\<rparr>))"

definition get_next_timer_timeout :: "(timer list \<Rightarrow> timer) \<Rightarrow> ('d, 'h, 'b) event_queue \<Rightarrow> real" where
  "get_next_timer_timeout soonest q =
     (if eq_timer_queue q = [] then - 1
      else if tm_time (soonest (eq_timer_queue q)) \<le> 0 then 0
      else tm_time (soonest (eq_timer_queue q)))"

section \<open>Getting events\<close>

text \<open>
  One turn of the loop of \<open>processEvent\<close>: the readings of the clock when the timers are checked and their
  clock is reset, and when the time left is computed, and the events that other threads add while it waits
  for at most a time.
\<close>

record 'd turn =
  tn_check :: real
  tn_reset :: real
  tn_left :: real
  tn_arrivals :: "real \<Rightarrow> 'd event list"

definition wait_time :: "real \<Rightarrow> real \<Rightarrow> real \<Rightarrow> real" where
  "wait_time timeout left next_timer =
     (if timeout < 0 \<or> (next_timer \<ge> 0 \<and> next_timer < left) then next_timer else left)"

definition arrive :: "('d, 'b) buffer_ops \<Rightarrow> 'd event list \<Rightarrow> ('d, 'h, 'b) event_queue \<Rightarrow> ('d, 'h, 'b) event_queue" where
  "arrive ops evs q = fold (\<lambda>ev. snd \<circ> add_event ops ev) evs q"

text \<open>
  \<open>None\<close>: the turns are over and it still waits. A buffer that has no event after all is asked again, and
  then \<open>false\<close> is returned whatever the second attempt returned.
\<close>

fun process_event ::
  "('d, 'b) buffer_ops \<Rightarrow> (timer list \<Rightarrow> timer) \<Rightarrow> real \<Rightarrow> 'd turn list \<Rightarrow> stopwatch \<Rightarrow> 'd event \<Rightarrow>
   ('d, 'h, 'b) event_queue \<Rightarrow> (bool \<times> 'd event \<times> ('d, 'h, 'b) event_queue) option" where
  "process_event ops soonest timeout ts sw ev q =
     (if bo_empty ops (eq_buffer q) then
        (case ts of
           [] \<Rightarrow> None
         | n # ns \<Rightarrow>
             (case has_timer_expired soonest (tn_check n) (tn_reset n) q of
                (Some ev1, q1) \<Rightarrow> Some (True, ev1, q1)
              | (None, q1) \<Rightarrow>
                  (case sw_get_time (tn_left n) sw of
                     (elapsed, sw1) \<Rightarrow>
                       let left = timeout - elapsed in
                       if timeout \<ge> 0 \<and> left \<le> 0 then Some (False, ev, q1)
                       else process_event ops soonest timeout ns sw1 ev
                         (arrive ops (tn_arrivals n (wait_time timeout left (get_next_timer_timeout soonest q1))) q1))))
      else
        (case bo_get ops (eq_buffer q) of
           (BA_System ev1, b) \<Rightarrow> Some (True, ev1, q\<lparr>eq_buffer := b\<rparr>)
         | (BA_User i, b) \<Rightarrow>
             (case remove_event i (q\<lparr>eq_buffer := b\<rparr>) of (ev1, q1) \<Rightarrow> Some (True, ev1, q1))
         | (BA_Unknown, b) \<Rightarrow>
             (case ts of
                [] \<Rightarrow> None
              | n # ns \<Rightarrow>
                  (case (if timeout < 0 then (True, sw)
                         else case sw_get_time (tn_left n) sw of (elapsed, sw1) \<Rightarrow> (timeout \<le> elapsed, sw1)) of
                     (again, sw1) \<Rightarrow>
                       if again
                       then map_option (\<lambda>(_, r). (False, r))
                              (process_event ops soonest timeout ns sw1 ev (q\<lparr>eq_buffer := b\<rparr>))
                       else Some (False, ev, q\<lparr>eq_buffer := b\<rparr>)))))"

declare process_event.simps [simp del]

definition get_event ::
  "('d, 'b) buffer_ops \<Rightarrow> (timer list \<Rightarrow> timer) \<Rightarrow> real \<Rightarrow> 'd turn list \<Rightarrow> 'd event \<Rightarrow>
   ('d, 'h, 'b) event_queue \<Rightarrow> (bool \<times> 'd event \<times> ('d, 'h, 'b) event_queue) option" where
  "get_event ops soonest timeout ts ev q = process_event ops soonest timeout ts (new_stopwatch True 0) ev q"

text \<open>The loop until the quit event; \<open>run\<close> is what the handlers do. One list of turns per event.\<close>

fun event_loop ::
  "('d, 'b) buffer_ops \<Rightarrow> (timer list \<Rightarrow> timer) \<Rightarrow>
   ('h \<Rightarrow> 'd event \<Rightarrow> ('d, 'h, 'b) event_queue \<Rightarrow> ('d, 'h, 'b) event_queue) \<Rightarrow> 'd turn list list \<Rightarrow>
   'd event \<Rightarrow> ('d, 'h, 'b) event_queue \<Rightarrow> ('d, 'h, 'b) event_queue option" where
  "event_loop ops soonest run [] ev q = None"
| "event_loop ops soonest run (ts # tss) ev q =
     (case get_event ops soonest (- 1) ts ev q of
        None \<Rightarrow> None
      | Some (_, ev1, q1) \<Rightarrow>
          if ev_type ev1 = ET_Quit then Some q1
          else event_loop ops soonest run tss ev1
            (delete_data ev1 (case dispatch_event ev1 q1 of None \<Rightarrow> q1 | Some h \<Rightarrow> run h ev1 q1)))"

section \<open>Events keep their order\<close>

interpretation event_id: std_map_order "(<) :: u32 \<Rightarrow> u32 \<Rightarrow> bool"
  by unfold_locales auto

lemma same_id [simp]: "same_key (<) (i :: u32) j \<longleftrightarrow> i = j"
  by (auto simp: same_key_def)

definition ids :: "(u32 \<times> 'a) list \<Rightarrow> u32 set" where
  "ids es = fst ` set es"

lemma find_ids: "map_find (<) i es \<noteq> None \<longleftrightarrow> i \<in> ids es"
  by (auto simp: map_find_def map_entry_None ids_def)

lemma ids_erase: "ids (map_erase (<) i es) = ids es - {i}"
  by (auto simp: ids_def map_erase_def)

lemma ids_insert: "ids (map_insert (<) i ev es) = insert i (ids es)"
  by (induction es) (auto simp: ids_def)

lemma store_find:
  fixes es :: "(u32 \<times> 'a) list"
  shows "map_sorted (<) es \<Longrightarrow> map_find (<) j (map_insert (<) i ev (map_erase (<) i es)) =
     (if j = i then Some ev else map_find (<) j es)"
  using event_id.insert_entry [OF event_id.erase_sorted, of es j i ev i]
  by (auto simp: map_find_def event_id.erase_entry)

lemma erase_find: "map_find (<) j (map_erase (<) i es) = (if j = i then None else map_find (<) j es)"
  for i j :: u32
  by (simp add: map_find_def event_id.erase_entry)

lemma sorted_length: "map_sorted (<) (es :: (u32 \<times> 'a) list) \<Longrightarrow> length es = card (ids es)"
proof -
  assume s: "map_sorted (<) es"
  have "distinct (map fst es)"
    using s unfolding map_sorted_def distinct_conv_nth sorted_wrt_iff_nth_less
    by (metis (no_types, lifting) length_map less_irrefl linorder_neqE_nat nth_map)
  then show ?thesis unfolding ids_def using distinct_card [of "map fst es"] by simp
qed

text \<open>The numbers that were ever used: each is used for an event now or waits to be used again.\<close>

definition used :: "('d, 'h, 'b) event_queue \<Rightarrow> nat" where
  "used q = length (eq_old q) + length (eq_events q)"

definition numbers_ok :: "('d, 'h, 'b) event_queue \<Rightarrow> bool" where
  "numbers_ok q \<longleftrightarrow> map_sorted (<) (eq_events q) \<and> distinct (eq_old q) \<and> set (eq_old q) \<inter> ids (eq_events q) = {}"

definition queue_inv :: "('b \<Rightarrow> u32 list) \<Rightarrow> ('b \<Rightarrow> bool) \<Rightarrow> ('d, 'h, 'b) event_queue \<Rightarrow> bool" where
  "queue_inv content ok q \<longleftrightarrow>
     ok (eq_buffer q) \<and> numbers_ok q \<and> distinct (content (eq_buffer q)) \<and>
     set (content (eq_buffer q)) = ids (eq_events q) \<and>
     set (eq_old q) \<union> ids (eq_events q) = word_of_nat ` {..<used q}"

definition waiting :: "('b \<Rightarrow> u32 list) \<Rightarrow> ('d, 'h, 'b) event_queue \<Rightarrow> 'd event list" where
  "waiting content q = map (\<lambda>i. the (map_find (<) i (eq_events q))) (content (eq_buffer q))"

lemma word_of_nat_inj: "a < 2 ^ 32 \<Longrightarrow> b < 2 ^ 32 \<Longrightarrow> (word_of_nat a :: u32) = word_of_nat b \<Longrightarrow> a = b"
  by (drule arg_cong [of _ _ unat]) (simp add: unsigned_of_nat take_bit_nat_eq_self)

lemma save_event_numbers:
  assumes "numbers_ok q" and "save_event ev q = (i, r)"
  shows "numbers_ok r" and "used q \<le> used r"
proof -
  have len: "length (map_insert (<) i ev (map_erase (<) i (eq_events q))) = card (insert i (ids (eq_events q)))"
    using sorted_length [OF event_id.insert_sorted [OF event_id.erase_sorted], of "eq_events q" i ev i] assms(1)
    by (simp add: numbers_ok_def ids_insert ids_erase insert_Diff_single)
  show "numbers_ok r" "used q \<le> used r"
  proof (atomize (full), cases "eq_old q")
    case Nil
    have "card (ids (eq_events q)) \<le> card (insert i (ids (eq_events q)))"
      by (rule card_mono) (auto simp: ids_def)
    then show "numbers_ok r \<and> used q \<le> used r"
      using Nil assms len sorted_length [of "eq_events q"]
      by (auto simp: save_event_def numbers_ok_def used_def event_id.insert_sorted event_id.erase_sorted)
  next
    case (Cons j old)
    then have "i = j" "j \<notin> ids (eq_events q)" "finite (ids (eq_events q))"
      using assms by (auto simp: save_event_def numbers_ok_def ids_def)
    then show "numbers_ok r \<and> used q \<le> used r"
      using Cons assms len sorted_length [of "eq_events q"]
      by (auto simp: save_event_def numbers_ok_def used_def event_id.insert_sorted event_id.erase_sorted ids_insert ids_erase)
  qed
qed

lemma remove_event_numbers:
  assumes "numbers_ok q" and "remove_event i q = (ev, r)"
  shows "numbers_ok r" and "used r = used q"
proof (atomize (full), cases "map_find (<) i (eq_events q)")
  case (Some e)
  then have i: "i \<in> ids (eq_events q)" using find_ids [of i "eq_events q"] by simp
  have "length (map_erase (<) i (eq_events q)) = card (ids (eq_events q)) - 1"
    using sorted_length [OF event_id.erase_sorted, of "eq_events q" i] assms(1) i
    by (simp add: numbers_ok_def ids_erase)
  moreover have "Suc (card (ids (eq_events q)) - 1) = card (ids (eq_events q))"
    using i card_gt_0_iff [of "ids (eq_events q)"] by (auto simp: ids_def)
  ultimately show "numbers_ok r \<and> used r = used q"
    using Some assms i sorted_length [of "eq_events q"]
    by (auto simp: remove_event_def numbers_ok_def used_def event_id.erase_sorted ids_erase)
qed (use assms in \<open>simp add: remove_event_def\<close>)

lemma fresh_number:
  assumes inv: "queue_inv content ok q" and room: "used q < 2 ^ 32" and s: "save_event ev q = (i, r)"
  shows "i \<notin> ids (eq_events q)" and "ids (eq_events r) = insert i (ids (eq_events q))"
    and "set (eq_old r) \<union> ids (eq_events r) = word_of_nat ` {..<used r}"
    and "map_find (<) j (eq_events r) = (if j = i then Some ev else map_find (<) j (eq_events q))"
    and "eq_buffer r = eq_buffer q" "eq_pending r = eq_pending q" "eq_accepted r = eq_accepted q" "eq_ready r = eq_ready q"
    and "used r \<le> Suc (used q)"
proof -
  have ok: "numbers_ok q" and all: "set (eq_old q) \<union> ids (eq_events q) = word_of_nat ` {..<used q}"
    using inv by (simp_all add: queue_inv_def)
  have size: "length (eq_events q) = card (ids (eq_events q))" "length (eq_events r) = card (ids (eq_events r))"
    using ok save_event_numbers(1) [OF ok s] sorted_length [of "eq_events q"] sorted_length [of "eq_events r"]
    by (simp_all add: numbers_ok_def)
  have fin: "finite (ids (eq_events q))" by (simp add: ids_def)
  show i: "i \<notin> ids (eq_events q)"
  proof (cases "eq_old q")
    case Nil
    then have eq: "i = word_of_nat (length (eq_events q))"
        "ids (eq_events q) = word_of_nat ` {..<length (eq_events q)}"
      using s all by (auto simp: save_event_def used_def)
    have len: "length (eq_events q) < 2 ^ 32" using room by (simp only: used_def)
    show ?thesis
    proof
      assume "i \<in> ids (eq_events q)"
      then obtain n where n: "i = word_of_nat n" "n \<in> {..<length (eq_events q)}" unfolding eq(2) by (rule imageE)
      have less: "n < length (eq_events q)" using n(2) by (rule lessThan_iff [THEN iffD1])
      have "n = length (eq_events q)"
        by (rule word_of_nat_inj [OF less_trans [OF less len] len]) (rule trans [OF n(1) [symmetric] eq(1)])
      then show False using less by simp
    qed
  qed (use s ok in \<open>auto simp: save_event_def numbers_ok_def\<close>)
  show r: "ids (eq_events r) = insert i (ids (eq_events q))"
    using s by (auto simp: save_event_def ids_insert ids_erase split: list.splits)
  then have "card (ids (eq_events r)) = Suc (card (ids (eq_events q)))" using i fin by simp
  then show "set (eq_old r) \<union> ids (eq_events r) = word_of_nat ` {..<used r}"
    using s all r size by (cases "eq_old q") (auto simp: save_event_def used_def lessThan_Suc)
  show "used r \<le> Suc (used q)"
    using s size r i fin by (cases "eq_old q") (auto simp: save_event_def used_def)
  show "map_find (<) j (eq_events r) = (if j = i then Some ev else map_find (<) j (eq_events q))"
    using s ok store_find [of "eq_events q" j i ev] by (auto simp: save_event_def numbers_ok_def split: list.splits)
qed (use s in \<open>auto simp: save_event_def split: list.splits\<close>)

context event_buffer
begin

lemma enqueue:
  assumes inv: "queue_inv content ok q" and room: "used q < 2 ^ 32"
  shows "queue_inv content ok (add_event_to_buffer ops ev q)"
    and "waiting content (add_event_to_buffer ops ev q) = waiting content q @ [ev]"
proof -
  obtain i r where s: "save_event ev q = (i, r)" by fastforce
  obtain a b where b: "bo_add ops i (eq_buffer q) = (a, b)" by fastforce
  note r = fresh_number [OF inv room s]
  have b': "a" "ok b" "content b = content (eq_buffer q) @ [i]" using add [OF _ b] inv by (auto simp: queue_inv_def)
  have q': "add_event_to_buffer ops ev q = r\<lparr>eq_buffer := b\<rparr>"
    using s b b'(1) r(5) by (simp add: add_event_to_buffer_def)
  have "numbers_ok r" using save_event_numbers(1) [OF _ s] inv by (simp add: queue_inv_def)
  then show "queue_inv content ok (add_event_to_buffer ops ev q)"
    using inv b' r(1-3) by (auto simp: q' queue_inv_def numbers_ok_def used_def)
  show "waiting content (add_event_to_buffer ops ev q) = waiting content q @ [ev]"
    using inv b' r(1,4) by (auto simp: q' waiting_def queue_inv_def)
qed

lemma dequeue:
  assumes inv: "queue_inv content ok q" and some: "\<not> bo_empty ops (eq_buffer q)"
  obtains i b e r where "bo_get ops (eq_buffer q) = (BA_User i, b)" "remove_event i (q\<lparr>eq_buffer := b\<rparr>) = (e, r)"
    "queue_inv content ok r" "waiting content q = e # waiting content r" "eq_pending r = eq_pending q"
    "eq_accepted r = eq_accepted q" "eq_ready r = eq_ready q"
proof -
  obtain i "is" where c: "content (eq_buffer q) = i # is"
    using empty inv some by (cases "content (eq_buffer q)") (auto simp: queue_inv_def)
  obtain a b where b: "bo_get ops (eq_buffer q) = (a, b)" by fastforce
  have b': "a = BA_User i" "ok b" "content b = is" using get [OF _ c b] inv by (auto simp: queue_inv_def)
  obtain e r where r: "remove_event i (q\<lparr>eq_buffer := b\<rparr>) = (e, r)" by fastforce
  have i: "i \<in> ids (eq_events q)" "i \<notin> set is" using inv c by (auto simp: queue_inv_def)
  then obtain v where v: "map_find (<) i (eq_events q) = Some v" using find_ids [of i "eq_events q"] by auto
  have r': "r = q\<lparr>eq_buffer := b, eq_events := map_erase (<) i (eq_events q), eq_old := i # eq_old q\<rparr>" "e = v"
    using r v by (auto simp: remove_event_def)
  have "numbers_ok (q\<lparr>eq_buffer := b\<rparr>)" using inv by (simp add: queue_inv_def numbers_ok_def)
  from remove_event_numbers [OF this r] have n: "numbers_ok r" "used r = used q" by (simp_all add: used_def)
  have "set (content (eq_buffer q)) = insert i (set is)" using c by simp
  then have "queue_inv content ok r"
    using inv n b' i c by (auto simp: queue_inv_def r' ids_erase)
  moreover have "waiting content q = e # waiting content r"
    using v c b' i by (auto simp: waiting_def r' erase_find)
  ultimately show ?thesis using that [OF _ r] b b'(1) r' by simp
qed

end

section \<open>Runs of the queue\<close>

text \<open>What its users and the loop do with the queue; the events that \<open>getEvent\<close> returned are collected.\<close>

datatype ('d, 'h) queue_call =
    QC_Add "'d event"
  | QC_Get real "'d turn list"
  | QC_Delete "'d event"
  | QC_Start
  | QC_NewTimer nat real nat bool real
  | QC_DeleteTimer nat
  | QC_AddHandler u32 nat 'h
  | QC_RemoveHandler u32 nat
  | QC_RemoveHandlers nat

fun queue_step ::
  "('d, 'b) buffer_ops \<Rightarrow> (timer list \<Rightarrow> timer) \<Rightarrow> ('d, 'h) queue_call \<Rightarrow>
   'd event list \<times> ('d, 'h, 'b) event_queue \<Rightarrow> ('d event list \<times> ('d, 'h, 'b) event_queue) option" where
  "queue_step ops soonest (QC_Add ev) (out, q) = Some (out, snd (add_event ops ev q))"
| "queue_step ops soonest (QC_Get timeout ts) (out, q) =
     map_option (\<lambda>(r, ev, q1). (if r then out @ [ev] else out, q1)) (get_event ops soonest timeout ts no_event q)"
| "queue_step ops soonest (QC_Delete ev) (out, q) = Some (out, delete_data ev q)"
| "queue_step ops soonest QC_Start (out, q) = Some (out, loop_start ops q)"
| "queue_step ops soonest (QC_NewTimer timer duration target once now) (out, q) =
     map_option (Pair out) (new_queue_timer timer duration target once now q)"
| "queue_step ops soonest (QC_DeleteTimer timer) (out, q) = Some (out, delete_queue_timer timer q)"
| "queue_step ops soonest (QC_AddHandler t target h) (out, q) = Some (out, add_event_handler t target h q)"
| "queue_step ops soonest (QC_RemoveHandler t target) (out, q) = Some (out, remove_event_handler t target q)"
| "queue_step ops soonest (QC_RemoveHandlers target) (out, q) = Some (out, remove_event_handlers target q)"

text \<open>Most operations leave the events alone.\<close>

definition core :: "('d, 'h, 'b) event_queue \<Rightarrow> bool \<times> 'd event list \<times> 'b \<times> (u32 \<times> 'd event) list \<times> u32 list \<times> 'd event list" where
  "core q = (eq_ready q, eq_pending q, eq_buffer q, eq_events q, eq_old q, eq_accepted q)"

definition held :: "('b \<Rightarrow> u32 list) \<Rightarrow> ('d, 'h, 'b) event_queue \<Rightarrow> 'd event list" where
  "held content q = waiting content q @ eq_pending q"

definition queue_good :: "('b \<Rightarrow> u32 list) \<Rightarrow> ('b \<Rightarrow> bool) \<Rightarrow> ('d, 'h, 'b) event_queue \<Rightarrow> bool" where
  "queue_good content ok q \<longleftrightarrow>
     queue_inv content ok q \<and> (eq_ready q \<longrightarrow> eq_pending q = []) \<and> (\<forall>ev \<in> set (held content q). ev_type ev \<noteq> ET_Timer)"

lemma core_congruence:
  assumes "core r = core q"
  shows "used r = used q" "numbers_ok r = numbers_ok q" "queue_inv content ok r = queue_inv content ok q"
    and "held content r = held content q" "queue_good content ok r = queue_good content ok q"
    and "eq_accepted r = eq_accepted q" "eq_ready r = eq_ready q" "eq_buffer r = eq_buffer q"
proof -
  show "queue_good content ok r = queue_good content ok q"
    using assms by (simp add: core_def used_def numbers_ok_def queue_inv_def waiting_def held_def queue_good_def)
qed (use assms in \<open>simp_all add: core_def used_def numbers_ok_def queue_inv_def waiting_def held_def\<close>)

lemma core_kept:
  "core (delete_data ev q) = core q" "core (delete_queue_timer i q) = core q"
  "core (add_event_handler t target h q) = core q" "core (remove_event_handler t target q) = core q"
  "core (remove_event_handlers target q) = core q"
  "new_queue_timer i d target once now q = Some r \<Longrightarrow> core r = core q"
  "has_timer_expired soonest t1 t2 q = (x, r) \<Longrightarrow> core r = core q"
  by (auto simp: core_def delete_data_def delete_queue_timer_def add_event_handler_def remove_event_handler_def
      remove_event_handlers_def new_queue_timer_def has_timer_expired_def Let_def
      split: option.splits prod.splits if_splits)

lemma timer_event_type: "has_timer_expired soonest t1 t2 q = (Some ev, r) \<Longrightarrow> ev_type ev = ET_Timer"
  by (auto simp: has_timer_expired_def Let_def split: prod.splits if_splits)

text \<open>The numbers in use never become fewer.\<close>

lemma add_to_buffer_numbers:
  assumes "numbers_ok q"
  shows "numbers_ok (add_event_to_buffer ops ev q) \<and> used q \<le> used (add_event_to_buffer ops ev q)"
proof -
  obtain i r where s: "save_event ev q = (i, r)" by fastforce
  obtain a b where b: "bo_add ops i (eq_buffer r) = (a, b)" by fastforce
  obtain e r2 where r2: "remove_event i (r\<lparr>eq_buffer := b\<rparr>) = (e, r2)" by fastforce
  note n = save_event_numbers [OF assms s]
  have "numbers_ok (r\<lparr>eq_buffer := b\<rparr>)" "used (r\<lparr>eq_buffer := b\<rparr>) = used r"
    using n by (simp_all add: numbers_ok_def used_def)
  then show ?thesis
    using n s b r2 remove_event_numbers [OF _ r2] core_congruence(1,2) [OF core_kept(1), of e r2]
    by (cases a) (auto simp: add_event_to_buffer_def)
qed

lemma add_event_numbers:
  assumes "numbers_ok q"
  shows "numbers_ok (snd (add_event ops ev q)) \<and> used q \<le> used (snd (add_event ops ev q))"
proof -
  let ?q = "q\<lparr>eq_accepted := eq_accepted q @ [ev]\<rparr>"
  have "numbers_ok ?q" "used ?q = used q" "numbers_ok (?q\<lparr>eq_pending := eq_pending q @ [ev]\<rparr>)"
    "used (?q\<lparr>eq_pending := eq_pending q @ [ev]\<rparr>) = used q"
    using assms by (simp_all add: numbers_ok_def used_def)
  then show ?thesis
    using assms add_to_buffer_numbers [of ?q ops ev] core_congruence(1,2) [OF core_kept(1), of ev q]
    by (auto simp: add_event_def Let_def)
qed

lemma arrive_Cons: "arrive ops (ev # evs) q = arrive ops evs (snd (add_event ops ev q))"
  by (simp add: arrive_def)

lemma arrive_numbers: "numbers_ok q \<Longrightarrow> numbers_ok (arrive ops evs q) \<and> used q \<le> used (arrive ops evs q)"
proof (induction evs arbitrary: q)
  case (Cons ev evs)
  then show ?case using add_event_numbers [of q ops ev] by (fastforce simp: arrive_Cons)
qed (simp add: arrive_def)

lemma process_event_numbers:
  "numbers_ok q \<Longrightarrow> process_event ops soonest timeout ts sw ev q = Some (r, e, q') \<Longrightarrow>
   numbers_ok q' \<and> used q \<le> used q'"
proof (induction ts arbitrary: sw q r)
  case Nil
  obtain a b where b: "bo_get ops (eq_buffer q) = (a, b)" by fastforce
  have "numbers_ok (q\<lparr>eq_buffer := b\<rparr>)" "used (q\<lparr>eq_buffer := b\<rparr>) = used q"
    using Nil.prems(1) by (simp_all add: numbers_ok_def used_def)
  then show ?case
    using Nil.prems(2) b remove_event_numbers [of "q\<lparr>eq_buffer := b\<rparr>"]
    by (subst (asm) process_event.simps) (auto split: if_splits buffer_answer.splits prod.splits)
next
  case (Cons n ns)
  obtain a b where b: "bo_get ops (eq_buffer q) = (a, b)" by fastforce
  have q: "numbers_ok (q\<lparr>eq_buffer := b\<rparr>)" "used (q\<lparr>eq_buffer := b\<rparr>) = used q"
    using Cons.prems(1) by (simp_all add: numbers_ok_def used_def)
  show ?case
  proof (cases "bo_empty ops (eq_buffer q)")
    case True
    obtain x q1 where x: "has_timer_expired soonest (tn_check n) (tn_reset n) q = (x, q1)" by fastforce
    note k = core_congruence(1,2) [OF core_kept(7) [OF x]]
    obtain el sw1 where el: "sw_get_time (tn_left n) sw = (el, sw1)" by fastforce
    let ?q = "arrive ops (tn_arrivals n (wait_time timeout (timeout - el) (get_next_timer_timeout soonest q1))) q1"
    have "numbers_ok ?q" "used q \<le> used ?q" using arrive_numbers [of q1] k Cons.prems(1) by auto
    then show ?thesis
      using Cons.prems(1,2) True x el k Cons.IH [of ?q sw1 r]
      by (subst (asm) process_event.simps) (auto simp: Let_def split: option.splits if_splits)
  next
    case False
    then show ?thesis
      using Cons.prems(2) b q remove_event_numbers [of "q\<lparr>eq_buffer := b\<rparr>"] Cons.IH [of "q\<lparr>eq_buffer := b\<rparr>"]
      by (subst (asm) process_event.simps) (auto split: if_splits buffer_answer.splits prod.splits)
  qed
qed

lemma numbers_of_inv: "queue_inv content ok q \<Longrightarrow> numbers_ok q"
  by (simp add: queue_inv_def)

lemma move_numbers:
  fixes q :: "('d, 'h, 'b) event_queue"
  assumes "numbers_ok q"
  shows "numbers_ok (move_pending ops q) \<and> used q \<le> used (move_pending ops q)"
proof -
  have *: "numbers_ok (p\<lparr>eq_pending := evs\<rparr>) = numbers_ok p" "used (p\<lparr>eq_pending := evs\<rparr>) = used p"
    for p :: "('d, 'h, 'b) event_queue" and evs
    by (simp_all add: numbers_ok_def used_def)
  show ?thesis using assms add_to_buffer_numbers [OF assms, of ops] by (simp add: move_pending_def * split: list.split)
qed

lemma moves_numbers: "numbers_ok q \<Longrightarrow> numbers_ok ((move_pending ops ^^ n) q) \<and> used q \<le> used ((move_pending ops ^^ n) q)"
proof (induction n)
  case (Suc n)
  then show ?case using move_numbers [of "(move_pending ops ^^ n) q" ops] by simp
qed simp

lemma add_event_cases:
  obtains "core (snd (add_event ops ev q)) = core q"
  | "ev_type ev \<noteq> ET_Timer" "\<not> eq_ready q"
    "snd (add_event ops ev q) = q\<lparr>eq_accepted := eq_accepted q @ [ev], eq_pending := eq_pending q @ [ev]\<rparr>"
  | "ev_type ev \<noteq> ET_Timer" "eq_ready q"
    "snd (add_event ops ev q) = add_event_to_buffer ops ev (q\<lparr>eq_accepted := eq_accepted q @ [ev]\<rparr>)"
proof (cases "ev_type ev \<in> {ET_Unknown, ET_System, ET_Timer} \<or> and (ev_flags ev) DeliverImmediately \<noteq> 0")
  case True
  then have "snd (add_event ops ev q) \<in> {q, delete_data ev q}" by (auto simp: add_event_def)
  then have "core (snd (add_event ops ev q)) = core q" using core_kept(1) [of ev q] by auto
  then show thesis by (rule that(1))
next
  case False
  then have "ev_type ev \<noteq> ET_Timer" and s: "snd (add_event ops ev q) =
      (let q1 = q\<lparr>eq_accepted := eq_accepted q @ [ev]\<rparr>
       in if \<not> eq_ready q1 then q1\<lparr>eq_pending := eq_pending q1 @ [ev]\<rparr> else add_event_to_buffer ops ev q1)"
    by (simp_all add: add_event_def)
  then show thesis using that(2,3) by (cases "eq_ready q") (simp_all add: Let_def)
qed

context event_buffer
begin

lemma to_buffer_frame:
  assumes "queue_inv content ok q" and "used q < 2 ^ 32"
  shows "eq_pending (add_event_to_buffer ops ev q) = eq_pending q" "eq_accepted (add_event_to_buffer ops ev q) = eq_accepted q"
    and "eq_ready (add_event_to_buffer ops ev q) = eq_ready q" "used (add_event_to_buffer ops ev q) \<le> Suc (used q)"
proof -
  obtain i r where s: "save_event ev q = (i, r)" by fastforce
  obtain a b where b: "bo_add ops i (eq_buffer q) = (a, b)" by fastforce
  have "a" using add [OF _ b] assms(1) by (auto simp: queue_inv_def)
  then show "eq_pending (add_event_to_buffer ops ev q) = eq_pending q" "eq_accepted (add_event_to_buffer ops ev q) = eq_accepted q"
    "eq_ready (add_event_to_buffer ops ev q) = eq_ready q" "used (add_event_to_buffer ops ev q) \<le> Suc (used q)"
    using s b fresh_number(5-9) [OF assms s] by (simp_all add: add_event_to_buffer_def used_def)
qed

lemma add_event_good:
  assumes good: "queue_good content ok q" and room: "used (snd (add_event ops ev q)) < 2 ^ 32"
  shows "queue_good content ok (snd (add_event ops ev q)) \<and> eq_ready (snd (add_event ops ev q)) = eq_ready q \<and>
    (\<exists>new. eq_accepted (snd (add_event ops ev q)) = eq_accepted q @ new \<and>
       held content (snd (add_event ops ev q)) = held content q @ new)"
proof -
  have inv: "queue_inv content ok q" "numbers_ok q" using good by (simp_all add: queue_good_def queue_inv_def)
  have before: "used q < 2 ^ 32" using add_event_numbers [OF inv(2), of ops ev] room by linarith
  let ?q = "q\<lparr>eq_accepted := eq_accepted q @ [ev]\<rparr>"
  have q: "queue_inv content ok ?q" "used ?q < 2 ^ 32" "waiting content ?q = waiting content q"
    using inv before by (simp_all add: queue_inv_def numbers_ok_def used_def waiting_def)
  show ?thesis
  proof (rule add_event_cases [of ops ev q])
    assume c: "core (snd (add_event ops ev q)) = core q"
    show ?thesis using core_congruence(4-7) [OF c] good by simp
  next
    assume "ev_type ev \<noteq> ET_Timer" "\<not> eq_ready q"
      "snd (add_event ops ev q) = q\<lparr>eq_accepted := eq_accepted q @ [ev], eq_pending := eq_pending q @ [ev]\<rparr>"
    then show ?thesis
      using good by (auto simp: queue_good_def queue_inv_def numbers_ok_def used_def held_def waiting_def)
  next
    assume e: "ev_type ev \<noteq> ET_Timer" "eq_ready q" "snd (add_event ops ev q) = add_event_to_buffer ops ev ?q"
    show ?thesis
      using good e to_buffer_frame [OF q(1,2), of ev] enqueue [OF q(1,2), of ev] q(3)
      by (auto simp: queue_good_def held_def)
  qed
qed

lemma arrive_good:
  "queue_good content ok q \<Longrightarrow> used (arrive ops evs q) < 2 ^ 32 \<Longrightarrow>
   queue_good content ok (arrive ops evs q) \<and> eq_ready (arrive ops evs q) = eq_ready q \<and>
    (\<exists>new. eq_accepted (arrive ops evs q) = eq_accepted q @ new \<and> held content (arrive ops evs q) = held content q @ new)"
proof (induction evs arbitrary: q)
  case (Cons ev evs)
  let ?q = "snd (add_event ops ev q)"
  have n: "numbers_ok q" using Cons.prems(1) numbers_of_inv by (auto simp: queue_good_def)
  have "used ?q \<le> used (arrive ops evs ?q)" using arrive_numbers add_event_numbers [OF n] by blast
  then have "used ?q < 2 ^ 32" using Cons.prems(2) by (simp add: arrive_Cons)
  from add_event_good [OF Cons.prems(1) this] obtain new where a: "queue_good content ok ?q" "eq_ready ?q = eq_ready q"
    "eq_accepted ?q = eq_accepted q @ new" "held content ?q = held content q @ new" by blast
  moreover obtain new2 where "queue_good content ok (arrive ops evs ?q)" "eq_ready (arrive ops evs ?q) = eq_ready ?q"
    "eq_accepted (arrive ops evs ?q) = eq_accepted ?q @ new2" "held content (arrive ops evs ?q) = held content ?q @ new2"
    using Cons.IH [OF a(1)] Cons.prems(2) by (auto simp: arrive_Cons)
  ultimately show ?case by (auto simp: arrive_Cons)
qed (simp add: arrive_def)

definition taken_from where
  "taken_from q r e q' \<longleftrightarrow>
     queue_good content ok q' \<and> eq_ready q' = eq_ready q \<and>
     (\<exists>new. eq_accepted q' = eq_accepted q @ new \<and>
       held content q @ new = (if r \<and> ev_type e \<noteq> ET_Timer then e # held content q' else held content q'))"

lemma process_event_good:
  "queue_good content ok q \<Longrightarrow> process_event ops soonest timeout ts sw ev q = Some (r, e, q') \<Longrightarrow>
   used q' < 2 ^ 32 \<Longrightarrow> taken_from q r e q'"
proof (induction ts arbitrary: sw q)
  case Nil
  have some: "\<not> bo_empty ops (eq_buffer q)" using Nil.prems(2) by (subst (asm) process_event.simps) auto
  show ?case
  proof (rule dequeue [OF _ some])
    show "queue_inv content ok q" using Nil.prems(1) by (simp add: queue_good_def)
  next
    fix i b v w
    assume "bo_get ops (eq_buffer q) = (BA_User i, b)" "remove_event i (q\<lparr>eq_buffer := b\<rparr>) = (v, w)"
      "queue_inv content ok w" "waiting content q = v # waiting content w" "eq_pending w = eq_pending q"
      "eq_accepted w = eq_accepted q" "eq_ready w = eq_ready q"
    moreover from this have "r" "e = v" "q' = w"
      using Nil.prems(2) some by (subst (asm) process_event.simps, simp)+
    ultimately show ?thesis using Nil.prems(1) by (auto simp: taken_from_def queue_good_def held_def)
  qed
next
  case (Cons n ns)
  have good: "queue_good content ok q" by (rule Cons.prems(1))
  show ?case
  proof (cases "bo_empty ops (eq_buffer q)")
    case True
    obtain x q1 where x: "has_timer_expired soonest (tn_check n) (tn_reset n) q = (x, q1)" by fastforce
    note k = core_congruence [OF core_kept(7) [OF x]]
    obtain el sw1 where el: "sw_get_time (tn_left n) sw = (el, sw1)" by fastforce
    let ?evs = "tn_arrivals n (wait_time timeout (timeout - el) (get_next_timer_timeout soonest q1))"
    let ?q = "arrive ops ?evs q1"
    consider "x = Some e" "r" "q' = q1" | "x = None" "\<not> r" "q' = q1"
      | "x = None" "process_event ops soonest timeout ns sw1 ev ?q = Some (r, e, q')"
      using Cons.prems(2) True x el
      by (subst (asm) process_event.simps) (auto simp: Let_def split: option.splits if_splits)
    then show ?thesis
    proof cases
      case 1
      then have "ev_type e = ET_Timer" using timer_event_type x by blast
      then show ?thesis using 1 good k(4-7) by (auto simp: taken_from_def)
    next
      case 2
      then show ?thesis using good k(4-7) by (auto simp: taken_from_def)
    next
      case 3
      have n1: "numbers_ok q1" using good numbers_of_inv k(2) by (auto simp: queue_good_def)
      have "used ?q \<le> used q'" using process_event_numbers [OF _ 3(2)] arrive_numbers [OF n1, of ops ?evs] by blast
      then have "used ?q < 2 ^ 32" using Cons.prems(3) by simp
      from arrive_good [OF _ this] obtain new where a: "queue_good content ok ?q" "eq_ready ?q = eq_ready q"
        "eq_accepted ?q = eq_accepted q @ new" "held content ?q = held content q @ new" using good k(4-7) by auto
      have "taken_from ?q r e q'" by (rule Cons.IH [OF a(1) 3(2) Cons.prems(3)])
      then show ?thesis using a unfolding taken_from_def by (auto simp: append_assoc)
    qed
  next
    case False
    show ?thesis
    proof (rule dequeue [OF _ False])
      show "queue_inv content ok q" using good by (simp add: queue_good_def)
    next
      fix i b v w
      assume "bo_get ops (eq_buffer q) = (BA_User i, b)" "remove_event i (q\<lparr>eq_buffer := b\<rparr>) = (v, w)"
        "queue_inv content ok w" "waiting content q = v # waiting content w" "eq_pending w = eq_pending q"
        "eq_accepted w = eq_accepted q" "eq_ready w = eq_ready q"
      moreover from this have "r" "e = v" "q' = w"
        using Cons.prems(2) False by (subst (asm) process_event.simps, simp)+
      ultimately show ?thesis using good by (auto simp: taken_from_def queue_good_def held_def)
    qed
  qed
qed

lemma move_pending_good:
  "queue_inv content ok q \<Longrightarrow> eq_pending q = evs \<Longrightarrow> used ((move_pending ops ^^ length evs) q) < 2 ^ 32 \<Longrightarrow>
   queue_inv content ok ((move_pending ops ^^ length evs) q) \<and>
   waiting content ((move_pending ops ^^ length evs) q) = waiting content q @ evs \<and>
   eq_pending ((move_pending ops ^^ length evs) q) = [] \<and>
   eq_accepted ((move_pending ops ^^ length evs) q) = eq_accepted q \<and>
   eq_ready ((move_pending ops ^^ length evs) q) = eq_ready q"
proof (induction evs arbitrary: q)
  case (Cons ev evs)
  let ?r = "move_pending ops q"
  have split: "(move_pending ops ^^ length (ev # evs)) q = (move_pending ops ^^ length evs) ?r"
    by (simp add: funpow_swap1)
  have "used q \<le> used ((move_pending ops ^^ length (ev # evs)) q)"
    using moves_numbers [OF numbers_of_inv [OF Cons.prems(1)]] by blast
  then have room: "used q < 2 ^ 32" using Cons.prems(3) by linarith
  have r: "?r = (add_event_to_buffer ops ev q)\<lparr>eq_pending := evs\<rparr>"
    using Cons.prems(2) by (simp add: move_pending_def)
  have "queue_inv content ok ?r" "waiting content ?r = waiting content q @ [ev]" "eq_pending ?r = evs"
    "eq_accepted ?r = eq_accepted q" "eq_ready ?r = eq_ready q"
    using enqueue [OF Cons.prems(1) room, of ev] to_buffer_frame [OF Cons.prems(1) room, of ev]
    unfolding r by (simp_all add: queue_inv_def numbers_ok_def used_def waiting_def)
  then show ?case using Cons.IH [of ?r] Cons.prems(3) unfolding split by simp
qed simp

lemma loop_start_good:
  assumes good: "queue_good content ok q" and room: "used (loop_start ops q) < 2 ^ 32"
  shows "queue_good content ok (loop_start ops q)" "held content (loop_start ops q) = held content q"
    and "eq_accepted (loop_start ops q) = eq_accepted q"
proof -
  have q: "queue_inv content ok (set_ready q)" "eq_pending (set_ready q) = eq_pending q"
    "waiting content (set_ready q) = waiting content q" "eq_accepted (set_ready q) = eq_accepted q"
    using good by (simp_all add: set_ready_def queue_good_def queue_inv_def numbers_ok_def used_def waiting_def)
  note m = move_pending_good [OF q(1,2) room [unfolded loop_start_def]]
  show "queue_good content ok (loop_start ops q)" "held content (loop_start ops q) = held content q"
    "eq_accepted (loop_start ops q) = eq_accepted q"
    using m q(3,4) good by (simp_all add: loop_start_def held_def queue_good_def)
qed

end

definition in_order :: "('b \<Rightarrow> u32 list) \<Rightarrow> ('b \<Rightarrow> bool) \<Rightarrow> 'd event list \<times> ('d, 'h, 'b) event_queue \<Rightarrow> bool" where
  "in_order content ok = (\<lambda>(out, q). queue_good content ok q \<and>
     filter (\<lambda>ev. ev_type ev \<noteq> ET_Timer) out @ held content q = eq_accepted q)"

text \<open>As long as the numbers have not run out.\<close>

definition queue_run_inv :: "('b \<Rightarrow> u32 list) \<Rightarrow> ('b \<Rightarrow> bool) \<Rightarrow> 'd event list \<times> ('d, 'h, 'b) event_queue \<Rightarrow> bool" where
  "queue_run_inv content ok s \<longleftrightarrow> numbers_ok (snd s) \<and> (used (snd s) < 2 ^ 32 \<longrightarrow> in_order content ok s)"

fun moves_events :: "('d, 'h) queue_call \<Rightarrow> bool" where
  "moves_events (QC_Add ev) = True"
| "moves_events (QC_Get timeout ts) = True"
| "moves_events QC_Start = True"
| "moves_events _ = False"

lemma other_step:
  "\<not> moves_events c \<Longrightarrow> queue_step ops soonest c (out, q) = Some (out', q') \<Longrightarrow> core q' = core q \<and> out' = out"
  by (cases c) (auto simp: core_kept(1-5) dest: core_kept(6))

lemma queue_step_numbers:
  assumes "numbers_ok q" and "queue_step ops soonest c (out, q) = Some (out', q')"
  shows "numbers_ok q' \<and> used q \<le> used q'"
proof (cases c)
  case (QC_Add ev)
  then show ?thesis using assms add_event_numbers [OF assms(1), of ops ev] by auto
next
  case (QC_Get timeout ts)
  then show ?thesis using assms process_event_numbers [OF assms(1)] by (auto simp: get_event_def)
next
  case QC_Start
  have "numbers_ok (set_ready q)" "used (set_ready q) = used q"
    using assms(1) by (simp_all add: set_ready_def numbers_ok_def used_def)
  then show ?thesis
    using assms(2) QC_Start moves_numbers [where q = "set_ready q" and ops = ops and n = "length (eq_pending q)"]
    by (auto simp: loop_start_def)
qed (use assms other_step [of c ops soonest out q out' q'] core_congruence(1,2) [of q' q] in simp_all)

context event_buffer
begin

lemma queue_step_in_order:
  assumes s: "in_order content ok (out, q)" and step: "queue_step ops soonest c (out, q) = Some (out', q')"
    and room: "used q' < 2 ^ 32"
  shows "in_order content ok (out', q')"
proof -
  have good: "queue_good content ok q" and order: "filter (\<lambda>ev. ev_type ev \<noteq> ET_Timer) out @ held content q = eq_accepted q"
    using s by (simp_all add: in_order_def)
  have kept: "in_order content ok (out', q')"
    if "queue_good content ok q'" "eq_accepted q' = eq_accepted q @ new"
      "filter (\<lambda>ev. ev_type ev \<noteq> ET_Timer) out' @ held content q' = filter (\<lambda>ev. ev_type ev \<noteq> ET_Timer) out @ held content q @ new"
    for new
    using that order by (simp add: in_order_def)
  show ?thesis
  proof (cases c)
    case (QC_Add ev)
    then have q': "q' = snd (add_event ops ev q)" "out' = out" using step by simp_all
    obtain new where "queue_good content ok q'" "eq_accepted q' = eq_accepted q @ new" "held content q' = held content q @ new"
      using add_event_good [OF good] room unfolding q'(1) by blast
    then show ?thesis using kept q'(2) by simp
  next
    case (QC_Get timeout ts)
    then obtain r e where p: "process_event ops soonest timeout ts (new_stopwatch True 0) no_event q = Some (r, e, q')"
      "out' = (if r then out @ [e] else out)"
      using step by (auto simp: get_event_def)
    obtain new where new: "queue_good content ok q'" "eq_accepted q' = eq_accepted q @ new"
      "held content q @ new = (if r \<and> ev_type e \<noteq> ET_Timer then e # held content q' else held content q')"
      using process_event_good [OF good p(1) room] unfolding taken_from_def by blast
    show ?thesis by (rule kept [OF new(1,2)]) (use p(2) new(3) in \<open>cases r; simp split: if_splits\<close>)
  next
    case QC_Start
    then show ?thesis using step room loop_start_good [OF good] order by (auto simp: in_order_def)
  qed (use s step other_step [of c ops soonest out q out' q'] core_congruence(4-6) [of q' q] in \<open>simp_all add: in_order_def\<close>)
qed

lemma run_inv_step:
  assumes "queue_run_inv content ok s" and "queue_step ops soonest c s = Some t"
  shows "queue_run_inv content ok t"
proof -
  obtain out q out' q' where st: "s = (out, q)" "t = (out', q')" by fastforce
  have "numbers_ok q" using assms(1) st by (simp add: queue_run_inv_def)
  then have n: "numbers_ok q' \<and> used q \<le> used q'" by (rule queue_step_numbers) (rule assms(2) [unfolded st])
  show ?thesis
    unfolding queue_run_inv_def
  proof (intro conjI impI)
    show "numbers_ok (snd t)" using n st by simp
  next
    assume "used (snd t) < 2 ^ 32"
    then have "used q' < 2 ^ 32" "used q < 2 ^ 32" using n st by simp_all
    then show "in_order content ok t"
      using assms(1) queue_step_in_order [OF _ assms(2) [unfolded st]] unfolding st by (simp add: queue_run_inv_def)
  qed
qed

lemma run_inv_new: "queue_run_inv content ok ([], new_event_queue ops now)"
  using new by (simp add: queue_run_inv_def in_order_def queue_good_def queue_inv_def numbers_ok_def used_def held_def
      waiting_def new_event_queue_def map_sorted_def ids_def)

end

interpretation simple_queue: partial_machine "queue_step simple_ops soonest" "queue_run_inv simple_content simple_ok"
  for soonest
  by unfold_locales (rule simple.run_inv_step)


text \<open>
  A different order is possible at the start: an event that another thread adds when the queue is ready but a
  pending event has not moved yet overtakes it.
\<close>

lemma late_event_overtakes:
  assumes "queue_inv simple_content simple_ok q" and "waiting simple_content q = []" and "eq_pending q = [ev]"
    and "used q + 1 < 2 ^ 32" and "ev_type ev2 = ET_Quit" and "ev_flags ev2 = 0"
  shows "waiting simple_content (move_pending simple_ops (snd (add_event simple_ops ev2 (set_ready q)))) = [ev2, ev]"
proof -
  let ?q = "(set_ready q)\<lparr>eq_accepted := eq_accepted q @ [ev2]\<rparr>"
  have q: "queue_inv simple_content simple_ok ?q" "used ?q < 2 ^ 32" "waiting simple_content ?q = []" "eq_pending ?q = [ev]"
    using assms(1) by (simp add: set_ready_def queue_inv_def numbers_ok_def used_def)
      (use assms(2-4) in \<open>simp_all add: set_ready_def used_def waiting_def\<close>)
  let ?r = "add_event_to_buffer simple_ops ev2 ?q"
  have r: "snd (add_event simple_ops ev2 (set_ready q)) = ?r"
    using assms(5,6) by (simp add: add_event_def set_ready_def ET_Quit_def ET_Unknown_def ET_System_def ET_Timer_def)
  have "used ?r < 2 ^ 32"
    using simple.to_buffer_frame(4) [OF q(1,2), of ev2] assms(4) by (simp add: used_def set_ready_def)
  from simple.enqueue(2) [OF simple.enqueue(1) [OF q(1,2), of ev2] this, of ev] simple.enqueue(2) [OF q(1,2), of ev2]
  have "waiting simple_content (add_event_to_buffer simple_ops ev ?r) = [ev2, ev]" using q(3) by simp
  then show ?thesis
    using simple.to_buffer_frame(1) [OF q(1,2), of ev2] q(4) unfolding r by (simp add: move_pending_def waiting_def)
qed

section \<open>When timers fire\<close>

definition clock_runs :: "('d, 'h, 'b) event_queue \<Rightarrow> bool" where
  "clock_runs q \<longleftrightarrow> \<not> sw_triggered (eq_time q) \<and> \<not> sw_stopped (eq_time q)"

definition deadline :: "('d, 'h, 'b) event_queue \<Rightarrow> timer \<Rightarrow> real" where
  "deadline q t = sw_mark (eq_time q) + tm_time t"

lemma clock_reading:
  assumes "clock_runs q"
  shows "sw_get_time now (eq_time q) = (now - sw_mark (eq_time q), eq_time q)"
    and "snd (sw_reset now (eq_time q)) = (eq_time q)\<lparr>sw_mark := now\<rparr>"
  using assms by (simp_all add: clock_runs_def sw_get_time_def sw_peek_def sw_reset_def)

lemma new_timer_deadline:
  assumes "clock_runs q" and "new_queue_timer timer d target once now q = Some r"
  shows "clock_runs r \<and> (\<exists>t. eq_timer_queue r = eq_timer_queue q @ [t] \<and> tm_timer t = timer \<and> deadline r t = now + d \<and>
    (\<forall>u. deadline r u = deadline q u))"
  using assms(2) clock_reading(1) [OF assms(1), of now] assms(1)
  by (auto simp: new_queue_timer_def deadline_def clock_runs_def split: if_splits)


definition one_timer :: "(nat, nat, nat) event_queue" where
  "one_timer = \<lparr>eq_ready = True, eq_pending = [], eq_buffer = 0, eq_events = [], eq_old = [],
     eq_time = new_stopwatch False 1, eq_timers = {3},
     eq_timer_queue = [\<lparr>tm_timer = 3, tm_timeout = 5, tm_target = 3, tm_one_shot = True, tm_time = 5\<rparr>],
     eq_handlers = [], eq_freed = [], eq_accepted = []\<rparr>"


text \<open>C10. Events keep their order: whatever is added, by the thread of the loop or by others while it waits, and
  whatever happens to timers and handlers in between, the events that \<open>getEvent\<close> returned (those of timers
  aside), followed by those that still wait, are exactly the events that were accepted, in the order they were
  accepted: none is lost, doubled or overtaken, and none takes the number of another, as long as there are
  never \<open>2\<^sup>32\<close> events at once.\<close>

theorem events_keep_order:
  assumes "run_option (queue_step simple_ops soonest) cs ([], new_event_queue simple_ops now) = Some (out, q)"
    and "used q < 2 ^ 32"
  shows "filter (\<lambda>ev. ev_type ev \<noteq> ET_Timer) out @ held simple_content q = eq_accepted q"
proof -
  have "queue_run_inv simple_content simple_ok (out, q)"
    by (rule simple_queue.inv_run [OF simple.run_inv_new assms(1)])
  then show ?thesis using assms(2) by (simp add: queue_run_inv_def in_order_def)
qed

theorem events_keep_order_witness:
  "\<exists>out q. run_option (queue_step simple_ops hd)
      [QC_Add \<lparr>ev_type = 5, ev_target = 1, ev_data = User_Data 1, ev_flags = 0\<rparr>, QC_Start,
       QC_Add \<lparr>ev_type = 6, ev_target = 1, ev_data = User_Data 2, ev_flags = 0\<rparr>, QC_Get (- 1) []]
      ([], new_event_queue simple_ops 0 :: (nat, nat, simple_buffer) event_queue) = Some (out, q) \<and>
    length out = 1 \<and> filter (\<lambda>ev. ev_type ev \<noteq> ET_Timer) out @ held simple_content q = eq_accepted q"
proof -
  let ?cs = "[QC_Add \<lparr>ev_type = 5, ev_target = 1, ev_data = User_Data 1, ev_flags = 0\<rparr>, QC_Start,
       QC_Add \<lparr>ev_type = 6, ev_target = 1, ev_data = User_Data 2, ev_flags = 0\<rparr>, QC_Get (- 1) []]"
  let ?q0 = "new_event_queue simple_ops 0 :: (nat, nat, simple_buffer) event_queue"
  note evaluation = add_event_def new_event_queue_def ET_Unknown_def ET_System_def ET_Timer_def DeliverImmediately_def
    loop_start_def set_ready_def move_pending_def add_event_to_buffer_def save_event_def simple_ops_def simple_add_def
    simple_get_def map_erase_def get_event_def process_event.simps remove_event_def map_find_def same_key_def used_def
  obtain out q where q: "run_option (queue_step simple_ops hd) ?cs ([], ?q0) = Some (out, q)" "length out = 1" "used q < 2 ^ 32"
    by (simp add: evaluation)
  show ?thesis using q(1,2) events_keep_order [OF q(1,3)] by blast
qed

end
