(* ===== verification/RdftProtocol.thy ===== *)
theory RdftProtocol
  imports Prelude
begin

text \<open>
  The vocabulary of the RDFT/1 file-transfer protocol: \<open>relaydesk/transfer/Protocol.h\<close> (message
  types, flags, error catalogue, offer/accept/reject records, limits, frames) and the message
  registry \<open>ProtocolMessageRegistry.{h,cpp,def}\<close> with the envelope check every frame passes.
  The wire type of a frame is a bare 16 bit value, as in the code, because a decoder casts
  the received number before it asks the registry whether the number is known.
\<close>

section \<open>Message types\<close>

datatype message_type =
    MT_Hello | MT_AuthResult | MT_Capabilities | MT_Heartbeat | MT_HeartbeatAck
  | MT_TransferOffer | MT_TransferAccept | MT_TransferReject | MT_ManifestPage | MT_ManifestComplete
  | MT_FileBegin | MT_FileChunk | MT_FileCheckpoint | MT_FileEnd | MT_FileResult
  | MT_TransferPause | MT_TransferResume | MT_TransferCancel | MT_TransferComplete | MT_TransferResult
  | MT_ResumeQuery | MT_ResumeResponse
  | MT_Error | MT_Goodbye

fun message_value :: "message_type \<Rightarrow> u16" where
  "message_value MT_Hello = 0x0001"
| "message_value MT_AuthResult = 0x0002"
| "message_value MT_Capabilities = 0x0003"
| "message_value MT_Heartbeat = 0x0004"
| "message_value MT_HeartbeatAck = 0x0005"
| "message_value MT_TransferOffer = 0x0100"
| "message_value MT_TransferAccept = 0x0101"
| "message_value MT_TransferReject = 0x0102"
| "message_value MT_ManifestPage = 0x0103"
| "message_value MT_ManifestComplete = 0x0104"
| "message_value MT_FileBegin = 0x0200"
| "message_value MT_FileChunk = 0x0201"
| "message_value MT_FileCheckpoint = 0x0202"
| "message_value MT_FileEnd = 0x0203"
| "message_value MT_FileResult = 0x0204"
| "message_value MT_TransferPause = 0x0300"
| "message_value MT_TransferResume = 0x0301"
| "message_value MT_TransferCancel = 0x0302"
| "message_value MT_TransferComplete = 0x0303"
| "message_value MT_TransferResult = 0x0304"
| "message_value MT_ResumeQuery = 0x0400"
| "message_value MT_ResumeResponse = 0x0401"
| "message_value MT_Error = 0x7ffe"
| "message_value MT_Goodbye = 0x7fff"

text \<open>The flag bits of \<open>enum FrameFlag\<close>.\<close>

definition flag_AckRequired :: u32 where "flag_AckRequired = 0x00000001"
definition flag_Response :: u32 where "flag_Response = 0x00000002"
definition flag_Final :: u32 where "flag_Final = 0x00000004"
definition flag_Retryable :: u32 where "flag_Retryable = 0x00000008"
definition flag_CompressedMetadata :: u32 where "flag_CompressedMetadata = 0x00000010"

lemmas flag_defs = flag_AckRequired_def flag_Response_def flag_Final_def flag_Retryable_def
  flag_CompressedMetadata_def

section \<open>The registry\<close>

datatype classification = PMC_Implemented | PMC_Reserved

datatype codec_family =
    PCF_Session | PCF_Capability | PCF_Control | PCF_Manifest | PCF_File
  | PCF_TransferCommand | PCF_TransferCompletion | PCF_Resume

datatype stream_rule = SR_Zero | SR_NonZero
datatype content_rule = CR_Required | CR_Forbidden

record message_descriptor =
  d_type :: u16
  d_name :: string
  d_classification :: classification
  d_codec_family :: codec_family
  d_schema :: string
  d_test_target :: string
  d_stream_rule :: stream_rule
  d_metadata_rule :: content_rule
  d_payload_rule :: content_rule
  d_valid_flag_sets :: "u32 list"
  d_valid_flag_set_count :: nat

definition rdft_message ::
  "message_type \<Rightarrow> string \<Rightarrow> classification \<Rightarrow> codec_family \<Rightarrow> string \<Rightarrow> string \<Rightarrow> stream_rule \<Rightarrow>
   content_rule \<Rightarrow> content_rule \<Rightarrow> nat \<Rightarrow> u32 \<Rightarrow> u32 \<Rightarrow> u32 \<Rightarrow> u32 \<Rightarrow> message_descriptor" where
  "rdft_message t name cls codec schema test stream metadata payload count f0 f1 f2 f3 =
     \<lparr>d_type = message_value t, d_name = name, d_classification = cls, d_codec_family = codec,
      d_schema = schema, d_test_target = test, d_stream_rule = stream, d_metadata_rule = metadata,
      d_payload_rule = payload, d_valid_flag_sets = [f0, f1, f2, f3],
      d_valid_flag_set_count = count\<rparr>"

definition protocol_message_descriptors :: "message_descriptor list" where
  "protocol_message_descriptors =
    [rdft_message MT_Hello ''Hello'' PMC_Implemented PCF_Session ''hello'' ''RelayDeskSessionMessageCodecTests'' SR_Zero CR_Required CR_Forbidden 1 flag_AckRequired 0 0 0,
     rdft_message MT_AuthResult ''AuthResult'' PMC_Implemented PCF_Session ''auth-result'' ''RelayDeskSessionMessageCodecTests'' SR_Zero CR_Required CR_Forbidden 1 flag_Response 0 0 0,
     rdft_message MT_Capabilities ''Capabilities'' PMC_Implemented PCF_Capability ''capabilities'' ''RelayDeskCapabilityCodecTests'' SR_Zero CR_Required CR_Forbidden 1 0 0 0 0,
     rdft_message MT_Heartbeat ''Heartbeat'' PMC_Implemented PCF_Session ''heartbeat'' ''RelayDeskSessionMessageCodecTests'' SR_Zero CR_Required CR_Forbidden 1 flag_AckRequired 0 0 0,
     rdft_message MT_HeartbeatAck ''HeartbeatAck'' PMC_Implemented PCF_Session ''heartbeat'' ''RelayDeskSessionMessageCodecTests'' SR_Zero CR_Required CR_Forbidden 1 flag_Response 0 0 0,
     rdft_message MT_TransferOffer ''TransferOffer'' PMC_Implemented PCF_Control ''transfer-offer'' ''RelayDeskControlMessageCodecTests'' SR_Zero CR_Required CR_Forbidden 1 flag_AckRequired 0 0 0,
     rdft_message MT_TransferAccept ''TransferAccept'' PMC_Implemented PCF_Control ''transfer-accept'' ''RelayDeskControlMessageCodecTests'' SR_Zero CR_Required CR_Forbidden 1 flag_Response 0 0 0,
     rdft_message MT_TransferReject ''TransferReject'' PMC_Implemented PCF_Control ''transfer-reject'' ''RelayDeskControlMessageCodecTests'' SR_Zero CR_Required CR_Forbidden 1 flag_Response 0 0 0,
     rdft_message MT_ManifestPage ''ManifestPage'' PMC_Implemented PCF_Manifest ''manifest-page'' ''RelayDeskManifestPageCodecTests'' SR_Zero CR_Required CR_Forbidden 1 0 0 0 0,
     rdft_message MT_ManifestComplete ''ManifestComplete'' PMC_Implemented PCF_Manifest ''manifest-complete'' ''RelayDeskManifestPageCodecTests'' SR_Zero CR_Required CR_Forbidden 1 flag_Final 0 0 0,
     rdft_message MT_FileBegin ''FileBegin'' PMC_Implemented PCF_File ''file-begin'' ''RelayDeskFileMessageCodecTests'' SR_NonZero CR_Required CR_Forbidden 1 0 0 0 0,
     rdft_message MT_FileChunk ''FileChunk'' PMC_Implemented PCF_File ''file-chunk'' ''RelayDeskFileMessageCodecTests'' SR_NonZero CR_Required CR_Required 2 0 flag_AckRequired 0 0,
     rdft_message MT_FileCheckpoint ''FileCheckpoint'' PMC_Implemented PCF_File ''file-checkpoint'' ''RelayDeskFileMessageCodecTests'' SR_NonZero CR_Required CR_Forbidden 1 flag_Response 0 0 0,
     rdft_message MT_FileEnd ''FileEnd'' PMC_Implemented PCF_File ''file-end'' ''RelayDeskFileMessageCodecTests'' SR_NonZero CR_Required CR_Forbidden 1 flag_Final 0 0 0,
     rdft_message MT_FileResult ''FileResult'' PMC_Implemented PCF_File ''file-result'' ''RelayDeskFileMessageCodecTests'' SR_NonZero CR_Required CR_Forbidden 1 (or flag_Response flag_Final) 0 0 0,
     rdft_message MT_TransferPause ''TransferPause'' PMC_Implemented PCF_TransferCommand ''transfer-pause'' ''RelayDeskTransferCommandCodecTests'' SR_Zero CR_Required CR_Forbidden 2 flag_AckRequired flag_Response 0 0,
     rdft_message MT_TransferResume ''TransferResume'' PMC_Implemented PCF_TransferCommand ''transfer-resume'' ''RelayDeskTransferCommandCodecTests'' SR_Zero CR_Required CR_Forbidden 2 flag_AckRequired flag_Response 0 0,
     rdft_message MT_TransferCancel ''TransferCancel'' PMC_Implemented PCF_TransferCommand ''transfer-cancel'' ''RelayDeskTransferCommandCodecTests'' SR_Zero CR_Required CR_Forbidden 1 flag_AckRequired 0 0 0,
     rdft_message MT_TransferComplete ''TransferComplete'' PMC_Implemented PCF_TransferCompletion ''transfer-complete'' ''RelayDeskTransferCompletionCodecTests'' SR_Zero CR_Required CR_Forbidden 1 (or flag_AckRequired flag_Final) 0 0 0,
     rdft_message MT_TransferResult ''TransferResult'' PMC_Implemented PCF_TransferCompletion ''transfer-result'' ''RelayDeskTransferCompletionCodecTests'' SR_Zero CR_Required CR_Forbidden 1 (or flag_Response flag_Final) 0 0 0,
     rdft_message MT_ResumeQuery ''ResumeQuery'' PMC_Implemented PCF_Resume ''resume-query'' ''RelayDeskResumeMessageCodecTests'' SR_Zero CR_Required CR_Forbidden 1 flag_AckRequired 0 0 0,
     rdft_message MT_ResumeResponse ''ResumeResponse'' PMC_Implemented PCF_Resume ''resume-response'' ''RelayDeskResumeMessageCodecTests'' SR_Zero CR_Required CR_Forbidden 1 flag_Response 0 0 0,
     rdft_message MT_Error ''Error'' PMC_Implemented PCF_Control ''error'' ''RelayDeskControlMessageCodecTests'' SR_Zero CR_Required CR_Forbidden 4 0 flag_Response flag_Retryable (or flag_Response flag_Retryable),
     rdft_message MT_Goodbye ''Goodbye'' PMC_Implemented PCF_Session ''goodbye'' ''RelayDeskSessionMessageCodecTests'' SR_Zero CR_Required CR_Forbidden 1 flag_Final 0 0 0]"

definition protocol_message_descriptor :: "u16 \<Rightarrow> message_descriptor option" where
  "protocol_message_descriptor t = find (\<lambda>d. d_type d = t) protocol_message_descriptors"

definition is_known_message_type :: "u16 \<Rightarrow> bool" where
  "is_known_message_type t \<longleftrightarrow> protocol_message_descriptor t \<noteq> None"

section \<open>The envelope check\<close>

datatype envelope_error =
    EE_UnknownMessageType | EE_ReservedMessageType | EE_InvalidFlags | EE_InvalidStreamId
  | EE_MissingMetadata | EE_UnexpectedMetadata | EE_MissingPayload | EE_UnexpectedPayload

definition stream_valid :: "stream_rule \<Rightarrow> u64 \<Rightarrow> bool" where
  "stream_valid rule stream_id = (if rule = SR_Zero then stream_id = 0 else stream_id \<noteq> 0)"

text \<open>\<open>validateProtocolEnvelope\<close>: \<open>None\<close> is the code's default (error-free) result.\<close>

definition validate_protocol_envelope ::
  "u16 \<Rightarrow> u32 \<Rightarrow> u64 \<Rightarrow> u64 \<Rightarrow> u64 \<Rightarrow> envelope_error option" where
  "validate_protocol_envelope t flags stream_id metadata_bytes payload_bytes =
     (case protocol_message_descriptor t of
        None \<Rightarrow> Some EE_UnknownMessageType
      | Some d \<Rightarrow>
          if d_classification d = PMC_Reserved then Some EE_ReservedMessageType
          else if flags \<notin> set (take (d_valid_flag_set_count d) (d_valid_flag_sets d))
            then Some EE_InvalidFlags
          else if \<not> stream_valid (d_stream_rule d) stream_id then Some EE_InvalidStreamId
          else if d_metadata_rule d = CR_Required \<and> metadata_bytes = 0 then Some EE_MissingMetadata
          else if d_metadata_rule d = CR_Forbidden \<and> metadata_bytes \<noteq> 0 then Some EE_UnexpectedMetadata
          else if d_payload_rule d = CR_Required \<and> payload_bytes = 0 then Some EE_MissingPayload
          else if d_payload_rule d = CR_Forbidden \<and> payload_bytes \<noteq> 0 then Some EE_UnexpectedPayload
          else None)"

section \<open>What the registry says\<close>

definition message_types :: "message_type list" where
  "message_types =
     [MT_Hello, MT_AuthResult, MT_Capabilities, MT_Heartbeat, MT_HeartbeatAck, MT_TransferOffer,
      MT_TransferAccept, MT_TransferReject, MT_ManifestPage, MT_ManifestComplete, MT_FileBegin,
      MT_FileChunk, MT_FileCheckpoint, MT_FileEnd, MT_FileResult, MT_TransferPause,
      MT_TransferResume, MT_TransferCancel, MT_TransferComplete, MT_TransferResult,
      MT_ResumeQuery, MT_ResumeResponse, MT_Error, MT_Goodbye]"

lemma all_message_types: "mt \<in> set message_types"
  by (cases mt) (simp_all add: message_types_def)

lemma descriptor_types: "map d_type protocol_message_descriptors = map message_value message_types"
  by (simp add: protocol_message_descriptors_def rdft_message_def message_types_def)

lemma distinct_message_values: "distinct (map message_value message_types)"
  by (simp add: message_types_def)

lemma message_value_inject: "message_value a = message_value b \<longleftrightarrow> a = b"
  using distinct_message_values all_message_types [of a] all_message_types [of b]
  by (auto simp: distinct_map inj_on_def)

lemma find_by_key:
  assumes "distinct (map f xs)" and "x \<in> set xs"
  shows "find (\<lambda>y. f y = f x) xs = Some x"
  using assms by (induction xs) (auto simp: image_iff)

lemma descriptor_found:
  assumes "d \<in> set protocol_message_descriptors"
  shows "protocol_message_descriptor (d_type d) = Some d"
  unfolding protocol_message_descriptor_def
  by (rule find_by_key) (simp_all add: descriptor_types distinct_message_values assms)

lemma known_iff_listed: "is_known_message_type w \<longleftrightarrow> w \<in> range message_value"
proof -
  have "is_known_message_type w \<longleftrightarrow> w \<in> set (map d_type protocol_message_descriptors)"
    by (auto simp: is_known_message_type_def protocol_message_descriptor_def find_None_iff)
  then show ?thesis
    using all_message_types by (auto simp: descriptor_types)
qed

text \<open>The rules of the protocol document, one message type at a time.\<close>

definition file_stream_message :: "message_type \<Rightarrow> bool" where
  "file_stream_message mt \<longleftrightarrow>
     mt \<in> {MT_FileBegin, MT_FileChunk, MT_FileCheckpoint, MT_FileEnd, MT_FileResult}"

definition descriptor_rules :: "message_type \<Rightarrow> message_descriptor \<Rightarrow> bool" where
  "descriptor_rules mt d \<longleftrightarrow>
     d_type d = message_value mt \<and> d_classification d = PMC_Implemented \<and>
     d_stream_rule d = (if file_stream_message mt then SR_NonZero else SR_Zero) \<and>
     d_metadata_rule d = CR_Required \<and>
     d_payload_rule d = (if mt = MT_FileChunk then CR_Required else CR_Forbidden) \<and>
     d_valid_flag_set_count d \<le> length (d_valid_flag_sets d)"

lemma descriptor_table: "list_all2 descriptor_rules message_types protocol_message_descriptors"
  by (simp add: message_types_def protocol_message_descriptors_def rdft_message_def
      descriptor_rules_def file_stream_message_def)

lemma descriptor_of_type:
  obtains d where "protocol_message_descriptor (message_value mt) = Some d" and "descriptor_rules mt d"
proof -
  obtain i where i: "i < length message_types" "message_types ! i = mt"
    using all_message_types [of mt] by (auto simp: in_set_conv_nth)
  let ?d = "protocol_message_descriptors ! i"
  have d: "descriptor_rules mt ?d" and len: "i < length protocol_message_descriptors"
    using list_all2_nthD [OF descriptor_table i(1)] i list_all2_lengthD [OF descriptor_table]
    by simp_all
  then have "protocol_message_descriptor (message_value mt) = Some ?d"
    using descriptor_found [of ?d] by (simp add: descriptor_rules_def)
  with d that show ?thesis by blast
qed

definition allowed_flags :: "message_type \<Rightarrow> u32 set" where
  "allowed_flags mt =
     (case protocol_message_descriptor (message_value mt) of
        None \<Rightarrow> {}
      | Some d \<Rightarrow> set (take (d_valid_flag_set_count d) (d_valid_flag_sets d)))"

lemma envelope_accepts_iff:
  "validate_protocol_envelope (message_value mt) flags stream_id metadata_bytes payload_bytes = None \<longleftrightarrow>
     flags \<in> allowed_flags mt \<and> (stream_id \<noteq> 0 \<longleftrightarrow> file_stream_message mt) \<and>
     metadata_bytes \<noteq> 0 \<and> (payload_bytes \<noteq> 0 \<longleftrightarrow> mt = MT_FileChunk)"
proof -
  obtain d where d: "protocol_message_descriptor (message_value mt) = Some d" "descriptor_rules mt d"
    by (rule descriptor_of_type)
  then show ?thesis
    by (auto simp: validate_protocol_envelope_def allowed_flags_def descriptor_rules_def
        stream_valid_def split: if_splits)
qed

section \<open>Properties\<close>

text \<open>The registry is exactly the protocol: a 16 bit number is a known message type if and only if
  it is the value of one of the declared message types, and a frame envelope is accepted if
  and only if its flags are listed for the type, its stream id is non-zero exactly on the five
  file messages, it has metadata, and it has a payload exactly when it is a FileChunk.\<close>

theorem registry_envelope_exact:
  "(is_known_message_type w \<longleftrightarrow> w \<in> range message_value) \<and>
   (validate_protocol_envelope w flags stream_id metadata_bytes payload_bytes = None \<longleftrightarrow>
     (\<exists>mt. w = message_value mt \<and> flags \<in> allowed_flags mt \<and>
        (stream_id \<noteq> 0 \<longleftrightarrow> file_stream_message mt) \<and> metadata_bytes \<noteq> 0 \<and>
        (payload_bytes \<noteq> 0 \<longleftrightarrow> mt = MT_FileChunk)))"
proof -
  have "validate_protocol_envelope w flags stream_id metadata_bytes payload_bytes = None \<longleftrightarrow>
      (\<exists>mt. w = message_value mt \<and>
        validate_protocol_envelope w flags stream_id metadata_bytes payload_bytes = None)"
    using known_iff_listed [of w]
    by (auto simp: validate_protocol_envelope_def is_known_message_type_def)
  also have "\<dots> \<longleftrightarrow> (\<exists>mt. w = message_value mt \<and> flags \<in> allowed_flags mt \<and>
        (stream_id \<noteq> 0 \<longleftrightarrow> file_stream_message mt) \<and> metadata_bytes \<noteq> 0 \<and>
        (payload_bytes \<noteq> 0 \<longleftrightarrow> mt = MT_FileChunk))"
    by (intro arg_cong [where f = Ex] ext conj_cong refl) (simp only: envelope_accepts_iff)
  finally show ?thesis
    by (simp only: known_iff_listed simp_thms)
qed

end
