(* ===== verification/TransferTypes.thy ===== *)
theory TransferTypes
  imports RdftProtocol
begin

text \<open>
  Data types the file-transfer components share: conflict policies, reject reasons, file result
  and transfer error codes, the offer, accept and reject records of \<open>Protocol.h\<close>, the manifest
  entries and options of \<open>TransferTypes.h\<close>, \<open>TransferError.h\<close> and the negotiated
  capabilities. An enumeration that the code range-checks at run time (a decoder may have
  cast any number to it) has one more constructor for the unlisted values.
\<close>

section \<open>Qt text services\<close>

text \<open>
  The \<open>QString\<close> functions the components rely on are Qt's, not this repository's, so they are
  arguments of the model, bundled in one record: \<open>trimmed\<close>, \<open>toUtf8().size()\<close>, NFC
  normalisation, \<open>toCaseFolded\<close>, \<open>toUpper\<close> and the test for category \<open>Other_Control\<close>.
\<close>

record qt_text =
  qt_trimmed :: "qstring \<Rightarrow> qstring"
  qt_utf8_size :: "qstring \<Rightarrow> nat"
  qt_nfc :: "qstring \<Rightarrow> qstring"
  qt_case_folded :: "qstring \<Rightarrow> qstring"
  qt_to_upper :: "qstring \<Rightarrow> qstring"
  qt_is_control :: "u16 \<Rightarrow> bool"

text \<open>A concrete instance for ASCII text, used where a theorem is applied to concrete input.\<close>

definition ascii_space :: "u16 \<Rightarrow> bool" where
  "ascii_space c \<longleftrightarrow> c = 32 \<or> (9 \<le> c \<and> c \<le> 13)"

definition ascii_upper :: "u16 \<Rightarrow> u16" where
  "ascii_upper c = (if 97 \<le> c \<and> c \<le> 122 then c - 32 else c)"

definition ascii_lower :: "u16 \<Rightarrow> u16" where
  "ascii_lower c = (if 65 \<le> c \<and> c \<le> 90 then c + 32 else c)"

definition ascii_text :: qt_text where
  "ascii_text =
     \<lparr>qt_trimmed = (\<lambda>s. rev (dropWhile ascii_space (rev (dropWhile ascii_space s)))),
      qt_utf8_size = length, qt_nfc = (\<lambda>s. s),
      qt_case_folded = map ascii_lower, qt_to_upper = map ascii_upper,
      qt_is_control = (\<lambda>c. c < 32 \<or> c = 127)\<rparr>"

section \<open>Enumerations\<close>

datatype conflict_policy = CP_AutoRename | CP_Overwrite | CP_Skip | CP_Ask

datatype reject_reason =
    RR_UserDeclined | RR_NotTrusted | RR_PolicyDenied | RR_InsufficientSpace | RR_TooManyFiles
  | RR_PathInvalid | RR_UnsupportedCapability | RR_Busy | RR_InternalError
  | RR_Unlisted u32

datatype file_result_code =
    FRC_Ok | FRC_HashMismatch | FRC_SizeMismatch | FRC_SourceChanged | FRC_TargetExists
  | FRC_DiskFull | FRC_PermissionDenied | FRC_PathInvalid | FRC_IoError | FRC_Cancelled
  | FRC_Unlisted u32

datatype transfer_error_code =
    TEC_None | TEC_ManifestBuildFailed | TEC_OfferFailed | TEC_SenderFailed | TEC_PeerRejected
  | TEC_PeerFileFailed | TEC_DiskFull | TEC_UnsafePath | TEC_SourceUnreadable
  | TEC_ConnectionLost | TEC_HashMismatch | TEC_InternalError
  | TEC_Unlisted u32

fun is_known_transfer_error_code :: "transfer_error_code \<Rightarrow> bool" where
  "is_known_transfer_error_code TEC_None = False"
| "is_known_transfer_error_code (TEC_Unlisted _) = False"
| "is_known_transfer_error_code _ = True"

datatype acceptance_origin = AO_UserDecision | AO_TrustedDevicePolicy
datatype partial_disposition = PD_Keep | PD_Remove
datatype manifest_entry_type = MET_File | MET_Directory

definition kMaxControlStringUtf8Bytes :: nat where "kMaxControlStringUtf8Bytes = 4096"
definition kSha256Bytes :: nat where "kSha256Bytes = 32"

section \<open>Records\<close>

record transfer_offer =
  to_transfer_id :: uuid
  to_display_name :: qstring
  to_total_bytes :: u64
  to_file_count :: u64
  to_directory_count :: u64
  to_manifest_sha256 :: bytes
  to_manifest_page_count :: u64
  to_requested_conflict_policy :: conflict_policy
  to_created_at_ms :: u64

record transfer_accept =
  ta_transfer_id :: uuid
  ta_effective_conflict_policy :: conflict_policy
  ta_logical_destination :: qstring
  ta_free_bytes :: u64
  ta_auto_accepted :: bool

record transfer_reject =
  tr_transfer_id :: uuid
  tr_reason :: reject_reason
  tr_diagnostic :: qstring

record negotiated_capabilities =
  nc_protocol_major_version :: u16
  nc_features :: "qstring list"
  nc_chunk_bytes :: u32
  nc_max_payload_bytes :: u32
  nc_max_concurrent_transfers :: u16
  nc_max_concurrent_files :: u16
  nc_max_manifest_entries :: u32
  nc_conflict_policies :: "conflict_policy list"
  nc_local_can_receive_files :: bool
  nc_peer_can_receive_files :: bool

record manifest_entry =
  me_id :: uuid
  me_relative_protocol_path :: qstring
  me_type :: manifest_entry_type
  me_size :: u64
  me_modified_utc :: qdatetime
  me_sha256 :: bytes
  me_flags :: u32

record prepared_manifest_entry =
  pme_canonical_source_path :: qstring
  pme_protocol_collision_key :: qstring
  pme_entry :: manifest_entry

end
