(* ===== verification/TrustStore.thy ===== *)
theory TrustStore
  imports TransferTypes "HOL-Library.AList" "HOL-Library.Multiset" "HOL-Library.List_Lexorder"
begin

text \<open>
  \<open>TrustedDeviceStore\<close> and \<open>TlsPeerPinningPolicy\<close>: which peer certificate is trusted for which device,
  kept in memory and in two JSON files (the store and its backup). The disk is part of the state;
  JSON text, Base64, host addresses and UUID texts are Qt's and arguments of the model. A
  \<open>QSaveFile\<close> that is not committed leaves the old file in place.
\<close>

section \<open>Types\<close>

datatype json =
    JNull | JBool bool | JNumber u64 | JString qstring | JArray "json list"
  | JObject "(qstring \<times> json) list" | JUndefined

text \<open>Numbers are the 64 bits of a double; \<open>toInt\<close> and the conversion from \<open>int\<close> are Qt's.\<close>

record qt_trust =
  qr_text :: qt_text
  qr_to_json :: "json \<Rightarrow> bytes"
  qr_from_json :: "bytes \<Rightarrow> json option"
  qr_number :: "int \<Rightarrow> u64"
  qr_to_int :: "u64 \<Rightarrow> int \<Rightarrow> int"
  qr_to_base64 :: "bytes \<Rightarrow> qstring"
  qr_from_base64 :: "qstring \<Rightarrow> bytes option"
  qr_address :: "qstring \<Rightarrow> qstring option"
  qr_uuid_string :: "uuid \<Rightarrow> qstring"
  qr_uuid_parse :: "qstring \<Rightarrow> uuid"

record trusted_device =
  td_device_id :: uuid
  td_alias :: qstring
  td_platform :: qstring
  td_fingerprint_sha256 :: bytes
  td_last_addresses :: "qstring list"
  td_auto_accept_files :: bool
  td_revoked :: bool

datatype trust_status = TST_Unknown | TST_Trusted | TST_Revoked | TST_FingerprintMismatch
datatype load_source = LS_Empty | LS_Primary | LS_Backup

record store_result =
  so_ok :: bool
  so_source :: load_source

text \<open>The store object: its path and the hash of devices, as an association list with distinct keys.\<close>

record device_store =
  ds_path :: qstring
  ds_devices :: "(uuid \<times> trusted_device) list"

type_synonym disk = "qstring \<Rightarrow> bytes option"

text \<open>What the file system answers to one \<open>writeAtomic\<close>.\<close>

record write_env =
  we_mkpath_ok :: bool
  we_open_ok :: bool
  we_written :: "bytes \<Rightarrow> nat"
  we_commit_ok :: bool

definition kTrustedDeviceStoreSchemaVersion :: int where
  "kTrustedDeviceStoreSchemaVersion = 1"

definition kSha256FingerprintBytes :: nat where
  "kSha256FingerprintBytes = 32"

section \<open>Device identifiers\<close>

definition is_hex_digit :: "u16 \<Rightarrow> bool" where
  "is_hex_digit c \<longleftrightarrow> 48 \<le> c \<and> c \<le> 57 \<or> 97 \<le> ascii_lower c \<and> ascii_lower c \<le> 102"

text \<open>The regular expression of \<open>canonicalUuidPattern\<close>; its \<open>$\<close> also matches before a final newline.\<close>

definition matches_to_end :: "nat \<Rightarrow> (qstring \<Rightarrow> bool) \<Rightarrow> qstring \<Rightarrow> bool" where
  "matches_to_end n p s \<longleftrightarrow> (length s = n \<or> length s = Suc n \<and> last s = 10) \<and> p (take n s)"

definition uuid_layout :: "qstring \<Rightarrow> bool" where
  "uuid_layout s \<longleftrightarrow>
     list_all (\<lambda>(i, c). if i \<in> {8, 13, 18, 23} then c = 45 else is_hex_digit c) (enumerate 0 s)"

definition canonical_uuid :: "qstring \<Rightarrow> bool" where
  "canonical_uuid s \<longleftrightarrow> matches_to_end 36 uuid_layout s"

definition device_id_from_string :: "qt_trust \<Rightarrow> qstring \<Rightarrow> uuid option" where
  "device_id_from_string qr text =
     (if \<not> canonical_uuid text then None
      else if uuid_null (qr_uuid_parse qr text) then None
      else Some (qr_uuid_parse qr text))"

section \<open>One device\<close>

fun normalize_addresses :: "qt_trust \<Rightarrow> qstring list \<Rightarrow> qstring list \<Rightarrow> qstring list option" where
  "normalize_addresses qr acc [] = Some acc"
| "normalize_addresses qr acc (text # rest) =
     (case qr_address qr text of
        None \<Rightarrow> None
      | Some normalized \<Rightarrow>
          normalize_addresses qr (if normalized \<in> set acc then acc else acc @ [normalized]) rest)"

definition validate_and_normalize :: "qt_trust \<Rightarrow> trusted_device \<Rightarrow> trusted_device option" where
  "validate_and_normalize qr d =
     (if length (td_fingerprint_sha256 d) \<noteq> kSha256FingerprintBytes then None
      else if qt_trimmed (qr_text qr) (td_platform d) = [] then None
      else map_option
        (\<lambda>addresses. d\<lparr>td_alias := qt_trimmed (qr_text qr) (td_alias d),
           td_platform := qt_trimmed (qr_text qr) (td_platform d),
           td_last_addresses := addresses\<rparr>)
        (normalize_addresses qr [] (td_last_addresses d)))"

definition device_to_json :: "qt_trust \<Rightarrow> trusted_device \<Rightarrow> json" where
  "device_to_json qr d =
     JObject
       [(qstr ''deviceId'', JString (qr_uuid_string qr (td_device_id d))),
        (qstr ''alias'', JString (td_alias d)),
        (qstr ''platform'', JString (td_platform d)),
        (qstr ''fingerprintSha256'', JString (qr_to_base64 qr (td_fingerprint_sha256 d))),
        (qstr ''lastAddresses'', JArray (map JString (td_last_addresses d))),
        (qstr ''autoAcceptFiles'', JBool (td_auto_accept_files d)),
        (qstr ''revoked'', JBool (td_revoked d))]"

definition json_value :: "(qstring \<times> json) list \<Rightarrow> string \<Rightarrow> json" where
  "json_value ob k = (case map_of ob (qstr k) of None \<Rightarrow> JUndefined | Some v \<Rightarrow> v)"

fun json_strings :: "json list \<Rightarrow> qstring list option" where
  "json_strings [] = Some []"
| "json_strings (JString s # vs) = map_option (Cons s) (json_strings vs)"
| "json_strings (_ # vs) = None"

fun device_from_json :: "qt_trust \<Rightarrow> json \<Rightarrow> trusted_device option" where
  "device_from_json qr (JObject ob) =
     (case (json_value ob ''deviceId'', json_value ob ''alias'', json_value ob ''platform'',
            json_value ob ''fingerprintSha256'', json_value ob ''lastAddresses'',
            json_value ob ''autoAcceptFiles'', json_value ob ''revoked'') of
        (JString i, JString a, JString p, JString f, JArray addresses, JBool auto_accept, JBool was_revoked) \<Rightarrow>
          (case device_id_from_string qr i of
             None \<Rightarrow> None
           | Some device \<Rightarrow>
               (case qr_from_base64 qr f of
                  None \<Rightarrow> None
                | Some decoded \<Rightarrow>
                    if length decoded \<noteq> kSha256FingerprintBytes then None
                    else case json_strings addresses of
                      None \<Rightarrow> None
                    | Some texts \<Rightarrow>
                        validate_and_normalize qr
                          \<lparr>td_device_id = device, td_alias = a, td_platform = p,
                           td_fingerprint_sha256 = decoded, td_last_addresses = texts,
                           td_auto_accept_files = auto_accept, td_revoked = was_revoked\<rparr>))
      | _ \<Rightarrow> None)"
| "device_from_json qr _ = None"

section \<open>The file\<close>

fun parse_devices ::
  "qt_trust \<Rightarrow> (uuid \<times> trusted_device) list \<Rightarrow> json list \<Rightarrow> (uuid \<times> trusted_device) list option" where
  "parse_devices qr devices [] = Some devices"
| "parse_devices qr devices (v # vs) =
     (case device_from_json qr v of
        None \<Rightarrow> None
      | Some d \<Rightarrow>
          if map_of devices (td_device_id d) \<noteq> None then None
          else parse_devices qr (AList.update (td_device_id d) d devices) vs)"

definition parse_store :: "qt_trust \<Rightarrow> bytes \<Rightarrow> (uuid \<times> trusted_device) list option" where
  "parse_store qr contents =
     (case qr_from_json qr contents of
        Some (JObject root) \<Rightarrow>
          (case (json_value root ''schemaVersion'', json_value root ''devices'') of
             (JNumber n, JArray vs) \<Rightarrow>
               if qr_to_int qr n (- 1) \<noteq> kTrustedDeviceStoreSchemaVersion then None
               else parse_devices qr [] vs
           | _ \<Rightarrow> None)
      | _ \<Rightarrow> None)"

definition serialize_store :: "qt_trust \<Rightarrow> trusted_device list \<Rightarrow> bytes" where
  "serialize_store qr devices =
     qr_to_json qr (JObject
       [(qstr ''schemaVersion'', JNumber (qr_number qr kTrustedDeviceStoreSchemaVersion)),
        (qstr ''devices'', JArray (map (device_to_json qr) devices))])"

definition write_atomic :: "write_env \<Rightarrow> qstring \<Rightarrow> bytes \<Rightarrow> disk \<Rightarrow> bool \<times> disk" where
  "write_atomic env path contents dk =
     (if \<not> we_mkpath_ok env then (False, dk)
      else if \<not> we_open_ok env then (False, dk)
      else if we_written env contents \<noteq> length contents then (False, dk)
      else if \<not> we_commit_ok env then (False, dk)
      else (True, dk(path := Some contents)))"

text \<open>\<open>readStore\<close>: \<open>readable\<close> says which existing files open for reading.\<close>

definition read_store :: "qt_trust \<Rightarrow> (qstring \<Rightarrow> bool) \<Rightarrow> disk \<Rightarrow> qstring \<Rightarrow> (uuid \<times> trusted_device) list option" where
  "read_store qr readable dk path =
     (case dk path of
        None \<Rightarrow> None
      | Some contents \<Rightarrow> if readable path then parse_store qr contents else None)"

section \<open>The store\<close>

definition new_store :: "qstring \<Rightarrow> device_store" where
  "new_store path = \<lparr>ds_path = path, ds_devices = []\<rparr>"

definition backup_path :: "device_store \<Rightarrow> qstring" where
  "backup_path st = ds_path st @ qstr ''.bak''"

definition store_load ::
  "qt_trust \<Rightarrow> (qstring \<Rightarrow> bool) \<Rightarrow> disk \<Rightarrow> device_store \<Rightarrow> store_result \<times> device_store" where
  "store_load qr readable dk st =
     (let st0 = st\<lparr>ds_devices := []\<rparr> in
      if dk (ds_path st) = None \<and> dk (backup_path st) = None
        then (\<lparr>so_ok = True, so_source = LS_Empty\<rparr>, st0)
      else case read_store qr readable dk (ds_path st) of
        Some devices \<Rightarrow> (\<lparr>so_ok = True, so_source = LS_Primary\<rparr>, st0\<lparr>ds_devices := devices\<rparr>)
      | None \<Rightarrow>
          (case read_store qr readable dk (backup_path st) of
             Some devices \<Rightarrow> (\<lparr>so_ok = True, so_source = LS_Backup\<rparr>, st0\<lparr>ds_devices := devices\<rparr>)
           | None \<Rightarrow> (\<lparr>so_ok = False, so_source = LS_Empty\<rparr>, st0)))"

definition store_devices :: "qt_trust \<Rightarrow> device_store \<Rightarrow> trusted_device list" where
  "store_devices qr st = sort_key (\<lambda>d. qr_uuid_string qr (td_device_id d)) (map snd (ds_devices st))"

definition store_save ::
  "qt_trust \<Rightarrow> write_env \<Rightarrow> write_env \<Rightarrow> device_store \<Rightarrow> disk \<Rightarrow> store_result \<times> disk" where
  "store_save qr env backup_env st dk =
     (let contents = serialize_store qr (store_devices qr st) in
      case write_atomic env (ds_path st) contents dk of
        (False, dk1) \<Rightarrow> (\<lparr>so_ok = False, so_source = LS_Empty\<rparr>, dk1)
      | (True, dk1) \<Rightarrow>
          (\<lparr>so_ok = True, so_source = LS_Primary\<rparr>,
           snd (write_atomic backup_env (backup_path st) contents dk1)))"

definition store_find :: "device_store \<Rightarrow> uuid \<Rightarrow> trusted_device option" where
  "store_find st device = map_of (ds_devices st) device"

definition trust_status_of :: "device_store \<Rightarrow> uuid \<Rightarrow> bytes \<Rightarrow> trust_status" where
  "trust_status_of st device fingerprint =
     (case store_find st device of
        None \<Rightarrow> TST_Unknown
      | Some d \<Rightarrow>
          if td_revoked d then TST_Revoked
          else if length fingerprint \<noteq> kSha256FingerprintBytes \<or> fingerprint \<noteq> td_fingerprint_sha256 d
            then TST_FingerprintMismatch
          else TST_Trusted)"

definition store_upsert :: "qt_trust \<Rightarrow> trusted_device \<Rightarrow> device_store \<Rightarrow> bool \<times> device_store" where
  "store_upsert qr d st =
     (case validate_and_normalize qr d of
        None \<Rightarrow> (False, st)
      | Some n \<Rightarrow> (True, st\<lparr>ds_devices := AList.update (td_device_id n) n (ds_devices st)\<rparr>))"

definition store_revoke :: "uuid \<Rightarrow> device_store \<Rightarrow> bool \<times> device_store" where
  "store_revoke device st =
     (case store_find st device of
        None \<Rightarrow> (False, st)
      | Some d \<Rightarrow>
          (True, st\<lparr>ds_devices := AList.update device (d\<lparr>td_revoked := True, td_auto_accept_files := False\<rparr>)
             (ds_devices st)\<rparr>))"

definition store_remove :: "uuid \<Rightarrow> device_store \<Rightarrow> bool \<times> device_store" where
  "store_remove device st =
     (store_find st device \<noteq> None, st\<lparr>ds_devices := AList.delete device (ds_devices st)\<rparr>)"

section \<open>Pinning\<close>

datatype pinning_error =
    PPE_None | PPE_UnknownPeer | PPE_RevokedPeer | PPE_FingerprintChanged | PPE_DeviceIdMismatch
  | PPE_UnauthenticatedPeer

fun pinning_error_of :: "trust_status \<Rightarrow> pinning_error" where
  "pinning_error_of TST_Trusted = PPE_None"
| "pinning_error_of TST_Unknown = PPE_UnknownPeer"
| "pinning_error_of TST_Revoked = PPE_RevokedPeer"
| "pinning_error_of TST_FingerprintMismatch = PPE_FingerprintChanged"

definition pinning_verify :: "device_store \<Rightarrow> uuid \<Rightarrow> bytes \<Rightarrow> pinning_error" where
  "pinning_verify st device fingerprint = pinning_error_of (trust_status_of st device fingerprint)"

section \<open>Well-formed stores\<close>

text \<open>What Qt documents of \<open>trimmed\<close> and of a host address read back from its own text.\<close>

definition normalizing :: "qt_trust \<Rightarrow> bool" where
  "normalizing qr \<longleftrightarrow>
     (\<forall>s. qt_trimmed (qr_text qr) (qt_trimmed (qr_text qr) s) = qt_trimmed (qr_text qr) s) \<and>
     (\<forall>a n. qr_address qr a = Some n \<longrightarrow> qr_address qr n = Some n)"

text \<open>A stored device is in normal form and filed under its own identifier.\<close>

definition device_ok :: "qt_trust \<Rightarrow> uuid \<times> trusted_device \<Rightarrow> bool" where
  "device_ok qr e \<longleftrightarrow>
     fst e = td_device_id (snd e) \<and> validate_and_normalize qr (snd e) = Some (snd e)"

definition store_ok :: "qt_trust \<Rightarrow> device_store \<Rightarrow> bool" where
  "store_ok qr st \<longleftrightarrow>
     distinct (map fst (ds_devices st)) \<and> list_all (device_ok qr) (ds_devices st)"

lemma normalize_addresses_fixed:
  assumes "normalize_addresses qr acc texts = Some ys" and "normalizing qr"
    and "distinct acc" and "list_all (\<lambda>a. qr_address qr a = Some a) acc"
  shows "distinct ys \<and> list_all (\<lambda>a. qr_address qr a = Some a) ys"
  using assms
proof (induction texts arbitrary: acc)
  case Nil
  then show ?case by simp
next
  case (Cons a rest)
  from Cons.prems(1) obtain n where n: "qr_address qr a = Some n"
    by (auto split: option.splits)
  then have "qr_address qr n = Some n"
    using Cons.prems(2) by (auto simp: normalizing_def)
  then show ?case
    using Cons.prems n by (intro Cons.IH [of "if n \<in> set acc then acc else acc @ [n]"]) auto
qed

lemma normalize_fixed_addresses:
  "distinct (acc @ ys) \<Longrightarrow> list_all (\<lambda>a. qr_address qr a = Some a) ys \<Longrightarrow>
    normalize_addresses qr acc ys = Some (acc @ ys)"
  by (induction ys arbitrary: acc) auto

lemma validate_and_normalize_idem:
  assumes "normalizing qr" and "validate_and_normalize qr d = Some n"
  shows "validate_and_normalize qr n = Some n"
proof -
  let ?t = "qt_trimmed (qr_text qr)"
  from assms(2) obtain ys where ys: "normalize_addresses qr [] (td_last_addresses d) = Some ys"
      and n: "n = d\<lparr>td_alias := ?t (td_alias d), td_platform := ?t (td_platform d), td_last_addresses := ys\<rparr>"
      and len: "length (td_fingerprint_sha256 d) = kSha256FingerprintBytes" and pl: "?t (td_platform d) \<noteq> []"
    by (auto simp: validate_and_normalize_def split: if_splits)
  have tt: "?t (?t s) = ?t s" for s using assms(1) by (simp add: normalizing_def)
  have "normalize_addresses qr [] ys = Some ys"
    using normalize_addresses_fixed [OF ys assms(1)] normalize_fixed_addresses [of "[]" ys qr] by simp
  then show ?thesis
    using len pl by (simp add: validate_and_normalize_def n tt)
qed

lemma validate_and_normalize_id: "validate_and_normalize qr d = Some n \<Longrightarrow>
    td_device_id n = td_device_id d \<and> td_fingerprint_sha256 n = td_fingerprint_sha256 d \<and>
    td_revoked n = td_revoked d \<and> td_auto_accept_files n = td_auto_accept_files d"
  by (auto simp: validate_and_normalize_def split: if_splits)

lemma list_all_update: "P (k, v) \<Longrightarrow> list_all P xs \<Longrightarrow> list_all P (AList.update k v xs)"
  by (induction xs) auto

lemma list_all_delete: "list_all P xs \<Longrightarrow> list_all P (AList.delete k xs)"
  by (auto simp: list_all_iff AList.delete_eq)

lemma store_ok_new [simp]: "store_ok qr (new_store path)"
  by (simp add: store_ok_def new_store_def)

lemma store_ok_upsert:
  "normalizing qr \<Longrightarrow> store_ok qr st \<Longrightarrow> store_ok qr (snd (store_upsert qr d st))"
  by (auto simp: store_ok_def store_upsert_def device_ok_def distinct_update
      dest: validate_and_normalize_idem intro!: list_all_update split: option.splits)

lemma revoked_normal:
  "validate_and_normalize qr d = Some d \<Longrightarrow>
    validate_and_normalize qr (d\<lparr>td_revoked := True, td_auto_accept_files := False\<rparr>) =
      Some (d\<lparr>td_revoked := True, td_auto_accept_files := False\<rparr>)"
  by (cases d) (auto simp: validate_and_normalize_def split: if_splits)

lemma store_find_device:
  "store_ok qr st \<Longrightarrow> store_find st k = Some d \<Longrightarrow>
    td_device_id d = k \<and> validate_and_normalize qr d = Some d"
  by (auto simp: store_ok_def store_find_def list_all_iff device_ok_def dest!: map_of_SomeD)

lemma store_ok_revoke: "store_ok qr st \<Longrightarrow> store_ok qr (snd (store_revoke k st))"
proof (cases "store_find st k")
  case (Some d)
  assume ok: "store_ok qr st"
  with Some have "device_ok qr (k, d\<lparr>td_revoked := True, td_auto_accept_files := False\<rparr>)"
    using store_find_device [OF ok Some] by (simp add: device_ok_def revoked_normal)
  then show ?thesis
    using ok Some by (simp add: store_revoke_def store_ok_def distinct_update list_all_update)
qed (simp add: store_revoke_def)

lemma store_ok_remove: "store_ok qr st \<Longrightarrow> store_ok qr (snd (store_remove k st))"
  by (simp add: store_ok_def store_remove_def list_all_delete distinct_delete)

section \<open>Lookup after an operation\<close>

lemma find_upsert:
  "store_upsert qr d st = (True, st') \<Longrightarrow>
    \<exists>n. validate_and_normalize qr d = Some n \<and>
      (\<forall>k. store_find st' k = (if k = td_device_id d then Some n else store_find st k))"
  by (auto simp: store_upsert_def store_find_def update_conv dest: validate_and_normalize_id
      split: option.splits)

lemma find_revoke:
  "store_find (snd (store_revoke k st)) j =
    (if j = k then map_option (\<lambda>d. d\<lparr>td_revoked := True, td_auto_accept_files := False\<rparr>) (store_find st k)
     else store_find st j)"
  by (auto simp: store_revoke_def store_find_def update_conv split: option.splits)

lemma find_remove: "store_find (snd (store_remove k st)) j = (if j = k then None else store_find st j)"
  by (simp add: store_remove_def store_find_def delete_conv)

section \<open>Saving and loading\<close>

text \<open>What the layers below are documented to do for the devices of one store: a UUID text and a
  Base64 text read back, and so does the JSON document.\<close>

definition device_text_ok :: "qt_trust \<Rightarrow> trusted_device \<Rightarrow> bool" where
  "device_text_ok qr d \<longleftrightarrow>
     td_device_id d \<noteq> 0 \<and> canonical_uuid (qr_uuid_string qr (td_device_id d)) \<and>
     qr_uuid_parse qr (qr_uuid_string qr (td_device_id d)) = td_device_id d \<and>
     qr_from_base64 qr (qr_to_base64 qr (td_fingerprint_sha256 d)) = Some (td_fingerprint_sha256 d)"

definition store_document :: "qt_trust \<Rightarrow> device_store \<Rightarrow> json" where
  "store_document qr st =
     JObject
       [(qstr ''schemaVersion'', JNumber (qr_number qr kTrustedDeviceStoreSchemaVersion)),
        (qstr ''devices'', JArray (map (device_to_json qr) (store_devices qr st)))]"

definition readable_store :: "qt_trust \<Rightarrow> device_store \<Rightarrow> bool" where
  "readable_store qr st \<longleftrightarrow>
     store_ok qr st \<and> list_all (\<lambda>e. device_text_ok qr (snd e)) (ds_devices st) \<and>
     qr_from_json qr (qr_to_json qr (store_document qr st)) = Some (store_document qr st) \<and>
     qr_to_int qr (qr_number qr kTrustedDeviceStoreSchemaVersion) (- 1) = kTrustedDeviceStoreSchemaVersion"

lemma json_strings_map [simp]: "json_strings (map JString ss) = Some ss"
  by (induction ss) simp_all

lemma device_from_to_json:
  assumes "device_text_ok qr d" and "validate_and_normalize qr d = Some d"
  shows "device_from_json qr (device_to_json qr d) = Some d"
proof -
  have "length (td_fingerprint_sha256 d) = kSha256FingerprintBytes"
    using assms(2) by (auto simp: validate_and_normalize_def split: if_splits)
  then show ?thesis
    using assms by (cases d) (simp add: device_to_json_def json_value_def qstr_def device_text_ok_def
        device_id_from_string_def uuid_null_def)
qed

lemma parse_devices_list:
  assumes "list_all (\<lambda>d. device_from_json qr (device_to_json qr d) = Some d) ds"
    and "distinct (map td_device_id ds)"
    and "\<forall>d \<in> set ds. map_of acc (td_device_id d) = None"
  shows "\<exists>al. parse_devices qr acc (map (device_to_json qr) ds) = Some al \<and>
    map_of al = map_of acc ++ map_of (map (\<lambda>d. (td_device_id d, d)) ds)"
  using assms
proof (induction ds arbitrary: acc)
  case Nil
  then show ?case by simp
next
  case (Cons d ds)
  let ?acc = "AList.update (td_device_id d) d acc"
  have fresh: "\<forall>x \<in> set ds. map_of ?acc (td_device_id x) = None"
    using Cons.prems(2,3) by (auto simp: update_conv image_iff)
  obtain al where al: "parse_devices qr ?acc (map (device_to_json qr) ds) = Some al"
      "map_of al = map_of ?acc ++ map_of (map (\<lambda>d. (td_device_id d, d)) ds)"
    using Cons.IH [OF _ _ fresh] Cons.prems(1,2) by auto
  have "td_device_id d \<notin> td_device_id ` set ds"
    using Cons.prems(2) by simp
  then have "map_of (map (\<lambda>d. (td_device_id d, d)) ds) (td_device_id d) = None"
    by (auto simp: map_of_eq_None_iff image_image)
  then have merged: "map_of al = map_of acc ++ map_of (map (\<lambda>d. (td_device_id d, d)) (d # ds))"
    unfolding al(2) by (auto simp: update_conv' fun_eq_iff map_add_def split: option.splits)
  have "parse_devices qr acc (map (device_to_json qr) (d # ds)) = Some al"
    using Cons.prems al(1) by simp
  with merged show ?case by blast
qed

lemma parse_serialized:
  assumes "readable_store qr st"
  shows "\<exists>al. parse_store qr (serialize_store qr (store_devices qr st)) = Some al \<and>
    map_of al = map_of (ds_devices st)"
proof -
  let ?ds = "store_devices qr st"
  from assms have ok: "store_ok qr st" by (simp add: readable_store_def)
  have set_ds: "set ?ds = snd ` set (ds_devices st)" by (simp add: store_devices_def)
  have keys: "map td_device_id (map snd (ds_devices st)) = map fst (ds_devices st)"
    using ok by (auto simp: store_ok_def list_all_iff device_ok_def)
  have mset: "mset (map td_device_id ?ds) = mset (map fst (ds_devices st))"
    unfolding keys [symmetric] store_devices_def mset_map by simp
  have dist: "distinct (map td_device_id ?ds)"
    using ok mset unfolding store_ok_def by (metis mset_eq_imp_distinct_iff)
  have all: "list_all (\<lambda>d. device_from_json qr (device_to_json qr d) = Some d) ?ds"
    using assms ok set_ds by (auto simp: list_all_iff readable_store_def store_ok_def device_ok_def
        intro!: device_from_to_json)
  obtain al where al: "parse_devices qr [] (map (device_to_json qr) ?ds) = Some al"
      "map_of al = map_of (map (\<lambda>d. (td_device_id d, d)) ?ds)"
    using parse_devices_list [OF all dist, of "[]"] by auto
  have "set (map (\<lambda>d. (td_device_id d, d)) ?ds) = set (ds_devices st)"
    using ok by (force simp: set_ds store_ok_def list_all_iff device_ok_def)
  then have "map_of (map (\<lambda>d. (td_device_id d, d)) ?ds) = map_of (ds_devices st)"
    using ok dist by (subst map_of_inject_set) (simp_all add: store_ok_def comp_def)
  moreover have "parse_store qr (serialize_store qr ?ds) = Some al"
    using assms al(1) by (simp add: parse_store_def serialize_store_def readable_store_def
        store_document_def json_value_def qstr_def)
  ultimately show ?thesis using al(2) by auto
qed

lemma backup_differs [simp]: "backup_path st \<noteq> ds_path st" "ds_path st \<noteq> backup_path st"
  by (simp_all add: backup_path_def qstr_def)

lemma write_atomic_cases: "write_atomic env path contents dk = (done', dk') \<Longrightarrow>
    done' \<and> dk' = dk(path := Some contents) \<or> \<not> done' \<and> dk' = dk"
  by (auto simp: write_atomic_def split: if_splits)

text \<open>A failed save leaves both files as they were; a successful one replaces the primary file,
  and the backup or not.\<close>

lemma store_save_cases:
  assumes "store_save qr env benv st dk = (r, dk')"
  defines "contents \<equiv> serialize_store qr (store_devices qr st)"
  shows "\<not> so_ok r \<and> dk' = dk \<or>
    so_ok r \<and> (dk' = dk(ds_path st := Some contents) \<or>
      dk' = dk(ds_path st := Some contents, backup_path st := Some contents))"
proof (cases "write_atomic env (ds_path st) contents dk")
  case (Pair d dk1)
  show ?thesis
  proof (cases d)
    case True
    then show ?thesis
      using assms Pair write_atomic_cases [OF Pair]
        write_atomic_cases [of benv "backup_path st" contents dk1]
      by (cases "write_atomic benv (backup_path st) contents dk1")
        (auto simp: store_save_def Let_def contents_def)
  next
    case False
    then show ?thesis
      using assms Pair write_atomic_cases [OF Pair]
      by (auto simp: store_save_def Let_def contents_def)
  qed
qed

section \<open>Properties\<close>

text \<open>C20. The trust store survives: a failed save changes neither file; after a successful save, a load
  yields from the primary file exactly the devices that were saved, and if the backup was
  written too, then whatever damage makes the primary file unusable or removes it, a load
  recovers the same devices from the backup.\<close>

theorem trust_store_survives:
  assumes "readable_store qr st" and "store_save qr env benv st dk = (r, dk')"
    and "ds_path loader = ds_path st"
  shows "if so_ok r
    then (\<exists>st'. store_load qr (\<lambda>_. True) dk' loader = (\<lparr>so_ok = True, so_source = LS_Primary\<rparr>, st') \<and>
           store_find st' = store_find st) \<and>
         (fst (write_atomic benv (backup_path st) (serialize_store qr (store_devices qr st)) dk') \<and>
          (case damage of None \<Rightarrow> True | Some b \<Rightarrow> parse_store qr b = None) \<longrightarrow>
            (\<exists>st'. store_load qr (\<lambda>_. True) (dk'(ds_path st := damage)) loader =
                (\<lparr>so_ok = True, so_source = LS_Backup\<rparr>, st') \<and> store_find st' = store_find st))
    else dk' = dk"
proof -
  obtain al where al: "parse_store qr (serialize_store qr (store_devices qr st)) = Some al"
      "map_of al = map_of (ds_devices st)"
    using parse_serialized [OF assms(1)] by blast
  have path: "backup_path loader = backup_path st"
    using assms(3) by (simp add: backup_path_def)
  have load: "\<exists>st'. store_load qr (\<lambda>_. True) dk' loader = (\<lparr>so_ok = True, so_source = LS_Primary\<rparr>, st') \<and>
      store_find st' = store_find st" if "so_ok r"
    using store_save_cases [OF assms(2)] that al assms(3) path
    by (auto simp: store_load_def read_store_def store_find_def fun_eq_iff)
  have recover: "\<exists>st'. store_load qr (\<lambda>_. True) (dk'(ds_path st := damage)) loader =
      (\<lparr>so_ok = True, so_source = LS_Backup\<rparr>, st') \<and> store_find st' = store_find st"
    if "so_ok r" and w: "fst (write_atomic benv (backup_path st) (serialize_store qr (store_devices qr st)) dk')"
      and "case damage of None \<Rightarrow> True | Some b \<Rightarrow> parse_store qr b = None"
  proof -
    have "dk' (backup_path st) = Some (serialize_store qr (store_devices qr st))"
      using assms(2) w \<open>so_ok r\<close>
      by (auto simp: store_save_def Let_def write_atomic_def split: if_splits)
    then show ?thesis
      using that(3) al assms(3) path
      by (auto simp: store_load_def read_store_def store_find_def fun_eq_iff split: option.splits)
  qed
  show ?thesis
    using load recover store_save_cases [OF assms(2)] by auto
qed

text \<open>A store of one device, and layers below that know its document.\<close>

definition sample_uuid_text :: qstring where
  "sample_uuid_text = qstr ''00000000-0000-0000-0000-000000000007''"

definition sample_device :: trusted_device where
  "sample_device = \<lparr>td_device_id = 7, td_alias = qstr ''desk'', td_platform = qstr ''linux'',
     td_fingerprint_sha256 = replicate 32 9, td_last_addresses = [qstr ''10.0.0.7''],
     td_auto_accept_files = False, td_revoked = False\<rparr>"

definition sample_layers :: "json \<Rightarrow> qt_trust" where
  "sample_layers document = \<lparr>qr_text = ascii_text, qr_to_json = (\<lambda>_. [1]),
     qr_from_json = (\<lambda>b. if b = [1] then Some document else None),
     qr_number = (\<lambda>n. word_of_int n), qr_to_int = (\<lambda>n _. sint n),
     qr_to_base64 = map ucast, qr_from_base64 = (\<lambda>s. Some (map ucast s)), qr_address = (\<lambda>a. Some a),
     qr_uuid_string = (\<lambda>_. sample_uuid_text), qr_uuid_parse = (\<lambda>_. 7)\<rparr>"

definition sample_trust_store :: device_store where
  "sample_trust_store = \<lparr>ds_path = qstr ''/trust'', ds_devices = [(7, sample_device)]\<rparr>"

definition sample_trust_layers :: qt_trust where
  "sample_trust_layers = sample_layers (store_document (sample_layers JNull) sample_trust_store)"

definition write_all :: write_env where
  "write_all = \<lparr>we_mkpath_ok = True, we_open_ok = True, we_written = length, we_commit_ok = True\<rparr>"

lemma sample_normal: "validate_and_normalize (sample_layers v) sample_device = Some sample_device"
  by (simp add: validate_and_normalize_def sample_device_def sample_layers_def ascii_text_def
      ascii_space_def kSha256FingerprintBytes_def qstr_def)

lemma sample_readable: "readable_store sample_trust_layers sample_trust_store"
proof -
  have "canonical_uuid sample_uuid_text"
    by (simp add: canonical_uuid_def matches_to_end_def uuid_layout_def is_hex_digit_def ascii_lower_def
        sample_uuid_text_def qstr_def)
  moreover have "store_document sample_trust_layers sample_trust_store =
      store_document (sample_layers JNull) sample_trust_store"
    by (simp add: store_document_def store_devices_def sample_trust_store_def device_to_json_def
        sample_trust_layers_def sample_layers_def)
  moreover have "qr_from_json sample_trust_layers (qr_to_json sample_trust_layers v) =
      Some (store_document (sample_layers JNull) sample_trust_store)" for v
    by (simp add: sample_trust_layers_def sample_layers_def)
  moreover have "validate_and_normalize sample_trust_layers sample_device = Some sample_device"
    by (simp add: sample_trust_layers_def sample_normal)
  moreover have "qr_uuid_string sample_trust_layers = (\<lambda>_. sample_uuid_text)"
      "qr_uuid_parse sample_trust_layers = (\<lambda>_. 7)" "td_device_id sample_device = 7"
      "qr_from_base64 sample_trust_layers (qr_to_base64 sample_trust_layers (td_fingerprint_sha256 sample_device)) =
        Some (td_fingerprint_sha256 sample_device)"
      "qr_to_int sample_trust_layers (qr_number sample_trust_layers 1) (- 1) = 1"
    by (simp_all add: sample_trust_layers_def sample_layers_def sample_device_def)
  ultimately show ?thesis
    by (simp add: readable_store_def store_ok_def device_ok_def device_text_ok_def
        kTrustedDeviceStoreSchemaVersion_def)
      (simp add: sample_trust_store_def device_ok_def)
qed

theorem trust_store_survives_witness:
  "\<exists>st'. store_load sample_trust_layers (\<lambda>_. True)
      ((snd (store_save sample_trust_layers write_all write_all sample_trust_store (\<lambda>_. None)))(qstr ''/trust'' := Some [2]))
      (new_store (qstr ''/trust'')) = (\<lparr>so_ok = True, so_source = LS_Backup\<rparr>, st') \<and>
    store_find st' 7 = Some sample_device"
proof -
  let ?s = "store_save sample_trust_layers write_all write_all sample_trust_store (\<lambda>_. None)"
  have saved: "?s = (\<lparr>so_ok = True, so_source = LS_Primary\<rparr>, snd ?s)"
    by (simp add: store_save_def write_atomic_def write_all_def Let_def)
  have path: "ds_path (new_store (qstr ''/trust'')) = ds_path sample_trust_store"
    by (simp add: new_store_def sample_trust_store_def)
  have bad: "parse_store sample_trust_layers [2] = None"
    by (simp add: parse_store_def sample_trust_layers_def sample_layers_def)
  have written: "fst (write_atomic write_all p c dk)" for p c dk
    by (simp add: write_atomic_def write_all_def)
  have "store_find sample_trust_store 7 = Some sample_device" "ds_path sample_trust_store = qstr ''/trust''"
    by (simp_all add: store_find_def sample_trust_store_def)
  then show ?thesis
    using trust_store_survives [OF sample_readable saved path, of "Some [2]"] bad written by auto
qed

end
