(* ===== verification/Reconnect.thy ===== *)
theory Reconnect
  imports TrustStore PartialMachine
begin

text \<open>
  Automatic reconnection (src/lib/relaydesk/reconnect, discovery): \<open>AddressCandidateProvider\<close> gathers the
  addresses under which a device may be found, \<open>AutoReconnectCoordinator\<close> tries them one after the other,
  checks the trust store before it dials and after the peer has authenticated, and tries again later.
\<close>

section \<open>Host addresses\<close>

text \<open>What Qt offers: a host address with its text, classification and parser, the text functions, and the
  text of a candidate made of its address and ports.\<close>

record 'a qt_address =
  qa_parse :: "qstring \<Rightarrow> 'a option"
  qa_text :: "'a \<Rightarrow> qstring"
  qa_null :: "'a \<Rightarrow> bool"
  qa_multicast :: "'a \<Rightarrow> bool"
  qa_broadcast :: "'a \<Rightarrow> bool"
  qa_any :: "'a \<Rightarrow> bool"
  qa_unknown :: "'a \<Rightarrow> bool"
  qa_ipv4 :: "'a \<Rightarrow> bool"
  qa_trimmed :: "qstring \<Rightarrow> qstring"
  qa_to_ace :: "qstring \<Rightarrow> bytes"
  qa_key :: "qstring \<Rightarrow> u16 \<Rightarrow> u16 \<Rightarrow> qstring"

definition is_usable_address :: "'a qt_address \<Rightarrow> 'a \<Rightarrow> bool" where
  "is_usable_address qa a \<longleftrightarrow>
     \<not> qa_null qa a \<and> \<not> qa_multicast qa a \<and> \<not> qa_broadcast qa a \<and> \<not> qa_any qa a \<and> \<not> qa_unknown qa a"

section \<open>Manual addresses\<close>

record manual_address =
  ma_host :: qstring
  ma_input_port :: u16
  ma_file_port :: u16

definition valid_port :: "int \<Rightarrow> bool" where
  "valid_port p \<longleftrightarrow> 1 \<le> p \<and> p \<le> 65535"

definition byte_lower :: "byte \<Rightarrow> byte" where
  "byte_lower b = (if 65 \<le> b \<and> b \<le> 90 then b + 32 else b)"

definition label_char :: "byte \<Rightarrow> bool" where
  "label_char b \<longleftrightarrow> 97 \<le> b \<and> b \<le> 122 \<or> 48 \<le> b \<and> b \<le> 57"

text \<open>The pattern of a label; its \<open>$\<close> also matches before a final newline.\<close>

definition label_text :: "bytes \<Rightarrow> bool" where
  "label_text s \<longleftrightarrow>
     s \<noteq> [] \<and> length s \<le> 63 \<and> label_char (hd s) \<and> label_char (last s) \<and> list_all (\<lambda>b. label_char b \<or> b = 45) s"

definition label_matches :: "bytes \<Rightarrow> bool" where
  "label_matches s \<longleftrightarrow> label_text s \<or> s \<noteq> [] \<and> last s = 10 \<and> label_text (butlast s)"

fun split_on :: "byte \<Rightarrow> bytes \<Rightarrow> bytes list" where
  "split_on c [] = [[]]"
| "split_on c (x # xs) =
     (let parts = split_on c xs in if x = c then [] # parts else (x # hd parts) # tl parts)"

definition is_valid_ace_hostname :: "bytes \<Rightarrow> bool" where
  "is_valid_ace_hostname h \<longleftrightarrow> h \<noteq> [] \<and> length h \<le> 253 \<and> list_all label_matches (split_on 46 h)"

definition digits_and_dots :: "qstring \<Rightarrow> bool" where
  "digits_and_dots s \<longleftrightarrow>
     (let t = (if s \<noteq> [] \<and> last s = 10 then butlast s else s)
      in t \<noteq> [] \<and> list_all (\<lambda>c. c = 46 \<or> 48 \<le> c \<and> c \<le> 57) t)"

definition unbracket :: "qstring \<Rightarrow> (bool \<times> qstring) option" where
  "unbracket s =
     (let opens = (s \<noteq> [] \<and> hd s = 91); closes = (s \<noteq> [] \<and> last s = 93)
      in if opens \<or> closes then if length s < 3 \<or> \<not> opens \<or> \<not> closes then None else Some (True, butlast (tl s))
         else Some (False, s))"

definition parse_manual_address :: "'a qt_address \<Rightarrow> qstring \<Rightarrow> int \<Rightarrow> int \<Rightarrow> manual_address option" where
  "parse_manual_address qa text input_port file_port =
     (let manual = (\<lambda>host. \<lparr>ma_host = host, ma_input_port = word_of_int input_port, ma_file_port = word_of_int file_port\<rparr>) in
      if \<not> valid_port input_port \<or> \<not> valid_port file_port then None
      else case unbracket (qa_trimmed qa text) of
        None \<Rightarrow> None
      | Some (bracketed, host) \<Rightarrow>
          if host = [] then None
          else case qa_parse qa host of
            Some a \<Rightarrow>
              if qa_null qa a \<or> qa_any qa a \<or> qa_multicast qa a \<or> qa_broadcast qa a then None
              else Some (manual (qa_text qa a))
          | None \<Rightarrow>
              if bracketed then None
              else if 58 \<in> set host \<or> digits_and_dots host then None
              else
                let host1 = (if last host = 46 then butlast host else host)
                in if host1 \<noteq> [] \<and> last host1 = 46 then None
                   else
                     let ace = map byte_lower (qa_to_ace qa host1)
                     in if \<not> is_valid_ace_hostname ace then None else Some (manual (map ucast ace)))"

section \<open>Address candidates\<close>

datatype candidate_source = ACS_RecentSuccessful | ACS_Discovered | ACS_Manual

record 'a address_candidate =
  ac_address :: 'a
  ac_input_port :: u16
  ac_file_port :: u16
  ac_source :: candidate_source
  ac_origin_host :: qstring

record 'a candidate_request =
  cq_enabled :: bool
  cq_manual_addresses :: "manual_address list"
  cq_recent :: "'a list"
  cq_discovered :: "'a list"
  cq_input_port :: u16
  cq_file_port :: u16

record 'a resolution =
  rs_priority :: "'a address_candidate list"
  rs_manual :: "'a address_candidate list list"
  rs_unresolved :: "qstring list"
  rs_pending_hosts :: nat
  rs_scheduled :: bool

text \<open>
  The provider: its generation, the resolution of that generation, the callbacks that resolvers hold, and the
  timers that will report a failure or complete a resolution.
\<close>

record 'a provider =
  pv_generation :: u64
  pv_resolution :: "'a resolution option"
  pv_lookups :: "(u64 \<times> nat \<times> manual_address) list"
  pv_failures :: "u64 list"
  pv_completions :: "u64 list"

definition candidate_key :: "'a qt_address \<Rightarrow> 'a address_candidate \<Rightarrow> qstring" where
  "candidate_key qa c = qa_key qa (qa_text qa (ac_address c)) (ac_input_port c) (ac_file_port c)"

definition append_candidate ::
  "'a qt_address \<Rightarrow> 'a address_candidate \<Rightarrow> 'a address_candidate list \<times> qstring set \<Rightarrow>
   'a address_candidate list \<times> qstring set" where
  "append_candidate qa c = (\<lambda>(cs, seen).
     if \<not> is_usable_address qa (ac_address c) then (cs, seen)
     else if candidate_key qa c \<in> seen then (cs, seen)
     else (cs @ [c], insert (candidate_key qa c) seen))"

text \<open>Sorted by protocol, then by text; the second sort keeps the order of the first.\<close>

definition normalized_resolved_addresses :: "'a qt_address \<Rightarrow> 'a list \<Rightarrow> 'a list" where
  "normalized_resolved_addresses qa addresses =
     sort_key (\<lambda>a. if qa_ipv4 qa a then 0 else 1 :: nat) (sort_key (qa_text qa)
       (fold (\<lambda>a r. if is_usable_address qa a \<and> a \<notin> set r then r @ [a] else r) addresses []))"

definition manual_candidate :: "manual_address \<Rightarrow> 'a \<Rightarrow> 'a address_candidate" where
  "manual_candidate m a =
     \<lparr>ac_address = a, ac_input_port = ma_input_port m, ac_file_port = ma_file_port m, ac_source = ACS_Manual,
      ac_origin_host = ma_host m\<rparr>"

definition schedule_completion :: "u64 \<Rightarrow> 'a resolution \<Rightarrow> 'a provider \<Rightarrow> 'a provider" where
  "schedule_completion g st p =
     (if rs_scheduled st then p\<lparr>pv_resolution := Some st\<rparr>
      else p\<lparr>pv_resolution := Some (st\<lparr>rs_scheduled := True\<rparr>), pv_completions := pv_completions p @ [g]\<rparr>)"

text \<open>The loop over the manual addresses: literal ones are candidates at once, others have to be resolved.\<close>

fun manual_entries ::
  "'a qt_address \<Rightarrow> nat \<Rightarrow> manual_address list \<Rightarrow>
   'a resolution \<times> (nat \<times> manual_address) list \<Rightarrow> 'a resolution \<times> (nat \<times> manual_address) list" where
  "manual_entries qa i [] r = r"
| "manual_entries qa i (m # ms) (st, pending) =
     manual_entries qa (Suc i) ms
       (case parse_manual_address qa (ma_host m) (uint (ma_input_port m)) (uint (ma_file_port m)) of
          None \<Rightarrow> (st\<lparr>rs_unresolved := (rs_unresolved st)[i := ma_host m]\<rparr>, pending)
        | Some n \<Rightarrow>
            (case qa_parse qa (ma_host n) of
               Some a \<Rightarrow> (st\<lparr>rs_manual := (rs_manual st)[i := rs_manual st ! i @ [manual_candidate n a]]\<rparr>, pending)
             | None \<Rightarrow> (st, pending @ [(i, n)])))"

definition resolve_candidates :: "'a qt_address \<Rightarrow> 'a candidate_request \<Rightarrow> 'a provider \<Rightarrow> 'a provider" where
  "resolve_candidates qa q p0 =
     (let p = p0\<lparr>pv_generation := pv_generation p0 + 1\<rparr>; g = pv_generation p;
          n = length (cq_manual_addresses q);
          candidate = (\<lambda>source a. \<lparr>ac_address = a, ac_input_port = cq_input_port q, ac_file_port = cq_file_port q,
             ac_source = source, ac_origin_host = []\<rparr>)
      in if cq_input_port q = 0 \<or> cq_file_port q = 0 then p\<lparr>pv_resolution := None, pv_failures := pv_failures p @ [g]\<rparr>
         else
           let recent = fold (append_candidate qa \<circ> candidate ACS_RecentSuccessful) (cq_recent q) ([], {});
               (priority, _) = (if cq_enabled q
                  then fold (append_candidate qa \<circ> candidate ACS_Discovered) (cq_discovered q) recent else recent);
               (st, pending) = manual_entries qa 0 (cq_manual_addresses q)
                 (\<lparr>rs_priority = priority, rs_manual = replicate n [], rs_unresolved = replicate n [],
                   rs_pending_hosts = 0, rs_scheduled = False\<rparr>, []);
               st1 = st\<lparr>rs_pending_hosts := length pending\<rparr>
           in if pending = [] then schedule_completion g st1 p
              else p\<lparr>pv_resolution := Some st1, pv_lookups := pv_lookups p @ map (Pair g) pending\<rparr>)"

definition finish_host :: "'a qt_address \<Rightarrow> u64 \<Rightarrow> nat \<Rightarrow> manual_address \<Rightarrow> 'a list \<Rightarrow> 'a provider \<Rightarrow> 'a provider" where
  "finish_host qa g i m addresses p =
     (case pv_resolution p of
        None \<Rightarrow> p
      | Some st \<Rightarrow>
          if g \<noteq> pv_generation p \<or> rs_pending_hosts st = 0 then p
          else
            let found = normalized_resolved_addresses qa addresses;
                st1 = (if found = [] then st\<lparr>rs_unresolved := (rs_unresolved st)[i := ma_host m]\<rparr>
                       else st\<lparr>rs_manual := (rs_manual st)[i := rs_manual st ! i @ map (manual_candidate m) found]\<rparr>);
                st2 = st1\<lparr>rs_pending_hosts := rs_pending_hosts st1 - 1\<rparr>
            in if rs_pending_hosts st2 = 0 then schedule_completion g st2 p else p\<lparr>pv_resolution := Some st2\<rparr>)"

text \<open>What a completion emits; diagnostics and the unresolved hosts are for display only.\<close>

definition complete_resolution :: "'a qt_address \<Rightarrow> u64 \<Rightarrow> 'a provider \<Rightarrow> 'a address_candidate list option" where
  "complete_resolution qa g p =
     (if g \<noteq> pv_generation p then None
      else map_option (\<lambda>st.
        fst (fold (append_candidate qa) (concat (rs_manual st))
          (rs_priority st, candidate_key qa ` set (rs_priority st)))) (pv_resolution p))"

section \<open>The coordinator\<close>

datatype connect_error = ACE_None | ACE_NetworkError | ACE_AuthenticationFailed

record connect_result =
  cr_error :: connect_error
  cr_peer :: "(uuid \<times> bytes) option"

record 'a reconnect_request =
  rq_device_id :: uuid
  rq_discovered :: "'a list"
  rq_enabled :: bool
  rq_manual_addresses :: "manual_address list"
  rq_input_port :: u16
  rq_file_port :: u16

record reconnect_options =
  ro_max_candidates :: int
  ro_max_remembered :: int
  ro_initial_delay :: int
  ro_max_delay :: int

datatype 'a reconnect_signal =
    Sig_Connecting uuid "'a address_candidate"
  | Sig_Connected uuid "'a address_candidate"
  | Sig_RetryScheduled uuid int
  | Sig_TrustBlocked uuid pinning_error
  | Sig_RoundFailed uuid
  | Sig_PersistenceFailed uuid

text \<open>
  The members, with the trust store and the provider it refers to, the disk of the store, the signals so far,
  the callbacks given to the connector (generation and candidate) and the timers of the scheduler.
\<close>

record 'a reconnect =
  rc_store :: device_store
  rc_disk :: disk
  rc_provider :: "'a provider"
  rc_options :: reconnect_options
  rc_request :: "'a reconnect_request option"
  rc_candidates :: "'a address_candidate list"
  rc_next :: nat
  rc_generation :: u64
  rc_attempt :: int
  rc_has_request :: bool
  rc_connected :: bool
  rc_waiting :: bool
  rc_signals :: "'a reconnect_signal list"
  rc_calls :: "(u64 \<times> 'a address_candidate) list"
  rc_timers :: "(int \<times> u64) list"

definition normal_options :: "reconnect_options \<Rightarrow> reconnect_options" where
  "normal_options ro =
     (let initial = max 1 (ro_initial_delay ro)
      in \<lparr>ro_max_candidates = max 1 (ro_max_candidates ro), ro_max_remembered = max 1 (ro_max_remembered ro),
          ro_initial_delay = initial, ro_max_delay = max initial (ro_max_delay ro)\<rparr>)"

definition new_provider :: "'a provider" where
  "new_provider = \<lparr>pv_generation = 0, pv_resolution = None, pv_lookups = [], pv_failures = [], pv_completions = []\<rparr>"

definition new_reconnect :: "reconnect_options \<Rightarrow> device_store \<Rightarrow> disk \<Rightarrow> 'a reconnect" where
  "new_reconnect ro st dk =
     \<lparr>rc_store = st, rc_disk = dk, rc_provider = new_provider, rc_options = normal_options ro, rc_request = None,
      rc_candidates = [], rc_next = 0, rc_generation = 0, rc_attempt = 0, rc_has_request = False,
      rc_connected = False, rc_waiting = False, rc_signals = [], rc_calls = [], rc_timers = []\<rparr>"

definition emit_signal :: "'a reconnect_signal \<Rightarrow> 'a reconnect \<Rightarrow> 'a reconnect" where
  "emit_signal x c = c\<lparr>rc_signals := rc_signals c @ [x]\<rparr>"

definition verify_trusted_device :: "uuid \<Rightarrow> 'a reconnect \<Rightarrow> pinning_error" where
  "verify_trusted_device device c =
     (case store_find (rc_store c) device of
        None \<Rightarrow> PPE_UnknownPeer
      | Some d \<Rightarrow> if td_revoked d then PPE_RevokedPeer else PPE_None)"

definition verify_authenticated_peer :: "uuid \<Rightarrow> uuid \<times> bytes \<Rightarrow> 'a reconnect \<Rightarrow> pinning_error" where
  "verify_authenticated_peer device peer c =
     (if fst peer \<noteq> device then PPE_DeviceIdMismatch else pinning_verify (rc_store c) (fst peer) (snd peer))"

text \<open>\<open>m_request\<close> is dereferenced without a test; it has a value whenever a request is active.\<close>

definition begin_round :: "'a qt_address \<Rightarrow> 'a reconnect \<Rightarrow> 'a reconnect option" where
  "begin_round qa c =
     (case rc_request c of
        None \<Rightarrow> None
      | Some q \<Rightarrow>
          let device = rq_device_id q; e = verify_trusted_device device c in
          if e \<noteq> PPE_None then Some (emit_signal (Sig_TrustBlocked device e) (c\<lparr>rc_waiting := False\<rparr>))
          else case store_find (rc_store c) device of
            None \<Rightarrow> Some (emit_signal (Sig_TrustBlocked device PPE_UnknownPeer) c)
          | Some d \<Rightarrow>
              Some (c\<lparr>rc_candidates := [], rc_next := 0, rc_waiting := True,
                rc_provider := resolve_candidates qa
                  \<lparr>cq_enabled = rq_enabled q, cq_manual_addresses = rq_manual_addresses q,
                   cq_recent = List.map_filter (qa_parse qa) (td_last_addresses d), cq_discovered = rq_discovered q,
                   cq_input_port = rq_input_port q, cq_file_port = rq_file_port q\<rparr> (rc_provider c)\<rparr>))"

definition schedule_retry :: "u64 \<Rightarrow> 'a reconnect \<Rightarrow> 'a reconnect option" where
  "schedule_retry g c =
     (if \<not> rc_has_request c \<or> g \<noteq> rc_generation c then Some c
      else case rc_request c of
        None \<Rightarrow> None
      | Some q \<Rightarrow>
          let c1 = emit_signal (Sig_RoundFailed (rq_device_id q)) c;
              c2 = (if rc_attempt c1 < ro_max_delay (rc_options c1) then c1\<lparr>rc_attempt := rc_attempt c1 + 1\<rparr> else c1);
              delay = min (ro_initial_delay (rc_options c2) * rc_attempt c2) (ro_max_delay (rc_options c2));
              c3 = emit_signal (Sig_RetryScheduled (rq_device_id q) delay) c2
          in Some (c3\<lparr>rc_timers := rc_timers c3 @ [(delay, g)]\<rparr>))"

definition try_next_candidate :: "u64 \<Rightarrow> 'a reconnect \<Rightarrow> 'a reconnect option" where
  "try_next_candidate g c =
     (if \<not> rc_has_request c \<or> g \<noteq> rc_generation c then Some c
      else case rc_request c of
        None \<Rightarrow> None
      | Some q \<Rightarrow>
          let device = rq_device_id q; e = verify_trusted_device device c in
          if e \<noteq> PPE_None then Some (emit_signal (Sig_TrustBlocked device e) c)
          else if rc_next c \<ge> length (rc_candidates c) then schedule_retry g c
          else
            let candidate = rc_candidates c ! rc_next c;
                c1 = emit_signal (Sig_Connecting device candidate) (c\<lparr>rc_next := Suc (rc_next c)\<rparr>)
            in Some (c1\<lparr>rc_calls := rc_calls c1 @ [(g, candidate)]\<rparr>))"

definition candidates_ready :: "'a address_candidate list \<Rightarrow> 'a reconnect \<Rightarrow> 'a reconnect option" where
  "candidates_ready cs c =
     (if \<not> rc_has_request c \<or> \<not> rc_waiting c then Some c
      else
        let c1 = c\<lparr>rc_waiting := False, rc_candidates := take (nat (ro_max_candidates (rc_options c))) cs, rc_next := 0\<rparr>
        in if rc_candidates c1 = [] then schedule_retry (rc_generation c1) c1
           else try_next_candidate (rc_generation c1) c1)"

definition resolution_failed :: "'a reconnect \<Rightarrow> 'a reconnect option" where
  "resolution_failed c =
     (if rc_has_request c \<and> rc_waiting c then schedule_retry (rc_generation c) (c\<lparr>rc_waiting := False\<rparr>) else Some c)"

definition remember_successful_address ::
  "qt_trust \<Rightarrow> 'a qt_address \<Rightarrow> write_env \<times> write_env \<Rightarrow> uuid \<Rightarrow> 'a address_candidate \<Rightarrow> 'a reconnect \<Rightarrow> 'a reconnect" where
  "remember_successful_address qr qa envs device candidate c =
     (case store_find (rc_store c) device of
        None \<Rightarrow> c
      | Some d \<Rightarrow>
          let text = qa_text qa (ac_address candidate);
              addresses = take (nat (ro_max_remembered (rc_options c))) (text # removeAll text (td_last_addresses d)) in
          (case store_upsert qr (d\<lparr>td_last_addresses := addresses\<rparr>) (rc_store c) of
             (False, st) \<Rightarrow> emit_signal (Sig_PersistenceFailed device) (c\<lparr>rc_store := st\<rparr>)
           | (True, st) \<Rightarrow>
               (case store_save qr (fst envs) (snd envs) st (rc_disk c) of
                  (r, dk) \<Rightarrow>
                    let c1 = c\<lparr>rc_store := st, rc_disk := dk\<rparr>
                    in if so_ok r then c1 else emit_signal (Sig_PersistenceFailed device) c1)))"

definition candidate_finished ::
  "qt_trust \<Rightarrow> 'a qt_address \<Rightarrow> write_env \<times> write_env \<Rightarrow> u64 \<Rightarrow> 'a address_candidate \<Rightarrow> connect_result \<Rightarrow>
   'a reconnect \<Rightarrow> 'a reconnect option" where
  "candidate_finished qr qa envs g candidate r c =
     (if \<not> rc_has_request c \<or> g \<noteq> rc_generation c then Some c
      else case rc_request c of
        None \<Rightarrow> None
      | Some q \<Rightarrow>
          let device = rq_device_id q in
          if cr_error r = ACE_AuthenticationFailed then Some (emit_signal (Sig_TrustBlocked device PPE_UnauthenticatedPeer) c)
          else if cr_error r \<noteq> ACE_None then try_next_candidate g c
          else case cr_peer r of
            None \<Rightarrow> Some (emit_signal (Sig_TrustBlocked device PPE_UnauthenticatedPeer) c)
          | Some peer \<Rightarrow>
              let e = verify_authenticated_peer device peer c in
              if e \<noteq> PPE_None then Some (emit_signal (Sig_TrustBlocked device e) c)
              else Some (emit_signal (Sig_Connected device candidate)
                (remember_successful_address qr qa envs device candidate (c\<lparr>rc_connected := True, rc_attempt := 0\<rparr>))))"

definition start_reconnect :: "'a qt_address \<Rightarrow> 'a reconnect_request \<Rightarrow> 'a reconnect \<Rightarrow> 'a reconnect option" where
  "start_reconnect qa q c =
     begin_round qa (c\<lparr>rc_generation := rc_generation c + 1, rc_request := Some q, rc_has_request := True,
       rc_connected := False, rc_attempt := 0\<rparr>)"

definition network_available :: "'a qt_address \<Rightarrow> 'a reconnect \<Rightarrow> 'a reconnect option" where
  "network_available qa c =
     (if \<not> rc_has_request c \<or> rc_connected c then Some c
      else begin_round qa (c\<lparr>rc_generation := rc_generation c + 1, rc_attempt := 0\<rparr>))"

definition stop_reconnect :: "'a reconnect \<Rightarrow> 'a reconnect" where
  "stop_reconnect c = c\<lparr>rc_generation := rc_generation c + 1, rc_has_request := False, rc_request := None,
     rc_connected := False, rc_waiting := False, rc_candidates := []\<rparr>"

definition retry_timer :: "'a qt_address \<Rightarrow> u64 \<Rightarrow> 'a reconnect \<Rightarrow> 'a reconnect option" where
  "retry_timer qa g c =
     (if rc_has_request c \<and> g = rc_generation c
      then begin_round qa (c\<lparr>rc_generation := rc_generation c + 1\<rparr>) else Some c)"

section \<open>Its events\<close>

text \<open>
  A callback or timer can only run if it was given away; nothing keeps it from running more than once. The
  trust store is also changed by others.
\<close>

datatype 'a reconnect_event =
    RE_Start "'a reconnect_request"
  | RE_Network
  | RE_Stop
  | RE_Host u64 nat manual_address "'a list"
  | RE_Complete u64
  | RE_BadPorts u64
  | RE_Finished u64 "'a address_candidate" connect_result "write_env \<times> write_env"
  | RE_Timer int u64
  | RE_Store device_store disk

fun reconnect_step :: "qt_trust \<Rightarrow> 'a qt_address \<Rightarrow> 'a reconnect_event \<Rightarrow> 'a reconnect \<Rightarrow> 'a reconnect option" where
  "reconnect_step qr qa (RE_Start q) c = start_reconnect qa q c"
| "reconnect_step qr qa RE_Network c = network_available qa c"
| "reconnect_step qr qa RE_Stop c = Some (stop_reconnect c)"
| "reconnect_step qr qa (RE_Host g i m addresses) c =
     Some (if (g, i, m) \<in> set (pv_lookups (rc_provider c))
           then c\<lparr>rc_provider := finish_host qa g i m addresses (rc_provider c)\<rparr> else c)"
| "reconnect_step qr qa (RE_Complete g) c =
     (if g \<in> set (pv_completions (rc_provider c))
      then (case complete_resolution qa g (rc_provider c) of None \<Rightarrow> Some c | Some cs \<Rightarrow> candidates_ready cs c)
      else Some c)"
| "reconnect_step qr qa (RE_BadPorts g) c =
     (if g \<in> set (pv_failures (rc_provider c)) \<and> g = pv_generation (rc_provider c) then resolution_failed c else Some c)"
| "reconnect_step qr qa (RE_Finished g candidate r envs) c =
     (if (g, candidate) \<in> set (rc_calls c) then candidate_finished qr qa envs g candidate r c else Some c)"
| "reconnect_step qr qa (RE_Timer delay g) c =
     (if (delay, g) \<in> set (rc_timers c) then retry_timer qa g c else Some c)"
| "reconnect_step qr qa (RE_Store st dk) c = Some (c\<lparr>rc_store := st, rc_disk := dk\<rparr>)"

section \<open>Every signal is justified\<close>

text \<open>
  What a signal promises: a device is dialled only while it is paired and not revoked; it is connected only
  when the dialled peer authenticated as the requested device with the certificate the store trusts; and
  retries keep to the configured delays.
\<close>

fun justified :: "'a reconnect \<Rightarrow> 'a reconnect_event \<Rightarrow> 'a reconnect_signal \<Rightarrow> bool" where
  "justified c e (Sig_Connecting device candidate) =
     (rc_has_request c \<and> (\<exists>d. store_find (rc_store c) device = Some d \<and> \<not> td_revoked d))"
| "justified c e (Sig_Connected device candidate) =
     (rc_has_request c \<and> (\<exists>q. rc_request c = Some q \<and> rq_device_id q = device) \<and>
      (\<exists>r envs fp. e = RE_Finished (rc_generation c) candidate r envs \<and> (rc_generation c, candidate) \<in> set (rc_calls c) \<and>
         cr_error r = ACE_None \<and> cr_peer r = Some (device, fp) \<and> trust_status_of (rc_store c) device fp = TST_Trusted))"
| "justified c e (Sig_RetryScheduled device delay) =
     (ro_initial_delay (rc_options c) \<le> delay \<and> delay \<le> ro_max_delay (rc_options c))"
| "justified c e _ = True"

definition reconnect_inv :: "'a reconnect \<Rightarrow> bool" where
  "reconnect_inv c \<longleftrightarrow>
     (rc_has_request c \<longrightarrow> rc_request c \<noteq> None) \<and> 0 \<le> rc_attempt c \<and>
     1 \<le> ro_initial_delay (rc_options c) \<and> ro_initial_delay (rc_options c) \<le> ro_max_delay (rc_options c)"

text \<open>A defined result that keeps the invariant and only adds signals of a kind.\<close>

definition proceeds :: "('a reconnect_signal \<Rightarrow> bool) \<Rightarrow> 'a reconnect \<Rightarrow> 'a reconnect option \<Rightarrow> bool" where
  "proceeds P c r \<longleftrightarrow> (\<exists>d xs. r = Some d \<and> reconnect_inv d \<and> rc_signals d = rc_signals c @ xs \<and> list_all P xs)"

lemma proceeds_refl: "reconnect_inv c \<Longrightarrow> proceeds P c (Some c)"
  by (simp add: proceeds_def)

lemma proceeds_emit: "reconnect_inv c \<Longrightarrow> P x \<Longrightarrow> proceeds P c (Some (emit_signal x c))"
  by (auto simp: proceeds_def emit_signal_def reconnect_inv_def)

lemma proceeds_from:
  "proceeds P c1 r \<Longrightarrow> rc_signals c1 = rc_signals c \<Longrightarrow> proceeds P c r"
  by (simp add: proceeds_def)

lemma schedule_retry_proceeds:
  assumes c: "reconnect_inv c"
    and P: "\<And>x. justified c e x \<Longrightarrow> P x"
  shows "proceeds P c (schedule_retry g c)"
proof (cases "\<not> rc_has_request c \<or> g \<noteq> rc_generation c")
  case True
  then show ?thesis using c by (auto simp: schedule_retry_def proceeds_refl)
next
  case False
  then obtain q where q: "rc_request c = Some q" using c by (auto simp: reconnect_inv_def)
  define a where "a = (if rc_attempt c < ro_max_delay (rc_options c) then rc_attempt c + 1 else rc_attempt c)"
  let ?delay = "min (ro_initial_delay (rc_options c) * a) (ro_max_delay (rc_options c))"
  have a: "1 \<le> a" using c by (auto simp: a_def reconnect_inv_def)
  then have "ro_initial_delay (rc_options c) \<le> ro_initial_delay (rc_options c) * a"
    using c mult_left_mono [OF a, of "ro_initial_delay (rc_options c)"] by (simp add: reconnect_inv_def)
  then have "P (Sig_RoundFailed (rq_device_id q))" "P (Sig_RetryScheduled (rq_device_id q) ?delay)"
    using P c by (auto simp: reconnect_inv_def)
  moreover have "schedule_retry g c = Some (c\<lparr>rc_attempt := a,
      rc_signals := rc_signals c @ [Sig_RoundFailed (rq_device_id q), Sig_RetryScheduled (rq_device_id q) ?delay],
      rc_timers := rc_timers c @ [(?delay, g)]\<rparr>)"
    using False q by (simp add: schedule_retry_def emit_signal_def a_def Let_def)
  ultimately show ?thesis using c a by (simp add: proceeds_def reconnect_inv_def)
qed

lemma verify_trusted_iff: "verify_trusted_device device c = PPE_None \<longleftrightarrow> (\<exists>d. store_find (rc_store c) device = Some d \<and> \<not> td_revoked d)"
  by (auto simp: verify_trusted_device_def split: option.split)

lemma try_next_proceeds:
  assumes c: "reconnect_inv c" and P: "\<And>x. justified c e x \<Longrightarrow> P x"
  shows "proceeds P c (try_next_candidate g c)"
proof (cases "\<not> rc_has_request c \<or> g \<noteq> rc_generation c")
  case True
  then show ?thesis using c by (auto simp: try_next_candidate_def proceeds_refl)
next
  case False
  then obtain q where q: "rc_request c = Some q" using c by (auto simp: reconnect_inv_def)
  let ?e = "verify_trusted_device (rq_device_id q) c"
  consider "?e \<noteq> PPE_None" | "?e = PPE_None" "rc_next c \<ge> length (rc_candidates c)"
    | "?e = PPE_None" "rc_next c < length (rc_candidates c)" by linarith
  then show ?thesis
  proof cases
    case 1
    then show ?thesis using False q c P by (simp add: try_next_candidate_def Let_def proceeds_emit)
  next
    case 2
    then show ?thesis using False q schedule_retry_proceeds [OF c P] by (simp add: try_next_candidate_def Let_def)
  next
    case 3
    then have "P (Sig_Connecting (rq_device_id q) (rc_candidates c ! rc_next c))"
      using P False by (simp add: verify_trusted_iff)
    then show ?thesis
      using False q c 3 by (auto simp: try_next_candidate_def Let_def proceeds_def emit_signal_def reconnect_inv_def)
  qed
qed

lemma begin_round_proceeds:
  assumes c: "reconnect_inv c" and q: "rc_request c = Some q" and P: "\<And>device e. P (Sig_TrustBlocked device e)"
  shows "proceeds P c (begin_round qa c)"
  using c q P
  by (auto simp: begin_round_def Let_def proceeds_def emit_signal_def reconnect_inv_def verify_trusted_device_def split: option.splits)

lemma remembered_fields:
  assumes "remember_successful_address qr qa envs device candidate c = d"
  shows "rc_has_request d = rc_has_request c" "rc_request d = rc_request c" "rc_attempt d = rc_attempt c"
    "rc_options d = rc_options c" "\<exists>xs. rc_signals d = rc_signals c @ xs \<and> list_all (\<lambda>x. x = Sig_PersistenceFailed device) xs"
  using assms [symmetric]
  by (auto simp: remember_successful_address_def Let_def emit_signal_def split: option.split prod.split bool.split)

lemma candidate_finished_proceeds:
  assumes c: "reconnect_inv c" and call: "(g, candidate) \<in> set (rc_calls c)"
    and P: "\<And>x. justified c (RE_Finished g candidate r envs) x \<Longrightarrow> P x"
  shows "proceeds P c (candidate_finished qr qa envs g candidate r c)"
proof (cases "\<not> rc_has_request c \<or> g \<noteq> rc_generation c")
  case True
  then show ?thesis using c by (auto simp: candidate_finished_def proceeds_refl)
next
  case False
  then obtain q where q: "rc_request c = Some q" using c by (auto simp: reconnect_inv_def)
  have blocked: "proceeds P c (Some (emit_signal (Sig_TrustBlocked device e) c))" for device e
    using c P by (intro proceeds_emit) auto
  show ?thesis
  proof (cases "\<exists>fp. cr_error r = ACE_None \<and> cr_peer r = Some (rq_device_id q, fp) \<and>
      pinning_verify (rc_store c) (rq_device_id q) fp = PPE_None")
    case True
    then obtain fp where fp: "cr_error r = ACE_None" "cr_peer r = Some (rq_device_id q, fp)"
      "pinning_verify (rc_store c) (rq_device_id q) fp = PPE_None" by blast
    let ?d = "remember_successful_address qr qa envs (rq_device_id q) candidate (c\<lparr>rc_connected := True, rc_attempt := 0\<rparr>)"
    have d: "candidate_finished qr qa envs g candidate r c = Some (emit_signal (Sig_Connected (rq_device_id q) candidate) ?d)"
      using False q fp by (simp add: candidate_finished_def verify_authenticated_peer_def Let_def)
    have "trust_status_of (rc_store c) (rq_device_id q) fp = TST_Trusted"
      using fp(3) by (cases "trust_status_of (rc_store c) (rq_device_id q) fp") (auto simp: pinning_verify_def)
    then have "P (Sig_Connected (rq_device_id q) candidate)" using False q fp call by (intro P) auto
    moreover have "P (Sig_PersistenceFailed (rq_device_id q))" by (intro P) simp
    ultimately show ?thesis
      using remembered_fields [OF refl, of qr qa envs "rq_device_id q" candidate "c\<lparr>rc_connected := True, rc_attempt := 0\<rparr>"] c
      unfolding d by (auto simp: proceeds_def emit_signal_def reconnect_inv_def list_all_iff)
  next
    case no: False
    consider "candidate_finished qr qa envs g candidate r c = try_next_candidate g c"
      | device e where "candidate_finished qr qa envs g candidate r c = Some (emit_signal (Sig_TrustBlocked device e) c)"
      using False q no
      by (cases "cr_peer r") (fastforce simp: candidate_finished_def verify_authenticated_peer_def Let_def split: if_splits)+
    then show ?thesis using try_next_proceeds [OF c P] blocked by cases auto
  qed
qed

lemma reconnect_step_proceeds:
  assumes c: "reconnect_inv c"
  shows "proceeds (justified c e) c (reconnect_step qr qa e c)"
proof -
  have same: "reconnect_inv (c\<lparr>rc_provider := p\<rparr>)" "reconnect_inv (c\<lparr>rc_store := st, rc_disk := dk\<rparr>)" for p st dk
    using c by (simp_all add: reconnect_inv_def)
  have stopped: "reconnect_inv (stop_reconnect c)" "rc_signals (stop_reconnect c) = rc_signals c"
    using c by (simp_all add: reconnect_inv_def stop_reconnect_def)
  have round: "proceeds (justified c e) c (begin_round qa c1)"
    if "reconnect_inv c1" "rc_request c1 = Some q" "rc_signals c1 = rc_signals c" for c1 q
    using begin_round_proceeds [OF that(1,2), of "justified c e"] proceeds_from [OF _ that(3)] by simp
  have waited: "reconnect_inv (c\<lparr>rc_waiting := False, rc_candidates := cs, rc_next := 0\<rparr>)"
    "reconnect_inv (c\<lparr>rc_waiting := False\<rparr>)" for cs
    using c by (simp_all add: reconnect_inv_def)
  have justified_same: "justified c1 e x \<Longrightarrow> justified c e x"
    if "rc_has_request c1 = rc_has_request c" "rc_store c1 = rc_store c" "rc_request c1 = rc_request c"
      "rc_generation c1 = rc_generation c" "rc_calls c1 = rc_calls c" "rc_options c1 = rc_options c" for c1 x
    using that by (cases x) auto
  show ?thesis
  proof (cases e)
    case (RE_Start q)
    then show ?thesis unfolding RE_Start reconnect_step.simps start_reconnect_def
      by (rule_tac round [unfolded RE_Start]) (use c in \<open>simp_all add: reconnect_inv_def\<close>)
  next
    case RE_Network
    show ?thesis
    proof (cases "\<not> rc_has_request c \<or> rc_connected c")
      case True
      then show ?thesis using c RE_Network by (auto simp: network_available_def proceeds_refl)
    next
      case False
      then obtain q where "rc_request c = Some q" using c by (auto simp: reconnect_inv_def)
      then show ?thesis
        using False c RE_Network round [of "c\<lparr>rc_generation := rc_generation c + 1, rc_attempt := 0\<rparr>" q]
        by (simp add: network_available_def reconnect_inv_def)
    qed
  next
    case RE_Stop
    then show ?thesis using stopped by (simp add: proceeds_def)
  next
    case (RE_Host g i m addresses)
    then show ?thesis using c same by (auto simp: proceeds_def)
  next
    case (RE_Complete g)
    have ready: "proceeds (justified c e) c (candidates_ready cs c)" for cs
    proof -
      let ?c = "c\<lparr>rc_waiting := False, rc_candidates := take (nat (ro_max_candidates (rc_options c))) cs, rc_next := 0\<rparr>"
      have j: "justified ?c e x \<Longrightarrow> justified c e x" for x by (erule justified_same [rotated -1]) simp_all
      have "proceeds (justified c e) ?c (try_next_candidate (rc_generation ?c) ?c)"
        by (rule try_next_proceeds [OF waited(1), where e = e]) (erule j)
      moreover have "proceeds (justified c e) ?c (schedule_retry (rc_generation ?c) ?c)"
        by (rule schedule_retry_proceeds [OF waited(1), where e = e]) (erule j)
      ultimately show ?thesis using c by (auto simp: candidates_ready_def Let_def proceeds_refl proceeds_def)
    qed
    then show ?thesis using c RE_Complete by (auto simp: proceeds_refl split: option.split)
  next
    case (RE_BadPorts g)
    have j: "justified (c\<lparr>rc_waiting := False\<rparr>) e x \<Longrightarrow> justified c e x" for x
      by (erule justified_same [rotated -1]) simp_all
    have "proceeds (justified c e) (c\<lparr>rc_waiting := False\<rparr>) (schedule_retry (rc_generation c) (c\<lparr>rc_waiting := False\<rparr>))"
      by (rule schedule_retry_proceeds [OF waited(2), where e = e]) (erule j)
    then show ?thesis using c RE_BadPorts by (auto simp: resolution_failed_def proceeds_refl proceeds_def)
  next
    case (RE_Finished g candidate r envs)
    then show ?thesis using c candidate_finished_proceeds [OF c] by (auto simp: proceeds_refl)
  next
    case (RE_Timer delay g)
    show ?thesis
    proof (cases "rc_has_request c \<and> g = rc_generation c")
      case True
      then obtain q where "rc_request c = Some q" using c by (auto simp: reconnect_inv_def)
      then show ?thesis
        using True c RE_Timer round [of "c\<lparr>rc_generation := rc_generation c + 1\<rparr>" q]
        by (auto simp: retry_timer_def reconnect_inv_def proceeds_refl)
    next
      case False
      then show ?thesis using c RE_Timer by (auto simp: retry_timer_def proceeds_refl)
    qed
  next
    case (RE_Store st dk)
    then show ?thesis using same by (simp add: proceeds_def)
  qed
qed

lemma reconnect_inv_new: "reconnect_inv (new_reconnect ro st dk)"
  by (simp add: reconnect_inv_def new_reconnect_def normal_options_def Let_def)

interpretation reconnect: defined_machine "reconnect_step qr qa" reconnect_inv for qr qa
proof
  fix c d :: "'a reconnect" and e
  assume "reconnect_inv c" "reconnect_step qr qa e c = Some d"
  then show "reconnect_inv d" using reconnect_step_proceeds [of c e qr qa] by (simp add: proceeds_def)
next
  fix c :: "'a reconnect" and e
  assume "reconnect_inv c"
  then show "reconnect_step qr qa e c \<noteq> None" using reconnect_step_proceeds [of c e qr qa] by (auto simp: proceeds_def)
qed

interpretation reconnect: partial_provenance "reconnect_step qr qa" reconnect_inv
  "\<lambda>c. set (rc_signals c)" "\<lambda>c e. {x. justified c e x}" for qr qa
proof
  fix c d :: "'a reconnect" and e
  assume "reconnect_inv c" "reconnect_step qr qa e c = Some d"
  then show "set (rc_signals d) \<subseteq> set (rc_signals c) \<union> {x. justified c e x}"
    using reconnect_step_proceeds [of c e qr qa] by (auto simp: proceeds_def list_all_iff)
qed

section \<open>Properties\<close>


text \<open>The candidates of a resolution are usable and differ in address or ports.\<close>

definition candidates_ok :: "'a qt_address \<Rightarrow> 'a address_candidate list \<Rightarrow> bool" where
  "candidates_ok qa cs \<longleftrightarrow>
     distinct (map (candidate_key qa) cs) \<and> list_all (\<lambda>k. is_usable_address qa (ac_address k)) cs"

definition provider_ok :: "'a qt_address \<Rightarrow> 'a provider \<Rightarrow> bool" where
  "provider_ok qa p \<longleftrightarrow> (\<forall>st. pv_resolution p = Some st \<longrightarrow> candidates_ok qa (rs_priority st))"

lemma append_candidate_ok:
  "candidates_ok qa cs \<Longrightarrow> seen = candidate_key qa ` set cs \<Longrightarrow> append_candidate qa k (cs, seen) = (cs', seen') \<Longrightarrow>
   candidates_ok qa cs' \<and> seen' = candidate_key qa ` set cs'"
  by (auto simp: append_candidate_def candidates_ok_def split: if_splits)

lemma append_candidates_ok:
  "candidates_ok qa cs \<Longrightarrow> seen = candidate_key qa ` set cs \<Longrightarrow> fold (append_candidate qa) ks (cs, seen) = (cs', seen') \<Longrightarrow>
   candidates_ok qa cs' \<and> seen' = candidate_key qa ` set cs'"
proof (induction ks arbitrary: cs seen)
  case (Cons k ks)
  obtain cs1 seen1 where k: "append_candidate qa k (cs, seen) = (cs1, seen1)" by fastforce
  show ?case using append_candidate_ok [OF Cons.prems(1,2) k] Cons.IH [of cs1 seen1] Cons.prems(3) k by simp
qed simp

lemma fold_comp_map: "fold (f \<circ> g) xs = fold f (map g xs)"
  by (induction xs) auto

lemma manual_entries_priority:
  "manual_entries qa i ms (st, ps) = (st', ps') \<Longrightarrow> rs_priority st' = rs_priority st"
proof (induction ms arbitrary: i st ps)
  case (Cons m ms)
  then show ?case by (fastforce split: option.splits)
qed simp

lemma resolve_ok: "provider_ok qa (resolve_candidates qa q p)"
proof (cases "cq_input_port q = 0 \<or> cq_file_port q = 0")
  case True
  then show ?thesis by (simp add: resolve_candidates_def provider_ok_def Let_def)
next
  case False
  define candidate :: "candidate_source \<Rightarrow> 'a \<Rightarrow> 'a address_candidate" where
    "candidate = (\<lambda>source a. \<lparr>ac_address = a, ac_input_port = cq_input_port q, ac_file_port = cq_file_port q,
       ac_source = source, ac_origin_host = []\<rparr>)"
  obtain r1 s1 where r: "fold (append_candidate qa \<circ> candidate ACS_RecentSuccessful) (cq_recent q) ([], {}) = (r1, s1)"
    by fastforce
  obtain r2 s2 where r2: "(if cq_enabled q then fold (append_candidate qa \<circ> candidate ACS_Discovered) (cq_discovered q) (r1, s1)
      else (r1, s1)) = (r2, s2)" by fastforce
  have "candidates_ok qa r1 \<and> s1 = candidate_key qa ` set r1"
    by (rule append_candidates_ok [OF _ _ r [unfolded fold_comp_map]]) (simp_all add: candidates_ok_def)
  then have r2_ok: "candidates_ok qa r2"
    using append_candidates_ok [of qa r1 s1] r2 by (auto simp: fold_comp_map split: if_splits)
  obtain st ps where st: "manual_entries qa 0 (cq_manual_addresses q)
      (\<lparr>rs_priority = r2, rs_manual = replicate (length (cq_manual_addresses q)) [],
        rs_unresolved = replicate (length (cq_manual_addresses q)) [], rs_pending_hosts = 0, rs_scheduled = False\<rparr>, []) = (st, ps)"
    by fastforce
  have "rs_priority st = r2" using manual_entries_priority [OF st] by simp
  then show ?thesis
    using False r r2 st r2_ok unfolding resolve_candidates_def candidate_def [symmetric]
    by (auto simp: Let_def provider_ok_def schedule_completion_def split: if_splits)
qed

lemma finish_host_ok: "provider_ok qa p \<Longrightarrow> provider_ok qa (finish_host qa g i m as p)"
  by (auto simp: provider_ok_def finish_host_def schedule_completion_def Let_def split: option.splits)

lemma completion_ok: "provider_ok qa p \<Longrightarrow> complete_resolution qa g p = Some cs \<Longrightarrow> candidates_ok qa cs"
proof -
  assume p: "provider_ok qa p" and c: "complete_resolution qa g p = Some cs"
  then obtain st where st: "pv_resolution p = Some st"
    "cs = fst (fold (append_candidate qa) (concat (rs_manual st)) (rs_priority st, candidate_key qa ` set (rs_priority st)))"
    by (auto simp: complete_resolution_def split: if_splits)
  obtain cs' seen where f: "fold (append_candidate qa) (concat (rs_manual st)) (rs_priority st, candidate_key qa ` set (rs_priority st)) = (cs', seen)"
    by fastforce
  show "candidates_ok qa cs"
    using append_candidates_ok [OF _ refl f] p st f by (simp add: provider_ok_def)
qed

lemma other_provider:
  "schedule_retry g c = Some d \<Longrightarrow> rc_provider d = rc_provider c"
  "try_next_candidate g c = Some d \<Longrightarrow> rc_provider d = rc_provider c"
  "candidates_ready cs c = Some d \<Longrightarrow> rc_provider d = rc_provider c"
  "resolution_failed c = Some d \<Longrightarrow> rc_provider d = rc_provider c"
  "candidate_finished qr qa envs g k r c = Some d \<Longrightarrow> rc_provider d = rc_provider c"
proof -
  have retry: "schedule_retry g c = Some d \<Longrightarrow> rc_provider d = rc_provider c" for g and c d :: "'a reconnect"
    by (auto simp: schedule_retry_def emit_signal_def Let_def split: if_splits option.splits)
  have attempt: "try_next_candidate g c = Some d \<Longrightarrow> rc_provider d = rc_provider c" for g and c d :: "'a reconnect"
    using retry by (auto simp: try_next_candidate_def emit_signal_def Let_def split: if_splits option.splits)
  have remember: "rc_provider (remember_successful_address qr qa envs device k c) = rc_provider c" for device and c :: "'a reconnect"
    by (auto simp: remember_successful_address_def emit_signal_def Let_def split: option.split prod.split bool.split)
  show "schedule_retry g c = Some d \<Longrightarrow> rc_provider d = rc_provider c" by (rule retry)
  show "try_next_candidate g c = Some d \<Longrightarrow> rc_provider d = rc_provider c" by (rule attempt)
  show "candidates_ready cs c = Some d \<Longrightarrow> rc_provider d = rc_provider c"
    by (auto simp: candidates_ready_def Let_def dest: retry attempt split: if_splits)
  show "resolution_failed c = Some d \<Longrightarrow> rc_provider d = rc_provider c"
    by (auto simp: resolution_failed_def dest: retry split: if_splits)
  show "candidate_finished qr qa envs g k r c = Some d \<Longrightarrow> rc_provider d = rc_provider c"
    by (auto simp: candidate_finished_def emit_signal_def Let_def remember dest: attempt split: if_splits option.splits)
qed

lemma begin_round_ok: "provider_ok qa (rc_provider c) \<Longrightarrow> begin_round qa c = Some d \<Longrightarrow> provider_ok qa (rc_provider d)"
  by (auto simp: begin_round_def Let_def emit_signal_def resolve_ok split: option.splits if_splits)

lemma reconnect_step_provider:
  "provider_ok qa (rc_provider c) \<Longrightarrow> reconnect_step qr qa e c = Some d \<Longrightarrow> provider_ok qa (rc_provider d)"
  by (cases e) (auto simp: finish_host_ok start_reconnect_def network_available_def stop_reconnect_def retry_timer_def
      dest: begin_round_ok [rotated] other_provider(3-5) split: if_splits option.splits)

interpretation provider: partial_machine "reconnect_step qr qa" "\<lambda>c. provider_ok qa (rc_provider c)" for qr qa
  by unfold_locales (rule reconnect_step_provider)

text \<open>One round: the first candidate is dialled when the addresses are known, the next one when one fails.\<close>

definition retry_attempt :: "'a reconnect \<Rightarrow> int" where
  "retry_attempt c = (if rc_attempt c < ro_max_delay (rc_options c) then rc_attempt c + 1 else rc_attempt c)"

definition retry_delay :: "'a reconnect \<Rightarrow> int" where
  "retry_delay c = min (ro_initial_delay (rc_options c) * retry_attempt c) (ro_max_delay (rc_options c))"

definition trying :: "uuid \<Rightarrow> u64 \<Rightarrow> 'a reconnect \<Rightarrow> bool" where
  "trying device g c \<longleftrightarrow>
     rc_has_request c \<and> (\<exists>q. rc_request c = Some q \<and> rq_device_id q = device) \<and> rc_generation c = g \<and>
     verify_trusted_device device c = PPE_None"

lemma retry_now:
  "trying device g c \<Longrightarrow> schedule_retry g c = Some (c\<lparr>rc_attempt := retry_attempt c,
     rc_signals := rc_signals c @ [Sig_RoundFailed device, Sig_RetryScheduled device (retry_delay c)],
     rc_timers := rc_timers c @ [(retry_delay c, g)]\<rparr>)"
  by (auto simp: trying_def schedule_retry_def emit_signal_def retry_attempt_def retry_delay_def Let_def)

lemma try_now:
  "trying device g c \<Longrightarrow> try_next_candidate g c =
     (if rc_next c \<ge> length (rc_candidates c) then schedule_retry g c
      else Some (c\<lparr>rc_next := Suc (rc_next c), rc_signals := rc_signals c @ [Sig_Connecting device (rc_candidates c ! rc_next c)],
             rc_calls := rc_calls c @ [(g, rc_candidates c ! rc_next c)]\<rparr>))"
  by (auto simp: trying_def try_next_candidate_def emit_signal_def Let_def)

lemma failing_round:
  assumes "cr_error r = ACE_NetworkError"
  shows "trying device g c \<Longrightarrow> rc_candidates c = before @ ks \<Longrightarrow> rc_next c = length before \<Longrightarrow>
    \<exists>d. Option.bind (try_next_candidate g c) (run_option (reconnect_step qr qa) (map (\<lambda>k. RE_Finished g k r envs) ks)) = Some d \<and>
      rc_signals d = rc_signals c @ map (Sig_Connecting device) ks @
        [Sig_RoundFailed device, Sig_RetryScheduled device (retry_delay c)] \<and>
      rc_timers d = rc_timers c @ [(retry_delay c, g)]"
proof (induction ks arbitrary: c before)
  case Nil
  then show ?case by (simp add: try_now retry_now)
next
  case (Cons k ks)
  let ?c = "c\<lparr>rc_next := Suc (rc_next c), rc_signals := rc_signals c @ [Sig_Connecting device k], rc_calls := rc_calls c @ [(g, k)]\<rparr>"
  have first: "try_next_candidate g c = Some ?c" using Cons.prems by (simp add: try_now)
  have c: "trying device g ?c" "rc_candidates ?c = (before @ [k]) @ ks" "rc_next ?c = length (before @ [k])"
    "retry_delay ?c = retry_delay c"
    using Cons.prems by (simp_all add: trying_def verify_trusted_device_def retry_delay_def retry_attempt_def)
  have step: "reconnect_step qr qa (RE_Finished g k r envs) ?c = try_next_candidate g ?c"
    using c(1) assms by (auto simp: candidate_finished_def trying_def Let_def)
  show ?case using Cons.IH [OF c(1-3)] c(4) first step by simp
qed


definition sample_address :: "nat qt_address" where
  "sample_address = \<lparr>qa_parse = (\<lambda>s. None), qa_text = (\<lambda>a. [word_of_nat a]), qa_null = (\<lambda>a. a = 0),
     qa_multicast = (\<lambda>a. False), qa_broadcast = (\<lambda>a. False), qa_any = (\<lambda>a. False), qa_unknown = (\<lambda>a. False),
     qa_ipv4 = (\<lambda>a. True), qa_trimmed = id, qa_to_ace = (\<lambda>s. []), qa_key = (\<lambda>s i f. s @ [i, f])\<rparr>"

definition sample_request :: "nat reconnect_request" where
  "sample_request = \<lparr>rq_device_id = td_device_id sample_device, rq_discovered = [7, 0, 8], rq_enabled = True,
     rq_manual_addresses = [], rq_input_port = 1, rq_file_port = 2\<rparr>"

definition sample_options :: reconnect_options where
  "sample_options = \<lparr>ro_max_candidates = 16, ro_max_remembered = 8, ro_initial_delay = 1000, ro_max_delay = 10000\<rparr>"

definition sample_candidate :: "nat \<Rightarrow> nat address_candidate" where
  "sample_candidate a = \<lparr>ac_address = a, ac_input_port = 1, ac_file_port = 2, ac_source = ACS_Discovered, ac_origin_host = []\<rparr>"

abbreviation sample_reconnect :: "nat reconnect_event \<Rightarrow> nat reconnect \<Rightarrow> nat reconnect option" where
  "sample_reconnect \<equiv> reconnect_step (sample_layers JNull) sample_address"

abbreviation fresh_reconnect :: "nat reconnect" where
  "fresh_reconnect \<equiv> new_reconnect sample_options sample_trust_store Map.empty"

lemmas reconnect_evaluation = sample_address_def sample_request_def sample_options_def sample_candidate_def
  start_reconnect_def begin_round_def verify_trusted_device_def new_reconnect_def new_provider_def normal_options_def
  resolve_candidates_def append_candidate_def is_usable_address_def candidate_key_def schedule_completion_def
  complete_resolution_def sample_trust_store_def sample_device_def store_find_def map_filter_simps

lemma sample_round_started:
  obtains c where "run_option sample_reconnect [RE_Start sample_request] fresh_reconnect = Some c"
    "rc_waiting c" "trying (td_device_id sample_device) 1 c" "1 \<in> set (pv_completions (rc_provider c))"
    "complete_resolution sample_address 1 (rc_provider c) = Some (map sample_candidate [7, 8])"
    "rc_signals c = []" "ro_max_candidates (rc_options c) = 16" "retry_delay c = 1000"
  by (simp add: reconnect_evaluation trying_def retry_delay_def retry_attempt_def Let_def)



end
