(* ===== verification/Cbor.thy ===== *)
theory Cbor
  imports TransferTypes
begin

text \<open>
  The CBOR layer under every metadata codec. Values and maps are those of \<open>QCborValue\<close> and
  \<open>QCborMap\<close>; the byte encoding itself (\<open>toCbor\<close>, \<open>fromCbor\<close>) is Qt's and an argument of the
  model. The helpers \<open>key\<close>, \<open>valueFor\<close>, \<open>hasExactKeys\<close>, \<open>readUuid\<close>, \<open>readUnsigned\<close>,
  \<open>insertUuid\<close> and \<open>insertUnsigned\<close> are repeated in every codec source; they are defined once
  here. The locale \<open>cbor_codec\<close> is the contract between a codec and the layers above it.
\<close>

section \<open>Values\<close>

text \<open>Integers are the 64 bits of \<open>qint64\<close>; \<open>COther\<close> stands for tags, floats and null.\<close>

datatype cbor =
    CInt u64
  | CBytes bytes
  | CString qstring
  | CBool bool
  | CArray "cbor list"
  | CMap "(cbor \<times> cbor) list"
  | CUndefined
  | COther nat

type_synonym cbor_map = "(cbor \<times> cbor) list"

record cbor_parse =
  cp_value :: cbor
  cp_no_error :: bool
  cp_offset :: nat

record qt_cbor =
  qc_to_cbor :: "cbor \<Rightarrow> bytes"
  qc_from_cbor :: "bytes \<Rightarrow> cbor_parse"

text \<open>What Qt documents of the pair: a written map is read back whole.\<close>

definition cbor_reads_back :: "qt_cbor \<Rightarrow> cbor \<Rightarrow> bool" where
  "cbor_reads_back qc v \<longleftrightarrow>
     qc_to_cbor qc v \<noteq> [] \<and>
     qc_from_cbor qc (qc_to_cbor qc v) =
       \<lparr>cp_value = v, cp_no_error = True, cp_offset = length (qc_to_cbor qc v)\<rparr>"

text \<open>The values of \<open>QCborMap\<close>: \<open>insert\<close> replaces or appends, \<open>value\<close> of a missing key is undefined.\<close>

fun cmap_insert :: "u64 \<Rightarrow> cbor \<Rightarrow> cbor_map \<Rightarrow> cbor_map" where
  "cmap_insert k v [] = [(CInt k, v)]"
| "cmap_insert k v ((k', v') # m) =
     (if k' = CInt k then (k', v) # m else (k', v') # cmap_insert k v m)"

definition cmap_value :: "cbor_map \<Rightarrow> u64 \<Rightarrow> cbor" where
  "cmap_value m k = (case map_of m (CInt k) of None \<Rightarrow> CUndefined | Some v \<Rightarrow> v)"

definition cmap_contains :: "cbor_map \<Rightarrow> u64 \<Rightarrow> bool" where
  "cmap_contains m k \<longleftrightarrow> map_of m (CInt k) \<noteq> None"

text \<open>One complete CBOR map, and nothing behind it.\<close>

definition parse_map :: "qt_cbor \<Rightarrow> bytes \<Rightarrow> cbor_map option" where
  "parse_map qc metadata =
     (let parsed = qc_from_cbor qc metadata in
      if metadata = [] \<or> \<not> cp_no_error parsed \<or> cp_offset parsed \<noteq> length metadata then None
      else case cp_value parsed of CMap m \<Rightarrow> Some m | _ \<Rightarrow> None)"

definition has_exact_keys :: "cbor_map \<Rightarrow> u64 list \<Rightarrow> bool" where
  "has_exact_keys m expected \<longleftrightarrow>
     length m = length expected \<and>
     list_all (\<lambda>(k, _). case k of CInt w \<Rightarrow> w \<in> set expected | _ \<Rightarrow> False) m"

section \<open>Fields\<close>

definition kUuidBytes :: nat where "kUuidBytes = 16"

definition uuid_to_bytes :: "uuid \<Rightarrow> bytes" where
  "uuid_to_bytes u = be_encode kUuidBytes (unat u)"

definition uuid_from_bytes :: "bytes \<Rightarrow> uuid option" where
  "uuid_from_bytes bs =
     (if length bs \<noteq> kUuidBytes then None
      else let u = word_of_nat (be_decode bs) in if uuid_null u then None else Some u)"

definition wire_integer :: "u64 \<Rightarrow> bool" where
  "wire_integer v \<longleftrightarrow> v \<le> word_of_nat (2 ^ 63 - 1)"

fun read_uuid :: "cbor \<Rightarrow> uuid option" where
  "read_uuid (CBytes b) = (if length b \<noteq> kUuidBytes then None else uuid_from_bytes b)"
| "read_uuid _ = None"

fun read_unsigned :: "cbor \<Rightarrow> u64 option" where
  "read_unsigned (CInt w) = (if sint w < 0 then None else Some w)"
| "read_unsigned _ = None"

fun read_sha256 :: "cbor \<Rightarrow> bytes option" where
  "read_sha256 (CBytes b) = (if length b \<noteq> kSha256Bytes then None else Some b)"
| "read_sha256 _ = None"

definition insert_uuid :: "u64 \<Rightarrow> uuid \<Rightarrow> cbor_map \<Rightarrow> cbor_map" where
  "insert_uuid k u m = cmap_insert k (CBytes (uuid_to_bytes u)) m"

definition insert_unsigned :: "u64 \<Rightarrow> u64 \<Rightarrow> cbor_map \<Rightarrow> cbor_map" where
  "insert_unsigned k v m = cmap_insert k (CInt v) m"

section \<open>Lemmas on fields\<close>

named_theorems cbor_simps \<open>reading a CBOR map that was just written\<close>

lemma length_uuid_to_bytes [simp]: "length (uuid_to_bytes u) = kUuidBytes"
  by (simp add: uuid_to_bytes_def)

lemma uuid_from_to_bytes: "u \<noteq> 0 \<Longrightarrow> uuid_from_bytes (uuid_to_bytes u) = Some u"
  using unsigned_less [of u, where ?'a = nat]
  by (simp add: uuid_from_bytes_def uuid_to_bytes_def kUuidBytes_def uuid_null_def be_decode_encode)

lemma uuid_from_bytes_Some:
  assumes "uuid_from_bytes bs = Some u"
  shows "u \<noteq> 0" and "uuid_to_bytes u = bs"
proof -
  from assms have len: "length bs = 16" and u: "u = word_of_nat (be_decode bs)"
    by (auto simp: uuid_from_bytes_def kUuidBytes_def Let_def split: if_splits)
  have "be_decode bs < 2 ^ 128"
    using be_decode_bound [of bs] len by simp
  then have "unat u = be_decode bs" by (simp add: u unat_of_nat)
  then show "uuid_to_bytes u = bs"
    using len by (simp add: uuid_to_bytes_def kUuidBytes_def be_encode_decode)
  show "u \<noteq> 0"
    using assms by (auto simp: uuid_from_bytes_def uuid_null_def Let_def split: if_splits)
qed

lemma wire_integer_nat: "wire_integer v \<longleftrightarrow> unat v < 2 ^ 63"
  by (auto simp: wire_integer_def word_le_nat_alt)

lemma sint_negative: "sint (w :: u64) < 0 \<longleftrightarrow> \<not> wire_integer w"
proof -
  have "sint w < 0 \<longleftrightarrow> bit w 63"
    by (simp add: sint_uint signed_take_bit_negative_iff bit_uint_iff)
  also have "bit w 63 \<longleftrightarrow> bit (unat w) 63"
    by (simp add: bit_unsigned_iff)
  also have "\<dots> \<longleftrightarrow> \<not> unat w < 2 ^ 63"
  proof -
    have w: "unat w < 2 ^ 64"
      using unsigned_less [of w, where ?'a = nat] by simp
    then have "unat w div 2 ^ 63 = (if unat w < 2 ^ 63 then 0 else 1)"
      by (auto intro: div_nat_eqI)
    then show ?thesis by (simp add: bit_iff_odd)
  qed
  finally show ?thesis by (simp add: wire_integer_nat)
qed

lemma sint_wire: "wire_integer w \<Longrightarrow> sint w = int (unat w)"
proof -
  assume "wire_integer w"
  then have "uint w < 2 ^ 63"
    by (simp add: wire_integer_nat flip: uint_nat)
      (metis of_nat_less_iff of_nat_numeral of_nat_power uint_nat)
  moreover have "- (2 ^ 63) \<le> uint w"
    by (rule order_trans [of _ 0]) simp_all
  ultimately have "signed_take_bit 63 (uint w) = uint w"
    by (intro signed_take_bit_int_eq_self) simp_all
  then show "sint w = int (unat w)"
    by (simp add: sint_uint)
qed

lemma read_unsigned_CInt [cbor_simps]: "wire_integer w \<Longrightarrow> read_unsigned (CInt w) = Some w"
  by (simp add: sint_negative)

lemma read_unsigned_Some: "read_unsigned v = Some w \<longleftrightarrow> v = CInt w \<and> wire_integer w"
  by (cases v) (auto simp: sint_negative)

lemma read_uuid_Some: "read_uuid v = Some u \<longleftrightarrow> v = CBytes (uuid_to_bytes u) \<and> u \<noteq> 0"
  by (cases v) (auto simp: uuid_from_to_bytes dest: uuid_from_bytes_Some)

lemma read_sha256_Some: "read_sha256 v = Some b \<longleftrightarrow> v = CBytes b \<and> length b = kSha256Bytes"
  by (cases v) auto

lemma parse_map_to_cbor [simp]:
  "cbor_reads_back qc (CMap m) \<Longrightarrow> parse_map qc (qc_to_cbor qc (CMap m)) = Some m"
  by (simp add: cbor_reads_back_def parse_map_def Let_def)

lemma parse_map_Nil [simp]: "parse_map qc [] = None"
  by (simp add: parse_map_def)

lemmas cbor_map_simps = cmap_value_def cmap_contains_def has_exact_keys_def insert_uuid_def
  insert_unsigned_def

section \<open>The codec contract\<close>

text \<open>
  What the layers above a metadata codec rely on: a well-formed message that is written reads
  back as itself under its own message type (\<open>cbor_format\<close>, so writing is injective); for most
  codecs also, whatever is read is a well-formed message of that type that can be written
  (\<open>cbor_codec\<close>, so reading normalizes: a message read survives another round).
\<close>

locale cbor_format =
  fixes to_map :: "'m \<Rightarrow> cbor_map option"
    and from_map :: "'t \<Rightarrow> cbor_map \<Rightarrow> 'e + 'm"
    and kind :: "'m \<Rightarrow> 't"
    and wellformed :: "'m \<Rightarrow> bool"
  assumes from_to: "wellformed m \<Longrightarrow> to_map m = Some f \<Longrightarrow> from_map (kind m) f = Inr m"
begin

lemma to_map_inject:
  assumes "wellformed m" and "wellformed n" and "kind m = kind n"
    and "to_map m = Some f" and "to_map n = Some f"
  shows "m = n"
proof -
  have "(Inr m :: 'e + 'm) = Inr n"
    using from_to [OF assms(1,4)] from_to [OF assms(2,5)] by (simp only: assms(3))
  then show ?thesis by simp
qed

lemma bytes_roundtrip:
  assumes "wellformed m" and "to_map m = Some f" and "cbor_reads_back qc (CMap f)"
  shows "map_option (from_map (kind m)) (parse_map qc (qc_to_cbor qc (CMap f))) = Some (Inr m)"
  using from_to [OF assms(1,2)] assms(3) by simp

end

locale cbor_codec = cbor_format to_map from_map kind wellformed
  for to_map :: "'m \<Rightarrow> cbor_map option"
    and from_map :: "'t \<Rightarrow> cbor_map \<Rightarrow> 'e + 'm"
    and kind :: "'m \<Rightarrow> 't"
    and wellformed :: "'m \<Rightarrow> bool" +
  assumes from_sound: "from_map t f = Inr m \<Longrightarrow> wellformed m \<and> kind m = t \<and> to_map m \<noteq> None"
begin

lemma reread:
  assumes "from_map t f = Inr m"
  obtains g where "to_map m = Some g" and "from_map t g = Inr m"
  using from_sound [OF assms] from_to [of m] that by auto

end

section \<open>Concrete instances\<close>

text \<open>A CBOR library that knows one map, for theorems applied to concrete input.\<close>

definition one_map_cbor :: "cbor \<Rightarrow> qt_cbor" where
  "one_map_cbor v = \<lparr>qc_to_cbor = (\<lambda>_. [1]),
     qc_from_cbor = (\<lambda>_. \<lparr>cp_value = v, cp_no_error = True, cp_offset = 1\<rparr>)\<rparr>"

lemma one_map_reads_back: "cbor_reads_back (one_map_cbor v) v"
  by (simp add: cbor_reads_back_def one_map_cbor_def)

text \<open>A CBOR library that knows a table of values: each is written as its index.\<close>

definition table_cbor :: "cbor list \<Rightarrow> qt_cbor" where
  "table_cbor vs = \<lparr>qc_to_cbor = (\<lambda>v. [word_of_nat (length (takeWhile (\<lambda>x. x \<noteq> v) vs))]),
     qc_from_cbor = (\<lambda>bs. \<lparr>cp_value = vs ! unat (hd bs), cp_no_error = True, cp_offset = 1\<rparr>)\<rparr>"

lemma table_reads_back:
  assumes "v \<in> set vs" and "length vs < 256"
  shows "cbor_reads_back (table_cbor vs) v"
proof -
  let ?i = "length (takeWhile (\<lambda>x. x \<noteq> v) vs)"
  have lt: "?i < length vs"
    using assms(1) by (metis (mono_tags, lifting) length_takeWhile_le le_neq_implies_less
        takeWhile_eq_all_conv takeWhile_eq_take take_all_iff order_refl)
  then have "vs ! ?i = v"
    by (metis (mono_tags, lifting) nth_length_takeWhile)
  moreover have "unat (word_of_nat ?i :: byte) = ?i"
    using lt assms(2) by (simp add: unat_of_nat)
  ultimately show ?thesis by (simp add: cbor_reads_back_def table_cbor_def)
qed

end
