(* ===== verification/FileMessages.thy ===== *)
theory FileMessages
  imports Cbor
begin

text \<open>
  \<open>FileMessageCodec\<close>: the metadata of the five file-stream messages. \<open>file_message_map\<close> is the map
  \<open>encode\<close> fills after validation (\<open>None\<close> where \<open>encode\<close> returns an empty array),
  \<open>file_message_of_map\<close> what \<open>decode\<close> does with a parsed map; \<open>encode_file_message\<close> and
  \<open>decode_file_message\<close> add the byte layer.
\<close>

section \<open>Messages\<close>

record file_begin_message =
  fb_transfer_id :: uuid
  fb_file_id :: uuid
  fb_size :: u64
  fb_start_offset :: u64
  fb_chunk_bytes :: u32
  fb_expected_sha256 :: bytes

record file_chunk_message =
  fc_transfer_id :: uuid
  fc_file_id :: uuid
  fc_offset :: u64
  fc_sequence :: u64

record file_checkpoint_message =
  fk_transfer_id :: uuid
  fk_file_id :: uuid
  fk_durable_offset :: u64

record file_end_message =
  fe_transfer_id :: uuid
  fe_file_id :: uuid
  fe_size :: u64
  fe_sha256 :: bytes

record file_result_message =
  fr_transfer_id :: uuid
  fr_file_id :: uuid
  fr_code :: file_result_code
  fr_diagnostic :: qstring

datatype file_control_message =
    FM_Begin file_begin_message
  | FM_Chunk file_chunk_message
  | FM_Checkpoint file_checkpoint_message
  | FM_End file_end_message
  | FM_Result file_result_message

datatype file_codec_error =
    FCE_UnsupportedMessageType | FCE_MalformedCbor | FCE_InvalidFields | FCE_InvalidTransferId
  | FCE_InvalidFileId | FCE_InvalidInteger | FCE_InvalidChunkSize | FCE_InvalidHash
  | FCE_InvalidResult

fun file_message_type :: "file_control_message \<Rightarrow> message_type" where
  "file_message_type (FM_Begin _) = MT_FileBegin"
| "file_message_type (FM_Chunk _) = MT_FileChunk"
| "file_message_type (FM_Checkpoint _) = MT_FileCheckpoint"
| "file_message_type (FM_End _) = MT_FileEnd"
| "file_message_type (FM_Result _) = MT_FileResult"

text \<open>The number of a \<open>FileResultCode\<close> and the cast back.\<close>

fun result_code_value :: "file_result_code \<Rightarrow> u32" where
  "result_code_value FRC_Ok = 0"
| "result_code_value FRC_HashMismatch = 1"
| "result_code_value FRC_SizeMismatch = 2"
| "result_code_value FRC_SourceChanged = 3"
| "result_code_value FRC_TargetExists = 4"
| "result_code_value FRC_DiskFull = 5"
| "result_code_value FRC_PermissionDenied = 6"
| "result_code_value FRC_PathInvalid = 7"
| "result_code_value FRC_IoError = 8"
| "result_code_value FRC_Cancelled = 9"
| "result_code_value (FRC_Unlisted v) = v"

definition result_code_cast :: "u64 \<Rightarrow> file_result_code" where
  "result_code_cast v =
     (if v = 0 then FRC_Ok else if v = 1 then FRC_HashMismatch
      else if v = 2 then FRC_SizeMismatch else if v = 3 then FRC_SourceChanged
      else if v = 4 then FRC_TargetExists else if v = 5 then FRC_DiskFull
      else if v = 6 then FRC_PermissionDenied else if v = 7 then FRC_PathInvalid
      else if v = 8 then FRC_IoError else if v = 9 then FRC_Cancelled
      else FRC_Unlisted (ucast v))"

fun known_result_code :: "file_result_code \<Rightarrow> bool" where
  "known_result_code (FRC_Unlisted _) = False"
| "known_result_code _ = True"

definition kMaximumChunkBytes :: u32 where
  "kMaximumChunkBytes = 4 * 1024 * 1024"

definition kMaximumDiagnosticUtf8Bytes :: nat where
  "kMaximumDiagnosticUtf8Bytes = 4096"

section \<open>Encoding\<close>

fun validate_file_message :: "qt_text \<Rightarrow> file_control_message \<Rightarrow> bool" where
  "validate_file_message qt (FM_Begin m) =
     (wire_integer (fb_size m) \<and> wire_integer (fb_start_offset m) \<and>
      fb_start_offset m \<le> fb_size m \<and>
      fb_chunk_bytes m \<noteq> 0 \<and> fb_chunk_bytes m \<le> kMaximumChunkBytes \<and>
      length (fb_expected_sha256 m) = kSha256Bytes)"
| "validate_file_message qt (FM_Chunk m) = (wire_integer (fc_offset m) \<and> wire_integer (fc_sequence m))"
| "validate_file_message qt (FM_Checkpoint m) = wire_integer (fk_durable_offset m)"
| "validate_file_message qt (FM_End m) =
     (wire_integer (fe_size m) \<and> length (fe_sha256 m) = kSha256Bytes)"
| "validate_file_message qt (FM_Result m) =
     (known_result_code (fr_code m) \<and>
      (fr_code m = FRC_Ok \<longrightarrow> fr_diagnostic m = []) \<and>
      (fr_code m \<noteq> FRC_Ok \<longrightarrow>
         fr_diagnostic m \<noteq> [] \<and> qt_utf8_size qt (fr_diagnostic m) \<le> kMaximumDiagnosticUtf8Bytes))"

fun file_message_fields :: "file_control_message \<Rightarrow> cbor_map" where
  "file_message_fields (FM_Begin m) =
     cmap_insert 6 (CBytes (fb_expected_sha256 m)) (insert_unsigned 5 (ucast (fb_chunk_bytes m))
       (insert_unsigned 4 (fb_start_offset m) (insert_unsigned 3 (fb_size m)
         (insert_uuid 2 (fb_file_id m) (insert_uuid 1 (fb_transfer_id m) [])))))"
| "file_message_fields (FM_Chunk m) =
     insert_unsigned 4 (fc_sequence m) (insert_unsigned 3 (fc_offset m)
       (insert_uuid 2 (fc_file_id m) (insert_uuid 1 (fc_transfer_id m) [])))"
| "file_message_fields (FM_Checkpoint m) =
     insert_unsigned 3 (fk_durable_offset m)
       (insert_uuid 2 (fk_file_id m) (insert_uuid 1 (fk_transfer_id m) []))"
| "file_message_fields (FM_End m) =
     cmap_insert 4 (CBytes (fe_sha256 m)) (insert_unsigned 3 (fe_size m)
       (insert_uuid 2 (fe_file_id m) (insert_uuid 1 (fe_transfer_id m) [])))"
| "file_message_fields (FM_Result m) =
     (let base = insert_unsigned 3 (ucast (result_code_value (fr_code m)))
            (insert_uuid 2 (fr_file_id m) (insert_uuid 1 (fr_transfer_id m) []))
      in if fr_diagnostic m \<noteq> [] then cmap_insert 4 (CString (fr_diagnostic m)) base else base)"

definition file_message_map :: "qt_text \<Rightarrow> file_control_message \<Rightarrow> cbor_map option" where
  "file_message_map qt m =
     (if validate_file_message qt m then Some (file_message_fields m) else None)"

definition encode_file_message :: "qt_text \<Rightarrow> qt_cbor \<Rightarrow> file_control_message \<Rightarrow> bytes" where
  "encode_file_message qt qc m =
     (case file_message_map qt m of None \<Rightarrow> [] | Some f \<Rightarrow> qc_to_cbor qc (CMap f))"

section \<open>Decoding\<close>

definition file_message_keys :: "message_type \<Rightarrow> cbor_map \<Rightarrow> u64 list" where
  "file_message_keys t m =
     [1, 2] @
     (if t = MT_FileBegin then [3, 4, 5, 6]
      else if t = MT_FileChunk \<or> t = MT_FileEnd then [3, 4]
      else if t = MT_FileCheckpoint then [3]
      else if t = MT_FileResult then (if cmap_contains m 4 then [3, 4] else [3])
      else [])"

definition decode_file_begin :: "uuid \<Rightarrow> uuid \<Rightarrow> cbor_map \<Rightarrow> file_codec_error + file_control_message" where
  "decode_file_begin tid fid m =
     (case (read_unsigned (cmap_value m 3), read_unsigned (cmap_value m 4)) of
        (Some sz, Some offset) \<Rightarrow>
          if offset > sz then Inl FCE_InvalidInteger
          else (case read_unsigned (cmap_value m 5) of
            None \<Rightarrow> Inl FCE_InvalidChunkSize
          | Some chunk \<Rightarrow>
              if chunk = 0 \<or> chunk > ucast kMaximumChunkBytes then Inl FCE_InvalidChunkSize
              else (case read_sha256 (cmap_value m 6) of
                None \<Rightarrow> Inl FCE_InvalidHash
              | Some hash \<Rightarrow>
                  Inr (FM_Begin \<lparr>fb_transfer_id = tid, fb_file_id = fid, fb_size = sz,
                    fb_start_offset = offset, fb_chunk_bytes = ucast chunk,
                    fb_expected_sha256 = hash\<rparr>)))
      | _ \<Rightarrow> Inl FCE_InvalidInteger)"

definition decode_file_chunk :: "uuid \<Rightarrow> uuid \<Rightarrow> cbor_map \<Rightarrow> file_codec_error + file_control_message" where
  "decode_file_chunk tid fid m =
     (case (read_unsigned (cmap_value m 3), read_unsigned (cmap_value m 4)) of
        (Some offset, Some sequence) \<Rightarrow>
          Inr (FM_Chunk \<lparr>fc_transfer_id = tid, fc_file_id = fid, fc_offset = offset,
            fc_sequence = sequence\<rparr>)
      | _ \<Rightarrow> Inl FCE_InvalidInteger)"

definition decode_file_checkpoint :: "uuid \<Rightarrow> uuid \<Rightarrow> cbor_map \<Rightarrow> file_codec_error + file_control_message" where
  "decode_file_checkpoint tid fid m =
     (case read_unsigned (cmap_value m 3) of
        Some offset \<Rightarrow> Inr (FM_Checkpoint \<lparr>fk_transfer_id = tid, fk_file_id = fid,
          fk_durable_offset = offset\<rparr>)
      | None \<Rightarrow> Inl FCE_InvalidInteger)"

definition decode_file_end :: "uuid \<Rightarrow> uuid \<Rightarrow> cbor_map \<Rightarrow> file_codec_error + file_control_message" where
  "decode_file_end tid fid m =
     (case read_unsigned (cmap_value m 3) of
        None \<Rightarrow> Inl FCE_InvalidInteger
      | Some sz \<Rightarrow>
          (case read_sha256 (cmap_value m 4) of
             None \<Rightarrow> Inl FCE_InvalidHash
           | Some hash \<Rightarrow> Inr (FM_End \<lparr>fe_transfer_id = tid, fe_file_id = fid, fe_size = sz,
               fe_sha256 = hash\<rparr>)))"

definition decode_result_diagnostic :: "qt_text \<Rightarrow> cbor_map \<Rightarrow> qstring option" where
  "decode_result_diagnostic qt m =
     (if cmap_contains m 4 then
        (case cmap_value m 4 of
           CString s \<Rightarrow>
             if s = [] \<or> qt_utf8_size qt s > kMaximumDiagnosticUtf8Bytes then None else Some s
         | _ \<Rightarrow> None)
      else Some [])"

definition decode_file_result ::
  "qt_text \<Rightarrow> uuid \<Rightarrow> uuid \<Rightarrow> cbor_map \<Rightarrow> file_codec_error + file_control_message" where
  "decode_file_result qt tid fid m =
     (case read_unsigned (cmap_value m 3) of
        None \<Rightarrow> Inl FCE_InvalidResult
      | Some code \<Rightarrow>
          if code > ucast (result_code_value FRC_Cancelled) \<or> \<not> known_result_code (result_code_cast code)
          then Inl FCE_InvalidResult
          else (case decode_result_diagnostic qt m of
            None \<Rightarrow> Inl FCE_InvalidResult
          | Some diagnostic \<Rightarrow>
              if (result_code_cast code = FRC_Ok) \<noteq> (diagnostic = []) then Inl FCE_InvalidResult
              else Inr (FM_Result \<lparr>fr_transfer_id = tid, fr_file_id = fid,
                     fr_code = result_code_cast code, fr_diagnostic = diagnostic\<rparr>)))"

definition is_file_message_type :: "message_type \<Rightarrow> bool" where
  "is_file_message_type t \<longleftrightarrow>
     t = MT_FileBegin \<or> t = MT_FileChunk \<or> t = MT_FileCheckpoint \<or> t = MT_FileEnd \<or> t = MT_FileResult"

definition file_message_of_map ::
  "qt_text \<Rightarrow> message_type \<Rightarrow> cbor_map \<Rightarrow> file_codec_error + file_control_message" where
  "file_message_of_map qt t m =
     (if \<not> is_file_message_type t then Inl FCE_UnsupportedMessageType
      else if \<not> has_exact_keys m (file_message_keys t m) then Inl FCE_InvalidFields
      else case (read_uuid (cmap_value m 1), read_uuid (cmap_value m 2)) of
        (Some tid, Some fid) \<Rightarrow>
          (if t = MT_FileBegin then decode_file_begin tid fid m
           else if t = MT_FileChunk then decode_file_chunk tid fid m
           else if t = MT_FileCheckpoint then decode_file_checkpoint tid fid m
           else if t = MT_FileEnd then decode_file_end tid fid m
           else decode_file_result qt tid fid m)
      | (None, _) \<Rightarrow> Inl FCE_InvalidTransferId
      | (Some _, None) \<Rightarrow> Inl FCE_InvalidFileId)"

definition decode_file_message ::
  "qt_text \<Rightarrow> qt_cbor \<Rightarrow> message_type \<Rightarrow> bytes \<Rightarrow> file_codec_error + file_control_message" where
  "decode_file_message qt qc t metadata =
     (if \<not> is_file_message_type t then Inl FCE_UnsupportedMessageType
      else case parse_map qc metadata of
        None \<Rightarrow> Inl FCE_MalformedCbor
      | Some m \<Rightarrow> file_message_of_map qt t m)"

section \<open>Round trip\<close>

text \<open>The identifiers a message carries are never null: no constructor of the id classes allows it.\<close>

fun file_message_ids :: "file_control_message \<Rightarrow> uuid \<times> uuid" where
  "file_message_ids (FM_Begin m) = (fb_transfer_id m, fb_file_id m)"
| "file_message_ids (FM_Chunk m) = (fc_transfer_id m, fc_file_id m)"
| "file_message_ids (FM_Checkpoint m) = (fk_transfer_id m, fk_file_id m)"
| "file_message_ids (FM_End m) = (fe_transfer_id m, fe_file_id m)"
| "file_message_ids (FM_Result m) = (fr_transfer_id m, fr_file_id m)"

definition file_message_ok :: "file_control_message \<Rightarrow> bool" where
  "file_message_ok m \<longleftrightarrow> fst (file_message_ids m) \<noteq> 0 \<and> snd (file_message_ids m) \<noteq> 0"

lemma result_code_cast_value:
  "known_result_code c \<Longrightarrow> result_code_cast (ucast (result_code_value c)) = c"
  by (cases c) (simp_all add: result_code_cast_def)

lemma result_code_bound:
  "known_result_code c \<Longrightarrow> (ucast (result_code_value c) :: u64) \<le> ucast (result_code_value FRC_Cancelled)"
  by (cases c) simp_all

lemma wire_integer_u32 [simp]: "wire_integer (ucast (x :: u32))"
  using unsigned_less [of x, where ?'a = nat] by (simp add: wire_integer_nat)

lemma wire_integer_zero [simp]: "wire_integer 0"
  by (simp add: wire_integer_nat)

lemma ucast_32_64_32 [simp]: "ucast (ucast (x :: u32) :: u64) = x"
  by (simp add: unsigned_ucast_eq take_bit_word_eq_self)

lemma ucast_zero_iff [simp]: "(ucast (x :: u32) :: u64) = 0 \<longleftrightarrow> x = 0"
  by (metis unat_ucast_32_64 unat_eq_zero)

lemma ucast_le_iff [simp]: "(ucast (x :: u32) :: u64) \<le> ucast y \<longleftrightarrow> x \<le> y"
  by (simp add: word_le_nat_alt)

lemmas file_codec_simps = cbor_map_simps file_message_keys_def is_file_message_type_def
  read_unsigned_Some read_uuid_Some read_sha256_Some not_less

lemma file_message_from_to:
  assumes "file_message_ok m" and "file_message_map qt m = Some f"
  shows "file_message_of_map qt (file_message_type m) f = Inr m"
proof -
  from assms(2) have v: "validate_file_message qt m" and f: "f = file_message_fields m"
    by (auto simp: file_message_map_def split: if_splits)
  have u: "read_uuid (CBytes (uuid_to_bytes u)) = Some u" if "u \<noteq> 0" for u
    using that by (simp only: read_uuid_Some simp_thms)
  show ?thesis
  proof (cases m)
    case (FM_Result r)
    show ?thesis
    proof (cases "fr_code r = FRC_Ok")
      case True
      then show ?thesis
        using v FM_Result assms(1) result_code_cast_value [of "fr_code r"] result_code_bound [of "fr_code r"]
        by (simp add: f file_message_of_map_def file_codec_simps file_message_ok_def u
            decode_file_result_def decode_result_diagnostic_def read_unsigned_CInt Let_def
            del: read_uuid.simps read_unsigned.simps)
    next
      case False
      then show ?thesis
        using v FM_Result assms(1) result_code_cast_value [of "fr_code r"] result_code_bound [of "fr_code r"]
        by (simp add: f file_message_of_map_def file_codec_simps file_message_ok_def u
            decode_file_result_def decode_result_diagnostic_def read_unsigned_CInt Let_def
            del: read_uuid.simps read_unsigned.simps)
    qed
  next
    case (FM_Begin b)
    then show ?thesis
      using v assms(1)
      by (simp add: f file_message_of_map_def file_codec_simps file_message_ok_def u
          decode_file_begin_def read_unsigned_CInt
          del: read_uuid.simps read_unsigned.simps)
  next
    case (FM_Chunk c)
    then show ?thesis
      using v assms(1)
      by (simp add: f file_message_of_map_def file_codec_simps file_message_ok_def u
          decode_file_chunk_def read_unsigned_CInt del: read_uuid.simps read_unsigned.simps)
  next
    case (FM_Checkpoint c)
    then show ?thesis
      using v assms(1)
      by (simp add: f file_message_of_map_def file_codec_simps file_message_ok_def u
          decode_file_checkpoint_def read_unsigned_CInt del: read_uuid.simps read_unsigned.simps)
  next
    case (FM_End e)
    then show ?thesis
      using v assms(1)
      by (simp add: f file_message_of_map_def file_codec_simps file_message_ok_def u
          decode_file_end_def read_unsigned_CInt del: read_uuid.simps read_unsigned.simps)
  qed
qed

lemma chunk_cast:
  assumes "chunk \<noteq> 0" and "chunk \<le> ucast (k :: u32)"
  shows "(ucast (chunk :: u64) :: u32) \<noteq> 0" and "(ucast chunk :: u32) \<le> k"
proof -
  have "unat k < 2 ^ 32"
    using unsigned_less [of k, where ?'a = nat] by simp
  with assms(2) have "unat chunk < 2 ^ 32" by (simp add: word_le_nat_alt)
  then have c: "unat (ucast chunk :: u32) = unat chunk"
    by (simp add: unsigned_ucast_eq take_bit_nat_eq_self_iff)
  show "(ucast chunk :: u32) \<noteq> 0"
    using c assms(1) by (metis unat_0 unat_eq_zero)
  show "(ucast chunk :: u32) \<le> k"
    using c assms(2) by (simp add: word_le_nat_alt)
qed

lemma decode_file_begin_sound:
  "decode_file_begin tid fid m = Inr r \<Longrightarrow> tid \<noteq> 0 \<Longrightarrow> fid \<noteq> 0 \<Longrightarrow>
   file_message_ok r \<and> file_message_type r = MT_FileBegin \<and> validate_file_message qt r"
  by (auto simp: decode_file_begin_def file_message_ok_def read_unsigned_Some read_sha256_Some not_less
      chunk_cast split: option.splits if_splits)

lemma decode_file_chunk_sound:
  "decode_file_chunk tid fid m = Inr r \<Longrightarrow> tid \<noteq> 0 \<Longrightarrow> fid \<noteq> 0 \<Longrightarrow>
   file_message_ok r \<and> file_message_type r = MT_FileChunk \<and> validate_file_message qt r"
  by (auto simp: decode_file_chunk_def file_message_ok_def read_unsigned_Some split: option.splits)

lemma decode_file_checkpoint_sound:
  "decode_file_checkpoint tid fid m = Inr r \<Longrightarrow> tid \<noteq> 0 \<Longrightarrow> fid \<noteq> 0 \<Longrightarrow>
   file_message_ok r \<and> file_message_type r = MT_FileCheckpoint \<and> validate_file_message qt r"
  by (auto simp: decode_file_checkpoint_def file_message_ok_def read_unsigned_Some split: option.splits)

lemma decode_file_end_sound:
  "decode_file_end tid fid m = Inr r \<Longrightarrow> tid \<noteq> 0 \<Longrightarrow> fid \<noteq> 0 \<Longrightarrow>
   file_message_ok r \<and> file_message_type r = MT_FileEnd \<and> validate_file_message qt r"
  by (auto simp: decode_file_end_def file_message_ok_def read_unsigned_Some read_sha256_Some
      split: option.splits)

lemma decode_file_result_sound:
  "decode_file_result qt tid fid m = Inr r \<Longrightarrow> tid \<noteq> 0 \<Longrightarrow> fid \<noteq> 0 \<Longrightarrow>
   file_message_ok r \<and> file_message_type r = MT_FileResult \<and> validate_file_message qt r"
  by (auto simp: decode_file_result_def decode_result_diagnostic_def file_message_ok_def not_less
      simp del: read_unsigned.simps split: option.splits if_splits cbor.splits)

lemma file_message_sound:
  assumes "file_message_of_map qt t f = Inr m"
  shows "file_message_ok m \<and> file_message_type m = t \<and> file_message_map qt m \<noteq> None"
proof -
  from assms obtain tid fid where ids: "tid \<noteq> 0" "fid \<noteq> 0" and t: "is_file_message_type t"
    and out: "(if t = MT_FileBegin then decode_file_begin tid fid f
           else if t = MT_FileChunk then decode_file_chunk tid fid f
           else if t = MT_FileCheckpoint then decode_file_checkpoint tid fid f
           else if t = MT_FileEnd then decode_file_end tid fid f
           else decode_file_result qt tid fid f) = Inr m"
    by (auto simp: file_message_of_map_def read_uuid_Some simp del: read_uuid.simps
        split: if_splits option.splits)
  have "file_message_ok m \<and> file_message_type m = t \<and> validate_file_message qt m"
    using out ids t decode_file_begin_sound decode_file_chunk_sound decode_file_checkpoint_sound
      decode_file_end_sound decode_file_result_sound
    unfolding is_file_message_type_def by (metis message_type.distinct)
  then show ?thesis by (simp add: file_message_map_def)
qed

interpretation file_codec: cbor_codec "file_message_map qt" "file_message_of_map qt" file_message_type
    file_message_ok for qt
  by unfold_locales (auto intro: file_message_from_to dest: file_message_sound)

section \<open>Properties\<close>

text \<open>C31. File-stream metadata round-trips and is validated at both ends: a message with non-null ids that the
  codec agrees to encode decodes, under its own message type, to itself, provided Qt reads back
  the map it wrote; and whatever the decoder accepts satisfies the validation of the encoder,
  carries non-null ids and has the announced type.\<close>

theorem file_message_roundtrip:
  assumes "file_message_ok m" and "validate_file_message qt m"
    and "cbor_reads_back qc (CMap (file_message_fields m))"
  shows "decode_file_message qt qc (file_message_type m) (encode_file_message qt qc m) = Inr m \<and>
    (\<forall>t bs n. decode_file_message qt qc t bs = Inr n \<longrightarrow>
       validate_file_message qt n \<and> file_message_ok n \<and> file_message_type n = t)"
proof (intro conjI allI impI)
  have f: "file_message_map qt m = Some (file_message_fields m)"
    using assms(2) by (simp add: file_message_map_def)
  have "is_file_message_type (file_message_type m)"
    by (cases m) (simp_all add: is_file_message_type_def)
  then show "decode_file_message qt qc (file_message_type m) (encode_file_message qt qc m) = Inr m"
    using file_codec.from_to [OF assms(1) f] assms(3)
    by (simp add: decode_file_message_def encode_file_message_def f)
next
  fix t bs n
  assume "decode_file_message qt qc t bs = Inr n"
  then obtain f where "file_message_of_map qt t f = Inr n"
    by (auto simp: decode_file_message_def split: if_splits option.splits)
  from file_codec.from_sound [OF this]
  show "validate_file_message qt n" and "file_message_ok n" and "file_message_type n = t"
    by (auto simp: file_message_map_def split: if_splits)
qed

definition sample_chunk :: file_control_message where
  "sample_chunk = FM_Chunk \<lparr>fc_transfer_id = 5, fc_file_id = 6, fc_offset = 7, fc_sequence = 1\<rparr>"

theorem file_message_roundtrip_witness:
  "decode_file_message ascii_text (one_map_cbor (CMap (file_message_fields sample_chunk))) MT_FileChunk
     (encode_file_message ascii_text (one_map_cbor (CMap (file_message_fields sample_chunk))) sample_chunk) =
   Inr sample_chunk"
  using file_message_roundtrip [of sample_chunk ascii_text, OF _ _ one_map_reads_back]
  by (simp add: sample_chunk_def file_message_ok_def wire_integer_nat)

end
