(* ===== verification/PathPolicy.thy ===== *)
theory PathPolicy
  imports TransferTypes
begin

text \<open>
  \<open>PathPolicy\<close>: the one portable format of protocol paths (relative, slash separated, NFC, valid on
  Windows and macOS), the lexical containment of a received path in its root, and the sender's
  entry policy. Qt's text functions come from \<open>qt_text\<close>; its \<open>QDir\<close> functions, whose results
  depend on the platform, from the record \<open>qt_dir\<close>. A result is an error or the normalized
  path with its collision key.
\<close>

section \<open>Types\<close>

datatype path_error =
    PE_Empty | PE_InvalidUnicodeOrControl | PE_Absolute | PE_InvalidSeparator | PE_EmptyComponent
  | PE_DotComponent | PE_ParentTraversal | PE_ComponentTooLong | PE_PathTooLong | PE_TooDeep
  | PE_InvalidCharacter | PE_WindowsReservedName | PE_WindowsTrailingDotOrSpace
  | PE_RootNotAbsolute | PE_EscapesRoot

record path_limits =
  pl_max_utf8_bytes :: u32
  pl_max_component_utf8_bytes :: u32
  pl_max_depth :: u32

definition default_path_limits :: path_limits where
  "default_path_limits =
     \<lparr>pl_max_utf8_bytes = 4096, pl_max_component_utf8_bytes = 255, pl_max_depth = 128\<rparr>"

record valid_path =
  vp_normalized :: qstring
  vp_collision_key :: qstring

record qt_dir =
  qd_is_absolute_path :: "qstring \<Rightarrow> bool"
  qd_clean_path :: "qstring \<Rightarrow> qstring"
  qd_absolute_file_path :: "qstring \<Rightarrow> qstring \<Rightarrow> qstring"
  qd_from_native_separators :: "qstring \<Rightarrow> qstring"

datatype entry_kind = EK_RegularFile | EK_Directory | EK_SymbolicLink | EK_Special
datatype entry_disposition = ED_Include | ED_Skip

section \<open>Characters\<close>

abbreviation "ch_slash \<equiv> (47 :: u16)"
abbreviation "ch_backslash \<equiv> (92 :: u16)"
abbreviation "ch_colon \<equiv> (58 :: u16)"
abbreviation "ch_dot \<equiv> (46 :: u16)"
abbreviation "ch_space \<equiv> (32 :: u16)"

definition is_high_surrogate :: "u16 \<Rightarrow> bool" where
  "is_high_surrogate c \<longleftrightarrow> 0xD800 \<le> c \<and> c \<le> 0xDBFF"

definition is_low_surrogate :: "u16 \<Rightarrow> bool" where
  "is_low_surrogate c \<longleftrightarrow> 0xDC00 \<le> c \<and> c \<le> 0xDFFF"

definition is_ascii_letter :: "u16 \<Rightarrow> bool" where
  "is_ascii_letter c \<longleftrightarrow> (65 \<le> c \<and> c \<le> 90) \<or> (97 \<le> c \<and> c \<le> 122)"

definition ends_with :: "u16 \<Rightarrow> qstring \<Rightarrow> bool" where
  "ends_with c s \<longleftrightarrow> s \<noteq> [] \<and> last s = c"

definition starts_with :: "qstring \<Rightarrow> qstring \<Rightarrow> bool" where
  "starts_with p s \<longleftrightarrow> take (length p) s = p"

text \<open>\<open>QString::split\<close> with \<open>Qt::KeepEmptyParts\<close>.\<close>

fun split_on :: "u16 \<Rightarrow> qstring \<Rightarrow> qstring list" where
  "split_on c [] = [[]]"
| "split_on c (x # xs) =
     (if x = c then [] # split_on c xs
      else case split_on c xs of [] \<Rightarrow> [[x]] | part # parts \<Rightarrow> (x # part) # parts)"

section \<open>Checks\<close>

fun has_invalid_unicode_or_control :: "qt_text \<Rightarrow> qstring \<Rightarrow> bool" where
  "has_invalid_unicode_or_control qt [] = False"
| "has_invalid_unicode_or_control qt [c] =
     (is_high_surrogate c \<or> is_low_surrogate c \<or> qt_is_control qt c)"
| "has_invalid_unicode_or_control qt (c # d # cs) =
     (if is_high_surrogate c then
        (if \<not> is_low_surrogate d then True else has_invalid_unicode_or_control qt cs)
      else if is_low_surrogate c \<or> qt_is_control qt c then True
      else has_invalid_unicode_or_control qt (d # cs))"

fun has_drive_prefix :: "qstring \<Rightarrow> bool" where
  "has_drive_prefix (c # d # _) = (is_ascii_letter c \<and> d = ch_colon)"
| "has_drive_prefix _ = False"

text \<open>
  The stem is the part before the first dot without trailing dots and spaces, in upper case. The
  numbered devices are \<open>COM\<close> and \<open>LPT\<close> followed by one of \<open>1\<close> to \<open>9\<close> or the superscripts
  U+00B9, U+00B2, U+00B3; as in every PCRE the final \<open>$\<close> also allows one trailing newline.
\<close>

definition is_windows_reserved_name :: "qt_text \<Rightarrow> qstring \<Rightarrow> bool" where
  "is_windows_reserved_name qt component =
     (let stem = takeWhile (\<lambda>c. c \<noteq> ch_dot) component;
          chopped = rev (dropWhile (\<lambda>c. c = ch_dot \<or> c = ch_space) (rev stem));
          upper = qt_to_upper qt chopped;
          name = map ascii_upper (if ends_with 10 upper then butlast upper else upper)
      in upper \<in> {qstr ''CON'', qstr ''PRN'', qstr ''AUX'', qstr ''NUL''} \<or>
         (length name = 4 \<and> take 3 name \<in> {qstr ''COM'', qstr ''LPT''} \<and>
          ((49 \<le> name ! 3 \<and> name ! 3 \<le> 57) \<or> name ! 3 \<in> {0xB9, 0xB2, 0xB3})))"

definition collision_key :: "qt_text \<Rightarrow> qstring \<Rightarrow> qstring" where
  "collision_key qt normalized = qt_nfc qt (qt_case_folded qt normalized)"

definition comparable_local_path :: "qt_text \<Rightarrow> qt_dir \<Rightarrow> qstring \<Rightarrow> qstring" where
  "comparable_local_path qt qd path =
     collision_key qt (qd_from_native_separators qd (qd_clean_path qd path))"

definition windows_invalid_characters :: qstring where
  "windows_invalid_characters = qstr ''<>:'' @ [34] @ qstr ''|?*''"

text \<open>The loop body over one component: the error that ends the loop, if any.\<close>

definition component_error :: "qt_text \<Rightarrow> path_limits \<Rightarrow> qstring \<Rightarrow> path_error option" where
  "component_error qt limits component =
     (if component = [] then Some PE_EmptyComponent
      else if component = qstr ''.'' then Some PE_DotComponent
      else if component = qstr ''..'' then Some PE_ParentTraversal
      else if qt_utf8_size qt component > unat (pl_max_component_utf8_bytes limits)
        then Some PE_ComponentTooLong
      else if has_invalid_unicode_or_control qt component then Some PE_InvalidUnicodeOrControl
      else if list_ex (\<lambda>c. c \<in> set windows_invalid_characters) component
        then Some PE_InvalidCharacter
      else if ends_with ch_dot component \<or> ends_with ch_space component
        then Some PE_WindowsTrailingDotOrSpace
      else if is_windows_reserved_name qt component then Some PE_WindowsReservedName
      else None)"

fun first_component_error ::
  "qt_text \<Rightarrow> path_limits \<Rightarrow> qstring list \<Rightarrow> path_error option" where
  "first_component_error qt limits [] = None"
| "first_component_error qt limits (c # cs) =
     (case component_error qt limits c of
        Some e \<Rightarrow> Some e
      | None \<Rightarrow> first_component_error qt limits cs)"

definition validate_relative ::
  "qt_text \<Rightarrow> qt_dir \<Rightarrow> qstring \<Rightarrow> path_limits \<Rightarrow> path_error + valid_path" where
  "validate_relative qt qd path limits =
     (if path = [] then Inl PE_Empty
      else if starts_with (qstr ''//'') path \<or> starts_with [ch_backslash, ch_backslash] path \<or>
              starts_with [ch_slash] path \<or> qd_is_absolute_path qd path \<or> has_drive_prefix path
        then Inl PE_Absolute
      else if ch_backslash \<in> set path then Inl PE_InvalidSeparator
      else if has_invalid_unicode_or_control qt path then Inl PE_InvalidUnicodeOrControl
      else let normalized = qt_nfc qt path in
        if qt_utf8_size qt normalized > unat (pl_max_utf8_bytes limits) then Inl PE_PathTooLong
        else let components = split_on ch_slash normalized in
          if length components > unat (pl_max_depth limits) then Inl PE_TooDeep
          else case first_component_error qt limits components of
            Some e \<Rightarrow> Inl e
          | None \<Rightarrow> Inr \<lparr>vp_normalized = normalized,
                          vp_collision_key = collision_key qt normalized\<rparr>)"

text \<open>
  \<open>joinLexicallyUnderRoot\<close> also fills \<open>outputAbsolutePath\<close>, which it clears first: the second
  component of the result, empty on every failure.
\<close>

definition join_lexically_under_root ::
  "qt_text \<Rightarrow> qt_dir \<Rightarrow> qstring \<Rightarrow> qstring \<Rightarrow> path_limits \<Rightarrow> (path_error + valid_path) \<times> qstring" where
  "join_lexically_under_root qt qd absolute_root relative_path limits =
     (if \<not> qd_is_absolute_path qd absolute_root then (Inl PE_RootNotAbsolute, [])
      else case validate_relative qt qd relative_path limits of
        Inl e \<Rightarrow> (Inl e, [])
      | Inr validated \<Rightarrow>
          let cleaned_root = qd_clean_path qd absolute_root;
              candidate =
                qd_clean_path qd (qd_absolute_file_path qd cleaned_root (vp_normalized validated));
              comparable_root = comparable_local_path qt qd cleaned_root;
              comparable_candidate = comparable_local_path qt qd candidate;
              root_with_separator =
                (if ends_with ch_slash comparable_root then comparable_root
                 else comparable_root @ [ch_slash])
          in if comparable_candidate \<noteq> comparable_root \<and>
                \<not> starts_with root_with_separator comparable_candidate
             then (Inl PE_EscapesRoot, [])
             else (Inr validated, candidate))"

fun entry_policy :: "entry_kind \<Rightarrow> entry_disposition" where
  "entry_policy EK_RegularFile = ED_Include"
| "entry_policy EK_Directory = ED_Include"
| "entry_policy EK_SymbolicLink = ED_Skip"
| "entry_policy EK_Special = ED_Skip"

section \<open>What a validated path is\<close>

text \<open>
  The meaning of a path on a file system, as a walk from a directory: empty and dot components
  stay, a dot-dot goes up, anything else goes down.
\<close>

fun walk :: "qstring list \<Rightarrow> qstring list \<Rightarrow> qstring list" where
  "walk dir [] = dir"
| "walk dir (c # cs) =
     (if c = [] \<or> c = qstr ''.'' then walk dir cs
      else if c = qstr ''..'' then walk (butlast dir) cs
      else walk (dir @ [c]) cs)"

definition portable_component :: "qt_text \<Rightarrow> path_limits \<Rightarrow> qstring \<Rightarrow> bool" where
  "portable_component qt limits c \<longleftrightarrow>
     c \<noteq> [] \<and> c \<noteq> qstr ''.'' \<and> c \<noteq> qstr ''..'' \<and>
     qt_utf8_size qt c \<le> unat (pl_max_component_utf8_bytes limits) \<and>
     \<not> has_invalid_unicode_or_control qt c \<and>
     set c \<inter> set windows_invalid_characters = {} \<and> last c \<noteq> ch_dot \<and> last c \<noteq> ch_space \<and>
     \<not> is_windows_reserved_name qt c"

lemma split_on_nonempty [simp]: "split_on c xs \<noteq> []"
  by (induction xs) (auto split: list.splits)

lemma component_error_None: "component_error qt limits c = None \<longleftrightarrow> portable_component qt limits c"
  by (auto simp: component_error_def portable_component_def ends_with_def list_ex_iff)

lemma first_component_error_None:
  "first_component_error qt limits cs = None \<longleftrightarrow> (\<forall>c \<in> set cs. portable_component qt limits c)"
  by (induction cs) (auto simp: component_error_None [symmetric] split: option.splits)

lemma walk_portable:
  "\<forall>c \<in> set cs. portable_component qt limits c \<Longrightarrow> walk dir cs = dir @ cs"
  by (induction cs arbitrary: dir) (auto simp: portable_component_def)

lemma validate_relative_Inr:
  "validate_relative qt qd path limits = Inr v \<longleftrightarrow>
     path \<noteq> [] \<and> \<not> starts_with [ch_slash] path \<and> \<not> qd_is_absolute_path qd path \<and>
     \<not> has_drive_prefix path \<and> ch_backslash \<notin> set path \<and>
     \<not> has_invalid_unicode_or_control qt path \<and>
     vp_normalized v = qt_nfc qt path \<and> vp_collision_key v = collision_key qt (qt_nfc qt path) \<and>
     qt_utf8_size qt (qt_nfc qt path) \<le> unat (pl_max_utf8_bytes limits) \<and>
     length (split_on ch_slash (qt_nfc qt path)) \<le> unat (pl_max_depth limits) \<and>
     (\<forall>c \<in> set (split_on ch_slash (qt_nfc qt path)). portable_component qt limits c)"
proof -
  have dbl: "starts_with (qstr ''//'') path \<Longrightarrow> starts_with [ch_slash] path"
    "starts_with [ch_backslash, ch_backslash] path \<Longrightarrow> ch_backslash \<in> set path"
    by (cases path; auto simp: starts_with_def qstr_def)+
  have eq: "Inr \<lparr>vp_normalized = a, vp_collision_key = b\<rparr> = Inr v \<longleftrightarrow>
      vp_normalized v = a \<and> vp_collision_key v = b" for a b
    by (cases v) auto
  show ?thesis
    using dbl
    by (auto simp: validate_relative_def Let_def not_less eq first_component_error_None [symmetric]
        split: option.splits if_splits)
qed

section \<open>Validating twice\<close>

lemma split_on_Cons_other:
  assumes "x \<noteq> c"
  obtains p ps where "split_on c xs = p # ps" and "split_on c (x # xs) = (x # p) # ps"
  using assms by (cases "split_on c xs") auto

lemma invalid_Cons_cases:
  "has_invalid_unicode_or_control qt (c # s) \<longleftrightarrow>
     (if is_high_surrogate c then
        (case s of [] \<Rightarrow> True
         | d # r \<Rightarrow> \<not> is_low_surrogate d \<or> has_invalid_unicode_or_control qt r)
      else is_low_surrogate c \<or> qt_is_control qt c \<or> has_invalid_unicode_or_control qt s)"
  by (cases s) auto

lemma slash_not_surrogate [simp]: "\<not> is_high_surrogate ch_slash" "\<not> is_low_surrogate ch_slash"
  by (simp_all add: is_high_surrogate_def is_low_surrogate_def)

lemma surrogate_kinds [simp]: "is_low_surrogate c \<Longrightarrow> \<not> is_high_surrogate c"
  by (auto simp: is_high_surrogate_def is_low_surrogate_def word_le_nat_alt)

lemma valid_split:
  assumes "\<not> qt_is_control qt ch_slash"
  shows "\<forall>c \<in> set (split_on ch_slash xs). \<not> has_invalid_unicode_or_control qt c \<Longrightarrow>
    \<not> has_invalid_unicode_or_control qt xs"
proof (induction "length xs" arbitrary: xs rule: less_induct)
  case less
  show ?case
  proof (cases xs)
    case Nil
    then show ?thesis by simp
  next
    case (Cons c s)
    show ?thesis
    proof (cases "c = ch_slash")
      case True
      then show ?thesis
        using less Cons assms by (simp add: invalid_Cons_cases)
    next
      case False
      then obtain p ps where sp: "split_on ch_slash s = p # ps"
          "split_on ch_slash (c # s) = (c # p) # ps"
        by (rule split_on_Cons_other)
      then have cp: "\<not> has_invalid_unicode_or_control qt (c # p)"
        and rest: "\<forall>c \<in> set ps. \<not> has_invalid_unicode_or_control qt c"
        using less.prems Cons by auto
      show ?thesis
      proof (cases "is_high_surrogate c")
        case False
        then have "\<not> has_invalid_unicode_or_control qt s"
          using less.hyps [of s] Cons sp cp rest by (simp add: invalid_Cons_cases)
        then show ?thesis using cp False Cons by (simp add: invalid_Cons_cases)
      next
        case True
        then obtain d q where p: "p = d # q" "is_low_surrogate d" "\<not> has_invalid_unicode_or_control qt q"
          using cp by (auto simp: invalid_Cons_cases split: list.splits)
        then obtain r where s: "s = d # r" using sp(1) by (cases s) (auto split: list.splits if_splits)
        have d: "d \<noteq> ch_slash" using p(2) by auto
        then have "split_on ch_slash r = q # ps"
          using sp(1) p(1) s by (auto split: list.splits)
        then have "\<not> has_invalid_unicode_or_control qt r"
          using less.hyps [of r] Cons s p(3) rest by simp
        then show ?thesis using True p(2) s Cons by (simp add: invalid_Cons_cases)
      qed
    qed
  qed
qed

lemma split_on_first:
  "split_on c xs = p # ps \<Longrightarrow> \<exists>rest. xs = p @ rest \<and> (rest = [] \<or> hd rest = c)"
  by (induction xs arbitrary: p ps) (fastforce split: if_splits list.splits)+

lemma components_not_prefixed:
  assumes "\<forall>c \<in> set (split_on ch_slash xs). portable_component qt limits c"
  shows "xs \<noteq> []" "\<not> starts_with [ch_slash] xs" "\<not> has_drive_prefix xs"
proof -
  obtain p ps where sp: "split_on ch_slash xs = p # ps"
    by (cases "split_on ch_slash xs") auto
  then have p: "portable_component qt limits p" using assms by simp
  then obtain a q where q: "p = a # q" by (cases p) (auto simp: portable_component_def)
  obtain rest where xs: "xs = p @ rest" and rest: "rest = [] \<or> hd rest = ch_slash"
    using split_on_first [OF sp] by blast
  show "xs \<noteq> []" using q xs by simp
  have "a \<noteq> ch_slash"
    using sp q by (cases xs) (auto split: if_splits list.splits)
  then show "\<not> starts_with [ch_slash] xs" using q xs by (simp add: starts_with_def)
  have colon: "ch_colon \<notin> set p"
    using p by (auto simp: portable_component_def windows_invalid_characters_def qstr_def)
  show "\<not> has_drive_prefix xs"
  proof (cases q)
    case Nil
    then show ?thesis using q xs rest by (cases rest) auto
  next
    case (Cons b r)
    then show ?thesis using q xs colon by auto
  qed
qed

section \<open>Properties\<close>


definition unix_dir :: qt_dir where
  "unix_dir = \<lparr>qd_is_absolute_path = starts_with [ch_slash], qd_clean_path = (\<lambda>p. p),
     qd_absolute_file_path = (\<lambda>d p. d @ [ch_slash] @ p), qd_from_native_separators = (\<lambda>p. p)\<rparr>"

definition sample_path :: qstring where
  "sample_path = qstr ''docs/a.txt''"

lemma sample_path_valid:
  "validate_relative ascii_text unix_dir sample_path default_path_limits =
     Inr \<lparr>vp_normalized = sample_path, vp_collision_key = sample_path\<rparr>"
  by (simp add: validate_relative_def sample_path_def qstr_def ascii_text_def unix_dir_def
      default_path_limits_def starts_with_def is_ascii_letter_def is_high_surrogate_def
      is_low_surrogate_def component_error_def windows_invalid_characters_def ends_with_def
      is_windows_reserved_name_def collision_key_def ascii_lower_def ascii_upper_def Let_def)


text \<open>Validation is stable: a path that was validated and sent in its normalized form is accepted
  again by the receiver with the same normalized form and the same collision key. Assumed of Qt:
  NFC is idempotent on the path, does not create a backslash or an absolute path, and the slash
  is not a control character.\<close>

theorem validated_path_stable:
  assumes "validate_relative qt qd path limits = Inr v"
    and "qt_nfc qt (qt_nfc qt path) = qt_nfc qt path"
    and "ch_backslash \<notin> set (qt_nfc qt path)" and "\<not> qd_is_absolute_path qd (qt_nfc qt path)"
    and "\<not> qt_is_control qt ch_slash"
  shows "validate_relative qt qd (vp_normalized v) limits = Inr v"
proof -
  from assms(1) have v: "vp_normalized v = qt_nfc qt path"
    and comps: "\<forall>c \<in> set (split_on ch_slash (qt_nfc qt path)). portable_component qt limits c"
    by (simp_all add: validate_relative_Inr)
  from comps have "\<not> has_invalid_unicode_or_control qt (qt_nfc qt path)"
    using valid_split [OF assms(5)] by (auto simp: portable_component_def)
  then show ?thesis
    using assms components_not_prefixed [OF comps] by (simp add: validate_relative_Inr)
qed

theorem validated_path_stable_witness:
  "validate_relative ascii_text unix_dir sample_path default_path_limits =
     Inr \<lparr>vp_normalized = sample_path, vp_collision_key = sample_path\<rparr>"
  using validated_path_stable [OF sample_path_valid]
  by (simp add: ascii_text_def unix_dir_def sample_path_def qstr_def starts_with_def)


end
