(* ===== verification/StreamInterface.thy ===== *)
theory StreamInterface
  imports Prelude
begin

text \<open>
  The contract between a frame codec and the loop that drains a receive buffer: what a
  stream reader may rely on when bytes arrive in pieces of any size. The codec promises
  that a complete encoding is decoded and its bytes removed, that an incomplete one asks for
  more, and that later bytes never change a decision already taken. From these laws alone
  the frames a reader sees do not depend on how the network cut the byte stream.
\<close>

datatype 'f decode_step =
    Need
  | Bad
  | Got 'f bytes

text \<open>
  A reader that appends each arriving piece to its buffer and drains it, and stops for good at
  the first malformed frame.
\<close>

fun feed_chunks ::
  "(bytes \<Rightarrow> 'f list \<times> bool \<times> bytes) \<Rightarrow> bytes \<Rightarrow> bytes list \<Rightarrow> 'f list \<times> bool \<times> bytes" where
  "feed_chunks drain buf [] = ([], True, buf)"
| "feed_chunks drain buf (c # cs) =
     (case drain (buf @ c) of (fs, ok, r) \<Rightarrow>
        if ok then (case feed_chunks drain r cs of (gs, ok', r') \<Rightarrow> (fs @ gs, ok', r'))
        else (fs, False, r))"

locale framed_stream =
  fixes enc :: "'f \<Rightarrow> bytes option"
    and dec :: "bytes \<Rightarrow> 'f decode_step"
    and drain :: "bytes \<Rightarrow> 'f list \<times> bool \<times> bytes"
  assumes dec_enc: "enc f = Some bs \<Longrightarrow> dec (bs @ r) = Got f r"
    and dec_prefix: "enc f = Some bs \<Longrightarrow> n < length bs \<Longrightarrow> dec (take n bs) = Need"
    and dec_Nil: "dec [] = Need"
    and dec_got_append: "dec a = Got f r \<Longrightarrow> dec (a @ b) = Got f (r @ b)"
    and dec_bad_append: "dec a = Bad \<Longrightarrow> dec (a @ b) = Bad"
    and dec_shorter: "dec a = Got f r \<Longrightarrow> length r < length a"
    and drain_unfold: "drain a =
          (case dec a of
             Got f r \<Rightarrow> (case drain r of (fs, ok, r') \<Rightarrow> (f # fs, ok, r'))
           | Need \<Rightarrow> ([], True, a)
           | Bad \<Rightarrow> ([], False, a))"
begin

lemma drain_need: "dec a = Need \<Longrightarrow> drain a = ([], True, a)"
  by (simp add: drain_unfold [of a])

lemma drain_bad: "dec a = Bad \<Longrightarrow> drain a = ([], False, a)"
  by (simp add: drain_unfold [of a])

lemma drain_got: "dec a = Got f r \<Longrightarrow> drain r = (fs, ok, r') \<Longrightarrow> drain a = (f # fs, ok, r')"
  by (simp add: drain_unfold [of a])

lemma drain_encoded:
  "list_all2 (\<lambda>f bs. enc f = Some bs) fs bss \<Longrightarrow> drain (concat bss) = (fs, True, [])"
proof (induction fs bss rule: list_all2_induct)
  case Nil
  then show ?case by (simp add: drain_need dec_Nil)
next
  case (Cons f fs bs bss)
  then show ?case by (simp add: drain_got [OF dec_enc])
qed

lemma drain_rest_need: "drain a = (fs, True, r) \<Longrightarrow> dec r = Need"
proof (induction "length a" arbitrary: a fs rule: less_induct)
  case less
  show ?case
  proof (cases "dec a")
    case (Got f r1)
    obtain gs ok r' where d: "drain r1 = (gs, ok, r')" by (metis prod_cases3)
    with Got less.prems have "ok" "r' = r" by (simp_all add: drain_got)
    with d show ?thesis using less.hyps [OF dec_shorter [OF Got]] by simp
  qed (use less.prems in \<open>simp_all add: drain_need drain_bad\<close>)
qed

lemma drain_append_ok:
  "drain a = (fs, True, r) \<Longrightarrow> drain (r @ b) = (gs, ok, r') \<Longrightarrow> drain (a @ b) = (fs @ gs, ok, r')"
proof (induction "length a" arbitrary: a fs rule: less_induct)
  case less
  show ?case
  proof (cases "dec a")
    case (Got f r1)
    obtain hs ok1 r2 where d: "drain r1 = (hs, ok1, r2)" by (metis prod_cases3)
    with Got less.prems(1) have e: "ok1" "r2 = r" "fs = f # hs" by (simp_all add: drain_got)
    have "drain (r1 @ b) = (hs @ gs, ok, r')"
      using d e less.prems(2) by (intro less.hyps [OF dec_shorter [OF Got]]) simp_all
    then show ?thesis
      using e by (simp add: drain_got [OF dec_got_append [OF Got]])
  qed (use less.prems in \<open>simp_all add: drain_need drain_bad\<close>)
qed

lemma drain_append_bad:
  "drain a = (fs, False, r) \<Longrightarrow> drain (a @ b) = (fs, False, r @ b)"
proof (induction "length a" arbitrary: a fs rule: less_induct)
  case less
  show ?case
  proof (cases "dec a")
    case (Got f r1)
    obtain hs ok1 r2 where d: "drain r1 = (hs, ok1, r2)" by (metis prod_cases3)
    with Got less.prems(1) have e: "\<not> ok1" "r2 = r" "fs = f # hs" by (simp_all add: drain_got)
    have "drain (r1 @ b) = (hs, False, r @ b)"
      using d e by (intro less.hyps [OF dec_shorter [OF Got]]) simp_all
    then show ?thesis
      using e by (simp add: drain_got [OF dec_got_append [OF Got]])
  next
    case Bad
    then show ?thesis
      using less.prems dec_bad_append by (simp add: drain_bad)
  qed (use less.prems in \<open>simp_all add: drain_need\<close>)
qed

text \<open>Segmentation does not matter: frames and verdict are those of the whole stream.\<close>

lemma feed_chunks_concat:
  assumes "dec buf = Need"
  shows "fst (feed_chunks drain buf cs) = fst (drain (buf @ concat cs))"
    and "fst (snd (feed_chunks drain buf cs)) = fst (snd (drain (buf @ concat cs)))"
proof -
  have "fst (feed_chunks drain buf cs) = fst (drain (buf @ concat cs)) \<and>
        fst (snd (feed_chunks drain buf cs)) = fst (snd (drain (buf @ concat cs)))"
    using assms
  proof (induction cs arbitrary: buf)
    case Nil
    then show ?case by (simp add: drain_need)
  next
    case (Cons c cs)
    obtain fs ok r where d: "drain (buf @ c) = (fs, ok, r)" by (metis prod_cases3)
    show ?case
    proof (cases ok)
      case True
      obtain gs ok' r' where g: "drain (r @ concat cs) = (gs, ok', r')" by (metis prod_cases3)
      from d True have "dec r = Need" using drain_rest_need [of "buf @ c" fs r] by simp
      then have "fst (feed_chunks drain r cs) = gs \<and> fst (snd (feed_chunks drain r cs)) = ok'"
        using Cons.IH [of r] g by simp
      moreover have "drain (buf @ c @ concat cs) = (fs @ gs, ok', r')"
        using drain_append_ok [of "buf @ c" fs r "concat cs"] d True g by simp
      ultimately show ?thesis
        using d True by (auto split: prod.splits)
    next
      case False
      then have "drain (buf @ c @ concat cs) = (fs, False, r @ concat cs)"
        using drain_append_bad [of "buf @ c" fs r "concat cs"] d by simp
      then show ?thesis using d False by simp
    qed
  qed
  then show "fst (feed_chunks drain buf cs) = fst (drain (buf @ concat cs))"
    and "fst (snd (feed_chunks drain buf cs)) = fst (snd (drain (buf @ concat cs)))"
    by simp_all
qed

lemma feed_chunks_encoded:
  assumes "list_all2 (\<lambda>f bs. enc f = Some bs) fs bss" and "concat cs = concat bss"
  shows "fst (feed_chunks drain [] cs) = fs \<and> fst (snd (feed_chunks drain [] cs))"
  using feed_chunks_concat [OF dec_Nil, of cs] drain_encoded [OF assms(1)] assms(2) by simp

end

end
