(* ===== verification/FrameCodec.thy ===== *)
theory FrameCodec
  imports RdftProtocol StreamInterface
begin

text \<open>
  \<open>FrameCodec::encode\<close> and \<open>FrameCodec::tryDecode\<close>: the 32 byte big-endian header, the length
  checks against the local limits, and the streaming contract of the decoder (one frame per
  call, the buffer left alone while a frame is incomplete or wrong). Diagnostic texts are not
  modelled; each one is represented by the branch that produces it.
\<close>

section \<open>Frames and limits\<close>

record frame =
  f_version :: u16
  f_type :: u16
  f_flags :: u32
  f_stream_id :: u64
  f_metadata :: bytes
  f_payload :: bytes

record protocol_limits =
  max_control_metadata_bytes :: u32
  max_data_payload_bytes :: u64
  max_frame_bytes :: u64

definition kProtocolMagic :: bytes where
  "kProtocolMagic = map of_char ''RDFT''"

definition kProtocolMajorVersion :: u16 where
  "kProtocolMajorVersion = 1"

definition kFixedHeaderBytes :: nat where
  "kFixedHeaderBytes = 32"

definition default_limits :: protocol_limits where
  "default_limits =
     \<lparr>max_control_metadata_bytes = 1 * 1024 * 1024,
      max_data_payload_bytes = 4 * 1024 * 1024,
      max_frame_bytes = word_of_nat kFixedHeaderBytes + 1 * 1024 * 1024 + 4 * 1024 * 1024\<rparr>"

datatype frame_decode_error =
    FDE_InvalidMagic | FDE_UnsupportedMajorVersion | FDE_UnknownMessageType
  | FDE_ControlMetadataTooLarge | FDE_DataPayloadTooLarge | FDE_UnexpectedPayload
  | FDE_FrameTooLarge | FDE_LengthOverflow | FDE_ReservedMessageType | FDE_InvalidFlags
  | FDE_InvalidStreamId | FDE_MissingMetadata | FDE_UnexpectedMetadata | FDE_MissingPayload

text \<open>The status and consumed size of a \<open>FrameDecodeResult\<close>, with the error where there is one.\<close>

datatype frame_decode_result =
    FrameReady nat
  | NeedMoreData
  | ProtocolError frame_decode_error

section \<open>Header fields\<close>

definition write_be16 :: "u16 \<Rightarrow> bytes" where
  "write_be16 v = be_encode 2 (unat v)"

definition write_be32 :: "u32 \<Rightarrow> bytes" where
  "write_be32 v = be_encode 4 (unat v)"

definition write_be64 :: "u64 \<Rightarrow> bytes" where
  "write_be64 v = be_encode 8 (unat v)"

definition read_be16 :: "bytes \<Rightarrow> u16" where
  "read_be16 src = word_of_nat (be_decode (take 2 src))"

definition read_be32 :: "bytes \<Rightarrow> u32" where
  "read_be32 src = word_of_nat (be_decode (take 4 src))"

definition read_be64 :: "bytes \<Rightarrow> u64" where
  "read_be64 src = word_of_nat (be_decode (take 8 src))"

section \<open>Length checks\<close>

definition u64_max :: u64 where
  "u64_max = - 1"

definition u32_max :: u32 where
  "u32_max = - 1"

definition qsizetype_max :: u64 where
  "qsizetype_max = word_of_nat (2 ^ 63 - 1)"

definition checked_frame_bytes :: "u32 \<Rightarrow> u64 \<Rightarrow> u64 option" where
  "checked_frame_bytes metadata_bytes payload_bytes =
     (let fixed = word_of_nat kFixedHeaderBytes in
      if payload_bytes > u64_max - fixed then None
      else let fixed_and_payload = fixed + payload_bytes in
        if ucast metadata_bytes > u64_max - fixed_and_payload then None
        else Some (fixed_and_payload + ucast metadata_bytes))"

definition validate_lengths ::
  "u32 \<Rightarrow> u64 \<Rightarrow> protocol_limits \<Rightarrow> frame_decode_error + u64" where
  "validate_lengths metadata_bytes payload_bytes limits =
     (if metadata_bytes > max_control_metadata_bytes limits then Inl FDE_ControlMetadataTooLarge
      else if payload_bytes > max_data_payload_bytes limits then Inl FDE_DataPayloadTooLarge
      else case checked_frame_bytes metadata_bytes payload_bytes of
        None \<Rightarrow> Inl FDE_LengthOverflow
      | Some frame_bytes \<Rightarrow>
          if frame_bytes > max_frame_bytes limits then Inl FDE_FrameTooLarge
          else if frame_bytes > qsizetype_max then Inl FDE_LengthOverflow
          else Inr frame_bytes)"

fun frame_error :: "envelope_error \<Rightarrow> frame_decode_error" where
  "frame_error EE_UnknownMessageType = FDE_UnknownMessageType"
| "frame_error EE_ReservedMessageType = FDE_ReservedMessageType"
| "frame_error EE_InvalidFlags = FDE_InvalidFlags"
| "frame_error EE_InvalidStreamId = FDE_InvalidStreamId"
| "frame_error EE_MissingMetadata = FDE_MissingMetadata"
| "frame_error EE_UnexpectedMetadata = FDE_UnexpectedMetadata"
| "frame_error EE_MissingPayload = FDE_MissingPayload"
| "frame_error EE_UnexpectedPayload = FDE_UnexpectedPayload"

section \<open>Encoding\<close>

text \<open>
  The failures of \<open>encode\<close>, in the order of the code's checks. The code reports each by an
  empty \<open>QByteArray\<close> and a diagnostic.
\<close>

datatype frame_encode_error =
    FEE_UnsupportedVersion
  | FEE_UnknownMessageType
  | FEE_MetadataLength
  | FEE_Envelope envelope_error
  | FEE_Lengths frame_decode_error

definition encode_header :: "frame \<Rightarrow> u32 \<Rightarrow> u64 \<Rightarrow> bytes" where
  "encode_header f metadata_bytes payload_bytes =
     kProtocolMagic @ write_be16 (f_version f) @ write_be16 (f_type f) @ write_be32 (f_flags f) @
     write_be32 metadata_bytes @ write_be64 payload_bytes @ write_be64 (f_stream_id f)"

definition encode :: "frame \<Rightarrow> protocol_limits \<Rightarrow> frame_encode_error + bytes" where
  "encode f limits =
     (if f_version f \<noteq> kProtocolMajorVersion then Inl FEE_UnsupportedVersion
      else if \<not> is_known_message_type (f_type f) then Inl FEE_UnknownMessageType
      else if length (f_metadata f) > unat u32_max then Inl FEE_MetadataLength
      else let metadata_bytes = word_of_nat (length (f_metadata f));
               payload_bytes = word_of_nat (length (f_payload f)) in
        case validate_protocol_envelope (f_type f) (f_flags f) (f_stream_id f)
               (ucast metadata_bytes) payload_bytes of
          Some e \<Rightarrow> Inl (FEE_Envelope e)
        | None \<Rightarrow>
            (case validate_lengths metadata_bytes payload_bytes limits of
               Inl e \<Rightarrow> Inl (FEE_Lengths e)
             | Inr _ \<Rightarrow>
                 Inr (encode_header f metadata_bytes payload_bytes @ f_metadata f @ f_payload f)))"

section \<open>Decoding\<close>

text \<open>
  \<open>tryDecode\<close> returns its result together with the buffer and the output frame as the call
  leaves them.
\<close>

definition try_decode ::
  "bytes \<Rightarrow> frame \<Rightarrow> protocol_limits \<Rightarrow> frame_decode_result \<times> bytes \<times> frame" where
  "try_decode buffer out limits =
     (if length buffer < kFixedHeaderBytes then (NeedMoreData, buffer, out)
      else if take 4 buffer \<noteq> kProtocolMagic
        then (ProtocolError FDE_InvalidMagic, buffer, out)
      else let version = read_be16 (drop 4 buffer) in
        if version \<noteq> kProtocolMajorVersion
          then (ProtocolError FDE_UnsupportedMajorVersion, buffer, out)
      else let t = read_be16 (drop 6 buffer) in
        if \<not> is_known_message_type t then (ProtocolError FDE_UnknownMessageType, buffer, out)
      else let metadata_bytes = read_be32 (drop 12 buffer);
               payload_bytes = read_be64 (drop 16 buffer) in
        case validate_lengths metadata_bytes payload_bytes limits of
          Inl e \<Rightarrow> (ProtocolError e, buffer, out)
        | Inr frame_bytes \<Rightarrow>
            let flags = read_be32 (drop 8 buffer);
                stream_id = read_be64 (drop 24 buffer) in
            case validate_protocol_envelope t flags stream_id (ucast metadata_bytes) payload_bytes of
              Some e \<Rightarrow> (ProtocolError (frame_error e), buffer, out)
            | None \<Rightarrow>
                if length buffer < unat frame_bytes then (NeedMoreData, buffer, out)
                else
                  (FrameReady (unat frame_bytes),
                   drop (unat frame_bytes) buffer,
                   \<lparr>f_version = version, f_type = t, f_flags = flags, f_stream_id = stream_id,
                    f_metadata = take (unat metadata_bytes) (drop kFixedHeaderBytes buffer),
                    f_payload = take (unat payload_bytes)
                      (drop (kFixedHeaderBytes + unat metadata_bytes) buffer)\<rparr>))"

section \<open>Header lemmas\<close>

lemma length_write_be [simp, size_simps]:
  "length (write_be16 a) = 2" "length (write_be32 b) = 4" "length (write_be64 c) = 8"
  by (simp_all add: write_be16_def write_be32_def write_be64_def)

lemma length_kProtocolMagic [simp, size_simps]: "length kProtocolMagic = 4"
  by (simp add: kProtocolMagic_def)

lemma length_encode_header [simp, size_simps]: "length (encode_header f m p) = 32"
  by (simp add: encode_header_def)

lemma read_write_be16 [simp, roundtrip_simps]: "read_be16 (write_be16 v @ r) = v"
  using unsigned_less [of v, where ?'a = nat]
  by (simp add: read_be16_def write_be16_def be_decode_encode)

lemma read_write_be32 [simp, roundtrip_simps]: "read_be32 (write_be32 v @ r) = v"
  using unsigned_less [of v, where ?'a = nat]
  by (simp add: read_be32_def write_be32_def be_decode_encode)

lemma read_write_be64 [simp, roundtrip_simps]: "read_be64 (write_be64 v @ r) = v"
  using unsigned_less [of v, where ?'a = nat]
  by (simp add: read_be64_def write_be64_def be_decode_encode)

lemma write_read_be16: "2 \<le> length src \<Longrightarrow> write_be16 (read_be16 src) = take 2 src"
  using be_decode_take_bound [of 2 src]
  by (simp add: write_be16_def read_be16_def unat_of_nat be_encode_decode_take)

lemma write_read_be32: "4 \<le> length src \<Longrightarrow> write_be32 (read_be32 src) = take 4 src"
  using be_decode_take_bound [of 4 src]
  by (simp add: write_be32_def read_be32_def unat_of_nat be_encode_decode_take)

lemma write_read_be64: "8 \<le> length src \<Longrightarrow> write_be64 (read_be64 src) = take 8 src"
  using be_decode_take_bound [of 8 src]
  by (simp add: write_be64_def read_be64_def unat_of_nat be_encode_decode_take)

lemma header_reads:
  fixes f m p body
  defines "h \<equiv> encode_header f m p @ body"
  shows "take 4 h = kProtocolMagic"
    and "read_be16 (drop 4 h) = f_version f"
    and "read_be16 (drop 6 h) = f_type f"
    and "read_be32 (drop 8 h) = f_flags f"
    and "read_be32 (drop 12 h) = m"
    and "read_be64 (drop 16 h) = p"
    and "read_be64 (drop 24 h) = f_stream_id f"
  by (simp_all add: h_def encode_header_def)

section \<open>Length lemmas\<close>

lemma checked_frame_bytes_Some:
  assumes "checked_frame_bytes m p = Some n"
  shows "unat n = 32 + unat m + unat p"
proof -
  have m: "unat (ucast m :: u64) = unat m"
    by simp
  from assms have p: "unat p \<le> 2 ^ 64 - 1 - 32"
    and mp: "unat m \<le> 2 ^ 64 - 1 - unat (32 + p)"
    and n: "n = 32 + p + ucast m"
    using unat_max_word_minus [of 32] unat_max_word_minus [of "32 + p"] m
    by (auto simp: checked_frame_bytes_def Let_def u64_max_def kFixedHeaderBytes_def word_less_nat_alt
        not_less split: if_splits)
  have p32: "unat (32 + p) = 32 + unat p"
    using p unat_u64_add [of 32 p] by simp
  then have "unat (32 + p + ucast m) = 32 + unat p + unat m"
    using unat_u64_add [of "32 + p" "ucast m"] mp m p by simp
  then show ?thesis by (simp add: n)
qed

lemma checked_frame_bytes_None_iff:
  "checked_frame_bytes m p = None \<longleftrightarrow> 2 ^ 64 \<le> 32 + unat m + unat p"
proof -
  have m: "unat (ucast m :: u64) = unat m"
    by simp
  have mb: "unat m < 2 ^ 32" and pb: "unat p < 2 ^ 64"
    using unsigned_less [of m, where ?'a = nat] unsigned_less [of p, where ?'a = nat] by simp_all
  show ?thesis
  proof (cases "unat p \<le> 2 ^ 64 - 1 - 32")
    case True
    then have p32: "unat (32 + p) = 32 + unat p"
      using unat_u64_add [of 32 p] by simp
    show ?thesis
      using True p32 m mb unat_max_word_minus [of 32] unat_max_word_minus [of "32 + p"]
      by (auto simp: checked_frame_bytes_def Let_def u64_max_def kFixedHeaderBytes_def
          word_less_nat_alt not_less)
  next
    case False
    then show ?thesis
      using unat_max_word_minus [of 32] pb
      by (auto simp: checked_frame_bytes_def Let_def u64_max_def kFixedHeaderBytes_def
          word_less_nat_alt not_less)
  qed
qed

lemma unat_qsizetype_max: "unat qsizetype_max = 2 ^ 63 - 1"
  by (simp add: qsizetype_max_def)

lemma validate_lengths_Inr:
  assumes "validate_lengths m p limits = Inr n"
  shows "unat n = 32 + unat m + unat p"
    and "m \<le> max_control_metadata_bytes limits" and "p \<le> max_data_payload_bytes limits"
    and "n \<le> max_frame_bytes limits" and "unat n < 2 ^ 63"
proof -
  from assms have c: "checked_frame_bytes m p = Some n"
    and r: "m \<le> max_control_metadata_bytes limits" "p \<le> max_data_payload_bytes limits"
      "n \<le> max_frame_bytes limits" and q: "n \<le> qsizetype_max"
    by (auto simp: validate_lengths_def not_less split: if_splits option.splits)
  show "unat n = 32 + unat m + unat p"
    using c by (rule checked_frame_bytes_Some)
  show "unat n < 2 ^ 63"
    using q unat_qsizetype_max by (simp add: word_le_nat_alt)
  show "m \<le> max_control_metadata_bytes limits" "p \<le> max_data_payload_bytes limits"
    "n \<le> max_frame_bytes limits"
    by (fact r)+
qed

section \<open>Encoding and decoding\<close>

text \<open>What a successful \<open>encode\<close> establishes.\<close>

lemma encode_Inr:
  assumes "encode f limits = Inr bs" and "qsize_ok (f_payload f)"
  obtains m p where "bs = encode_header f m p @ f_metadata f @ f_payload f"
    and "m = word_of_nat (length (f_metadata f))" and "p = word_of_nat (length (f_payload f))"
    and "unat m = length (f_metadata f)" and "unat p = length (f_payload f)"
    and "f_version f = kProtocolMajorVersion" and "is_known_message_type (f_type f)"
    and "validate_protocol_envelope (f_type f) (f_flags f) (f_stream_id f) (ucast m) p = None"
    and "validate_lengths m p limits = Inr (word_of_nat (length bs))"
    and "length bs < 2 ^ 63"
proof -
  define m :: u32 where "m = word_of_nat (length (f_metadata f))"
  define p :: u64 where "p = word_of_nat (length (f_payload f))"
  from assms(1) have a: "f_version f = kProtocolMajorVersion" "is_known_message_type (f_type f)"
    "length (f_metadata f) \<le> unat u32_max"
    "validate_protocol_envelope (f_type f) (f_flags f) (f_stream_id f) (ucast m) p = None"
    and bs: "bs = encode_header f m p @ f_metadata f @ f_payload f"
    and v: "\<exists>n. validate_lengths m p limits = Inr n"
    by (auto simp: encode_def Let_def m_def p_def split: if_splits option.splits sum.splits)
  from v obtain n where n: "validate_lengths m p limits = Inr n" by blast
  have "unat u32_max = 2 ^ 32 - 1"
    by (simp add: u32_max_def unsigned_minus_1_eq_mask mask_eq_exp_minus_1)
  then have um: "unat m = length (f_metadata f)"
    using a(3) by (simp add: m_def unat_of_nat_u32)
  have up: "unat p = length (f_payload f)"
    using qsize_ok_less [OF assms(2)] by (simp add: p_def unat_of_nat_u64)
  have len: "unat n = length bs"
    using validate_lengths_Inr(1) [OF n] um up by (simp add: bs)
  then have "n = word_of_nat (length bs)"
    by (metis word_of_nat_unat_eq)
  moreover have "length bs < 2 ^ 63"
    using validate_lengths_Inr(5) [OF n] len by simp
  ultimately show ?thesis
    using that [OF bs m_def p_def um up a(1,2,4)] n by simp
qed

lemma try_decode_encoded:
  assumes "encode f limits = Inr bs" and "qsize_ok (f_payload f)"
  shows "try_decode (bs @ rest) out limits = (FrameReady (length bs), rest, f)"
  using assms
proof (rule encode_Inr)
  fix m p
  assume bs: "bs = encode_header f m p @ f_metadata f @ f_payload f"
    and um: "unat m = length (f_metadata f)" and up: "unat p = length (f_payload f)"
    and v: "f_version f = kProtocolMajorVersion" and k: "is_known_message_type (f_type f)"
    and e: "validate_protocol_envelope (f_type f) (f_flags f) (f_stream_id f) (ucast m) p = None"
    and l: "validate_lengths m p limits = Inr (word_of_nat (length bs))"
    and lt: "length bs < 2 ^ 63"
  have n: "unat (word_of_nat (length bs) :: u64) = length bs"
    using lt by (simp add: unat_of_nat_u64)
  note reads = header_reads [of f m p "f_metadata f @ f_payload f @ rest"]
  have app: "bs @ rest = encode_header f m p @ f_metadata f @ f_payload f @ rest"
    by (simp add: bs)
  have d32: "drop 32 (bs @ rest) = f_metadata f @ f_payload f @ rest"
    "drop (32 + unat m) (bs @ rest) = f_payload f @ rest"
    by (simp_all add: app um)
  have dn: "drop (length bs) (bs @ rest) = rest" by simp
  show ?thesis
    unfolding try_decode_def kFixedHeaderBytes_def Let_def d32 n
    unfolding app reads
    using v k e l n um up bs
    by simp
qed

text \<open>A strict prefix of an encoded frame never decodes and never fails.\<close>

lemma take_ge_append: "length xs \<le> n \<Longrightarrow> take n (xs @ ys) = xs @ take (n - length xs) ys"
  by simp

lemma try_decode_prefix:
  assumes "encode f limits = Inr bs" and "qsize_ok (f_payload f)" and "n < length bs"
  shows "try_decode (take n bs) out limits = (NeedMoreData, take n bs, out)"
  using assms(1,2)
proof (rule encode_Inr)
  fix m p
  assume bs: "bs = encode_header f m p @ f_metadata f @ f_payload f"
    and v: "f_version f = kProtocolMajorVersion" and k: "is_known_message_type (f_type f)"
    and e: "validate_protocol_envelope (f_type f) (f_flags f) (f_stream_id f) (ucast m) p = None"
    and l: "validate_lengths m p limits = Inr (word_of_nat (length bs))"
    and lt: "length bs < 2 ^ 63"
  show ?thesis
  proof (cases "n < 32")
    case True
    then show ?thesis using assms(3) by (simp add: try_decode_def kFixedHeaderBytes_def)
  next
    case False
    then have app: "take n bs = encode_header f m p @ take (n - 32) (f_metadata f @ f_payload f)"
      by (simp add: bs del: append_assoc take_append) (simp add: take_ge_append)
    have u: "unat (word_of_nat (length bs) :: u64) = length bs"
      using lt by (simp add: unat_of_nat_u64)
    have ln: "length (take n bs) = n" using assms(3) by simp
    show ?thesis
      unfolding try_decode_def kFixedHeaderBytes_def Let_def ln
      unfolding app header_reads
      using v k e l False assms(3) u by simp
  qed
qed

text \<open>Decisions of the decoder survive later bytes.\<close>

lemma reads_append:
  assumes "32 \<le> length a"
  shows "take 4 (a @ b) = take 4 a"
    and "read_be16 (drop 4 (a @ b)) = read_be16 (drop 4 a)"
    and "read_be16 (drop 6 (a @ b)) = read_be16 (drop 6 a)"
    and "read_be32 (drop 8 (a @ b)) = read_be32 (drop 8 a)"
    and "read_be32 (drop 12 (a @ b)) = read_be32 (drop 12 a)"
    and "read_be64 (drop 16 (a @ b)) = read_be64 (drop 16 a)"
    and "read_be64 (drop 24 (a @ b)) = read_be64 (drop 24 a)"
  using assms by (simp_all add: read_be16_def read_be32_def read_be64_def)

lemma try_decode_ready_append:
  assumes "try_decode a out limits = (FrameReady n, r, f)"
  shows "try_decode (a @ b) out limits = (FrameReady n, r @ b, f)"
proof -
  from assms have len: "32 \<le> length a"
    by (auto simp: try_decode_def kFixedHeaderBytes_def split: if_splits)
  from assms show ?thesis
    unfolding try_decode_def kFixedHeaderBytes_def Let_def reads_append [OF len]
    by (auto split: if_splits sum.splits option.splits dest!: validate_lengths_Inr(1))
qed

lemma try_decode_error_append:
  assumes "try_decode a out limits = (ProtocolError e, r, f)"
  shows "try_decode (a @ b) out limits = (ProtocolError e, a @ b, out)"
proof -
  from assms have len: "32 \<le> length a"
    by (auto simp: try_decode_def kFixedHeaderBytes_def split: if_splits)
  from assms show ?thesis
    unfolding try_decode_def kFixedHeaderBytes_def Let_def reads_append [OF len]
    by (auto split: if_splits sum.splits option.splits)
qed

lemma try_decode_ready_consumes:
  assumes "try_decode a out limits = (FrameReady n, r, f)"
  shows "r = drop n a" and "32 \<le> n" and "n \<le> length a" and "n = 32 + length (f_metadata f) + length (f_payload f)"
  using assms
  by (auto simp: try_decode_def kFixedHeaderBytes_def Let_def
      split: if_splits sum.splits option.splits dest!: validate_lengths_Inr(1))

lemma try_decode_shorter:
  "try_decode a out limits = (FrameReady n, r, f) \<Longrightarrow> length r < length a"
  using try_decode_ready_consumes [of a out limits n r f] by simp

lemma try_decode_not_ready_untouched:
  assumes "try_decode a out limits = (res, r, f)" and "\<forall>n. res \<noteq> FrameReady n"
  shows "r = a \<and> f = out"
  using assms
  by (auto simp: try_decode_def Let_def split: if_splits sum.splits option.splits)

text \<open>The wire form is canonical: what the decoder accepts is what the encoder writes.\<close>

lemma take_32_pieces:
  "take 32 a = take 4 a @ take 2 (drop 4 a) @ take 2 (drop 6 a) @ take 4 (drop 8 a) @
     take 4 (drop 12 a) @ take 8 (drop 16 a) @ take 8 (drop 24 a)"
proof -
  have "take 32 a = take (4 + (2 + (2 + (4 + (4 + (8 + 8)))))) a" by simp
  also have "\<dots> = take 4 a @ take 2 (drop 4 a) @ take 2 (drop (2 + 4) a) @ take 4 (drop (2 + (2 + 4)) a) @
     take 4 (drop (4 + (2 + (2 + 4))) a) @ take 8 (drop (4 + (4 + (2 + (2 + 4)))) a) @
     take 8 (drop (8 + (4 + (4 + (2 + (2 + 4))))) a)"
    by (simp only: take_add drop_drop)
  finally show ?thesis by simp
qed

lemma try_decode_canonical:
  assumes "try_decode a out limits = (FrameReady n, r, f)"
  shows "encode f limits = Inr (take n a)"
proof -
  define m where "m = read_be32 (drop 12 a)"
  define p where "p = read_be64 (drop 16 a)"
  from assms have len: "32 \<le> length a" and magic: "take 4 a = kProtocolMagic"
    and v: "f_version f = read_be16 (drop 4 a)" "f_version f = kProtocolMajorVersion"
    and t: "f_type f = read_be16 (drop 6 a)" "is_known_message_type (f_type f)"
    and fl: "f_flags f = read_be32 (drop 8 a)" and st: "f_stream_id f = read_be64 (drop 24 a)"
    and e: "validate_protocol_envelope (f_type f) (f_flags f) (f_stream_id f) (ucast m) p = None"
    and md: "f_metadata f = take (unat m) (drop 32 a)"
    and pl: "f_payload f = take (unat p) (drop (32 + unat m) a)"
    and nv: "\<exists>w. validate_lengths m p limits = Inr w \<and> n = unat w \<and> n \<le> length a"
    by (auto simp: try_decode_def kFixedHeaderBytes_def Let_def m_def p_def
        split: if_splits sum.splits option.splits)
  from nv obtain w where w: "validate_lengths m p limits = Inr w" and n: "n = unat w" "n \<le> length a"
    by blast
  have n': "n = 32 + (unat m + unat p)"
    using validate_lengths_Inr(1) [OF w] n(1) by simp
  have lm: "length (f_metadata f) = unat m" and lp: "length (f_payload f) = unat p"
    using n(2) n' by (simp_all add: md pl)
  have hdr: "encode_header f m p = take 32 a"
    using len magic v(1) t(1) fl st
    by (simp add: encode_header_def take_32_pieces m_def p_def write_read_be16 write_read_be32
        write_read_be64 del: take_append)
  have body: "f_metadata f @ f_payload f = take (unat m + unat p) (drop 32 a)"
    by (simp add: md pl take_add add.commute [of 32])
  have "unat m \<le> unat u32_max"
    by (simp add: u32_max_def word_le_nat_alt [symmetric] word_order.extremum)
  then have "encode f limits = Inr (encode_header f m p @ f_metadata f @ f_payload f)"
    using v(2) t(2) e w lm lp by (simp add: encode_def Let_def)
  then show ?thesis
    by (simp add: hdr body n' take_add)
qed

section \<open>A buffered reader over the codec\<close>

text \<open>The frame the receive loop declares before each call (\<open>Frame frame;\<close>).\<close>

definition default_frame :: frame where
  "default_frame =
     \<lparr>f_version = kProtocolMajorVersion, f_type = message_value MT_Heartbeat, f_flags = 0,
      f_stream_id = 0, f_metadata = [], f_payload = []\<rparr>"

text \<open>The frames of a buffer, in the order the receive loop takes them from it.\<close>

function decode_frames :: "protocol_limits \<Rightarrow> bytes \<Rightarrow> frame list \<times> bool \<times> bytes" where
  "decode_frames limits buffer =
     (case try_decode buffer default_frame limits of
        (FrameReady n, rest, f) \<Rightarrow>
          (case decode_frames limits rest of (fs, ok, r) \<Rightarrow> (f # fs, ok, r))
      | (NeedMoreData, rest, f) \<Rightarrow> ([], True, rest)
      | (ProtocolError e, rest, f) \<Rightarrow> ([], False, rest))"
  by pat_completeness auto
termination
  by (relation "measure (\<lambda>(limits, buffer). length buffer)") (auto dest: try_decode_shorter [OF sym])

declare decode_frames.simps [simp del]

definition encode_opt :: "protocol_limits \<Rightarrow> frame \<Rightarrow> bytes option" where
  "encode_opt limits f =
     (case encode f limits of Inr bs \<Rightarrow> if qsize_ok (f_payload f) then Some bs else None | Inl _ \<Rightarrow> None)"

definition decode_one :: "protocol_limits \<Rightarrow> bytes \<Rightarrow> frame decode_step" where
  "decode_one limits buffer =
     (case try_decode buffer default_frame limits of
        (FrameReady n, rest, f) \<Rightarrow> Got f rest
      | (NeedMoreData, _, _) \<Rightarrow> Need
      | (ProtocolError e, _, _) \<Rightarrow> Bad)"

lemma encode_opt_Some:
  "encode_opt limits f = Some bs \<longleftrightarrow> encode f limits = Inr bs \<and> qsize_ok (f_payload f)"
  by (auto simp: encode_opt_def split: sum.splits)

lemma decode_one_iff:
  "decode_one limits a = Got f r \<longleftrightarrow> (\<exists>n. try_decode a default_frame limits = (FrameReady n, r, f))"
  "decode_one limits a = Need \<longleftrightarrow> (\<exists>r f. try_decode a default_frame limits = (NeedMoreData, r, f))"
  "decode_one limits a = Bad \<longleftrightarrow> (\<exists>e r f. try_decode a default_frame limits = (ProtocolError e, r, f))"
  by (auto simp: decode_one_def split: prod.splits frame_decode_result.splits)

interpretation rdft: framed_stream "encode_opt limits" "decode_one limits" "decode_frames limits"
  for limits
proof (unfold_locales, goal_cases)
  case (1 f bs r)
  then show ?case by (auto simp: encode_opt_Some decode_one_iff try_decode_encoded)
next
  case (2 f bs n)
  then show ?case by (auto simp: encode_opt_Some decode_one_iff try_decode_prefix)
next
  case 3
  show ?case by (simp add: decode_one_def try_decode_def kFixedHeaderBytes_def)
next
  case (4 a f r b)
  then show ?case by (auto simp: decode_one_iff dest: try_decode_ready_append)
next
  case (5 a b)
  then show ?case by (force simp: decode_one_iff dest: try_decode_error_append)
next
  case (6 a f r)
  then show ?case by (auto simp: decode_one_iff dest: try_decode_shorter)
next
  case (7 a)
  obtain res r f where d: "try_decode a default_frame limits = (res, r, f)" by (metis prod_cases3)
  show ?case
    using try_decode_not_ready_untouched [OF d] d
    by (auto simp: decode_frames.simps [of limits a] decode_one_def split: frame_decode_result.splits)
qed

section \<open>Properties\<close>

section \<open>A concrete frame\<close>

definition sample_frame :: frame where
  "sample_frame = default_frame\<lparr>f_flags := 1, f_metadata := [7, 9]\<rparr>"

definition sample_bytes :: bytes where
  "sample_bytes = encode_header sample_frame 2 0 @ [7, 9]"

lemma sample_envelope: "validate_protocol_envelope 4 1 0 2 0 = None"
proof -
  have "protocol_message_descriptor (message_value MT_Heartbeat) = Some (protocol_message_descriptors ! 3)"
    using descriptor_found [of "protocol_message_descriptors ! 3"]
    by (simp add: protocol_message_descriptors_def rdft_message_def)
  then have "1 \<in> allowed_flags MT_Heartbeat"
    by (simp add: allowed_flags_def protocol_message_descriptors_def rdft_message_def flag_defs)
  then show ?thesis
    using envelope_accepts_iff [of MT_Heartbeat 1 0 2 0] by (simp add: file_stream_message_def)
qed

lemma sample_known: "is_known_message_type 4"
  using known_iff_listed [of 4] rangeI [of message_value MT_Heartbeat] by simp

lemma sample_lengths: "validate_lengths 2 0 default_limits = Inr 34"
  by (simp add: validate_lengths_def checked_frame_bytes_def default_limits_def u64_max_def
      kFixedHeaderBytes_def qsizetype_max_def Let_def)

lemma unat_u32_max: "unat u32_max = 4294967295"
  by (simp add: u32_max_def unsigned_minus_1_eq_mask mask_eq_exp_minus_1)

lemma sample_encoded: "encode sample_frame default_limits = Inr sample_bytes"
  using sample_envelope sample_known sample_lengths unat_u32_max
  by (simp add: encode_def sample_bytes_def sample_frame_def default_frame_def kProtocolMajorVersion_def)

lemma sample_qsize: "qsize_ok (f_payload sample_frame)"
  by (simp add: qsize_ok_def sample_frame_def default_frame_def)

lemma length_sample [simp]: "length sample_bytes = 34"
  by (simp add: sample_bytes_def)

section \<open>Properties\<close>

text \<open>C24. Round trip: decoding an encoded frame, with any bytes of later frames behind it, yields
  the frame, consumes exactly its bytes and leaves the later ones in the buffer.\<close>

theorem frame_roundtrip:
  assumes "encode f limits = Inr bs" and "qsize_ok (f_payload f)"
  shows "try_decode (bs @ rest) out limits = (FrameReady (length bs), rest, f)"
  using assms by (rule try_decode_encoded)

theorem frame_roundtrip_witness:
  "try_decode (sample_bytes @ [1, 2, 3]) default_frame default_limits =
     (FrameReady 34, [1, 2, 3], sample_frame)"
  using frame_roundtrip [OF sample_encoded sample_qsize] by simp

text \<open>C25. The wire form is canonical: whatever bytes the decoder accepts as a frame, the encoder,
  under the same limits, writes exactly those bytes for it; the decoder removed them and
  nothing else.\<close>

theorem frame_canonical:
  assumes "try_decode buffer out limits = (FrameReady n, rest, f)"
  shows "encode f limits = Inr (take n buffer) \<and> rest = drop n buffer \<and>
    n = 32 + length (f_metadata f) + length (f_payload f) \<and> n \<le> length buffer"
  using try_decode_canonical [OF assms] try_decode_ready_consumes [OF assms] by simp

theorem frame_canonical_witness: "encode sample_frame default_limits = Inr (take 34 (sample_bytes @ [5]))"
  using frame_canonical [of "sample_bytes @ [5]" default_frame default_limits 34 "[5]" sample_frame]
    try_decode_encoded [OF sample_encoded sample_qsize, of "[5]" default_frame] by simp

text \<open>C27. Nothing is lost while a frame is incomplete or wrong: every proper prefix of an encoded
  frame asks for more data, and no call that does not return a frame touches the buffer or the
  output frame.\<close>

theorem frame_incomplete_untouched:
  assumes "encode f limits = Inr bs" and "qsize_ok (f_payload f)"
  shows "(n < length bs \<longrightarrow> try_decode (take n bs) out limits = (NeedMoreData, take n bs, out)) \<and>
    (case try_decode buffer out limits of
       (FrameReady k, r, g) \<Rightarrow> 32 \<le> k
     | (_, r, g) \<Rightarrow> r = buffer \<and> g = out)"
  using try_decode_prefix [OF assms] try_decode_not_ready_untouched [of buffer out limits]
    try_decode_ready_consumes(2) [of buffer out limits]
  by (auto split: prod.splits frame_decode_result.splits)

theorem frame_incomplete_untouched_witness:
  "try_decode (take 33 sample_bytes) default_frame default_limits =
     (NeedMoreData, take 33 sample_bytes, default_frame)"
  using frame_incomplete_untouched [OF sample_encoded sample_qsize, of 33] by simp



text \<open>The frame length arithmetic never wraps: the checked sum is the true sum of header,
  metadata and payload whenever that fits 64 bits, and is refused exactly when it does not.\<close>

theorem frame_length_exact:
  "checked_frame_bytes m p =
     (if 32 + unat m + unat p < 2 ^ 64 then Some (word_of_nat (32 + unat m + unat p)) else None)"
proof (cases "checked_frame_bytes m p")
  case None
  then show ?thesis using checked_frame_bytes_None_iff [of m p] by simp
next
  case (Some n)
  then have "n = word_of_nat (32 + unat m + unat p)"
    using checked_frame_bytes_Some [of m p n] by (metis word_of_nat_unat_eq)
  moreover have "32 + unat m + unat p < 2 ^ 64"
    using Some checked_frame_bytes_None_iff [of m p] by simp
  ultimately show ?thesis using Some by simp
qed

end
