(* ===== verification/FileSender.thy ===== *)
theory FileSender
  imports FileMessages PathPolicy FrameCodec
begin

text \<open>
  \<open>TransferSender\<close>, the pull-style producer of one file's frames, and \<open>TransferSenderPump\<close>, which
  moves its frames into a sink under high and low water marks. The source file is an argument of
  each call (\<open>source_env\<close>: what \<open>QFileInfo\<close>, \<open>open\<close> and \<open>read\<close> answer at that moment), so the model
  covers files that change or fail while they are sent. SHA-256 is an argument; the running
  \<open>QCryptographicHash\<close> is the list of bytes added to it.
\<close>

section \<open>Environment\<close>

record file_info =
  fi_exists :: bool
  fi_is_sym_link :: bool
  fi_is_file :: bool
  fi_size :: int
  fi_last_modified_ms :: int

text \<open>A read that returned a null array with an error, or the bytes it returned.\<close>

datatype read_result = ReadError | ReadBytes bytes

record source_env =
  se_info :: file_info
  se_open_ok :: bool
  se_read :: "nat \<Rightarrow> nat \<Rightarrow> read_result"

type_synonym sha256 = "bytes \<Rightarrow> bytes"

section \<open>Sender\<close>

record sender_request =
  sr_transfer_id :: uuid
  sr_source :: prepared_manifest_entry
  sr_stream_id :: u64
  sr_chunk_bytes :: u32
  sr_start_offset :: u64

datatype sender_error =
    SE_InvalidRequest | SE_SourceOpenFailed | SE_SourceReadFailed | SE_SourceChanged
  | SE_ProtocolError | SE_AlreadyFinished

datatype sender_state =
    SS_Initial | SS_PrefixHashing | SS_BeginPending | SS_Chunks | SS_EndPending | SS_Finished | SS_Failed

text \<open>\<open>SenderFrameResult\<close>: the status with the frame or the error it carries.\<close>

datatype sender_result =
    SF_FrameReady frame
  | SF_Preparing
  | SF_Finished
  | SF_Failed sender_error

record sender =
  sn_request :: sender_request
  sn_position :: nat
  sn_hashed :: bytes
  sn_offset :: u64
  sn_sequence :: u64
  sn_state :: sender_state

definition new_sender :: "sender_request \<Rightarrow> sender" where
  "new_sender request = \<lparr>sn_request = request, sn_position = 0, sn_hashed = [], sn_offset = 0,
     sn_sequence = 0, sn_state = SS_Initial\<rparr>"

abbreviation sn_entry :: "sender \<Rightarrow> manifest_entry" where
  "sn_entry s \<equiv> pme_entry (sr_source (sn_request s))"

definition kMaxSenderChunkBytes :: u32 where
  "kMaxSenderChunkBytes = 4 * 1024 * 1024"

definition snapshot_matches :: "file_info \<Rightarrow> manifest_entry \<Rightarrow> bool" where
  "snapshot_matches info entry \<longleftrightarrow>
     fi_exists info \<and> \<not> fi_is_sym_link info \<and> fi_is_file info \<and> fi_size info \<ge> 0 \<and>
     word_of_int (fi_size info) = me_size entry \<and>
     Some (fi_last_modified_ms info) = me_modified_utc entry"

definition validate_request :: "qt_text \<Rightarrow> qt_dir \<Rightarrow> sender_request \<Rightarrow> bool" where
  "validate_request qt qd r =
     (let entry = pme_entry (sr_source r) in
      if sr_stream_id r = 0 \<or> sr_chunk_bytes r = 0 \<or> sr_chunk_bytes r > kMaxSenderChunkBytes \<or>
         ucast (sr_chunk_bytes r) > max_data_payload_bytes default_limits then False
      else if pme_canonical_source_path (sr_source r) = [] \<or> me_type entry \<noteq> MET_File \<or>
              (case me_modified_utc entry of None \<Rightarrow> True | Some ms \<Rightarrow> ms < 0) \<or>
              length (me_sha256 entry) \<noteq> kSha256Bytes then False
      else if (case validate_relative qt qd (me_relative_protocol_path entry) default_path_limits of
                 Inl _ \<Rightarrow> True
               | Inr v \<Rightarrow> vp_normalized v \<noteq> me_relative_protocol_path entry) then False
      else if me_size entry > qsizetype_max then False
      else if sr_start_offset r > me_size entry then False
      else True)"

definition sender_fail :: "sender_error \<Rightarrow> sender \<Rightarrow> sender_result \<times> sender" where
  "sender_fail e s = (SF_Failed e, s\<lparr>sn_state := SS_Failed\<rparr>)"

definition encode_frame ::
  "message_type \<Rightarrow> bytes \<Rightarrow> bytes \<Rightarrow> sender \<Rightarrow> sender_result \<times> sender" where
  "encode_frame t metadata payload s =
     (if metadata = [] then sender_fail SE_ProtocolError s
      else (SF_FrameReady \<lparr>f_version = kProtocolMajorVersion, f_type = message_value t,
              f_flags = (if t = MT_FileEnd then flag_Final else 0),
              f_stream_id = sr_stream_id (sn_request s), f_metadata = metadata,
              f_payload = payload\<rparr>, s))"

definition begin_message :: "sender \<Rightarrow> file_control_message" where
  "begin_message s = FM_Begin
     \<lparr>fb_transfer_id = sr_transfer_id (sn_request s), fb_file_id = me_id (sn_entry s),
      fb_size = me_size (sn_entry s), fb_start_offset = sr_start_offset (sn_request s),
      fb_chunk_bytes = sr_chunk_bytes (sn_request s), fb_expected_sha256 = me_sha256 (sn_entry s)\<rparr>"

definition begin_file :: "qt_text \<Rightarrow> qt_cbor \<Rightarrow> sender \<Rightarrow> sender_result \<times> sender" where
  "begin_file qt qc s =
     (let metadata = encode_file_message qt qc (begin_message s) in
      if metadata = [] then sender_fail SE_ProtocolError s
      else encode_frame MT_FileBegin metadata []
        (s\<lparr>sn_state := (if sr_start_offset (sn_request s) = me_size (sn_entry s) then SS_EndPending
                        else SS_Chunks)\<rparr>))"

definition rehash_prefix :: "source_env \<Rightarrow> sender \<Rightarrow> sender_result \<times> sender" where
  "rehash_prefix env s =
     (let remaining = sr_start_offset (sn_request s) - sn_offset s;
          wanted = min remaining (ucast (sr_chunk_bytes (sn_request s)))
      in case se_read env (sn_position s) (unat wanted) of
           ReadError \<Rightarrow> sender_fail SE_SourceReadFailed s
         | ReadBytes prefix \<Rightarrow>
             if length prefix \<noteq> unat wanted then sender_fail SE_SourceChanged s
             else (SF_Preparing,
                   s\<lparr>sn_position := sn_position s + length prefix, sn_hashed := sn_hashed s @ prefix,
                     sn_offset := sn_offset s + wanted,
                     sn_state := (if sn_offset s + wanted = sr_start_offset (sn_request s)
                                  then SS_BeginPending else sn_state s)\<rparr>))"

definition initialize_sender ::
  "qt_text \<Rightarrow> qt_dir \<Rightarrow> qt_cbor \<Rightarrow> source_env \<Rightarrow> sender \<Rightarrow> sender_result \<times> sender" where
  "initialize_sender qt qd qc env s =
     (if \<not> validate_request qt qd (sn_request s) then sender_fail SE_InvalidRequest s
      else if \<not> snapshot_matches (se_info env) (sn_entry s) then sender_fail SE_SourceChanged s
      else if \<not> se_open_ok env then sender_fail SE_SourceOpenFailed s
      else if sr_start_offset (sn_request s) = 0
        then begin_file qt qc (s\<lparr>sn_state := SS_BeginPending\<rparr>)
      else rehash_prefix env (s\<lparr>sn_state := SS_PrefixHashing\<rparr>))"

definition chunk_message :: "sender \<Rightarrow> file_control_message" where
  "chunk_message s = FM_Chunk
     \<lparr>fc_transfer_id = sr_transfer_id (sn_request s), fc_file_id = me_id (sn_entry s),
      fc_offset = sn_offset s, fc_sequence = sn_sequence s\<rparr>"

definition produce_chunk :: "qt_text \<Rightarrow> qt_cbor \<Rightarrow> source_env \<Rightarrow> sender \<Rightarrow> sender_result \<times> sender" where
  "produce_chunk qt qc env s =
     (let remaining = me_size (sn_entry s) - sn_offset s;
          wanted = min remaining (ucast (sr_chunk_bytes (sn_request s)))
      in case se_read env (sn_position s) (unat wanted) of
           ReadError \<Rightarrow> sender_fail SE_SourceReadFailed s
         | ReadBytes payload \<Rightarrow>
             if length payload \<noteq> unat wanted then sender_fail SE_SourceChanged s
             else let metadata = encode_file_message qt qc (chunk_message s) in
               if metadata = [] then sender_fail SE_ProtocolError s
               else encode_frame MT_FileChunk metadata payload
                 (s\<lparr>sn_position := sn_position s + length payload,
                    sn_hashed := sn_hashed s @ payload, sn_offset := sn_offset s + wanted,
                    sn_sequence := sn_sequence s + 1,
                    sn_state := (if sn_offset s + wanted = me_size (sn_entry s) then SS_EndPending
                                 else sn_state s)\<rparr>))"

definition end_message :: "sha256 \<Rightarrow> sender \<Rightarrow> file_control_message" where
  "end_message sha s = FM_End
     \<lparr>fe_transfer_id = sr_transfer_id (sn_request s), fe_file_id = me_id (sn_entry s),
      fe_size = sn_offset s, fe_sha256 = sha (sn_hashed s)\<rparr>"

definition finish_file ::
  "qt_text \<Rightarrow> qt_cbor \<Rightarrow> sha256 \<Rightarrow> source_env \<Rightarrow> sender \<Rightarrow> sender_result \<times> sender" where
  "finish_file qt qc sha env s =
     (if sn_offset s \<noteq> me_size (sn_entry s) \<or> \<not> snapshot_matches (se_info env) (sn_entry s) \<or>
         sha (sn_hashed s) \<noteq> me_sha256 (sn_entry s)
        then sender_fail SE_SourceChanged s
      else let metadata = encode_file_message qt qc (end_message sha s) in
        if metadata = [] then sender_fail SE_ProtocolError s
        else encode_frame MT_FileEnd metadata [] (s\<lparr>sn_state := SS_Finished\<rparr>))"

definition next_frame ::
  "qt_text \<Rightarrow> qt_dir \<Rightarrow> qt_cbor \<Rightarrow> sha256 \<Rightarrow> source_env \<Rightarrow> sender \<Rightarrow> sender_result \<times> sender" where
  "next_frame qt qd qc sha env s =
     (case sn_state s of
        SS_Initial \<Rightarrow> initialize_sender qt qd qc env s
      | SS_PrefixHashing \<Rightarrow> rehash_prefix env s
      | SS_BeginPending \<Rightarrow> begin_file qt qc s
      | SS_Chunks \<Rightarrow> produce_chunk qt qc env s
      | SS_EndPending \<Rightarrow> finish_file qt qc sha env s
      | SS_Finished \<Rightarrow> (SF_Finished, s)
      | SS_Failed \<Rightarrow> (SF_Failed SE_AlreadyFinished, s))"

definition sender_finished :: "sender \<Rightarrow> bool" where
  "sender_finished s \<longleftrightarrow> sn_state s = SS_Finished"

section \<open>Pump\<close>

text \<open>
  The sink is an interface of the code (\<open>TransferFrameSink\<close>): its state is a type parameter, its
  two methods are the fields of \<open>frame_sink\<close>.
\<close>

datatype sink_status = SK_Accepted | SK_Backpressured | SK_Failed

record 'k frame_sink =
  fs_queued_bytes :: "'k \<Rightarrow> u64"
  fs_submit :: "frame \<Rightarrow> 'k \<Rightarrow> sink_status \<times> 'k"

record backpressure_limits =
  bl_high_water_bytes :: u64
  bl_low_water_bytes :: u64

datatype pump_result = PR_Progressed | PR_Backpressured | PR_Finished | PR_Failed sender_error

record sender_pump =
  pm_sender :: sender
  pm_limits :: backpressure_limits
  pm_pending :: "frame option"
  pm_source_pulls :: u64
  pm_paused :: bool
  pm_failed :: bool

definition new_pump :: "sender_request \<Rightarrow> backpressure_limits \<Rightarrow> sender_pump" where
  "new_pump request limits = \<lparr>pm_sender = new_sender request, pm_limits = limits, pm_pending = None,
     pm_source_pulls = 0, pm_paused = False, pm_failed = False\<rparr>"

text \<open>The second half of \<open>pump\<close>: submit the pending frame and act on the sink's answer.\<close>

definition submit_pending ::
  "'k frame_sink \<Rightarrow> frame \<Rightarrow> sender_pump \<Rightarrow> 'k \<Rightarrow> pump_result \<times> sender_pump \<times> 'k" where
  "submit_pending sink f p k =
     (case fs_submit sink f k of
        (SK_Accepted, k') \<Rightarrow>
          let p1 = p\<lparr>pm_pending := None\<rparr> in
          if sender_finished (pm_sender p1) then (PR_Finished, p1, k')
          else if fs_queued_bytes sink k' \<ge> bl_high_water_bytes (pm_limits p)
            then (PR_Backpressured, p1\<lparr>pm_paused := True\<rparr>, k')
          else (PR_Progressed, p1, k')
      | (SK_Backpressured, k') \<Rightarrow> (PR_Backpressured, p\<lparr>pm_paused := True\<rparr>, k')
      | (SK_Failed, k') \<Rightarrow> (PR_Failed SE_ProtocolError, p\<lparr>pm_failed := True\<rparr>, k'))"

definition pump ::
  "'k frame_sink \<Rightarrow> (sender \<Rightarrow> sender_result \<times> sender) \<Rightarrow> sender_pump \<Rightarrow> 'k \<Rightarrow>
   pump_result \<times> sender_pump \<times> 'k" where
  "pump sink pull p k =
     (let high = bl_high_water_bytes (pm_limits p); low = bl_low_water_bytes (pm_limits p);
          queued = fs_queued_bytes sink k
      in
      if pm_failed p then (PR_Failed SE_AlreadyFinished, p, k)
      else if sender_finished (pm_sender p) \<and> pm_pending p = None then (PR_Finished, p, k)
      else if high = 0 \<or> low \<ge> high then (PR_Failed SE_InvalidRequest, p\<lparr>pm_failed := True\<rparr>, k)
      else if pm_paused p \<and> queued > low then (PR_Backpressured, p, k)
      else let p1 = p\<lparr>pm_paused := False\<rparr> in
        if pm_pending p1 = None \<and> queued \<ge> high
          then (PR_Backpressured, p1\<lparr>pm_paused := True\<rparr>, k)
        else case pm_pending p1 of
          Some f \<Rightarrow> submit_pending sink f p1 k
        | None \<Rightarrow>
            let p2 = p1\<lparr>pm_source_pulls := pm_source_pulls p1 + 1\<rparr> in
            (case pull (pm_sender p2) of
               (SF_Preparing, s) \<Rightarrow> (PR_Progressed, p2\<lparr>pm_sender := s\<rparr>, k)
             | (SF_Finished, s) \<Rightarrow> (PR_Finished, p2\<lparr>pm_sender := s\<rparr>, k)
             | (SF_Failed e, s) \<Rightarrow> (PR_Failed e, p2\<lparr>pm_sender := s, pm_failed := True\<rparr>, k)
             | (SF_FrameReady f, s) \<Rightarrow>
                 submit_pending sink f (p2\<lparr>pm_sender := s, pm_pending := Some f\<rparr>) k))"

definition pump_finished :: "sender_pump \<Rightarrow> bool" where
  "pump_finished p \<longleftrightarrow> sender_finished (pm_sender p) \<and> pm_pending p = None"

definition frame_memory_bytes :: "frame \<Rightarrow> u64" where
  "frame_memory_bytes f =
     word_of_nat kFixedHeaderBytes + word_of_nat (length (f_metadata f)) + word_of_nat (length (f_payload f))"

definition buffered_frame_bytes :: "sender_pump \<Rightarrow> u64" where
  "buffered_frame_bytes p = (case pm_pending p of Some f \<Rightarrow> frame_memory_bytes f | None \<Rightarrow> 0)"

end
