(* ===== verification/FileStream.thy ===== *)
theory FileStream
  imports FileSender
begin

text \<open>
  What the sender puts on the wire for a file that does not change while it is sent: begin, the
  chunks of the file from the start offset in order, end. And what the pump adds: nothing and
  loses nothing, whatever the sink answers.
\<close>

section \<open>The stream of an unchanged file\<close>

text \<open>The specification: the file cut into chunks, and one frame per chunk between begin and end.\<close>

function slices :: "nat \<Rightarrow> 'a list \<Rightarrow> 'a list list" where
  "slices c xs = (if c = 0 \<or> xs = [] then [] else take c xs # slices c (drop c xs))"
  by pat_completeness auto
termination
  by (relation "measure (\<lambda>(c, xs). length xs)") auto

declare slices.simps [simp del]

lemma slices_Nil [simp]: "slices c [] = []"
  by (simp add: slices.simps)

lemma slices_step: "c \<noteq> 0 \<Longrightarrow> xs \<noteq> [] \<Longrightarrow> slices c xs = take c xs # slices c (drop c xs)"
  by (simp add: slices.simps [of c xs])

lemma concat_slices: "c \<noteq> 0 \<Longrightarrow> concat (slices c xs) = xs"
proof (induction c xs rule: slices.induct)
  case (1 c xs)
  then show ?case by (cases "xs = []") (simp_all add: slices_step)
qed

lemma slices_sizes: "p \<in> set (slices c xs) \<Longrightarrow> p \<noteq> [] \<and> length p \<le> c"
proof (induction c xs rule: slices.induct)
  case (1 c xs)
  show ?case
  proof (cases "c = 0 \<or> xs = []")
    case True
    with 1 show ?thesis by (auto simp: slices.simps [of c xs])
  next
    case False
    with 1 show ?thesis by (auto simp: slices_step)
  qed
qed

definition stream_frame :: "sender_request \<Rightarrow> message_type \<Rightarrow> u32 \<Rightarrow> bytes \<Rightarrow> bytes \<Rightarrow> frame" where
  "stream_frame r t flags metadata payload =
     \<lparr>f_version = kProtocolMajorVersion, f_type = message_value t, f_flags = flags,
      f_stream_id = sr_stream_id r, f_metadata = metadata, f_payload = payload\<rparr>"

fun chunk_frames ::
  "qt_text \<Rightarrow> qt_cbor \<Rightarrow> sender_request \<Rightarrow> nat \<Rightarrow> nat \<Rightarrow> bytes list \<Rightarrow> frame list" where
  "chunk_frames qt qc r off k [] = []"
| "chunk_frames qt qc r off k (p # ps) =
     stream_frame r MT_FileChunk 0
       (encode_file_message qt qc (FM_Chunk
          \<lparr>fc_transfer_id = sr_transfer_id r, fc_file_id = me_id (pme_entry (sr_source r)),
           fc_offset = word_of_nat off, fc_sequence = word_of_nat k\<rparr>)) p
     # chunk_frames qt qc r (off + length p) (Suc k) ps"

definition begin_frame :: "qt_text \<Rightarrow> qt_cbor \<Rightarrow> sender_request \<Rightarrow> frame" where
  "begin_frame qt qc r = stream_frame r MT_FileBegin 0
     (encode_file_message qt qc (begin_message (new_sender r))) []"

definition end_frame :: "qt_text \<Rightarrow> qt_cbor \<Rightarrow> sender_request \<Rightarrow> frame" where
  "end_frame qt qc r = stream_frame r MT_FileEnd flag_Final
     (encode_file_message qt qc (FM_End
        \<lparr>fe_transfer_id = sr_transfer_id r, fe_file_id = me_id (pme_entry (sr_source r)),
         fe_size = me_size (pme_entry (sr_source r)), fe_sha256 = me_sha256 (pme_entry (sr_source r))\<rparr>)) []"

definition file_frames :: "qt_text \<Rightarrow> qt_cbor \<Rightarrow> sender_request \<Rightarrow> bytes \<Rightarrow> frame list" where
  "file_frames qt qc r data =
     (let start = unat (sr_start_offset r) in
      begin_frame qt qc r #
      chunk_frames qt qc r start 0 (slices (unat (sr_chunk_bytes r)) (drop start data)) @
      [end_frame qt qc r])"

text \<open>Pulling frames until the sender has none, or for \<open>n\<close> calls.\<close>

fun pull_frames ::
  "(sender \<Rightarrow> sender_result \<times> sender) \<Rightarrow> nat \<Rightarrow> sender \<Rightarrow> frame list \<times> sender" where
  "pull_frames pull 0 s = ([], s)"
| "pull_frames pull (Suc n) s =
     (case pull s of
        (SF_FrameReady f, s') \<Rightarrow> (case pull_frames pull n s' of (fs, s'') \<Rightarrow> (f # fs, s''))
      | (SF_Preparing, s') \<Rightarrow> pull_frames pull n s'
      | (SF_Finished, s') \<Rightarrow> ([], s')
      | (SF_Failed _, s') \<Rightarrow> ([], s'))"

text \<open>An environment that shows the unchanged file at every call.\<close>

definition honest_source :: "bytes \<Rightarrow> manifest_entry \<Rightarrow> source_env \<Rightarrow> bool" where
  "honest_source data entry env \<longleftrightarrow>
     (\<forall>pos n. se_read env pos n = ReadBytes (take n (drop pos data))) \<and> se_open_ok env \<and>
     snapshot_matches (se_info env) entry"

text \<open>The sender when the file is read up to \<open>off\<close> and \<open>k\<close> chunks were sent.\<close>

definition sender_at :: "sender_request \<Rightarrow> bytes \<Rightarrow> nat \<Rightarrow> nat \<Rightarrow> sender_state \<Rightarrow> sender" where
  "sender_at r data off k st = \<lparr>sn_request = r, sn_position = off, sn_hashed = take off data,
     sn_offset = word_of_nat off, sn_sequence = word_of_nat k, sn_state = st\<rparr>"

lemma sender_at_simps [simp]:
  "sn_request (sender_at r data off k st) = r" "sn_position (sender_at r data off k st) = off"
  "sn_hashed (sender_at r data off k st) = take off data"
  "sn_offset (sender_at r data off k st) = word_of_nat off"
  "sn_sequence (sender_at r data off k st) = word_of_nat k"
  "sn_state (sender_at r data off k st) = st"
  "(sender_at r data off k st)\<lparr>sn_state := st'\<rparr> = sender_at r data off k st'"
  by (simp_all add: sender_at_def)

lemma new_sender_at: "new_sender r = sender_at r data 0 0 SS_Initial"
  by (simp add: new_sender_def sender_at_def)

definition sending :: "qt_text \<Rightarrow> qt_dir \<Rightarrow> qt_cbor \<Rightarrow> sender_request \<Rightarrow> bytes \<Rightarrow> bool" where
  "sending qt qd qc r data \<longleftrightarrow>
     validate_request qt qd r \<and> length data = unat (me_size (pme_entry (sr_source r))) \<and>
     (\<forall>f. qc_to_cbor qc (CMap f) \<noteq> [])"

lemma sending_facts:
  assumes "sending qt qd qc r data"
  shows "sr_chunk_bytes r \<noteq> 0" "sr_chunk_bytes r \<le> kMaximumChunkBytes"
    "length data < 2 ^ 63" "unat (sr_start_offset r) \<le> length data"
    "length (me_sha256 (pme_entry (sr_source r))) = kSha256Bytes"
    "me_size (pme_entry (sr_source r)) = word_of_nat (length data)"
    "sr_start_offset r \<le> me_size (pme_entry (sr_source r))"
    "me_size (pme_entry (sr_source r)) \<le> qsizetype_max"
  using assms unat_qsizetype_max
  by (auto simp: sending_def validate_request_def Let_def kMaxSenderChunkBytes_def
      kMaximumChunkBytes_def not_less word_le_nat_alt split: if_splits)

lemma unat_min: "unat (min a b) = min (unat a) (unat (b :: u64))"
  by (simp add: min_def word_le_nat_alt)

lemma word_of_nat_inject_63:
  assumes "a < 2 ^ 63" and "b < 2 ^ 63"
  shows "(word_of_nat a :: u64) = word_of_nat b \<longleftrightarrow> a = b"
proof -
  have "a < 2 ^ 64" "b < 2 ^ 64" using assms by simp_all
  then show ?thesis using unat_of_nat_u64 by metis
qed

lemma unat_of_nat_63: "n < 2 ^ 63 \<Longrightarrow> unat (word_of_nat n :: u64) = n"
  by (rule unat_of_nat_u64) simp

lemma unat_diff_of_nat:
  "off \<le> n \<Longrightarrow> n < 2 ^ 63 \<Longrightarrow> unat (word_of_nat n - word_of_nat off :: u64) = n - off"
  by (subst unat_u64_sub) (simp_all add: unat_of_nat_63)

section \<open>One step of each phase\<close>

lemma encode_nonempty:
  assumes "sending qt qd qc r data" and "validate_file_message qt m"
  shows "encode_file_message qt qc m \<noteq> []"
  using assms by (simp add: encode_file_message_def file_message_map_def sending_def)

lemma wire_of_nat: "n < 2 ^ 63 \<Longrightarrow> wire_integer (word_of_nat n)"
  by (simp add: wire_integer_nat unat_of_nat_63)

lemma wanted_bytes:
  assumes "off \<le> n" and "n < 2 ^ 63"
  shows "unat (min (word_of_nat n - word_of_nat off) (ucast (c :: u32)) :: u64) = min (n - off) (unat c)"
  using assms by (simp add: unat_min unat_diff_of_nat)

lemma offset_advance:
  assumes "off \<le> n" and "n < 2 ^ 63"
  shows "word_of_nat off + min (word_of_nat n - word_of_nat off) (ucast (c :: u32)) =
    (word_of_nat (off + min (n - off) (unat c)) :: u64)"
  using wanted_bytes [OF assms, of c] by (metis of_nat_add word_of_nat_unat_eq)

lemma produce_chunk_step:
  assumes "sending qt qd qc r data" and "honest_source data (pme_entry (sr_source r)) env"
    and "off < length data" and "k \<le> off"
  defines "p \<equiv> take (unat (sr_chunk_bytes r)) (drop off data)"
  shows "produce_chunk qt qc env (sender_at r data off k SS_Chunks) =
    (SF_FrameReady (hd (chunk_frames qt qc r off k [p])),
     sender_at r data (off + length p) (Suc k)
       (if off + length p = length data then SS_EndPending else SS_Chunks))"
proof -
  note f = sending_facts [OF assms(1)]
  let ?w = "min (length data - off) (unat (sr_chunk_bytes r))"
  have len: "length p = ?w" by (simp add: p_def)
  have w: "unat (min (word_of_nat (length data) - word_of_nat off) (ucast (sr_chunk_bytes r)) :: u64) = ?w"
    using wanted_bytes [of off "length data"] assms(3) f(3) by simp
  have adv: "word_of_nat off + min (word_of_nat (length data) - word_of_nat off) (ucast (sr_chunk_bytes r)) =
      (word_of_nat (off + ?w) :: u64)"
    using offset_advance [of off "length data"] assms(3) f(3) by simp
  have read: "se_read env off ?w = ReadBytes p"
    using assms(2) by (simp add: honest_source_def p_def min_def)
  have enc: "encode_file_message qt qc (chunk_message (sender_at r data off k SS_Chunks)) \<noteq> []"
    using encode_nonempty [OF assms(1)] wire_of_nat [of off] wire_of_nat [of k] assms(3,4) f(3)
    by (simp add: chunk_message_def)
  have top: "(word_of_nat (off + ?w) = (word_of_nat (length data) :: u64)) \<longleftrightarrow> off + ?w = length data"
    using f(3) assms(3) by (intro word_of_nat_inject_63) auto
  have hashed: "take off data @ p = take (off + length p) data"
    by (simp add: p_def take_add min_def)
  show ?thesis
    using enc hashed
    by (simp add: produce_chunk_def Let_def f(6) w adv read len top [unfolded of_nat_add] encode_frame_def stream_frame_def
        chunk_message_def sender_at_def flip: of_nat_Suc) (simp add: add.commute)
qed

lemma chunks_phase:
  assumes "sending qt qd qc r data" and "\<And>s. pull s = next_frame qt qd qc sha env s"
    and "honest_source data (pme_entry (sr_source r)) env"
    and "off \<le> length data" and "k \<le> off" and "off < length data"
  defines "ps \<equiv> slices (unat (sr_chunk_bytes r)) (drop off data)"
  shows "\<exists>k'. pull_frames pull (length ps + n) (sender_at r data off k SS_Chunks) =
    (case pull_frames pull n (sender_at r data (length data) k' SS_EndPending) of
       (fs, s) \<Rightarrow> (chunk_frames qt qc r off k ps @ fs, s))"
  using assms(4-6) unfolding ps_def
proof (induction "length data - off" arbitrary: off k rule: less_induct)
  case less
  let ?c = "unat (sr_chunk_bytes r)"
  let ?p = "take ?c (drop off data)"
  have c: "?c \<noteq> 0" using sending_facts(1) [OF assms(1)] by (simp add: unat_eq_zero)
  have ne: "drop off data \<noteq> []" using less.prems by simp
  have sl: "slices ?c (drop off data) = ?p # slices ?c (drop (off + length ?p) data)"
    using slices_step [OF c ne] by (simp add: add.commute min_def)
  have step: "pull (sender_at r data off k SS_Chunks) =
    (SF_FrameReady (hd (chunk_frames qt qc r off k [?p])),
     sender_at r data (off + length ?p) (Suc k)
       (if off + length ?p = length data then SS_EndPending else SS_Chunks))"
    using produce_chunk_step [OF assms(1,3) less.prems(3,2)] by (simp add: assms(2) next_frame_def)
  have pos: "0 < length ?p" using ne c by simp
  show ?case
  proof (cases "off + length ?p = length data")
    case True
    then have "slices ?c (drop (off + length ?p) data) = []" by simp
    then show ?thesis
      using step True by (intro exI [of _ "Suc k"]) (simp add: sl split: prod.splits)
  next
    case False
    have le: "off + length ?p \<le> length data" using less.prems(1) by (auto simp: min_def)
    have kk: "Suc k \<le> off + length ?p" using less.prems(2) pos by (auto simp: min_def)
    have "length data - (off + length ?p) < length data - off" using pos less.prems by linarith
    moreover have lt: "off + length ?p < length data" using False le by linarith
    ultimately obtain k' where
      IH: "pull_frames pull (length (slices ?c (drop (off + length ?p) data)) + n)
            (sender_at r data (off + length ?p) (Suc k) SS_Chunks) =
        (case pull_frames pull n (sender_at r data (length data) k' SS_EndPending) of
           (fs, s) \<Rightarrow> (chunk_frames qt qc r (off + length ?p) (Suc k)
             (slices ?c (drop (off + length ?p) data)) @ fs, s))"
      using less.hyps [of "off + length ?p" "Suc k"] le kk by blast
    show ?thesis
      using step False IH by (intro exI [of _ k']) (simp add: sl del: length_take split: prod.splits)
  qed
qed

lemma finish_step:
  assumes "sending qt qd qc r data" and "honest_source data (pme_entry (sr_source r)) env"
    and "sha data = me_sha256 (pme_entry (sr_source r))"
  shows "finish_file qt qc sha env (sender_at r data (length data) k SS_EndPending) =
    (SF_FrameReady (end_frame qt qc r), sender_at r data (length data) k SS_Finished)"
proof -
  note f = sending_facts [OF assms(1)]
  have "validate_file_message qt (end_message sha (sender_at r data (length data) k SS_EndPending))"
    using wire_of_nat [OF f(3)] f(5) assms(3) by (simp add: end_message_def)
  then have "encode_file_message qt qc (end_message sha (sender_at r data (length data) k SS_EndPending)) \<noteq> []"
    by (rule encode_nonempty [OF assms(1)])
  then show ?thesis
    using assms(2,3) f(6)
    by (simp add: finish_file_def Let_def honest_source_def encode_frame_def end_frame_def
        stream_frame_def end_message_def)
qed

lemma begin_step:
  assumes "sending qt qd qc r data" and "off = unat (sr_start_offset r)"
  shows "begin_file qt qc (sender_at r data off 0 SS_BeginPending) =
    (SF_FrameReady (begin_frame qt qc r),
     sender_at r data off 0 (if off = length data then SS_EndPending else SS_Chunks))"
proof -
  note f = sending_facts [OF assms(1)]
  have "wire_integer (sr_start_offset r)" "wire_integer (me_size (pme_entry (sr_source r)))"
    using f(3,4) by (simp_all add: wire_integer_nat f(6) unat_of_nat_63)
  then have "validate_file_message qt (begin_message (sender_at r data off 0 SS_BeginPending))"
    using f by (simp add: begin_message_def)
  then have "encode_file_message qt qc (begin_message (sender_at r data off 0 SS_BeginPending)) \<noteq> []"
    by (rule encode_nonempty [OF assms(1)])
  moreover have "sr_start_offset r = me_size (pme_entry (sr_source r)) \<longleftrightarrow> off = length data"
    using f(3) assms(2) by (metis f(6) unat_of_nat_63 word_of_nat_unat_eq)
  moreover have "begin_message (sender_at r data off 0 SS_BeginPending) = begin_message (new_sender r)"
    by (simp add: begin_message_def new_sender_def)
  ultimately show ?thesis
    by (simp add: begin_file_def Let_def encode_frame_def begin_frame_def stream_frame_def)
qed

lemma rehash_step:
  assumes "sending qt qd qc r data" and "honest_source data (pme_entry (sr_source r)) env"
    and "off < unat (sr_start_offset r)"
  defines "off' \<equiv> off + min (unat (sr_start_offset r) - off) (unat (sr_chunk_bytes r))"
  shows "rehash_prefix env (sender_at r data off 0 SS_PrefixHashing) =
    (SF_Preparing, sender_at r data off' 0
       (if off' = unat (sr_start_offset r) then SS_BeginPending else SS_PrefixHashing))"
proof -
  note f = sending_facts [OF assms(1)]
  define st where "st = unat (sr_start_offset r)"
  define w where "w = min (st - off) (unat (sr_chunk_bytes r))"
  define pre where "pre = take w (drop off data)"
  have bound: "st < 2 ^ 63" "st \<le> length data" "off < st" using f(3,4) assms(3) by (simp_all add: st_def)
  have off': "off' = off + w" by (simp add: off'_def w_def st_def)
  have w: "unat (min (sr_start_offset r - word_of_nat off) (ucast (sr_chunk_bytes r)) :: u64) = w"
    using wanted_bytes [of off st "sr_chunk_bytes r"] bound by (simp add: w_def st_def)
  have adv: "word_of_nat off + min (sr_start_offset r - word_of_nat off) (ucast (sr_chunk_bytes r)) =
      (word_of_nat off' :: u64)"
    using offset_advance [of off st "sr_chunk_bytes r"] bound by (simp add: off' w_def st_def)
  have len: "length pre = w" using bound by (auto simp: pre_def w_def)
  have read: "se_read env off w = ReadBytes pre"
    using assms(2) by (simp add: honest_source_def pre_def)
  have "off' \<le> st" using bound by (auto simp: off' w_def)
  then have top: "(word_of_nat off' :: u64) = sr_start_offset r \<longleftrightarrow> off' = st"
    using bound word_of_nat_inject_63 [of off' st] by (simp add: st_def)
  have hashed: "take off data @ pre = take off' data"
    by (simp add: off' pre_def take_add)
  show ?thesis
    unfolding rehash_prefix_def Let_def sender_at_simps w read adv len hashed top read_result.case
      st_def [symmetric]
    by (simp add: sender_at_def off')
qed

lemma prefix_phase:
  assumes "sending qt qd qc r data" and "\<And>s. pull s = next_frame qt qd qc sha env s"
    and "honest_source data (pme_entry (sr_source r)) env"
    and "off < unat (sr_start_offset r)"
  defines "c \<equiv> unat (sr_chunk_bytes r)" and "st \<equiv> unat (sr_start_offset r)"
  shows "pull_frames pull (length (slices c (drop off (take st data))) + n)
      (sender_at r data off 0 SS_PrefixHashing) =
    pull_frames pull n (sender_at r data st 0 SS_BeginPending)"
  using assms(4) unfolding c_def st_def
proof (induction "unat (sr_start_offset r) - off" arbitrary: off rule: less_induct)
  case less
  let ?c = "unat (sr_chunk_bytes r)" and ?st = "unat (sr_start_offset r)"
  let ?off = "off + min (?st - off) ?c"
  have c: "?c \<noteq> 0" using sending_facts(1) [OF assms(1)] by (simp add: unat_eq_zero)
  have le: "?st \<le> length data" using sending_facts(4) [OF assms(1)] .
  have ne: "drop off (take ?st data) \<noteq> []" using less.prems le by simp
  have "drop ?c (drop off (take ?st data)) = drop ?off (take ?st data)"
    using le by (auto simp: min_def add.commute)
  then have sl: "length (slices ?c (drop off (take ?st data))) =
      Suc (length (slices ?c (drop ?off (take ?st data))))"
    using slices_step [OF c ne] by simp
  have step: "pull (sender_at r data off 0 SS_PrefixHashing) =
      (SF_Preparing, sender_at r data ?off 0 (if ?off = ?st then SS_BeginPending else SS_PrefixHashing))"
    using rehash_step [OF assms(1,3) less.prems] by (simp add: assms(2) next_frame_def)
  show ?case
  proof (cases "?off = ?st")
    case True
    then have "drop ?off (take ?st data) = []" by simp
    then show ?thesis using step True sl by simp
  next
    case False
    then have lt: "?off < ?st" using less.prems by (auto simp: min_def)
    have "?st - ?off < ?st - off" using less.prems c by simp
    from less.hyps [OF this lt] show ?thesis using step False sl by simp
  qed
qed

text \<open>The number of calls the whole stream takes.\<close>

definition stream_calls :: "sender_request \<Rightarrow> bytes \<Rightarrow> nat" where
  "stream_calls r data =
     (let c = unat (sr_chunk_bytes r); st = unat (sr_start_offset r)
      in length (slices c (take st data)) + length (slices c (drop st data)) + 2)"

lemma begin_to_end:
  assumes "sending qt qd qc r data" and "\<And>s. pull s = next_frame qt qd qc sha env s"
    and "honest_source data (pme_entry (sr_source r)) env"
    and "sha data = me_sha256 (pme_entry (sr_source r))"
  defines "c \<equiv> unat (sr_chunk_bytes r)" and "st \<equiv> unat (sr_start_offset r)"
  shows "\<exists>s. pull_frames pull (Suc (length (slices c (drop st data)) + 1))
      (sender_at r data st 0 SS_BeginPending) = (file_frames qt qc r data, s) \<and> sender_finished s"
proof -
  note f = sending_facts [OF assms(1)]
  have start: "pull (sender_at r data st 0 SS_BeginPending) =
      (SF_FrameReady (begin_frame qt qc r),
       sender_at r data st 0 (if st = length data then SS_EndPending else SS_Chunks))"
    using begin_step [OF assms(1), of st] by (simp add: assms(2) next_frame_def st_def)
  have fin: "pull_frames pull 1 (sender_at r data (length data) k SS_EndPending) =
      ([end_frame qt qc r], sender_at r data (length data) k SS_Finished)" for k
    using finish_step [of qt qd qc r data env sha k, OF assms(1,3,4)] by (simp add: assms(2) next_frame_def)
  show ?thesis
  proof (cases "st = length data")
    case True
    then show ?thesis
      using start fin [of 0]
      by (simp add: file_frames_def Let_def sender_finished_def flip: st_def c_def)
  next
    case False
    then have lt: "st < length data" using f(4) by (simp add: st_def)
    from chunks_phase [OF assms(1-3) _ _ lt, of 0 1] obtain k' where
      "pull_frames pull (length (slices c (drop st data)) + 1) (sender_at r data st 0 SS_Chunks) =
        (chunk_frames qt qc r st 0 (slices c (drop st data)) @ [end_frame qt qc r],
         sender_at r data (length data) k' SS_Finished)"
      using fin lt by (auto simp: c_def)
    then show ?thesis
      using start False
      by (simp add: file_frames_def Let_def sender_finished_def flip: st_def c_def)
  qed
qed

lemma sender_stream:
  assumes "sending qt qd qc r data" and "\<And>s. pull s = next_frame qt qd qc sha env s"
    and "honest_source data (pme_entry (sr_source r)) env"
    and "sha data = me_sha256 (pme_entry (sr_source r))"
  shows "\<exists>s. pull_frames pull (stream_calls r data) (new_sender r) = (file_frames qt qc r data, s) \<and>
    sender_finished s"
proof -
  let ?c = "unat (sr_chunk_bytes r)" and ?st = "unat (sr_start_offset r)"
  have ok: "validate_request qt qd r" "snapshot_matches (se_info env) (pme_entry (sr_source r))" "se_open_ok env"
    using assms(1,3) by (simp_all add: sending_def honest_source_def)
  note be = begin_to_end [OF assms]
  show ?thesis
  proof (cases "sr_start_offset r = 0")
    case True
    then have "pull (new_sender r) = pull (sender_at r data 0 0 SS_BeginPending)"
      using ok by (simp add: assms(2) next_frame_def new_sender_at [of r data] initialize_sender_def)
    then show ?thesis
      using be True by (simp add: stream_calls_def Let_def)
  next
    case False
    then have pos: "0 < ?st" by (simp add: unat_gt_0)
    have "pull (new_sender r) = pull (sender_at r data 0 0 SS_PrefixHashing)"
      using ok False by (simp add: assms(2) next_frame_def new_sender_at [of r data] initialize_sender_def)
    then have "pull_frames pull (Suc m) (new_sender r) =
        pull_frames pull (Suc m) (sender_at r data 0 0 SS_PrefixHashing)" for m
      by simp
    moreover have "stream_calls r data = length (slices ?c (drop 0 (take ?st data))) +
        Suc (length (slices ?c (drop ?st data)) + 1)"
      by (simp add: stream_calls_def Let_def)
    ultimately show ?thesis
      using prefix_phase [OF assms(1-3) pos, of "Suc (length (slices ?c (drop ?st data)) + 1)"] be
      by simp
  qed
qed


section \<open>The pump adds nothing and loses nothing\<close>

text \<open>
  A sink is faithful with respect to a log of what it took when it takes exactly the frames it
  accepts (the code asks of every sink that a backpressured result does not consume the frame).
\<close>

definition faithful_sink :: "'k frame_sink \<Rightarrow> ('k \<Rightarrow> frame list) \<Rightarrow> bool" where
  "faithful_sink sink log \<longleftrightarrow>
     (\<forall>f k. log (snd (fs_submit sink f k)) =
        (if fst (fs_submit sink f k) = SK_Accepted then log k @ [f] else log k))"

text \<open>A run of the pump; between two calls the sink may change without touching its log.\<close>

fun pump_run ::
  "'k frame_sink \<Rightarrow> (sender \<Rightarrow> sender_result \<times> sender) \<Rightarrow> ('k \<Rightarrow> 'k) list \<Rightarrow> sender_pump \<times> 'k \<Rightarrow>
   sender_pump \<times> 'k" where
  "pump_run sink pull [] (p, k) = (p, k)"
| "pump_run sink pull (g # gs) (p, k) = pump_run sink pull gs (snd (pump sink pull p (g k)))"

definition pending_list :: "sender_pump \<Rightarrow> frame list" where
  "pending_list p = (case pm_pending p of None \<Rightarrow> [] | Some f \<Rightarrow> [f])"

definition pump_accounts ::
  "(sender \<Rightarrow> sender_result \<times> sender) \<Rightarrow> sender \<Rightarrow> ('k \<Rightarrow> frame list) \<Rightarrow> sender_pump \<Rightarrow> 'k \<Rightarrow> bool" where
  "pump_accounts pull s0 log p k \<longleftrightarrow>
     (\<exists>n. pull_frames pull n s0 = (log k @ pending_list p, pm_sender p))"

text \<open>A sender that has stopped stays stopped.\<close>

definition stops :: "(sender \<Rightarrow> sender_result \<times> sender) \<Rightarrow> bool" where
  "stops pull \<longleftrightarrow>
     (\<forall>s s'. pull s = (SF_Finished, s') \<longrightarrow> s' = s) \<and>
     (\<forall>s s' e. pull s = (SF_Failed e, s') \<longrightarrow> (\<exists>e'. pull s' = (SF_Failed e', s')))"

lemma pull_frames_snoc:
  assumes "stops pull" and "pull_frames pull n s = (fs, s1)"
  shows "pull_frames pull (Suc n) s =
    (case pull s1 of (SF_FrameReady f, s2) \<Rightarrow> (fs @ [f], s2) | (_, s2) \<Rightarrow> (fs, s2))"
  using assms(2)
proof (induction n arbitrary: s fs)
  case 0
  then show ?case by (auto split: prod.splits sender_result.splits)
next
  case (Suc n)
  obtain res s' where p: "pull s = (res, s')" by (cases "pull s")
  show ?case
  proof (cases res)
    case (SF_FrameReady f)
    obtain gs where g: "pull_frames pull n s' = (gs, s1)" "fs = f # gs"
      using Suc.prems p SF_FrameReady by (auto split: prod.splits)
    have "pull_frames pull (Suc (Suc n)) s =
        (case pull_frames pull (Suc n) s' of (hs, s'') \<Rightarrow> (f # hs, s''))"
      using p SF_FrameReady by simp
    then show ?thesis
      using Suc.IH [OF g(1)] g(2) by (auto split: prod.splits sender_result.splits)
  next
    case SF_Preparing
    then have g: "pull_frames pull n s' = (fs, s1)" using Suc.prems p by simp
    have "pull_frames pull (Suc (Suc n)) s = pull_frames pull (Suc n) s'"
      using p SF_Preparing by simp
    then show ?thesis using Suc.IH [OF g] by simp
  next
    case SF_Finished
    then have "s' = s" using p assms(1) unfolding stops_def by blast
    then show ?thesis using Suc.prems p SF_Finished by simp
  next
    case (SF_Failed e)
    then have "s1 = s'" "fs = []" using Suc.prems p by simp_all
    moreover obtain e' where "pull s' = (SF_Failed e', s')"
      using assms(1) p SF_Failed unfolding stops_def by blast
    ultimately show ?thesis using p SF_Failed by simp
  qed
qed

definition fails_closed :: "sender_result \<times> sender \<Rightarrow> bool" where
  "fails_closed out \<longleftrightarrow>
     (case fst out of SF_Failed _ \<Rightarrow> sn_state (snd out) = SS_Failed | SF_Finished \<Rightarrow> False | _ \<Rightarrow> True)"

lemma fails_closed_simps [simp]:
  "fails_closed (sender_fail e s)" "fails_closed (SF_Preparing, s)" "fails_closed (SF_FrameReady f, s)"
  by (simp_all add: fails_closed_def sender_fail_def)

lemma fails_closed_ops:
  "fails_closed (encode_frame t md pl s)" "fails_closed (begin_file qt qc s)"
  "fails_closed (rehash_prefix env s)" "fails_closed (produce_chunk qt qc env s)"
  "fails_closed (finish_file qt qc sha env s)" "fails_closed (initialize_sender qt qd qc env s)"
proof -
  show ef: "fails_closed (encode_frame t md pl s)" for t md pl s
    by (simp add: encode_frame_def)
  show bf: "fails_closed (begin_file qt qc s)" for s
    by (simp add: begin_file_def Let_def ef)
  show rp: "fails_closed (rehash_prefix env s)" for s
    by (simp add: rehash_prefix_def Let_def split: read_result.split)
  show "fails_closed (produce_chunk qt qc env s)"
    by (simp add: produce_chunk_def Let_def ef split: read_result.split)
  show "fails_closed (finish_file qt qc sha env s)"
    by (simp add: finish_file_def Let_def ef)
  show "fails_closed (initialize_sender qt qd qc env s)"
    by (simp add: initialize_sender_def bf rp)
qed

lemma next_frame_stops: "stops (next_frame qt qd qc sha env)"
proof -
  have "(fst (next_frame qt qd qc sha env s) = SF_Finished \<longrightarrow>
        snd (next_frame qt qd qc sha env s) = s) \<and>
      (\<forall>e. fst (next_frame qt qd qc sha env s) = SF_Failed e \<longrightarrow>
        sn_state (snd (next_frame qt qd qc sha env s)) = SS_Failed)" for s
  proof (cases "sn_state s = SS_Finished \<or> sn_state s = SS_Failed")
    case True
    then show ?thesis by (auto simp: next_frame_def)
  next
    case False
    then have "fails_closed (next_frame qt qd qc sha env s)"
      by (simp add: next_frame_def fails_closed_ops split: sender_state.split)
    then show ?thesis by (auto simp: fails_closed_def split: sender_result.splits)
  qed
  note one = this
  have "s' = s" if "next_frame qt qd qc sha env s = (SF_Finished, s')" for s s'
    using one [of s] that by simp
  moreover have "sn_state s' = SS_Failed" if "next_frame qt qd qc sha env s = (SF_Failed e, s')" for s s' e
    using one [of s] that by simp
  moreover have "next_frame qt qd qc sha env s = (SF_Failed SE_AlreadyFinished, s)"
    if "sn_state s = SS_Failed" for s
    using that by (simp add: next_frame_def)
  ultimately show ?thesis unfolding stops_def by blast
qed

lemma submit_accounts:
  assumes "faithful_sink sink log" and "pm_pending p = Some f"
    and "submit_pending sink f p k = (res, p', k')"
  shows "log k' @ pending_list p' = log k @ pending_list p \<and> pm_sender p' = pm_sender p"
proof -
  obtain st k1 where s: "fs_submit sink f k = (st, k1)" by (cases "fs_submit sink f k")
  then have "log k1 = (if st = SK_Accepted then log k @ [f] else log k)"
    using assms(1) by (simp add: faithful_sink_def) (metis fst_conv snd_conv)
  then show ?thesis
    using assms(2,3) s
    by (cases st) (auto simp: submit_pending_def pending_list_def Let_def split: if_splits)
qed

lemma pump_step_accounts:
  assumes "stops pull" and "faithful_sink sink log" and "pump_accounts pull s0 log p k"
    and "pump sink pull p k = (res, p', k')"
  shows "pump_accounts pull s0 log p' k'"
proof -
  obtain n where n: "pull_frames pull n s0 = (log k @ pending_list p, pm_sender p)"
    using assms(3) by (auto simp: pump_accounts_def)
  show ?thesis
  proof (cases "pump sink pull p k = (res, p', k) \<and> pending_list p' = pending_list p \<and>
      pm_sender p' = pm_sender p")
    case True
    then show ?thesis using n assms(4) by (auto simp: pump_accounts_def)
  next
    case moved: False
    let ?p1 = "p\<lparr>pm_paused := False\<rparr>"
    show ?thesis
    proof (cases "pm_pending p")
      case (Some f)
      then have "submit_pending sink f ?p1 k = (res, p', k')"
        using assms(4) moved by (auto simp: pump_def Let_def pending_list_def split: if_splits)
      from submit_accounts [OF assms(2) _ this] show ?thesis
        using n Some by (auto simp: pump_accounts_def pending_list_def)
    next
      case None
      let ?p2 = "?p1\<lparr>pm_source_pulls := pm_source_pulls p + 1\<rparr>"
      obtain out s where pull: "pull (pm_sender p) = (out, s)" by (cases "pull (pm_sender p)")
      have next_pull: "pull_frames pull (Suc n) s0 =
          (case out of SF_FrameReady f \<Rightarrow> (log k @ [f], s) | _ \<Rightarrow> (log k, s))"
        using pull_frames_snoc [OF assms(1) n] pull None
        by (simp add: pending_list_def split: sender_result.splits)
      show ?thesis
      proof (cases "\<exists>f. out = SF_FrameReady f")
        case True
        then obtain f where f: "out = SF_FrameReady f" by blast
        then have "submit_pending sink f (?p2\<lparr>pm_sender := s, pm_pending := Some f\<rparr>) k = (res, p', k')"
          using assms(4) moved None pull
          by (auto simp: pump_def Let_def pending_list_def split: if_splits)
        from submit_accounts [OF assms(2) _ this] show ?thesis
          using next_pull f unfolding pump_accounts_def
          by (intro exI [of _ "Suc n"]) (simp add: pending_list_def)
      next
        case False
        then have "pm_pending p' = None" "pm_sender p' = s" "k' = k"
          using assms(4) moved None pull
          by (cases out; auto simp: pump_def Let_def pending_list_def split: if_splits)+
        then show ?thesis
          using next_pull False unfolding pump_accounts_def
          by (intro exI [of _ "Suc n"]) (cases out; simp add: pending_list_def)
      qed
    qed
  qed
qed

lemma pump_run_accounts:
  assumes "stops pull" and "faithful_sink sink log" and "\<forall>g \<in> set gs. \<forall>k. log (g k) = log k"
  shows "pump_accounts pull s0 log p k \<Longrightarrow>
    pump_accounts pull s0 log (fst (pump_run sink pull gs (p, k))) (snd (pump_run sink pull gs (p, k)))"
  using assms(3)
proof (induction gs arbitrary: p k)
  case Nil
  then show ?case by simp
next
  case (Cons g gs)
  obtain res p' k' where s: "pump sink pull p (g k) = (res, p', k')" by (metis prod_cases3)
  have "pump_accounts pull s0 log p (g k)"
    using Cons.prems by (simp add: pump_accounts_def)
  from pump_step_accounts [OF assms(1,2) this s] show ?case
    using Cons.IH Cons.prems(2) s by simp
qed

lemma pull_frames_finished:
  assumes "\<And>s. sender_finished s \<Longrightarrow> pull s = (SF_Finished, s)"
    and "pull_frames pull n s = (fs, s1)" and "sender_finished s1" and "n \<le> m"
  shows "pull_frames pull m s = (fs, s1)"
  using assms(2,4)
proof (induction n arbitrary: s fs m)
  case 0
  then show ?case using assms(1,3) by (cases m) auto
next
  case (Suc n)
  then obtain m' where m: "m = Suc m'" "n \<le> m'" by (cases m) auto
  obtain out s' where p: "pull s = (out, s')" by (cases "pull s")
  show ?case
  proof (cases "pull_frames pull n s'")
    case (Pair gs s2)
    then show ?thesis
      using Suc.prems(1) Suc.IH [of s' gs m'] p m by (cases out) auto
  qed
qed


lemma pull_frames_grow:
  assumes "stops pull" and "n \<le> m"
  shows "\<exists>gs. fst (pull_frames pull m s) = fst (pull_frames pull n s) @ gs"
  using assms(2)
proof (induction m rule: dec_induct)
  case base
  then show ?case by simp
next
  case (step m)
  obtain fs s1 where m: "pull_frames pull m s = (fs, s1)" by (cases "pull_frames pull m s")
  have "\<exists>hs. fst (pull_frames pull (Suc m) s) = fs @ hs"
    using pull_frames_snoc [OF assms(1) m]
    by (auto simp del: pull_frames.simps split: prod.splits sender_result.splits)
  then show ?case using step.IH m by auto
qed

lemma next_frame_finished: "sender_finished s \<Longrightarrow> next_frame qt qd qc sha env s = (SF_Finished, s)"
  by (simp add: next_frame_def sender_finished_def)

lemma stream_prefix:
  assumes "sending qt qd qc r data" and "honest_source data (pme_entry (sr_source r)) env"
    and "sha data = me_sha256 (pme_entry (sr_source r))"
    and "pull_frames (next_frame qt qd qc sha env) n (new_sender r) = (fs, s)"
  shows "(\<exists>rest. file_frames qt qc r data = fs @ rest) \<and>
    (sender_finished s \<longrightarrow> fs = file_frames qt qc r data)"
proof -
  let ?pull = "next_frame qt qd qc sha env" and ?N = "stream_calls r data"
  obtain s1 where N: "pull_frames ?pull ?N (new_sender r) = (file_frames qt qc r data, s1)"
      "sender_finished s1"
    using sender_stream [of qt qd qc r data ?pull sha env, OF assms(1) refl assms(2,3)] by blast
  have late: "fs = file_frames qt qc r data" if "?N \<le> n"
    using pull_frames_finished [of ?pull ?N "new_sender r", OF next_frame_finished N that] assms(4) by simp
  have early: "\<exists>rest. file_frames qt qc r data = fs @ rest" if "n \<le> ?N"
    using pull_frames_grow [OF next_frame_stops that, of qt qd qc sha env "new_sender r"] N(1) assms(4) by simp
  have fin: "fs = file_frames qt qc r data" if "sender_finished s" "n \<le> ?N"
    using pull_frames_finished [of ?pull n "new_sender r" fs s ?N, OF next_frame_finished assms(4) that] N(1)
    by simp
  show ?thesis
    using late early fin by (metis append_Nil2 nat_le_linear)
qed

section \<open>An accepting sink\<close>

definition accepting_sink :: "'k frame_sink \<Rightarrow> backpressure_limits \<Rightarrow> bool" where
  "accepting_sink sink limits \<longleftrightarrow>
     bl_low_water_bytes limits < bl_high_water_bytes limits \<and>
     (\<forall>k. fs_queued_bytes sink k < bl_high_water_bytes limits) \<and>
     (\<forall>f k. fst (fs_submit sink f k) = SK_Accepted)"

lemma accepting_run:
  assumes "accepting_sink sink limits" and "\<And>s. sender_finished s \<Longrightarrow> pull s = (SF_Finished, s)"
    and "pull_frames pull n s = (fs, s1)" and "sender_finished s1"
    and "pm_sender p = s" and "pm_pending p = None" and "\<not> pm_paused p" and "\<not> pm_failed p"
    and "pm_limits p = limits"
  shows "pump_finished (fst (pump_run sink pull (replicate n (\<lambda>k. k)) (p, k)))"
  using assms(3,5-)
proof (induction n arbitrary: s fs p k)
  case 0
  then show ?case using assms(4) by (simp add: pump_finished_def)
next
  case (Suc n)
  have lim: "bl_high_water_bytes limits \<noteq> 0" "\<not> bl_high_water_bytes limits \<le> bl_low_water_bytes limits"
    "\<And>k. \<not> bl_high_water_bytes limits \<le> fs_queued_bytes sink k"
    using assms(1) by (auto simp: accepting_sink_def not_le)
  have over: "pump_finished (fst (pump_run sink pull (replicate m (\<lambda>k. k)) (p, k)))"
    if "pm_pending p = None" "sender_finished (pm_sender p)" "\<not> pm_failed p" for m p k
    using that
  proof (induction m arbitrary: p k)
    case (Suc m)
    then have "pump sink pull p k = (PR_Finished, p, k)" by (simp add: pump_def Let_def)
    then show ?case using Suc by simp
  qed (simp add: pump_finished_def)
  show ?case
  proof (cases "sender_finished s")
    case True
    then show ?thesis using over [of p "Suc n" k] Suc.prems by simp
  next
    case False
    obtain out s' where p: "pull s = (out, s')" by (cases "pull s")
    let ?p2 = "p\<lparr>pm_paused := False, pm_source_pulls := pm_source_pulls p + 1\<rparr>"
    show ?thesis
    proof (cases out)
      case (SF_FrameReady f)
      obtain st k' where sub: "fs_submit sink f k = (st, k')" by (cases "fs_submit sink f k")
      then have "st = SK_Accepted"
        using assms(1) unfolding accepting_sink_def by (metis fst_conv)
      obtain res p' k2 where out: "pump sink pull p k = (res, p', k2)" by (metis prod_cases3)
      then have step: "pm_sender p' = s'" "pm_pending p' = None" "\<not> pm_paused p'" "\<not> pm_failed p'"
          "pm_limits p' = limits"
        using \<open>st = SK_Accepted\<close> Suc.prems False p SF_FrameReady lim sub
        by (auto simp: pump_def submit_pending_def Let_def split: if_splits)
      obtain gs where "pull_frames pull n s' = (gs, s1)"
        using Suc.prems(1) p SF_FrameReady by (auto split: prod.splits)
      then show ?thesis using Suc.IH [OF _ step] out by simp
    next
      case SF_Preparing
      then obtain res p' where step: "pump sink pull p k = (res, p', k)"
          "pm_sender p' = s'" "pm_pending p' = None" "\<not> pm_paused p'" "\<not> pm_failed p'" "pm_limits p' = limits"
        using Suc.prems False p lim by (auto simp: pump_def Let_def)
      have "pull_frames pull n s' = (fs, s1)"
        using Suc.prems(1) p SF_Preparing by simp
      then show ?thesis using Suc.IH [OF _ step(2-)] step(1) by simp
    next
      case SF_Finished
      then have s1: "s' = s1" using Suc.prems(1) p by simp
      have "pump sink pull p k = (PR_Finished, ?p2\<lparr>pm_sender := s'\<rparr>, k)"
        using Suc.prems False p lim SF_Finished by (simp add: pump_def Let_def)
      then show ?thesis using over [of "?p2\<lparr>pm_sender := s'\<rparr>" n k] Suc.prems s1 assms(4) by simp
    next
      case (SF_Failed e)
      then have s1: "s' = s1" using Suc.prems(1) p by simp
      have stay: "pump_finished (fst (pump_run sink pull (replicate m (\<lambda>k. k)) (q, k)))"
        if "pm_pending q = None" "sender_finished (pm_sender q)" "pm_failed q" for m q k
        using that
      proof (induction m arbitrary: q k)
        case (Suc m)
        then have "pump sink pull q k = (PR_Failed SE_AlreadyFinished, q, k)" by (simp add: pump_def Let_def)
        then show ?case using Suc by simp
      qed (simp add: pump_finished_def)
      have "pump sink pull p k = (PR_Failed e, ?p2\<lparr>pm_sender := s', pm_failed := True\<rparr>, k)"
        using Suc.prems False p lim SF_Failed by (simp add: pump_def Let_def)
      then show ?thesis
        using stay [of "?p2\<lparr>pm_sender := s', pm_failed := True\<rparr>" n k] Suc.prems s1 assms(4) by simp
    qed
  qed
qed

section \<open>Properties\<close>

definition sample_request :: sender_request where
  "sample_request = \<lparr>sr_transfer_id = 5,
     sr_source = \<lparr>pme_canonical_source_path = qstr ''/tmp/a.txt'', pme_protocol_collision_key = sample_path,
       pme_entry = \<lparr>me_id = 6, me_relative_protocol_path = sample_path, me_type = MET_File, me_size = 3,
         me_modified_utc = Some 1000, me_sha256 = replicate 32 0, me_flags = 0\<rparr>\<rparr>,
     sr_stream_id = 1, sr_chunk_bytes = 2, sr_start_offset = 0\<rparr>"

definition sample_source :: source_env where
  "sample_source = \<lparr>se_info = \<lparr>fi_exists = True, fi_is_sym_link = False, fi_is_file = True, fi_size = 3,
      fi_last_modified_ms = 1000\<rparr>, se_open_ok = True,
    se_read = (\<lambda>pos n. ReadBytes (take n (drop pos [1, 2, 3])))\<rparr>"

definition zero_sha :: sha256 where
  "zero_sha = (\<lambda>_. replicate 32 0)"

lemma sample_sending: "sending ascii_text unix_dir (one_map_cbor CUndefined) sample_request [1, 2, 3]"
  using sample_path_valid
  by (simp add: sending_def validate_request_def sample_request_def kMaxSenderChunkBytes_def
      default_limits_def kSha256Bytes_def qsizetype_max_def one_map_cbor_def qstr_def Let_def)

lemma sample_honest: "honest_source [1, 2, 3] (pme_entry (sr_source sample_request)) sample_source"
  by (simp add: honest_source_def sample_source_def sample_request_def snapshot_matches_def)

lemma sample_sha: "zero_sha [1, 2, 3] = me_sha256 (pme_entry (sr_source sample_request))"
  by (simp add: zero_sha_def sample_request_def)

text \<open>C15. The sender streams an unchanged file exactly: whatever the valid chunk size and resume
  offset, the calls of \<open>nextFrame\<close> yield FileBegin, one FileChunk for every chunk of the rest of the
  file in order (consecutive offsets and sequence numbers, none empty or larger than the chunk
  size, together exactly the rest of the file), and FileEnd, and the sender is then finished;
  the number of calls is the number of prefix and file chunks plus two.\<close>

theorem sender_streams_file:
  assumes "sending qt qd qc r data" and "honest_source data (pme_entry (sr_source r)) env"
    and "sha data = me_sha256 (pme_entry (sr_source r))"
  shows "(\<exists>s. pull_frames (next_frame qt qd qc sha env) (stream_calls r data) (new_sender r) =
        (file_frames qt qc r data, s) \<and> sender_finished s) \<and>
    concat (slices (unat (sr_chunk_bytes r)) (drop (unat (sr_start_offset r)) data)) =
      drop (unat (sr_start_offset r)) data \<and>
    list_all (\<lambda>p. p \<noteq> [] \<and> length p \<le> unat (sr_chunk_bytes r))
      (slices (unat (sr_chunk_bytes r)) (drop (unat (sr_start_offset r)) data))"
proof (intro conjI)
  show "\<exists>s. pull_frames (next_frame qt qd qc sha env) (stream_calls r data) (new_sender r) =
        (file_frames qt qc r data, s) \<and> sender_finished s"
    by (rule sender_stream [of qt qd qc r data _ sha env, OF assms(1) refl assms(2,3)])
  show "concat (slices (unat (sr_chunk_bytes r)) (drop (unat (sr_start_offset r)) data)) =
      drop (unat (sr_start_offset r)) data"
    using sending_facts(1) [OF assms(1)] by (intro concat_slices) (simp add: unat_eq_zero)
qed (auto simp: list_all_iff dest: slices_sizes)

theorem sender_streams_file_witness:
  "\<exists>s. pull_frames (next_frame ascii_text unix_dir (one_map_cbor CUndefined) zero_sha sample_source) 4
      (new_sender sample_request) =
    (file_frames ascii_text (one_map_cbor CUndefined) sample_request [1, 2, 3], s) \<and> sender_finished s"
proof -
  have "stream_calls sample_request [1, 2, 3] = 4"
    by (simp add: stream_calls_def sample_request_def slices.simps)
  then show ?thesis
    using sender_streams_file [where sha = zero_sha, OF sample_sending sample_honest sample_sha]
    by (simp only: simp_thms)
qed

text \<open>C30. The pump delivers the file under any backpressure: however the sink accepts, refuses or queues,
  and however it drains between calls, what it has accepted is at every moment a prefix of the
  file's frames in order, without gap or repetition, and it is all of them when the pump
  reports that it is finished; with a sink that always accepts, the pump finishes.\<close>

theorem pump_delivers_file:
  assumes "sending qt qd qc r data" and "honest_source data (pme_entry (sr_source r)) env"
    and "sha data = me_sha256 (pme_entry (sr_source r))"
    and "faithful_sink sink log" and "\<forall>g \<in> set gs. \<forall>k. log (g k) = log k" and "log k = []"
    and "pump_run sink (next_frame qt qd qc sha env) gs (new_pump r limits, k) = (p', k')"
  shows "(\<exists>rest. file_frames qt qc r data = log k' @ rest) \<and>
    (pump_finished p' \<longrightarrow> log k' = file_frames qt qc r data) \<and>
    (accepting_sink sink limits \<and> gs = replicate (stream_calls r data) (\<lambda>k. k) \<longrightarrow> pump_finished p')"
proof (intro conjI impI)
  let ?pull = "next_frame qt qd qc sha env"
  have "pump_accounts ?pull (new_sender r) log (new_pump r limits) k"
    by (auto simp: pump_accounts_def new_pump_def pending_list_def assms(6) intro: exI [of _ 0])
  from pump_run_accounts [OF next_frame_stops assms(4,5) this]
  obtain n where n: "pull_frames ?pull n (new_sender r) = (log k' @ pending_list p', pm_sender p')"
    by (auto simp: pump_accounts_def assms(7))
  note pre = stream_prefix [OF assms(1-3) n]
  show "\<exists>rest. file_frames qt qc r data = log k' @ rest" using pre by auto
  show "log k' = file_frames qt qc r data" if "pump_finished p'"
    using pre that by (auto simp: pump_finished_def pending_list_def)
  show "pump_finished p'" if acc: "accepting_sink sink limits \<and> gs = replicate (stream_calls r data) (\<lambda>k. k)"
  proof -
    obtain s where "pull_frames ?pull (stream_calls r data) (new_sender r) =
        (file_frames qt qc r data, s)" "sender_finished s"
      using sender_stream [of qt qd qc r data ?pull sha env, OF assms(1) refl assms(2,3)] by blast
    from accepting_run [of sink limits ?pull, OF _ next_frame_finished this, of "new_pump r limits" k]
    show ?thesis using acc assms(7) by (simp add: new_pump_def)
  qed
qed

definition list_sink :: "frame list frame_sink" where
  "list_sink = \<lparr>fs_queued_bytes = (\<lambda>_. 0), fs_submit = (\<lambda>f k. (SK_Accepted, k @ [f]))\<rparr>"

theorem pump_delivers_file_witness:
  "snd (pump_run list_sink
      (next_frame ascii_text unix_dir (one_map_cbor CUndefined) zero_sha sample_source)
      (replicate (stream_calls sample_request [1, 2, 3]) (\<lambda>k. k))
      (new_pump sample_request \<lparr>bl_high_water_bytes = 2, bl_low_water_bytes = 1\<rparr>, [])) =
   file_frames ascii_text (one_map_cbor CUndefined) sample_request [1, 2, 3]"
proof -
  let ?out = "pump_run list_sink
      (next_frame ascii_text unix_dir (one_map_cbor CUndefined) zero_sha sample_source)
      (replicate (stream_calls sample_request [1, 2, 3]) (\<lambda>k. k))
      (new_pump sample_request \<lparr>bl_high_water_bytes = 2, bl_low_water_bytes = 1\<rparr>, [])"
  have "faithful_sink list_sink (\<lambda>k. k)" by (simp add: faithful_sink_def list_sink_def)
  from pump_delivers_file [where sha = zero_sha, OF sample_sending sample_honest sample_sha this, of
      "replicate (stream_calls sample_request [1, 2, 3]) (\<lambda>k. k)" "[]"
      "\<lparr>bl_high_water_bytes = 2, bl_low_water_bytes = 1\<rparr>" "fst ?out" "snd ?out"]
  show ?thesis by (simp add: accepting_sink_def list_sink_def)
qed

end
