(* ===== verification/FileReceiver.thy ===== *)
theory FileReceiver
  imports FileSender MachineInterface
begin

text \<open>
  \<open>FileReceiver\<close>: one incoming file, from FILE_BEGIN (fresh or resumed) over its chunks to the commit
  under a free name. The staging file is part of the state; what the file system answers to a
  call (existence, \<open>mkpath\<close>, \<open>open\<close>, how many bytes a write took, flush, sync, rename, remove) is
  the \<open>receiver_env\<close> of that call. A result carries the error and the FILE_RESULT for the peer.
\<close>

section \<open>Types\<close>

datatype receiver_state = FRS_Idle | FRS_Receiving | FRS_Completed | FRS_Failed | FRS_Cancelled

datatype receiver_error =
    RE_None | RE_InvalidState | RE_InvalidRequest | RE_UnsafePath | RE_UnsupportedConflictPolicy
  | RE_StagingExists | RE_DirectoryCreateFailed | RE_StagingOpenFailed | RE_TransferIdMismatch
  | RE_FileIdMismatch | RE_OffsetMismatch | RE_SequenceMismatch | RE_EmptyChunk | RE_ChunkTooLarge
  | RE_SizeOverflow | RE_WriteFailed | RE_SizeMismatch | RE_HashMismatch | RE_TargetExists
  | RE_CommitFailed | RE_ResumeStateMismatch | RE_StagingSizeMismatch | RE_StagingReadFailed

record receive_request =
  rq_receive_root :: qstring
  rq_entry :: manifest_entry
  rq_begin :: file_begin_message
  rq_manifest_sha256 :: bytes
  rq_conflict_policy :: conflict_policy
  rq_path_limits :: path_limits

record receiver_result =
  rr_error :: receiver_error
  rr_path_error :: "path_error option"
  rr_file_result :: "file_result_message option"

record receiver_snapshot =
  rs_state :: receiver_state
  rs_transfer_id :: "uuid option"
  rs_file_id :: "uuid option"
  rs_expected_size :: u64
  rs_received_bytes :: u64
  rs_next_sequence :: u64
  rs_relative_protocol_path :: qstring
  rs_part_path :: qstring
  rs_part_relative_path :: qstring
  rs_committed_path :: qstring

record file_receiver =
  rv_snapshot :: receiver_snapshot
  rv_part_open :: bool
  rv_part :: bytes
  rv_expected_sha256 :: bytes
  rv_chunk_bytes :: u32
  rv_requested_target :: qstring
  rv_conflict_policy :: conflict_policy
  rv_hashed :: bytes

datatype resume_direction = RD_Sending | RD_Receiving

record resume_file_state =
  rf_file_id :: uuid
  rf_relative_protocol_path :: qstring
  rf_durable_offset :: u64
  rf_total_bytes :: u64
  rf_part_relative_path :: qstring

record resume_state =
  rt_transfer_id :: uuid
  rt_peer_device_id :: uuid
  rt_manifest_sha256 :: bytes
  rt_direction :: resume_direction
  rt_files :: "resume_file_state list"
  rt_updated_utc :: qdatetime

text \<open>Qt's path and identifier texts, and the answers of the file system to one call.\<close>

record qt_files =
  qf_uuid_string :: "uuid \<Rightarrow> qstring"
  qf_file_name :: "qstring \<Rightarrow> qstring"
  qf_absolute_path :: "qstring \<Rightarrow> qstring"
  qf_file_path :: "qstring \<Rightarrow> qstring \<Rightarrow> qstring"

record receiver_env =
  re_exists :: "qstring \<Rightarrow> bool"
  re_mkpath_ok :: bool
  re_open_ok :: bool
  re_staging :: bytes
  re_staging_regular :: bool
  re_readable :: nat
  re_seek_ok :: bool
  re_written :: nat
  re_resource_error :: bool
  re_flush_ok :: bool
  re_rename_ok :: bool
  re_part_left :: bool
  re_remove_ok :: bool
  re_sync_ok :: bool

text \<open>The services a receiver is built on, as one argument.\<close>

record receiver_services =
  sv_text :: qt_text
  sv_dir :: qt_dir
  sv_files :: qt_files
  sv_sha :: sha256

definition kResumeHashChunkBytes :: nat where
  "kResumeHashChunkBytes = 1 * 1024 * 1024"

definition kMaximumAutoRenameAttempts :: nat where
  "kMaximumAutoRenameAttempts = 10000"

definition empty_snapshot :: receiver_snapshot where
  "empty_snapshot = \<lparr>rs_state = FRS_Idle, rs_transfer_id = None, rs_file_id = None,
     rs_expected_size = 0, rs_received_bytes = 0, rs_next_sequence = 0,
     rs_relative_protocol_path = [], rs_part_path = [], rs_part_relative_path = [],
     rs_committed_path = []\<rparr>"

definition new_receiver :: file_receiver where
  "new_receiver = \<lparr>rv_snapshot = empty_snapshot, rv_part_open = False, rv_part = [],
     rv_expected_sha256 = [], rv_chunk_bytes = 0, rv_requested_target = [],
     rv_conflict_policy = CP_AutoRename, rv_hashed = []\<rparr>"

abbreviation rv_state :: "file_receiver \<Rightarrow> receiver_state" where
  "rv_state rv \<equiv> rs_state (rv_snapshot rv)"

section \<open>Results\<close>

definition receiver_ok :: receiver_result where
  "receiver_ok = \<lparr>rr_error = RE_None, rr_path_error = None, rr_file_result = None\<rparr>"

definition receiver_failure :: "receiver_error \<Rightarrow> receiver_result" where
  "receiver_failure e = \<lparr>rr_error = e, rr_path_error = None, rr_file_result = None\<rparr>"

definition receiver_path_failure :: "path_error \<Rightarrow> receiver_result" where
  "receiver_path_failure p = \<lparr>rr_error = RE_UnsafePath, rr_path_error = Some p, rr_file_result = None\<rparr>"

definition receiver_report :: "file_receiver \<Rightarrow> file_result_code \<Rightarrow> qstring \<Rightarrow> receiver_result" where
  "receiver_report rv code diagnostic =
     \<lparr>rr_error = RE_None, rr_path_error = None,
      rr_file_result =
        (case (rs_transfer_id (rv_snapshot rv), rs_file_id (rv_snapshot rv)) of
           (Some tid, Some fid) \<Rightarrow> Some \<lparr>fr_transfer_id = tid, fr_file_id = fid, fr_code = code,
             fr_diagnostic = diagnostic\<rparr>
         | _ \<Rightarrow> None)\<rparr>"

definition set_rv_state :: "receiver_state \<Rightarrow> file_receiver \<Rightarrow> file_receiver" where
  "set_rv_state st rv = rv\<lparr>rv_snapshot := (rv_snapshot rv)\<lparr>rs_state := st\<rparr>\<rparr>"

definition receiver_fail ::
  "file_receiver \<Rightarrow> receiver_error \<Rightarrow> file_result_code \<Rightarrow> string \<Rightarrow> receiver_result \<times> file_receiver" where
  "receiver_fail rv e code diagnostic =
     (let rv1 = set_rv_state FRS_Failed (rv\<lparr>rv_part_open := False\<rparr>)
      in ((receiver_report rv1 code (qstr diagnostic))\<lparr>rr_error := e\<rparr>, rv1))"

section \<open>Auto-rename\<close>

fun decimal :: "nat \<Rightarrow> qstring" where
  "decimal n = (if n < 10 then [48 + word_of_nat n]
     else decimal (n div 10) @ [48 + word_of_nat (n mod 10)])"

declare decimal.simps [simp del]

definition last_index_of :: "u16 \<Rightarrow> qstring \<Rightarrow> nat option" where
  "last_index_of c s =
     (if c \<in> set s then Some (length s - 1 - length (takeWhile (\<lambda>x. x \<noteq> c) (rev s))) else None)"

definition auto_rename_candidate :: "qt_files \<Rightarrow> qstring \<Rightarrow> nat \<Rightarrow> qstring" where
  "auto_rename_candidate qf requested index =
     (if index = 0 then requested
      else let name = qf_file_name qf requested;
               (stem, suffix) =
                 (case last_index_of ch_dot name of
                    None \<Rightarrow> (name, [])
                  | Some dot \<Rightarrow> if dot > 0 \<and> dot + 1 < length name then (take dot name, drop dot name)
                                else (name, []))
           in qf_file_path qf (qf_absolute_path qf requested)
                (stem @ qstr '' ('' @ decimal index @ qstr '')'' @ suffix))"

definition choose_auto_rename_target ::
  "qt_files \<Rightarrow> receiver_env \<Rightarrow> file_receiver \<Rightarrow> qstring \<Rightarrow> qstring" where
  "choose_auto_rename_target qf env rv requested =
     (if rv_conflict_policy rv \<noteq> CP_AutoRename then []
      else case find (\<lambda>index. \<not> re_exists env (auto_rename_candidate qf requested index))
                  [0..<kMaximumAutoRenameAttempts] of
             Some index \<Rightarrow> auto_rename_candidate qf requested index
           | None \<Rightarrow> [])"

section \<open>Begin and resume\<close>

text \<open>The loop that rehashes the staging prefix: the bytes hashed, or \<open>None\<close> on a short read.\<close>

function rehash_staging :: "receiver_env \<Rightarrow> nat \<Rightarrow> nat \<Rightarrow> bytes \<Rightarrow> bytes option" where
  "rehash_staging env remaining pos hashed =
     (if remaining = 0 then Some hashed
      else let wanted = min remaining kResumeHashChunkBytes;
               prefix = take wanted (drop pos (take (re_readable env) (re_staging env)))
           in if length prefix \<noteq> wanted then None
              else rehash_staging env (remaining - wanted) (pos + wanted) (hashed @ prefix))"
  by pat_completeness auto
termination
  by (relation "measure (\<lambda>(env, remaining, pos, hashed). remaining)")
     (auto simp: kResumeHashChunkBytes_def)

declare rehash_staging.simps [simp del]

text \<open>\<open>Inl ()\<close> when two files of the resume state have the id; else the one that has it, if any.\<close>

definition matching_file :: "uuid \<Rightarrow> resume_file_state list \<Rightarrow> unit + resume_file_state option" where
  "matching_file fid files =
     (case filter (\<lambda>f. rf_file_id f = fid) files of
        [] \<Rightarrow> Inr None
      | [f] \<Rightarrow> Inr (Some f)
      | _ \<Rightarrow> Inl ())"

definition resume_matches ::
  "receive_request \<Rightarrow> resume_state \<Rightarrow> resume_file_state option \<Rightarrow> qstring \<Rightarrow> qstring \<Rightarrow> bool" where
  "resume_matches request st matching normalized staging_relative \<longleftrightarrow>
     rt_transfer_id st = fb_transfer_id (rq_begin request) \<and>
     \<not> uuid_null (rt_peer_device_id st) \<and> rt_direction st = RD_Receiving \<and>
     length (rt_manifest_sha256 st) = kSha256Bytes \<and>
     length (rq_manifest_sha256 request) = kSha256Bytes \<and>
     rt_manifest_sha256 st = rq_manifest_sha256 request \<and>
     (case rt_updated_utc st of None \<Rightarrow> False | Some ms \<Rightarrow> ms > 0) \<and>
     (case matching of
        None \<Rightarrow> False
      | Some f \<Rightarrow>
          rf_relative_protocol_path f = normalized \<and>
          rf_total_bytes f = me_size (rq_entry request) \<and>
          rf_durable_offset f = fb_start_offset (rq_begin request) \<and>
          rf_part_relative_path f = staging_relative)"

definition valid_begin :: "receive_request \<Rightarrow> bool" where
  "valid_begin request \<longleftrightarrow>
     (let entry = rq_entry request; b = rq_begin request in
      \<not> (me_type entry \<noteq> MET_File \<or> fb_file_id b \<noteq> me_id entry \<or> fb_size b \<noteq> me_size entry \<or>
         fb_size b > qsizetype_max \<or> fb_start_offset b > fb_size b \<or> fb_chunk_bytes b = 0 \<or>
         fb_chunk_bytes b > kMaximumChunkBytes \<or> length (me_sha256 entry) \<noteq> kSha256Bytes \<or>
         fb_expected_sha256 b \<noteq> me_sha256 entry))"

text \<open>What opening the staging file yields: an error, or its content and the bytes hashed.\<close>

definition open_staging ::
  "receive_request \<Rightarrow> resume_state option \<Rightarrow> receiver_env \<Rightarrow> qstring \<Rightarrow> qstring \<Rightarrow>
   receiver_error + (bytes \<times> bytes)" where
  "open_staging request resume env normalized staging_relative =
     (case resume of
        None \<Rightarrow> if \<not> re_open_ok env then Inl RE_StagingOpenFailed else Inr ([], [])
      | Some st \<Rightarrow>
          (case matching_file (fb_file_id (rq_begin request)) (rt_files st) of
             Inl _ \<Rightarrow> Inl RE_ResumeStateMismatch
           | Inr matching \<Rightarrow>
               let start = fb_start_offset (rq_begin request) in
               if \<not> resume_matches request st matching normalized staging_relative
                 then Inl RE_ResumeStateMismatch
               else if \<not> re_staging_regular env \<or> length (re_staging env) \<noteq> unat start
                 then Inl RE_StagingSizeMismatch
               else if \<not> re_open_ok env then Inl RE_StagingOpenFailed
               else (case rehash_staging env (unat start) 0 [] of
                       None \<Rightarrow> Inl RE_StagingReadFailed
                     | Some hashed \<Rightarrow>
                         if \<not> re_seek_ok env then Inl RE_StagingReadFailed
                         else Inr (re_staging env, hashed))))"

definition staging_relative_path :: "qt_files \<Rightarrow> file_begin_message \<Rightarrow> qstring" where
  "staging_relative_path qf b =
     qstr ''.incoming/'' @ qf_uuid_string qf (fb_transfer_id b) @ [ch_slash] @
     qf_uuid_string qf (fb_file_id b) @ qstr ''.part''"

definition begin_internal ::
  "receiver_services \<Rightarrow> file_receiver \<Rightarrow> receive_request \<Rightarrow> resume_state option \<Rightarrow> receiver_env \<Rightarrow>
   receiver_result \<times> file_receiver" where
  "begin_internal sv rv request resume env =
     (let b = rq_begin request;
          join = (\<lambda>path. join_lexically_under_root (sv_text sv) (sv_dir sv) (rq_receive_root request)
                    path (rq_path_limits request))
      in
      if rv_state rv \<noteq> FRS_Idle then (receiver_failure RE_InvalidState, rv)
      else if rq_conflict_policy request \<noteq> CP_AutoRename
        then (receiver_failure RE_UnsupportedConflictPolicy, rv)
      else if \<not> valid_begin request then (receiver_failure RE_InvalidRequest, rv)
      else case join (me_relative_protocol_path (rq_entry request)) of
        (Inl e, _) \<Rightarrow> (receiver_path_failure e, rv)
      | (Inr target, requested_target) \<Rightarrow>
          (let staging_relative = staging_relative_path (sv_files sv) b in
           case join staging_relative of
             (Inl e, _) \<Rightarrow> (receiver_path_failure e, rv)
           | (Inr _, part_path) \<Rightarrow>
               if resume = None \<and> re_exists env part_path then (receiver_failure RE_StagingExists, rv)
               else if \<not> re_mkpath_ok env then (receiver_failure RE_DirectoryCreateFailed, rv)
               else (case open_staging request resume env (vp_normalized target) staging_relative of
                 Inl e \<Rightarrow> (receiver_failure e, rv)
               | Inr (part, hashed) \<Rightarrow>
                   (receiver_ok,
                    \<lparr>rv_snapshot =
                       \<lparr>rs_state = FRS_Receiving, rs_transfer_id = Some (fb_transfer_id b),
                        rs_file_id = Some (fb_file_id b), rs_expected_size = fb_size b,
                        rs_received_bytes = fb_start_offset b, rs_next_sequence = 0,
                        rs_relative_protocol_path = vp_normalized target,
                        rs_part_path = part_path, rs_part_relative_path = staging_relative,
                        rs_committed_path = []\<rparr>,
                     rv_part_open = True, rv_part = part,
                     rv_expected_sha256 = me_sha256 (rq_entry request),
                     rv_chunk_bytes = fb_chunk_bytes b, rv_requested_target = requested_target,
                     rv_conflict_policy = rq_conflict_policy request, rv_hashed = hashed\<rparr>))))"

definition receiver_begin ::
  "receiver_services \<Rightarrow> file_receiver \<Rightarrow> receive_request \<Rightarrow> receiver_env \<Rightarrow> receiver_result \<times> file_receiver" where
  "receiver_begin sv rv request env =
     (if fb_start_offset (rq_begin request) \<noteq> 0 then (receiver_failure RE_ResumeStateMismatch, rv)
      else begin_internal sv rv request None env)"

definition receiver_resume ::
  "receiver_services \<Rightarrow> file_receiver \<Rightarrow> receive_request \<Rightarrow> resume_state \<Rightarrow> receiver_env \<Rightarrow>
   receiver_result \<times> file_receiver" where
  "receiver_resume sv rv request st env = begin_internal sv rv request (Some st) env"

section \<open>Chunks\<close>

definition receiver_append ::
  "file_receiver \<Rightarrow> file_chunk_message \<Rightarrow> bytes \<Rightarrow> receiver_env \<Rightarrow> receiver_result \<times> file_receiver" where
  "receiver_append rv chunk payload env =
     (let s = rv_snapshot rv in
      if rs_state s \<noteq> FRS_Receiving then (receiver_failure RE_InvalidState, rv)
      else if rs_transfer_id s \<noteq> Some (fc_transfer_id chunk)
        then receiver_fail rv RE_TransferIdMismatch FRC_IoError ''TRANSFER_ID_MISMATCH''
      else if rs_file_id s \<noteq> Some (fc_file_id chunk)
        then receiver_fail rv RE_FileIdMismatch FRC_IoError ''FILE_ID_MISMATCH''
      else if fc_offset chunk \<noteq> rs_received_bytes s
        then receiver_fail rv RE_OffsetMismatch FRC_IoError ''OFFSET_MISMATCH''
      else if fc_sequence chunk \<noteq> rs_next_sequence s
        then receiver_fail rv RE_SequenceMismatch FRC_IoError ''SEQUENCE_MISMATCH''
      else if payload = [] then receiver_fail rv RE_EmptyChunk FRC_IoError ''EMPTY_FILE_CHUNK''
      else if length payload > unat (rv_chunk_bytes rv)
        then receiver_fail rv RE_ChunkTooLarge FRC_IoError ''FILE_CHUNK_TOO_LARGE''
      else let payload_bytes = word_of_nat (length payload) in
        if payload_bytes > rs_expected_size s - rs_received_bytes s
          then receiver_fail rv RE_SizeOverflow FRC_SizeMismatch ''FILE_SIZE_OVERFLOW''
        else if re_written env \<noteq> length payload
          then receiver_fail (rv\<lparr>rv_part := rv_part rv @ take (re_written env) payload\<rparr>) RE_WriteFailed
                 (if re_resource_error env then FRC_DiskFull else FRC_IoError) ''STAGING_WRITE_FAILED''
        else (receiver_ok,
              rv\<lparr>rv_part := rv_part rv @ payload, rv_hashed := rv_hashed rv @ payload,
                 rv_snapshot := s\<lparr>rs_received_bytes := rs_received_bytes s + payload_bytes,
                                   rs_next_sequence := rs_next_sequence s + 1\<rparr>\<rparr>))"

section \<open>End and commit\<close>

definition finish_staging ::
  "receiver_services \<Rightarrow> file_receiver \<Rightarrow> file_end_message \<Rightarrow> receiver_env \<Rightarrow>
   receiver_result \<times> file_receiver" where
  "finish_staging sv rv e env =
     (let s = rv_snapshot rv in
      if rs_state s \<noteq> FRS_Receiving then (receiver_failure RE_InvalidState, rv)
      else if rs_transfer_id s \<noteq> Some (fe_transfer_id e)
        then receiver_fail rv RE_TransferIdMismatch FRC_IoError ''TRANSFER_ID_MISMATCH''
      else if rs_file_id s \<noteq> Some (fe_file_id e)
        then receiver_fail rv RE_FileIdMismatch FRC_IoError ''FILE_ID_MISMATCH''
      else if fe_size e \<noteq> rs_expected_size s \<or> rs_received_bytes s \<noteq> rs_expected_size s
        then receiver_fail rv RE_SizeMismatch FRC_SizeMismatch ''FILE_SIZE_MISMATCH''
      else if fe_sha256 e \<noteq> rv_expected_sha256 rv
        then receiver_fail rv RE_HashMismatch FRC_HashMismatch ''FILE_HASH_MISMATCH''
      else if \<not> re_flush_ok env
        then receiver_fail rv RE_WriteFailed FRC_IoError ''STAGING_FLUSH_FAILED''
      else let rv1 = rv\<lparr>rv_part_open := False\<rparr> in
        if sv_sha sv (rv_hashed rv1) \<noteq> rv_expected_sha256 rv1
          then receiver_fail rv1 RE_HashMismatch FRC_HashMismatch ''FILE_HASH_MISMATCH''
        else (receiver_ok, rv1))"

definition confirm_committed ::
  "file_receiver \<Rightarrow> qstring \<Rightarrow> receiver_env \<Rightarrow> receiver_result \<times> file_receiver" where
  "confirm_committed rv committed_path env =
     (if rv_state rv \<noteq> FRS_Receiving \<or> committed_path = [] \<or> re_part_left env
        then receiver_fail rv RE_CommitFailed FRC_IoError ''ATOMIC_COMMIT_CONFIRMATION_FAILED''
      else let rv1 = set_rv_state FRS_Completed
                 (rv\<lparr>rv_snapshot := (rv_snapshot rv)\<lparr>rs_committed_path := committed_path\<rparr>\<rparr>)
           in (receiver_report rv1 FRC_Ok [], rv1))"

definition receiver_finish ::
  "receiver_services \<Rightarrow> file_receiver \<Rightarrow> file_end_message \<Rightarrow> receiver_env \<Rightarrow>
   receiver_result \<times> file_receiver" where
  "receiver_finish sv rv e env =
     (case finish_staging sv rv e env of
        (staged, rv1) \<Rightarrow>
          if rr_error staged \<noteq> RE_None then (staged, rv1)
          else if \<not> re_mkpath_ok env
            then receiver_fail rv1 RE_DirectoryCreateFailed FRC_IoError ''TARGET_DIRECTORY_CREATE_FAILED''
          else let committed = choose_auto_rename_target (sv_files sv) env rv1 (rv_requested_target rv1) in
            if committed = []
              then receiver_fail rv1 RE_TargetExists FRC_TargetExists ''TARGET_NAME_UNAVAILABLE''
            else if \<not> re_rename_ok env
              then receiver_fail rv1 RE_CommitFailed FRC_IoError ''ATOMIC_COMMIT_FAILED''
            else confirm_committed rv1 committed env)"

section \<open>Cancel and checkpoint\<close>

definition receiver_cancel ::
  "file_receiver \<Rightarrow> partial_disposition \<Rightarrow> receiver_env \<Rightarrow> receiver_result \<times> file_receiver" where
  "receiver_cancel rv disposition env =
     (let report = (\<lambda>r. if rs_transfer_id (rv_snapshot r) \<noteq> None
                        then receiver_report r FRC_Cancelled (qstr ''CANCELLED'') else receiver_ok)
      in
      if rv_state rv = FRS_Completed then (receiver_failure RE_InvalidState, rv)
      else if rv_state rv = FRS_Cancelled then (report rv, rv)
      else let removed = (disposition = PD_Remove \<and> rs_part_path (rv_snapshot rv) \<noteq> [] \<and> re_remove_ok env);
               rv1 = set_rv_state FRS_Cancelled
                 (rv\<lparr>rv_part_open := False, rv_part := (if removed then [] else rv_part rv)\<rparr>)
           in (report rv1, rv1))"

datatype checkpoint_error =
    DCE_None | DCE_InvalidReceiverState | DCE_ResumeStateMismatch | DCE_FlushFailed | DCE_SyncFailed
  | DCE_PersistFailed

text \<open>
  The first file with the id gets the new durable offset; \<open>saved\<close> is whether \<open>ResumeStore::save\<close>
  succeeds. The result is the error with the message for the peer, and the caller's resume state.
\<close>

fun set_durable_offset :: "uuid \<Rightarrow> u64 \<Rightarrow> resume_file_state list \<Rightarrow> resume_file_state list" where
  "set_durable_offset fid off [] = []"
| "set_durable_offset fid off (f # fs) =
     (if rf_file_id f = fid then f\<lparr>rf_durable_offset := off\<rparr> # fs
      else f # set_durable_offset fid off fs)"

definition receiver_checkpoint ::
  "file_receiver \<Rightarrow> resume_state \<Rightarrow> qdatetime \<Rightarrow> receiver_env \<Rightarrow> bool \<Rightarrow>
   (checkpoint_error + file_checkpoint_message) \<times> resume_state" where
  "receiver_checkpoint rv st updated env saved =
     (let s = rv_snapshot rv in
      if rs_state s \<noteq> FRS_Receiving \<or> \<not> rv_part_open rv then (Inl DCE_InvalidReceiverState, st)
      else if rs_transfer_id s \<noteq> Some (rt_transfer_id st) \<or> rt_direction st \<noteq> RD_Receiving \<or>
              length (rt_manifest_sha256 st) \<noteq> kSha256Bytes
        then (Inl DCE_ResumeStateMismatch, st)
      else case rs_file_id s of
        None \<Rightarrow> (Inl DCE_ResumeStateMismatch, st)
      | Some fid \<Rightarrow>
          (case matching_file fid (rt_files st) of
             Inl _ \<Rightarrow> (Inl DCE_ResumeStateMismatch, st)
           | Inr None \<Rightarrow> (Inl DCE_ResumeStateMismatch, st)
           | Inr (Some f) \<Rightarrow>
               if rf_relative_protocol_path f \<noteq> rs_relative_protocol_path s \<or>
                  rf_total_bytes f \<noteq> rs_expected_size s \<or>
                  rf_part_relative_path f \<noteq> rs_part_relative_path s \<or>
                  rf_durable_offset f > rs_received_bytes s
                 then (Inl DCE_ResumeStateMismatch, st)
               else if (case updated of None \<Rightarrow> True | Some ms \<Rightarrow> ms \<le> 0)
                 then (Inl DCE_ResumeStateMismatch, st)
               else if \<not> re_flush_ok env then (Inl DCE_FlushFailed, st)
               else if \<not> re_sync_ok env then (Inl DCE_SyncFailed, st)
               else let candidate = st\<lparr>rt_files :=
                          set_durable_offset fid (rs_received_bytes s) (rt_files st),
                        rt_updated_utc := updated\<rparr>
                    in if \<not> saved then (Inl DCE_PersistFailed, st)
                       else (Inr \<lparr>fk_transfer_id = rt_transfer_id st, fk_file_id = fid,
                               fk_durable_offset = rs_received_bytes s\<rparr>, candidate)))"

section \<open>The receiver as a transition system\<close>

datatype receiver_event =
    RV_Begin receive_request receiver_env
  | RV_Resume receive_request resume_state receiver_env
  | RV_Append file_chunk_message bytes receiver_env
  | RV_Finish file_end_message receiver_env
  | RV_Cancel partial_disposition receiver_env

fun receiver_apply ::
  "receiver_services \<Rightarrow> file_receiver \<Rightarrow> receiver_event \<Rightarrow> receiver_result \<times> file_receiver" where
  "receiver_apply sv rv (RV_Begin request env) = receiver_begin sv rv request env"
| "receiver_apply sv rv (RV_Resume request st env) = receiver_resume sv rv request st env"
| "receiver_apply sv rv (RV_Append chunk payload env) = receiver_append rv chunk payload env"
| "receiver_apply sv rv (RV_Finish e env) = receiver_finish sv rv e env"
| "receiver_apply sv rv (RV_Cancel disposition env) = receiver_cancel rv disposition env"

definition receiver_step :: "receiver_services \<Rightarrow> file_receiver \<Rightarrow> receiver_event \<Rightarrow> file_receiver" where
  "receiver_step sv rv e = snd (receiver_apply sv rv e)"

section \<open>Invariant\<close>

definition staged_ok :: "file_receiver \<Rightarrow> bool" where
  "staged_ok rv \<longleftrightarrow>
     rv_hashed rv = rv_part rv \<and> length (rv_part rv) = unat (rs_received_bytes (rv_snapshot rv)) \<and>
     rs_received_bytes (rv_snapshot rv) \<le> rs_expected_size (rv_snapshot rv) \<and>
     rs_transfer_id (rv_snapshot rv) \<noteq> None \<and> rs_file_id (rv_snapshot rv) \<noteq> None"

definition committed_ok :: "receiver_services \<Rightarrow> file_receiver \<Rightarrow> bool" where
  "committed_ok sv rv \<longleftrightarrow>
     length (rv_part rv) = unat (rs_expected_size (rv_snapshot rv)) \<and>
     sv_sha sv (rv_part rv) = rv_expected_sha256 rv \<and>
     rs_committed_path (rv_snapshot rv) \<noteq> []"

definition receiver_inv :: "receiver_services \<Rightarrow> file_receiver \<Rightarrow> bool" where
  "receiver_inv sv rv \<longleftrightarrow>
     (rv_state rv = FRS_Receiving \<longrightarrow> staged_ok rv) \<and>
     (rv_state rv = FRS_Completed \<longrightarrow> committed_ok sv rv)"

lemma rehash_staging_Some:
  "rehash_staging env remaining pos hashed = Some h \<Longrightarrow> pos + remaining \<le> length (re_staging env) \<Longrightarrow>
   h = hashed @ take remaining (drop pos (re_staging env))"
proof (induction env remaining pos hashed rule: rehash_staging.induct)
  case (1 env remaining pos hashed)
  show ?case
  proof (cases "remaining = 0")
    case True
    with 1(2) show ?thesis by (simp add: rehash_staging.simps)
  next
    case False
    define w where "w = min remaining kResumeHashChunkBytes"
    define pre where "pre = take w (drop pos (take (re_readable env) (re_staging env)))"
    have len: "length pre = w" and rec: "rehash_staging env (remaining - w) (pos + w) (hashed @ pre) = Some h"
      using 1(2) False
      by (auto simp: rehash_staging.simps [of env remaining] Let_def w_def pre_def split: if_splits)
    have "w \<le> re_readable env - pos"
      using len by (auto simp: pre_def drop_take min_def split: if_splits)
    then have pre: "pre = take w (drop pos (re_staging env))"
      by (simp add: pre_def drop_take min_absorb1)
    have "h = (hashed @ pre) @ take (remaining - w) (drop (pos + w) (re_staging env))"
      using 1(1) [OF False w_def pre_def] len rec 1(3) by (auto simp: w_def)
    also have "\<dots> = hashed @ take (w + (remaining - w)) (drop pos (re_staging env))"
      by (simp add: pre take_add add.commute [of pos])
    finally show ?thesis by (simp add: w_def)
  qed
qed

lemma open_staging_Inr:
  assumes "open_staging request resume env norm rel = Inr (part, hashed)"
    and "resume = None \<longrightarrow> fb_start_offset (rq_begin request) = 0"
  shows "hashed = part \<and> length part = unat (fb_start_offset (rq_begin request))"
  using assms rehash_staging_Some [of env "unat (fb_start_offset (rq_begin request))" 0 "[]"]
  by (auto simp: open_staging_def Let_def split: option.splits sum.splits if_splits)

lemma open_staging_Inl: "open_staging request resume env norm rel = Inl e \<Longrightarrow> e \<noteq> RE_None"
  by (auto simp: open_staging_def Let_def split: option.splits sum.splits if_splits)

text \<open>What a successful begin or resume sets up.\<close>

lemma begin_internal_cases:
  assumes "begin_internal sv rv request resume env = (res, rv')"
    and "resume = None \<longrightarrow> fb_start_offset (rq_begin request) = 0"
  shows "rv' = rv \<and> rr_error res \<noteq> RE_None \<or>
    rv_state rv = FRS_Idle \<and> res = receiver_ok \<and> rv_state rv' = FRS_Receiving \<and> staged_ok rv' \<and>
    rs_expected_size (rv_snapshot rv') = me_size (rq_entry request) \<and>
    rv_expected_sha256 rv' = me_sha256 (rq_entry request)"
proof (cases "rv' = rv \<and> rr_error res \<noteq> RE_None")
  case False
  then have ok: "rv_state rv = FRS_Idle" "valid_begin request" "res = receiver_ok"
    and open': "\<exists>norm rel. open_staging request resume env norm rel = Inr (rv_part rv', rv_hashed rv')"
    and fields: "rv_state rv' = FRS_Receiving" "rs_transfer_id (rv_snapshot rv') \<noteq> None"
      "rs_file_id (rv_snapshot rv') \<noteq> None" "rv_expected_sha256 rv' = me_sha256 (rq_entry request)"
      "rs_received_bytes (rv_snapshot rv') = fb_start_offset (rq_begin request)"
      "rs_expected_size (rv_snapshot rv') = fb_size (rq_begin request)"
    using assms(1)
    by (auto simp: begin_internal_def Let_def receiver_failure_def receiver_path_failure_def
        dest: open_staging_Inl split: if_splits prod.splits sum.splits) blast+
  show ?thesis
    using ok fields open' open_staging_Inr [OF _ assms(2)]
    by (auto simp: staged_ok_def valid_begin_def Let_def not_less)
qed simp

lemma receiver_fail_state [simp]:
  "rv_state (snd (receiver_fail rv e c d)) = FRS_Failed"
  "rr_error (fst (receiver_fail rv e c d)) = e"
  by (simp_all add: receiver_fail_def Let_def set_rv_state_def)

lemma failed_inv [simp]: "rv_state rv = FRS_Failed \<Longrightarrow> receiver_inv sv rv"
  by (simp add: receiver_inv_def)

definition appended :: "file_receiver \<Rightarrow> bytes \<Rightarrow> file_receiver" where
  "appended rv payload =
     rv\<lparr>rv_part := rv_part rv @ payload, rv_hashed := rv_hashed rv @ payload,
        rv_snapshot := (rv_snapshot rv)
          \<lparr>rs_received_bytes := rs_received_bytes (rv_snapshot rv) + word_of_nat (length payload),
           rs_next_sequence := rs_next_sequence (rv_snapshot rv) + 1\<rparr>\<rparr>"

definition append_post :: "file_receiver \<Rightarrow> bytes \<Rightarrow> receiver_result \<times> file_receiver \<Rightarrow> bool" where
  "append_post rv payload out \<longleftrightarrow>
     rr_error (fst out) \<noteq> RE_None \<and> (rv_state (snd out) = FRS_Failed \<or> snd out = rv) \<or>
     rv_state rv = FRS_Receiving \<and> length payload \<le> unat (rv_chunk_bytes rv) \<and>
     word_of_nat (length payload) \<le> rs_expected_size (rv_snapshot rv) - rs_received_bytes (rv_snapshot rv) \<and>
     out = (receiver_ok, appended rv payload)"

lemma append_post_if:
  "(c \<Longrightarrow> append_post rv p x) \<Longrightarrow> (\<not> c \<Longrightarrow> append_post rv p y) \<Longrightarrow> append_post rv p (if c then x else y)"
  by simp

lemma append_post_fail:
  "e \<noteq> RE_None \<Longrightarrow> append_post rv p (receiver_fail rv' e c d)"
  "append_post rv p (receiver_failure RE_InvalidState, rv)"
  by (simp_all add: append_post_def receiver_failure_def)

lemma append_cases: "append_post rv payload (receiver_append rv chunk payload env)"
  unfolding receiver_append_def Let_def
proof (intro append_post_if append_post_fail, simp_all, goal_cases)
  case 1
  then show ?case
    by (simp add: append_post_def appended_def not_less)
qed

lemma appended_staged:
  assumes "staged_ok rv" and "length payload \<le> unat (rv_chunk_bytes rv)"
    and "word_of_nat (length payload) \<le> rs_expected_size (rv_snapshot rv) - rs_received_bytes (rv_snapshot rv)"
  shows "staged_ok (appended rv payload)"
proof -
  let ?s = "rv_snapshot rv"
  have "unat (rv_chunk_bytes rv) < 2 ^ 32"
    using unsigned_less [of "rv_chunk_bytes rv", where ?'a = nat] by simp
  then have len: "unat (word_of_nat (length payload) :: u64) = length payload"
    using assms(2) by (intro unat_of_nat_u64) simp
  have diff: "unat (rs_expected_size ?s - rs_received_bytes ?s) =
      unat (rs_expected_size ?s) - unat (rs_received_bytes ?s)"
    using assms(1) by (intro unat_u64_sub) (simp add: staged_ok_def word_le_nat_alt)
  have le: "rs_received_bytes ?s \<le> rs_expected_size ?s"
    using assms(1) by (simp add: staged_ok_def)
  have room: "unat (rs_received_bytes ?s) + length payload \<le> unat (rs_expected_size ?s)"
    using assms(3) le len diff by (simp add: word_le_nat_alt)
  moreover have "unat (rs_expected_size ?s) < 2 ^ 64"
    using unsigned_less [of "rs_expected_size ?s", where ?'a = nat] by simp
  ultimately have "unat (rs_received_bytes ?s + word_of_nat (length payload)) =
      unat (rs_received_bytes ?s) + length payload"
    using unat_u64_add [of "rs_received_bytes ?s" "word_of_nat (length payload)"] len by simp
  then show ?thesis
    using assms(1) room by (simp add: staged_ok_def appended_def word_le_nat_alt)
qed

lemma append_inv:
  assumes "receiver_inv sv rv"
  shows "receiver_inv sv (snd (receiver_append rv chunk payload env))"
  using append_cases [of rv payload chunk env] assms appended_staged [of rv payload]
  by (auto simp: append_post_def receiver_inv_def) (simp_all add: appended_def)

lemma finish_staging_ok:
  assumes "finish_staging sv rv e env = (res, rv')" and "rr_error res = RE_None" and "receiver_inv sv rv"
  shows "rv' = rv\<lparr>rv_part_open := False\<rparr> \<and> rv_state rv = FRS_Receiving \<and>
    length (rv_part rv) = unat (rs_expected_size (rv_snapshot rv)) \<and>
    sv_sha sv (rv_part rv) = rv_expected_sha256 rv"
  using assms
  by (auto simp: finish_staging_def Let_def receiver_inv_def staged_ok_def receiver_failure_def
      receiver_fail_def split: if_splits)

lemma finish_staging_state:
  assumes "finish_staging sv rv e env = (res, rv')" and "rr_error res \<noteq> RE_None"
  shows "rv' = rv \<or> rv_state rv' = FRS_Failed"
  using assms by (auto simp: finish_staging_def Let_def receiver_ok_def receiver_fail_def set_rv_state_def
      split: if_splits)

lemma receiver_finish_cases:
  assumes "receiver_inv sv rv" and "receiver_finish sv rv e env = (res, rv')"
  shows "rv' = rv \<or> rv_state rv' = FRS_Failed \<or>
    rv_state rv' = FRS_Completed \<and> committed_ok sv rv' \<and> rv_part rv' = rv_part rv \<and>
    rv_expected_sha256 rv' = rv_expected_sha256 rv \<and>
    rs_expected_size (rv_snapshot rv') = rs_expected_size (rv_snapshot rv)"
proof -
  obtain r1 rv1 where fs: "finish_staging sv rv e env = (r1, rv1)" by (cases "finish_staging sv rv e env")
  have fail: "receiver_fail a b c d = (res, rv') \<Longrightarrow> rv_state rv' = FRS_Failed" for a b c d
    by (metis receiver_fail_state(1) snd_conv)
  show ?thesis
  proof (cases "rr_error r1 = RE_None")
    case False
    then show ?thesis
      using assms(2) fs finish_staging_state [OF fs False] by (auto simp: receiver_finish_def)
  next
    case True
    note ok = finish_staging_ok [OF fs True assms(1)]
    show ?thesis
      using assms(2) fs True ok
      by (auto simp: receiver_finish_def confirm_committed_def Let_def set_rv_state_def committed_ok_def
          dest: fail split: if_splits)
  qed
qed

lemma cancel_inv: "receiver_inv sv rv \<Longrightarrow> receiver_inv sv (snd (receiver_cancel rv d env))"
  by (auto simp: receiver_cancel_def Let_def receiver_inv_def set_rv_state_def)

lemma receiver_step_inv: "receiver_inv sv rv \<Longrightarrow> receiver_inv sv (receiver_step sv rv e)"
proof -
  assume inv: "receiver_inv sv rv"
  have begin': "receiver_inv sv (snd (begin_internal sv rv request resume env))"
    if "resume = None \<longrightarrow> fb_start_offset (rq_begin request) = 0" for request resume env
    using begin_internal_cases [of sv rv request resume env, OF prod.collapse [symmetric] that] inv
    by (auto simp: receiver_inv_def)
  have finish: "receiver_inv sv (snd (receiver_finish sv rv m env))" for m env
    using receiver_finish_cases [OF inv, of m env, OF prod.collapse [symmetric]] inv
    by (auto simp: receiver_inv_def)
  show ?thesis
    using inv
    by (cases e) (auto simp: receiver_step_def receiver_begin_def receiver_resume_def
        intro: append_inv cancel_inv finish begin')
qed

lemma new_receiver_inv [simp]: "receiver_inv sv new_receiver"
  by (simp add: receiver_inv_def new_receiver_def empty_snapshot_def)

definition receiver_completed :: "file_receiver \<Rightarrow> bool" where
  "receiver_completed rv \<longleftrightarrow> rv_state rv = FRS_Completed"

lemma completed_step: "receiver_completed rv \<Longrightarrow> receiver_step sv rv e = rv"
  by (cases e) (auto simp: receiver_completed_def receiver_step_def receiver_begin_def receiver_resume_def
      begin_internal_def receiver_append_def receiver_finish_def finish_staging_def receiver_cancel_def
      receiver_failure_def Let_def)

interpretation receiver: absorbing_machine "receiver_step sv" "receiver_inv sv" receiver_completed
    "\<lambda>rv. rv" "\<lambda>_. False" for sv
  by unfold_locales (simp_all add: receiver_step_inv completed_step)

section \<open>What was accepted stays what is expected\<close>

definition expectation :: "file_receiver \<Rightarrow> u64 \<times> bytes" where
  "expectation rv = (rs_expected_size (rv_snapshot rv), rv_expected_sha256 rv)"

definition keeps :: "file_receiver \<Rightarrow> receiver_result \<times> file_receiver \<Rightarrow> bool" where
  "keeps rv out \<longleftrightarrow> expectation (snd out) = expectation rv \<and> (rv_state rv \<noteq> FRS_Idle \<longrightarrow> rv_state (snd out) \<noteq> FRS_Idle)"

lemma keeps_simps [simp]:
  "keeps rv (res, rv)" "keeps rv (receiver_fail rv e c d)"
  "keeps rv (receiver_fail (rv\<lparr>rv_part_open := b\<rparr>) e c d)"
  "keeps rv (receiver_fail (rv\<lparr>rv_part := part\<rparr>) e c d)"
  "keeps rv (res, rv\<lparr>rv_part_open := b\<rparr>)"
  by (simp_all add: keeps_def expectation_def receiver_fail_def set_rv_state_def Let_def)

lemma receiver_keeps_if: "keeps rv x \<Longrightarrow> keeps rv y \<Longrightarrow> keeps rv (if c then x else y)"
  by simp

lemma append_keeps: "keeps rv (receiver_append rv chunk payload env)"
  unfolding receiver_append_def Let_def
  by (intro receiver_keeps_if keeps_simps) (simp add: keeps_def expectation_def)

lemma finish_staging_keeps: "keeps rv (finish_staging sv rv e env)"
  unfolding finish_staging_def Let_def by (intro receiver_keeps_if keeps_simps)

lemma receiver_keeps_trans: "keeps rv (a, rv1) \<Longrightarrow> keeps rv1 out \<Longrightarrow> keeps rv out"
  by (auto simp: keeps_def)

lemma finish_keeps: "keeps rv (receiver_finish sv rv e env)"
proof -
  obtain r1 rv1 where fs: "finish_staging sv rv e env = (r1, rv1)" by (cases "finish_staging sv rv e env")
  have conf: "keeps rv1 (confirm_committed rv1 c env)" for c
    by (auto simp: confirm_committed_def Let_def) (simp add: keeps_def expectation_def set_rv_state_def)
  have "keeps rv1 (receiver_finish sv rv e env)"
    unfolding receiver_finish_def fs Let_def prod.case by (intro receiver_keeps_if keeps_simps conf)
  then show ?thesis
    using finish_staging_keeps [of rv sv e env] fs by (metis receiver_keeps_trans)
qed

lemma step_keeps:
  assumes "rv_state rv \<noteq> FRS_Idle"
  shows "expectation (receiver_step sv rv e) = expectation rv \<and> rv_state (receiver_step sv rv e) \<noteq> FRS_Idle"
proof -
  have "keeps rv (receiver_cancel rv d env)" for d env
    by (auto simp: receiver_cancel_def Let_def) (simp_all add: keeps_def expectation_def set_rv_state_def)
  then have "keeps rv (receiver_apply sv rv e)"
    using assms
    by (cases e) (auto simp: append_keeps finish_keeps receiver_begin_def receiver_resume_def
        begin_internal_def Let_def)
  then show ?thesis using assms by (simp add: keeps_def receiver_step_def)
qed

lemma run_keeps:
  "rv_state rv \<noteq> FRS_Idle \<Longrightarrow> expectation (run (receiver_step sv) rv es) = expectation rv"
  by (induction es arbitrary: rv) (simp_all add: step_keeps)

section \<open>Properties\<close>

definition checkpointed :: "uuid \<Rightarrow> u64 \<Rightarrow> resume_file_state \<Rightarrow> resume_file_state \<Rightarrow> bool" where
  "checkpointed fid off f f' \<longleftrightarrow>
     (if rf_file_id f = fid
      then f' = f\<lparr>rf_durable_offset := off\<rparr> \<and> rf_durable_offset f \<le> rf_durable_offset f'
      else f' = f)"

lemma checkpointed_all:
  assumes "matching_file fid files = Inr (Some g)" and "rf_durable_offset g \<le> off"
  shows "list_all2 (checkpointed fid off) files (set_durable_offset fid off files)"
proof -
  have "filter (\<lambda>f. rf_file_id f = fid) files = [g]"
    using assms(1) by (auto simp: matching_file_def split: list.splits)
  then show ?thesis
  proof (induction files)
    case (Cons f files)
    show ?case
    proof (cases "rf_file_id f = fid")
      case True
      with Cons.prems have "f = g" "\<forall>h \<in> set files. rf_file_id h \<noteq> fid"
        by (auto simp: filter_empty_conv)
      then have "list_all2 (checkpointed fid off) files files"
        by (intro list.rel_refl_strong) (simp add: checkpointed_def)
      moreover have "checkpointed fid off f (f\<lparr>rf_durable_offset := off\<rparr>)"
        using True \<open>f = g\<close> assms(2) by (simp add: checkpointed_def)
      ultimately show ?thesis using True by simp
    next
      case False
      with Cons show ?thesis by (simp add: checkpointed_def)
    qed
  qed simp
qed

text \<open>C29. A checkpoint is honest: it succeeds only while receiving with the staging file open, flushed and
  synced and the state saved, it reports exactly the bytes received, it never lowers the durable
  offset of the file, and it leaves every other file's entry and, on any error, the whole
  resume state as they were.\<close>

theorem receiver_checkpoint_honest:
  "case receiver_checkpoint rv st updated env saved of
     (Inl e, st') \<Rightarrow> e \<noteq> DCE_None \<and> st' = st
   | (Inr msg, st') \<Rightarrow>
       rv_state rv = FRS_Receiving \<and> rv_part_open rv \<and> re_flush_ok env \<and> re_sync_ok env \<and> saved \<and>
       rs_file_id (rv_snapshot rv) = Some (fk_file_id msg) \<and>
       fk_durable_offset msg = rs_received_bytes (rv_snapshot rv) \<and>
       rt_transfer_id st' = rt_transfer_id st \<and> rt_updated_utc st' = updated \<and>
       list_all2 (checkpointed (fk_file_id msg) (rs_received_bytes (rv_snapshot rv)))
         (rt_files st) (rt_files st')"
  by (auto simp: receiver_checkpoint_def Let_def not_less checkpointed_all
      split: option.splits sum.splits if_splits)

end
