(* ===== verification/FileTransfer.thy ===== *)
theory FileTransfer
  imports FileStream FileReceiver
begin

text \<open>
  Sender and receiver of one file put together: the frames the sender produces, decoded and handed
  to the receiver one by one, reproduce the file on the other side.
\<close>

section \<open>Delivering frames\<close>

text \<open>What a receiving endpoint does with one file frame: decode its metadata, call the operation.\<close>

definition deliver ::
  "receiver_services \<Rightarrow> qt_cbor \<Rightarrow> receive_request \<Rightarrow> resume_state option \<Rightarrow> receiver_env \<Rightarrow>
   file_receiver \<Rightarrow> frame \<Rightarrow> file_receiver" where
  "deliver sv qc request resume env rv f =
     (if f_type f = message_value MT_FileBegin then
        (case decode_file_message (sv_text sv) qc MT_FileBegin (f_metadata f) of
           Inr (FM_Begin b) \<Rightarrow> snd (begin_internal sv rv (request\<lparr>rq_begin := b\<rparr>) resume env)
         | _ \<Rightarrow> rv)
      else if f_type f = message_value MT_FileChunk then
        (case decode_file_message (sv_text sv) qc MT_FileChunk (f_metadata f) of
           Inr (FM_Chunk c) \<Rightarrow>
             snd (receiver_append rv c (f_payload f) (env\<lparr>re_written := length (f_payload f)\<rparr>))
         | _ \<Rightarrow> rv)
      else
        (case decode_file_message (sv_text sv) qc MT_FileEnd (f_metadata f) of
           Inr (FM_End e) \<Rightarrow> snd (receiver_finish sv rv e env)
         | _ \<Rightarrow> rv))"

definition the_begin :: "sender_request \<Rightarrow> file_begin_message" where
  "the_begin r =
     \<lparr>fb_transfer_id = sr_transfer_id r, fb_file_id = me_id (pme_entry (sr_source r)),
      fb_size = me_size (pme_entry (sr_source r)), fb_start_offset = sr_start_offset r,
      fb_chunk_bytes = sr_chunk_bytes r, fb_expected_sha256 = me_sha256 (pme_entry (sr_source r))\<rparr>"

definition the_chunk :: "sender_request \<Rightarrow> nat \<Rightarrow> nat \<Rightarrow> file_chunk_message" where
  "the_chunk r off k =
     \<lparr>fc_transfer_id = sr_transfer_id r, fc_file_id = me_id (pme_entry (sr_source r)),
      fc_offset = word_of_nat off, fc_sequence = word_of_nat k\<rparr>"

definition the_end :: "sender_request \<Rightarrow> file_end_message" where
  "the_end r =
     \<lparr>fe_transfer_id = sr_transfer_id r, fe_file_id = me_id (pme_entry (sr_source r)),
      fe_size = me_size (pme_entry (sr_source r)), fe_sha256 = me_sha256 (pme_entry (sr_source r))\<rparr>"

fun the_chunks :: "sender_request \<Rightarrow> nat \<Rightarrow> nat \<Rightarrow> bytes list \<Rightarrow> file_control_message list" where
  "the_chunks r off k [] = []"
| "the_chunks r off k (p # ps) = FM_Chunk (the_chunk r off k) # the_chunks r (off + length p) (Suc k) ps"

definition the_messages :: "sender_request \<Rightarrow> bytes \<Rightarrow> file_control_message list" where
  "the_messages r data =
     FM_Begin (the_begin r) #
     the_chunks r (unat (sr_start_offset r)) 0
       (slices (unat (sr_chunk_bytes r)) (drop (unat (sr_start_offset r)) data)) @
     [FM_End (the_end r)]"

definition wire_ok :: "qt_cbor \<Rightarrow> file_control_message \<Rightarrow> bool" where
  "wire_ok qc m \<longleftrightarrow> file_message_ok m \<and> cbor_reads_back qc (CMap (file_message_fields m))"

lemma decode_sent:
  assumes "wire_ok qc m" and "validate_file_message qt m" and "is_file_message_type (file_message_type m)"
  shows "decode_file_message qt qc (file_message_type m) (encode_file_message qt qc m) = Inr m"
  using assms file_codec.from_to [of m qt "file_message_fields m"]
  by (simp add: decode_file_message_def encode_file_message_def wire_ok_def file_message_map_def)

section \<open>The receiver along the stream\<close>

definition receiver_at :: "file_receiver \<Rightarrow> bytes \<Rightarrow> nat \<Rightarrow> nat \<Rightarrow> file_receiver" where
  "receiver_at rv data off k =
     rv\<lparr>rv_part := take off data, rv_hashed := take off data,
        rv_snapshot := (rv_snapshot rv)\<lparr>rs_received_bytes := word_of_nat off,
          rs_next_sequence := word_of_nat k\<rparr>\<rparr>"

text \<open>A receiver that accepted this sender's FILE_BEGIN.\<close>

definition accepted_for :: "sender_request \<Rightarrow> file_receiver \<Rightarrow> bool" where
  "accepted_for r rv \<longleftrightarrow>
     rv_state rv = FRS_Receiving \<and> rs_transfer_id (rv_snapshot rv) = Some (sr_transfer_id r) \<and>
     rs_file_id (rv_snapshot rv) = Some (me_id (pme_entry (sr_source r))) \<and>
     rs_expected_size (rv_snapshot rv) = me_size (pme_entry (sr_source r)) \<and>
     rv_expected_sha256 rv = me_sha256 (pme_entry (sr_source r)) \<and>
     rv_chunk_bytes rv = sr_chunk_bytes r \<and> rv_conflict_policy rv = CP_AutoRename"

lemma begin_accepts:
  assumes "begin_internal sv rv request resume env = (receiver_ok, rv0)"
    and "rq_begin request = the_begin r" and "rq_entry request = pme_entry (sr_source r)"
    and "resume = None \<longrightarrow> sr_start_offset r = 0" and "rv_part rv0 = take (unat (sr_start_offset r)) data"
  shows "accepted_for r rv0 \<and> rv0 = receiver_at rv0 data (unat (sr_start_offset r)) 0"
proof -
  have st: "staged_ok rv0"
    using begin_internal_cases [OF assms(1)] assms(2,4) by (auto simp: the_begin_def receiver_ok_def)
  have f: "rs_received_bytes (rv_snapshot rv0) = sr_start_offset r"
      "rs_next_sequence (rv_snapshot rv0) = 0" "accepted_for r rv0"
    using assms(1-3)
    by (auto simp: begin_internal_def Let_def receiver_failure_def receiver_path_failure_def
        receiver_ok_def the_begin_def accepted_for_def dest: open_staging_Inl
        split: if_splits prod.splits sum.splits)
  have "rv_hashed rv0 = rv_part rv0" using st by (simp add: staged_ok_def)
  then have "rv0 = receiver_at rv0 data (unat (sr_start_offset r)) 0"
    using f(1,2) assms(5) by (cases rv0; cases "rv_snapshot rv0") (simp add: receiver_at_def)
  with f(3) show ?thesis by blast
qed

lemma append_in_order:
  assumes "accepted_for r rv" and "length data = unat (me_size (pme_entry (sr_source r)))"
    and "length data < 2 ^ 63" and "sr_chunk_bytes r \<noteq> 0" and "off < length data"
  defines "p \<equiv> take (unat (sr_chunk_bytes r)) (drop off data)"
  shows "snd (receiver_append (receiver_at rv data off k) (the_chunk r off k) p
      (env\<lparr>re_written := length p\<rparr>)) = receiver_at rv data (off + length p) (Suc k)"
proof -
  have len: "length p \<le> length data - off" "length p \<le> unat (sr_chunk_bytes r)" "p \<noteq> []"
    using assms(4,5) by (auto simp: p_def unat_eq_zero)
  have size: "me_size (pme_entry (sr_source r)) = word_of_nat (length data)"
    using assms(2) by simp
  have "unat (word_of_nat (length p) :: u64) \<le> unat (word_of_nat (length data) - word_of_nat off :: u64)"
    using len assms(3,5) by (subst unat_of_nat_63, simp, subst unat_diff_of_nat) simp_all
  then have fits: "\<not> word_of_nat (length p) > (word_of_nat (length data) - word_of_nat off :: u64)"
    by (simp add: word_less_nat_alt)
  have "take off data @ p = take (off + length p) data"
    by (simp add: p_def take_add min_def)
  then show ?thesis
    using assms(1) len fits
    by (simp add: receiver_append_def Let_def receiver_at_def the_chunk_def accepted_for_def size
        add.commute)
qed

lemma deliver_chunk:
  assumes "wire_ok qc (FM_Chunk (the_chunk r off k))" and "off < 2 ^ 63" and "k < 2 ^ 63"
  shows "deliver sv qc request resume env rv (hd (chunk_frames (sv_text sv) qc r off k [p])) =
    snd (receiver_append rv (the_chunk r off k) p (env\<lparr>re_written := length p\<rparr>))"
proof -
  have "validate_file_message (sv_text sv) (FM_Chunk (the_chunk r off k))"
    using wire_of_nat assms(2,3) by (simp add: the_chunk_def)
  from decode_sent [OF assms(1) this] show ?thesis
    by (simp add: deliver_def stream_frame_def the_chunk_def is_file_message_type_def)
qed

lemma deliver_chunks:
  assumes "accepted_for r rv" and "length data = unat (me_size (pme_entry (sr_source r)))"
    and "length data < 2 ^ 63" and "sr_chunk_bytes r \<noteq> 0"
  shows "off \<le> length data \<Longrightarrow> k \<le> off \<Longrightarrow>
    \<forall>m \<in> set (the_chunks r off k (slices (unat (sr_chunk_bytes r)) (drop off data))). wire_ok qc m \<Longrightarrow>
    \<exists>k'. foldl (deliver sv qc request resume env) (receiver_at rv data off k)
        (chunk_frames (sv_text sv) qc r off k (slices (unat (sr_chunk_bytes r)) (drop off data))) =
      receiver_at rv data (length data) k'"
proof (induction "length data - off" arbitrary: off k rule: less_induct)
  case less
  let ?c = "unat (sr_chunk_bytes r)"
  let ?p = "take ?c (drop off data)"
  show ?case
  proof (cases "off = length data")
    case True
    then show ?thesis by auto
  next
    case False
    then have off: "off < length data" using less.prems by simp
    have c: "?c \<noteq> 0" using assms(4) by (simp add: unat_eq_zero)
    have sl: "slices ?c (drop off data) = ?p # slices ?c (drop (off + length ?p) data)"
      using slices_step [of ?c "drop off data"] c off by (simp add: add.commute min_def)
    have pos: "0 < length ?p" and le: "off + length ?p \<le> length data"
      using c off by (auto simp: min_def)
    have one: "deliver sv qc request resume env (receiver_at rv data off k)
        (hd (chunk_frames (sv_text sv) qc r off k [?p])) = receiver_at rv data (off + length ?p) (Suc k)"
      using deliver_chunk [of qc r off k sv request resume env "receiver_at rv data off k" ?p]
        append_in_order [OF assms off, of k env] less.prems(2,3) off assms(3) sl by simp
    have "\<exists>k'. foldl (deliver sv qc request resume env) (receiver_at rv data (off + length ?p) (Suc k))
        (chunk_frames (sv_text sv) qc r (off + length ?p) (Suc k)
          (slices ?c (drop (off + length ?p) data))) = receiver_at rv data (length data) k'"
    proof (rule less.hyps)
      show "length data - (off + length ?p) < length data - off" using pos off by linarith
      show "off + length ?p \<le> length data" by (rule le)
      show "Suc k \<le> off + length ?p" using pos less.prems(2) by linarith
      show "\<forall>m \<in> set (the_chunks r (off + length ?p) (Suc k) (slices ?c (drop (off + length ?p) data))).
          wire_ok qc m"
        using less.prems(3) unfolding sl by simp
    qed
    then show ?thesis
      using one unfolding sl by (simp del: length_take)
  qed
qed

definition commit_env :: "receiver_services \<Rightarrow> receiver_env \<Rightarrow> file_receiver \<Rightarrow> bool" where
  "commit_env sv env rv \<longleftrightarrow>
     re_mkpath_ok env \<and> re_flush_ok env \<and> re_rename_ok env \<and> \<not> re_part_left env \<and>
     choose_auto_rename_target (sv_files sv) env rv (rv_requested_target rv) \<noteq> []"

lemma finish_commits:
  assumes "accepted_for r rv" and "length data = unat (me_size (pme_entry (sr_source r)))"
    and "sv_sha sv data = me_sha256 (pme_entry (sr_source r))" and "commit_env sv env rv"
  shows "receiver_completed (snd (receiver_finish sv (receiver_at rv data (length data) k) (the_end r) env)) \<and>
    rv_part (snd (receiver_finish sv (receiver_at rv data (length data) k) (the_end r) env)) = data"
proof -
  have "me_size (pme_entry (sr_source r)) = word_of_nat (length data)"
    using assms(2) by simp
  moreover have "choose_auto_rename_target (sv_files sv) env
      ((receiver_at rv data (length data) k)\<lparr>rv_part_open := False\<rparr>) (rv_requested_target rv) =
    choose_auto_rename_target (sv_files sv) env rv (rv_requested_target rv)"
    by (simp add: choose_auto_rename_target_def receiver_at_def)
  ultimately show ?thesis
    using assms
    by (simp add: receiver_finish_def finish_staging_def Let_def receiver_at_def accepted_for_def
        the_end_def commit_env_def confirm_committed_def receiver_ok_def receiver_completed_def
        set_rv_state_def)
qed

lemma begin_message_new: "begin_message (new_sender r) = FM_Begin (the_begin r)"
  by (simp add: begin_message_def new_sender_def the_begin_def)

lemma transfer_complete:
  assumes "sending (sv_text sv) qd qc r data" and "sv_sha sv data = me_sha256 (pme_entry (sr_source r))"
    and "\<forall>m \<in> set (the_messages r data). wire_ok qc m"
    and "begin_internal sv rv (request\<lparr>rq_begin := the_begin r\<rparr>) resume env = (receiver_ok, rv0)"
    and "rq_entry request = pme_entry (sr_source r)"
    and "resume = None \<longrightarrow> sr_start_offset r = 0"
    and "rv_part rv0 = take (unat (sr_start_offset r)) data" and "commit_env sv env rv0"
  shows "receiver_completed (foldl (deliver sv qc request resume env) rv (file_frames (sv_text sv) qc r data)) \<and>
    rv_part (foldl (deliver sv qc request resume env) rv (file_frames (sv_text sv) qc r data)) = data"
proof -
  note f = sending_facts [OF assms(1)]
  let ?st = "unat (sr_start_offset r)" and ?c = "unat (sr_chunk_bytes r)"
  let ?d = "deliver sv qc request resume env"
  have len: "length data = unat (me_size (pme_entry (sr_source r)))"
    using assms(1) by (simp add: sending_def)
  have acc: "accepted_for r rv0" and rv0: "rv0 = receiver_at rv0 data ?st 0"
    using begin_accepts [OF assms(4) _ _ assms(6,7)] assms(5) by simp_all
  have wire: "wire_integer (sr_start_offset r)" "wire_integer (me_size (pme_entry (sr_source r)))"
    using f(3,4) len by (simp_all add: wire_integer_nat)
  have b: "?d rv (begin_frame (sv_text sv) qc r) = rv0"
    using decode_sent [of qc "FM_Begin (the_begin r)" "sv_text sv"] assms(3,4) wire f
    by (simp add: deliver_def begin_frame_def stream_frame_def begin_message_new the_messages_def
        is_file_message_type_def) (simp add: the_begin_def)
  obtain k where ch: "foldl ?d rv0 (chunk_frames (sv_text sv) qc r ?st 0 (slices ?c (drop ?st data))) =
      receiver_at rv0 data (length data) k"
    using deliver_chunks [OF acc len f(3,1,4), of 0 qc sv request resume env] rv0 assms(3)
    by (auto simp: the_messages_def)
  have e: "?d (receiver_at rv0 data (length data) k) (end_frame (sv_text sv) qc r) =
      snd (receiver_finish sv (receiver_at rv0 data (length data) k) (the_end r) env)"
    using decode_sent [of qc "FM_End (the_end r)" "sv_text sv"] assms(3) wire f(5)
    by (simp add: deliver_def end_frame_def stream_frame_def the_messages_def
        is_file_message_type_def the_end_def)
  show ?thesis
    using finish_commits [OF acc len assms(2,8), of k]
    by (simp add: file_frames_def Let_def b ch e)
qed

section \<open>Concrete input\<close>

definition sample_files :: qt_files where
  "sample_files = \<lparr>qf_uuid_string = (\<lambda>u. [97 + word_of_nat (unat u)]), qf_file_name = (\<lambda>p. p),
     qf_absolute_path = (\<lambda>p. p), qf_file_path = (\<lambda>d p. d @ p)\<rparr>"

definition sample_services :: receiver_services where
  "sample_services = \<lparr>sv_text = ascii_text, sv_dir = unix_dir, sv_files = sample_files, sv_sha = zero_sha\<rparr>"

definition sample_env :: receiver_env where
  "sample_env = \<lparr>re_exists = (\<lambda>_. False), re_mkpath_ok = True, re_open_ok = True, re_staging = [],
     re_staging_regular = False, re_readable = 0, re_seek_ok = True, re_written = 0,
     re_resource_error = False, re_flush_ok = True, re_rename_ok = True, re_part_left = False,
     re_remove_ok = True, re_sync_ok = True\<rparr>"

definition sample_receive :: receive_request where
  "sample_receive = \<lparr>rq_receive_root = qstr ''/in'', rq_entry = pme_entry (sr_source sample_request),
     rq_begin = the_begin sample_request, rq_manifest_sha256 = [], rq_conflict_policy = CP_AutoRename,
     rq_path_limits = default_path_limits\<rparr>"

definition sample_cbor :: qt_cbor where
  "sample_cbor = table_cbor (map (\<lambda>m. CMap (file_message_fields m)) (the_messages sample_request [1, 2, 3]))"

lemma sample_begin_accepted:
  "fst (begin_internal sample_services new_receiver sample_receive None sample_env) = receiver_ok"
  "rv_part (snd (begin_internal sample_services new_receiver sample_receive None sample_env)) = []"
  "rv_conflict_policy (snd (begin_internal sample_services new_receiver sample_receive None sample_env)) =
     CP_AutoRename"
  "rv_requested_target (snd (begin_internal sample_services new_receiver sample_receive None sample_env)) =
     qstr ''/in/docs/a.txt''"
proof -
  have join: "join_lexically_under_root ascii_text unix_dir (qstr ''/in'') sample_path default_path_limits =
      (Inr \<lparr>vp_normalized = sample_path, vp_collision_key = sample_path\<rparr>, qstr ''/in/docs/a.txt'')"
    unfolding join_lexically_under_root_def sample_path_valid
    by (simp add: unix_dir_def comparable_local_path_def collision_key_def ascii_text_def qstr_def
        starts_with_def ends_with_def sample_path_def ascii_lower_def)
  have rel: "staging_relative_path sample_files (the_begin sample_request) = qstr ''.incoming/f/g.part''"
    by (simp add: staging_relative_path_def sample_files_def the_begin_def sample_request_def qstr_def)
  have stage: "\<exists>v out. join_lexically_under_root ascii_text unix_dir (qstr ''/in'')
      (qstr ''.incoming/f/g.part'') default_path_limits = (Inr v, out)"
    by (simp add: join_lexically_under_root_def validate_relative_def qstr_def ascii_text_def unix_dir_def
        default_path_limits_def starts_with_def is_ascii_letter_def is_high_surrogate_def
        is_low_surrogate_def component_error_def windows_invalid_characters_def ends_with_def
        is_windows_reserved_name_def collision_key_def comparable_local_path_def ascii_lower_def
        ascii_upper_def Let_def)
  have valid: "valid_begin sample_receive"
    by (simp add: valid_begin_def sample_receive_def the_begin_def sample_request_def qsizetype_max_def
        kMaximumChunkBytes_def kSha256Bytes_def Let_def)
  have path: "me_relative_protocol_path (rq_entry sample_receive) = sample_path"
    by (simp add: sample_receive_def sample_request_def)
  obtain v out where st: "join_lexically_under_root ascii_text unix_dir (qstr ''/in'')
      (qstr ''.incoming/f/g.part'') default_path_limits = (Inr v, out)"
    using stage by blast
  have eq: "begin_internal sample_services new_receiver sample_receive None sample_env =
    (receiver_ok, snd (begin_internal sample_services new_receiver sample_receive None sample_env)) \<and>
    rv_part (snd (begin_internal sample_services new_receiver sample_receive None sample_env)) = [] \<and>
    rv_conflict_policy (snd (begin_internal sample_services new_receiver sample_receive None sample_env)) =
      CP_AutoRename \<and>
    rv_requested_target (snd (begin_internal sample_services new_receiver sample_receive None sample_env)) =
      qstr ''/in/docs/a.txt''"
    using valid path join st rel
    by (simp add: begin_internal_def Let_def new_receiver_def empty_snapshot_def sample_services_def
        sample_env_def open_staging_def sample_receive_def)
  then show
    "fst (begin_internal sample_services new_receiver sample_receive None sample_env) = receiver_ok"
    "rv_part (snd (begin_internal sample_services new_receiver sample_receive None sample_env)) = []"
    "rv_conflict_policy (snd (begin_internal sample_services new_receiver sample_receive None sample_env)) =
       CP_AutoRename"
    "rv_requested_target (snd (begin_internal sample_services new_receiver sample_receive None sample_env)) =
       qstr ''/in/docs/a.txt''"
    by (metis fst_conv)+
qed

lemma sample_messages:
  "the_messages sample_request [1, 2, 3] =
     [FM_Begin (the_begin sample_request), FM_Chunk (the_chunk sample_request 0 0),
      FM_Chunk (the_chunk sample_request 2 1), FM_End (the_end sample_request)]"
proof -
  have c: "unat (sr_chunk_bytes sample_request) = 2" and st: "unat (sr_start_offset sample_request) = 0"
    by (simp_all add: sample_request_def)
  have "slices 2 [1, 2, 3 :: byte] = [[1, 2], [3]]"
    by (simp add: slices_step)
  then show ?thesis
    by (simp add: the_messages_def c st numeral_2_eq_2)
qed

lemma sample_wire: "\<forall>m \<in> set (the_messages sample_request [1, 2, 3]). wire_ok sample_cbor m"
proof
  fix m assume m: "m \<in> set (the_messages sample_request [1, 2, 3])"
  have ids: "sr_transfer_id sample_request = 5" "me_id (pme_entry (sr_source sample_request)) = 6"
    by (simp_all add: sample_request_def)
  have ok: "file_message_ok m"
    using m unfolding sample_messages
    by (auto simp: file_message_ok_def the_begin_def the_chunk_def the_end_def ids)
  have "length (map (\<lambda>m. CMap (file_message_fields m)) (the_messages sample_request [1, 2, 3])) < 256"
    unfolding sample_messages by simp
  moreover have "CMap (file_message_fields m) \<in>
      set (map (\<lambda>m. CMap (file_message_fields m)) (the_messages sample_request [1, 2, 3]))"
    unfolding set_map by (rule imageI) (rule m)
  ultimately have "cbor_reads_back sample_cbor (CMap (file_message_fields m))"
    unfolding sample_cbor_def by (intro table_reads_back)
  with ok show "wire_ok sample_cbor m"
    by (simp only: wire_ok_def simp_thms)
qed

lemma sample_begin: "begin_internal sample_services new_receiver sample_receive None sample_env =
    (receiver_ok, snd (begin_internal sample_services new_receiver sample_receive None sample_env))"
  using sample_begin_accepted(1) by (simp add: prod_eq_iff)

lemma sample_commit_env:
  "commit_env sample_services sample_env
     (snd (begin_internal sample_services new_receiver sample_receive None sample_env))"
proof -
  have "0 < kMaximumAutoRenameAttempts"
    by (simp add: kMaximumAutoRenameAttempts_def)
  then have first: "[0..<kMaximumAutoRenameAttempts] = 0 # [Suc 0..<kMaximumAutoRenameAttempts]"
    by (rule upt_conv_Cons)
  show ?thesis
    using sample_begin_accepted
    by (simp add: commit_env_def sample_env_def choose_auto_rename_target_def auto_rename_candidate_def
        qstr_def first)
qed

lemma sample_services_simps [simp]:
  "sv_text sample_services = ascii_text" "sv_sha sample_services = zero_sha"
  by (simp_all add: sample_services_def)

lemma sample_receive_rq_begin [simp]: "rq_begin sample_receive = the_begin sample_request"
  by (simp add: sample_receive_def)

lemma sample_receive_begin [simp]: "sample_receive\<lparr>rq_begin := the_begin sample_request\<rparr> = sample_receive"
  by (simp add: sample_receive_def)

lemma sample_premises:
  "sending (sv_text sample_services) unix_dir sample_cbor sample_request [1, 2, 3]"
  "sv_sha sample_services [1, 2, 3] = me_sha256 (pme_entry (sr_source sample_request))"
  "begin_internal sample_services new_receiver (sample_receive\<lparr>rq_begin := the_begin sample_request\<rparr>)
     None sample_env =
   (receiver_ok, snd (begin_internal sample_services new_receiver sample_receive None sample_env))"
  "rq_entry sample_receive = pme_entry (sr_source sample_request)"
  "sr_start_offset sample_request = 0"
  "rv_part (snd (begin_internal sample_services new_receiver sample_receive None sample_env)) =
     take (unat (sr_start_offset sample_request)) [1, 2, 3]"
  using sample_sending sample_sha sample_begin sample_begin_accepted(2)
  by (simp_all add: sending_def sample_cbor_def table_cbor_def sample_receive_def)
     (simp_all add: sample_request_def)

section \<open>Properties\<close>

text \<open>C1. A transferred file arrives: when the receiver has accepted the sender's FILE_BEGIN (fresh, or
  resumed with the file's own prefix staged) and the file system lets it commit, then decoding and
  applying the frames of the sender one by one, in order, leaves the receiver completed with a
  file that is byte for byte the sender's.\<close>

theorem file_transfer_end_to_end:
  assumes "sending (sv_text sv) qd qc r data" and "sv_sha sv data = me_sha256 (pme_entry (sr_source r))"
    and "\<forall>m \<in> set (the_messages r data). wire_ok qc m"
    and "begin_internal sv rv (request\<lparr>rq_begin := the_begin r\<rparr>) resume env = (receiver_ok, rv0)"
    and "rq_entry request = pme_entry (sr_source r)"
    and "resume = None \<longrightarrow> sr_start_offset r = 0"
    and "rv_part rv0 = take (unat (sr_start_offset r)) data" and "commit_env sv env rv0"
    and "honest_source data (pme_entry (sr_source r)) source"
  shows "\<exists>frames s.
    pull_frames (next_frame (sv_text sv) qd qc (sv_sha sv) source) (stream_calls r data) (new_sender r) =
      (frames, s) \<and> sender_finished s \<and>
    receiver_completed (foldl (deliver sv qc request resume env) rv frames) \<and>
    rv_part (foldl (deliver sv qc request resume env) rv frames) = data"
  using transfer_complete [OF assms(1-8)]
    sender_stream [of "sv_text sv" qd qc r data _ "sv_sha sv" source, OF assms(1) refl assms(9,2)]
  by blast

theorem file_transfer_end_to_end_witness:
  "\<exists>frames s.
    pull_frames (next_frame ascii_text unix_dir sample_cbor zero_sha sample_source)
      (stream_calls sample_request [1, 2, 3]) (new_sender sample_request) = (frames, s) \<and>
    sender_finished s \<and>
    receiver_completed (foldl (deliver sample_services sample_cbor sample_receive None sample_env) new_receiver frames) \<and>
    rv_part (foldl (deliver sample_services sample_cbor sample_receive None sample_env) new_receiver frames) = [1, 2, 3]"
  using file_transfer_end_to_end [OF sample_premises(1,2) sample_wire sample_premises(3,4) _
      sample_premises(6) sample_commit_env sample_honest]
  by (simp add: sample_premises(5))

text \<open>A run of the same transfer at the level of receiver operations.\<close>

definition sample_events :: "receiver_event list" where
  "sample_events =
     [RV_Append (the_chunk sample_request 0 0) [1, 2] (sample_env\<lparr>re_written := 2\<rparr>),
      RV_Append (the_chunk sample_request 2 1) [3] (sample_env\<lparr>re_written := 1\<rparr>),
      RV_Finish (the_end sample_request) sample_env]"

lemma sample_events_complete:
  "receiver_completed (run (receiver_step sample_services)
     (snd (begin_internal sample_services new_receiver sample_receive None sample_env)) sample_events)"
proof -
  let ?rv = "snd (begin_internal sample_services new_receiver sample_receive None sample_env)"
  have acc: "accepted_for sample_request ?rv" and at0: "?rv = receiver_at ?rv [1, 2, 3] 0 0"
    using begin_accepts [OF sample_premises(3), of sample_request "[1, 2, 3]"] sample_premises(4-6) by simp_all
  have len: "length [1, 2, 3 :: byte] = unat (me_size (pme_entry (sr_source sample_request)))"
    and small: "length [1, 2, 3 :: byte] < 2 ^ 63" and chunk: "sr_chunk_bytes sample_request \<noteq> 0"
    and two: "unat (sr_chunk_bytes sample_request) = 2"
    by (simp_all add: sample_request_def)
  have one: "receiver_step sample_services (receiver_at ?rv [1, 2, 3] 0 0)
      (RV_Append (the_chunk sample_request 0 0) [1, 2] (sample_env\<lparr>re_written := 2\<rparr>)) =
    receiver_at ?rv [1, 2, 3] 2 1"
    using append_in_order [OF acc len small chunk, of 0 0 sample_env]
    by (simp add: two receiver_step_def numeral_2_eq_2 [symmetric])
  have next_chunk: "receiver_step sample_services (receiver_at ?rv [1, 2, 3] 2 1)
      (RV_Append (the_chunk sample_request 2 1) [3] (sample_env\<lparr>re_written := 1\<rparr>)) =
    receiver_at ?rv [1, 2, 3] 3 2"
    using append_in_order [OF acc len small chunk, of 2 1 sample_env]
    by (simp add: two receiver_step_def numeral_2_eq_2 [symmetric] numeral_3_eq_3 [symmetric])
  have fin: "receiver_completed (receiver_step sample_services (receiver_at ?rv [1, 2, 3] 3 2)
      (RV_Finish (the_end sample_request) sample_env))"
    using finish_commits [OF acc len sample_premises(2) sample_commit_env, of 2]
    by (simp add: receiver_step_def numeral_3_eq_3 [symmetric])
  have "run (receiver_step sample_services) ?rv sample_events =
      receiver_step sample_services (receiver_at ?rv [1, 2, 3] 3 2) (RV_Finish (the_end sample_request) sample_env)"
    unfolding sample_events_def run.simps by (subst at0) (simp only: one next_chunk)
  then show ?thesis using fin by simp
qed

text \<open>C5. Nothing unverified is ever committed: once a receiver has accepted a FILE_BEGIN or a resume for
  a manifest entry, then whatever chunks, ends, cancels and further begins arrive, in whatever
  order and with whatever file system errors, a completed receiver has committed a file whose
  size and SHA-256 are those of the manifest entry.\<close>

theorem receiver_commits_only_verified:
  assumes "begin_internal sv new_receiver request resume env = (receiver_ok, rv0)"
    and "resume = None \<longrightarrow> fb_start_offset (rq_begin request) = 0"
    and "receiver_completed (run (receiver_step sv) rv0 es)"
  shows "length (rv_part (run (receiver_step sv) rv0 es)) = unat (me_size (rq_entry request)) \<and>
    sv_sha sv (rv_part (run (receiver_step sv) rv0 es)) = me_sha256 (rq_entry request) \<and>
    rs_committed_path (rv_snapshot (run (receiver_step sv) rv0 es)) \<noteq> []"
proof -
  from begin_internal_cases [OF assms(1,2)]
  have rv0: "rv_state rv0 = FRS_Receiving" "staged_ok rv0"
      "expectation rv0 = (me_size (rq_entry request), me_sha256 (rq_entry request))"
    by (auto simp: receiver_ok_def expectation_def)
  then have "receiver_inv sv (run (receiver_step sv) rv0 es)"
    by (intro receiver.inv_run) (simp add: receiver_inv_def)
  moreover have "expectation (run (receiver_step sv) rv0 es) = expectation rv0"
    using rv0(1) by (intro run_keeps) simp
  ultimately show ?thesis
    using assms(3) rv0(3)
    by (simp add: receiver_inv_def receiver_completed_def committed_ok_def expectation_def)
qed

theorem receiver_commits_only_verified_witness:
  "length (rv_part (run (receiver_step sample_services)
     (snd (begin_internal sample_services new_receiver sample_receive None sample_env)) sample_events)) = 3"
  using receiver_commits_only_verified [OF sample_begin _ sample_events_complete]
  by (simp add: sample_receive_def) (simp add: the_begin_def sample_request_def)

text \<open>C32. A commit is final: after a receiver has completed, no begin, chunk, end or cancel (not even one
  that asks to remove the partial file) changes anything of it.\<close>

theorem receiver_completion_final:
  assumes "receiver_completed (run (receiver_step sv) new_receiver es)"
  shows "run (receiver_step sv) new_receiver (es @ fs) = run (receiver_step sv) new_receiver es"
  using receiver.outcome_final [OF new_receiver_inv assms, of fs "[]"] by simp

theorem receiver_completion_final_witness:
  "run (receiver_step sample_services) new_receiver
     ((RV_Begin sample_receive sample_env # sample_events) @ [RV_Cancel PD_Remove sample_env]) =
   run (receiver_step sample_services) new_receiver (RV_Begin sample_receive sample_env # sample_events)"
proof (rule receiver_completion_final)
  have "receiver_step sample_services new_receiver (RV_Begin sample_receive sample_env) =
      snd (begin_internal sample_services new_receiver sample_receive None sample_env)"
    using sample_premises(5)
    by (simp add: receiver_step_def receiver_begin_def sample_receive_def the_begin_def)
  then show "receiver_completed (run (receiver_step sample_services) new_receiver
      (RV_Begin sample_receive sample_env # sample_events))"
    using sample_events_complete by simp
qed

end
