(* ===== verification/TransferOffer.thy ===== *)
theory TransferOffer
  imports TransferTypes MachineInterface
begin

text \<open>
  \<open>TransferOfferStateMachine\<close>: the life of one transfer offer between two devices, from the
  outgoing or incoming offer to its single decision. Each method returns its error code
  (\<open>OSE_None\<close> on success) and the machine after the call.
\<close>

section \<open>State\<close>

datatype offer_direction = OD_Outgoing | OD_Incoming

datatype offer_state =
    OS_Idle | OS_AwaitingPeerDecision | OS_AwaitingLocalDecision
  | OS_Accepted | OS_Rejected | OS_Failed

datatype offer_state_error =
    OSE_None | OSE_InvalidOffer | OSE_ActiveOfferExists | OSE_InvalidState
  | OSE_TransferIdMismatch | OSE_CapabilityUnavailable | OSE_ConflictPolicyUnavailable
  | OSE_InvalidResponse

record offer_snapshot =
  os_transfer_id :: uuid
  os_direction :: offer_direction
  os_state :: offer_state
  os_display_name :: qstring
  os_total_bytes :: u64
  os_file_count :: u64
  os_directory_count :: u64
  os_requested_conflict_policy :: conflict_policy
  os_acceptance :: "transfer_accept option"
  os_rejection :: "transfer_reject option"
  os_error_code :: transfer_error_code

record offer_machine =
  om_capabilities :: negotiated_capabilities
  om_snapshot :: "offer_snapshot option"

definition new_offer_machine :: "negotiated_capabilities \<Rightarrow> offer_machine" where
  "new_offer_machine caps = \<lparr>om_capabilities = caps, om_snapshot = None\<rparr>"

definition offer_is_terminal :: "offer_state \<Rightarrow> bool" where
  "offer_is_terminal st \<longleftrightarrow> st = OS_Accepted \<or> st = OS_Rejected \<or> st = OS_Failed"

fun valid_reject_reason :: "reject_reason \<Rightarrow> bool" where
  "valid_reject_reason (RR_Unlisted _) = False"
| "valid_reject_reason _ = True"

section \<open>Validation\<close>

definition supports_policy :: "offer_machine \<Rightarrow> conflict_policy \<Rightarrow> bool" where
  "supports_policy m p \<longleftrightarrow> p \<in> set (nc_conflict_policies (om_capabilities m))"

definition u64_top :: u64 where
  "u64_top = - 1"

definition validate_offer :: "qt_text \<Rightarrow> offer_machine \<Rightarrow> transfer_offer \<Rightarrow> offer_state_error" where
  "validate_offer qt m offer =
     (let entry_count_overflows = to_file_count offer > u64_top - to_directory_count offer in
      if to_display_name offer = [] \<or>
         qt_utf8_size qt (to_display_name offer) > kMaxControlStringUtf8Bytes \<or>
         length (to_manifest_sha256 offer) \<noteq> kSha256Bytes \<or>
         to_manifest_page_count offer = 0 \<or> entry_count_overflows \<or>
         to_file_count offer + to_directory_count offer
           > ucast (nc_max_manifest_entries (om_capabilities m))
        then OSE_InvalidOffer
      else if to_directory_count offer > 0 \<and>
              qstr ''folder.v1'' \<notin> set (nc_features (om_capabilities m))
        then OSE_CapabilityUnavailable
      else if \<not> supports_policy m (to_requested_conflict_policy offer)
        then OSE_ConflictPolicyUnavailable
      else OSE_None)"

section \<open>Operations\<close>

definition offer_active :: "offer_machine \<Rightarrow> bool" where
  "offer_active m \<longleftrightarrow>
     (case om_snapshot m of None \<Rightarrow> False | Some s \<Rightarrow> \<not> offer_is_terminal (os_state s))"

definition fresh_snapshot ::
  "transfer_offer \<Rightarrow> offer_direction \<Rightarrow> offer_state \<Rightarrow> offer_snapshot" where
  "fresh_snapshot offer dir st =
     \<lparr>os_transfer_id = to_transfer_id offer, os_direction = dir, os_state = st,
      os_display_name = to_display_name offer, os_total_bytes = to_total_bytes offer,
      os_file_count = to_file_count offer, os_directory_count = to_directory_count offer,
      os_requested_conflict_policy = to_requested_conflict_policy offer,
      os_acceptance = None, os_rejection = None, os_error_code = TEC_None\<rparr>"

definition begin_outgoing ::
  "qt_text \<Rightarrow> offer_machine \<Rightarrow> transfer_offer \<Rightarrow> offer_state_error \<times> offer_machine" where
  "begin_outgoing qt m offer =
     (if offer_active m then (OSE_ActiveOfferExists, m)
      else let valid = validate_offer qt m offer in
        if valid \<noteq> OSE_None then (valid, m)
        else (OSE_None,
              m\<lparr>om_snapshot := Some (fresh_snapshot offer OD_Outgoing OS_AwaitingPeerDecision)\<rparr>))"

definition receive_incoming ::
  "qt_text \<Rightarrow> offer_machine \<Rightarrow> transfer_offer \<Rightarrow> offer_state_error \<times> offer_machine" where
  "receive_incoming qt m offer =
     (if offer_active m then (OSE_ActiveOfferExists, m)
      else let valid = validate_offer qt m offer in
        if valid \<noteq> OSE_None then (valid, m)
        else (OSE_None,
              m\<lparr>om_snapshot := Some (fresh_snapshot offer OD_Incoming OS_AwaitingLocalDecision)\<rparr>))"

text \<open>The snapshot, when it is an offer of the given direction waiting in the given state.\<close>

definition waiting_snapshot ::
  "offer_machine \<Rightarrow> offer_direction \<Rightarrow> offer_state \<Rightarrow> offer_snapshot option" where
  "waiting_snapshot m dir st =
     (case om_snapshot m of
        None \<Rightarrow> None
      | Some s \<Rightarrow> if os_direction s \<noteq> dir \<or> os_state s \<noteq> st then None else Some s)"

definition receive_accept ::
  "qt_text \<Rightarrow> offer_machine \<Rightarrow> transfer_accept \<Rightarrow> offer_state_error \<times> offer_machine" where
  "receive_accept qt m acceptance =
     (case waiting_snapshot m OD_Outgoing OS_AwaitingPeerDecision of
        None \<Rightarrow> (OSE_InvalidState, m)
      | Some s \<Rightarrow>
          if ta_transfer_id acceptance \<noteq> os_transfer_id s then (OSE_TransferIdMismatch, m)
          else if \<not> supports_policy m (ta_effective_conflict_policy acceptance)
            then (OSE_ConflictPolicyUnavailable, m)
          else if qt_trimmed qt (ta_logical_destination acceptance) = [] \<or>
                  qt_utf8_size qt (ta_logical_destination acceptance) > kMaxControlStringUtf8Bytes
            then (OSE_InvalidResponse, m)
          else (OSE_None,
                m\<lparr>om_snapshot := Some (s\<lparr>os_acceptance := Some acceptance, os_state := OS_Accepted\<rparr>)\<rparr>))"

definition receive_reject ::
  "qt_text \<Rightarrow> offer_machine \<Rightarrow> transfer_reject \<Rightarrow> offer_state_error \<times> offer_machine" where
  "receive_reject qt m rejection =
     (case waiting_snapshot m OD_Outgoing OS_AwaitingPeerDecision of
        None \<Rightarrow> (OSE_InvalidState, m)
      | Some s \<Rightarrow>
          if tr_transfer_id rejection \<noteq> os_transfer_id s then (OSE_TransferIdMismatch, m)
          else if \<not> valid_reject_reason (tr_reason rejection) \<or>
                  qt_utf8_size qt (tr_diagnostic rejection) > kMaxControlStringUtf8Bytes
            then (OSE_InvalidResponse, m)
          else (OSE_None,
                m\<lparr>om_snapshot := Some (s\<lparr>os_rejection := Some rejection, os_state := OS_Rejected\<rparr>)\<rparr>))"

definition accept_incoming ::
  "qt_text \<Rightarrow> offer_machine \<Rightarrow> conflict_policy \<Rightarrow> qstring \<Rightarrow> u64 \<Rightarrow> acceptance_origin \<Rightarrow>
   offer_state_error \<times> offer_machine" where
  "accept_incoming qt m policy destination free_bytes origin =
     (case waiting_snapshot m OD_Incoming OS_AwaitingLocalDecision of
        None \<Rightarrow> (OSE_InvalidState, m)
      | Some s \<Rightarrow>
          if \<not> supports_policy m policy then (OSE_ConflictPolicyUnavailable, m)
          else let dest = qt_trimmed qt destination in
            if dest = [] \<or> qt_utf8_size qt dest > kMaxControlStringUtf8Bytes
              then (OSE_InvalidResponse, m)
            else if free_bytes < os_total_bytes s then (OSE_InvalidResponse, m)
            else (OSE_None,
                  m\<lparr>om_snapshot := Some (s\<lparr>
                      os_acceptance := Some
                        \<lparr>ta_transfer_id = os_transfer_id s, ta_effective_conflict_policy = policy,
                         ta_logical_destination = dest, ta_free_bytes = free_bytes,
                         ta_auto_accepted = (origin = AO_TrustedDevicePolicy)\<rparr>,
                      os_state := OS_Accepted\<rparr>)\<rparr>))"

definition reject_incoming ::
  "qt_text \<Rightarrow> offer_machine \<Rightarrow> reject_reason \<Rightarrow> qstring \<Rightarrow> offer_state_error \<times> offer_machine" where
  "reject_incoming qt m reason diagnostic =
     (case waiting_snapshot m OD_Incoming OS_AwaitingLocalDecision of
        None \<Rightarrow> (OSE_InvalidState, m)
      | Some s \<Rightarrow>
          if \<not> valid_reject_reason reason \<or>
             qt_utf8_size qt diagnostic > kMaxControlStringUtf8Bytes
            then (OSE_InvalidResponse, m)
          else (OSE_None,
                m\<lparr>om_snapshot := Some (s\<lparr>
                    os_rejection := Some \<lparr>tr_transfer_id = os_transfer_id s, tr_reason = reason,
                      tr_diagnostic = diagnostic\<rparr>,
                    os_state := OS_Rejected\<rparr>)\<rparr>))"

definition offer_fail ::
  "offer_machine \<Rightarrow> transfer_error_code \<Rightarrow> offer_state_error \<times> offer_machine" where
  "offer_fail m code =
     (case om_snapshot m of
        None \<Rightarrow> (OSE_InvalidState, m)
      | Some s \<Rightarrow>
          if offer_is_terminal (os_state s) \<or> \<not> is_known_transfer_error_code code
            then (OSE_InvalidState, m)
          else (OSE_None,
                m\<lparr>om_snapshot := Some (s\<lparr>os_state := OS_Failed, os_error_code := code\<rparr>)\<rparr>))"

definition offer_reset :: "offer_machine \<Rightarrow> offer_machine" where
  "offer_reset m = m\<lparr>om_snapshot := None\<rparr>"

section \<open>The machine as a transition system\<close>

text \<open>Every public method as an event; an event's result is the method's.\<close>

datatype offer_event =
    OE_BeginOutgoing transfer_offer
  | OE_ReceiveIncoming transfer_offer
  | OE_ReceiveAccept transfer_accept
  | OE_ReceiveReject transfer_reject
  | OE_AcceptIncoming conflict_policy qstring u64 acceptance_origin
  | OE_RejectIncoming reject_reason qstring
  | OE_Fail transfer_error_code
  | OE_Reset

fun offer_apply ::
  "qt_text \<Rightarrow> offer_machine \<Rightarrow> offer_event \<Rightarrow> offer_state_error \<times> offer_machine" where
  "offer_apply qt m (OE_BeginOutgoing offer) = begin_outgoing qt m offer"
| "offer_apply qt m (OE_ReceiveIncoming offer) = receive_incoming qt m offer"
| "offer_apply qt m (OE_ReceiveAccept a) = receive_accept qt m a"
| "offer_apply qt m (OE_ReceiveReject r) = receive_reject qt m r"
| "offer_apply qt m (OE_AcceptIncoming p d fb orig) = accept_incoming qt m p d fb orig"
| "offer_apply qt m (OE_RejectIncoming r d) = reject_incoming qt m r d"
| "offer_apply qt m (OE_Fail c) = offer_fail m c"
| "offer_apply qt m OE_Reset = (OSE_None, offer_reset m)"

definition offer_step :: "qt_text \<Rightarrow> offer_machine \<Rightarrow> offer_event \<Rightarrow> offer_machine" where
  "offer_step qt m e = snd (offer_apply qt m e)"

fun opens_offer :: "offer_event \<Rightarrow> bool" where
  "opens_offer (OE_BeginOutgoing _) = True"
| "opens_offer (OE_ReceiveIncoming _) = True"
| "opens_offer OE_Reset = True"
| "opens_offer _ = False"

lemmas offer_op_defs = begin_outgoing_def receive_incoming_def receive_accept_def
  receive_reject_def accept_incoming_def reject_incoming_def offer_fail_def offer_reset_def
  waiting_snapshot_def

lemma waiting_snapshot_Some [simp]:
  "waiting_snapshot m dir st = Some s \<longleftrightarrow>
     om_snapshot m = Some s \<and> os_direction s = dir \<and> os_state s = st"
  by (auto simp: waiting_snapshot_def split: option.splits)

lemma offer_capabilities [simp]: "om_capabilities (offer_step qt m e) = om_capabilities m"
  by (cases e) (auto simp: offer_step_def offer_op_defs Let_def split: option.splits)

section \<open>Invariant\<close>

definition decision_ok :: "negotiated_capabilities \<Rightarrow> offer_snapshot \<Rightarrow> bool" where
  "decision_ok caps s =
     (case os_state s of
        OS_Idle \<Rightarrow> False
      | OS_AwaitingPeerDecision \<Rightarrow>
          os_direction s = OD_Outgoing \<and> os_acceptance s = None \<and> os_rejection s = None \<and>
          os_error_code s = TEC_None
      | OS_AwaitingLocalDecision \<Rightarrow>
          os_direction s = OD_Incoming \<and> os_acceptance s = None \<and> os_rejection s = None \<and>
          os_error_code s = TEC_None
      | OS_Accepted \<Rightarrow>
          os_rejection s = None \<and> os_error_code s = TEC_None \<and>
          (case os_acceptance s of
             None \<Rightarrow> False
           | Some a \<Rightarrow>
               ta_transfer_id a = os_transfer_id s \<and>
               ta_effective_conflict_policy a \<in> set (nc_conflict_policies caps) \<and>
               (os_direction s = OD_Incoming \<longrightarrow> os_total_bytes s \<le> ta_free_bytes a))
      | OS_Rejected \<Rightarrow>
          os_acceptance s = None \<and> os_error_code s = TEC_None \<and>
          (case os_rejection s of
             None \<Rightarrow> False
           | Some r \<Rightarrow> tr_transfer_id r = os_transfer_id s \<and> valid_reject_reason (tr_reason r))
      | OS_Failed \<Rightarrow>
          os_acceptance s = None \<and> os_rejection s = None \<and>
          is_known_transfer_error_code (os_error_code s))"

definition bounds_ok :: "negotiated_capabilities \<Rightarrow> offer_snapshot \<Rightarrow> bool" where
  "bounds_ok caps s \<longleftrightarrow>
     unat (os_file_count s) + unat (os_directory_count s) \<le> unat (nc_max_manifest_entries caps) \<and>
     (os_directory_count s > 0 \<longrightarrow> qstr ''folder.v1'' \<in> set (nc_features caps)) \<and>
     os_requested_conflict_policy s \<in> set (nc_conflict_policies caps)"

definition offer_inv :: "offer_machine \<Rightarrow> bool" where
  "offer_inv m =
     (case om_snapshot m of
        None \<Rightarrow> True
      | Some s \<Rightarrow> decision_ok (om_capabilities m) s \<and> bounds_ok (om_capabilities m) s)"

lemma entry_count_nat:
  assumes "f \<le> u64_top - d" and "f + d \<le> ucast (x :: u32)"
  shows "unat f + unat d \<le> unat x"
proof -
  have "unat f \<le> 2 ^ 64 - 1 - unat d"
    using assms(1) unat_max_word_minus [of d] by (simp add: u64_top_def word_le_nat_alt)
  moreover have "unat d < 2 ^ 64"
    using unsigned_less [of d, where ?'a = nat] by simp
  ultimately have "unat (f + d) = unat f + unat d"
    by (intro unat_u64_add) simp
  then show ?thesis
    using assms(2) by (simp add: word_le_nat_alt)
qed

lemma validate_offer_bounds:
  assumes "validate_offer qt m offer = OSE_None"
  shows "bounds_ok (om_capabilities m) (fresh_snapshot offer dir st)"
  using assms entry_count_nat [of "to_file_count offer" "to_directory_count offer"]
  by (auto simp: validate_offer_def Let_def bounds_ok_def fresh_snapshot_def supports_policy_def
      not_less split: if_splits)

lemma bounds_ok_update [simp]:
  "bounds_ok caps (s\<lparr>os_state := st, os_acceptance := a\<rparr>) = bounds_ok caps s"
  "bounds_ok caps (s\<lparr>os_acceptance := a, os_state := st\<rparr>) = bounds_ok caps s"
  "bounds_ok caps (s\<lparr>os_rejection := r, os_state := st\<rparr>) = bounds_ok caps s"
  "bounds_ok caps (s\<lparr>os_state := st, os_error_code := c\<rparr>) = bounds_ok caps s"
  by (simp_all add: bounds_ok_def)

lemma decision_ok_fresh [simp]:
  "decision_ok caps (fresh_snapshot offer OD_Outgoing OS_AwaitingPeerDecision)"
  "decision_ok caps (fresh_snapshot offer OD_Incoming OS_AwaitingLocalDecision)"
  by (simp_all add: decision_ok_def fresh_snapshot_def)

lemma begin_outgoing_inv [inv_intros]: "offer_inv m \<Longrightarrow> offer_inv (snd (begin_outgoing qt m offer))"
  by (auto simp: begin_outgoing_def Let_def offer_inv_def validate_offer_bounds split: option.splits)

lemma receive_incoming_inv [inv_intros]: "offer_inv m \<Longrightarrow> offer_inv (snd (receive_incoming qt m offer))"
  by (auto simp: receive_incoming_def Let_def offer_inv_def validate_offer_bounds split: option.splits)

lemma receive_accept_inv [inv_intros]: "offer_inv m \<Longrightarrow> offer_inv (snd (receive_accept qt m a))"
  by (cases "om_snapshot m")
     (auto simp: receive_accept_def waiting_snapshot_def offer_inv_def decision_ok_def supports_policy_def
       Let_def not_less)

lemma receive_reject_inv [inv_intros]: "offer_inv m \<Longrightarrow> offer_inv (snd (receive_reject qt m r))"
  by (cases "om_snapshot m")
     (auto simp: receive_reject_def waiting_snapshot_def offer_inv_def decision_ok_def supports_policy_def
       Let_def not_less)

lemma accept_incoming_inv [inv_intros]:
  "offer_inv m \<Longrightarrow> offer_inv (snd (accept_incoming qt m p d fb orig))"
  by (cases "om_snapshot m")
     (auto simp: accept_incoming_def waiting_snapshot_def offer_inv_def decision_ok_def supports_policy_def
       Let_def not_less)

lemma reject_incoming_inv [inv_intros]: "offer_inv m \<Longrightarrow> offer_inv (snd (reject_incoming qt m r d))"
  by (cases "om_snapshot m")
     (auto simp: reject_incoming_def waiting_snapshot_def offer_inv_def decision_ok_def supports_policy_def
       Let_def not_less)

lemma offer_fail_inv [inv_intros]: "offer_inv m \<Longrightarrow> offer_inv (snd (offer_fail m c))"
  by (cases "om_snapshot m")
     (auto simp: offer_fail_def offer_inv_def decision_ok_def offer_is_terminal_def
      split: offer_state.splits)

lemma offer_step_inv: "offer_inv m \<Longrightarrow> offer_inv (offer_step qt m e)"
  by (cases e) (auto simp: offer_step_def offer_reset_def offer_inv_def [of "m\<lparr>om_snapshot := None\<rparr>"]
      intro: inv_intros)

lemma new_offer_machine_inv: "offer_inv (new_offer_machine caps)"
  by (simp add: new_offer_machine_def offer_inv_def)

section \<open>One decision per offer\<close>

definition offer_decided :: "offer_machine \<Rightarrow> bool" where
  "offer_decided m \<longleftrightarrow>
     (case om_snapshot m of None \<Rightarrow> False | Some s \<Rightarrow> offer_is_terminal (os_state s))"

lemma decided_step:
  "offer_decided m \<Longrightarrow> \<not> opens_offer e \<Longrightarrow> offer_step qt m e = m"
  by (cases e) (auto simp: offer_step_def offer_decided_def offer_op_defs offer_is_terminal_def
      split: option.splits)

interpretation offer: absorbing_machine "offer_step qt" offer_inv offer_decided om_snapshot opens_offer
  for qt
  by unfold_locales (simp_all add: offer_step_inv decided_step)

section \<open>Properties\<close>

definition sample_caps :: negotiated_capabilities where
  "sample_caps = \<lparr>nc_protocol_major_version = 1, nc_features = [], nc_chunk_bytes = 1024,
     nc_max_payload_bytes = 1024, nc_max_concurrent_transfers = 1, nc_max_concurrent_files = 1,
     nc_max_manifest_entries = 100, nc_conflict_policies = [CP_AutoRename],
     nc_local_can_receive_files = True, nc_peer_can_receive_files = True\<rparr>"

definition sample_offer :: transfer_offer where
  "sample_offer = \<lparr>to_transfer_id = 7, to_display_name = qstr ''a'', to_total_bytes = 10,
     to_file_count = 1, to_directory_count = 0, to_manifest_sha256 = replicate 32 0,
     to_manifest_page_count = 1, to_requested_conflict_policy = CP_AutoRename,
     to_created_at_ms = 1\<rparr>"

lemma sample_offer_valid:
  "validate_offer ascii_text (new_offer_machine sample_caps) sample_offer = OSE_None"
  by (simp add: validate_offer_def sample_offer_def sample_caps_def new_offer_machine_def
      ascii_text_def qstr_def kMaxControlStringUtf8Bytes_def kSha256Bytes_def u64_top_def
      supports_policy_def Let_def)

text \<open>C22. Whatever calls an offer machine receives, in whatever order, its offer stays consistent:
  the recorded decision belongs to the state (an acceptance with the offer's id, a negotiated
  policy and, for an incoming offer, enough free space; a listed reject reason; a known error
  code), an undecided offer carries no decision, and the announced entry counts are within
  the negotiated limit without wrapping.\<close>

theorem offer_runs_consistent:
  "case om_snapshot (run (offer_step qt) (new_offer_machine caps) es) of
     None \<Rightarrow> True
   | Some s \<Rightarrow> decision_ok caps s \<and> bounds_ok caps s"
proof -
  have "om_capabilities (run (offer_step qt) m es) = om_capabilities m" for m
    by (induction es arbitrary: m) auto
  then show ?thesis
    using offer.inv_run [OF new_offer_machine_inv, of qt caps es]
    by (simp add: offer_inv_def new_offer_machine_def split: option.splits)
qed

text \<open>One decision per offer: after an offer is accepted, rejected or failed, no later accept,
  reject or failure, local or from the peer, changes its record; only a new offer or an
  explicit reset does.\<close>

theorem offer_decided_once:
  assumes "offer_decided (run (offer_step qt) (new_offer_machine caps) es)"
    and "\<forall>e \<in> set fs. \<not> opens_offer e"
  shows "om_snapshot (run (offer_step qt) (new_offer_machine caps) (es @ fs)) =
    om_snapshot (run (offer_step qt) (new_offer_machine caps) es)"
  using offer.outcome_final [OF new_offer_machine_inv assms(1) assms(2), of "[]"] by simp

definition sample_offer_run :: "offer_event list" where
  "sample_offer_run = [OE_ReceiveIncoming sample_offer, OE_RejectIncoming RR_Busy []]"

lemma sample_offer_run_decided:
  "om_snapshot (run (offer_step ascii_text) (new_offer_machine sample_caps) sample_offer_run) =
     Some ((fresh_snapshot sample_offer OD_Incoming OS_Rejected)
       \<lparr>os_rejection := Some \<lparr>tr_transfer_id = 7, tr_reason = RR_Busy, tr_diagnostic = []\<rparr>\<rparr>)"
  using sample_offer_valid
  by (simp add: sample_offer_run_def offer_step_def receive_incoming_def reject_incoming_def
      waiting_snapshot_def offer_active_def fresh_snapshot_def Let_def new_offer_machine_def
      ascii_text_def) (simp add: sample_offer_def)

theorem offer_decided_once_witness:
  "om_snapshot (run (offer_step ascii_text) (new_offer_machine sample_caps)
      (sample_offer_run @ [OE_AcceptIncoming CP_AutoRename (qstr ''d'') 99 AO_UserDecision,
         OE_Fail TEC_DiskFull])) =
   om_snapshot (run (offer_step ascii_text) (new_offer_machine sample_caps) sample_offer_run)"
  by (rule offer_decided_once)
    (simp_all add: offer_decided_def sample_offer_run_decided offer_is_terminal_def fresh_snapshot_def)

text \<open>Accepting an incoming offer succeeds exactly when the offer waits for the local decision,
  the policy was negotiated, the trimmed destination is a valid control string and the free
  space covers the announced bytes; the acceptance then carries the offer's own id, and a
  refused call, like every refused call of the machine, changes nothing.\<close>

theorem accept_incoming_exact:
  "(fst (accept_incoming qt m policy destination free_bytes origin) = OSE_None \<longleftrightarrow>
     (\<exists>s. om_snapshot m = Some s \<and> os_direction s = OD_Incoming \<and>
        os_state s = OS_AwaitingLocalDecision \<and>
        policy \<in> set (nc_conflict_policies (om_capabilities m)) \<and>
        qt_trimmed qt destination \<noteq> [] \<and>
        qt_utf8_size qt (qt_trimmed qt destination) \<le> kMaxControlStringUtf8Bytes \<and>
        os_total_bytes s \<le> free_bytes \<and>
        om_snapshot (snd (accept_incoming qt m policy destination free_bytes origin)) =
          Some (s\<lparr>os_acceptance := Some \<lparr>ta_transfer_id = os_transfer_id s,
              ta_effective_conflict_policy = policy,
              ta_logical_destination = qt_trimmed qt destination, ta_free_bytes = free_bytes,
              ta_auto_accepted = (origin = AO_TrustedDevicePolicy)\<rparr>, os_state := OS_Accepted\<rparr>))) \<and>
   (fst (offer_apply qt m e) = OSE_None \<or> snd (offer_apply qt m e) = m)"
proof (rule conjI)
  show "fst (offer_apply qt m e) = OSE_None \<or> snd (offer_apply qt m e) = m"
    by (cases e) (auto simp: offer_op_defs Let_def split: option.splits)
qed (auto simp: accept_incoming_def waiting_snapshot_def supports_policy_def Let_def not_less
    split: option.splits)

end
