(* ===== verification/TransferControl.thy ===== *)
theory TransferControl
  imports TransferTypes MachineInterface
begin

text \<open>
  \<open>TransferControlStateMachine\<close>: the life cycle of one transfer after its offer, with its progress
  counters, the actions the user interface may offer and its end time. Each method returns
  \<open>TransferControlResult\<close> (error and \<open>changed\<close> flag) and the machine after the call. The
  clock is sampled by \<open>markFinished\<close> only; its value is an argument \<open>now\<close> of the methods
  that can reach a terminal state.
\<close>

section \<open>Floating point values\<close>

text \<open>
  A \<open>double\<close> is its IEEE 754 bit pattern. The component only stores speeds, compares them with
  each other and with zero and tests \<open>std::isfinite\<close>.
\<close>

type_synonym double = "64 word"

definition dbl_magnitude :: "double \<Rightarrow> nat" where
  "dbl_magnitude d = unat d mod 2 ^ 63"

definition dbl_isfinite :: "double \<Rightarrow> bool" where
  "dbl_isfinite d \<longleftrightarrow> dbl_magnitude d div 2 ^ 52 \<noteq> 2047"

definition dbl_isnan :: "double \<Rightarrow> bool" where
  "dbl_isnan d \<longleftrightarrow> dbl_magnitude d > 2047 * 2 ^ 52"

definition dbl_negative :: "double \<Rightarrow> bool" where
  "dbl_negative d \<longleftrightarrow> unat d \<ge> 2 ^ 63 \<and> dbl_magnitude d \<noteq> 0 \<and> \<not> dbl_isnan d"

definition dbl_ne :: "double \<Rightarrow> double \<Rightarrow> bool" where
  "dbl_ne a b \<longleftrightarrow>
     dbl_isnan a \<or> dbl_isnan b \<or> (a \<noteq> b \<and> \<not> (dbl_magnitude a = 0 \<and> dbl_magnitude b = 0))"

definition dbl_zero :: double where
  "dbl_zero = 0"

section \<open>State\<close>

datatype transfer_direction = TD_Sending | TD_Receiving

datatype transfer_state =
    TS_Preparing | TS_Offered | TS_WaitingForAcceptance | TS_Queued | TS_Transferring
  | TS_Paused | TS_Interrupted | TS_Resuming | TS_Verifying | TS_Committing | TS_Completed
  | TS_Rejected | TS_Cancelling | TS_Cancelled | TS_Failed

record transfer_progress =
  tp_completed_bytes :: u64
  tp_total_bytes :: u64
  tp_completed_files :: u64
  tp_total_files :: u64
  tp_bytes_per_second :: double
  tp_estimated_remaining :: "int option"

record transfer_snapshot =
  ts_id :: uuid
  ts_peer_id :: uuid
  ts_peer_display_name :: qstring
  ts_display_name :: qstring
  ts_direction :: transfer_direction
  ts_state :: transfer_state
  ts_progress :: transfer_progress
  ts_current_path :: qstring
  ts_error_code :: transfer_error_code
  ts_can_pause :: bool
  ts_can_resume :: bool
  ts_can_cancel :: bool
  ts_can_retry :: bool
  ts_created_utc :: qdatetime
  ts_finished_utc :: qdatetime

datatype control_error =
    CE_None | CE_InvalidInitialSnapshot | CE_InvalidTransition | CE_TerminalState
  | CE_InvalidProgress | CE_ProgressRegression | CE_CompletionIncomplete | CE_InvalidFailure

record control_result =
  cr_error :: control_error
  cr_changed :: bool

record control_machine =
  cm_snapshot :: transfer_snapshot
  cm_initialized :: bool

definition new_control_machine :: "transfer_snapshot \<Rightarrow> control_machine" where
  "new_control_machine initial = \<lparr>cm_snapshot = initial, cm_initialized = False\<rparr>"

definition cm_state :: "control_machine \<Rightarrow> transfer_state" where
  "cm_state m = ts_state (cm_snapshot m)"

definition unchanged :: control_result where
  "unchanged = \<lparr>cr_error = CE_None, cr_changed = False\<rparr>"

definition changed :: control_result where
  "changed = \<lparr>cr_error = CE_None, cr_changed = True\<rparr>"

definition control_failure :: "control_error \<Rightarrow> control_result" where
  "control_failure e = \<lparr>cr_error = e, cr_changed = False\<rparr>"

section \<open>Helpers\<close>

definition valid_progress :: "transfer_progress \<Rightarrow> bool" where
  "valid_progress p \<longleftrightarrow>
     tp_completed_bytes p \<le> tp_total_bytes p \<and> tp_completed_files p \<le> tp_total_files p \<and>
     dbl_isfinite (tp_bytes_per_second p) \<and> \<not> dbl_negative (tp_bytes_per_second p) \<and>
     (case tp_estimated_remaining p of None \<Rightarrow> True | Some r \<Rightarrow> r \<ge> 0)"

definition is_terminal :: "transfer_state \<Rightarrow> bool" where
  "is_terminal st \<longleftrightarrow>
     st = TS_Completed \<or> st = TS_Rejected \<or> st = TS_Cancelled \<or> st = TS_Failed"

fun can_advance :: "transfer_state \<Rightarrow> transfer_state \<Rightarrow> bool" where
  "can_advance TS_Preparing next = (next = TS_Offered)"
| "can_advance TS_Offered next = (next = TS_WaitingForAcceptance \<or> next = TS_Rejected)"
| "can_advance TS_WaitingForAcceptance next = (next = TS_Queued \<or> next = TS_Rejected)"
| "can_advance TS_Queued next = (next = TS_Transferring)"
| "can_advance TS_Transferring next =
     (next = TS_Paused \<or> next = TS_Interrupted \<or> next = TS_Verifying)"
| "can_advance TS_Paused next = (next = TS_Resuming \<or> next = TS_Interrupted)"
| "can_advance TS_Interrupted next = (next = TS_Resuming)"
| "can_advance TS_Resuming next = (next = TS_Transferring \<or> next = TS_Interrupted)"
| "can_advance TS_Verifying next = (next = TS_Committing)"
| "can_advance TS_Committing next = (next = TS_Completed)"
| "can_advance TS_Completed next = False"
| "can_advance TS_Rejected next = False"
| "can_advance TS_Cancelling next = False"
| "can_advance TS_Cancelled next = False"
| "can_advance TS_Failed next = False"

definition update_actions :: "transfer_snapshot \<Rightarrow> transfer_snapshot" where
  "update_actions s = s\<lparr>
     ts_can_pause := (ts_state s = TS_Transferring),
     ts_can_resume := (ts_state s = TS_Paused \<or> ts_state s = TS_Interrupted),
     ts_can_cancel := (\<not> is_terminal (ts_state s) \<and> ts_state s \<noteq> TS_Cancelling),
     ts_can_retry := (ts_state s = TS_Failed)\<rparr>"

definition mark_finished :: "qdatetime \<Rightarrow> transfer_snapshot \<Rightarrow> transfer_snapshot" where
  "mark_finished now s = s\<lparr>
     ts_finished_utc :=
       (if dt_valid now \<and> \<not> dt_less now (ts_created_utc s) then now else ts_created_utc s),
     ts_progress := (ts_progress s)\<lparr>tp_bytes_per_second := dbl_zero,
                                    tp_estimated_remaining := None\<rparr>\<rparr>"

definition set_state ::
  "qdatetime \<Rightarrow> control_machine \<Rightarrow> transfer_state \<Rightarrow> control_result \<times> control_machine" where
  "set_state now m next =
     (let s1 = (cm_snapshot m)\<lparr>ts_state := next\<rparr>;
          s2 = (if is_terminal next then mark_finished now s1 else s1)
      in (changed, m\<lparr>cm_snapshot := update_actions s2\<rparr>))"

section \<open>Operations\<close>

definition initialize :: "control_machine \<Rightarrow> control_result \<times> control_machine" where
  "initialize m =
     (let s = cm_snapshot m in
      if cm_initialized m then (unchanged, m)
      else if uuid_null (ts_peer_id s) \<or> ts_display_name s = [] \<or>
              ts_state s \<noteq> TS_Preparing \<or> \<not> valid_progress (ts_progress s) \<or>
              (case ts_created_utc s of None \<Rightarrow> True | Some ms \<Rightarrow> ms \<le> 0) \<or>
              dt_valid (ts_finished_utc s) \<or> ts_error_code s \<noteq> TEC_None
        then (control_failure CE_InvalidInitialSnapshot, m)
      else (changed, \<lparr>cm_snapshot = update_actions s, cm_initialized = True\<rparr>))"

definition advance ::
  "qdatetime \<Rightarrow> control_machine \<Rightarrow> transfer_state \<Rightarrow> control_result \<times> control_machine" where
  "advance now m next =
     (let p = ts_progress (cm_snapshot m) in
      if \<not> cm_initialized m then (control_failure CE_InvalidInitialSnapshot, m)
      else if next = cm_state m then (unchanged, m)
      else if is_terminal (cm_state m) then (control_failure CE_TerminalState, m)
      else if next = TS_Failed \<or> next = TS_Cancelling \<or> next = TS_Cancelled \<or>
              \<not> can_advance (cm_state m) next
        then (control_failure CE_InvalidTransition, m)
      else if next = TS_Completed \<and>
              (tp_completed_bytes p \<noteq> tp_total_bytes p \<or> tp_completed_files p \<noteq> tp_total_files p)
        then (control_failure CE_CompletionIncomplete, m)
      else set_state now m next)"

definition pause :: "qdatetime \<Rightarrow> control_machine \<Rightarrow> control_result \<times> control_machine" where
  "pause now m =
     (if \<not> cm_initialized m then (control_failure CE_InvalidInitialSnapshot, m)
      else if cm_state m = TS_Paused then (unchanged, m)
      else if cm_state m \<noteq> TS_Transferring then (control_failure CE_InvalidTransition, m)
      else set_state now m TS_Paused)"

definition resume :: "qdatetime \<Rightarrow> control_machine \<Rightarrow> control_result \<times> control_machine" where
  "resume now m =
     (if \<not> cm_initialized m then (control_failure CE_InvalidInitialSnapshot, m)
      else if cm_state m = TS_Resuming then (unchanged, m)
      else if cm_state m \<noteq> TS_Paused \<and> cm_state m \<noteq> TS_Interrupted
        then (control_failure CE_InvalidTransition, m)
      else set_state now m TS_Resuming)"

definition interrupt :: "qdatetime \<Rightarrow> control_machine \<Rightarrow> control_result \<times> control_machine" where
  "interrupt now m =
     (if \<not> cm_initialized m then (control_failure CE_InvalidInitialSnapshot, m)
      else if cm_state m = TS_Interrupted then (unchanged, m)
      else if cm_state m \<noteq> TS_Transferring \<and> cm_state m \<noteq> TS_Paused \<and> cm_state m \<noteq> TS_Resuming
        then (control_failure CE_InvalidTransition, m)
      else set_state now m TS_Interrupted)"

definition cancel :: "qdatetime \<Rightarrow> control_machine \<Rightarrow> control_result \<times> control_machine" where
  "cancel now m =
     (if \<not> cm_initialized m then (control_failure CE_InvalidInitialSnapshot, m)
      else if cm_state m = TS_Cancelling \<or> cm_state m = TS_Cancelled then (unchanged, m)
      else if is_terminal (cm_state m) then (control_failure CE_TerminalState, m)
      else set_state now m TS_Cancelling)"

definition confirm_cancelled ::
  "qdatetime \<Rightarrow> control_machine \<Rightarrow> control_result \<times> control_machine" where
  "confirm_cancelled now m =
     (if \<not> cm_initialized m then (control_failure CE_InvalidInitialSnapshot, m)
      else if cm_state m = TS_Cancelled then (unchanged, m)
      else if cm_state m \<noteq> TS_Cancelling then (control_failure CE_InvalidTransition, m)
      else set_state now m TS_Cancelled)"

definition fail_transfer ::
  "qdatetime \<Rightarrow> control_machine \<Rightarrow> transfer_error_code \<Rightarrow> control_result \<times> control_machine" where
  "fail_transfer now m code =
     (if \<not> cm_initialized m then (control_failure CE_InvalidInitialSnapshot, m)
      else if \<not> is_known_transfer_error_code code then (control_failure CE_InvalidFailure, m)
      else if cm_state m = TS_Failed then
        (if ts_error_code (cm_snapshot m) = code then (unchanged, m)
         else (control_failure CE_TerminalState, m))
      else if is_terminal (cm_state m) then (control_failure CE_TerminalState, m)
      else set_state now (m\<lparr>cm_snapshot := (cm_snapshot m)\<lparr>ts_error_code := code\<rparr>\<rparr>) TS_Failed)"

definition update_progress ::
  "control_machine \<Rightarrow> u64 \<Rightarrow> u64 \<Rightarrow> double \<Rightarrow> int option \<Rightarrow> qstring \<Rightarrow>
   control_result \<times> control_machine" where
  "update_progress m bytes files speed remaining path =
     (let s = cm_snapshot m; p = ts_progress s in
      if \<not> cm_initialized m then (control_failure CE_InvalidInitialSnapshot, m)
      else if is_terminal (ts_state s) \<or> ts_state s = TS_Cancelling
        then (control_failure CE_TerminalState, m)
      else if bytes > tp_total_bytes p \<or> files > tp_total_files p \<or> \<not> dbl_isfinite speed \<or>
              dbl_negative speed \<or> (case remaining of None \<Rightarrow> False | Some r \<Rightarrow> r < 0)
        then (control_failure CE_InvalidProgress, m)
      else if bytes < tp_completed_bytes p \<or> files < tp_completed_files p
        then (control_failure CE_ProgressRegression, m)
      else if \<not> (bytes \<noteq> tp_completed_bytes p \<or> files \<noteq> tp_completed_files p \<or>
                 dbl_ne speed (tp_bytes_per_second p) \<or> remaining \<noteq> tp_estimated_remaining p \<or>
                 path \<noteq> ts_current_path s)
        then (unchanged, m)
      else (changed, m\<lparr>cm_snapshot := s\<lparr>
              ts_progress := p\<lparr>tp_completed_bytes := bytes, tp_completed_files := files,
                               tp_bytes_per_second := speed, tp_estimated_remaining := remaining\<rparr>,
              ts_current_path := path\<rparr>\<rparr>))"

section \<open>The machine as a transition system\<close>

datatype control_event =
    TE_Initialize
  | TE_Advance transfer_state
  | TE_Pause
  | TE_Resume
  | TE_Interrupt
  | TE_Cancel
  | TE_ConfirmCancelled
  | TE_Fail transfer_error_code
  | TE_UpdateProgress u64 u64 double "int option" qstring

fun control_apply ::
  "control_machine \<Rightarrow> qdatetime \<times> control_event \<Rightarrow> control_result \<times> control_machine" where
  "control_apply m (now, TE_Initialize) = initialize m"
| "control_apply m (now, TE_Advance next) = advance now m next"
| "control_apply m (now, TE_Pause) = pause now m"
| "control_apply m (now, TE_Resume) = resume now m"
| "control_apply m (now, TE_Interrupt) = interrupt now m"
| "control_apply m (now, TE_Cancel) = cancel now m"
| "control_apply m (now, TE_ConfirmCancelled) = confirm_cancelled now m"
| "control_apply m (now, TE_Fail code) = fail_transfer now m code"
| "control_apply m (now, TE_UpdateProgress b f sp r p) = update_progress m b f sp r p"

definition control_step :: "control_machine \<Rightarrow> qdatetime \<times> control_event \<Rightarrow> control_machine" where
  "control_step m e = snd (control_apply m e)"

lemmas control_op_defs = initialize_def advance_def pause_def resume_def interrupt_def cancel_def
  confirm_cancelled_def fail_transfer_def update_progress_def

lemmas control_results = unchanged_def changed_def control_failure_def

section \<open>The moves of the life cycle\<close>

text \<open>
  The abstract life cycle: an operation either leaves the machine as it was or makes one of
  these moves. The state moves follow \<open>legal_edge\<close>, the diagram of the life cycle.
\<close>

definition legal_edge :: "transfer_state \<Rightarrow> transfer_state \<Rightarrow> bool" where
  "legal_edge st next \<longleftrightarrow>
     \<not> is_terminal st \<and>
     (can_advance st next \<or> (st \<noteq> TS_Cancelling \<and> next = TS_Cancelling) \<or>
      (st = TS_Cancelling \<and> next = TS_Cancelled) \<or> next = TS_Failed)"

definition complete_progress :: "transfer_progress \<Rightarrow> bool" where
  "complete_progress p \<longleftrightarrow>
     tp_completed_bytes p = tp_total_bytes p \<and> tp_completed_files p = tp_total_files p"

definition initial_ok :: "transfer_snapshot \<Rightarrow> bool" where
  "initial_ok s \<longleftrightarrow>
     ts_state s = TS_Preparing \<and> valid_progress (ts_progress s) \<and> dt_valid (ts_created_utc s) \<and>
     \<not> dt_valid (ts_finished_utc s) \<and> ts_error_code s = TEC_None"

inductive control_move :: "control_machine \<Rightarrow> control_machine \<Rightarrow> bool" where
  move_initialize: "\<not> cm_initialized m \<Longrightarrow> initial_ok (cm_snapshot m) \<Longrightarrow>
    control_move m \<lparr>cm_snapshot = update_actions (cm_snapshot m), cm_initialized = True\<rparr>"
| move_state: "cm_initialized m \<Longrightarrow> legal_edge (cm_state m) next \<Longrightarrow> next \<noteq> TS_Failed \<Longrightarrow>
    (next = TS_Completed \<longrightarrow> complete_progress (ts_progress (cm_snapshot m))) \<Longrightarrow>
    control_move m (snd (set_state now m next))"
| move_fail: "cm_initialized m \<Longrightarrow> \<not> is_terminal (cm_state m) \<Longrightarrow>
    is_known_transfer_error_code code \<Longrightarrow>
    control_move m
      (snd (set_state now (m\<lparr>cm_snapshot := (cm_snapshot m)\<lparr>ts_error_code := code\<rparr>\<rparr>) TS_Failed))"
| move_progress: "cm_initialized m \<Longrightarrow> \<not> is_terminal (cm_state m) \<Longrightarrow>
    tp_total_bytes p = tp_total_bytes (ts_progress (cm_snapshot m)) \<Longrightarrow>
    tp_total_files p = tp_total_files (ts_progress (cm_snapshot m)) \<Longrightarrow>
    tp_completed_bytes (ts_progress (cm_snapshot m)) \<le> tp_completed_bytes p \<Longrightarrow>
    tp_completed_files (ts_progress (cm_snapshot m)) \<le> tp_completed_files p \<Longrightarrow>
    valid_progress p \<Longrightarrow>
    (cm_snapshot m)\<lparr>ts_progress := p, ts_current_path := path\<rparr> \<noteq> cm_snapshot m \<Longrightarrow>
    control_move m (m\<lparr>cm_snapshot := (cm_snapshot m)\<lparr>ts_progress := p, ts_current_path := path\<rparr>\<rparr>)"

inductive_cases control_moveE: "control_move m m'"

definition conforms :: "control_machine \<Rightarrow> control_result \<times> control_machine \<Rightarrow> bool" where
  "conforms m out \<longleftrightarrow>
     (if cr_changed (fst out) then cr_error (fst out) = CE_None \<and> control_move m (snd out)
      else snd out = m)"

lemma conforms_same [simp]:
  "conforms m (unchanged, m)" "conforms m (control_failure e, m)"
  by (simp_all add: conforms_def control_results)

lemma conforms_changed [simp]: "conforms m (changed, m') \<longleftrightarrow> control_move m m'"
  by (simp add: conforms_def changed_def)

lemma conforms_set_state:
  assumes "cm_initialized m" and "legal_edge (cm_state m) next" and "next \<noteq> TS_Failed"
    and "next = TS_Completed \<longrightarrow> complete_progress (ts_progress (cm_snapshot m))"
  shows "conforms m (set_state now m next)"
  using move_state [OF assms, of now] by (simp add: set_state_def Let_def)

lemma can_advance_legal: "can_advance st next \<Longrightarrow> legal_edge st next"
  by (cases st) (auto simp: legal_edge_def is_terminal_def)

lemma initialize_conforms: "conforms m (initialize m)"
  by (auto simp: initialize_def Let_def initial_ok_def dt_valid_def intro!: move_initialize
      split: option.splits)

lemma advance_conforms: "conforms m (advance now m next)"
  by (auto simp: advance_def Let_def complete_progress_def can_advance_legal
      intro!: conforms_set_state)

lemma pause_conforms: "conforms m (pause now m)"
  by (auto simp: pause_def legal_edge_def is_terminal_def intro!: conforms_set_state)

lemma resume_conforms: "conforms m (resume now m)"
  by (auto simp: resume_def legal_edge_def is_terminal_def intro!: conforms_set_state)

lemma interrupt_conforms: "conforms m (interrupt now m)"
  by (auto simp: interrupt_def legal_edge_def is_terminal_def intro!: conforms_set_state)

lemma cancel_conforms: "conforms m (cancel now m)"
  by (auto simp: cancel_def legal_edge_def intro!: conforms_set_state)

lemma confirm_cancelled_conforms: "conforms m (confirm_cancelled now m)"
  by (auto simp: confirm_cancelled_def legal_edge_def is_terminal_def intro!: conforms_set_state)

lemma fail_transfer_conforms: "conforms m (fail_transfer now m code)"
  using move_fail [of m code now]
  by (auto simp: fail_transfer_def set_state_def Let_def)

lemma finite_not_nan: "dbl_isfinite a \<Longrightarrow> \<not> dbl_isnan a"
proof -
  have "dbl_magnitude a < 2 ^ 63" by (simp add: dbl_magnitude_def)
  moreover assume "dbl_isfinite a"
  ultimately show "\<not> dbl_isnan a"
    unfolding dbl_isnan_def dbl_isfinite_def by (simp add: not_less)
qed

lemma speed_ne_neq: "dbl_isfinite a \<Longrightarrow> dbl_ne a b \<Longrightarrow> a \<noteq> b"
  using finite_not_nan [of a] by (auto simp: dbl_ne_def)

lemma snapshot_update_neq:
  assumes "p \<noteq> ts_progress s \<or> path \<noteq> ts_current_path s"
  shows "s\<lparr>ts_progress := p, ts_current_path := path\<rparr> \<noteq> s"
  using assms by (metis transfer_snapshot.select_convs(7,8) transfer_snapshot.surjective
      transfer_snapshot.update_convs(7,8))

lemma conforms_if:
  "(c \<Longrightarrow> conforms m x) \<Longrightarrow> (\<not> c \<Longrightarrow> conforms m y) \<Longrightarrow> conforms m (if c then x else y)"
  by simp

lemma update_progress_conforms: "conforms m (update_progress m b f sp r path)"
  unfolding update_progress_def Let_def
proof (intro conforms_if conforms_same, goal_cases)
  case 1
  define s where "s = cm_snapshot m"
  define p where "p = (ts_progress s)\<lparr>tp_completed_bytes := b, tp_completed_files := f,
    tp_bytes_per_second := sp, tp_estimated_remaining := r\<rparr>"
  have live: "cm_initialized m" "\<not> is_terminal (cm_state m)"
    using 1(1,2) by (simp_all add: cm_state_def)
  have valid: "b \<le> tp_total_bytes (ts_progress s)" "f \<le> tp_total_files (ts_progress s)"
      "dbl_isfinite sp" "\<not> dbl_negative sp" "\<not> (case r of None \<Rightarrow> False | Some r \<Rightarrow> r < 0)"
    using 1(3) unfolding s_def [symmetric] by (simp_all only: de_Morgan_disj not_less simp_thms)
  have grows: "tp_completed_bytes (ts_progress s) \<le> b" "tp_completed_files (ts_progress s) \<le> f"
    using 1(4) unfolding s_def [symmetric] by (simp_all only: de_Morgan_disj not_less simp_thms)
  have "p \<noteq> ts_progress s \<or> path \<noteq> ts_current_path s"
  proof (rule ccontr)
    assume "\<not> ?thesis"
    then have "ts_progress s = p" "path = ts_current_path s" by simp_all
    moreover have "tp_completed_bytes p = b" "tp_completed_files p = f"
        "tp_bytes_per_second p = sp" "tp_estimated_remaining p = r"
      by (simp_all add: p_def)
    ultimately show False
      using 1(5) speed_ne_neq [OF valid(3), of sp] unfolding s_def [symmetric] by simp
  qed
  then have "s\<lparr>ts_progress := p, ts_current_path := path\<rparr> \<noteq> s"
    by (rule snapshot_update_neq)
  moreover have "valid_progress p"
    using valid by (simp add: p_def valid_progress_def split: option.splits)
  ultimately have "control_move m (m\<lparr>cm_snapshot := s\<lparr>ts_progress := p, ts_current_path := path\<rparr>\<rparr>)"
    using live grows unfolding s_def by (intro move_progress) (simp_all add: p_def s_def)
  then show ?case by (simp add: s_def p_def)
qed

lemmas op_conforms = initialize_conforms advance_conforms pause_conforms resume_conforms
  interrupt_conforms cancel_conforms confirm_cancelled_conforms fail_transfer_conforms
  update_progress_conforms

lemma control_apply_conforms: "conforms m (control_apply m e)"
  by (cases "(m, e)" rule: control_apply.cases) (auto intro: op_conforms)

lemma control_step_cases: "control_step m e = m \<or> control_move m (control_step m e)"
  using control_apply_conforms [of m e]
  by (auto simp: conforms_def control_step_def split: if_splits)

section \<open>Invariant\<close>

definition actions_ok :: "transfer_snapshot \<Rightarrow> bool" where
  "actions_ok s \<longleftrightarrow>
     (ts_can_pause s \<longleftrightarrow> ts_state s = TS_Transferring) \<and>
     (ts_can_resume s \<longleftrightarrow> ts_state s \<in> {TS_Paused, TS_Interrupted}) \<and>
     (ts_can_cancel s \<longleftrightarrow> \<not> is_terminal (ts_state s) \<and> ts_state s \<noteq> TS_Cancelling) \<and>
     (ts_can_retry s \<longleftrightarrow> ts_state s = TS_Failed)"

definition ending_ok :: "transfer_snapshot \<Rightarrow> bool" where
  "ending_ok s \<longleftrightarrow>
     (if is_terminal (ts_state s)
      then dt_valid (ts_finished_utc s) \<and> \<not> dt_less (ts_finished_utc s) (ts_created_utc s) \<and>
           tp_bytes_per_second (ts_progress s) = dbl_zero \<and>
           tp_estimated_remaining (ts_progress s) = None
      else \<not> dt_valid (ts_finished_utc s)) \<and>
     (ts_state s = TS_Completed \<longrightarrow> complete_progress (ts_progress s)) \<and>
     (if ts_state s = TS_Failed then is_known_transfer_error_code (ts_error_code s)
      else ts_error_code s = TEC_None)"

definition snapshot_ok :: "transfer_snapshot \<Rightarrow> bool" where
  "snapshot_ok s \<longleftrightarrow>
     valid_progress (ts_progress s) \<and> dt_valid (ts_created_utc s) \<and> actions_ok s \<and> ending_ok s"

definition control_inv :: "control_machine \<Rightarrow> bool" where
  "control_inv m \<longleftrightarrow> (cm_initialized m \<longrightarrow> snapshot_ok (cm_snapshot m))"

lemma actions_ok_update [simp]: "actions_ok (update_actions s)"
  by (auto simp: actions_ok_def update_actions_def)

lemma zero_speed_ok [simp]: "dbl_isfinite dbl_zero" "\<not> dbl_negative dbl_zero"
  by (simp_all add: dbl_isfinite_def dbl_negative_def dbl_magnitude_def dbl_zero_def)

lemma legal_edge_source: "legal_edge st next \<Longrightarrow> \<not> is_terminal st"
  by (simp add: legal_edge_def)

lemma set_state_snapshot_ok:
  assumes "valid_progress (ts_progress s)" and "dt_valid (ts_created_utc s)"
    and "\<not> dt_valid (ts_finished_utc s)"
    and "if next = TS_Failed then is_known_transfer_error_code (ts_error_code s)
         else ts_error_code s = TEC_None"
    and "next = TS_Completed \<longrightarrow> complete_progress (ts_progress s)"
    and "cm_snapshot m = s"
  shows "snapshot_ok (cm_snapshot (snd (set_state now m next)))"
  using assms
  by (auto simp: set_state_def Let_def snapshot_ok_def ending_ok_def update_actions_def
      actions_ok_def mark_finished_def valid_progress_def complete_progress_def)

lemma live_snapshot:
  assumes "control_inv m" and "cm_initialized m" and "\<not> is_terminal (cm_state m)"
  shows "valid_progress (ts_progress (cm_snapshot m))" "dt_valid (ts_created_utc (cm_snapshot m))"
    "\<not> dt_valid (ts_finished_utc (cm_snapshot m))" "ts_error_code (cm_snapshot m) = TEC_None"
    "actions_ok (cm_snapshot m)"
  using assms
  by (auto simp: control_inv_def snapshot_ok_def ending_ok_def cm_state_def is_terminal_def)

lemma set_state_initialized [simp]:
  "cm_initialized (snd (set_state now m next)) = cm_initialized m"
  by (simp add: set_state_def Let_def)

lemma control_move_inv:
  assumes "control_move m m'" and "control_inv m"
  shows "control_inv m'"
  using assms(1)
proof (cases rule: control_move.cases)
  case move_initialize
  then show ?thesis
    by (auto simp: control_inv_def snapshot_ok_def initial_ok_def ending_ok_def update_actions_def
        actions_ok_def is_terminal_def)
next
  case (move_state next_state now)
  have "snapshot_ok (cm_snapshot m')"
    unfolding move_state(1)
    by (rule set_state_snapshot_ok [of "cm_snapshot m"])
      (use move_state live_snapshot [OF assms(2) move_state(2) legal_edge_source [OF move_state(3)]]
        in auto)
  then show ?thesis by (simp add: control_inv_def)
next
  case (move_fail code now)
  have "snapshot_ok (cm_snapshot m')"
    unfolding move_fail(1)
    by (rule set_state_snapshot_ok [of "(cm_snapshot m)\<lparr>ts_error_code := code\<rparr>"])
      (use move_fail live_snapshot [OF assms(2) move_fail(2,3)] in auto)
  then show ?thesis by (simp add: control_inv_def)
next
  case (move_progress p path)
  then show ?thesis
    using live_snapshot [OF assms(2) move_progress(2,3)]
    by (auto simp: control_inv_def snapshot_ok_def ending_ok_def actions_ok_def cm_state_def
        is_terminal_def)
qed

lemma control_step_inv: "control_inv m \<Longrightarrow> control_inv (control_step m e)"
  using control_step_cases [of m e] control_move_inv by auto

lemma new_control_machine_inv [simp]: "control_inv (new_control_machine s)"
  by (simp add: control_inv_def new_control_machine_def)

section \<open>Terminal states, monotone progress\<close>

definition control_done :: "control_machine \<Rightarrow> bool" where
  "control_done m \<longleftrightarrow> cm_initialized m \<and> is_terminal (cm_state m)"

definition bytes_level :: "control_machine \<Rightarrow> nat" where
  "bytes_level m = unat (tp_completed_bytes (ts_progress (cm_snapshot m)))"

definition files_level :: "control_machine \<Rightarrow> nat" where
  "files_level m = unat (tp_completed_files (ts_progress (cm_snapshot m)))"

lemma no_move_when_done: "control_done m \<Longrightarrow> \<not> control_move m m'"
  by (auto simp: control_done_def elim!: control_moveE dest: legal_edge_source)

lemma done_step: "control_done m \<Longrightarrow> control_step m e = m"
  using control_step_cases [of m e] no_move_when_done [of m] by auto

lemma set_state_view [simp]:
  "cm_state (snd (set_state now m next)) = next"
  "tp_completed_bytes (ts_progress (cm_snapshot (snd (set_state now m next)))) =
     tp_completed_bytes (ts_progress (cm_snapshot m))"
  "tp_completed_files (ts_progress (cm_snapshot (snd (set_state now m next)))) =
     tp_completed_files (ts_progress (cm_snapshot m))"
  "tp_total_bytes (ts_progress (cm_snapshot (snd (set_state now m next)))) =
     tp_total_bytes (ts_progress (cm_snapshot m))"
  "tp_total_files (ts_progress (cm_snapshot (snd (set_state now m next)))) =
     tp_total_files (ts_progress (cm_snapshot m))"
  by (simp_all add: set_state_def Let_def update_actions_def mark_finished_def cm_state_def)

lemma update_actions_progress [simp]: "ts_progress (update_actions s) = ts_progress s"
  by (simp add: update_actions_def)

lemma control_move_level:
  assumes "control_move m m'"
  shows "bytes_level m \<le> bytes_level m'" "files_level m \<le> files_level m'"
  using assms by (auto simp: bytes_level_def files_level_def word_le_nat_alt elim!: control_moveE)

lemma control_step_level:
  "bytes_level m \<le> bytes_level (control_step m e)" "files_level m \<le> files_level (control_step m e)"
  using control_step_cases [of m e] control_move_level by auto

interpretation control: absorbing_machine control_step control_inv control_done cm_snapshot
    "\<lambda>_. False"
  by unfold_locales (simp_all add: control_step_inv done_step)

interpretation control_bytes: monotone_machine control_step control_inv bytes_level "\<lambda>_. False"
  by unfold_locales (simp add: control_step_level)

interpretation control_files: monotone_machine control_step control_inv files_level "\<lambda>_. False"
  by unfold_locales (simp add: control_step_level)

lemma legal_edge_irrefl: "\<not> legal_edge st st"
  by (cases st) (auto simp: legal_edge_def is_terminal_def)

lemma control_move_view:
  assumes "control_move m m'"
  shows "m' \<noteq> m"
    and "cm_initialized m \<Longrightarrow> cm_state m' \<noteq> cm_state m \<Longrightarrow> legal_edge (cm_state m) (cm_state m')"
proof -
  consider (opened) "\<not> cm_initialized m" "cm_initialized m'"
    | (moved) "cm_initialized m" "legal_edge (cm_state m) (cm_state m')"
    | (stayed) "cm_state m' = cm_state m" "m' \<noteq> m"
    using assms
  proof (cases rule: control_move.cases)
    case (move_fail code now)
    then have "legal_edge (cm_state m) (cm_state m')" by (simp add: legal_edge_def)
    with move_fail(2) show ?thesis using that by blast
  next
    case (move_progress p path)
    then have "cm_snapshot m' \<noteq> cm_snapshot m" by simp
    then have "m' \<noteq> m" by auto
    moreover have "cm_state m' = cm_state m" using move_progress(1) by (simp add: cm_state_def)
    ultimately show ?thesis using that by blast
  qed auto
  then show "m' \<noteq> m"
    and "cm_initialized m \<Longrightarrow> cm_state m' \<noteq> cm_state m \<Longrightarrow> legal_edge (cm_state m) (cm_state m')"
    using legal_edge_irrefl [of "cm_state m"] by (cases; auto)+
qed

section \<open>Properties\<close>

definition sample_snapshot :: transfer_snapshot where
  "sample_snapshot =
     \<lparr>ts_id = 1, ts_peer_id = 2, ts_peer_display_name = qstr ''peer'', ts_display_name = qstr ''a.txt'',
      ts_direction = TD_Sending, ts_state = TS_Preparing,
      ts_progress = \<lparr>tp_completed_bytes = 0, tp_total_bytes = 10, tp_completed_files = 0,
        tp_total_files = 1, tp_bytes_per_second = dbl_zero, tp_estimated_remaining = None\<rparr>,
      ts_current_path = [], ts_error_code = TEC_None, ts_can_pause = False, ts_can_resume = False,
      ts_can_cancel = False, ts_can_retry = False, ts_created_utc = Some 1000,
      ts_finished_utc = None\<rparr>"

definition sample_run :: "(qdatetime \<times> control_event) list" where
  "sample_run = [(None, TE_Initialize), (None, TE_Advance TS_Offered), (Some 2000, TE_Cancel),
     (Some 3000, TE_ConfirmCancelled)]"

lemmas control_eval = sample_snapshot_def sample_run_def control_step_def control_op_defs
  new_control_machine_def control_results cm_state_def uuid_null_def valid_progress_def
  is_terminal_def dt_valid_def update_actions_def set_state_def mark_finished_def qstr_def
  dbl_zero_def dbl_isfinite_def dbl_negative_def dbl_magnitude_def Let_def

text \<open>C23. Whatever sequence of operations a transfer goes through, with whatever clock readings,
  its snapshot stays consistent: the progress is within its totals, the offered actions are
  those of its state, a terminal state has an end time not before the creation time and a speed
  of zero, only a complete transfer is Completed, and an error code is set exactly in Failed.\<close>

theorem control_runs_consistent:
  assumes "cm_initialized (run control_step (new_control_machine s) es)"
  shows "snapshot_ok (cm_snapshot (run control_step (new_control_machine s) es))"
  using control.inv_run [OF new_control_machine_inv, of s es] assms by (simp add: control_inv_def)

theorem control_runs_consistent_witness:
  "snapshot_ok (cm_snapshot (run control_step (new_control_machine sample_snapshot) sample_run))"
  by (rule control_runs_consistent) (simp add: control_eval)



text \<open>C26. A finished transfer is final: once a run has brought it to Completed, Rejected, Cancelled
  or Failed, no two continuations of the run can be told apart by the snapshot, and every
  continuation keeps it.\<close>

theorem control_terminal_final:
  assumes "control_done (run control_step (new_control_machine s) es)"
  shows "cm_snapshot (run control_step (new_control_machine s) (es @ fs)) =
    cm_snapshot (run control_step (new_control_machine s) es)"
  using control.outcome_final [OF new_control_machine_inv assms, of fs "[]"] by simp

theorem control_terminal_final_witness:
  "ts_state (cm_snapshot (run control_step (new_control_machine sample_snapshot)
     (sample_run @ [(None, TE_Resume), (None, TE_Fail TEC_DiskFull)]))) = TS_Cancelled"
proof -
  have "control_done (run control_step (new_control_machine sample_snapshot) sample_run)"
    by (simp add: control_done_def control_eval)
  from control_terminal_final [OF this, of "[(None, TE_Resume), (None, TE_Fail TEC_DiskFull)]"]
  show ?thesis by (simp add: control_eval)
qed

text \<open>Progress never moves backward: over any run of operations on a transfer, neither the
  completed bytes nor the completed files after the run are below those before it.\<close>

theorem control_progress_monotone:
  "bytes_level (run control_step (new_control_machine s) es)
     \<le> bytes_level (run control_step (new_control_machine s) (es @ fs)) \<and>
   files_level (run control_step (new_control_machine s) es)
     \<le> files_level (run control_step (new_control_machine s) (es @ fs))"
  using control_bytes.level_run [OF control.inv_run [OF new_control_machine_inv]]
    control_files.level_run [OF control.inv_run [OF new_control_machine_inv]]
  by (simp add: run_append)

text \<open>Cancelling always succeeds: from every live state of an initialized transfer, a cancel
  request followed by its confirmation ends in Cancelled, without an error.\<close>

theorem control_cancel_terminates:
  assumes "cm_initialized m" and "\<not> is_terminal (cm_state m)"
  shows "control_done (run control_step m [(now, TE_Cancel), (now', TE_ConfirmCancelled)]) \<and>
    cm_state (run control_step m [(now, TE_Cancel), (now', TE_ConfirmCancelled)]) = TS_Cancelled"
  using assms
  by (auto simp: control_step_def cancel_def confirm_cancelled_def is_terminal_def control_done_def)

theorem control_cancel_terminates_witness:
  "cm_state (run control_step (run control_step (new_control_machine sample_snapshot)
     [(None, TE_Initialize)]) [(None, TE_Cancel), (None, TE_ConfirmCancelled)]) = TS_Cancelled"
  using control_cancel_terminates [of "run control_step (new_control_machine sample_snapshot)
     [(None, TE_Initialize)]" None None]
  by (simp add: control_eval)

end
