(* ===== verification/PairingMessages.thy ===== *)
theory PairingMessages
  imports Cbor TrustStore
begin

text \<open>
  \<open>DeviceInfoCodec\<close> and \<open>PairingMessageCodec\<close>: the self-description a device broadcasts and the three
  pairing datagrams (request, code submission, result), as CBOR maps. The sender of a pairing
  message travels as an encoded device information inside the payload. Qt's CBOR bytes are an
  argument (\<open>qt_cbor\<close>); the key-sorting option of the encoder only affects those bytes.
\<close>

section \<open>Device information\<close>

record device_capabilities =
  dc_input :: bool
  dc_clipboard_text :: bool
  dc_clipboard_image :: bool
  dc_file_v1 :: bool
  dc_folder_v1 :: bool
  dc_resume_v1 :: bool

record device_info =
  di_device_id :: uuid
  di_display_name :: qstring
  di_platform :: qstring
  di_architecture :: qstring
  di_app_version :: qstring
  di_input_port :: u16
  di_file_port :: u16
  di_capabilities :: device_capabilities
  di_certificate_fingerprint :: bytes

definition kDeviceInfoProtocol :: qstring where
  "kDeviceInfoProtocol = qstr ''relaydesk-discovery''"

definition kDeviceInfoSchemaVersion :: u64 where
  "kDeviceInfoSchemaVersion = 1"

text \<open>The diagnostics of \<open>deserialize\<close>, of which the pairing codec inspects the wording.\<close>

datatype device_info_error =
    DIE_Empty | DIE_NotMap | DIE_Fields | DIE_Protocol | DIE_Version | DIE_DeviceId | DIE_Required
  | DIE_Capabilities | DIE_Fingerprint

definition has_only_integer_keys :: "cbor_map \<Rightarrow> u64 list \<Rightarrow> bool" where
  "has_only_integer_keys m allowed \<longleftrightarrow>
     list_all (\<lambda>(k, _). case k of CInt w \<Rightarrow> w \<in> set allowed | _ \<Rightarrow> False) m"

fun read_required_string :: "cbor \<Rightarrow> qstring option" where
  "read_required_string (CString s) = (if s = [] then None else Some s)"
| "read_required_string _ = None"

fun read_port :: "cbor \<Rightarrow> u16 option" where
  "read_port (CInt w) = (if sint w < 0 \<or> sint w > 65535 then None else Some (ucast w))"
| "read_port _ = None"

definition serialize_capabilities :: "device_capabilities \<Rightarrow> cbor_map" where
  "serialize_capabilities c =
     [(CInt 1, CBool (dc_input c)), (CInt 2, CBool (dc_clipboard_text c)),
      (CInt 3, CBool (dc_clipboard_image c)), (CInt 4, CBool (dc_file_v1 c)),
      (CInt 5, CBool (dc_folder_v1 c)), (CInt 6, CBool (dc_resume_v1 c))]"

fun to_bool :: "cbor \<Rightarrow> bool option" where
  "to_bool (CBool b) = Some b"
| "to_bool _ = None"

fun deserialize_capabilities :: "cbor \<Rightarrow> device_capabilities option" where
  "deserialize_capabilities (CMap m) =
     (if length m \<noteq> 6 \<or> \<not> has_only_integer_keys m [1, 2, 3, 4, 5, 6] then None
      else if \<not> list_all (\<lambda>k. to_bool (cmap_value m k) \<noteq> None) [1, 2, 3, 4, 5, 6] then None
      else Some \<lparr>dc_input = the (to_bool (cmap_value m 1)),
        dc_clipboard_text = the (to_bool (cmap_value m 2)),
        dc_clipboard_image = the (to_bool (cmap_value m 3)), dc_file_v1 = the (to_bool (cmap_value m 4)),
        dc_folder_v1 = the (to_bool (cmap_value m 5)), dc_resume_v1 = the (to_bool (cmap_value m 6))\<rparr>)"
| "deserialize_capabilities _ = None"

definition validate_for_serialization :: "device_info \<Rightarrow> bool" where
  "validate_for_serialization d \<longleftrightarrow>
     \<not> (di_display_name d = [] \<or> di_platform d = [] \<or> di_architecture d = [] \<or> di_app_version d = []) \<and>
     \<not> (di_certificate_fingerprint d \<noteq> [] \<and> length (di_certificate_fingerprint d) \<noteq> 32)"

definition device_info_fields :: "device_info \<Rightarrow> cbor_map" where
  "device_info_fields d =
     (let base =
        [(CInt 1, CString kDeviceInfoProtocol), (CInt 2, CInt kDeviceInfoSchemaVersion),
         (CInt 3, CBytes (uuid_to_bytes (di_device_id d))), (CInt 4, CString (di_display_name d)),
         (CInt 5, CString (di_platform d)), (CInt 6, CString (di_architecture d)),
         (CInt 7, CString (di_app_version d)), (CInt 8, CInt (ucast (di_input_port d))),
         (CInt 9, CInt (ucast (di_file_port d))),
         (CInt 10, CMap (serialize_capabilities (di_capabilities d)))]
      in if di_certificate_fingerprint d \<noteq> []
        then cmap_insert 11 (CBytes (di_certificate_fingerprint d)) base else base)"

definition serialize_device_info :: "qt_cbor \<Rightarrow> device_info \<Rightarrow> bytes" where
  "serialize_device_info qc d =
     (if \<not> validate_for_serialization d then [] else qc_to_cbor qc (CMap (device_info_fields d)))"

definition device_info_of_map :: "cbor_map \<Rightarrow> device_info_error + device_info" where
  "device_info_of_map m =
     (if \<not> has_only_integer_keys m [1, 2, 4, 5, 6, 7, 3, 8, 9, 10, 11] \<or> length m < 11 - 1
        then Inl DIE_Fields
      else if cmap_value m 1 \<noteq> CString kDeviceInfoProtocol then Inl DIE_Protocol
      else if cmap_value m 2 \<noteq> CInt kDeviceInfoSchemaVersion then Inl DIE_Version
      else case cmap_value m 3 of
        CBytes encoded \<Rightarrow>
          (case uuid_from_bytes encoded of
             None \<Rightarrow> Inl DIE_DeviceId
           | Some device \<Rightarrow>
          (case (read_required_string (cmap_value m 4), read_required_string (cmap_value m 5),
                 read_required_string (cmap_value m 6), read_required_string (cmap_value m 7),
                 read_port (cmap_value m 8), read_port (cmap_value m 9)) of
             (Some name, Some platform, Some architecture, Some version, Some input, Some file) \<Rightarrow>
               (case deserialize_capabilities (cmap_value m 10) of
                  None \<Rightarrow> Inl DIE_Capabilities
                | Some capabilities \<Rightarrow>
                    (case (case cmap_value m 11 of
                        CUndefined \<Rightarrow> Some []
                      | CBytes f \<Rightarrow> if length f \<noteq> 32 then None else Some f
                      | _ \<Rightarrow> None) of
                      None \<Rightarrow> Inl DIE_Fingerprint
                    | Some fingerprint \<Rightarrow>
                        Inr \<lparr>di_device_id = device, di_display_name = name, di_platform = platform,
                          di_architecture = architecture, di_app_version = version,
                          di_input_port = input, di_file_port = file, di_capabilities = capabilities,
                          di_certificate_fingerprint = fingerprint\<rparr>))
           | _ \<Rightarrow> Inl DIE_Required))
      | _ \<Rightarrow> Inl DIE_DeviceId)"

definition deserialize_device_info :: "qt_cbor \<Rightarrow> bytes \<Rightarrow> device_info_error + device_info" where
  "deserialize_device_info qc bs =
     (if bs = [] then Inl DIE_Empty
      else if \<not> cp_no_error (qc_from_cbor qc bs) then Inl DIE_NotMap
      else case cp_value (qc_from_cbor qc bs) of
        CMap m \<Rightarrow> device_info_of_map m
      | _ \<Rightarrow> Inl DIE_NotMap)"

section \<open>Pairing messages\<close>

datatype pairing_failure_reason =
    PFR_None | PFR_Cancelled | PFR_CodeMismatch | PFR_Expired | PFR_TooManyAttempts
  | PFR_TransportFailed | PFR_TrustStoreWriteFailed | PFR_CertificateChanged
  | PFR_DirectConnectionRequired | PFR_Unlisted u32

fun failure_reason_value :: "pairing_failure_reason \<Rightarrow> u32" where
  "failure_reason_value PFR_None = 0"
| "failure_reason_value PFR_Cancelled = 1"
| "failure_reason_value PFR_CodeMismatch = 2"
| "failure_reason_value PFR_Expired = 3"
| "failure_reason_value PFR_TooManyAttempts = 4"
| "failure_reason_value PFR_TransportFailed = 5"
| "failure_reason_value PFR_TrustStoreWriteFailed = 6"
| "failure_reason_value PFR_CertificateChanged = 7"
| "failure_reason_value PFR_DirectConnectionRequired = 8"
| "failure_reason_value (PFR_Unlisted n) = n"

definition failure_reason_cast :: "u64 \<Rightarrow> pairing_failure_reason" where
  "failure_reason_cast n =
     (if n = 0 then PFR_None else if n = 1 then PFR_Cancelled else if n = 2 then PFR_CodeMismatch
      else if n = 3 then PFR_Expired else if n = 4 then PFR_TooManyAttempts
      else if n = 5 then PFR_TransportFailed else if n = 6 then PFR_TrustStoreWriteFailed
      else if n = 7 then PFR_CertificateChanged else if n = 8 then PFR_DirectConnectionRequired
      else PFR_Unlisted (ucast n))"

fun is_known_pairing_failure_reason :: "pairing_failure_reason \<Rightarrow> bool" where
  "is_known_pairing_failure_reason (PFR_Unlisted _) = False"
| "is_known_pairing_failure_reason _ = True"

datatype pairing_message_type = PMT_Request | PMT_CodeSubmission | PMT_Result

record pairing_request =
  pq_session_id :: uuid
  pq_sender :: device_info
  pq_expires_at :: qdatetime

record pairing_code_submission =
  pc_session_id :: uuid
  pc_sender :: device_info
  pc_six_digit_sas :: qstring

record pairing_result_message =
  px_session_id :: uuid
  px_accepted :: bool
  px_failure_reason :: pairing_failure_reason
  px_diagnostic :: qstring

datatype pairing_message =
    PM_Request pairing_request
  | PM_Submission pairing_code_submission
  | PM_Result pairing_result_message

datatype pairing_message_error =
    PME_None | PME_TooLarge | PME_MalformedCbor | PME_InvalidEnvelope | PME_UnsupportedProtocol
  | PME_UnsupportedVersion | PME_UnsupportedMessageType | PME_InvalidPayload | PME_InvalidSessionId
  | PME_InvalidDeviceInfo | PME_InvalidFingerprint | PME_InvalidExpiry | PME_InvalidSas
  | PME_InvalidResult

definition kPairingProtocol :: qstring where
  "kPairingProtocol = qstr ''relaydesk-pairing''"

definition kMaximumPairingMessageBytes :: nat where
  "kMaximumPairingMessageBytes = 16 * 1024"

definition kMaximumDiagnosticBytes :: nat where
  "kMaximumDiagnosticBytes = 512"

text \<open>The pattern of six decimal digits; like every \<open>$\<close> of PCRE it also matches before a final newline.\<close>

definition six_digits :: "qstring \<Rightarrow> bool" where
  "six_digits s \<longleftrightarrow> matches_to_end 6 (list_all (\<lambda>c. 48 \<le> c \<and> c \<le> 57)) s"

fun message_type_value :: "pairing_message_type \<Rightarrow> u64" where
  "message_type_value PMT_Request = 1"
| "message_type_value PMT_CodeSubmission = 2"
| "message_type_value PMT_Result = 3"

fun pairing_message_type_of :: "pairing_message \<Rightarrow> pairing_message_type" where
  "pairing_message_type_of (PM_Request _) = PMT_Request"
| "pairing_message_type_of (PM_Submission _) = PMT_CodeSubmission"
| "pairing_message_type_of (PM_Result _) = PMT_Result"

definition validate_sender :: "qt_cbor \<Rightarrow> device_info \<Rightarrow> bytes option" where
  "validate_sender qc d =
     (if length (di_certificate_fingerprint d) \<noteq> 32 then None
      else if serialize_device_info qc d = [] then None else Some (serialize_device_info qc d))"

fun pairing_payload :: "qt_text \<Rightarrow> qt_cbor \<Rightarrow> pairing_message \<Rightarrow> cbor_map option" where
  "pairing_payload qt qc (PM_Request q) =
     (if uuid_null (pq_session_id q) then None
      else case (validate_sender qc (pq_sender q), pq_expires_at q) of
        (Some sender, Some ms) \<Rightarrow>
          Some (cmap_insert 3 (CInt (word_of_int ms)) (cmap_insert 2 (CBytes sender)
            (insert_uuid 1 (pq_session_id q) [])))
      | _ \<Rightarrow> None)"
| "pairing_payload qt qc (PM_Submission c) =
     (if uuid_null (pc_session_id c) then None
      else case validate_sender qc (pc_sender c) of
        None \<Rightarrow> None
      | Some sender \<Rightarrow>
          if \<not> six_digits (pc_six_digit_sas c) then None
          else Some (cmap_insert 3 (CString (pc_six_digit_sas c)) (cmap_insert 2 (CBytes sender)
            (insert_uuid 1 (pc_session_id c) []))))"
| "pairing_payload qt qc (PM_Result x) =
     (if uuid_null (px_session_id x) then None
      else if \<not> is_known_pairing_failure_reason (px_failure_reason x) then None
      else if px_accepted x \<noteq> (px_failure_reason x = PFR_None) then None
      else if px_accepted x \<and> px_diagnostic x \<noteq> [] then None
      else if qt_utf8_size qt (px_diagnostic x) > kMaximumDiagnosticBytes then None
      else
        (let base = cmap_insert 3 (CInt (ucast (failure_reason_value (px_failure_reason x))))
               (cmap_insert 2 (CBool (px_accepted x)) (insert_uuid 1 (px_session_id x) []))
         in Some (if px_diagnostic x \<noteq> [] then cmap_insert 4 (CString (px_diagnostic x)) base else base)))"

definition pairing_envelope :: "pairing_message_type \<Rightarrow> cbor_map \<Rightarrow> cbor_map" where
  "pairing_envelope t payload =
     [(CInt 1, CString kPairingProtocol), (CInt 2, CInt 1), (CInt 3, CInt (message_type_value t)),
      (CInt 4, CMap payload)]"

definition encode_pairing_message :: "qt_text \<Rightarrow> qt_cbor \<Rightarrow> pairing_message \<Rightarrow> bytes" where
  "encode_pairing_message qt qc m =
     (case pairing_payload qt qc m of
        None \<Rightarrow> []
      | Some payload \<Rightarrow>
          let encoded = qc_to_cbor qc (CMap (pairing_envelope (pairing_message_type_of m) payload)) in
          if length encoded > kMaximumPairingMessageBytes then [] else encoded)"

text \<open>\<open>readSender\<close>: the error is the one \<open>decode\<close> derives from the wording of the diagnostic.\<close>

fun read_sender :: "qt_cbor \<Rightarrow> cbor \<Rightarrow> pairing_message_error + device_info" where
  "read_sender qc (CBytes b) =
     (let p = qc_from_cbor qc b in
      if \<not> cp_no_error p \<or> cp_offset p \<noteq> length b \<or> (case cp_value p of CMap _ \<Rightarrow> False | _ \<Rightarrow> True)
        then Inl PME_InvalidDeviceInfo
      else case deserialize_device_info qc b of
        Inl e \<Rightarrow> Inl (if e = DIE_Fingerprint then PME_InvalidFingerprint else PME_InvalidDeviceInfo)
      | Inr d \<Rightarrow> if length (di_certificate_fingerprint d) \<noteq> 32 then Inl PME_InvalidFingerprint else Inr d)"
| "read_sender qc _ = Inl PME_InvalidDeviceInfo"

fun read_result_diagnostic :: "qt_text \<Rightarrow> bool \<Rightarrow> cbor_map \<Rightarrow> qstring option" where
  "read_result_diagnostic qt accepted payload =
     (if \<not> cmap_contains payload 4 then Some []
      else case cmap_value payload 4 of
        CString s \<Rightarrow>
          if s = [] \<or> qt_utf8_size qt s > kMaximumDiagnosticBytes \<or> accepted then None else Some s
      | _ \<Rightarrow> None)"

definition decode_pairing_request ::
  "qt_cbor \<Rightarrow> (int \<Rightarrow> qdatetime) \<Rightarrow> uuid \<Rightarrow> cbor_map \<Rightarrow> pairing_message_error + pairing_message" where
  "decode_pairing_request qc from_msecs session payload =
     (if \<not> has_exact_keys payload [1, 2, 3] then Inl PME_InvalidPayload
      else case read_sender qc (cmap_value payload 2) of
        Inl e \<Rightarrow> Inl e
      | Inr sender \<Rightarrow>
          (case cmap_value payload 3 of
             CInt ms \<Rightarrow>
               if sint ms \<le> 0 then Inl PME_InvalidExpiry
               else if \<not> dt_valid (from_msecs (sint ms)) then Inl PME_InvalidExpiry
               else Inr (PM_Request \<lparr>pq_session_id = session, pq_sender = sender,
                      pq_expires_at = from_msecs (sint ms)\<rparr>)
           | _ \<Rightarrow> Inl PME_InvalidExpiry))"

definition decode_pairing_submission ::
  "qt_cbor \<Rightarrow> uuid \<Rightarrow> cbor_map \<Rightarrow> pairing_message_error + pairing_message" where
  "decode_pairing_submission qc session payload =
     (if \<not> has_exact_keys payload [1, 2, 3] then Inl PME_InvalidPayload
      else case read_sender qc (cmap_value payload 2) of
        Inl e \<Rightarrow> Inl e
      | Inr sender \<Rightarrow>
          (case cmap_value payload 3 of
             CString sas \<Rightarrow>
               if \<not> six_digits sas then Inl PME_InvalidSas
               else Inr (PM_Submission \<lparr>pc_session_id = session, pc_sender = sender,
                      pc_six_digit_sas = sas\<rparr>)
           | _ \<Rightarrow> Inl PME_InvalidSas))"

definition decode_pairing_result ::
  "qt_text \<Rightarrow> uuid \<Rightarrow> cbor_map \<Rightarrow> pairing_message_error + pairing_message" where
  "decode_pairing_result qt session payload =
     (if length payload \<noteq> 3 \<and> length payload \<noteq> 4 then Inl PME_InvalidPayload
      else case cmap_value payload 2 of
        CBool accepted \<Rightarrow>
          if \<not> has_exact_keys payload [1, 2, 3] \<and> \<not> has_exact_keys payload [1, 2, 3, 4]
            then Inl PME_InvalidResult
          else (case cmap_value payload 3 of
            CInt n \<Rightarrow>
              if sint n < 0 \<or> sint n > 2 ^ 32 - 1 then Inl PME_InvalidResult
              else if \<not> is_known_pairing_failure_reason (failure_reason_cast n) \<or>
                  accepted \<noteq> (failure_reason_cast n = PFR_None) then Inl PME_InvalidResult
              else (case read_result_diagnostic qt accepted payload of
                None \<Rightarrow> Inl PME_InvalidResult
              | Some diagnostic \<Rightarrow>
                  Inr (PM_Result \<lparr>px_session_id = session, px_accepted = accepted,
                    px_failure_reason = failure_reason_cast n, px_diagnostic = diagnostic\<rparr>))
          | _ \<Rightarrow> Inl PME_InvalidResult)
      | _ \<Rightarrow> Inl PME_InvalidResult)"

fun message_type_of_value :: "cbor \<Rightarrow> pairing_message_type option" where
  "message_type_of_value (CInt n) =
     (if n = 1 then Some PMT_Request else if n = 2 then Some PMT_CodeSubmission
      else if n = 3 then Some PMT_Result else None)"
| "message_type_of_value _ = None"

definition pairing_of_payload ::
  "qt_text \<Rightarrow> qt_cbor \<Rightarrow> (int \<Rightarrow> qdatetime) \<Rightarrow> pairing_message_type \<Rightarrow> cbor_map \<Rightarrow>
     pairing_message_error + pairing_message" where
  "pairing_of_payload qt qc from_msecs t payload =
     (case read_uuid (cmap_value payload 1) of
        None \<Rightarrow> Inl PME_InvalidSessionId
      | Some session \<Rightarrow>
          (case t of
             PMT_Request \<Rightarrow> decode_pairing_request qc from_msecs session payload
           | PMT_CodeSubmission \<Rightarrow> decode_pairing_submission qc session payload
           | PMT_Result \<Rightarrow> decode_pairing_result qt session payload))"

definition decode_pairing_message ::
  "qt_text \<Rightarrow> qt_cbor \<Rightarrow> (int \<Rightarrow> qdatetime) \<Rightarrow> bytes \<Rightarrow> pairing_message_error + pairing_message" where
  "decode_pairing_message qt qc from_msecs bs =
     (if bs = [] then Inl PME_MalformedCbor
      else if length bs > kMaximumPairingMessageBytes then Inl PME_TooLarge
      else case parse_map qc bs of
        None \<Rightarrow> Inl PME_MalformedCbor
      | Some envelope \<Rightarrow>
          if \<not> has_exact_keys envelope [1, 2, 3, 4] then Inl PME_InvalidEnvelope
          else if cmap_value envelope 1 \<noteq> CString kPairingProtocol then Inl PME_UnsupportedProtocol
          else if cmap_value envelope 2 \<noteq> CInt 1 then Inl PME_UnsupportedVersion
          else (case message_type_of_value (cmap_value envelope 3) of
            None \<Rightarrow> Inl PME_UnsupportedMessageType
          | Some t \<Rightarrow>
              (case cmap_value envelope 4 of
                 CMap payload \<Rightarrow> pairing_of_payload qt qc from_msecs t payload
               | _ \<Rightarrow> Inl PME_InvalidPayload)))"

section \<open>Round trips\<close>

definition device_info_map :: "device_info \<Rightarrow> cbor_map option" where
  "device_info_map d = (if validate_for_serialization d then Some (device_info_fields d) else None)"

lemma wire_integer_u16 [simp]: "wire_integer (ucast (x :: u16))"
proof -
  have "unat x < 2 ^ 16" using unsigned_less [of x, where ?'a = nat] by simp
  then have "unat (ucast x :: u64) = unat x"
    by (simp add: unsigned_ucast_eq take_bit_nat_eq_self_iff)
  then show ?thesis
    using \<open>unat x < 2 ^ 16\<close> by (simp add: wire_integer_nat)
qed

lemma read_port_ucast [simp]: "read_port (CInt (ucast (p :: u16))) = Some p"
proof -
  have u: "unat p < 2 ^ 16" using unsigned_less [of p, where ?'a = nat] by simp
  then have "unat (ucast p :: u64) = unat p"
    by (simp add: unsigned_ucast_eq take_bit_nat_eq_self_iff)
  then have "sint (ucast p :: u64) = int (unat p)" by (simp add: sint_wire)
  moreover have "(ucast (ucast p :: u64) :: u16) = p"
    by (simp add: unsigned_ucast_eq take_bit_word_eq_self)
  moreover have "uint p < 65536" using unsigned_less [of p, where ?'a = int] by simp
  ultimately show ?thesis by simp
qed

lemma deserialize_serialize_capabilities [simp]:
  "deserialize_capabilities (CMap (serialize_capabilities c)) = Some c"
  by (simp add: serialize_capabilities_def has_only_integer_keys_def cmap_value_def)

lemma device_info_from_to:
  assumes "di_device_id d \<noteq> 0" and "device_info_map d = Some f"
  shows "device_info_of_map f = Inr d"
proof -
  have v: "validate_for_serialization d" and f: "f = device_info_fields d"
    using assms(2) by (auto simp: device_info_map_def split: if_splits)
  show ?thesis
  proof (cases "di_certificate_fingerprint d = []")
    case True
    then show ?thesis
      using v assms(1) by (simp add: f device_info_of_map_def device_info_fields_def Let_def
          has_only_integer_keys_def cmap_value_def uuid_from_to_bytes validate_for_serialization_def
          del: read_port.simps deserialize_capabilities.simps)
  next
    case False
    then show ?thesis
      using v assms(1) by (simp add: f device_info_of_map_def device_info_fields_def Let_def
          has_only_integer_keys_def cmap_value_def uuid_from_to_bytes validate_for_serialization_def
          del: read_port.simps deserialize_capabilities.simps)
  qed
qed

lemma read_required_string_Some: "read_required_string v = Some s \<longleftrightarrow> v = CString s \<and> s \<noteq> []"
  by (cases v) auto

lemma device_info_sound:
  assumes "device_info_of_map f = Inr d"
  shows "di_device_id d \<noteq> 0 \<and> device_info_map d \<noteq> None"
  using assms uuid_from_bytes_Some(1)
  by (auto simp: device_info_of_map_def device_info_map_def validate_for_serialization_def
      read_required_string_Some simp del: read_port.simps deserialize_capabilities.simps
      split: if_splits cbor.splits option.splits)

interpretation device_info_codec: cbor_codec device_info_map "\<lambda>(_ :: unit). device_info_of_map" "\<lambda>_. ()"
    "\<lambda>d. di_device_id d \<noteq> 0"
  by unfold_locales (auto intro: device_info_from_to dest: device_info_sound)

text \<open>A message of a device: non-null ids, a sender with a readable self-description, an expiry that
  \<open>QDateTime\<close> represents.\<close>

definition sender_ok :: "qt_cbor \<Rightarrow> device_info \<Rightarrow> bool" where
  "sender_ok qc d \<longleftrightarrow> di_device_id d \<noteq> 0 \<and> cbor_reads_back qc (CMap (device_info_fields d))"

fun pairing_message_ok :: "qt_cbor \<Rightarrow> (int \<Rightarrow> qdatetime) \<Rightarrow> pairing_message \<Rightarrow> bool" where
  "pairing_message_ok qc from_msecs (PM_Request q) =
     (sender_ok qc (pq_sender q) \<and>
      (case pq_expires_at q of None \<Rightarrow> False | Some ms \<Rightarrow> 0 < ms \<and> ms < 2 ^ 63 \<and> from_msecs ms = Some ms))"
| "pairing_message_ok qc from_msecs (PM_Submission c) = sender_ok qc (pc_sender c)"
| "pairing_message_ok qc from_msecs (PM_Result x) = True"

lemma read_validated_sender:
  assumes "validate_sender qc d = Some b" and "sender_ok qc d"
  shows "read_sender qc (CBytes b) = Inr d"
proof -
  from assms(1) have len: "length (di_certificate_fingerprint d) = 32" and b: "b = serialize_device_info qc d"
      and "serialize_device_info qc d \<noteq> []"
    by (auto simp: validate_sender_def split: if_splits)
  then have v: "validate_for_serialization d" by (auto simp: serialize_device_info_def split: if_splits)
  then have "device_info_of_map (device_info_fields d) = Inr d"
    using assms(2) by (intro device_info_from_to) (simp_all add: sender_ok_def device_info_map_def)
  then show ?thesis
    using v assms(2) len by (simp add: b sender_ok_def cbor_reads_back_def serialize_device_info_def
        deserialize_device_info_def Let_def)
qed

lemma failure_reason_cast_value:
  assumes "is_known_pairing_failure_reason r"
  shows "failure_reason_cast (ucast (failure_reason_value r)) = r"
    and "sint (ucast (failure_reason_value r) :: u64) \<ge> 0"
    and "sint (ucast (failure_reason_value r) :: u64) \<le> 2 ^ 32 - 1"
  using assms by (cases r; simp add: failure_reason_cast_def)+

lemma pairing_from_to:
  assumes "pairing_message_ok qc from_msecs m" and "pairing_payload qt qc m = Some f"
  shows "pairing_of_payload qt qc from_msecs (pairing_message_type_of m) f = Inr m"
proof (cases m)
  case (PM_Request q)
  from assms(2) PM_Request obtain b ms where b: "validate_sender qc (pq_sender q) = Some b"
      and ms: "pq_expires_at q = Some ms" and id: "pq_session_id q \<noteq> 0"
      and f: "f = cmap_insert 3 (CInt (word_of_int ms)) (cmap_insert 2 (CBytes b) (insert_uuid 1 (pq_session_id q) []))"
    by (auto simp: uuid_null_def split: if_splits option.splits)
  have "sint (word_of_int ms :: u64) = ms"
    using assms(1) PM_Request ms by (simp add: signed_of_int signed_take_bit_int_eq_self)
  moreover have "read_sender qc (CBytes b) = Inr (pq_sender q)"
    using assms(1) PM_Request b by (intro read_validated_sender) simp_all
  ultimately show ?thesis
    using assms(1) PM_Request id ms
    by (cases q) (simp add: f pairing_of_payload_def decode_pairing_request_def cbor_map_simps uuid_from_to_bytes
        dt_valid_def del: read_sender.simps)
next
  case (PM_Submission c)
  from assms(2) PM_Submission obtain b where b: "validate_sender qc (pc_sender c) = Some b"
      and sas: "six_digits (pc_six_digit_sas c)" and id: "pc_session_id c \<noteq> 0"
      and f: "f = cmap_insert 3 (CString (pc_six_digit_sas c)) (cmap_insert 2 (CBytes b) (insert_uuid 1 (pc_session_id c) []))"
    by (auto simp: uuid_null_def split: if_splits option.splits)
  have "read_sender qc (CBytes b) = Inr (pc_sender c)"
    using assms(1) PM_Submission b by (intro read_validated_sender) simp_all
  then show ?thesis
    using sas PM_Submission id
    by (cases c) (simp add: f pairing_of_payload_def decode_pairing_submission_def cbor_map_simps uuid_from_to_bytes
        del: read_sender.simps)
next
  case (PM_Result x)
  then have r: "is_known_pairing_failure_reason (px_failure_reason x)"
    using assms(2) by (simp split: if_splits)
  show ?thesis
  proof (cases "px_diagnostic x = []")
    case True
    then show ?thesis
      using assms(2) PM_Result failure_reason_cast_value [OF r]
      by (cases x) (auto simp: pairing_of_payload_def decode_pairing_result_def cbor_map_simps uuid_null_def
          uuid_from_to_bytes split: if_splits)
  next
    case False
    then show ?thesis
      using assms(2) PM_Result failure_reason_cast_value [OF r]
      by (cases x) (auto simp: pairing_of_payload_def decode_pairing_result_def cbor_map_simps uuid_null_def
          uuid_from_to_bytes split: if_splits)
  qed
qed

interpretation pairing_format: cbor_format "pairing_payload qt qc" "pairing_of_payload qt qc from_msecs"
    pairing_message_type_of "pairing_message_ok qc from_msecs" for qt qc from_msecs
  by unfold_locales (rule pairing_from_to)

text \<open>A datagram on the wire: what the encoder produced decodes to the message.\<close>

lemma decode_encoded_pairing:
  assumes "pairing_message_ok qc from_msecs m" and "pairing_payload qt qc m = Some payload"
    and "cbor_reads_back qc (CMap (pairing_envelope (pairing_message_type_of m) payload))"
    and "encode_pairing_message qt qc m \<noteq> []"
  shows "decode_pairing_message qt qc from_msecs (encode_pairing_message qt qc m) = Inr m"
proof -
  let ?t = "pairing_message_type_of m"
  have t: "message_type_of_value (CInt (message_type_value ?t)) = Some ?t"
    by (cases ?t) simp_all
  have env: "has_exact_keys (pairing_envelope ?t payload) [1, 2, 3, 4]"
      "cmap_value (pairing_envelope ?t payload) 1 = CString kPairingProtocol"
      "cmap_value (pairing_envelope ?t payload) 2 = CInt 1"
      "cmap_value (pairing_envelope ?t payload) 3 = CInt (message_type_value ?t)"
      "cmap_value (pairing_envelope ?t payload) 4 = CMap payload"
    by (simp_all add: pairing_envelope_def cbor_map_simps)
  have "length (qc_to_cbor qc (CMap (pairing_envelope ?t payload))) \<le> kMaximumPairingMessageBytes"
    using assms(2,4) by (auto simp: encode_pairing_message_def Let_def split: if_splits)
  then show ?thesis
    using assms pairing_format.from_to [OF assms(1,2)]
    by (simp add: decode_pairing_message_def encode_pairing_message_def Let_def env t
        del: message_type_of_value.simps)
qed

end
