(* ===== verification/Pairing.thy ===== *)
theory Pairing
  imports PairingMessages MachineInterface
begin

text \<open>
  \<open>PairingStateMachine\<close>: one pairing session at a time, from the request over the comparison of a six
  digit code to completion, rejection, failure or expiry. The machine owns its clock, its code
  generator and the source of fresh session ids: each is the stream of values its future calls
  return. Emitted \<open>pairingChanged\<close> signals are a log in the state. Diagnostics are not modelled.
\<close>

section \<open>Types\<close>

datatype host_address = HA_Null | HA_IPv4 u32 | HA_IPv6 bytes qstring

datatype device_presence = DP_Offline | DP_Discovered | DP_Pairing | DP_Online | DP_TrustViolation

record device_snapshot =
  sn_id :: uuid
  sn_display_name :: qstring
  sn_alias :: qstring
  sn_platform :: qstring
  sn_architecture :: qstring
  sn_presence :: device_presence
  sn_trusted :: bool
  sn_auto_accept_files :: bool
  sn_latency_ms :: int
  sn_addresses :: "host_address list"
  sn_capabilities :: device_capabilities
  sn_pinned_fingerprint :: bytes
  sn_last_seen_utc :: qdatetime

datatype pairing_state =
    PS_Idle | PS_Requesting | PS_ExchangingTranscript | PS_AwaitingUserComparison | PS_Confirming
  | PS_Completed | PS_Expired | PS_Rejected | PS_Failed

record pairing_snapshot =
  pn_session_id :: uuid
  pn_peer :: device_snapshot
  pn_state :: pairing_state
  pn_sas :: qstring
  pn_expires_at :: qdatetime
  pn_attempts :: int
  pn_failure_reason :: pairing_failure_reason

datatype pairing_error =
    PairErr_None | PairErr_ActiveSessionExists | PairErr_InvalidFingerprint | PairErr_InvalidSas | PairErr_SessionNotFound
  | PairErr_InvalidState | PairErr_Expired | PairErr_AttemptsExhausted

record pairing_options =
  po_validity_secs :: int
  po_attempts :: int

definition default_pairing_options :: pairing_options where
  "default_pairing_options = \<lparr>po_validity_secs = 300, po_attempts = 3\<rparr>"

record pairing_machine =
  pm_options :: pairing_options
  pm_clock :: "nat \<Rightarrow> qdatetime"
  pm_sas_generator :: "nat \<Rightarrow> u32"
  pm_uuids :: "nat \<Rightarrow> uuid"
  pm_snapshot :: "pairing_snapshot option"
  pm_peer_fingerprint :: bytes
  pm_signals :: "pairing_snapshot list"

definition new_pairing_machine ::
  "pairing_options \<Rightarrow> (nat \<Rightarrow> qdatetime) \<Rightarrow> (nat \<Rightarrow> u32) \<Rightarrow> (nat \<Rightarrow> uuid) \<Rightarrow> pairing_machine" where
  "new_pairing_machine options clock generator uuids =
     \<lparr>pm_options = options, pm_clock = clock, pm_sas_generator = generator, pm_uuids = uuids,
      pm_snapshot = None, pm_peer_fingerprint = [], pm_signals = []\<rparr>"

section \<open>Effects\<close>

definition read_clock :: "pairing_machine \<Rightarrow> qdatetime \<times> pairing_machine" where
  "read_clock m = (pm_clock m 0, m\<lparr>pm_clock := (\<lambda>n. pm_clock m (Suc n))\<rparr>)"

definition generate_sas :: "pairing_machine \<Rightarrow> u32 \<times> pairing_machine" where
  "generate_sas m = (pm_sas_generator m 0, m\<lparr>pm_sas_generator := (\<lambda>n. pm_sas_generator m (Suc n))\<rparr>)"

definition create_uuid :: "pairing_machine \<Rightarrow> uuid \<times> pairing_machine" where
  "create_uuid m = (pm_uuids m 0, m\<lparr>pm_uuids := (\<lambda>n. pm_uuids m (Suc n))\<rparr>)"

text \<open>\<open>m_snapshot\<close> is assigned and \<open>publish()\<close> emits it.\<close>

definition publish :: "pairing_snapshot \<Rightarrow> pairing_machine \<Rightarrow> pairing_machine" where
  "publish s m = m\<lparr>pm_snapshot := Some s, pm_signals := pm_signals m @ [s]\<rparr>"

section \<open>Operations\<close>

fun is_terminal_pairing :: "pairing_state \<Rightarrow> bool" where
  "is_terminal_pairing PS_Completed = True"
| "is_terminal_pairing PS_Expired = True"
| "is_terminal_pairing PS_Rejected = True"
| "is_terminal_pairing PS_Failed = True"
| "is_terminal_pairing _ = False"

definition format_sas :: "u32 \<Rightarrow> qstring" where
  "format_sas v = map (\<lambda>k. word_of_nat (48 + unat v div 10 ^ k mod 10)) [5, 4, 3, 2, 1, 0]"

text \<open>An invalid clock reading is before every valid expiry, so nothing expires under it.\<close>

definition expire_if_needed :: "pairing_machine \<Rightarrow> bool \<times> pairing_machine" where
  "expire_if_needed m =
     (case pm_snapshot m of
        None \<Rightarrow> (False, m)
      | Some s \<Rightarrow>
          if is_terminal_pairing (pn_state s) then (False, m)
          else (case read_clock m of (now, m1) \<Rightarrow>
            if dt_less now (pn_expires_at s) then (False, m1)
            else (True, publish (s\<lparr>pn_state := PS_Expired, pn_failure_reason := PFR_Expired\<rparr>) m1)))"

definition session_sas :: "qstring option \<Rightarrow> pairing_machine \<Rightarrow> qstring option \<times> pairing_machine" where
  "session_sas received m =
     (case received of
        Some s \<Rightarrow> (if six_digits s then Some s else None, m)
      | None \<Rightarrow>
          (case generate_sas m of (generated, m1) \<Rightarrow>
             (if generated \<ge> 1000000 then None else Some (format_sas generated), m1)))"

definition begin_session ::
  "device_snapshot \<Rightarrow> bytes \<Rightarrow> uuid \<Rightarrow> qdatetime \<Rightarrow> qstring option \<Rightarrow> pairing_machine \<Rightarrow>
     pairing_error \<times> pairing_machine" where
  "begin_session peer fingerprint session expires received m =
     (let m0 = snd (expire_if_needed m) in
      if (case pm_snapshot m0 of None \<Rightarrow> False | Some s \<Rightarrow> \<not> is_terminal_pairing (pn_state s))
        then (PairErr_ActiveSessionExists, m0)
      else if length fingerprint \<noteq> 32 then (PairErr_InvalidFingerprint, m0)
      else if po_validity_secs (pm_options m0) \<le> 0 \<or> po_attempts (pm_options m0) \<le> 0
        then (PairErr_InvalidState, m0)
      else case session_sas received m0 of
        (None, m1) \<Rightarrow> (PairErr_InvalidSas, m1)
      | (Some sas, m1) \<Rightarrow>
          (case read_clock m1 of (now, m2) \<Rightarrow>
             if \<not> dt_valid now \<or> uuid_null session \<or> \<not> dt_valid expires \<or> \<not> dt_less now expires \<or>
                dt_less (dt_add_secs now (po_validity_secs (pm_options m2))) expires
               then (PairErr_InvalidState, m2)
             else (PairErr_None,
               publish \<lparr>pn_session_id = session, pn_peer = peer, pn_state = PS_Requesting, pn_sas = sas,
                   pn_expires_at = expires, pn_attempts = po_attempts (pm_options m2),
                   pn_failure_reason = PFR_None\<rparr>
                 (m2\<lparr>pm_peer_fingerprint := fingerprint\<rparr>))))"

definition begin_pairing ::
  "device_snapshot \<Rightarrow> bytes \<Rightarrow> qstring option \<Rightarrow> pairing_machine \<Rightarrow> pairing_error \<times> pairing_machine" where
  "begin_pairing peer fingerprint received m =
     (case read_clock m of (now, m1) \<Rightarrow>
        (case create_uuid m1 of (session, m2) \<Rightarrow>
           begin_session peer fingerprint session
             (dt_add_secs now (po_validity_secs (pm_options m2))) received m2))"

definition begin_bound_session ::
  "device_snapshot \<Rightarrow> bytes \<Rightarrow> uuid \<Rightarrow> qdatetime \<Rightarrow> qstring option \<Rightarrow> pairing_machine \<Rightarrow>
     pairing_error \<times> pairing_machine" where
  "begin_bound_session peer fingerprint session expires received m =
     begin_session peer fingerprint session expires received m"

definition prepare_action :: "uuid \<Rightarrow> pairing_machine \<Rightarrow> pairing_error \<times> pairing_machine" where
  "prepare_action session m =
     (case pm_snapshot m of
        None \<Rightarrow> (PairErr_SessionNotFound, m)
      | Some s \<Rightarrow>
          if uuid_null session \<or> pn_session_id s \<noteq> session then (PairErr_SessionNotFound, m)
          else (case expire_if_needed m of
            (True, m1) \<Rightarrow> (PairErr_Expired, m1)
          | (False, m1) \<Rightarrow> (PairErr_None, m1)))"

text \<open>After a successful \<open>prepareAction\<close>, the rest of an action sees the snapshot.\<close>

definition with_session ::
  "uuid \<Rightarrow> (pairing_snapshot \<Rightarrow> pairing_machine \<Rightarrow> pairing_error \<times> pairing_machine) \<Rightarrow>
     pairing_machine \<Rightarrow> pairing_error \<times> pairing_machine" where
  "with_session session act m =
     (case prepare_action session m of (e, m1) \<Rightarrow>
        if e \<noteq> PairErr_None then (e, m1)
        else case pm_snapshot m1 of None \<Rightarrow> (PairErr_None, m1) | Some s \<Rightarrow> act s m1)"

definition transition ::
  "uuid \<Rightarrow> pairing_state \<Rightarrow> pairing_state \<Rightarrow> pairing_machine \<Rightarrow> pairing_error \<times> pairing_machine" where
  "transition session required target m =
     with_session session (\<lambda>s m1.
       if pn_state s \<noteq> required then (PairErr_InvalidState, m1)
       else (PairErr_None, publish (s\<lparr>pn_state := target\<rparr>) m1)) m"

definition mark_transport_ready :: "uuid \<Rightarrow> pairing_machine \<Rightarrow> pairing_error \<times> pairing_machine" where
  "mark_transport_ready session = transition session PS_Requesting PS_ExchangingTranscript"

definition mark_transcript_exchanged :: "uuid \<Rightarrow> pairing_machine \<Rightarrow> pairing_error \<times> pairing_machine" where
  "mark_transcript_exchanged session = transition session PS_ExchangingTranscript PS_AwaitingUserComparison"

definition confirm_matching_sas :: "uuid \<Rightarrow> pairing_machine \<Rightarrow> pairing_error \<times> pairing_machine" where
  "confirm_matching_sas session = transition session PS_AwaitingUserComparison PS_Confirming"

definition complete_pairing :: "uuid \<Rightarrow> pairing_machine \<Rightarrow> pairing_error \<times> pairing_machine" where
  "complete_pairing session = transition session PS_Confirming PS_Completed"

definition submit_displayed_sas :: "uuid \<Rightarrow> qstring \<Rightarrow> pairing_machine \<Rightarrow> pairing_error \<times> pairing_machine" where
  "submit_displayed_sas session digits m =
     with_session session (\<lambda>s m1.
       if pn_state s \<noteq> PS_AwaitingUserComparison then (PairErr_InvalidState, m1)
       else if \<not> six_digits digits then (PairErr_InvalidSas, m1)
       else if digits \<noteq> pn_sas s then
         (if pn_attempts s - 1 = 0 then
            (PairErr_AttemptsExhausted,
             publish (s\<lparr>pn_attempts := pn_attempts s - 1, pn_state := PS_Rejected,
               pn_failure_reason := PFR_TooManyAttempts\<rparr>) m1)
          else (PairErr_InvalidSas, publish (s\<lparr>pn_attempts := pn_attempts s - 1\<rparr>) m1))
       else (PairErr_None, publish (s\<lparr>pn_state := PS_Confirming\<rparr>) m1)) m"

definition end_pairing ::
  "pairing_state \<Rightarrow> uuid \<Rightarrow> pairing_failure_reason \<Rightarrow> pairing_machine \<Rightarrow> pairing_error \<times> pairing_machine" where
  "end_pairing target session reason m =
     with_session session (\<lambda>s m1.
       if is_terminal_pairing (pn_state s) \<or> reason = PFR_None \<or> \<not> is_known_pairing_failure_reason reason
         then (PairErr_InvalidState, m1)
       else (PairErr_None, publish (s\<lparr>pn_state := target, pn_failure_reason := reason\<rparr>) m1)) m"

definition reject_pairing ::
  "uuid \<Rightarrow> pairing_failure_reason \<Rightarrow> pairing_machine \<Rightarrow> pairing_error \<times> pairing_machine" where
  "reject_pairing = end_pairing PS_Rejected"

definition fail_pairing ::
  "uuid \<Rightarrow> pairing_failure_reason \<Rightarrow> pairing_machine \<Rightarrow> pairing_error \<times> pairing_machine" where
  "fail_pairing = end_pairing PS_Failed"

definition cancel_pairing :: "uuid \<Rightarrow> pairing_machine \<Rightarrow> pairing_error \<times> pairing_machine" where
  "cancel_pairing session = reject_pairing session PFR_Cancelled"

definition session_fingerprint :: "pairing_state \<Rightarrow> pairing_machine \<Rightarrow> uuid \<Rightarrow> bytes option" where
  "session_fingerprint state m session =
     (case pm_snapshot m of
        None \<Rightarrow> None
      | Some s \<Rightarrow>
          if pn_session_id s \<noteq> session \<or> pn_state s \<noteq> state then None else Some (pm_peer_fingerprint m))"

definition pending_fingerprint :: "pairing_machine \<Rightarrow> uuid \<Rightarrow> bytes option" where
  "pending_fingerprint = session_fingerprint PS_Confirming"

definition confirmed_fingerprint :: "pairing_machine \<Rightarrow> uuid \<Rightarrow> bytes option" where
  "confirmed_fingerprint = session_fingerprint PS_Completed"

section \<open>Events\<close>

datatype pairing_event =
    PV_Begin device_snapshot bytes "qstring option"
  | PV_BeginBound device_snapshot bytes uuid qdatetime "qstring option"
  | PV_TransportReady uuid
  | PV_TranscriptExchanged uuid
  | PV_ConfirmSas uuid
  | PV_SubmitSas uuid qstring
  | PV_Complete uuid
  | PV_Cancel uuid
  | PV_Reject uuid pairing_failure_reason
  | PV_Fail uuid pairing_failure_reason
  | PV_Expire

fun pairing_apply :: "pairing_machine \<Rightarrow> pairing_event \<Rightarrow> pairing_error \<times> pairing_machine" where
  "pairing_apply m (PV_Begin peer f received) = begin_pairing peer f received m"
| "pairing_apply m (PV_BeginBound peer f session expires received) =
     begin_bound_session peer f session expires received m"
| "pairing_apply m (PV_TransportReady session) = mark_transport_ready session m"
| "pairing_apply m (PV_TranscriptExchanged session) = mark_transcript_exchanged session m"
| "pairing_apply m (PV_ConfirmSas session) = confirm_matching_sas session m"
| "pairing_apply m (PV_SubmitSas session digits) = submit_displayed_sas session digits m"
| "pairing_apply m (PV_Complete session) = complete_pairing session m"
| "pairing_apply m (PV_Cancel session) = cancel_pairing session m"
| "pairing_apply m (PV_Reject session r) = reject_pairing session r m"
| "pairing_apply m (PV_Fail session r) = fail_pairing session r m"
| "pairing_apply m PV_Expire = (PairErr_None, snd (expire_if_needed m))"

definition pairing_step :: "pairing_machine \<Rightarrow> pairing_event \<Rightarrow> pairing_machine" where
  "pairing_step m e = snd (pairing_apply m e)"

section \<open>The protocol\<close>

text \<open>
  The abstract specification: what may happen to the session the user sees. \<open>n\<close> is the number of
  attempts the options grant.
\<close>

inductive pairing_edge :: "int \<Rightarrow> pairing_snapshot option \<Rightarrow> pairing_snapshot option \<Rightarrow> bool" for n where
  start: "(case a of None \<Rightarrow> True | Some s \<Rightarrow> is_terminal_pairing (pn_state s)) \<Longrightarrow> pn_state t = PS_Requesting \<Longrightarrow>
    pn_failure_reason t = PFR_None \<Longrightarrow> pn_attempts t = n \<Longrightarrow> 0 < n \<Longrightarrow> six_digits (pn_sas t) \<Longrightarrow>
    pn_session_id t \<noteq> 0 \<Longrightarrow> pairing_edge n a (Some t)"
| advance: "(pn_state s, q) \<in> {(PS_Requesting, PS_ExchangingTranscript),
      (PS_ExchangingTranscript, PS_AwaitingUserComparison), (PS_AwaitingUserComparison, PS_Confirming),
      (PS_Confirming, PS_Completed)} \<Longrightarrow> pairing_edge n (Some s) (Some (s\<lparr>pn_state := q\<rparr>))"
| wrong_code: "pn_state s = PS_AwaitingUserComparison \<Longrightarrow> pn_attempts s \<noteq> 1 \<Longrightarrow>
    pairing_edge n (Some s) (Some (s\<lparr>pn_attempts := pn_attempts s - 1\<rparr>))"
| exhausted: "pn_state s = PS_AwaitingUserComparison \<Longrightarrow> pn_attempts s = 1 \<Longrightarrow>
    pairing_edge n (Some s) (Some (s\<lparr>pn_attempts := 0, pn_state := PS_Rejected,
      pn_failure_reason := PFR_TooManyAttempts\<rparr>))"
| close: "\<not> is_terminal_pairing (pn_state s) \<Longrightarrow> q \<in> {PS_Expired, PS_Rejected, PS_Failed} \<Longrightarrow> r \<noteq> PFR_None \<Longrightarrow>
    pairing_edge n (Some s) (Some (s\<lparr>pn_state := q, pn_failure_reason := r\<rparr>))"

inductive_cases pairing_edge_from: "pairing_edge n (Some s) b"

text \<open>What the protocol guarantees of every session it shows.\<close>

definition snapshot_ok :: "int \<Rightarrow> pairing_snapshot \<Rightarrow> bool" where
  "snapshot_ok n s \<longleftrightarrow>
     six_digits (pn_sas s) \<and> pn_session_id s \<noteq> 0 \<and> pn_state s \<noteq> PS_Idle \<and>
     0 \<le> pn_attempts s \<and> pn_attempts s \<le> n \<and> (pn_attempts s = 0 \<longrightarrow> pn_state s = PS_Rejected) \<and>
     (pn_failure_reason s = PFR_None \<longleftrightarrow> \<not> is_terminal_pairing (pn_state s) \<or> pn_state s = PS_Completed)"

lemma edge_keeps_ok:
  assumes "pairing_edge n a b" and "case a of None \<Rightarrow> True | Some s \<Rightarrow> snapshot_ok n s"
  shows "case b of None \<Rightarrow> True | Some t \<Rightarrow> snapshot_ok n t"
  using assms by (induction rule: pairing_edge.induct) (auto simp: snapshot_ok_def)

lemma edges_keep_ok:
  "(pairing_edge n)\<^sup>*\<^sup>* a b \<Longrightarrow> (case a of None \<Rightarrow> True | Some s \<Rightarrow> snapshot_ok n s) \<Longrightarrow>
    (case b of None \<Rightarrow> True | Some t \<Rightarrow> snapshot_ok n t)"
  by (induction rule: rtranclp_induct) (auto dest: edge_keeps_ok)

section \<open>Refinement\<close>

text \<open>The operations change the session along the protocol and never the options; a fingerprint is stored
  only together with a session and has 32 bytes.\<close>

definition session_kept :: "pairing_machine \<Rightarrow> bool" where
  "session_kept m \<longleftrightarrow> (pm_snapshot m \<noteq> None \<longrightarrow> length (pm_peer_fingerprint m) = 32)"

definition follows :: "pairing_machine \<Rightarrow> pairing_machine \<Rightarrow> bool" where
  "follows m m' \<longleftrightarrow>
     pm_options m' = pm_options m \<and>
     (pairing_edge (po_attempts (pm_options m)))\<^sup>*\<^sup>* (pm_snapshot m) (pm_snapshot m') \<and>
     (session_kept m \<longrightarrow> session_kept m')"

lemma follows_refl [simp]: "follows m m"
  by (simp add: follows_def)

lemma follows_trans: "follows m m' \<Longrightarrow> follows m' m'' \<Longrightarrow> follows m m''"
  by (auto simp: follows_def)

lemma follows_same:
  "pm_options m' = pm_options m \<Longrightarrow> pm_snapshot m' = pm_snapshot m \<Longrightarrow>
    pm_peer_fingerprint m' = pm_peer_fingerprint m \<Longrightarrow> follows m m'"
  by (simp add: follows_def session_kept_def)

lemma follows_publish:
  "pairing_edge (po_attempts (pm_options m)) (pm_snapshot m) (Some s) \<Longrightarrow> pm_snapshot m \<noteq> None \<Longrightarrow>
    follows m (publish s m)"
  by (auto simp: follows_def publish_def session_kept_def)

lemma follows_expire: "follows m (snd (expire_if_needed m))"
proof (cases "pm_snapshot m")
  case (Some s)
  have "follows m (snd (read_clock m))"
    by (rule follows_same) (simp_all add: read_clock_def)
  moreover have "follows (snd (read_clock m))
      (publish (s\<lparr>pn_state := PS_Expired, pn_failure_reason := PFR_Expired\<rparr>) (snd (read_clock m)))"
    if "\<not> is_terminal_pairing (pn_state s)"
    using that Some by (intro follows_publish) (auto simp: read_clock_def intro: pairing_edge.close)
  ultimately show ?thesis
    using Some by (auto simp: expire_if_needed_def Let_def split: prod.splits intro: follows_trans)
qed (simp add: expire_if_needed_def)

text \<open>The actions on a session: prepared first, then one edge on the session found.\<close>

lemma prepare_action_cases:
  assumes "prepare_action session m = (e, m1)"
  shows "follows m m1 \<and> (e = PairErr_None \<longrightarrow>
    (\<exists>s. pm_snapshot m = Some s \<and> pm_snapshot m1 = Some s \<and> pn_session_id s = session \<and> session \<noteq> 0 \<and>
      pm_peer_fingerprint m1 = pm_peer_fingerprint m \<and> pm_signals m1 = pm_signals m))"
  using assms follows_expire [of m]
  by (auto simp: prepare_action_def expire_if_needed_def read_clock_def uuid_null_def
      split: option.splits if_splits prod.splits)

lemma follows_with_session:
  assumes "\<And>s m1. pm_snapshot m1 = Some s \<Longrightarrow> pn_session_id s = session \<Longrightarrow> follows m1 (snd (act s m1))"
  shows "follows m (snd (with_session session act m))"
proof (cases "prepare_action session m")
  case (Pair e m1)
  from prepare_action_cases [OF Pair] show ?thesis
    using assms Pair by (auto simp: with_session_def intro: follows_trans)
qed

lemma follows_transition:
  assumes "(required, target) \<in> {(PS_Requesting, PS_ExchangingTranscript),
      (PS_ExchangingTranscript, PS_AwaitingUserComparison), (PS_AwaitingUserComparison, PS_Confirming),
      (PS_Confirming, PS_Completed)}"
  shows "follows m (snd (transition session required target m))"
  unfolding transition_def
  by (rule follows_with_session) (use assms in \<open>auto intro!: follows_publish pairing_edge.advance\<close>)

lemma follows_submit: "follows m (snd (submit_displayed_sas session digits m))"
  unfolding submit_displayed_sas_def
  by (rule follows_with_session)
    (auto intro!: follows_publish intro: pairing_edge.wrong_code pairing_edge.exhausted pairing_edge.advance)

lemma follows_end: "target \<in> {PS_Rejected, PS_Failed} \<Longrightarrow> follows m (snd (end_pairing target session r m))"
  unfolding end_pairing_def
  by (rule follows_with_session) (auto intro!: follows_publish pairing_edge.close)

lemma six_digits_format: "six_digits (format_sas v)"
proof -
  have "48 \<le> (word_of_nat (48 + d mod 10) :: u16) \<and> (word_of_nat (48 + d mod 10) :: u16) \<le> 57" for d :: nat
  proof -
    have "d mod 10 < 10" by simp
    then have "unat (word_of_nat (48 + d mod 10) :: u16) = 48 + d mod 10"
      by (simp add: unat_of_nat del: of_nat_add)
    then show ?thesis
      using \<open>d mod 10 < 10\<close> by (simp add: word_le_nat_alt del: of_nat_add)
  qed
  then show ?thesis
    by (simp add: six_digits_def matches_to_end_def format_sas_def del: of_nat_add power.simps)
qed

lemma session_sas_cases:
  "session_sas received m = (sas, m1) \<Longrightarrow> pm_options m1 = pm_options m \<and> pm_snapshot m1 = pm_snapshot m \<and>
    pm_peer_fingerprint m1 = pm_peer_fingerprint m \<and> pm_signals m1 = pm_signals m \<and>
    (case sas of None \<Rightarrow> True | Some s \<Rightarrow> six_digits s)"
  by (auto simp: session_sas_def generate_sas_def six_digits_format split: option.splits if_splits)

lemma follows_begin_session: "follows m (snd (begin_session peer f session expires received m))"
proof -
  let ?start = "snd (expire_if_needed m)"
  have "follows ?start (snd (begin_session peer f session expires received m))"
  proof (cases "session_sas received ?start")
    case (Pair sas m1)
    note ss = session_sas_cases [OF Pair]
    have same: "follows ?start m1" "follows ?start (snd (read_clock m1))"
      using ss by (auto intro!: follows_same simp: read_clock_def)
    show ?thesis
      using Pair ss same
      by (auto simp: begin_session_def Let_def read_clock_def follows_def publish_def session_kept_def uuid_null_def
          split: option.splits intro!: r_into_rtranclp pairing_edge.start)
  qed
  then show ?thesis by (rule follows_trans [OF follows_expire])
qed

lemma follows_step: "follows m (pairing_step m e)"
proof (cases e)
  case (PV_Begin peer f received)
  have "follows m (snd (create_uuid (snd (read_clock m))))"
    by (rule follows_same) (simp_all add: create_uuid_def read_clock_def)
  then show ?thesis
    using PV_Begin follows_begin_session
    by (auto simp: pairing_step_def begin_pairing_def split: prod.splits intro: follows_trans)
qed (auto simp: pairing_step_def begin_bound_session_def mark_transport_ready_def mark_transcript_exchanged_def
    confirm_matching_sas_def complete_pairing_def cancel_pairing_def reject_pairing_def fail_pairing_def
    intro: follows_begin_session follows_expire follows_submit
    intro!: follows_transition follows_end)

interpretation pairing: machine pairing_step session_kept
  by unfold_locales (use follows_step in \<open>auto simp: follows_def\<close>)

lemma follows_run: "follows m (run pairing_step m es)"
  by (induction es arbitrary: m) (auto intro: follows_trans [OF follows_step])

section \<open>Properties\<close>


end
