(* ===== verification/PairingManager.thy ===== *)
theory PairingManager
  imports Pairing
begin

text \<open>
  \<open>PairingTrustCommitter\<close> and \<open>PairingManager\<close>: the pairing datagrams, the session they are bound to,
  the local and the remote confirmation, and the commit of the peer's certificate fingerprint
  to the trust store. The outcomes of the datagram send and of the file writes are the
  environment of each event. The machine's signals reset the manual snapshot as the connected
  slot does.
\<close>

section \<open>Types\<close>

record qt_pairing =
  qp_trust :: qt_trust
  qp_cbor :: qt_cbor
  qp_from_msecs :: "int \<Rightarrow> qdatetime"
  qp_is_multicast :: "host_address \<Rightarrow> bool"
  qp_is_broadcast :: "host_address \<Rightarrow> bool"
  qp_host_string :: "host_address \<Rightarrow> qstring"

record pairing_endpoint =
  ep_address :: host_address
  ep_port :: u16

datatype pairing_role = R_Outgoing | R_Incoming

record active_session =
  as_role :: pairing_role
  as_wire_session_id :: uuid
  as_peer_id :: uuid
  as_peer_fingerprint :: bytes
  as_endpoint :: pairing_endpoint
  as_local_confirmed :: bool
  as_remote_code_matched :: bool

record trust_selection =
  tl_alias :: qstring
  tl_auto_accept_files :: bool

datatype trust_commit_error =
    TCE_None | TCE_SessionNotConfirming | TCE_InvalidPeer | TCE_InvalidTrustRecord
  | TCE_PersistenceFailed | TCE_TransitionFailed

datatype operation_error =
    OE_None | OE_InvalidLocalDevice | OE_InvalidPeer | OE_InvalidEndpoint | OE_ActiveSessionExists
  | OE_SessionNotFound | OE_SessionMismatch | OE_PeerMismatch | OE_EndpointMismatch | OE_Expired
  | OE_InvalidCode | OE_UnexpectedMessage | OE_DuplicateMessage | OE_DecodeFailed | OE_InvalidState
  | OE_SendFailed | OE_PersistenceFailed | OE_RevokeFailed

record operation_result =
  or_error :: operation_error
  or_message_error :: pairing_message_error
  or_state_error :: pairing_error
  or_trust_error :: trust_commit_error

definition op_ok :: operation_result where
  "op_ok = \<lparr>or_error = OE_None, or_message_error = PME_None, or_state_error = PairErr_None,
     or_trust_error = TCE_None\<rparr>"

definition op_failure :: "operation_error \<Rightarrow> operation_result" where
  "op_failure e = op_ok\<lparr>or_error := e\<rparr>"

text \<open>What the network and the file system answer during one event: the datagram send, the save of the
  new trust (store and backup) and the save that undoes it.\<close>

record manager_env =
  mv_send_ok :: bool
  mv_save :: write_env
  mv_save_backup :: write_env
  mv_undo :: write_env
  mv_undo_backup :: write_env

record pairing_manager =
  mg_local :: device_info
  mg_store :: device_store
  mg_disk :: disk
  mg_has_sender :: bool
  mg_machine :: pairing_machine
  mg_active :: "active_session option"
  mg_manual :: "pairing_snapshot option"
  mg_sent :: "(bytes \<times> pairing_endpoint) list"

section \<open>Calls into the state machine\<close>

text \<open>A published snapshot runs the connected slot, which resets the manual one.\<close>

definition on_machine ::
  "(pairing_machine \<Rightarrow> 'r \<times> pairing_machine) \<Rightarrow> pairing_manager \<Rightarrow> 'r \<times> pairing_manager" where
  "on_machine act g =
     (case act (mg_machine g) of (r, m) \<Rightarrow>
        (r, g\<lparr>mg_machine := m,
              mg_manual := (if length (pm_signals m) \<noteq> length (pm_signals (mg_machine g)) then None
                            else mg_manual g)\<rparr>))"

definition manager_now :: "pairing_manager \<Rightarrow> qdatetime \<times> pairing_manager" where
  "manager_now g = (case read_clock (mg_machine g) of (now, m) \<Rightarrow> (now, g\<lparr>mg_machine := m\<rparr>))"

definition manager_snapshot :: "pairing_manager \<Rightarrow> pairing_snapshot option" where
  "manager_snapshot g = (case mg_manual g of Some s \<Rightarrow> Some s | None \<Rightarrow> pm_snapshot (mg_machine g))"

definition has_non_terminal_session :: "pairing_manager \<Rightarrow> bool" where
  "has_non_terminal_session g =
     (case manager_snapshot g of None \<Rightarrow> False | Some s \<Rightarrow> \<not> is_terminal_pairing (pn_state s))"

definition manager_expire :: "pairing_manager \<Rightarrow> bool \<times> pairing_manager" where
  "manager_expire g =
     (case mg_manual g of
        Some s \<Rightarrow>
          if is_terminal_pairing (pn_state s) then (False, g)
          else (case manager_now g of (now, g1) \<Rightarrow>
            if dt_less now (pn_expires_at s) then (False, g1)
            else (True, g1\<lparr>mg_manual := Some (s\<lparr>pn_state := PS_Expired, pn_failure_reason := PFR_Expired\<rparr>)\<rparr>))
      | None \<Rightarrow> on_machine expire_if_needed g)"

section \<open>Committing trust\<close>

definition choose_alias :: "qt_text \<Rightarrow> qstring \<Rightarrow> trusted_device option \<Rightarrow> device_snapshot \<Rightarrow> qstring" where
  "choose_alias qt selected existing peer =
     (let selected' = qt_trimmed qt selected in
      if selected' \<noteq> [] then selected'
      else case (case existing of Some d \<Rightarrow> td_alias d | None \<Rightarrow> []) of
        [] \<Rightarrow> (if qt_trimmed qt (sn_alias peer) \<noteq> [] then qt_trimmed qt (sn_alias peer)
               else qt_trimmed qt (sn_display_name peer))
      | a \<Rightarrow> a)"

definition address_strings :: "qt_pairing \<Rightarrow> host_address list \<Rightarrow> qstring list" where
  "address_strings qp addresses = map (qp_host_string qp) (filter (\<lambda>a. a \<noteq> HA_Null) addresses)"

definition trust_record ::
  "qt_pairing \<Rightarrow> device_store \<Rightarrow> pairing_snapshot \<Rightarrow> bytes \<Rightarrow> trust_selection \<Rightarrow> trusted_device" where
  "trust_record qp st s fingerprint selection =
     \<lparr>td_device_id = sn_id (pn_peer s),
      td_alias = choose_alias (qr_text (qp_trust qp)) (tl_alias selection)
        (store_find st (sn_id (pn_peer s))) (pn_peer s),
      td_platform = sn_platform (pn_peer s), td_fingerprint_sha256 = fingerprint,
      td_last_addresses = address_strings qp (sn_addresses (pn_peer s)),
      td_auto_accept_files = tl_auto_accept_files selection, td_revoked = False\<rparr>"

definition no_selection :: trust_selection where
  "no_selection = \<lparr>tl_alias = [], tl_auto_accept_files = False\<rparr>"

definition commit_trust ::
  "qt_pairing \<Rightarrow> manager_env \<Rightarrow> uuid \<Rightarrow> trust_selection \<Rightarrow> pairing_manager \<Rightarrow>
     trust_commit_error \<times> pairing_manager" where
  "commit_trust qp env session selection g =
     (case (pm_snapshot (mg_machine g), pending_fingerprint (mg_machine g) session) of
        (Some s, Some fingerprint) \<Rightarrow>
          if pn_session_id s \<noteq> session \<or> pn_state s \<noteq> PS_Confirming then (TCE_SessionNotConfirming, g)
          else if uuid_null (sn_id (pn_peer s)) \<or>
              qt_trimmed (qr_text (qp_trust qp)) (sn_platform (pn_peer s)) = []
            then (TCE_InvalidPeer, g)
          else (case store_upsert (qp_trust qp) (trust_record qp (mg_store g) s fingerprint selection) (mg_store g) of
            (False, _) \<Rightarrow> (TCE_InvalidTrustRecord, g)
          | (True, staged) \<Rightarrow>
              (case store_save (qp_trust qp) (mv_save env) (mv_save_backup env) staged (mg_disk g) of (r, dk) \<Rightarrow>
                 if \<not> so_ok r then
                   (TCE_PersistenceFailed,
                    snd (on_machine (fail_pairing session PFR_TrustStoreWriteFailed)
                      (g\<lparr>mg_disk := snd (store_save (qp_trust qp) (mv_undo env) (mv_undo_backup env) (mg_store g) dk)\<rparr>)))
                 else
                   (case on_machine (complete_pairing session) (g\<lparr>mg_disk := dk, mg_store := staged\<rparr>) of (e, g1) \<Rightarrow>
                      if e \<noteq> PairErr_None then
                        (TCE_TransitionFailed,
                         g1\<lparr>mg_store := mg_store g,
                            mg_disk := snd (store_save (qp_trust qp) (mv_undo env) (mv_undo_backup env) (mg_store g) dk)\<rparr>)
                      else (TCE_None, g1))))
      | _ \<Rightarrow> (TCE_SessionNotConfirming, g))"

section \<open>Results and sending\<close>

definition result_from_state :: "pairing_error \<Rightarrow> operation_result" where
  "result_from_state e =
     (if e = PairErr_None then op_ok
      else op_ok\<lparr>or_error := (if e = PairErr_Expired then OE_Expired else OE_InvalidState), or_state_error := e\<rparr>)"

definition result_from_trust :: "trust_commit_error \<Rightarrow> operation_result" where
  "result_from_trust e =
     (if e = TCE_None then op_ok
      else op_ok\<lparr>or_error := (if e = TCE_PersistenceFailed then OE_PersistenceFailed else OE_InvalidState),
                 or_trust_error := e\<rparr>)"

fun operation_error_for :: "pairing_failure_reason \<Rightarrow> operation_error" where
  "operation_error_for PFR_None = OE_InvalidState"
| "operation_error_for PFR_Cancelled = OE_InvalidState"
| "operation_error_for PFR_CodeMismatch = OE_InvalidCode"
| "operation_error_for PFR_TooManyAttempts = OE_InvalidCode"
| "operation_error_for PFR_Expired = OE_Expired"
| "operation_error_for PFR_TransportFailed = OE_SendFailed"
| "operation_error_for PFR_TrustStoreWriteFailed = OE_PersistenceFailed"
| "operation_error_for PFR_CertificateChanged = OE_InvalidPeer"
| "operation_error_for PFR_DirectConnectionRequired = OE_InvalidEndpoint"
| "operation_error_for (PFR_Unlisted _) = OE_InvalidState"

definition is_usable_endpoint :: "qt_pairing \<Rightarrow> pairing_endpoint \<Rightarrow> bool" where
  "is_usable_endpoint qp e \<longleftrightarrow>
     ep_port e \<noteq> 0 \<and> ep_address e \<noteq> HA_Null \<and> \<not> qp_is_multicast qp (ep_address e) \<and>
     \<not> qp_is_broadcast qp (ep_address e) \<and> ep_address e \<noteq> HA_IPv4 0 \<and>
     ep_address e \<noteq> HA_IPv6 (replicate 16 0) []"

definition send_message ::
  "qt_pairing \<Rightarrow> manager_env \<Rightarrow> pairing_message \<Rightarrow> pairing_manager \<Rightarrow> operation_result \<times> pairing_manager" where
  "send_message qp env m g =
     (case mg_active g of
        None \<Rightarrow> (op_failure OE_SendFailed, g)
      | Some a \<Rightarrow>
          if \<not> mg_has_sender g then (op_failure OE_SendFailed, g)
          else (let encoded = encode_pairing_message (qr_text (qp_trust qp)) (qp_cbor qp) m in
            if encoded = [] then (op_failure OE_InvalidState, g)
            else (if mv_send_ok env then op_ok else op_failure OE_SendFailed,
                  g\<lparr>mg_sent := mg_sent g @ [(encoded, as_endpoint a)]\<rparr>)))"

definition fail_state ::
  "operation_error \<Rightarrow> pairing_failure_reason \<Rightarrow> pairing_manager \<Rightarrow> operation_result \<times> pairing_manager" where
  "fail_state e reason g =
     (case (manager_snapshot g, pm_snapshot (mg_machine g)) of
        (Some s, Some _) \<Rightarrow> (op_failure e, snd (on_machine (fail_pairing (pn_session_id s) reason) g))
      | _ \<Rightarrow> (op_failure e, g))"

definition validate_bound_message ::
  "uuid \<Rightarrow> pairing_endpoint \<Rightarrow> pairing_role \<Rightarrow> pairing_manager \<Rightarrow> operation_result" where
  "validate_bound_message session source role g =
     (case mg_active g of
        None \<Rightarrow> op_failure OE_SessionNotFound
      | Some a \<Rightarrow>
          if as_wire_session_id a \<noteq> session then op_failure OE_SessionMismatch
          else if as_endpoint a \<noteq> source then op_failure OE_EndpointMismatch
          else if as_role a \<noteq> role then op_failure OE_UnexpectedMessage
          else op_ok)"

text \<open>The local calls bind to the endpoint of the active session itself.\<close>

definition validate_local ::
  "uuid \<Rightarrow> pairing_role \<Rightarrow> pairing_manager \<Rightarrow> operation_result" where
  "validate_local session role g =
     validate_bound_message session
       (case mg_active g of Some a \<Rightarrow> as_endpoint a | None \<Rightarrow> \<lparr>ep_address = HA_Null, ep_port = 0\<rparr>) role g"

definition finalize_outgoing ::
  "qt_pairing \<Rightarrow> manager_env \<Rightarrow> pairing_manager \<Rightarrow> operation_result \<times> pairing_manager" where
  "finalize_outgoing qp env g =
     (case (pm_snapshot (mg_machine g), mg_active g) of
        (Some s, Some a) \<Rightarrow>
          if pn_state s \<noteq> PS_Confirming \<or> \<not> as_local_confirmed a \<or> \<not> as_remote_code_matched a
            then (op_failure OE_InvalidState, g)
          else (case commit_trust qp env (pn_session_id s) no_selection g of (e, g1) \<Rightarrow>
            if e \<noteq> TCE_None then
              (result_from_trust e,
               snd (send_message qp env (PM_Result \<lparr>px_session_id = pn_session_id s, px_accepted = False,
                 px_failure_reason = PFR_TrustStoreWriteFailed, px_diagnostic = []\<rparr>) g1))
            else send_message qp env (PM_Result \<lparr>px_session_id = pn_session_id s, px_accepted = True,
                 px_failure_reason = PFR_None, px_diagnostic = []\<rparr>) g1)
      | _ \<Rightarrow> (op_failure OE_InvalidState, g))"

section \<open>Local operations\<close>

definition start_pairing ::
  "qt_pairing \<Rightarrow> manager_env \<Rightarrow> device_snapshot \<Rightarrow> bytes \<Rightarrow> pairing_endpoint \<Rightarrow> pairing_manager \<Rightarrow>
     operation_result \<times> pairing_manager" where
  "start_pairing qp env peer fingerprint endpoint g =
     (if length (di_certificate_fingerprint (mg_local g)) \<noteq> 32 \<or> uuid_null (di_device_id (mg_local g))
        then (op_failure OE_InvalidLocalDevice, g)
      else if sn_id peer = di_device_id (mg_local g) \<or> length fingerprint \<noteq> 32
        then (op_failure OE_InvalidPeer, g)
      else if \<not> is_usable_endpoint qp endpoint then (op_failure OE_InvalidEndpoint, g)
      else if has_non_terminal_session g then (op_failure OE_ActiveSessionExists, g)
      else
        (let peer1 = peer\<lparr>sn_presence := DP_Pairing\<rparr>;
             peer2 = (if ep_address endpoint \<in> set (sn_addresses peer1) then peer1
                      else peer1\<lparr>sn_addresses := ep_address endpoint # sn_addresses peer1\<rparr>)
         in case on_machine (begin_pairing peer2 fingerprint None) g of (e, g1) \<Rightarrow>
           if e \<noteq> PairErr_None then (result_from_state e, g1)
           else case pm_snapshot (mg_machine g1) of
             None \<Rightarrow> (op_ok, g1)
           | Some s \<Rightarrow>
               (case send_message qp env
                    (PM_Request \<lparr>pq_session_id = pn_session_id s, pq_sender = mg_local g1,
                       pq_expires_at = pn_expires_at s\<rparr>)
                    (g1\<lparr>mg_active := Some \<lparr>as_role = R_Outgoing, as_wire_session_id = pn_session_id s,
                       as_peer_id = sn_id (pn_peer s), as_peer_fingerprint = fingerprint,
                       as_endpoint = endpoint, as_local_confirmed = False, as_remote_code_matched = False\<rparr>\<rparr>) of
                  (sent, g2) \<Rightarrow>
                    if or_error sent \<noteq> OE_None then fail_state (or_error sent) PFR_TransportFailed g2
                    else (case on_machine (mark_transport_ready (pn_session_id s)) g2 of (ready, g3) \<Rightarrow>
                      if ready \<noteq> PairErr_None then (result_from_state ready, g3)
                      else (case on_machine (mark_transcript_exchanged (pn_session_id s)) g3 of
                        (exchanged, g4) \<Rightarrow> (result_from_state exchanged, g4))))))"

text \<open>The common preamble of the two local confirmations: not expired, now or before.\<close>

definition unless_expired ::
  "(pairing_manager \<Rightarrow> operation_result \<times> pairing_manager) \<Rightarrow> pairing_manager \<Rightarrow>
     operation_result \<times> pairing_manager" where
  "unless_expired act g =
     (if (case manager_snapshot g of Some s \<Rightarrow> pn_state s = PS_Expired | None \<Rightarrow> False)
        then (op_failure OE_Expired, g)
      else (case manager_expire g of (expired, g1) \<Rightarrow>
        if expired then (op_failure OE_Expired, g1) else act g1))"

definition manager_confirm ::
  "qt_pairing \<Rightarrow> manager_env \<Rightarrow> uuid \<Rightarrow> pairing_manager \<Rightarrow> operation_result \<times> pairing_manager" where
  "manager_confirm qp env session g =
     (if or_error (validate_local session R_Outgoing g) \<noteq> OE_None then (validate_local session R_Outgoing g, g)
      else unless_expired (\<lambda>g1.
        case (pm_snapshot (mg_machine g1), mg_active g1) of
          (Some s, Some a) \<Rightarrow>
            if pn_state s \<noteq> PS_AwaitingUserComparison \<and> pn_state s \<noteq> PS_Confirming
              then (op_failure OE_InvalidState, g1)
            else if as_local_confirmed a then (op_failure OE_DuplicateMessage, g1)
            else (let g2 = g1\<lparr>mg_active := Some (a\<lparr>as_local_confirmed := True\<rparr>)\<rparr> in
              if as_remote_code_matched a then finalize_outgoing qp env g2 else (op_ok, g2))
        | _ \<Rightarrow> (op_failure OE_InvalidState, g1)) g)"

definition manager_submit ::
  "qt_pairing \<Rightarrow> manager_env \<Rightarrow> uuid \<Rightarrow> qstring \<Rightarrow> pairing_manager \<Rightarrow>
     operation_result \<times> pairing_manager" where
  "manager_submit qp env session digits g =
     (if or_error (validate_local session R_Incoming g) \<noteq> OE_None then (validate_local session R_Incoming g, g)
      else unless_expired (\<lambda>g1.
        case (mg_manual g1, mg_active g1) of
          (Some s, Some a) \<Rightarrow>
            if pn_state s \<noteq> PS_AwaitingUserComparison then (op_failure OE_InvalidState, g1)
            else if \<not> six_digits digits then (op_failure OE_InvalidCode, g1)
            else (case on_machine (begin_bound_session (pn_peer s) (as_peer_fingerprint a) session
                     (pn_expires_at s) (Some digits)) g1 of (begun, g2) \<Rightarrow>
              if begun \<noteq> PairErr_None then (result_from_state begun, g2)
              else (case on_machine (mark_transport_ready session) g2 of (ready, g3) \<Rightarrow>
              if ready \<noteq> PairErr_None then (result_from_state ready, g3)
              else (case on_machine (mark_transcript_exchanged session) g3 of (exchanged, g4) \<Rightarrow>
              if exchanged \<noteq> PairErr_None then (result_from_state exchanged, g4)
              else (case on_machine (submit_displayed_sas session digits) g4 of (submitted, g5) \<Rightarrow>
              if submitted \<noteq> PairErr_None then (result_from_state submitted, g5)
              else (case send_message qp env
                       (PM_Submission \<lparr>pc_session_id = session, pc_sender = mg_local g5,
                          pc_six_digit_sas = digits\<rparr>) g5 of (sent, g6) \<Rightarrow>
              if or_error sent \<noteq> OE_None then fail_state (or_error sent) PFR_TransportFailed g6
              else (op_ok, g6))))))
        | _ \<Rightarrow> (op_failure OE_InvalidState, g1)) g)"

definition manager_cancel ::
  "qt_pairing \<Rightarrow> manager_env \<Rightarrow> uuid \<Rightarrow> pairing_manager \<Rightarrow> operation_result \<times> pairing_manager" where
  "manager_cancel qp env session g =
     (case mg_active g of
        None \<Rightarrow> (op_failure OE_SessionNotFound, g)
      | Some a \<Rightarrow>
          if as_wire_session_id a \<noteq> session then (op_failure OE_SessionNotFound, g)
          else (case manager_expire g of (expired, g1) \<Rightarrow>
            if expired then (op_failure OE_Expired, g1)
            else (case send_message qp env (PM_Result \<lparr>px_session_id = session, px_accepted = False,
                     px_failure_reason = PFR_Cancelled, px_diagnostic = []\<rparr>) g1 of (sent, g2) \<Rightarrow>
              (case mg_manual g2 of
                 Some s \<Rightarrow>
                   (sent, g2\<lparr>mg_manual := Some (s\<lparr>pn_state := PS_Rejected, pn_failure_reason := PFR_Cancelled\<rparr>)\<rparr>)
               | None \<Rightarrow>
                   (case on_machine (cancel_pairing session) g2 of (cancelled, g3) \<Rightarrow>
                      if cancelled \<noteq> PairErr_None then (result_from_state cancelled, g3) else (sent, g3))))))"

definition manager_revoke ::
  "qt_pairing \<Rightarrow> manager_env \<Rightarrow> uuid \<Rightarrow> pairing_manager \<Rightarrow> operation_result \<times> pairing_manager" where
  "manager_revoke qp env device g =
     (case store_revoke device (mg_store g) of
        (False, _) \<Rightarrow> (op_failure OE_RevokeFailed, g)
      | (True, staged) \<Rightarrow>
          (case store_save (qp_trust qp) (mv_save env) (mv_save_backup env) staged (mg_disk g) of (r, dk) \<Rightarrow>
             if \<not> so_ok r then (op_failure OE_PersistenceFailed, g\<lparr>mg_disk := dk\<rparr>)
             else (op_ok, g\<lparr>mg_disk := dk, mg_store := staged\<rparr>)))"

section \<open>Received datagrams\<close>

definition snapshot_from_device_info :: "device_info \<Rightarrow> pairing_endpoint \<Rightarrow> device_snapshot" where
  "snapshot_from_device_info d source =
     \<lparr>sn_id = di_device_id d, sn_display_name = di_display_name d, sn_alias = [], sn_platform = di_platform d,
      sn_architecture = di_architecture d, sn_presence = DP_Pairing, sn_trusted = False,
      sn_auto_accept_files = False, sn_latency_ms = - 1, sn_addresses = [ep_address source],
      sn_capabilities = di_capabilities d, sn_pinned_fingerprint = [], sn_last_seen_utc = None\<rparr>"

definition handle_request ::
  "pairing_request \<Rightarrow> pairing_endpoint \<Rightarrow> pairing_manager \<Rightarrow> operation_result \<times> pairing_manager" where
  "handle_request q source g =
     (if di_device_id (pq_sender q) = di_device_id (mg_local g) \<or>
         length (di_certificate_fingerprint (pq_sender q)) \<noteq> 32
        then (op_failure OE_InvalidPeer, g)
      else if has_non_terminal_session g then
        (if (case mg_active g of None \<Rightarrow> False | Some a \<Rightarrow>
               as_role a = R_Incoming \<and> as_wire_session_id a = pq_session_id q \<and>
               as_peer_id a = di_device_id (pq_sender q) \<and> as_endpoint a = source)
           then (op_failure OE_DuplicateMessage, g)
         else (op_failure OE_ActiveSessionExists, g))
      else (case manager_now g of (now, g1) \<Rightarrow>
        if \<not> dt_valid now \<or> \<not> dt_less now (pq_expires_at q) \<or>
            dt_less (dt_add_secs now (po_validity_secs (pm_options (mg_machine g1)))) (pq_expires_at q)
          then (op_failure OE_Expired, g1)
        else (op_ok,
          g1\<lparr>mg_active := Some \<lparr>as_role = R_Incoming, as_wire_session_id = pq_session_id q,
                as_peer_id = di_device_id (pq_sender q),
                as_peer_fingerprint = di_certificate_fingerprint (pq_sender q), as_endpoint = source,
                as_local_confirmed = False, as_remote_code_matched = False\<rparr>,
             mg_manual := Some \<lparr>pn_session_id = pq_session_id q,
                pn_peer = snapshot_from_device_info (pq_sender q) source,
                pn_state = PS_AwaitingUserComparison, pn_sas = [], pn_expires_at = pq_expires_at q,
                pn_attempts = po_attempts (pm_options (mg_machine g1)), pn_failure_reason = PFR_None\<rparr>\<rparr>)))"

definition handle_submission ::
  "qt_pairing \<Rightarrow> manager_env \<Rightarrow> pairing_code_submission \<Rightarrow> pairing_endpoint \<Rightarrow> pairing_manager \<Rightarrow>
     operation_result \<times> pairing_manager" where
  "handle_submission qp env c source g =
     (if or_error (validate_bound_message (pc_session_id c) source R_Outgoing g) \<noteq> OE_None
        then (validate_bound_message (pc_session_id c) source R_Outgoing g, g)
      else case mg_active g of None \<Rightarrow> (op_failure OE_SessionNotFound, g) | Some a \<Rightarrow>
      if di_device_id (pc_sender c) \<noteq> as_peer_id a \<or>
          di_certificate_fingerprint (pc_sender c) \<noteq> as_peer_fingerprint a
        then (op_failure OE_PeerMismatch, g)
      else (case manager_expire g of (expired, g1) \<Rightarrow>
        if expired then (op_failure OE_Expired, g1)
        else case pm_snapshot (mg_machine g1) of
          None \<Rightarrow> (op_failure OE_DuplicateMessage, g1)
        | Some s \<Rightarrow>
            if pn_state s \<noteq> PS_AwaitingUserComparison then (op_failure OE_DuplicateMessage, g1)
            else (case on_machine (submit_displayed_sas (pc_session_id c) (pc_six_digit_sas c)) g1 of
              (compared, g2) \<Rightarrow>
                if compared \<noteq> PairErr_None then
                  (let reason = (if compared = PairErr_AttemptsExhausted then PFR_TooManyAttempts
                                 else PFR_CodeMismatch);
                       g3 = (if compared \<noteq> PairErr_AttemptsExhausted
                             then snd (on_machine (reject_pairing (pc_session_id c) reason) g2) else g2)
                   in case send_message qp env (PM_Result \<lparr>px_session_id = pc_session_id c, px_accepted = False,
                          px_failure_reason = reason, px_diagnostic = []\<rparr>) g3 of (sent, g4) \<Rightarrow>
                        if or_error sent \<noteq> OE_None then (sent, g4)
                        else (op_ok\<lparr>or_error := OE_InvalidCode, or_state_error := compared\<rparr>, g4))
                else
                  (let g3 = g2\<lparr>mg_active := Some (a\<lparr>as_remote_code_matched := True\<rparr>)\<rparr> in
                   if as_local_confirmed a then finalize_outgoing qp env g3 else (op_ok, g3)))))"

definition handle_result ::
  "qt_pairing \<Rightarrow> manager_env \<Rightarrow> pairing_result_message \<Rightarrow> pairing_endpoint \<Rightarrow> pairing_manager \<Rightarrow>
     operation_result \<times> pairing_manager" where
  "handle_result qp env x source g =
     (if or_error (validate_bound_message (px_session_id x) source R_Incoming g) \<noteq> OE_None
        then (validate_bound_message (px_session_id x) source R_Incoming g, g)
      else (case manager_expire g of (expired, g1) \<Rightarrow>
        if expired then (op_failure OE_Expired, g1)
        else case (px_accepted x, mg_manual g1) of
          (False, Some s) \<Rightarrow>
            (op_ok, g1\<lparr>mg_manual := Some (s\<lparr>pn_state := PS_Rejected, pn_failure_reason := px_failure_reason x\<rparr>)\<rparr>)
        | _ \<Rightarrow>
            (case pm_snapshot (mg_machine g1) of
               None \<Rightarrow> (op_failure OE_DuplicateMessage, g1)
             | Some s \<Rightarrow>
                 if pn_state s \<noteq> PS_Confirming then (op_failure OE_DuplicateMessage, g1)
                 else if \<not> px_accepted x
                   then fail_state (operation_error_for (px_failure_reason x)) (px_failure_reason x) g1
                 else (case commit_trust qp env (px_session_id x) no_selection g1 of
                   (e, g2) \<Rightarrow> (result_from_trust e, g2)))))"

definition decode_datagram :: "qt_pairing \<Rightarrow> bytes \<Rightarrow> pairing_message_error + pairing_message" where
  "decode_datagram qp bs =
     decode_pairing_message (qr_text (qp_trust qp)) (qp_cbor qp) (qp_from_msecs qp) bs"

definition receive_datagram ::
  "qt_pairing \<Rightarrow> manager_env \<Rightarrow> bytes \<Rightarrow> pairing_endpoint \<Rightarrow> pairing_manager \<Rightarrow>
     operation_result \<times> pairing_manager" where
  "receive_datagram qp env bs source g =
     (if \<not> is_usable_endpoint qp source then (op_failure OE_InvalidEndpoint, g)
      else case decode_datagram qp bs of
        Inl e \<Rightarrow> (op_ok\<lparr>or_error := OE_DecodeFailed, or_message_error := e\<rparr>, g)
      | Inr m \<Rightarrow>
          (let g1 = snd (manager_expire g) in
           case m of
             PM_Request q \<Rightarrow> handle_request q source g1
           | PM_Submission c \<Rightarrow> handle_submission qp env c source g1
           | PM_Result x \<Rightarrow> handle_result qp env x source g1))"

section \<open>Events\<close>

datatype manager_event =
    MG_Start device_snapshot bytes pairing_endpoint manager_env
  | MG_Datagram bytes pairing_endpoint manager_env
  | MG_Confirm uuid manager_env
  | MG_Submit uuid qstring manager_env
  | MG_Cancel uuid manager_env
  | MG_Revoke uuid manager_env
  | MG_Expire

fun manager_apply ::
  "qt_pairing \<Rightarrow> pairing_manager \<Rightarrow> manager_event \<Rightarrow> operation_result \<times> pairing_manager" where
  "manager_apply qp g (MG_Start peer f endpoint env) = start_pairing qp env peer f endpoint g"
| "manager_apply qp g (MG_Datagram bs source env) = receive_datagram qp env bs source g"
| "manager_apply qp g (MG_Confirm session env) = manager_confirm qp env session g"
| "manager_apply qp g (MG_Submit session digits env) = manager_submit qp env session digits g"
| "manager_apply qp g (MG_Cancel session env) = manager_cancel qp env session g"
| "manager_apply qp g (MG_Revoke device env) = manager_revoke qp env device g"
| "manager_apply qp g MG_Expire = (op_ok, snd (manager_expire g))"

definition manager_step :: "qt_pairing \<Rightarrow> pairing_manager \<Rightarrow> manager_event \<Rightarrow> pairing_manager" where
  "manager_step qp g e = snd (manager_apply qp g e)"

definition new_manager ::
  "device_info \<Rightarrow> device_store \<Rightarrow> disk \<Rightarrow> bool \<Rightarrow> pairing_machine \<Rightarrow> pairing_manager" where
  "new_manager own st dk sender m =
     \<lparr>mg_local = own, mg_store = st, mg_disk = dk, mg_has_sender = sender, mg_machine = m,
      mg_active = None, mg_manual = None, mg_sent = []\<rparr>"

end
