(* ===== verification/PairingTrust.thy ===== *)
theory PairingTrust
  imports PairingManager
begin

text \<open>
  What pairing guarantees: a peer certificate becomes trusted only in a session that this user and
  the remote side both confirmed. The proof follows the facts a run accumulates (the request, the
  confirmations, the trusted pairs) back to the events that contributed them.
\<close>

section \<open>The live session\<close>

text \<open>Session id, peer id, peer fingerprint and displayed code of the session that has not ended.\<close>

definition live :: "pairing_machine \<Rightarrow> (uuid \<times> uuid \<times> bytes \<times> qstring) option" where
  "live m =
     (case pm_snapshot m of
        None \<Rightarrow> None
      | Some s \<Rightarrow>
          if is_terminal_pairing (pn_state s) then None
          else Some (pn_session_id s, sn_id (pn_peer s), pm_peer_fingerprint m, pn_sas s))"

definition keeps_live :: "pairing_machine \<Rightarrow> pairing_machine \<Rightarrow> bool" where
  "keeps_live m m' \<longleftrightarrow> live m' = None \<or> live m' = live m"

lemma keeps_live_refl [simp]: "keeps_live m m"
  by (simp add: keeps_live_def)

lemma keeps_live_trans: "keeps_live m m' \<Longrightarrow> keeps_live m' m'' \<Longrightarrow> keeps_live m m''"
  by (auto simp: keeps_live_def)

lemma keeps_live_same:
  "pm_snapshot m' = pm_snapshot m \<Longrightarrow> pm_peer_fingerprint m' = pm_peer_fingerprint m \<Longrightarrow> keeps_live m m'"
  by (simp add: keeps_live_def live_def split: option.splits)

lemma keeps_live_publish:
  "pm_snapshot m = Some s \<Longrightarrow> pn_session_id t = pn_session_id s \<Longrightarrow> pn_peer t = pn_peer s \<Longrightarrow>
    pn_sas t = pn_sas s \<Longrightarrow> (is_terminal_pairing (pn_state s) \<longrightarrow> is_terminal_pairing (pn_state t)) \<Longrightarrow>
    keeps_live m (publish t m)"
  by (auto simp: keeps_live_def live_def publish_def)

lemma keeps_live_expire: "keeps_live m (snd (expire_if_needed m))"
proof (cases "pm_snapshot m")
  case (Some s)
  then show ?thesis
    by (auto simp: expire_if_needed_def read_clock_def keeps_live_def live_def publish_def)
qed (simp add: expire_if_needed_def)

lemma keeps_live_prepare: "keeps_live m (snd (prepare_action session m))"
  using keeps_live_expire [of m]
  by (auto simp: prepare_action_def split: option.splits prod.splits bool.splits)

lemma keeps_live_session:
  assumes "\<And>s m1. pm_snapshot m1 = Some s \<Longrightarrow> keeps_live m1 (snd (act s m1))"
  shows "keeps_live m (snd (with_session session act m))"
  using keeps_live_prepare [of m session] assms
  by (auto simp: with_session_def split: option.splits prod.splits intro: keeps_live_trans)

lemma keeps_live_transition:
  "\<not> is_terminal_pairing required \<Longrightarrow> keeps_live m (snd (transition session required target m))"
  unfolding transition_def by (rule keeps_live_session) (auto intro!: keeps_live_publish)

lemma keeps_live_submit: "keeps_live m (snd (submit_displayed_sas session digits m))"
  unfolding submit_displayed_sas_def by (rule keeps_live_session) (auto intro!: keeps_live_publish)

lemma keeps_live_end:
  "is_terminal_pairing target \<Longrightarrow> keeps_live m (snd (end_pairing target session r m))"
  unfolding end_pairing_def by (rule keeps_live_session) (auto intro!: keeps_live_publish)

lemmas keeps_live_ops = keeps_live_expire keeps_live_submit
  keeps_live_transition [of PS_Requesting _ _ PS_ExchangingTranscript, folded mark_transport_ready_def, simplified]
  keeps_live_transition [of PS_ExchangingTranscript _ _ PS_AwaitingUserComparison,
    folded mark_transcript_exchanged_def, simplified]
  keeps_live_transition [of PS_Confirming _ _ PS_Completed, folded complete_pairing_def, simplified]
  keeps_live_end [of PS_Rejected, folded reject_pairing_def, simplified]
  keeps_live_end [of PS_Failed, folded fail_pairing_def, simplified]

lemma keeps_live_cancel: "keeps_live m (snd (cancel_pairing session m))"
  by (simp add: cancel_pairing_def keeps_live_ops)

text \<open>Signals are only appended; a begun session is live and has been signalled.\<close>

lemma expire_signals: "\<exists>xs. pm_signals (snd (expire_if_needed m)) = pm_signals m @ xs"
  by (auto simp: expire_if_needed_def read_clock_def publish_def split: option.splits)

lemma begin_session_cases:
  assumes "begin_session peer f session expires received m = (e, m')"
  shows "e \<noteq> PairErr_None \<and> keeps_live m m' \<or>
    e = PairErr_None \<and> length (pm_signals m') \<noteq> length (pm_signals m) \<and>
      (\<exists>s. pm_snapshot m' = Some s \<and> pn_session_id s = session \<and> pn_peer s = peer \<and>
        live m' = Some (session, sn_id peer, f, pn_sas s))"
proof -
  let ?start = "snd (expire_if_needed m)"
  obtain xs where xs: "pm_signals ?start = pm_signals m @ xs"
    using expire_signals by blast
  obtain sas m1 where Pair: "session_sas received ?start = (sas, m1)" by (cases "session_sas received ?start")
  note ss = session_sas_cases [OF Pair]
  obtain now m2 where clk: "read_clock m1 = (now, m2)" by (cases "read_clock m1")
  then have m2: "pm_signals m2 = pm_signals m1" "pm_snapshot m2 = pm_snapshot m1"
      "pm_peer_fingerprint m2 = pm_peer_fingerprint m1"
    by (auto simp: read_clock_def)
  have "keeps_live ?start m1" "keeps_live ?start m2"
    using ss m2 by (simp_all add: keeps_live_same)
  then have k: "keeps_live m ?start" "keeps_live m m1" "keeps_live m m2"
    by (simp_all add: keeps_live_expire keeps_live_trans [OF keeps_live_expire [of m]])
  let ?busy = "case pm_snapshot ?start of None \<Rightarrow> False | Some s \<Rightarrow> \<not> is_terminal_pairing (pn_state s)"
  show ?thesis
  proof (cases "?busy \<or> length f \<noteq> 32 \<or> po_validity_secs (pm_options ?start) \<le> 0 \<or>
      po_attempts (pm_options ?start) \<le> 0")
    case True
    then have "e \<noteq> PairErr_None \<and> m' = ?start"
      using assms by (auto simp: begin_session_def Let_def split: if_splits)
    then show ?thesis using k by simp
  next
    case False
    show ?thesis
    proof (cases sas)
      case None
      then have "e \<noteq> PairErr_None \<and> m' = m1"
        using assms False Pair by (simp add: begin_session_def Let_def)
      then show ?thesis using k by simp
    next
      case (Some code)
      then show ?thesis
        using assms False Pair clk k ss m2 xs
        by (auto simp: begin_session_def Let_def live_def publish_def split: if_splits)
    qed
  qed
qed

lemma begin_pairing_cases:
  assumes "begin_pairing peer f received m = (e, m')"
  shows "e \<noteq> PairErr_None \<and> keeps_live m m' \<or>
    e = PairErr_None \<and> length (pm_signals m') \<noteq> length (pm_signals m) \<and>
      (\<exists>s. pm_snapshot m' = Some s \<and> pn_peer s = peer \<and>
        live m' = Some (pn_session_id s, sn_id peer, f, pn_sas s))"
proof -
  have same: "keeps_live m (snd (create_uuid (snd (read_clock m))))"
      "pm_signals (snd (create_uuid (snd (read_clock m)))) = pm_signals m"
    by (simp_all add: keeps_live_same create_uuid_def read_clock_def)
  show ?thesis
    using assms same
    by (auto simp: begin_pairing_def split: prod.splits dest!: begin_session_cases intro: keeps_live_trans)
qed

section \<open>The session binding\<close>

definition session_ids :: "active_session \<Rightarrow> uuid \<times> uuid \<times> bytes" where
  "session_ids a = (as_wire_session_id a, as_peer_id a, as_peer_fingerprint a)"

definition live_ids :: "pairing_manager \<Rightarrow> (uuid \<times> uuid \<times> bytes) option" where
  "live_ids g = map_option (\<lambda>(session, d, f, _). (session, d, f)) (live (mg_machine g))"

definition manual_ids :: "pairing_manager \<Rightarrow> (uuid \<times> uuid) option" where
  "manual_ids g = map_option (\<lambda>s. (pn_session_id s, sn_id (pn_peer s))) (mg_manual g)"

text \<open>A session that has not ended is the active one, and so is a displayed incoming request; only an
  outgoing session collects confirmations.\<close>

definition manager_inv :: "pairing_manager \<Rightarrow> bool" where
  "manager_inv g \<longleftrightarrow>
     (\<forall>x. live_ids g = Some x \<longrightarrow> manual_ids g = None \<and> map_option session_ids (mg_active g) = Some x) \<and>
     (\<forall>p. manual_ids g = Some p \<longrightarrow> (\<exists>a. mg_active g = Some a \<and> as_role a = R_Incoming \<and>
        (as_wire_session_id a, as_peer_id a) = p)) \<and>
     (\<forall>a. mg_active g = Some a \<longrightarrow> as_local_confirmed a \<or> as_remote_code_matched a \<longrightarrow>
        as_role a = R_Outgoing)"

definition trusted_pairs :: "pairing_manager \<Rightarrow> (uuid \<times> bytes) set" where
  "trusted_pairs g = {(d, f). pinning_verify (mg_store g) d f = PPE_None}"

text \<open>Part of an operation that leaves the active session alone and trusts at most \<open>X\<close>.\<close>

definition quiet :: "(uuid \<times> bytes) set \<Rightarrow> pairing_manager \<Rightarrow> pairing_manager \<Rightarrow> bool" where
  "quiet X g g' \<longleftrightarrow>
     mg_active g' = mg_active g \<and> mg_local g' = mg_local g \<and> keeps_live (mg_machine g) (mg_machine g') \<and>
     trusted_pairs g' \<subseteq> trusted_pairs g \<union> X \<and> (manual_ids g' = None \<or> manual_ids g' = manual_ids g)"

lemma quiet_refl [simp]: "quiet X g g"
  by (simp add: quiet_def)

lemma quiet_trans: "quiet X g g' \<Longrightarrow> quiet X g' g'' \<Longrightarrow> quiet X g g''"
  unfolding quiet_def by (fastforce intro: keeps_live_trans)

lemma quiet_mono: "quiet {} g g' \<Longrightarrow> quiet X g g'"
  by (auto simp: quiet_def)

lemma quiet_live_ids: "quiet X g g' \<Longrightarrow> live_ids g' = Some x \<Longrightarrow> live_ids g = Some x"
  by (auto simp: quiet_def keeps_live_def live_ids_def)

lemma quiet_inv:
  assumes "quiet X g g'" and "manager_inv g"
  shows "manager_inv g'"
proof -
  have m: "manual_ids g' = None \<or> manual_ids g' = manual_ids g" and a: "mg_active g' = mg_active g"
    using assms(1) by (simp_all add: quiet_def)
  have live: "manual_ids g = None \<and> map_option session_ids (mg_active g) = Some x" if "live_ids g' = Some x" for x
    using quiet_live_ids [OF assms(1) that] assms(2) unfolding manager_inv_def by blast
  have manual: "manual_ids g = Some q" if "manual_ids g' = Some q" for q
    using m that by auto
  show ?thesis
    unfolding manager_inv_def a
  proof (intro conjI allI impI)
    fix x assume "live_ids g' = Some x"
    from live [OF this] show "manual_ids g' = None" "map_option session_ids (mg_active g) = Some x"
      using m by auto
  next
    fix q assume "manual_ids g' = Some q"
    from manual [OF this] show "\<exists>a. mg_active g = Some a \<and> as_role a = R_Incoming \<and>
        (as_wire_session_id a, as_peer_id a) = q"
      using assms(2) unfolding manager_inv_def by blast
  next
    fix b assume "mg_active g = Some b" and "as_local_confirmed b \<or> as_remote_code_matched b"
    then show "as_role b = R_Outgoing"
      using assms(2) unfolding manager_inv_def by blast
  qed
qed

lemma quiet_on_machine:
  assumes "\<And>m. keeps_live m (snd (act m))"
  shows "quiet {} g (snd (on_machine act g))"
  using assms [of "mg_machine g"]
  by (cases "act (mg_machine g)") (simp add: quiet_def on_machine_def trusted_pairs_def manual_ids_def)

lemma quiet_expire: "quiet {} g (snd (manager_expire g))"
proof (cases "mg_manual g")
  case None
  then show ?thesis
    by (simp add: manager_expire_def quiet_on_machine keeps_live_expire)
next
  case (Some s)
  obtain now m where c: "read_clock (mg_machine g) = (now, m)" by (cases "read_clock (mg_machine g)")
  then have "keeps_live (mg_machine g) m"
    by (intro keeps_live_same) (auto simp: read_clock_def)
  then show ?thesis
    using Some by (simp add: manager_expire_def manager_now_def quiet_def trusted_pairs_def manual_ids_def c)
qed

lemma quiet_send: "quiet {} g (snd (send_message qp env m g))"
  by (simp add: send_message_def Let_def quiet_def trusted_pairs_def manual_ids_def split: option.splits)

lemma quiet_fail_state: "quiet {} g (snd (fail_state e reason g))"
  by (auto simp: fail_state_def keeps_live_ops split: option.splits intro!: quiet_on_machine)

section \<open>Commits\<close>

lemma pinning_none_iff:
  "pinning_verify st d f = PPE_None \<longleftrightarrow>
    (\<exists>x. store_find st d = Some x \<and> \<not> td_revoked x \<and> length f = 32 \<and> f = td_fingerprint_sha256 x)"
  by (auto simp: pinning_verify_def trust_status_of_def kSha256FingerprintBytes_def split: option.splits)

text \<open>The pair a commit of this session may add.\<close>

definition committed_pair :: "uuid \<Rightarrow> pairing_manager \<Rightarrow> (uuid \<times> bytes) set" where
  "committed_pair session g =
     (case live_ids g of None \<Rightarrow> {} | Some (sid, d, f) \<Rightarrow> if sid = session then {(d, f)} else {})"

lemma trusted_upsert:
  assumes "store_upsert qr d st = (True, st')"
  shows "pinning_verify st' k f = PPE_None \<Longrightarrow>
    pinning_verify st k f = PPE_None \<or> k = td_device_id d \<and> f = td_fingerprint_sha256 d"
  using find_upsert [OF assms] validate_and_normalize_id
  by (fastforce simp: pinning_none_iff split: if_splits)

lemma quiet_staged:
  assumes "\<And>k f. pinning_verify st k f = PPE_None \<Longrightarrow> (k, f) \<in> trusted_pairs g \<union> X"
  shows "quiet X g (g\<lparr>mg_disk := dk, mg_store := st\<rparr>)"
  using assms by (auto simp: quiet_def trusted_pairs_def manual_ids_def)

lemma quiet_disk: "quiet X g (g\<lparr>mg_disk := dk\<rparr>)"
  by (simp add: quiet_def trusted_pairs_def manual_ids_def)

lemma quiet_restore:
  "quiet X g g' \<Longrightarrow> quiet {} g (g'\<lparr>mg_store := mg_store g, mg_disk := dk\<rparr>)"
  by (simp add: quiet_def trusted_pairs_def manual_ids_def)

lemma quiet_commit: "quiet (committed_pair session g) g (snd (commit_trust qp env session selection g))"
proof (cases "pm_snapshot (mg_machine g)")
  case None
  then show ?thesis by (simp add: commit_trust_def)
next
  case (Some s)
  show ?thesis
  proof (cases "pn_session_id s = session \<and> pn_state s = PS_Confirming \<and>
      \<not> (uuid_null (sn_id (pn_peer s)) \<or> qt_trimmed (qr_text (qp_trust qp)) (sn_platform (pn_peer s)) = [])")
    case False
    then show ?thesis
      using Some by (auto simp: commit_trust_def split: option.splits)
  next
    case True
    let ?f = "pm_peer_fingerprint (mg_machine g)"
    let ?d = "trust_record qp (mg_store g) s ?f selection"
    have pending: "pending_fingerprint (mg_machine g) session = Some ?f"
      using Some True by (simp add: pending_fingerprint_def session_fingerprint_def)
    have pair: "committed_pair session g = {(sn_id (pn_peer s), ?f)}"
      using Some True by (simp add: committed_pair_def live_ids_def live_def)
    obtain ok staged where up: "store_upsert (qp_trust qp) ?d (mg_store g) = (ok, staged)"
      by (cases "store_upsert (qp_trust qp) ?d (mg_store g)")
    show ?thesis
    proof (cases ok)
      case False
      then show ?thesis using Some True pending up by (simp add: commit_trust_def)
    next
      case ok: True
      then have upserted: "store_upsert (qp_trust qp) ?d (mg_store g) = (True, staged)"
        using up by simp
      obtain r dk where sv: "store_save (qp_trust qp) (mv_save env) (mv_save_backup env) staged (mg_disk g) = (r, dk)"
        by (cases "store_save (qp_trust qp) (mv_save env) (mv_save_backup env) staged (mg_disk g)")
      let ?g1 = "g\<lparr>mg_disk := dk, mg_store := staged\<rparr>"
      have staged: "quiet (committed_pair session g) g ?g1"
        using trusted_upsert [OF upserted]
        by (intro quiet_staged) (auto simp: pair trust_record_def trusted_pairs_def)
      have done': "quiet (committed_pair session g) g (snd (on_machine (complete_pairing session) ?g1))"
        by (rule quiet_trans [OF staged quiet_mono [OF quiet_on_machine]]) (rule keeps_live_ops)
      have failed: "quiet (committed_pair session g) g
          (snd (on_machine (fail_pairing session PFR_TrustStoreWriteFailed) (g\<lparr>mg_disk := d\<rparr>)))" for d
        by (rule quiet_trans [OF quiet_disk quiet_mono [OF quiet_on_machine]]) (rule keeps_live_ops)
      show ?thesis
        using Some True pending upserted sv done' failed quiet_mono [OF quiet_restore [OF done']]
        by (cases "on_machine (complete_pairing session) ?g1") (auto simp: commit_trust_def)
    qed
  qed
qed

lemma committed_pair_quiet: "quiet X g g' \<Longrightarrow> committed_pair session g' \<subseteq> committed_pair session g"
  by (auto simp: committed_pair_def dest: quiet_live_ids split: option.splits if_splits)

text \<open>The outgoing commit: both confirmations are in the active session, which is the live one.\<close>

definition both_confirmed :: "pairing_manager \<Rightarrow> (uuid \<times> bytes) set" where
  "both_confirmed g =
     {(as_peer_id a, as_peer_fingerprint a) |a. mg_active g = Some a \<and> as_role a = R_Outgoing \<and>
        as_local_confirmed a \<and> as_remote_code_matched a}"

lemma live_of_confirming:
  "pm_snapshot (mg_machine g) = Some s \<Longrightarrow> pn_state s = PS_Confirming \<Longrightarrow>
    live_ids g = Some (pn_session_id s, sn_id (pn_peer s), pm_peer_fingerprint (mg_machine g))"
  by (simp add: live_ids_def live_def)

lemma quiet_weaken: "quiet X g g' \<Longrightarrow> X \<subseteq> Y \<Longrightarrow> quiet Y g g'"
  by (auto simp: quiet_def)

lemma quiet_finalize:
  assumes "manager_inv g"
  shows "quiet (both_confirmed g) g (snd (finalize_outgoing qp env g))"
proof (cases "pm_snapshot (mg_machine g)")
  case None
  then show ?thesis by (simp add: finalize_outgoing_def)
next
  case s: (Some s)
  show ?thesis
  proof (cases "mg_active g")
    case None
    with s show ?thesis by (simp add: finalize_outgoing_def)
  next
    case a: (Some a)
    show ?thesis
    proof (cases "pn_state s = PS_Confirming \<and> as_local_confirmed a \<and> as_remote_code_matched a")
      case False
      then show ?thesis using s a by (auto simp: finalize_outgoing_def)
    next
      case True
      then have "session_ids a = (pn_session_id s, sn_id (pn_peer s), pm_peer_fingerprint (mg_machine g))"
        using assms a live_of_confirming [OF s] unfolding manager_inv_def by auto
      moreover have "as_role a = R_Outgoing"
        using assms a True unfolding manager_inv_def by blast
      ultimately have "committed_pair (pn_session_id s) g \<subseteq> both_confirmed g"
        using a True live_of_confirming [OF s] by (auto simp: committed_pair_def both_confirmed_def session_ids_def)
      then have c: "quiet (both_confirmed g) g (snd (commit_trust qp env (pn_session_id s) no_selection g))"
        by (rule quiet_weaken [OF quiet_commit])
      show ?thesis
        using s a True quiet_trans [OF c quiet_mono [OF quiet_send]]
        by (cases "commit_trust qp env (pn_session_id s) no_selection g") (auto simp: finalize_outgoing_def)
    qed
  qed
qed

section \<open>The protocol of the manager\<close>

text \<open>
  One event is a sequence of these moves. Everything but the named moves is quiet: it changes
  neither the active session nor what is trusted.
\<close>

inductive trust_move :: "qt_pairing \<Rightarrow> manager_event \<Rightarrow> pairing_manager \<Rightarrow> pairing_manager \<Rightarrow> bool"
  for qp e where
  calm: "quiet {} g g' \<Longrightarrow> trust_move qp e g g'"
| opened: "e = MG_Start peer f endpoint env \<Longrightarrow> mg_active g' = Some a \<Longrightarrow> as_role a = R_Outgoing \<Longrightarrow>
    \<not> as_local_confirmed a \<Longrightarrow> \<not> as_remote_code_matched a \<Longrightarrow> live_ids g' = Some (session_ids a) \<Longrightarrow>
    manual_ids g' = None \<Longrightarrow> trusted_pairs g' \<subseteq> trusted_pairs g \<Longrightarrow> trust_move qp e g g'"
| requested: "e = MG_Datagram bs source env \<Longrightarrow> decode_datagram qp bs = Inr (PM_Request q) \<Longrightarrow>
    mg_active g' = Some a \<Longrightarrow> as_role a = R_Incoming \<Longrightarrow> \<not> as_local_confirmed a \<Longrightarrow>
    \<not> as_remote_code_matched a \<Longrightarrow>
    session_ids a = (pq_session_id q, di_device_id (pq_sender q), di_certificate_fingerprint (pq_sender q)) \<Longrightarrow>
    live_ids g' = None \<Longrightarrow> manual_ids g' = Some (as_wire_session_id a, as_peer_id a) \<Longrightarrow>
    trusted_pairs g' \<subseteq> trusted_pairs g \<Longrightarrow> trust_move qp e g g'"
| confirmed: "e = MG_Confirm session env \<Longrightarrow> mg_active g = Some a \<Longrightarrow> as_role a = R_Outgoing \<Longrightarrow>
    as_wire_session_id a = session \<Longrightarrow>
    trust_move qp e g (g\<lparr>mg_active := Some (a\<lparr>as_local_confirmed := True\<rparr>)\<rparr>)"
| matched: "e = MG_Datagram bs source env \<Longrightarrow> decode_datagram qp bs = Inr (PM_Submission c) \<Longrightarrow>
    mg_active g = Some a \<Longrightarrow> as_role a = R_Outgoing \<Longrightarrow> as_endpoint a = source \<Longrightarrow>
    session_ids a = (pc_session_id c, di_device_id (pc_sender c), di_certificate_fingerprint (pc_sender c)) \<Longrightarrow>
    live (mg_machine g) = Some (pc_session_id c, di_device_id (pc_sender c),
      di_certificate_fingerprint (pc_sender c), pc_six_digit_sas c) \<Longrightarrow>
    trust_move qp e g (g\<lparr>mg_active := Some (a\<lparr>as_remote_code_matched := True\<rparr>)\<rparr>)"
| entered: "e = MG_Submit session digits env \<Longrightarrow> mg_active g = Some a \<Longrightarrow> as_role a = R_Incoming \<Longrightarrow>
    as_wire_session_id a = session \<Longrightarrow> mg_active g' = mg_active g \<Longrightarrow>
    live_ids g' = Some (session_ids a) \<Longrightarrow> manual_ids g' = None \<Longrightarrow> trusted_pairs g' \<subseteq> trusted_pairs g \<Longrightarrow>
    trust_move qp e g g'"
| sealed_out: "quiet (both_confirmed g) g g' \<Longrightarrow> trust_move qp e g g'"
| sealed_in: "e = MG_Datagram bs source env \<Longrightarrow> decode_datagram qp bs = Inr (PM_Result x) \<Longrightarrow>
    px_accepted x \<Longrightarrow> mg_active g = Some a \<Longrightarrow> as_role a = R_Incoming \<Longrightarrow>
    as_wire_session_id a = px_session_id x \<Longrightarrow>
    quiet (committed_pair (px_session_id x) g) g g' \<Longrightarrow> trust_move qp e g g'"

abbreviation moves :: "qt_pairing \<Rightarrow> manager_event \<Rightarrow> pairing_manager \<Rightarrow> pairing_manager \<Rightarrow> bool" where
  "moves qp e \<equiv> (trust_move qp e)\<^sup>*\<^sup>*"

lemma moves_calm: "quiet {} g g' \<Longrightarrow> moves qp e g g'"
  by (blast intro: trust_move.calm)

lemma moves_then: "moves qp e g g1 \<Longrightarrow> trust_move qp e g1 g2 \<Longrightarrow> moves qp e g g2"
  by (rule rtranclp.rtrancl_into_rtrancl)

lemma inv_set_flag:
  assumes "manager_inv g" and "mg_active g = Some a" and "as_role b = R_Outgoing" and "as_role a = R_Outgoing"
    and "session_ids b = session_ids a"
  shows "manager_inv (g\<lparr>mg_active := Some b\<rparr>)"
proof -
  have "live_ids (g\<lparr>mg_active := Some b\<rparr>) = live_ids g" "manual_ids (g\<lparr>mg_active := Some b\<rparr>) = manual_ids g"
    by (simp_all add: live_ids_def manual_ids_def)
  then show ?thesis
    using assms unfolding manager_inv_def by auto
qed

lemma move_inv: "trust_move qp e g g' \<Longrightarrow> manager_inv g \<Longrightarrow> manager_inv g'"
proof (induction rule: trust_move.induct)
  case (calm g g')
  then show ?case by (blast intro: quiet_inv)
next
  case (opened peer f endpoint env g' a g)
  then show ?case by (auto simp: manager_inv_def)
next
  case (requested bs source env q g' a g)
  then show ?case by (auto simp: manager_inv_def)
next
  case (confirmed session env g a)
  then show ?case by (auto intro!: inv_set_flag simp: session_ids_def)
next
  case (matched bs source env c g a)
  then show ?case by (auto intro!: inv_set_flag simp: session_ids_def)
next
  case (entered session digits env g a g')
  then show ?case by (auto simp: manager_inv_def)
next
  case (sealed_out g g')
  then show ?case by (blast intro: quiet_inv)
next
  case (sealed_in bs source env x g a g')
  then show ?case by (blast intro: quiet_inv)
qed

lemma moves_inv: "moves qp e g g' \<Longrightarrow> manager_inv g \<Longrightarrow> manager_inv g'"
  by (induction rule: rtranclp_induct) (auto intro: move_inv)

section \<open>The operations follow the protocol\<close>

lemma quiet_revoke: "quiet {} g (snd (manager_revoke qp env d g))"
proof (cases "store_revoke d (mg_store g)")
  case (Pair ok staged)
  have "pinning_verify (snd (store_revoke d (mg_store g))) k f = PPE_None \<Longrightarrow>
      pinning_verify (mg_store g) k f = PPE_None" for k f
    by (auto simp: pinning_none_iff find_revoke split: if_splits)
  then show ?thesis
    using Pair by (cases ok) (auto simp: manager_revoke_def quiet_disk split: prod.splits
        intro!: quiet_staged simp: trusted_pairs_def)
qed

lemma quiet_cancel: "quiet {} g (snd (manager_cancel qp env session g))"
proof (cases "mg_active g")
  case None
  then show ?thesis by (simp add: manager_cancel_def)
next
  case (Some a)
  obtain expired g1 where e: "manager_expire g = (expired, g1)" by (cases "manager_expire g")
  define m where "m = PM_Result \<lparr>px_session_id = session, px_accepted = False,
    px_failure_reason = PFR_Cancelled, px_diagnostic = []\<rparr>"
  obtain sent g2 where s: "send_message qp env m g1 = (sent, g2)" by (cases "send_message qp env m g1")
  have q1: "quiet {} g g1" and q2: "quiet {} g1 g2"
    using quiet_expire [of g] quiet_send [of g1 qp env m] by (simp_all add: e s)
  have q3: "quiet {} g2 (snd (on_machine (cancel_pairing session) g2))"
    by (rule quiet_on_machine) (rule keeps_live_cancel)
  have q4: "quiet {} g2 (g2\<lparr>mg_manual := Some (t\<lparr>pn_state := PS_Rejected, pn_failure_reason := PFR_Cancelled\<rparr>)\<rparr>)"
    if "mg_manual g2 = Some t" for t
    using that by (simp add: quiet_def manual_ids_def trusted_pairs_def)
  show ?thesis
    using Some e s q1 quiet_trans [OF q1 q2] quiet_trans [OF quiet_trans [OF q1 q2] q3]
      quiet_trans [OF quiet_trans [OF q1 q2] q4]
    by (auto simp: manager_cancel_def m_def [symmetric] split: option.splits prod.splits)
qed

lemma quiet_unless_expired:
  assumes "\<And>g1. quiet {} g g1 \<Longrightarrow> manager_expire g = (False, g1) \<Longrightarrow> moves qp e g1 (snd (act g1))"
  shows "moves qp e g (snd (unless_expired act g))"
proof -
  obtain expired g1 where x: "manager_expire g = (expired, g1)" by (cases "manager_expire g")
  then have q: "quiet {} g g1" using quiet_expire [of g] by simp
  show ?thesis
    using x assms [OF q] moves_calm [OF q, of qp e]
    by (cases expired) (auto simp: unless_expired_def split: option.splits intro: rtranclp_trans)
qed

lemma bound_message_ok:
  assumes "or_error (validate_bound_message session source role g) = OE_None"
  obtains a where "mg_active g = Some a" and "as_wire_session_id a = session" and "as_role a = role"
    and "as_endpoint a = source"
  using assms by (auto simp: validate_bound_message_def op_failure_def op_ok_def split: option.splits if_splits)

lemma moves_finalize:
  "manager_inv g \<Longrightarrow> moves qp e g (snd (finalize_outgoing qp env g))"
  by (blast intro: trust_move.sealed_out quiet_finalize)

lemma moves_confirm:
  assumes "manager_inv g"
  shows "moves qp (MG_Confirm session env) g (snd (manager_confirm qp env session g))"
proof (cases "or_error (validate_local session R_Outgoing g) = OE_None")
  case False
  then show ?thesis by (simp add: manager_confirm_def)
next
  case True
  obtain a where a: "mg_active g = Some a" "as_wire_session_id a = session" "as_role a = R_Outgoing"
    using True unfolding validate_local_def by (rule bound_message_ok)
  have nn: "\<not> or_error (validate_local session R_Outgoing g) \<noteq> OE_None" using True by simp
  show ?thesis
    unfolding manager_confirm_def if_not_P [OF nn]
  proof (rule quiet_unless_expired)
    fix g1 assume q: "quiet {} g g1"
    then have a1: "mg_active g1 = Some a" and i1: "manager_inv g1"
      using a assms by (auto simp: quiet_def intro: quiet_inv [OF q])
    let ?g2 = "g1\<lparr>mg_active := Some (a\<lparr>as_local_confirmed := True\<rparr>)\<rparr>"
    have m: "trust_move qp (MG_Confirm session env) g1 ?g2"
      using a a1 by (intro trust_move.confirmed) auto
    have f: "moves qp (MG_Confirm session env) ?g2 (snd (finalize_outgoing qp env ?g2))"
      using move_inv [OF m i1] by (rule moves_finalize)
    show "moves qp (MG_Confirm session env) g1
        (snd (case (pm_snapshot (mg_machine g1), mg_active g1) of
          (Some s, Some a) \<Rightarrow>
            if pn_state s \<noteq> PS_AwaitingUserComparison \<and> pn_state s \<noteq> PS_Confirming
              then (op_failure OE_InvalidState, g1)
            else if as_local_confirmed a then (op_failure OE_DuplicateMessage, g1)
            else (let g2 = g1\<lparr>mg_active := Some (a\<lparr>as_local_confirmed := True\<rparr>)\<rparr> in
              if as_remote_code_matched a then finalize_outgoing qp env g2 else (op_ok, g2))
        | _ \<Rightarrow> (op_failure OE_InvalidState, g1)))"
      using a1 m f converse_rtranclp_into_rtranclp [OF m f] by (auto simp: Let_def split: option.splits)
  qed
qed

text \<open>A successful comparison: the code submitted is the one displayed.\<close>

lemma submit_ok_live:
  assumes "submit_displayed_sas session digits m = (PairErr_None, m')"
  shows "\<exists>d f. live m' = Some (session, d, f, digits) \<and> live m = Some (session, d, f, digits)"
proof -
  obtain m1 s where p: "prepare_action session m = (PairErr_None, m1)" "pm_snapshot m1 = Some s"
    using assms prepare_action_cases [of session m]
    by (cases "prepare_action session m") (auto simp: submit_displayed_sas_def with_session_def
        split: if_splits option.splits)
  with prepare_action_cases [OF p(1)] have s: "pm_snapshot m = Some s" "pn_session_id s = session"
      "pm_peer_fingerprint m1 = pm_peer_fingerprint m"
    by auto
  then show ?thesis
    using assms p by (auto simp: submit_displayed_sas_def with_session_def publish_def live_def
        split: if_splits)
qed

lemma moves_submission:
  assumes "manager_inv g" and "decode_datagram qp bs = Inr (PM_Submission c)"
  shows "moves qp (MG_Datagram bs source env) g (snd (handle_submission qp env c source g))"
proof (cases "or_error (validate_bound_message (pc_session_id c) source R_Outgoing g) = OE_None")
  case False
  then show ?thesis by (simp add: handle_submission_def)
next
  case bound: True
  let ?e = "MG_Datagram bs source env"
  obtain a where a: "mg_active g = Some a" "as_wire_session_id a = pc_session_id c" "as_role a = R_Outgoing"
      "as_endpoint a = source"
    using bound by (rule bound_message_ok)
  show ?thesis
  proof (cases "di_device_id (pc_sender c) = as_peer_id a \<and>
      di_certificate_fingerprint (pc_sender c) = as_peer_fingerprint a")
    case False
    then show ?thesis using bound a by (auto simp: handle_submission_def)
  next
    case ids: True
    obtain expired g1 where x: "manager_expire g = (expired, g1)" by (cases "manager_expire g")
    then have q: "quiet {} g g1" using quiet_expire [of g] by simp
    obtain compared g2 where sub:
        "on_machine (submit_displayed_sas (pc_session_id c) (pc_six_digit_sas c)) g1 = (compared, g2)"
      by (cases "on_machine (submit_displayed_sas (pc_session_id c) (pc_six_digit_sas c)) g1")
    have "quiet {} g1 (snd (on_machine (submit_displayed_sas (pc_session_id c) (pc_six_digit_sas c)) g1))"
      by (rule quiet_on_machine) (rule keeps_live_submit)
    then have q2: "quiet {} g g2"
      unfolding sub snd_conv by (rule quiet_trans [OF q])
    define reason where "reason = (if compared = PairErr_AttemptsExhausted then PFR_TooManyAttempts
      else PFR_CodeMismatch)"
    define g3 where "g3 = (if compared \<noteq> PairErr_AttemptsExhausted
      then snd (on_machine (reject_pairing (pc_session_id c) reason) g2) else g2)"
    have "quiet {} g2 (snd (on_machine (reject_pairing (pc_session_id c) reason) g2))"
      by (rule quiet_on_machine) (rule keeps_live_ops)
    then have q3: "quiet {} g g3"
      using q2 by (auto simp: g3_def intro: quiet_trans)
    define rm where "rm = PM_Result \<lparr>px_session_id = pc_session_id c, px_accepted = False,
      px_failure_reason = reason, px_diagnostic = []\<rparr>"
    obtain sent g4 where send: "send_message qp env rm g3 = (sent, g4)" by (cases "send_message qp env rm g3")
    have q4: "quiet {} g g4"
      using quiet_trans [OF q3 quiet_send [of g3 qp env rm]] unfolding send snd_conv .
    let ?m = "g2\<lparr>mg_active := Some (a\<lparr>as_remote_code_matched := True\<rparr>)\<rparr>"
    have good: "moves qp ?e g ?m \<and> moves qp ?e g (snd (finalize_outgoing qp env ?m))"
      if ok: "compared = PairErr_None"
    proof -
      have a2: "mg_active g2 = Some a" using q2 a by (simp add: quiet_def)
      have i2: "manager_inv g2" using quiet_inv [OF q2 assms(1)] .
      obtain d f where l: "live (mg_machine g2) = Some (pc_session_id c, d, f, pc_six_digit_sas c)"
        using sub ok by (auto simp: on_machine_def split: prod.splits dest!: submit_ok_live)
      then have "session_ids a = (pc_session_id c, d, f)"
        using i2 a2 unfolding manager_inv_def by (auto simp: live_ids_def)
      then have m: "trust_move qp ?e g2 ?m"
        using a a2 ids l assms(2) by (intro trust_move.matched) (auto simp: session_ids_def)
      have gm: "moves qp ?e g ?m"
        by (rule moves_then [OF moves_calm [OF q2] m])
      show ?thesis
        using gm rtranclp_trans [OF gm moves_finalize [OF move_inv [OF m i2]]] by blast
    qed
    show ?thesis
      using bound a ids x sub good moves_calm [OF q, of qp ?e] moves_calm [OF q4, of qp ?e] send
      by (auto simp: handle_submission_def Let_def reason_def [symmetric] g3_def [symmetric] rm_def [symmetric]
          split: option.splits if_splits)
  qed
qed

lemma moves_request:
  assumes "decode_datagram qp bs = Inr (PM_Request q)" and "manager_inv g"
  shows "moves qp (MG_Datagram bs source env) g (snd (handle_request q source g))"
proof -
  obtain now m where c: "read_clock (mg_machine g) = (now, m)" by (cases "read_clock (mg_machine g)")
  then have same: "pm_snapshot m = pm_snapshot (mg_machine g)"
      "pm_peer_fingerprint m = pm_peer_fingerprint (mg_machine g)"
    by (auto simp: read_clock_def)
  have calm: "quiet {} g (g\<lparr>mg_machine := m\<rparr>)"
    using same by (simp add: quiet_def trusted_pairs_def manual_ids_def keeps_live_same)
  have dead: "live_ids (g\<lparr>mg_machine := m\<rparr>) = None" if "\<not> has_non_terminal_session g"
  proof (rule ccontr)
    assume "live_ids (g\<lparr>mg_machine := m\<rparr>) \<noteq> None"
    then obtain y where "live_ids g = Some y"
      using same by (auto simp: live_ids_def live_def split: option.splits if_splits)
    then have "mg_manual g = None" "live (mg_machine g) \<noteq> None"
      using assms(2) by (auto simp: manager_inv_def manual_ids_def live_ids_def)
    with that show False
      by (auto simp: has_non_terminal_session_def manager_snapshot_def live_def split: option.splits if_splits)
  qed
  show ?thesis
    using moves_calm [OF calm, of qp "MG_Datagram bs source env"] dead
    by (auto simp: handle_request_def manager_now_def c intro!: r_into_rtranclp trust_move.requested [OF refl assms(1)]
        simp: session_ids_def manual_ids_def snapshot_from_device_info_def trusted_pairs_def live_ids_def)
qed

lemma moves_result:
  assumes "manager_inv g" and "decode_datagram qp bs = Inr (PM_Result x)"
  shows "moves qp (MG_Datagram bs source env) g (snd (handle_result qp env x source g))"
proof (cases "or_error (validate_bound_message (px_session_id x) source R_Incoming g) = OE_None")
  case False
  then show ?thesis by (simp add: handle_result_def)
next
  case bound: True
  let ?e = "MG_Datagram bs source env"
  obtain a where a: "mg_active g = Some a" "as_wire_session_id a = px_session_id x" "as_role a = R_Incoming"
    using bound by (rule bound_message_ok)
  obtain expired g1 where xp: "manager_expire g = (expired, g1)" by (cases "manager_expire g")
  then have q: "quiet {} g g1" using quiet_expire [of g] by simp
  then have a1: "mg_active g1 = Some a" using a by (simp add: quiet_def)
  have manual: "quiet {} g (g1\<lparr>mg_manual := Some (t\<lparr>pn_state := PS_Rejected, pn_failure_reason := r\<rparr>)\<rparr>)"
    if "mg_manual g1 = Some t" for t r
    using q that by (auto simp: quiet_def manual_ids_def trusted_pairs_def)
  have failed: "quiet {} g (snd (fail_state er r g1))" for er r
    by (rule quiet_trans [OF q quiet_fail_state])
  have commit: "moves qp ?e g (snd (commit_trust qp env (px_session_id x) no_selection g1))" if "px_accepted x"
    using a a1 that assms(2)
    by (intro moves_then [OF moves_calm [OF q]] trust_move.sealed_in [OF refl assms(2)] quiet_commit) auto
  show ?thesis
    using bound xp moves_calm [OF q, of qp ?e] moves_calm [OF manual, of _ qp ?e]
      moves_calm [OF failed, of qp ?e] commit
    by (cases "px_accepted x"; cases "mg_manual g1")
      (auto simp: handle_result_def split: option.splits prod.splits)
qed

lemma quiet_ready: "quiet {} g (snd (on_machine (mark_transport_ready session) g))"
  by (rule quiet_on_machine) (rule keeps_live_ops)

lemma quiet_exchanged: "quiet {} g (snd (on_machine (mark_transcript_exchanged session) g))"
  by (rule quiet_on_machine) (rule keeps_live_ops)

lemma quiet_submitted: "quiet {} g (snd (on_machine (submit_displayed_sas session digits) g))"
  by (rule quiet_on_machine) (rule keeps_live_ops)

text \<open>Beginning a session in the machine either fails quietly or makes it the live one.\<close>

lemma on_machine_begin:
  assumes "on_machine act g = (e, g1)"
    and "\<And>m e m'. act m = (e, m') \<Longrightarrow> e \<noteq> PairErr_None \<and> keeps_live m m' \<or>
      e = PairErr_None \<and> length (pm_signals m') \<noteq> length (pm_signals m) \<and>
      (\<exists>s. pm_snapshot m' = Some s \<and> pn_peer s = peer \<and> P (pn_session_id s) \<and>
        live m' = Some (pn_session_id s, sn_id peer, f, pn_sas s))"
  shows "e \<noteq> PairErr_None \<and> quiet {} g g1 \<or>
    e = PairErr_None \<and> mg_active g1 = mg_active g \<and> mg_local g1 = mg_local g \<and> manual_ids g1 = None \<and>
      trusted_pairs g1 = trusted_pairs g \<and>
      (\<exists>s. pm_snapshot (mg_machine g1) = Some s \<and> pn_peer s = peer \<and> P (pn_session_id s) \<and>
        live_ids g1 = Some (pn_session_id s, sn_id peer, f))"
proof -
  obtain m' where m': "act (mg_machine g) = (e, m')"
    and g1: "g1 = g\<lparr>mg_machine := m', mg_manual := (if length (pm_signals m') \<noteq> length (pm_signals (mg_machine g))
      then None else mg_manual g)\<rparr>"
    using assms(1) by (auto simp: on_machine_def split: prod.splits)
  show ?thesis
    using assms(2) [OF m'] by (auto simp: g1 quiet_def manual_ids_def trusted_pairs_def live_ids_def)
qed

lemma moves_start:
  assumes "manager_inv g"
  shows "moves qp (MG_Start peer f endpoint env) g (snd (start_pairing qp env peer f endpoint g))"
proof -
  let ?e = "MG_Start peer f endpoint env"
  define p1 where "p1 = peer\<lparr>sn_presence := DP_Pairing\<rparr>"
  define p2 where "p2 = (if ep_address endpoint \<in> set (sn_addresses p1) then p1
    else p1\<lparr>sn_addresses := ep_address endpoint # sn_addresses p1\<rparr>)"
  obtain er g1 where b: "on_machine (begin_pairing p2 f None) g = (er, g1)"
    by (cases "on_machine (begin_pairing p2 f None) g")
  have cases: "er \<noteq> PairErr_None \<and> quiet {} g g1 \<or>
    er = PairErr_None \<and> mg_active g1 = mg_active g \<and> mg_local g1 = mg_local g \<and> manual_ids g1 = None \<and>
      trusted_pairs g1 = trusted_pairs g \<and>
      (\<exists>s. pm_snapshot (mg_machine g1) = Some s \<and> pn_peer s = p2 \<and> True \<and>
        live_ids g1 = Some (pn_session_id s, sn_id p2, f))"
    by (rule on_machine_begin [OF b]) (blast dest: begin_pairing_cases)
  show ?thesis
  proof (cases "er = PairErr_None")
    case False
    then have "moves qp ?e g g1" using cases by (blast intro: moves_calm)
    then show ?thesis
      using False b by (auto simp: start_pairing_def Let_def p1_def [symmetric] p2_def [symmetric])
  next
    case True
    then obtain s where s: "pm_snapshot (mg_machine g1) = Some s" "pn_peer s = p2"
        and l: "live_ids g1 = Some (pn_session_id s, sn_id p2, f)"
        and same: "manual_ids g1 = None" "trusted_pairs g1 = trusted_pairs g" "mg_local g1 = mg_local g"
      using cases by blast
    define a where "a = \<lparr>as_role = R_Outgoing, as_wire_session_id = pn_session_id s,
      as_peer_id = sn_id (pn_peer s), as_peer_fingerprint = f, as_endpoint = endpoint,
      as_local_confirmed = False, as_remote_code_matched = False\<rparr>"
    let ?g = "g1\<lparr>mg_active := Some a\<rparr>"
    define rm where "rm = PM_Request \<lparr>pq_session_id = pn_session_id s, pq_sender = mg_local g1,
      pq_expires_at = pn_expires_at s\<rparr>"
    obtain sent g2 where send: "send_message qp env rm ?g = (sent, g2)" by (cases "send_message qp env rm ?g")
    obtain ready g3 where rd: "on_machine (mark_transport_ready (pn_session_id s)) g2 = (ready, g3)"
      by (cases "on_machine (mark_transport_ready (pn_session_id s)) g2")
    obtain ex g4 where xc: "on_machine (mark_transcript_exchanged (pn_session_id s)) g3 = (ex, g4)"
      by (cases "on_machine (mark_transcript_exchanged (pn_session_id s)) g3")
    have "trust_move qp ?e g ?g"
      using l s same by (intro trust_move.opened [OF refl, of _ a])
        (auto simp: a_def session_ids_def live_ids_def manual_ids_def trusted_pairs_def)
    moreover have q2: "quiet {} ?g g2"
      using quiet_send [of ?g qp env rm] unfolding send snd_conv .
    moreover have q3: "quiet {} ?g g3"
      using quiet_trans [OF q2 quiet_ready [of g2 "pn_session_id s"]] unfolding rd snd_conv .
    moreover have "quiet {} ?g g4"
      using quiet_trans [OF q3 quiet_exchanged [of g3 "pn_session_id s"]] unfolding xc snd_conv .
    moreover have "quiet {} ?g (snd (fail_state er' r g2))" for er' r
      by (rule quiet_trans [OF q2 quiet_fail_state])
    ultimately have "moves qp ?e g g2" "moves qp ?e g g3" "moves qp ?e g g4"
        "moves qp ?e g (snd (fail_state er' r g2))" for er' r
      by (blast intro: converse_rtranclp_into_rtranclp moves_calm)+
    then show ?thesis
      using True b s send rd xc
      by (auto simp: start_pairing_def Let_def p1_def [symmetric] p2_def [symmetric] a_def [symmetric]
          rm_def [symmetric])
  qed
qed

lemma moves_submit:
  assumes "manager_inv g"
  shows "moves qp (MG_Submit session digits env) g (snd (manager_submit qp env session digits g))"
proof (cases "or_error (validate_local session R_Incoming g) = OE_None")
  case False
  then show ?thesis by (simp add: manager_submit_def)
next
  case True
  let ?e = "MG_Submit session digits env"
  obtain a where a: "mg_active g = Some a" "as_wire_session_id a = session" "as_role a = R_Incoming"
    using True unfolding validate_local_def by (rule bound_message_ok)
  have nn: "\<not> or_error (validate_local session R_Incoming g) \<noteq> OE_None" using True by simp
  show ?thesis
    unfolding manager_submit_def if_not_P [OF nn]
  proof (rule quiet_unless_expired, goal_cases)
    case (1 g1)
    then have a1: "mg_active g1 = Some a" using a by (simp add: quiet_def)
    have i1: "manager_inv g1" using quiet_inv [OF 1(1) assms] .
    show ?case
    proof (cases "mg_manual g1")
      case None
      then show ?thesis by simp
    next
      case (Some s)
      obtain er g2 where b: "on_machine (begin_bound_session (pn_peer s) (as_peer_fingerprint a) session
          (pn_expires_at s) (Some digits)) g1 = (er, g2)"
        by (cases "on_machine (begin_bound_session (pn_peer s) (as_peer_fingerprint a) session
          (pn_expires_at s) (Some digits)) g1")
      have cases: "er \<noteq> PairErr_None \<and> quiet {} g1 g2 \<or>
        er = PairErr_None \<and> mg_active g2 = mg_active g1 \<and> mg_local g2 = mg_local g1 \<and> manual_ids g2 = None \<and>
        trusted_pairs g2 = trusted_pairs g1 \<and>
        (\<exists>t. pm_snapshot (mg_machine g2) = Some t \<and> pn_peer t = pn_peer s \<and> pn_session_id t = session \<and>
          live_ids g2 = Some (pn_session_id t, sn_id (pn_peer s), as_peer_fingerprint a))"
        by (rule on_machine_begin [OF b]) (auto simp: begin_bound_session_def dest!: begin_session_cases)
      show ?thesis
      proof (cases "er = PairErr_None")
        case False
        then have "moves qp ?e g1 g2" using cases by (blast intro: moves_calm)
        then show ?thesis using False Some a1 b by auto
      next
        case ok: True
        obtain ready g3 where rd: "on_machine (mark_transport_ready session) g2 = (ready, g3)"
          by (cases "on_machine (mark_transport_ready session) g2")
        obtain ex g4 where xc: "on_machine (mark_transcript_exchanged session) g3 = (ex, g4)"
          by (cases "on_machine (mark_transcript_exchanged session) g3")
        obtain sb g5 where sb: "on_machine (submit_displayed_sas session digits) g4 = (sb, g5)"
          by (cases "on_machine (submit_displayed_sas session digits) g4")
        define rm where "rm = PM_Submission \<lparr>pc_session_id = session, pc_sender = mg_local g5,
          pc_six_digit_sas = digits\<rparr>"
        obtain sent g6 where send: "send_message qp env rm g5 = (sent, g6)" by (cases "send_message qp env rm g5")
        have "as_peer_id a = sn_id (pn_peer s)"
          using i1 a1 Some unfolding manager_inv_def manual_ids_def by auto
        then have "trust_move qp ?e g1 g2"
          using cases ok a a1 by (intro trust_move.entered [OF refl, of _ a]) (auto simp: session_ids_def)
        moreover have q3: "quiet {} g2 g3"
          using quiet_ready [of g2 session] unfolding rd snd_conv .
        moreover have q4: "quiet {} g2 g4"
          using quiet_trans [OF q3 quiet_exchanged [of g3 session]] unfolding xc snd_conv .
        moreover have q5: "quiet {} g2 g5"
          using quiet_trans [OF q4 quiet_submitted [of g4 session digits]] unfolding sb snd_conv .
        moreover have q6: "quiet {} g2 g6"
          using quiet_trans [OF q5 quiet_send [of g5 qp env rm]] unfolding send snd_conv .
        moreover have "quiet {} g2 (snd (fail_state er' r g6))" for er' r
          by (rule quiet_trans [OF q6 quiet_fail_state])
        ultimately have "moves qp ?e g1 g3" "moves qp ?e g1 g4" "moves qp ?e g1 g5" "moves qp ?e g1 g6"
            "moves qp ?e g1 (snd (fail_state er' r g6))" for er' r
          by (blast intro: converse_rtranclp_into_rtranclp moves_calm)+
        then show ?thesis
          using ok Some a1 b rd xc sb send by (auto simp: rm_def [symmetric])
      qed
    qed
  qed
qed

lemma moves_datagram:
  assumes "manager_inv g"
  shows "moves qp (MG_Datagram bs source env) g (snd (receive_datagram qp env bs source g))"
proof -
  let ?g = "snd (manager_expire g)"
  have q: "moves qp (MG_Datagram bs source env) g ?g" and i: "manager_inv ?g"
    using quiet_expire [of g] assms by (blast intro: moves_calm quiet_inv)+
  show ?thesis
  proof (cases "decode_datagram qp bs")
    case (Inl e)
    then show ?thesis by (simp add: receive_datagram_def)
  next
    case (Inr m)
    then show ?thesis
      using moves_request [OF _ i] moves_submission [OF i] moves_result [OF i] q
      by (cases m) (auto simp: receive_datagram_def Let_def intro: rtranclp_trans)
  qed
qed

lemma moves_step: "manager_inv g \<Longrightarrow> moves qp e g (manager_step qp g e)"
  by (cases e) (simp_all add: manager_step_def moves_start moves_datagram moves_confirm moves_submit
      moves_calm quiet_cancel quiet_revoke quiet_expire)

section \<open>What a run has collected\<close>

definition collected :: "(active_session \<Rightarrow> bool) \<Rightarrow> pairing_manager \<Rightarrow> (uuid \<times> uuid \<times> bytes) set" where
  "collected p g = {session_ids a |a. mg_active g = Some a \<and> p a}"

abbreviation incoming_requests :: "pairing_manager \<Rightarrow> (uuid \<times> uuid \<times> bytes) set" where
  "incoming_requests \<equiv> collected (\<lambda>a. as_role a = R_Incoming)"

abbreviation local_confirmations :: "pairing_manager \<Rightarrow> (uuid \<times> uuid \<times> bytes) set" where
  "local_confirmations \<equiv> collected as_local_confirmed"

abbreviation code_matches :: "pairing_manager \<Rightarrow> (uuid \<times> uuid \<times> bytes) set" where
  "code_matches \<equiv> collected as_remote_code_matched"

definition entered_codes :: "pairing_manager \<Rightarrow> (uuid \<times> uuid \<times> bytes) set" where
  "entered_codes g = {x \<in> incoming_requests g. live_ids g = Some x}"

text \<open>What one event contributes to each of them.\<close>

definition gives_request :: "qt_pairing \<Rightarrow> pairing_manager \<Rightarrow> manager_event \<Rightarrow> (uuid \<times> uuid \<times> bytes) set" where
  "gives_request qp g e =
     {(pq_session_id q, di_device_id (pq_sender q), di_certificate_fingerprint (pq_sender q)) |bs source env q.
        e = MG_Datagram bs source env \<and> decode_datagram qp bs = Inr (PM_Request q)}"

definition gives_confirmation :: "pairing_manager \<Rightarrow> manager_event \<Rightarrow> (uuid \<times> uuid \<times> bytes) set" where
  "gives_confirmation g e = {(session, d, f) |session d f env. e = MG_Confirm session env}"

definition gives_match :: "qt_pairing \<Rightarrow> pairing_manager \<Rightarrow> manager_event \<Rightarrow> (uuid \<times> uuid \<times> bytes) set" where
  "gives_match qp g e =
     {(pc_session_id c, di_device_id (pc_sender c), di_certificate_fingerprint (pc_sender c)) |bs source env c.
        e = MG_Datagram bs source env \<and> decode_datagram qp bs = Inr (PM_Submission c) \<and>
        live (mg_machine g) = Some (pc_session_id c, di_device_id (pc_sender c),
          di_certificate_fingerprint (pc_sender c), pc_six_digit_sas c)}"

definition gives_code :: "pairing_manager \<Rightarrow> manager_event \<Rightarrow> (uuid \<times> uuid \<times> bytes) set" where
  "gives_code g e = {(session, d, f) |session d f digits env. e = MG_Submit session digits env}"

definition accepted_by :: "qt_pairing \<Rightarrow> manager_event \<Rightarrow> uuid \<Rightarrow> bool" where
  "accepted_by qp e session \<longleftrightarrow>
     (\<exists>bs source env x. e = MG_Datagram bs source env \<and> decode_datagram qp bs = Inr (PM_Result x) \<and>
        px_accepted x \<and> px_session_id x = session)"

lemma quiet_collected: "quiet X g g' \<Longrightarrow> collected p g' = collected p g"
  by (simp add: quiet_def collected_def)

lemma quiet_entered: "quiet X g g' \<Longrightarrow> entered_codes g' \<subseteq> entered_codes g"
  by (auto simp: entered_codes_def quiet_collected dest: quiet_live_ids)

lemma moves_request_facts: "moves qp e g h \<Longrightarrow> incoming_requests h \<subseteq> incoming_requests g \<union> gives_request qp g e"
proof (induction rule: rtranclp_induct)
  case (step h k)
  from step(2) have "incoming_requests k \<subseteq> incoming_requests h \<union> gives_request qp g e"
    by (induction rule: trust_move.induct)
      (auto simp: quiet_collected, auto simp: collected_def gives_request_def session_ids_def)
  with step(3) show ?case by blast
qed simp

lemma moves_confirmation_facts: "moves qp e g h \<Longrightarrow>
    local_confirmations h \<subseteq> local_confirmations g \<union> gives_confirmation g e"
proof (induction rule: rtranclp_induct)
  case (step h k)
  from step(2) have "local_confirmations k \<subseteq> local_confirmations h \<union> gives_confirmation g e"
    by (induction rule: trust_move.induct)
      (auto simp: quiet_collected, auto simp: collected_def gives_confirmation_def session_ids_def)
  with step(3) show ?case by blast
qed simp

lemma datagram_keeps_live:
  assumes "moves qp (MG_Datagram bs source env) g h" and "live (mg_machine h) = Some x"
  shows "live (mg_machine g) = Some x"
proof -
  have "keeps_live (mg_machine g) (mg_machine h)"
    using assms(1)
  proof (induction rule: rtranclp_induct)
    case (step h k)
    from step(2) have "keeps_live (mg_machine h) (mg_machine k)"
      by (cases rule: trust_move.cases) (auto simp: quiet_def live_ids_def keeps_live_def)
    with step(3) show ?case by (rule keeps_live_trans)
  qed simp
  with assms(2) show ?thesis by (auto simp: keeps_live_def)
qed

lemma moves_match_facts: "moves qp e g h \<Longrightarrow> code_matches h \<subseteq> code_matches g \<union> gives_match qp g e"
proof (induction rule: rtranclp_induct)
  case (step h k)
  from step(2) have "code_matches k \<subseteq> code_matches h \<union> gives_match qp g e"
  proof (cases rule: trust_move.cases)
    case (matched bs source env c a)
    have "moves qp (MG_Datagram bs source env) g h" using step(1) matched(2) by simp
    then have "live (mg_machine g) = live (mg_machine h)"
      using datagram_keeps_live matched by simp
    then show ?thesis
      using matched by (auto simp: collected_def gives_match_def session_ids_def)
  qed (auto simp: quiet_collected, auto simp: collected_def session_ids_def)
  with step(3) show ?case by blast
qed simp

lemma moves_code_facts: "moves qp e g h \<Longrightarrow> entered_codes h \<subseteq> entered_codes g \<union> gives_code g e"
proof (induction rule: rtranclp_induct)
  case (step h k)
  from step(2) have "entered_codes k \<subseteq> entered_codes h \<union> gives_code g e"
  proof (cases rule: trust_move.cases)
    case (entered session digits env a)
    then show ?thesis by (auto simp: entered_codes_def collected_def gives_code_def session_ids_def)
  qed (auto dest: quiet_entered, auto simp: entered_codes_def collected_def live_ids_def)
  with step(3) show ?case by blast
qed simp

text \<open>A pair is trusted by a move that finds both confirmations, or an entered code and the peer's
  acceptance.\<close>

definition gives_trust :: "qt_pairing \<Rightarrow> pairing_manager \<Rightarrow> manager_event \<Rightarrow> (uuid \<times> bytes) set" where
  "gives_trust qp g e =
     {(d, f) |d f h session. moves qp e g h \<and>
        ((session, d, f) \<in> local_confirmations h \<and> (session, d, f) \<in> code_matches h \<or>
         (session, d, f) \<in> entered_codes h \<and> accepted_by qp e session)}"

lemma moves_trust_facts:
  assumes "moves qp e g h" and "manager_inv g"
  shows "trusted_pairs h \<subseteq> trusted_pairs g \<union> gives_trust qp g e"
  using assms(1)
proof (induction rule: rtranclp_induct)
  case (step h k)
  have inv: "manager_inv h" using moves_inv [OF step(1) assms(2)] .
  from step(2) have "trusted_pairs k \<subseteq> trusted_pairs h \<union> gives_trust qp g e"
  proof (cases rule: trust_move.cases)
    case sealed_out
    have "both_confirmed h \<subseteq> gives_trust qp g e"
      using step(1) by (force simp: both_confirmed_def gives_trust_def collected_def session_ids_def)
    with sealed_out show ?thesis by (auto simp: quiet_def)
  next
    case (sealed_in bs source env x a)
    have "committed_pair (px_session_id x) h \<subseteq> gives_trust qp g e"
    proof
      fix y assume "y \<in> committed_pair (px_session_id x) h"
      then obtain d f where y: "y = (d, f)" and l: "live_ids h = Some (px_session_id x, d, f)"
        by (auto simp: committed_pair_def split: option.splits if_splits)
      then have "session_ids a = (px_session_id x, d, f)"
        using inv sealed_in(4) unfolding manager_inv_def by auto
      then have "(px_session_id x, d, f) \<in> entered_codes h"
        using sealed_in(4,5) l unfolding entered_codes_def collected_def by force
      moreover have "accepted_by qp e (px_session_id x)"
        using sealed_in(1-3) by (auto simp: accepted_by_def)
      ultimately show "y \<in> gives_trust qp g e"
        using step(1) y by (auto simp: gives_trust_def)
    qed
    with sealed_in show ?thesis by (auto simp: quiet_def)
  qed (auto simp: quiet_def trusted_pairs_def)
  with step(3) show ?case by blast
qed simp

section \<open>Provenance\<close>

text \<open>Each collection is traced to its events by the same contract.\<close>

interpretation requests: provenance_machine "manager_step qp" manager_inv incoming_requests "gives_request qp"
  for qp
  by unfold_locales (blast intro: moves_inv moves_step, blast dest: moves_request_facts [OF moves_step])

interpretation confirmations: provenance_machine "manager_step qp" manager_inv local_confirmations
    gives_confirmation for qp
  by unfold_locales (blast dest: moves_confirmation_facts [OF moves_step])

interpretation matches: provenance_machine "manager_step qp" manager_inv code_matches "gives_match qp" for qp
  by unfold_locales (blast dest: moves_match_facts [OF moves_step])

interpretation codes: provenance_machine "manager_step qp" manager_inv entered_codes gives_code for qp
  by unfold_locales (blast dest: moves_code_facts [OF moves_step])

interpretation trust: provenance_machine "manager_step qp" manager_inv trusted_pairs "gives_trust qp" for qp
  by unfold_locales (blast dest: moves_trust_facts [OF moves_step])

text \<open>The start: nothing live, nothing active.\<close>

definition fresh_manager :: "pairing_manager \<Rightarrow> bool" where
  "fresh_manager g \<longleftrightarrow> mg_active g = None \<and> mg_manual g = None \<and> pm_snapshot (mg_machine g) = None"

lemma fresh_manager_inv: "fresh_manager g \<Longrightarrow> manager_inv g"
  by (simp add: fresh_manager_def manager_inv_def live_ids_def live_def manual_ids_def)

lemma fresh_collected: "fresh_manager g \<Longrightarrow> collected p g = {} \<and> entered_codes g = {}"
  by (auto simp: fresh_manager_def collected_def entered_codes_def)

text \<open>A fact found in the middle of an event stems from that event or an earlier one.\<close>

lemma traced:
  assumes "\<And>es. x \<in> facts (run (manager_step qp) g0 es) \<Longrightarrow>
      \<exists>before f after. es = before @ f # after \<and> x \<in> gives (run (manager_step qp) g0 before) f"
    and "moves qp e (run (manager_step qp) g0 before) h" and "x \<in> facts h"
    and "facts h \<subseteq> facts (run (manager_step qp) g0 before) \<union> gives (run (manager_step qp) g0 before) e"
  shows "\<exists>b f a. before @ e # after = b @ f # a \<and> x \<in> gives (run (manager_step qp) g0 b) f"
proof (cases "x \<in> facts (run (manager_step qp) g0 before)")
  case True
  from assms(1) [OF this] obtain b f a where "before = b @ f # a" "x \<in> gives (run (manager_step qp) g0 b) f"
    by blast
  then have "before @ e # after = b @ f # (a @ e # after) \<and> x \<in> gives (run (manager_step qp) g0 b) f" by simp
  then show ?thesis by blast
next
  case False
  then have "x \<in> gives (run (manager_step qp) g0 before) e" using assms(3,4) by blast
  then show ?thesis by blast
qed

text \<open>The two ways in which a session is confirmed by both sides.\<close>

definition outgoing_confirmed ::
  "qt_pairing \<Rightarrow> pairing_manager \<Rightarrow> manager_event list \<Rightarrow> uuid \<Rightarrow> uuid \<Rightarrow> bytes \<Rightarrow> bool" where
  "outgoing_confirmed qp g es session d f \<longleftrightarrow>
     (\<exists>env. MG_Confirm session env \<in> set es) \<and>
     (\<exists>before bs source env after c. es = before @ MG_Datagram bs source env # after \<and>
        decode_datagram qp bs = Inr (PM_Submission c) \<and> pc_session_id c = session \<and>
        di_device_id (pc_sender c) = d \<and> di_certificate_fingerprint (pc_sender c) = f \<and>
        live (mg_machine (run (manager_step qp) g before)) = Some (session, d, f, pc_six_digit_sas c))"

definition incoming_confirmed ::
  "qt_pairing \<Rightarrow> manager_event list \<Rightarrow> uuid \<Rightarrow> uuid \<Rightarrow> bytes \<Rightarrow> bool" where
  "incoming_confirmed qp es session d f \<longleftrightarrow>
     (\<exists>digits env. MG_Submit session digits env \<in> set es) \<and>
     (\<exists>bs source env q. MG_Datagram bs source env \<in> set es \<and> decode_datagram qp bs = Inr (PM_Request q) \<and>
        pq_session_id q = session \<and> di_device_id (pq_sender q) = d \<and>
        di_certificate_fingerprint (pq_sender q) = f) \<and>
     (\<exists>bs source env x. MG_Datagram bs source env \<in> set es \<and> decode_datagram qp bs = Inr (PM_Result x) \<and>
        px_session_id x = session \<and> px_accepted x)"

lemma trusted_is_confirmed:
  assumes "fresh_manager g" and "(d, f) \<in> trusted_pairs (run (manager_step qp) g es)"
    and "(d, f) \<notin> trusted_pairs g"
  shows "\<exists>session. outgoing_confirmed qp g es session d f \<or> incoming_confirmed qp es session d f"
proof -
  note inv = fresh_manager_inv [OF assms(1)] and none = fresh_collected [OF assms(1)]
  obtain before e after where es: "es = before @ e # after"
      and gv: "(d, f) \<in> gives_trust qp (run (manager_step qp) g before) e"
    using trust.origin [OF inv assms(2,3)] by blast
  then obtain h session where m: "moves qp e (run (manager_step qp) g before) h"
      and how: "(session, d, f) \<in> local_confirmations h \<and> (session, d, f) \<in> code_matches h \<or>
        (session, d, f) \<in> entered_codes h \<and> accepted_by qp e session"
    by (auto simp: gives_trust_def)
  note tr = traced [OF _ m, of "(session, d, f)" _ _ after, folded es]
  show ?thesis
  proof (cases "(session, d, f) \<in> local_confirmations h \<and> (session, d, f) \<in> code_matches h")
    case True
    have "\<exists>b k a. es = b @ k # a \<and> (session, d, f) \<in> gives_confirmation (run (manager_step qp) g b) k"
      using True confirmations.origin [OF inv, of "(session, d, f)" qp] none
      by (intro tr [of local_confirmations] moves_confirmation_facts [OF m]) auto
    then have "\<exists>env. MG_Confirm session env \<in> set es"
      by (auto simp: gives_confirmation_def)
    moreover have "\<exists>b k a. es = b @ k # a \<and> (session, d, f) \<in> gives_match qp (run (manager_step qp) g b) k"
      using True matches.origin [OF inv, of "(session, d, f)" qp] none
      by (intro tr [of code_matches] moves_match_facts [OF m]) auto
    then obtain b a bs source env c where "es = b @ MG_Datagram bs source env # a"
        "decode_datagram qp bs = Inr (PM_Submission c)" "pc_session_id c = session"
        "di_device_id (pc_sender c) = d" "di_certificate_fingerprint (pc_sender c) = f"
        "live (mg_machine (run (manager_step qp) g b)) = Some (session, d, f, pc_six_digit_sas c)"
      unfolding gives_match_def by clarsimp
    ultimately have "outgoing_confirmed qp g es session d f"
      unfolding outgoing_confirmed_def by blast
    then show ?thesis by blast
  next
    case False
    then have en: "(session, d, f) \<in> entered_codes h" and acc: "accepted_by qp e session" using how by auto
    then have rq: "(session, d, f) \<in> incoming_requests h" by (simp add: entered_codes_def)
    have "\<exists>b k a. es = b @ k # a \<and> (session, d, f) \<in> gives_code (run (manager_step qp) g b) k"
      using en codes.origin [OF inv, of "(session, d, f)" qp] none
      by (intro tr [of entered_codes] moves_code_facts [OF m]) auto
    then have "\<exists>digits env. MG_Submit session digits env \<in> set es"
      by (clarsimp simp: gives_code_def) blast
    moreover have "\<exists>b k a. es = b @ k # a \<and> (session, d, f) \<in> gives_request qp (run (manager_step qp) g b) k"
      using rq requests.origin [OF inv, of "(session, d, f)" qp] none
      by (intro tr [of incoming_requests] moves_request_facts [OF m]) auto
    then obtain b a bs source env q where "es = b @ MG_Datagram bs source env # a"
        "decode_datagram qp bs = Inr (PM_Request q)" "pq_session_id q = session"
        "di_device_id (pq_sender q) = d" "di_certificate_fingerprint (pq_sender q) = f"
      unfolding gives_request_def by clarsimp
    then have "\<exists>bs source env q. MG_Datagram bs source env \<in> set es \<and>
        decode_datagram qp bs = Inr (PM_Request q) \<and> pq_session_id q = session \<and>
        di_device_id (pq_sender q) = d \<and> di_certificate_fingerprint (pq_sender q) = f"
      by (metis in_set_conv_decomp)
    moreover have "e \<in> set es" by (simp add: es)
    then have "\<exists>bs source env x. MG_Datagram bs source env \<in> set es \<and>
        decode_datagram qp bs = Inr (PM_Result x) \<and> px_session_id x = session \<and> px_accepted x"
      using acc unfolding accepted_by_def by blast
    ultimately have "incoming_confirmed qp es session d f"
      unfolding incoming_confirmed_def by blast
    then show ?thesis by blast
  qed
qed

section \<open>Properties\<close>

text \<open>C3. Trust needs both sides: whatever local calls and datagrams (forged ones included) a fresh manager
  processes, if afterwards TLS pinning accepts a device with a certificate fingerprint that the
  initial store did not accept, then there is one session in which either the local user
  confirmed, and a datagram naming exactly this device and fingerprint submitted the code that
  was displayed when it arrived; or the local user typed a code for a request naming exactly this
  device and fingerprint, and a result datagram of the same session accepted it.\<close>

theorem trust_needs_both_sides:
  assumes "pinning_verify (mg_store (run (manager_step qp)
      (new_manager own st dk sender (new_pairing_machine options clock generator uuids)) es)) d f = PPE_None"
    and "pinning_verify st d f \<noteq> PPE_None"
  shows "\<exists>session.
    outgoing_confirmed qp (new_manager own st dk sender (new_pairing_machine options clock generator uuids)) es
      session d f \<or>
    incoming_confirmed qp es session d f"
  using assms trusted_is_confirmed
    [of "new_manager own st dk sender (new_pairing_machine options clock generator uuids)" d f qp es]
  by (simp add: fresh_manager_def trusted_pairs_def new_manager_def new_pairing_machine_def)

text \<open>A run: this device starts a pairing, the peer submits the displayed code, the user confirms.\<close>

definition sample_info :: device_info where
  "sample_info = \<lparr>di_device_id = 3, di_display_name = qstr ''me'', di_platform = qstr ''linux'',
     di_architecture = qstr ''x86'', di_app_version = qstr ''1'', di_input_port = 1, di_file_port = 2,
     di_capabilities = \<lparr>dc_input = True, dc_clipboard_text = True, dc_clipboard_image = False,
       dc_file_v1 = True, dc_folder_v1 = False, dc_resume_v1 = False\<rparr>,
     di_certificate_fingerprint = replicate 32 1\<rparr>"

definition sample_peer_info :: device_info where
  "sample_peer_info = sample_info\<lparr>di_device_id := 7, di_certificate_fingerprint := replicate 32 9\<rparr>"

definition sample_peer :: device_snapshot where
  "sample_peer = snapshot_from_device_info sample_peer_info \<lparr>ep_address = HA_IPv4 9, ep_port = 4\<rparr>"

definition sample_pairing_cbor :: qt_cbor where
  "sample_pairing_cbor = \<lparr>qc_to_cbor = (\<lambda>_. [1]),
     qc_from_cbor = (\<lambda>b.
       if b = [7] then \<lparr>cp_value = CMap (pairing_envelope PMT_CodeSubmission
           [(CInt 1, CBytes (uuid_to_bytes 5)), (CInt 2, CBytes [8]), (CInt 3, CString (qstr ''123456''))]),
         cp_no_error = True, cp_offset = 1\<rparr>
       else \<lparr>cp_value = CMap (device_info_fields sample_peer_info), cp_no_error = True, cp_offset = 1\<rparr>)\<rparr>"

definition sample_pairing :: qt_pairing where
  "sample_pairing = \<lparr>qp_trust = sample_layers JNull, qp_cbor = sample_pairing_cbor, qp_from_msecs = Some,
     qp_is_multicast = (\<lambda>_. False), qp_is_broadcast = (\<lambda>_. False), qp_host_string = (\<lambda>_. qstr ''10.0.0.7'')\<rparr>"

definition sample_manager :: pairing_manager where
  "sample_manager = new_manager sample_info (new_store (qstr ''/trust'')) (\<lambda>_. None) True
     (new_pairing_machine default_pairing_options (\<lambda>_. Some 1000) (\<lambda>_. 123456) (\<lambda>_. 5))"

definition sample_manager_env :: manager_env where
  "sample_manager_env = \<lparr>mv_send_ok = True, mv_save = write_all, mv_save_backup = write_all,
     mv_undo = write_all, mv_undo_backup = write_all\<rparr>"

definition sample_pairing_run :: "manager_event list" where
  "sample_pairing_run =
     [MG_Start sample_peer (replicate 32 9) \<lparr>ep_address = HA_IPv4 9, ep_port = 4\<rparr> sample_manager_env,
      MG_Datagram [7] \<lparr>ep_address = HA_IPv4 9, ep_port = 4\<rparr> sample_manager_env,
      MG_Confirm 5 sample_manager_env]"

lemma sample_infos: "validate_for_serialization sample_info" "validate_for_serialization sample_peer_info"
  by (simp_all add: validate_for_serialization_def sample_info_def sample_peer_info_def qstr_def)

lemma sample_ids:
  "di_device_id sample_peer_info = 7" "di_certificate_fingerprint sample_peer_info = replicate 32 9"
  "length (di_certificate_fingerprint sample_info) = 32" "di_device_id sample_info = 3"
  "sn_addresses sample_peer = [HA_IPv4 9]" "sn_id sample_peer = 7" "sn_platform sample_peer = qstr ''linux''"
  "is_usable_endpoint sample_pairing \<lparr>ep_address = HA_IPv4 9, ep_port = 4\<rparr>"
  by (simp_all add: sample_peer_def snapshot_from_device_info_def sample_peer_info_def sample_info_def
      is_usable_endpoint_def sample_pairing_def)

lemma sample_submission:
  "decode_datagram sample_pairing [7] = Inr (PM_Submission \<lparr>pc_session_id = 5, pc_sender = sample_peer_info,
     pc_six_digit_sas = qstr ''123456''\<rparr>)"
proof -
  have "device_info_of_map (device_info_fields sample_peer_info) = Inr sample_peer_info"
    using sample_infos by (intro device_info_from_to) (simp_all add: device_info_map_def sample_ids)
  moreover have "length (di_certificate_fingerprint sample_peer_info) = 32" by (simp add: sample_ids)
  moreover have "six_digits (qstr ''123456'')" by (simp add: six_digits_def matches_to_end_def qstr_def)
  ultimately show ?thesis
    by (simp add: decode_datagram_def sample_pairing_def decode_pairing_message_def sample_pairing_cbor_def
        parse_map_def Let_def kMaximumPairingMessageBytes_def)
      (simp add: pairing_envelope_def cbor_map_simps kPairingProtocol_def pairing_of_payload_def
        uuid_from_to_bytes decode_pairing_submission_def deserialize_device_info_def)
qed

lemma sample_request_encoded:
  "encode_pairing_message (qr_text (qp_trust sample_pairing)) (qp_cbor sample_pairing)
     (PM_Request \<lparr>pq_session_id = 5, pq_sender = sample_info, pq_expires_at = Some 301000\<rparr>) = [1]"
  using sample_infos
  by (simp add: encode_pairing_message_def sample_pairing_def sample_pairing_cbor_def validate_sender_def
      uuid_null_def serialize_device_info_def kMaximumPairingMessageBytes_def Let_def) (simp add: sample_info_def)

definition sample_machine :: pairing_machine where
  "sample_machine = new_pairing_machine default_pairing_options (\<lambda>_. Some 1000) (\<lambda>_. 123456) (\<lambda>_. 5)"

definition sample_session :: pairing_snapshot where
  "sample_session = \<lparr>pn_session_id = 5, pn_peer = sample_peer\<lparr>sn_presence := DP_Pairing\<rparr>,
     pn_state = PS_Requesting, pn_sas = qstr ''123456'', pn_expires_at = Some 301000, pn_attempts = 3,
     pn_failure_reason = PFR_None\<rparr>"

definition sample_active :: active_session where
  "sample_active = \<lparr>as_role = R_Outgoing, as_wire_session_id = 5, as_peer_id = 7,
     as_peer_fingerprint = replicate 32 9, as_endpoint = \<lparr>ep_address = HA_IPv4 9, ep_port = 4\<rparr>,
     as_local_confirmed = False, as_remote_code_matched = False\<rparr>"

lemma sample_session_fields:
  "pn_session_id sample_session = 5" "pn_peer sample_session = sample_peer\<lparr>sn_presence := DP_Pairing\<rparr>"
  "pn_state sample_session = PS_Requesting" "pn_expires_at sample_session = Some 301000"
  "pn_sas sample_session = qstr ''123456''"
  by (simp_all add: sample_session_def)

lemma sample_begun: "begin_pairing (sample_peer\<lparr>sn_presence := DP_Pairing\<rparr>) (replicate 32 9) None sample_machine =
    (PairErr_None, sample_machine\<lparr>pm_snapshot := Some sample_session,
       pm_peer_fingerprint := replicate 32 9, pm_signals := [sample_session]\<rparr>)"
proof -
  have "format_sas 123456 = qstr ''123456''" by (simp add: format_sas_def qstr_def)
  then show ?thesis
    by (simp add: begin_pairing_def read_clock_def create_uuid_def sample_machine_def new_pairing_machine_def
        begin_session_def expire_if_needed_def Let_def default_pairing_options_def session_sas_def
        generate_sas_def uuid_null_def dt_valid_def publish_def sample_session_def)
qed

lemmas sample_steps = manager_step_def manager_expire_def manager_snapshot_def on_machine_def
  expire_if_needed_def read_clock_def with_session_def prepare_action_def transition_def publish_def
  uuid_null_def Let_def op_ok_def validate_bound_message_def sample_ids sample_session_fields

definition sample_waits :: "pairing_manager \<Rightarrow> pairing_state \<Rightarrow> active_session \<Rightarrow> bool" where
  "sample_waits g state a \<longleftrightarrow>
     pm_snapshot (mg_machine g) = Some (sample_session\<lparr>pn_state := state\<rparr>) \<and>
     pm_peer_fingerprint (mg_machine g) = replicate 32 9 \<and> mg_active g = Some a \<and> mg_manual g = None \<and>
     pm_clock (mg_machine g) = (\<lambda>_. Some 1000) \<and> mg_store g = new_store (qstr ''/trust'') \<and> mg_has_sender g"

lemma sample_started:
  "sample_waits (manager_step sample_pairing sample_manager (hd sample_pairing_run)) PS_AwaitingUserComparison
     sample_active"
  by (simp add: sample_pairing_run_def sample_waits_def manager_step_def start_pairing_def sample_manager_def
      new_manager_def has_non_terminal_session_def manager_snapshot_def sample_machine_def [symmetric]
      uuid_null_def sample_ids on_machine_def sample_begun sample_session_fields Let_def send_message_def
      sample_request_encoded sample_manager_env_def op_ok_def)
    (simp add: sample_machine_def new_pairing_machine_def mark_transport_ready_def
      mark_transcript_exchanged_def sample_steps sample_active_def)

lemma sample_matched:
  assumes "sample_waits g PS_AwaitingUserComparison sample_active"
  shows "sample_waits (manager_step sample_pairing g
      (MG_Datagram [7] \<lparr>ep_address = HA_IPv4 9, ep_port = 4\<rparr> sample_manager_env)) PS_Confirming
    (sample_active\<lparr>as_remote_code_matched := True\<rparr>)"
  using assms unfolding sample_waits_def
  by (simp add: receive_datagram_def sample_submission handle_submission_def sample_active_def
      submit_displayed_sas_def six_digits_def matches_to_end_def qstr_def sample_steps)

lemma sample_upsert:
  "\<exists>st. store_upsert (qp_trust sample_pairing) (trust_record sample_pairing (new_store (qstr ''/trust''))
      (sample_session\<lparr>pn_state := PS_Confirming\<rparr>) (replicate 32 9) no_selection) (new_store (qstr ''/trust'')) =
        (True, st) \<and> pinning_verify st 7 (replicate 32 9) = PPE_None"
  by (simp add: store_upsert_def validate_and_normalize_def trust_record_def choose_alias_def
      address_strings_def no_selection_def sample_session_fields sample_ids new_store_def store_find_def
      sample_pairing_def sample_layers_def ascii_text_def ascii_space_def qstr_def kSha256FingerprintBytes_def
      Let_def pinning_verify_def trust_status_of_def)

lemma commit_stores:
  assumes "pm_snapshot (mg_machine g) = Some s" and "pn_state s = PS_Confirming"
    and "\<not> uuid_null (sn_id (pn_peer s))" and "qt_trimmed (qr_text (qp_trust qp)) (sn_platform (pn_peer s)) \<noteq> []"
    and "store_upsert (qp_trust qp) (trust_record qp (mg_store g) s (pm_peer_fingerprint (mg_machine g)) selection)
      (mg_store g) = (True, st)"
    and "mv_save env = write_all" and "fst (complete_pairing (pn_session_id s) (mg_machine g)) = PairErr_None"
  shows "mg_store (snd (commit_trust qp env (pn_session_id s) selection g)) = st"
  using assms
  by (cases "complete_pairing (pn_session_id s) (mg_machine g)")
    (simp add: commit_trust_def pending_fingerprint_def session_fingerprint_def store_save_def write_atomic_def
      write_all_def Let_def on_machine_def)

lemma finalize_stores:
  assumes "pm_snapshot (mg_machine g) = Some s" and "mg_active g = Some a" and "pn_state s = PS_Confirming"
    and "as_local_confirmed a" and "as_remote_code_matched a"
    and "mg_store (snd (commit_trust qp env (pn_session_id s) no_selection g)) = st"
  shows "mg_store (snd (finalize_outgoing qp env g)) = st"
proof -
  have "mg_store (snd (send_message qp env m h)) = mg_store h" for m h
    by (simp add: send_message_def Let_def split: option.splits)
  then show ?thesis
    using assms by (cases "commit_trust qp env (pn_session_id s) no_selection g") (simp add: finalize_outgoing_def)
qed

lemma sample_confirmed:
  assumes "sample_waits g PS_Confirming (sample_active\<lparr>as_remote_code_matched := True\<rparr>)"
  shows "pinning_verify (mg_store (manager_step sample_pairing g (MG_Confirm 5 sample_manager_env))) 7
    (replicate 32 9) = PPE_None"
proof -
  let ?s = "sample_session\<lparr>pn_state := PS_Confirming\<rparr>"
  let ?g = "g\<lparr>mg_machine := (mg_machine g)\<lparr>pm_clock := \<lambda>_. Some 1000\<rparr>, mg_manual := None,
    mg_active := Some (sample_active\<lparr>as_remote_code_matched := True, as_local_confirmed := True\<rparr>)\<rparr>"
  obtain st where up: "store_upsert (qp_trust sample_pairing) (trust_record sample_pairing
        (new_store (qstr ''/trust'')) ?s (replicate 32 9) no_selection) (new_store (qstr ''/trust'')) = (True, st)"
    and st: "pinning_verify st 7 (replicate 32 9) = PPE_None"
    using sample_upsert by blast
  have pl: "qt_trimmed (qr_text (qp_trust sample_pairing)) (qstr ''linux'') \<noteq> []"
    by (simp add: sample_pairing_def sample_layers_def ascii_text_def ascii_space_def qstr_def)
  have step: "manager_step sample_pairing g (MG_Confirm 5 sample_manager_env) =
      snd (finalize_outgoing sample_pairing sample_manager_env ?g)"
    using assms unfolding sample_waits_def
    by (simp add: manager_confirm_def validate_local_def unless_expired_def sample_active_def sample_steps)
  have committed: "mg_store (snd (commit_trust sample_pairing sample_manager_env (pn_session_id ?s) no_selection ?g)) = st"
    using assms up pl unfolding sample_waits_def
    by (intro commit_stores) (simp_all add: sample_manager_env_def complete_pairing_def sample_steps)
  have "mg_store (snd (finalize_outgoing sample_pairing sample_manager_env ?g)) = st"
    by (rule finalize_stores [where a = "sample_active\<lparr>as_remote_code_matched := True, as_local_confirmed := True\<rparr>",
          OF _ _ _ _ _ committed])
      (use assms in \<open>simp_all add: sample_waits_def\<close>)
  then show ?thesis using st step by simp
qed

lemma sample_pairing_trusts:
  "pinning_verify (mg_store (run (manager_step sample_pairing) sample_manager sample_pairing_run)) 7
     (replicate 32 9) = PPE_None"
  using sample_confirmed [OF sample_matched [OF sample_started]] by (simp add: sample_pairing_run_def)

theorem trust_needs_both_sides_witness:
  "\<exists>session. outgoing_confirmed sample_pairing sample_manager sample_pairing_run session 7 (replicate 32 9) \<or>
     incoming_confirmed sample_pairing sample_pairing_run session 7 (replicate 32 9)"
  unfolding sample_manager_def
  by (rule trust_needs_both_sides [OF sample_pairing_trusts [unfolded sample_manager_def]])
    (simp add: pinning_verify_def trust_status_of_def store_find_def new_store_def)

end
