(* ===== verification/Spec2Isabelle.thy ===== *)
theory Spec2Isabelle
  imports Clipboard ServerTheorems ClientAdmission RemoteInput EventQueue Reconnect FileTransfer TransferOffer TransferControl PairingTrust
begin

text \<open>
  A verification library for DeskflowPlus, a software KVM (one keyboard and mouse for several computers)
  that its product ``RelayDesk'' extends by pairing of computers and file transfer. Files are named by
  their path in the repository.

  \<^bold>\<open>How the parts interact.\<close> The computer with the keyboard runs the server, the others a client. The
  server (src/lib/server/Server.cpp) gets input from its primary screen, decides by the configured layout
  (Config.cpp) which screen has the focus, and calls that screen's proxy (ClientProxy1_0.cpp to
  ClientProxy1_8.cpp). A proxy writes a message for each call (src/lib/deskflow/ProtocolUtil.cpp,
  ProtocolTypes.cpp) into a packet filter (PacketStreamFilter.cpp) over a socket (src/lib/net/TCPSocket.cpp).
  On the other side the client (src/lib/client/Client.cpp) connects, says hello and lets its server proxy
  (ServerProxy.cpp) read the messages and call the screen (src/lib/deskflow/Screen.cpp). New connections are
  admitted by ClientListener.cpp and ClientProxyUnknown.cpp. Clipboards travel in chunks (StreamChunker.cpp,
  ClipboardChunk.cpp).
  Apart from that, two devices pair (src/lib/relaydesk/pairing): a datagram goes to the pairing manager,
  which drives the pairing state machine and, when both sides have compared the six digit code, has the
  committer write the peer's certificate fingerprint into the trust store (src/lib/relaydesk/trust); TLS
  connections are admitted by the pinning policy over that store. Over an admitted stream the peers exchange
  frames (src/lib/relaydesk/transfer/FrameCodec.cpp). A transfer starts with an offer
  (TransferOfferStateMachine.cpp), runs under TransferControlStateMachine.cpp, and moves each file from a
  sender with its pump (TransferSender.cpp) to a receiver (FileReceiver.cpp) through file messages
  (FileMessageCodec.cpp); the receiver's paths come from PathPolicy.cpp.

  \<^bold>\<open>Theories and code, the KVM.\<close>
  \<^item> \<open>StreamBuffer\<close> (io/StreamBuffer.cpp), \<open>TcpSocket\<close> (net/TCPSocket.cpp), \<open>PacketFilter\<close>
    (deskflow/PacketStreamFilter.cpp over io/StreamFilter.cpp): the transport. The buffer interprets the
    locale \<open>byte_queue\<close> of \<open>Prelude\<close>; the others use it through that contract only.
  \<^item> \<open>ProtocolFormat\<close> (deskflow/ProtocolUtil.cpp, ProtocolTypes.cpp): \<open>writef\<close>, \<open>readf\<close> and every message
    format. The locales \<open>byte_source\<close> and \<open>shrinking_source\<close> say what reading needs of a stream.
  \<^item> \<open>Clipboard\<close> (deskflow/Clipboard.cpp, IClipboard.cpp, ClipboardChunk.cpp, StreamChunker.cpp).
  \<^item> \<open>StdMap\<close>: \<open>std::map\<close> as a sorted list, under the locale \<open>std_map_order\<close>. \<open>ScreenConfig\<close>
    (server/Config.cpp): screens, aliases, links, options, neighbours.
  \<^item> \<open>ServerState\<close>, \<open>ServerSwitch\<close>, \<open>ServerEvents\<close> (server/Server.cpp): members and options, the way over
    an edge, the handlers; \<open>ServerInvariant\<close>, \<open>ServerRuns\<close>, \<open>ServerTheorems\<close>: what they keep.
  \<^item> \<open>LocalScreen\<close> (deskflow/Screen.cpp, server/PrimaryClient.cpp), \<open>ClientState\<close>, \<open>ServerProxy\<close>,
    \<open>ClientEvents\<close> (client/Client.cpp, client/ServerProxy.cpp).
  \<^item> \<open>PartialMachine\<close>: the locale \<open>partial_machine\<close> of machines whose steps may be undefined.
    \<open>ClientProxy\<close> (server/ClientProxy.cpp, ClientProxy1_0.cpp to ClientProxy1_8.cpp) and \<open>ClientAdmission\<close>
    (ClientProxyUnknown.cpp, ClientListener.cpp) interpret it. \<open>RemoteInput\<close> composes both ends.
  \<^item> \<open>EventQueue\<close> (base/EventQueue.cpp, SimpleEventQueueBuffer.cpp, PriorityQueue.h, Stopwatch.cpp): the queue
    below all of this, over the locale \<open>event_buffer\<close> that the simple buffer interprets.

  \<^bold>\<open>Theories and code, RelayDesk\<close> (under src/lib/relaydesk).
  \<^item> \<open>Prelude\<close>: machine integers, byte orders, runs of step functions, the services of Qt and the clock.
  \<^item> \<open>RdftProtocol\<close>: transfer/Protocol.h, ProtocolMessageRegistry.cpp and its table.
  \<^item> \<open>StreamInterface\<close>: the locale \<open>framed_stream\<close> (an encoder and an incremental decoder), in which the
    independence of the segmentation of a stream is proved once; \<open>FrameCodec\<close> interprets it.
  \<^item> \<open>MachineInterface\<close>: the locales \<open>machine\<close>, \<open>absorbing_machine\<close>, \<open>monotone_machine\<close> and
    \<open>provenance_machine\<close> for state machines given by a step function; the offer, control, receiver,
    pairing and trust machines interpret them.
  \<^item> \<open>TransferTypes\<close>, \<open>TransferOffer\<close>, \<open>TransferControl\<close>: TransferTypes.h, TransferOfferStateMachine.cpp,
    TransferControlStateMachine.cpp. \<open>PathPolicy\<close>: which paths of a peer are accepted and where they lead.
  \<^item> \<open>Cbor\<close>: the CBOR values the codecs build and take apart, and the locales \<open>cbor_format\<close> and
    \<open>cbor_codec\<close>; \<open>FileMessages\<close> (FileMessageCodec.cpp) and \<open>PairingMessages\<close>
    (pairing/PairingMessageCodec.cpp, device/DeviceInfo.cpp) interpret them.
  \<^item> \<open>FileSender\<close>, \<open>FileStream\<close>: TransferSender.cpp. \<open>FileReceiver\<close>: FileReceiver.cpp. \<open>FileTransfer\<close>: both
    ends composed.
  \<^item> \<open>TrustStore\<close>: trust/TrustedDeviceStore.cpp, the atomic file writes below it, TlsPeerPinningPolicy.cpp.
    \<open>Pairing\<close>: PairingStateMachine.cpp. \<open>PairingManager\<close>: PairingManager.cpp, PairingTrustCommitter.cpp.
    \<open>PairingTrust\<close>: how trust comes about in runs of the manager.
  \<^item> \<open>Reconnect\<close>: discovery/AddressCandidateProvider.cpp, reconnect/AutoReconnectCoordinator.cpp and the
    parser of manual addresses in discovery/DiscoverySettings.cpp; it interprets \<open>defined_machine\<close> and
    \<open>partial_provenance\<close> of \<open>PartialMachine\<close>.

  \<^bold>\<open>Conventions.\<close> A class is a record of its members, a method a function that returns its result and the
  object afterwards; enumerations keep the names of the source behind a prefix. Integers are words of their
  width; coordinates and other values that do not come near their bounds are \<open>int\<close>, with the conversions to
  16 bits of the protocol written out; floating point values are reals with the rounding as an argument. A
  \<open>QDateTime\<close> is \<open>int option\<close>, milliseconds or invalid. The result \<open>None\<close> is a failed assertion, undefined
  behaviour or, where a text says so, a loop that does not return. What is not under src/ is an argument:
  Qt's text and number functions, its paths and files, the bytes of CBOR and JSON, SHA-256, the answers of
  the operating system, of the file system and of the platform's screen; a lemma that relies on such a
  function names what it needs as a hypothesis and has a witness. Concurrency is an explicit sequence of
  events: each handler is one step, as the program runs them on one event thread.

  \<^bold>\<open>What the properties show.\<close> Transport: the buffer is a byte queue, packets come out as they went in
  whatever the segmentation, nothing stays unread, the socket's registration matches its state. Protocol:
  every message format is well typed and what is written is read. Clipboards arrive. Server: in every run the
  focus is on a connected client (under the conditions the findings show to be needed), a motion switches
  screens only when the options allow it, the cursor arrives on the screen it enters, clipboards stay within
  the limit; links answer as configured. Client: in every run it stays in one of its phases, in which its
  handlers, timer and proxy agree and harmless events are defined. Admission: only clients that introduced
  themselves are served. Both ends: input sent by the server is the input asked of the client's platform.
  RelayDesk: frames round trip and are canonical; every run of offers and control keeps the snapshot
  consistent, follows the life-cycle diagram, decides once and ends for good; an accepted path only descends;
  a sender streams its file exactly, a receiver commits only bytes that hash as announced, both together
  deliver the file; a device becomes trusted only after both sides confirmed; a stored trust decision
  survives restarts and a damaged file; reconnection dials and accepts only what the trust store allows and
  tries every candidate. Event queue: events come out in the order they were accepted, timers fire when due.

  \<^bold>\<open>Bounds.\<close> Loops are structural or measured by what they consume: the message loops of client and server
  by the bytes not yet read, the packet loop by the bytes in the socket. \<open>stream_calls\<close> counts the calls of
  \<open>nextFrame\<close> a whole file takes (one per prefix chunk and per file chunk, plus two) and is proved exact.
  The searches of the server over its screens, which can loop for ever (links in a circle), are
  \<open>partial_function\<close>s with the result \<open>None\<close> for that; a finding shows such a configuration.

  \<^bold>\<open>Not modelled.\<close> The text of diagnostics (except where it goes on the wire or is inspected); the text
  format of the configuration, hot keys and the input filter; the key map and key state; the destructor of
  the server; the GUI and the platform layers; SecureSocket and other TLS code and the socket multiplexer;
  announcement of devices, manifests, resumption, history and the runtimes that connect
  RelayDesk's parts to Qt's event loop; the remaining RelayDesk codecs and stores, which follow the same
  pattern as the modelled ones.
\<close>

end
